(* ===== verification/Prelude.thy ===== *)
theory Prelude
  imports Main "HOL-Library.Word"
begin

text \<open>
  The shared vocabulary of the development.

  The program is C++20. A member function that changes its object becomes a function from the
  object's state to an \<open>outcome\<close>: it returns (with the new state and a value), it throws (with
  the state as the exception leaves it), it ends the process (\<open>std::terminate\<close>, the macros
  \<open>ASSERT\<close> and \<open>FATAL\<close> of \<open>common/macros.h\<close>), it never returns (an unbounded probe loop), or
  it executes an operation that C++ leaves undefined (a null dereference, signed overflow).
  The predicate \<open>post\<close> is total correctness over outcomes: it is false of the last three.
\<close>

section \<open>Outcomes of a C++ call\<close>

datatype exn =
    Logic_error string
  | Runtime_error string
  | Invalid_argument string
  | Out_of_range string

datatype ('s, 'a) outcome =
    Ok 's 'a
  | Throw 's exn
  | Abort string
  | Hang
  | Undef

named_theorems post_intros \<open>rules that prove a postcondition of a composed call\<close>

text \<open>Sequencing: the rest of the body runs only when the call returns.\<close>

primrec then_do :: "('s, 'a) outcome \<Rightarrow> ('s \<Rightarrow> 'a \<Rightarrow> ('s, 'b) outcome) \<Rightarrow> ('s, 'b) outcome" where
  "then_do (Ok s a) f = f s a"
| "then_do (Throw s e) f = Throw s e"
| "then_do (Abort m) f = Abort m"
| "then_do Hang f = Hang"
| "then_do Undef f = Undef"

text \<open>A call on a part of the state, put back into the whole by \<open>put\<close>.\<close>

definition on_part :: "('p \<Rightarrow> 's) \<Rightarrow> ('p, 'a) outcome \<Rightarrow> ('s, 'a) outcome" where
  "on_part put m = map_outcome put id m"

lemma on_part_simps [simp]:
  "on_part put (Ok p a) = Ok (put p) a"
  "on_part put (Throw p e) = Throw (put p) e"
  "on_part put (Abort m) = Abort m"
  "on_part put Hang = Hang"
  "on_part put Undef = Undef"
  by (simp_all add: on_part_def)

text \<open>A loop without a bound is an \<open>option\<close>: \<open>None\<close> when it never ends.\<close>

definition await :: "'b option \<Rightarrow> ('b \<Rightarrow> ('s, 'a) outcome) \<Rightarrow> ('s, 'a) outcome" where
  "await x f = (case x of None \<Rightarrow> Hang | Some b \<Rightarrow> f b)"

lemma await_simps [simp]: "await None f = Hang" "await (Some b) f = f b"
  by (simp_all add: await_def)

text \<open>Following a pointer that may be null.\<close>

definition deref :: "'b option \<Rightarrow> ('b \<Rightarrow> ('s, 'a) outcome) \<Rightarrow> ('s, 'a) outcome" where
  "deref x f = (case x of None \<Rightarrow> Undef | Some b \<Rightarrow> f b)"

lemma deref_simps [simp]: "deref None f = Undef" "deref (Some b) f = f b"
  by (simp_all add: deref_def)

primrec post :: "('s \<Rightarrow> 'a \<Rightarrow> bool) \<Rightarrow> ('s \<Rightarrow> exn \<Rightarrow> bool) \<Rightarrow> ('s, 'a) outcome \<Rightarrow> bool" where
  "post P E (Ok s a) = P s a"
| "post P E (Throw s e) = E s e"
| "post P E (Abort m) = False"
| "post P E Hang = False"
| "post P E Undef = False"

lemma post_then_do [post_intros]:
  "post (\<lambda>s a. post P E (f s a)) E m \<Longrightarrow> post P E (then_do m f)"
  by (cases m) simp_all

lemma post_on_part [post_intros]:
  "post (\<lambda>p a. P (put p) a) (\<lambda>p e. E (put p) e) m \<Longrightarrow> post P E (on_part put m)"
  by (cases m) simp_all

lemma post_mono:
  "post P E m \<Longrightarrow> (\<And>s a. P s a \<Longrightarrow> P' s a) \<Longrightarrow> (\<And>s e. E s e \<Longrightarrow> E' s e) \<Longrightarrow> post P' E' m"
  by (cases m) simp_all

lemma postD_Ok: "post P E m \<Longrightarrow> m = Ok s a \<Longrightarrow> P s a"
  by simp

lemma post_False_E: "post P (\<lambda>_ _. False) m \<Longrightarrow> \<exists>s a. m = Ok s a \<and> P s a"
  by (cases m) simp_all

text \<open>What a caller can observe: the outcome was not one of the three fatal ones.\<close>

definition survives :: "('s, 'a) outcome \<Rightarrow> bool" where
  "survives m \<longleftrightarrow> (case m of Ok _ _ \<Rightarrow> True | Throw _ _ \<Rightarrow> True | _ \<Rightarrow> False)"

lemma survives_post: "survives m \<longleftrightarrow> post (\<lambda>_ _. True) (\<lambda>_ _. True) m"
  by (cases m) (simp_all add: survives_def)

section \<open>Lists\<close>

lemma nth_list_update_if:
  "j < length xs \<Longrightarrow> (xs[i := x]) ! j = (if i = j then x else xs ! j)"
  by (simp add: nth_list_update)

lemma distinct_nth_inj:
  "distinct xs \<Longrightarrow> i < length xs \<Longrightarrow> j < length xs \<Longrightarrow> xs ! i = xs ! j \<longleftrightarrow> i = j"
  by (rule nth_eq_iff_index_eq)

lemma card_lt_ex_free:
  assumes "finite A" and "S \<subseteq> A" and "card S < card A"
  shows "\<exists>x\<in>A. x \<notin> S"
proof (rule ccontr)
  assume "\<not> ?thesis"
  then have "A \<subseteq> S" by blast
  with assms(2) have "A = S" by blast
  with assms(3) show False by simp
qed

section \<open>Masked 64-bit indices\<close>

text \<open>
  The open-addressed tables mask \<open>std::size_t\<close> values with \<open>slots - 1\<close> where the number of
  slots is a power of two. On words this is \<open>take_bit\<close>, a ring homomorphism.
\<close>

unbundle bit_operations_syntax

lemma and_mask_take_bit: "(w :: 'a::len word) AND mask k = take_bit k w"
  by (simp add: take_bit_eq_mask)

lemma pow2_minus_1_mask: "(2 :: 'a::len word) ^ k - 1 = mask k"
  by (simp add: mask_eq_exp_minus_1)

lemma pow2_dvd_word_size: "k \<le> LENGTH('a::len) \<Longrightarrow> (2 :: nat) ^ k dvd 2 ^ LENGTH('a)"
  by (rule le_imp_power_dvd)

lemma unat_take_bit_word: "unat (take_bit k (w :: 'a::len word)) = unat w mod 2 ^ k"
  by (simp add: unsigned_take_bit_eq flip: take_bit_eq_mod)

lemma unat_take_bit_of_nat:
  "k \<le> LENGTH('a::len) \<Longrightarrow> unat (take_bit k (of_nat j :: 'a word)) = j mod 2 ^ k"
  by (simp only: unat_take_bit_word unat_of_nat mod_mod_cancel[OF pow2_dvd_word_size])

lemma take_bit_add_left:
  fixes a b :: "'a::len word"
  assumes "k \<le> LENGTH('a)"
  shows "take_bit k (take_bit k a + b) = take_bit k (a + b)"
proof -
  have "unat (take_bit k (take_bit k a + b)) = (unat a mod 2 ^ k + unat b) mod 2 ^ k"
    by (simp only: unat_take_bit_word unat_word_ariths mod_mod_cancel[OF pow2_dvd_word_size[OF assms]])
  also have "\<dots> = unat (take_bit k (a + b))"
    by (simp only: unat_take_bit_word unat_word_ariths mod_mod_cancel[OF pow2_dvd_word_size[OF assms]]
        mod_add_left_eq)
  finally show ?thesis
    by (simp only: word_eq_iff_unsigned[where ?'a = nat])
qed

lemma take_bit_add_right:
  fixes a b :: "'a::len word"
  assumes "k \<le> LENGTH('a)"
  shows "take_bit k (a + take_bit k b) = take_bit k (a + b)"
  using take_bit_add_left[OF assms, of b a] by (simp only: add.commute)

lemma take_bit_diff_left:
  fixes a b :: "'a::len word"
  assumes "k \<le> LENGTH('a)"
  shows "take_bit k (take_bit k a - b) = take_bit k (a - b)"
  using take_bit_add_left[OF assms, of a "- b"] by (simp only: diff_conv_add_uminus)

lemma take_bit_diff_right:
  fixes a b :: "'a::len word"
  assumes k: "k \<le> LENGTH('a)"
  shows "take_bit k (a - take_bit k b) = take_bit k (a - b)"
proof -
  let ?x = "a - take_bit k b"
  have "take_bit k (?x + b) = take_bit k (?x + take_bit k b)"
    by (rule take_bit_add_right[OF k, symmetric])
  also have "\<dots> = take_bit k a" by simp
  finally have "take_bit k (take_bit k (?x + b) - b) = take_bit k (take_bit k a - b)" by simp
  then show ?thesis by (simp add: take_bit_diff_left[OF k])
qed

end
