(* ===== verification/ProbeIndex.thy ===== *)
theory ProbeIndex
  imports Prelude
begin

text \<open>
  Arithmetic of masked indices, shared by the two open-addressed tables of the program
  (\<open>MarketOrderBook::SlotArray\<close> and the price slots of \<open>BinanceDepthBook\<close>). A table of \<open>2 ^ k\<close>
  slots is walked by \<open>index = (index + 1) & mask\<close>. Positions are counted from a slot \<open>z\<close>:
  \<open>at k z j\<close> is the slot \<open>j\<close> steps after \<open>z\<close>, \<open>dist k a b\<close> the steps from \<open>a\<close> to \<open>b\<close>. From an
  empty slot \<open>z\<close> every probe chain is an interval of positions, which is what makes the
  backward-shift deletion provable.
\<close>

definition idx :: "nat \<Rightarrow> 64 word \<Rightarrow> bool" where
  "idx k i \<longleftrightarrow> take_bit k i = i"

definition at :: "nat \<Rightarrow> 64 word \<Rightarrow> nat \<Rightarrow> 64 word" where
  "at k z j = take_bit k (z + of_nat j)"

definition dist :: "nat \<Rightarrow> 64 word \<Rightarrow> 64 word \<Rightarrow> nat" where
  "dist k a b = unat (take_bit k (b - a))"

lemma idx_take_bit [simp]: "idx k (take_bit k w)"
  by (simp add: idx_def)

lemma idx_at [simp]: "idx k (at k z j)"
  by (simp add: at_def)

lemma at_0 [simp]: "idx k z \<Longrightarrow> at k z 0 = z"
  by (simp add: at_def idx_def)

lemma at_at [simp]: "k \<le> 64 \<Longrightarrow> at k (at k z g) m = at k z (g + m)"
  by (simp add: at_def take_bit_add_left add.assoc)

lemma at_Suc: "k \<le> 64 \<Longrightarrow> take_bit k (at k z j + 1) = at k z (Suc j)"
  using at_at[of k z j 1] by (simp add: at_def)

lemma dist_at:
  assumes "k \<le> 64"
  shows "dist k z (at k z j) = j mod 2 ^ k"
  using assms by (simp add: dist_def at_def take_bit_diff_left unat_take_bit_of_nat)

lemma dist_less: "k < 64 \<Longrightarrow> dist k a b < 2 ^ k"
  by (simp add: dist_def unat_take_bit_word)

lemma at_dist:
  assumes "idx k b" and "k < 64"
  shows "at k a (dist k a b) = b"
  using assms by (simp add: at_def dist_def idx_def take_bit_add_right)

lemma at_mod:
  assumes "k \<le> 64"
  shows "at k z (j mod 2 ^ k) = at k z j"
proof -
  have "take_bit k (of_nat (j mod 2 ^ k) :: 64 word) = take_bit k (of_nat j)"
    by (simp add: word_eq_iff_unsigned[where ?'a = nat] unat_take_bit_of_nat assms)
  then show ?thesis
    using assms take_bit_add_right[of k z "of_nat (j mod 2 ^ k)"]
      take_bit_add_right[of k z "of_nat j"]
    by (simp add: at_def)
qed

lemma at_add_size [simp]: "k \<le> 64 \<Longrightarrow> at k z (j + 2 ^ k) = at k z j"
  by (metis at_mod mod_add_self2)

lemma at_inj:
  "k \<le> 64 \<Longrightarrow> i < 2 ^ k \<Longrightarrow> j < 2 ^ k \<Longrightarrow> at k z i = at k z j \<longleftrightarrow> i = j"
  by (metis dist_at mod_less)

lemma dist_at_at:
  assumes "k \<le> 64" "g \<le> j" "j < 2 ^ k"
  shows "dist k (at k z g) (at k z j) = j - g"
proof -
  have "dist k (at k z g) (at k (at k z g) (j - g)) = (j - g) mod 2 ^ k"
    by (rule dist_at) fact
  with assms show ?thesis by simp
qed

lemma dist_at_at_wrap:
  assumes "k \<le> 64" "j < g" "g < 2 ^ k"
  shows "dist k (at k z g) (at k z j) = 2 ^ k + j - g"
proof -
  have "at k z j = at k (at k z g) (2 ^ k + j - g)"
    using assms by (simp add: add.commute)
  then have "dist k (at k z g) (at k z j) = (2 ^ k + j - g) mod 2 ^ k"
    using assms(1) by (simp only: dist_at)
  with assms show ?thesis by simp
qed

lemma idx_obtain:
  assumes "idx k i" "k < 64"
  obtains j where "j < 2 ^ k" "i = at k z j"
  using assms at_dist[of k i z] dist_less[of k z i] by metis

lemma idx_iff_less: "k < 64 \<Longrightarrow> idx k i \<longleftrightarrow> unat i < 2 ^ k"
  by (simp add: idx_def word_eq_iff_unsigned[where ?'a = nat] unat_take_bit_word mod_eq_self_iff_div_eq_0 div_eq_0_iff)

lemma finite_idx [simp]: "finite {i. idx k i}"
  by simp

lemma card_idx: "k < 64 \<Longrightarrow> card {i. idx k i} = 2 ^ k"
proof -
  assume k: "k < 64"
  have "bij_betw (at k 0) {..<2 ^ k} {i. idx k i}"
    unfolding bij_betw_def
    using at_inj[of k] k by (auto simp: inj_on_def elim: idx_obtain[OF _ k, of _ 0])
  then show ?thesis by (auto dest: bij_betw_same_card)
qed

end
