(* ===== verification/SlotArray.thy ===== *)
theory SlotArray
  imports ProbeIndex
begin

text \<open>
  \<open>MarketOrderBook::SlotArray\<close> (\<open>trading/strategy/market_order_book.h\<close>): the open-addressed table
  with linear probing and backward-shift deletion. Indices are \<open>std::size_t\<close> words masked as the
  code masks them; the template parameter \<open>kSlots\<close> is an argument. The probe loops carry no
  bound in the code, so they are \<open>partial_function (option)\<close>; the theory proves that they stop
  while a slot is free, that the table is a finite map, and that deletion breaks no chain.
\<close>

section \<open>Model\<close>

record slot_entry =
  se_key :: "64 word"
  se_node :: "nat option"

definition empty_entry :: slot_entry where
  "empty_entry = \<lparr>se_key = 0, se_node = None\<rparr>"

record slot_array =
  sa_entries :: "64 word \<Rightarrow> slot_entry"
  sa_live_count :: nat

definition slot_array_new :: slot_array where
  "slot_array_new = \<lparr>sa_entries = (\<lambda>_. empty_entry), sa_live_count = 0\<rparr>"

definition kMask :: "64 word \<Rightarrow> 64 word" where
  "kMask kSlots = kSlots - 1"

definition indexOf :: "64 word \<Rightarrow> 64 word \<Rightarrow> 64 word" where
  "indexOf kSlots key = key AND kMask kSlots"

partial_function (option) find_loop ::
  "64 word \<Rightarrow> (64 word \<Rightarrow> slot_entry) \<Rightarrow> 64 word \<Rightarrow> 64 word \<Rightarrow> nat option option" where
  "find_loop kSlots es key index =
     (if se_node (es index) \<noteq> None then
        if se_key (es index) = key then Some (se_node (es index))
        else find_loop kSlots es key ((index + 1) AND kMask kSlots)
      else Some None)"

definition slot_find :: "64 word \<Rightarrow> 64 word \<Rightarrow> slot_array \<Rightarrow> nat option option" where
  "slot_find kSlots key sa = find_loop kSlots (sa_entries sa) key (indexOf kSlots key)"

partial_function (option) insert_loop ::
  "64 word \<Rightarrow> (64 word \<Rightarrow> slot_entry) \<Rightarrow> 64 word \<Rightarrow> 64 word option" where
  "insert_loop kSlots es index =
     (if se_node (es index) \<noteq> None then insert_loop kSlots es ((index + 1) AND kMask kSlots)
      else Some index)"

definition slot_insert :: "64 word \<Rightarrow> 64 word \<Rightarrow> nat \<Rightarrow> slot_array \<Rightarrow> slot_array option" where
  "slot_insert kSlots key node sa =
     (case insert_loop kSlots (sa_entries sa) (indexOf kSlots key) of
        None \<Rightarrow> None
      | Some index \<Rightarrow> Some
          \<lparr>sa_entries = (sa_entries sa)(index := \<lparr>se_key = key, se_node = Some node\<rparr>),
           sa_live_count = sa_live_count sa + 1\<rparr>)"

partial_function (option) erase_loop ::
  "64 word \<Rightarrow> (64 word \<Rightarrow> slot_entry) \<Rightarrow> 64 word \<Rightarrow> 64 word \<Rightarrow> 64 word option" where
  "erase_loop kSlots es key index =
     (if se_node (es index) \<noteq> None \<and> se_key (es index) \<noteq> key
      then erase_loop kSlots es key ((index + 1) AND kMask kSlots)
      else Some index)"

partial_function (option) shift_loop ::
  "64 word \<Rightarrow> (64 word \<Rightarrow> slot_entry) \<Rightarrow> 64 word \<Rightarrow> 64 word \<Rightarrow> (64 word \<Rightarrow> slot_entry) option" where
  "shift_loop kSlots es hole probe0 =
     (let probe = (probe0 + 1) AND kMask kSlots in
      if se_node (es probe) = None then Some es
      else let home = indexOf kSlots (se_key (es probe)) in
        if ((home - hole - 1) AND kMask kSlots) \<ge> ((probe - hole) AND kMask kSlots)
        then shift_loop kSlots (es(hole := es probe, probe := empty_entry)) probe probe
        else shift_loop kSlots es hole probe)"

text \<open>\<open>Some (sa', None)\<close> where the key is absent, \<open>Some (sa', Some node)\<close> where it was removed.\<close>

definition slot_erase :: "64 word \<Rightarrow> 64 word \<Rightarrow> slot_array \<Rightarrow> (slot_array \<times> nat option) option" where
  "slot_erase kSlots key sa =
     (case erase_loop kSlots (sa_entries sa) key (indexOf kSlots key) of
        None \<Rightarrow> None
      | Some index \<Rightarrow>
          (case se_node (sa_entries sa index) of
             None \<Rightarrow> Some (sa, None)
           | Some removed \<Rightarrow>
               (case shift_loop kSlots ((sa_entries sa)(index := empty_entry)) index index of
                  None \<Rightarrow> None
                | Some es \<Rightarrow> Some (\<lparr>sa_entries = es, sa_live_count = sa_live_count sa - 1\<rparr>,
                                   Some removed))))"

text \<open>\<open>forEachNode\<close> visits the nodes in array order; this is the order of its visits.\<close>

definition slot_pairs :: "64 word \<Rightarrow> slot_array \<Rightarrow> (64 word \<times> nat) list" where
  "slot_pairs kSlots sa =
     List.map_filter (\<lambda>i. let e = sa_entries sa (of_nat i) in
                          map_option (\<lambda>v. (se_key e, v)) (se_node e)) [0..<unat kSlots]"

definition slot_nodes :: "64 word \<Rightarrow> slot_array \<Rightarrow> nat list" where
  "slot_nodes kSlots sa = map snd (slot_pairs kSlots sa)"

definition slot_clear :: "slot_array \<Rightarrow> slot_array" where
  "slot_clear sa = \<lparr>sa_entries = (\<lambda>_. empty_entry), sa_live_count = 0\<rparr>"

section \<open>Abstraction and invariant\<close>

definition slot_map :: "64 word \<Rightarrow> slot_array \<Rightarrow> 64 word \<Rightarrow> nat option" where
  "slot_map kSlots sa = map_of (slot_pairs kSlots sa)"

definition occupied :: "(64 word \<Rightarrow> slot_entry) \<Rightarrow> 64 word \<Rightarrow> bool" where
  "occupied es i \<longleftrightarrow> se_node (es i) \<noteq> None"

text \<open>The key and node pairs stored in slots of the table.\<close>

definition slot_graph :: "nat \<Rightarrow> (64 word \<Rightarrow> slot_entry) \<Rightarrow> (64 word \<times> nat) set" where
  "slot_graph k es = {(se_key (es i), v) | i v. idx k i \<and> se_node (es i) = Some v}"

definition keys_once :: "nat \<Rightarrow> (64 word \<Rightarrow> slot_entry) \<Rightarrow> bool" where
  "keys_once k es \<longleftrightarrow> (\<forall>i j. idx k i \<and> idx k j \<and> occupied es i \<and> occupied es j \<and>
                            se_key (es i) = se_key (es j) \<longrightarrow> i = j)"

text \<open>No chain is broken: from its home to an entry every slot is occupied.\<close>

definition chains :: "nat \<Rightarrow> (64 word \<Rightarrow> slot_entry) \<Rightarrow> bool" where
  "chains k es \<longleftrightarrow> (\<forall>i. idx k i \<and> occupied es i \<longrightarrow>
     (let h = take_bit k (se_key (es i)) in \<forall>m\<le>dist k h i. occupied es (at k h m)))"

definition slot_inv :: "nat \<Rightarrow> slot_array \<Rightarrow> bool" where
  "slot_inv k sa \<longleftrightarrow> keys_once k (sa_entries sa) \<and> chains k (sa_entries sa) \<and>
     sa_live_count sa = card (dom (slot_map (2 ^ k) sa)) \<and> sa_live_count sa < 2 ^ k"

section \<open>Masks and the stored pairs\<close>

lemma and_kMask [simp]: "x AND kMask (2 ^ k) = take_bit k x"
  by (simp add: kMask_def pow2_minus_1_mask and_mask_take_bit)

lemma indexOf_pow2 [simp]: "indexOf (2 ^ k) key = take_bit k key"
  by (simp add: indexOf_def)

lemma unat_idx_of_nat: "k \<le> 64 \<Longrightarrow> i < 2 ^ k \<Longrightarrow> unat (of_nat i :: 64 word) = i"
proof -
  assume "k \<le> 64" "i < 2 ^ k"
  moreover have "(2 :: nat) ^ k \<le> 2 ^ 64"
    by (rule power_increasing) (use \<open>k \<le> 64\<close> in auto)
  ultimately have "i < 2 ^ 64"
    by (rule_tac less_le_trans)
  then show ?thesis
    by (simp add: unat_of_nat)
qed

lemma unat_pow2_64: "k < 64 \<Longrightarrow> unat (2 ^ k :: 64 word) = 2 ^ k"
  using unat_idx_of_nat[of "Suc k" "2 ^ k"] by (simp only: of_nat_power of_nat_numeral) simp

lemma occupied_upd [simp]:
  "occupied (es(i := e)) j \<longleftrightarrow> (if j = i then se_node e \<noteq> None else occupied es j)"
  "se_node empty_entry = None"
  by (simp_all add: occupied_def empty_entry_def)

lemma set_map_filter: "set (List.map_filter f xs) = {y. \<exists>x\<in>set xs. f x = Some y}"
  by (induction xs) (auto simp: List.map_filter_simps split: option.splits)

lemma distinct_map_filter:
  assumes "distinct xs"
    and "\<And>x y a b. x \<in> set xs \<Longrightarrow> y \<in> set xs \<Longrightarrow> f x = Some a \<Longrightarrow> f y = Some b \<Longrightarrow> g a = g b \<Longrightarrow> x = y"
  shows "distinct (map g (List.map_filter f xs))"
  using assms
proof (induction xs)
  case (Cons x xs)
  have IH: "distinct (map g (List.map_filter f xs))"
    using Cons.prems by (intro Cons.IH) auto
  show ?case
  proof (cases "f x")
    case (Some a)
    have "g a \<notin> g ` set (List.map_filter f xs)"
    proof
      assume "g a \<in> g ` set (List.map_filter f xs)"
      then obtain y b where "y \<in> set xs" "f y = Some b" "g a = g b"
        by (auto simp: set_map_filter)
      with Cons.prems Some have "x = y" by (intro Cons.prems(2)) auto
      with \<open>y \<in> set xs\<close> Cons.prems(1) show False by simp
    qed
    with Some IH show ?thesis by (simp add: List.map_filter_simps)
  qed (use IH in \<open>simp add: List.map_filter_simps\<close>)
qed (simp add: List.map_filter_simps)

lemma ex_idx_iff: "k < 64 \<Longrightarrow> (\<exists>i<2 ^ k. P (of_nat i :: 64 word)) \<longleftrightarrow> (\<exists>w. idx k w \<and> P w)"
proof
  assume k: "k < 64" and "\<exists>w. idx k w \<and> P w"
  then obtain w where "unat w < 2 ^ k" "P w"
    by (auto simp: idx_iff_less)
  moreover have "of_nat (unat w) = w" by (simp add: unsigned_ucast_eq word_eq_iff_unsigned[where ?'a = nat])
  ultimately have "unat w < 2 ^ k \<and> P (of_nat (unat w))" by simp
  then show "\<exists>i<2 ^ k. P (of_nat i)" by blast
next
  assume k: "k < 64" and "\<exists>i<2 ^ k. P (of_nat i :: 64 word)"
  then obtain i where "i < 2 ^ k" "P (of_nat i)" by blast
  with k show "\<exists>w. idx k w \<and> P w"
    using unat_idx_of_nat[of k i] by (intro exI[of _ "of_nat i"]) (simp add: idx_iff_less)
qed

lemma set_slot_pairs:
  assumes k: "k < 64"
  shows "set (slot_pairs (2 ^ k) sa) = slot_graph k (sa_entries sa)"
proof -
  let ?P = "\<lambda>w y. map_option (Pair (se_key (sa_entries sa w))) (se_node (sa_entries sa w)) = Some y"
  have "set (slot_pairs (2 ^ k) sa) = {y. \<exists>i<2 ^ k. ?P (of_nat i) y}"
    using k by (auto simp: slot_pairs_def set_map_filter unat_pow2_64 Let_def)
  also have "\<dots> = {y. \<exists>w. idx k w \<and> ?P w y}"
    using ex_idx_iff[OF k, of "\<lambda>w. ?P w y" for y] by simp
  also have "\<dots> = slot_graph k (sa_entries sa)"
    by (force simp: slot_graph_def)
  finally show ?thesis .
qed

lemma distinct_slot_pairs:
  assumes k: "k < 64" and once: "keys_once k (sa_entries sa)"
  shows "distinct (map fst (slot_pairs (2 ^ k) sa))"
  unfolding slot_pairs_def
proof (rule distinct_map_filter)
  fix x y a b
  let ?e = "\<lambda>i. sa_entries sa (of_nat i)"
  assume xy: "x \<in> set [0..<unat (2 ^ k :: 64 word)]" "y \<in> set [0..<unat (2 ^ k :: 64 word)]"
    and "(let e = ?e x in map_option (Pair (se_key e)) (se_node e)) = Some a"
      "(let e = ?e y in map_option (Pair (se_key e)) (se_node e)) = Some b" "fst a = fst b"
  then have "occupied (sa_entries sa) (of_nat x)" "occupied (sa_entries sa) (of_nat y)"
      "se_key (?e x) = se_key (?e y)"
    by (auto simp: occupied_def Let_def)
  moreover have "x < 2 ^ k" "y < 2 ^ k" "idx k (of_nat x)" "idx k (of_nat y)"
    using xy k unat_idx_of_nat[of k x] unat_idx_of_nat[of k y] by (auto simp: unat_pow2_64 idx_iff_less)
  ultimately have "(of_nat x :: 64 word) = of_nat y"
    using once unfolding keys_once_def by blast
  then show "x = y"
    using \<open>x < 2 ^ k\<close> \<open>y < 2 ^ k\<close> k unat_idx_of_nat by (metis less_imp_le)
qed simp

lemma slot_map_iff:
  assumes "k < 64" "keys_once k (sa_entries sa)"
  shows "slot_map (2 ^ k) sa key = Some v \<longleftrightarrow> (key, v) \<in> slot_graph k (sa_entries sa)"
  using distinct_slot_pairs[OF assms] by (simp add: slot_map_def map_of_eq_Some_iff set_slot_pairs assms)

lemma slot_map_eqI:
  assumes "k < 64" "keys_once k (sa_entries sa)"
    "\<And>key v. (key, v) \<in> slot_graph k (sa_entries sa) \<longleftrightarrow> m key = Some v"
  shows "slot_map (2 ^ k) sa = m"
proof
  fix key show "slot_map (2 ^ k) sa key = m key"
    using slot_map_iff[OF assms(1,2), of key] assms(3)[of key]
    by (cases "m key"; cases "slot_map (2 ^ k) sa key") auto
qed

lemma finite_dom_slot_map [simp]: "finite (dom (slot_map n sa))"
  by (simp add: slot_map_def finite_dom_map_of)

text \<open>A table with fewer live keys than slots has an empty slot.\<close>

lemma slot_room:
  assumes k: "k < 64" and once: "keys_once k (sa_entries sa)"
    and less: "card (dom (slot_map (2 ^ k) sa)) < 2 ^ k"
  shows "\<exists>z. idx k z \<and> \<not> occupied (sa_entries sa) z"
proof (rule ccontr)
  let ?f = "\<lambda>i. se_key (sa_entries sa i)"
  assume "\<not> ?thesis"
  then have occ: "idx k z \<Longrightarrow> occupied (sa_entries sa) z" for z by blast
  have "?f ` {i. idx k i} \<subseteq> dom (slot_map (2 ^ k) sa)"
    using occ slot_map_iff[OF k once] by (fastforce simp: slot_graph_def occupied_def)
  moreover have "inj_on ?f {i. idx k i}"
    using once occ by (auto simp: keys_once_def inj_on_def)
  ultimately have "card {i. idx k i} \<le> card (dom (slot_map (2 ^ k) sa))"
    by (metis card_image card_mono finite_dom_slot_map)
  with less k show False by (simp add: card_idx)
qed

section \<open>Probing\<close>

text \<open>A probe stops at the first slot that is empty or, where it looks for a key, holds it.\<close>

definition first_stop :: "(64 word \<Rightarrow> bool) \<Rightarrow> nat \<Rightarrow> 64 word \<Rightarrow> nat \<Rightarrow> bool" where
  "first_stop stop k h m \<longleftrightarrow> stop (at k h m) \<and> (\<forall>m'<m. \<not> stop (at k h m'))"

lemma first_stop_exists:
  assumes "k < 64" "idx k z" "stop z"
  obtains m where "m < 2 ^ k" "first_stop stop k h m"
proof -
  have "stop (at k h (dist k h z))"
    using assms by (simp add: at_dist)
  then have "first_stop stop k h (LEAST m. stop (at k h m))" "(LEAST m. stop (at k h m)) \<le> dist k h z"
    by (auto simp: first_stop_def intro: LeastI Least_le dest: not_less_Least)
  with dist_less[OF assms(1), of h z] show thesis
    by (intro that[of "LEAST m. stop (at k h m)"]) auto
qed

lemma first_stop_Suc:
  assumes "k < 64" "idx k h" "first_stop stop k h (Suc m)"
  shows "\<not> stop h \<and> first_stop stop k (take_bit k (h + 1)) m"
proof -
  have eq: "at k (take_bit k (h + 1)) i = at k h (Suc i)" for i
    using assms(1,2) at_at[of k h 1 i] by (simp add: at_def)
  show ?thesis
    using assms by (force simp: first_stop_def eq)
qed

lemma first_stop_0: "idx k h \<Longrightarrow> first_stop stop k h 0 \<longleftrightarrow> stop h"
  by (simp add: first_stop_def)

lemma find_loop_stop:
  assumes "k < 64" "idx k h" "first_stop (\<lambda>i. \<not> occupied es i \<or> se_key (es i) = key) k h m"
  shows "find_loop (2 ^ k) es key h = Some (se_node (es (at k h m)))"
  using assms(2,3)
proof (induction m arbitrary: h)
  case 0
  then show ?case
    by (subst find_loop.simps) (auto simp: first_stop_0 occupied_def)
next
  case (Suc m)
  from first_stop_Suc[OF assms(1) Suc.prems] Suc.IH[of "take_bit k (h + 1)"]
  have "occupied es h" "se_key (es h) \<noteq> key"
    "find_loop (2 ^ k) es key (take_bit k (h + 1)) = Some (se_node (es (at k h (Suc m))))"
    using assms(1) Suc.prems(1) at_at[of k h 1 m] by (simp_all add: at_def)
  then show ?case
    by (subst find_loop.simps) (simp add: occupied_def)
qed

lemma insert_loop_stop:
  assumes "k < 64" "idx k h" "first_stop (\<lambda>i. \<not> occupied es i) k h m"
  shows "insert_loop (2 ^ k) es h = Some (at k h m)"
  using assms(2,3)
proof (induction m arbitrary: h)
  case 0
  then show ?case
    by (subst insert_loop.simps) (auto simp: first_stop_0 occupied_def)
next
  case (Suc m)
  from first_stop_Suc[OF assms(1) Suc.prems] Suc.IH[of "take_bit k (h + 1)"]
  have "occupied es h" "insert_loop (2 ^ k) es (take_bit k (h + 1)) = Some (at k h (Suc m))"
    using assms(1) Suc.prems(1) at_at[of k h 1 m] by (simp_all add: at_def)
  then show ?case
    by (subst insert_loop.simps) (simp add: occupied_def)
qed

lemma erase_loop_stop:
  assumes "k < 64" "idx k h" "first_stop (\<lambda>i. \<not> occupied es i \<or> se_key (es i) = key) k h m"
  shows "erase_loop (2 ^ k) es key h = Some (at k h m)"
  using assms(2,3)
proof (induction m arbitrary: h)
  case 0
  then show ?case
    by (subst erase_loop.simps) (auto simp: first_stop_0 occupied_def)
next
  case (Suc m)
  from first_stop_Suc[OF assms(1) Suc.prems] Suc.IH[of "take_bit k (h + 1)"]
  have "occupied es h" "se_key (es h) \<noteq> key"
    "erase_loop (2 ^ k) es key (take_bit k (h + 1)) = Some (at k h (Suc m))"
    using assms(1) Suc.prems(1) at_at[of k h 1 m] by (simp_all add: at_def)
  then show ?case
    by (subst erase_loop.simps) (simp add: occupied_def)
qed

text \<open>What a lookup stops at is what the map holds.\<close>

lemma stop_is_lookup:
  assumes k: "k < 64" and once: "keys_once k (sa_entries sa)" and ch: "chains k (sa_entries sa)"
    and stop: "first_stop (\<lambda>i. \<not> occupied (sa_entries sa) i \<or> se_key (sa_entries sa i) = key) k
                 (take_bit k key) m"
  shows "se_node (sa_entries sa (at k (take_bit k key) m)) = slot_map (2 ^ k) sa key"
proof (cases "occupied (sa_entries sa) (at k (take_bit k key) m)")
  case True
  then obtain v where v: "se_node (sa_entries sa (at k (take_bit k key) m)) = Some v"
    by (auto simp: occupied_def)
  with True stop have "(key, v) \<in> slot_graph k (sa_entries sa)"
    by (force simp: first_stop_def slot_graph_def)
  with v slot_map_iff[OF k once] show ?thesis by metis
next
  case False
  have "slot_map (2 ^ k) sa key = None"
  proof (rule ccontr)
    assume "slot_map (2 ^ k) sa key \<noteq> None"
    then obtain i where i: "idx k i" "occupied (sa_entries sa) i" "se_key (sa_entries sa i) = key"
      using slot_map_iff[OF k once] by (fastforce simp: slot_graph_def occupied_def)
    let ?d = "dist k (take_bit k key) i"
    have occ: "m' \<le> ?d \<Longrightarrow> occupied (sa_entries sa) (at k (take_bit k key) m')" for m'
      using ch i by (auto simp: chains_def Let_def)
    with False have "?d < m" by (meson not_le)
    with stop show False
      using i(3) at_dist[OF i(1) k, of "take_bit k key"] by (auto simp: first_stop_def)
  qed
  with False show ?thesis by (simp add: occupied_def)
qed

lemma slot_inv_room:
  assumes "k < 64" "slot_inv k sa"
  obtains z where "idx k z" "\<not> occupied (sa_entries sa) z"
  using assms slot_room[of k sa] by (auto simp: slot_inv_def)

lemma lookup_stop_exists:
  assumes "k < 64" "slot_inv k sa"
  obtains m where "m < 2 ^ k"
    "first_stop (\<lambda>i. \<not> occupied (sa_entries sa) i \<or> se_key (sa_entries sa i) = key) k (take_bit k key) m"
    "se_node (sa_entries sa (at k (take_bit k key) m)) = slot_map (2 ^ k) sa key"
proof -
  obtain z where z: "idx k z" "\<not> occupied (sa_entries sa) z"
    using slot_inv_room[OF assms] .
  obtain m where "m < 2 ^ k"
    "first_stop (\<lambda>i. \<not> occupied (sa_entries sa) i \<or> se_key (sa_entries sa i) = key) k (take_bit k key) m"
    by (rule first_stop_exists[OF assms(1) z(1),
          of "\<lambda>i. \<not> occupied (sa_entries sa) i \<or> se_key (sa_entries sa i) = key"]) (use z in auto)
  with stop_is_lookup[OF assms(1)] assms(2) show thesis
    by (intro that) (auto simp: slot_inv_def)
qed

lemma slot_find_correct:
  assumes "k < 64" "slot_inv k sa"
  shows "slot_find (2 ^ k) key sa = Some (slot_map (2 ^ k) sa key)"
proof -
  obtain m where
    m: "first_stop (\<lambda>i. \<not> occupied (sa_entries sa) i \<or> se_key (sa_entries sa i) = key) k (take_bit k key) m"
    and eq: "se_node (sa_entries sa (at k (take_bit k key) m)) = slot_map (2 ^ k) sa key"
    using lookup_stop_exists[OF assms, of key] .
  show ?thesis
    unfolding slot_find_def indexOf_pow2 find_loop_stop[OF assms(1) idx_take_bit m] eq ..
qed

section \<open>Insertion\<close>

lemma slot_graph_iff:
  "(a, b) \<in> slot_graph k es \<longleftrightarrow> (\<exists>i. idx k i \<and> se_key (es i) = a \<and> se_node (es i) = Some b)"
  by (auto simp: slot_graph_def)

lemma slot_map_None_key:
  assumes "k < 64" "keys_once k (sa_entries sa)" "slot_map (2 ^ k) sa key = None"
    "idx k j" "occupied (sa_entries sa) j"
  shows "se_key (sa_entries sa j) \<noteq> key"
proof
  assume "se_key (sa_entries sa j) = key"
  with assms(4,5) obtain v where "(key, v) \<in> slot_graph k (sa_entries sa)"
    by (auto simp: slot_graph_iff occupied_def)
  then have "slot_map (2 ^ k) sa key = Some v"
    using slot_map_iff[OF assms(1,2)] by simp
  with assms(3) show False by simp
qed

lemma slot_graph_upd_empty:
  assumes "idx k i" "\<not> occupied es i"
  shows "slot_graph k (es(i := \<lparr>se_key = key, se_node = Some v\<rparr>)) = insert (key, v) (slot_graph k es)"
proof (intro set_eqI)
  fix x :: "64 word \<times> nat"
  obtain a b where x: "x = (a, b)" by (cases x)
  let ?es = "es(i := \<lparr>se_key = key, se_node = Some v\<rparr>)"
  have "x \<in> slot_graph k ?es \<longleftrightarrow> x = (key, v) \<or> (\<exists>j. j \<noteq> i \<and> idx k j \<and> se_key (es j) = a \<and> se_node (es j) = Some b)"
    using assms(1) by (auto simp: x slot_graph_iff)
  also have "\<dots> \<longleftrightarrow> x \<in> insert (key, v) (slot_graph k es)"
    using assms(2) unfolding x slot_graph_iff insert_iff occupied_def by (metis option.distinct(1))
  finally show "x \<in> slot_graph k ?es \<longleftrightarrow> x \<in> insert (key, v) (slot_graph k es)" .
qed

lemma chains_upd_empty:
  assumes "k < 64" "chains k es" "first_stop (\<lambda>i. \<not> occupied es i) k (take_bit k key) m" "m < 2 ^ k"
  shows "chains k (es(at k (take_bit k key) m := \<lparr>se_key = key, se_node = Some v\<rparr>))"
proof -
  have "dist k (take_bit k key) (at k (take_bit k key) m) = m"
    using assms dist_at[of k "take_bit k key" m] by simp
  moreover have "\<not> occupied es (at k (take_bit k key) m)" "m' < m \<Longrightarrow> occupied es (at k (take_bit k key) m')" for m'
    using assms(3) by (auto simp: first_stop_def)
  ultimately show ?thesis
    using assms(2) unfolding chains_def by (auto simp: Let_def le_less)
qed

text \<open>Insertion of an absent key into a table that keeps a slot free.\<close>

lemma slot_insert_correct:
  assumes k: "k < 64" and inv: "slot_inv k sa" and absent: "slot_map (2 ^ k) sa key = None"
    and room: "sa_live_count sa + 1 < 2 ^ k"
  obtains sa' where "slot_insert (2 ^ k) key v sa = Some sa'" "slot_inv k sa'"
    "slot_map (2 ^ k) sa' = (slot_map (2 ^ k) sa)(key \<mapsto> v)" "sa_live_count sa' = sa_live_count sa + 1"
proof -
  let ?es = "sa_entries sa" and ?h = "take_bit k key"
  have once: "keys_once k ?es" and ch: "chains k ?es"
    and cnt: "sa_live_count sa = card (dom (slot_map (2 ^ k) sa))"
    using inv by (auto simp: slot_inv_def)
  obtain z where z: "idx k z" "\<not> occupied ?es z"
    using slot_inv_room[OF k inv] .
  obtain m where m: "m < 2 ^ k" "first_stop (\<lambda>i. \<not> occupied ?es i) k ?h m"
    by (rule first_stop_exists[OF k z(1), of "\<lambda>i. \<not> occupied ?es i"]) (use z in auto)
  let ?i = "at k ?h m"
  let ?sa = "\<lparr>sa_entries = ?es(?i := \<lparr>se_key = key, se_node = Some v\<rparr>), sa_live_count = sa_live_count sa + 1\<rparr>"
  have free: "\<not> occupied ?es ?i"
    using m by (simp add: first_stop_def)
  have graph: "slot_graph k (sa_entries ?sa) = insert (key, v) (slot_graph k ?es)"
    using slot_graph_upd_empty[OF idx_at free] by simp
  have nokey: "se_key (?es j) \<noteq> key" if "idx k j" "occupied ?es j" for j
    using slot_map_None_key[OF k once absent that] .
  have once': "keys_once k (sa_entries ?sa)"
    unfolding keys_once_def
  proof (intro allI impI)
    fix i j
    assume a: "idx k i \<and> idx k j \<and> occupied (sa_entries ?sa) i \<and> occupied (sa_entries ?sa) j \<and>
      se_key (sa_entries ?sa i) = se_key (sa_entries ?sa j)"
    show "i = j"
    proof (cases "i = ?i \<or> j = ?i")
      case True
      then show ?thesis using a nokey[of i] nokey[of j] by (auto split: if_splits)
    next
      case False
      then show ?thesis using a once unfolding keys_once_def by simp
    qed
  qed
  have map: "slot_map (2 ^ k) ?sa = (slot_map (2 ^ k) sa)(key \<mapsto> v)"
  proof (rule slot_map_eqI[OF k once'])
    fix key' v'
    show "(key', v') \<in> slot_graph k (sa_entries ?sa) \<longleftrightarrow> ((slot_map (2 ^ k) sa)(key \<mapsto> v)) key' = Some v'"
      unfolding graph using absent slot_map_iff[OF k once, of key' v'] by auto
  qed
  have "card (dom (slot_map (2 ^ k) ?sa)) = sa_live_count sa + 1"
    unfolding map using absent by (simp add: cnt card_insert_if domIff)
  then have "slot_inv k ?sa"
    using once' chains_upd_empty[OF k ch m(2,1)] room by (simp add: slot_inv_def)
  moreover have "slot_insert (2 ^ k) key v sa = Some ?sa"
    unfolding slot_insert_def indexOf_pow2 insert_loop_stop[OF k idx_take_bit m(2)] by simp
  ultimately show thesis
    using map by (intro that[of ?sa]) simp_all
qed

section \<open>Deletion\<close>

text \<open>
  Positions are counted from an empty slot \<open>z\<close>, so that no chain wraps around. Position \<open>j\<close>
  holds the slot \<open>at k z j\<close>; \<open>home_pos k z es j\<close> is the position of the home of its key.
\<close>

definition home_pos :: "nat \<Rightarrow> 64 word \<Rightarrow> (64 word \<Rightarrow> slot_entry) \<Rightarrow> nat \<Rightarrow> nat" where
  "home_pos k z es j = dist k z (take_bit k (se_key (es (at k z j))))"

text \<open>
  The state of the backward shift: the hole at position \<open>h\<close>, the entries up to position \<open>p\<close>
  examined. Only a chain that reaches beyond \<open>p\<close> may still run through the hole.
\<close>

definition hole_inv :: "nat \<Rightarrow> 64 word \<Rightarrow> (64 word \<Rightarrow> slot_entry) \<Rightarrow> nat \<Rightarrow> nat \<Rightarrow> bool" where
  "hole_inv k z es h p \<longleftrightarrow> 1 \<le> h \<and> h \<le> p \<and> p < 2 ^ k \<and> \<not> occupied es z \<and>
     \<not> occupied es (at k z h) \<and> (\<forall>x. h < x \<and> x \<le> p \<longrightarrow> occupied es (at k z x)) \<and>
     (\<forall>j<2 ^ k. occupied es (at k z j) \<longrightarrow> home_pos k z es j \<le> j \<and>
        (\<forall>x. home_pos k z es j \<le> x \<and> x \<le> j \<longrightarrow> occupied es (at k z x) \<or> (x = h \<and> p < j)))"

text \<open>Chains seen from an empty slot are intervals.\<close>

lemma chains_linear:
  assumes k: "k < 64" and z: "idx k z" "\<not> occupied es z"
  shows "chains k es \<longleftrightarrow> (\<forall>j<2 ^ k. occupied es (at k z j) \<longrightarrow> home_pos k z es j \<le> j \<and>
           (\<forall>x. home_pos k z es j \<le> x \<and> x \<le> j \<longrightarrow> occupied es (at k z x)))"
    (is "_ \<longleftrightarrow> (\<forall>j<2 ^ k. ?lin j)")
proof -
  have "(\<forall>m\<le>dist k (take_bit k (se_key (es (at k z j)))) (at k z j).
          occupied es (at k (take_bit k (se_key (es (at k z j)))) m)) \<longleftrightarrow>
        home_pos k z es j \<le> j \<and> (\<forall>x. home_pos k z es j \<le> x \<and> x \<le> j \<longrightarrow> occupied es (at k z x))"
    if j: "j < 2 ^ k" for j
  proof -
    let ?g = "home_pos k z es j"
    have home: "take_bit k (se_key (es (at k z j))) = at k z ?g"
      using at_dist[OF idx_take_bit k, of z] by (simp add: home_pos_def)
    have g: "?g < 2 ^ k"
      using dist_less[OF k] by (simp add: home_pos_def)
    show ?thesis
    proof (cases "?g \<le> j")
      case True
      have "(\<forall>m\<le>j - ?g. occupied es (at k z (?g + m))) \<longleftrightarrow>
            (\<forall>x. ?g \<le> x \<and> x \<le> j \<longrightarrow> occupied es (at k z x))" (is "?A \<longleftrightarrow> ?B")
      proof
        assume A: ?A
        show ?B
        proof (intro allI impI)
          fix x assume "?g \<le> x \<and> x \<le> j"
          then show "occupied es (at k z x)" using A[rule_format, of "x - ?g"] by (simp add: diff_le_mono)
        qed
      qed (use True in auto)
      with True j k show ?thesis
        unfolding home by (simp add: dist_at_at)
    next
      case False
      have "at k z (?g + (2 ^ k - ?g)) = z"
        using g k z at_add_size[of k z 0] by simp
      moreover have "2 ^ k - ?g \<le> 2 ^ k + j - ?g"
        by simp
      ultimately show ?thesis
        using False g k z(2) j unfolding home
        by (simp add: dist_at_at_wrap) (metis le_add_diff_inverse less_imp_le)
    qed
  qed
  moreover have "(\<forall>i. idx k i \<and> P i \<longrightarrow> Q i) \<longleftrightarrow> (\<forall>j<2 ^ k. P (at k z j) \<longrightarrow> Q (at k z j))" for P Q
    by (metis idx_at idx_obtain[OF _ k])
  ultimately show ?thesis
    unfolding chains_def Let_def by simp
qed

text \<open>The code's wrap-around comparison says that the home is not cyclically inside (hole, probe].\<close>

lemma shift_condition:
  assumes k: "k < 64" and hp: "1 \<le> h" "h \<le> p" "p + 1 < 2 ^ k" "g \<le> p + 1"
  shows "take_bit k (at k z g - at k z h - 1) \<ge> take_bit k (at k z (p + 1) - at k z h) \<longleftrightarrow> g \<le> h"
proof -
  have 1: "unat (take_bit k (at k z (p + 1) - at k z h)) = p + 1 - h"
    using dist_at_at[of k h "p + 1" z] hp k by (simp add: dist_def)
  have "take_bit k (at k z g - at k z h - 1) = take_bit k (at k z g - at k z (h + 1))"
  proof -
    have "take_bit k (at k z g - at k z (h + 1)) = take_bit k (at k z g - (at k z h + 1))"
      using at_Suc[of k z h] k take_bit_diff_right[of k "at k z g" "at k z h + 1"] by simp
    then show ?thesis by (simp add: algebra_simps)
  qed
  then have 2: "unat (take_bit k (at k z g - at k z h - 1)) = dist k (at k z (h + 1)) (at k z g)"
    by (simp add: dist_def)
  show ?thesis
  proof (cases "g \<le> h")
    case True
    then have "dist k (at k z (h + 1)) (at k z g) = 2 ^ k + g - (h + 1)"
      using dist_at_at_wrap[of k g "h + 1" z] hp k by simp
    with True hp 1 2 show ?thesis by (simp add: word_le_nat_alt)
  next
    case False
    then have "dist k (at k z (h + 1)) (at k z g) = g - (h + 1)"
      using dist_at_at[of k "h + 1" g z] hp k by simp
    with False hp 1 2 show ?thesis by (simp add: word_le_nat_alt)
  qed
qed

lemma slot_graph_move:
  assumes "idx k a" "idx k b" "\<not> occupied es a" "occupied es b"
  shows "slot_graph k (es(a := es b, b := empty_entry)) = slot_graph k es"
    and "keys_once k es \<Longrightarrow> keys_once k (es(a := es b, b := empty_entry))"
proof -
  let ?es = "es(a := es b, b := empty_entry)"
  let ?r = "\<lambda>i. if i = a then b else i"
  have ne: "a \<noteq> b" using assms by auto
  have ent: "?es i = es (?r i)" "idx k (?r i) \<longleftrightarrow> idx k i" if "i \<noteq> b" for i
    using that assms(1,2) by auto
  show "slot_graph k ?es = slot_graph k es"
  proof (intro set_eqI)
    fix x :: "64 word \<times> nat"
    obtain c d where x: "x = (c, d)" by (cases x)
    show "x \<in> slot_graph k ?es \<longleftrightarrow> x \<in> slot_graph k es"
      unfolding x slot_graph_iff
    proof
      assume "\<exists>i. idx k i \<and> se_key (?es i) = c \<and> se_node (?es i) = Some d"
      then obtain i where i: "idx k i" "se_key (?es i) = c" "se_node (?es i) = Some d" by blast
      then have "i \<noteq> b" by (auto simp: empty_entry_def)
      with i ent[OF \<open>i \<noteq> b\<close>] have "idx k (?r i)" "se_key (es (?r i)) = c" "se_node (es (?r i)) = Some d"
        by simp_all
      then show "\<exists>i. idx k i \<and> se_key (es i) = c \<and> se_node (es i) = Some d" by blast
    next
      assume "\<exists>i. idx k i \<and> se_key (es i) = c \<and> se_node (es i) = Some d"
      then obtain i where i: "idx k i" "se_key (es i) = c" "se_node (es i) = Some d" by blast
      then have "i \<noteq> a" using assms(3) by (auto simp: occupied_def)
      with i ne assms(1) show "\<exists>i. idx k i \<and> se_key (?es i) = c \<and> se_node (?es i) = Some d"
        by (intro exI[of _ "if i = b then a else i"]) auto
    qed
  qed
  assume once: "keys_once k es"
  show "keys_once k ?es"
    unfolding keys_once_def
  proof (intro allI impI)
    fix i j
    assume ij: "idx k i \<and> idx k j \<and> occupied ?es i \<and> occupied ?es j \<and> se_key (?es i) = se_key (?es j)"
    then have "i \<noteq> b" "j \<noteq> b" by (auto simp: empty_entry_def occupied_def)
    then have "occupied es (?r i)" "occupied es (?r j)" "se_key (es (?r i)) = se_key (es (?r j))"
      "idx k (?r i)" "idx k (?r j)"
      using ij ent by (auto simp: occupied_def split: if_splits)
    then have "?r i = ?r j"
      using once unfolding keys_once_def by blast
    with \<open>i \<noteq> b\<close> \<open>j \<noteq> b\<close> show "i = j" by (auto split: if_splits)
  qed
qed

lemma hole_invD:
  "hole_inv k z es h p \<Longrightarrow> j < 2 ^ k \<Longrightarrow> occupied es (at k z j) \<Longrightarrow>
     home_pos k z es j \<le> x \<Longrightarrow> x \<le> j \<Longrightarrow> occupied es (at k z x) \<or> (x = h \<and> p < j)"
  unfolding hole_inv_def by blast

text \<open>One step of the shift: the entry after \<open>p\<close> moves into the hole or stays.\<close>

lemma hole_inv_move:
  assumes k: "k < 64" and z: "idx k z" and inv: "hole_inv k z es h p" and p: "q < 2 ^ k" and q: "q = Suc p"
    and occ: "occupied es (at k z q)" and home: "home_pos k z es q \<le> h"
  shows "hole_inv k z (es(at k z h := es (at k z q), at k z q := empty_entry)) q q"
proof -
  let ?es = "es(at k z h := es (at k z q), at k z q := empty_entry)"
  have hp: "1 \<le> h" "h \<le> p" "h < q" and ez: "\<not> occupied es z" and eh: "\<not> occupied es (at k z h)"
    using inv by (auto simp: hole_inv_def q)
  have neq: "at k z x = at k z y \<longleftrightarrow> x = y" if "x < 2 ^ k" "y < 2 ^ k" for x y
    using at_inj[of k x y z] k that by simp
  have occ_upd: "occupied ?es (at k z x) \<longleftrightarrow> x \<noteq> q \<and> (x = h \<or> occupied es (at k z x))" if "x < 2 ^ k" for x
    using that p hp neq[of x "q"] neq[of x h] occ by (auto simp: occupied_def empty_entry_def)
  have home_upd: "home_pos k z ?es x = (if x = h then home_pos k z es q else home_pos k z es x)"
    if "x < 2 ^ k" "x \<noteq> q" for x
    using that p hp neq[of x "q"] neq[of x h] by (simp add: home_pos_def)
  have zz: "z = at k z 0" using z by simp
  have "\<not> occupied ?es z"
    using occ_upd[of 0] ez hp p z by simp
  moreover have "home_pos k z ?es j \<le> j \<and> (\<forall>x. home_pos k z ?es j \<le> x \<and> x \<le> j \<longrightarrow>
      occupied ?es (at k z x) \<or> (x = q \<and> q < j))"
    if j: "j < 2 ^ k" "occupied ?es (at k z j)" for j
  proof (cases "j = h")
    case True
    have "occupied es (at k z x) \<or> x = h" if "home_pos k z es q \<le> x" "x \<le> h" for x
      using hole_invD[OF inv p occ that(1)] that(2) hp by auto
    then have "occupied ?es (at k z x)" if "home_pos k z es q \<le> x" "x \<le> h" for x
      using that occ_upd[of x] hp p by auto
    moreover have "home_pos k z ?es j = home_pos k z es q"
      using home_upd[of h] True hp p by simp
    ultimately show ?thesis
      using True home by (simp del: occupied_upd)
  next
    case False
    with j occ_upd[of j] have oj: "occupied es (at k z j)" "j \<noteq> q"
      by (auto simp del: occupied_upd)
    with inv j(1) have "home_pos k z es j \<le> j"
      "home_pos k z es j \<le> x \<and> x \<le> j \<Longrightarrow> occupied es (at k z x) \<or> (x = h \<and> p < j)" for x
      by (auto simp: hole_inv_def)
    moreover have "home_pos k z ?es j = home_pos k z es j"
      using home_upd[OF j(1) oj(2)] False by simp
    moreover have "x \<le> j \<Longrightarrow> occupied ?es (at k z x) \<longleftrightarrow> x \<noteq> q \<and> (x = h \<or> occupied es (at k z x))" for x
      using occ_upd[of x] j(1) by simp
    ultimately show ?thesis
      using oj(2) by (metis le_neq_implies_less)
  qed
  ultimately show ?thesis
    using hp p occ_upd[of q] unfolding hole_inv_def by (auto simp del: occupied_upd)
qed

lemma hole_inv_stay:
  assumes "hole_inv k z es h p" "p + 1 < 2 ^ k" "occupied es (at k z (p + 1))"
    "\<not> home_pos k z es (p + 1) \<le> h"
  shows "hole_inv k z es h (p + 1)"
proof -
  have "x = h \<and> p < j \<Longrightarrow> home_pos k z es j \<le> x \<Longrightarrow> p + 1 < j" for x j
    using assms(4) by (cases "j = p + 1") auto
  then show ?thesis
    using assms(1,2,3) unfolding hole_inv_def by (auto simp: le_Suc_eq)
qed

lemma hole_inv_stop:
  assumes k: "k < 64" "idx k z" and inv: "hole_inv k z es h p"
    and stop: "p + 1 = 2 ^ k \<or> \<not> occupied es (at k z (p + 1))"
  shows "chains k es"
proof -
  have ez: "\<not> occupied es z" and hp: "h \<le> p"
    using inv by (auto simp: hole_inv_def)
  have "occupied es (at k z x)" if j: "j < 2 ^ k" "occupied es (at k z j)" "home_pos k z es j \<le> x" "x \<le> j" for j x
  proof (rule ccontr)
    assume "\<not> ?thesis"
    with hole_invD[OF inv j] have x: "x = h" "p < j" by auto
    with j(1) have "p + 1 \<noteq> 2 ^ k" "p + 1 \<noteq> h" "home_pos k z es j \<le> p + 1" "p + 1 \<le> j"
      using j(3) hp by auto
    with hole_invD[OF inv j(1,2), of "p + 1"] stop show False by simp
  qed
  with inv show ?thesis
    unfolding chains_linear[OF k ez] by (auto simp: hole_inv_def)
qed

lemma shift_loop_correct:
  assumes k: "k < 64" and z: "idx k z"
  shows "hole_inv k z es h p \<Longrightarrow> \<exists>es'. shift_loop (2 ^ k) es (at k z h) (at k z p) = Some es' \<and>
           chains k es' \<and> slot_graph k es' = slot_graph k es \<and> (keys_once k es \<longrightarrow> keys_once k es')"
proof (induction "2 ^ k - p" arbitrary: es h p rule: less_induct)
  case less
  note inv = less.prems
  have hp: "1 \<le> h" "h \<le> p" "p < 2 ^ k" and ez: "\<not> occupied es z" and eh: "\<not> occupied es (at k z h)"
    using inv by (auto simp: hole_inv_def)
  have probe: "take_bit k (at k z p + 1) = at k z (p + 1)"
    using k by (simp add: at_Suc)
  show ?case
  proof (cases "p + 1 = 2 ^ k \<or> \<not> occupied es (at k z (p + 1))")
    case True
    then have "\<not> occupied es (at k z (p + 1))"
      using ez k z at_add_size[of k z 0] by auto
    with hole_inv_stop[OF k z inv True] show ?thesis
      by (subst shift_loop.simps) (simp add: probe occupied_def)
  next
    case False
    with hp have p1: "p + 1 < 2 ^ k" and occ: "occupied es (at k z (p + 1))" by auto
    let ?g = "home_pos k z es (p + 1)"
    have g: "?g \<le> p + 1" "at k z ?g = take_bit k (se_key (es (at k z (p + 1))))"
      using inv p1 occ at_dist[OF idx_take_bit k, of z] by (auto simp: hole_inv_def home_pos_def)
    have cond: "take_bit k (take_bit k (se_key (es (at k z (p + 1)))) - at k z h - 1)
        \<ge> take_bit k (at k z (p + 1) - at k z h) \<longleftrightarrow> ?g \<le> h"
      using shift_condition[OF k hp(1,2) p1 g(1), of z] unfolding g(2) .
    let ?mv = "es(at k z h := es (at k z (p + 1)), at k z (p + 1) := empty_entry)"
    have step: "shift_loop (2 ^ k) es (at k z h) (at k z p) =
      (if ?g \<le> h then shift_loop (2 ^ k) ?mv (at k z (p + 1)) (at k z (p + 1))
       else shift_loop (2 ^ k) es (at k z h) (at k z (p + 1)))"
      using occ by (subst shift_loop.simps) (auto simp: and_kMask probe indexOf_pow2 Let_def cond occupied_def simp del: One_nat_def add_Suc_right)
    show ?thesis
    proof (cases "?g \<le> h")
      case True
      have "\<exists>es'. shift_loop (2 ^ k) ?mv (at k z (p + 1)) (at k z (p + 1)) = Some es' \<and> chains k es' \<and>
          slot_graph k es' = slot_graph k ?mv \<and> (keys_once k ?mv \<longrightarrow> keys_once k es')"
        using p1 by (intro less.hyps hole_inv_move[OF k z inv p1 _ occ True]) auto
      moreover note slot_graph_move[OF idx_at idx_at eh occ]
      ultimately show ?thesis
        unfolding step using True by metis
    next
      case False
      have "\<exists>es'. shift_loop (2 ^ k) es (at k z h) (at k z (p + 1)) = Some es' \<and> chains k es' \<and>
          slot_graph k es' = slot_graph k es \<and> (keys_once k es \<longrightarrow> keys_once k es')"
        using p1 by (intro less.hyps hole_inv_stay[OF inv p1 occ False]) auto
      with False show ?thesis
        unfolding step by simp
    qed
  qed
qed

text \<open>
  \<open>erase\<close> removes exactly the binding of the key: the hole is compacted so that no other chain
  is broken, and the loop ends.
\<close>

lemma slot_erase_correct:
  assumes k: "k < 64" and inv: "slot_inv k sa"
  obtains sa' where "slot_erase (2 ^ k) key sa = Some (sa', slot_map (2 ^ k) sa key)" "slot_inv k sa'"
    "slot_map (2 ^ k) sa' = (slot_map (2 ^ k) sa)(key := None)"
proof -
  let ?es = "sa_entries sa" and ?h = "take_bit k key"
  have once: "keys_once k ?es" and ch: "chains k ?es"
    and cnt: "sa_live_count sa = card (dom (slot_map (2 ^ k) sa))" "sa_live_count sa < 2 ^ k"
    using inv by (auto simp: slot_inv_def)
  obtain m where
    m: "first_stop (\<lambda>i. \<not> occupied ?es i \<or> se_key (?es i) = key) k ?h m"
    and eq: "se_node (?es (at k ?h m)) = slot_map (2 ^ k) sa key"
    using lookup_stop_exists[OF k inv, of key] .
  let ?i = "at k ?h m"
  have loop: "erase_loop (2 ^ k) ?es key ?h = Some ?i"
    by (rule erase_loop_stop[OF k idx_take_bit m])
  show thesis
  proof (cases "slot_map (2 ^ k) sa key")
    case None
    with eq loop inv show thesis
      by (intro that[of sa]) (auto simp: slot_erase_def fun_eq_iff)
  next
    case (Some v)
    with eq m have i: "occupied ?es ?i" "se_key (?es ?i) = key" "se_node (?es ?i) = Some v"
      by (auto simp: first_stop_def occupied_def)
    obtain z where z: "idx k z" "\<not> occupied ?es z"
      using slot_inv_room[OF k inv] .
    obtain p where p: "p < 2 ^ k" "?i = at k z p"
      using idx_obtain[OF idx_at k, where z = z] by blast
    have p0: "1 \<le> p" using p z i(1) by (cases p) auto
    let ?e0 = "?es(?i := empty_entry)"
    have hole: "hole_inv k z ?e0 p p"
    proof -
      have occ0: "occupied ?e0 (at k z x) \<longleftrightarrow> x \<noteq> p \<and> occupied ?es (at k z x)" if "x < 2 ^ k" for x
        using that p at_inj[of k x p z] k by simp
      have home0: "home_pos k z ?e0 x = home_pos k z ?es x" if "x < 2 ^ k" "x \<noteq> p" for x
        using that p at_inj[of k x p z] k by (simp add: home_pos_def)
      have lin: "home_pos k z ?es j \<le> j" "home_pos k z ?es j \<le> x \<Longrightarrow> x \<le> j \<Longrightarrow> occupied ?es (at k z x)"
        if "j < 2 ^ k" "occupied ?es (at k z j)" for j x
        using ch that unfolding chains_linear[OF k z] by auto
      have "home_pos k z ?e0 j \<le> j \<and> (\<forall>x. home_pos k z ?e0 j \<le> x \<and> x \<le> j \<longrightarrow>
          occupied ?e0 (at k z x) \<or> (x = p \<and> p < j))" if j: "j < 2 ^ k" "occupied ?e0 (at k z j)" for j
      proof -
        have oj: "occupied ?es (at k z j)" "j \<noteq> p" using occ0 j by blast+
        have "x \<le> j \<Longrightarrow> occupied ?e0 (at k z x) \<longleftrightarrow> x \<noteq> p \<and> occupied ?es (at k z x)" for x
          using occ0[of x] j(1) by simp
        then show ?thesis
          using lin[OF j(1) oj(1)] home0[OF j(1) oj(2)] oj(2) by (metis le_neq_implies_less)
      qed
      moreover have "\<not> occupied ?e0 z" "\<not> occupied ?e0 (at k z p)"
        using z(2) occ0[OF p(1)] by simp_all
      ultimately show ?thesis
        unfolding hole_inv_def using p0 p(1) by (auto simp del: occupied_upd(1))
    qed
    obtain es' where es': "shift_loop (2 ^ k) ?e0 ?i ?i = Some es'" "chains k es'"
        "slot_graph k es' = slot_graph k ?e0" "keys_once k ?e0 \<longrightarrow> keys_once k es'"
      using shift_loop_correct[OF k z(1) hole] unfolding p(2) by blast
    have ent: "j \<noteq> ?i \<and> ?e0 j = ?es j" if "occupied ?e0 j" for j
      using that by (auto split: if_splits)
    have once0: "keys_once k ?e0"
      unfolding keys_once_def using once ent unfolding keys_once_def occupied_def by metis
    have graph0: "slot_graph k ?e0 = {x \<in> slot_graph k ?es. fst x \<noteq> key}"
    proof (intro set_eqI)
      fix x :: "64 word \<times> nat"
      obtain a b where x: "x = (a, b)" by (cases x)
      have "x \<in> slot_graph k ?e0 \<longleftrightarrow> (\<exists>j. j \<noteq> ?i \<and> idx k j \<and> se_key (?es j) = a \<and> se_node (?es j) = Some b)"
        by (auto simp: x slot_graph_iff empty_entry_def)
      also have "\<dots> \<longleftrightarrow> a \<noteq> key \<and> x \<in> slot_graph k ?es"
        using once i(1,2) idx_at unfolding x slot_graph_iff keys_once_def occupied_def
        by (metis option.distinct(1))
      finally show "x \<in> slot_graph k ?e0 \<longleftrightarrow> x \<in> {x \<in> slot_graph k ?es. fst x \<noteq> key}"
        by (auto simp: x)
    qed
    let ?sa = "\<lparr>sa_entries = es', sa_live_count = sa_live_count sa - 1\<rparr>"
    have map: "slot_map (2 ^ k) ?sa = (slot_map (2 ^ k) sa)(key := None)"
    proof (rule slot_map_eqI[OF k])
      show "keys_once k (sa_entries ?sa)" using es' once0 by simp
      fix key' v'
      show "(key', v') \<in> slot_graph k (sa_entries ?sa) \<longleftrightarrow> ((slot_map (2 ^ k) sa)(key := None)) key' = Some v'"
        using slot_map_iff[OF k once, of key' v'] by (auto simp: es' graph0)
    qed
    have "card (dom (slot_map (2 ^ k) ?sa)) = sa_live_count sa - 1"
      unfolding map using Some by (simp add: cnt domIff)
    then have "slot_inv k ?sa"
      using es' once0 cnt(2) by (simp add: slot_inv_def)
    moreover have "slot_erase (2 ^ k) key sa = Some (?sa, slot_map (2 ^ k) sa key)"
      unfolding slot_erase_def indexOf_pow2 loop using i Some es' by simp
    ultimately show thesis
      using map by (intro that)
  qed
qed

lemma slot_new_correct:
  "slot_map (2 ^ k) slot_array_new = Map.empty" "slot_inv k slot_array_new"
proof -
  have "List.map_filter (\<lambda>_. None) xs = []" for xs :: "nat list"
    by (induction xs) (simp_all add: List.map_filter_simps)
  then show m: "slot_map (2 ^ k) slot_array_new = Map.empty"
    by (simp add: slot_map_def slot_pairs_def slot_array_new_def empty_entry_def Let_def)
  then show "slot_inv k slot_array_new"
    by (simp add: slot_inv_def keys_once_def chains_def occupied_def)
       (simp add: slot_array_new_def empty_entry_def)
qed

lemma slot_clear_new: "slot_clear sa = slot_array_new"
  by (simp add: slot_clear_def slot_array_new_def)

section \<open>The interface the book uses\<close>

text \<open>
  A fixed-capacity map from keys to pool blocks, as \<open>MarketOrderBook\<close> uses it: a lookup is the
  map, an insertion of an absent key below the capacity and a deletion update it, and no
  operation fails to return.
\<close>

locale key_index =
  fixes lookup :: "'k \<Rightarrow> 't \<Rightarrow> nat option option"
    and add :: "'k \<Rightarrow> nat \<Rightarrow> 't \<Rightarrow> 't option"
    and remove :: "'k \<Rightarrow> 't \<Rightarrow> ('t \<times> nat option) option"
    and abs :: "'t \<Rightarrow> 'k \<Rightarrow> nat option"
    and count :: "'t \<Rightarrow> nat"
    and inv :: "'t \<Rightarrow> bool"
    and slots :: nat
  assumes lookup_law: "inv t \<Longrightarrow> lookup key t = Some (abs t key)"
    and add_law: "inv t \<Longrightarrow> abs t key = None \<Longrightarrow> count t + 1 < slots \<Longrightarrow>
      \<exists>t'. add key v t = Some t' \<and> inv t' \<and> abs t' = (abs t)(key \<mapsto> v)"
    and remove_law: "inv t \<Longrightarrow>
      \<exists>t'. remove key t = Some (t', abs t key) \<and> inv t' \<and> abs t' = (abs t)(key := None)"
    and count_law: "inv t \<Longrightarrow> count t = card (dom (abs t))"
    and finite_law: "finite (dom (abs t))"
begin

lemma lookup_await: "inv t \<Longrightarrow> await (lookup key t) f = f (abs t key)"
  by (simp add: lookup_law)

lemma add_obtains:
  assumes "inv t" "abs t key = None" "count t + 1 < slots"
  obtains t' where "add key v t = Some t'" "inv t'" "abs t' = (abs t)(key \<mapsto> v)"
    "count t' = count t + 1"
proof -
  obtain t' where t': "add key v t = Some t'" "inv t'" "abs t' = (abs t)(key \<mapsto> v)"
    using add_law[OF assms] by blast
  moreover have "count t' = count t + 1"
    unfolding count_law[OF t'(2)] count_law[OF assms(1)] t'(3)
    using assms(2) finite_law[of t] by (simp add: card_insert_if domIff)
  ultimately show thesis by (rule that)
qed

lemma remove_obtains:
  assumes "inv t"
  obtains t' where "remove key t = Some (t', abs t key)" "inv t'" "abs t' = (abs t)(key := None)"
    "count t' = (if abs t key = None then count t else count t - 1)"
proof -
  obtain t' where t': "remove key t = Some (t', abs t key)" "inv t'" "abs t' = (abs t)(key := None)"
    using remove_law[OF assms] by blast
  moreover have "count t' = (if abs t key = None then count t else count t - 1)"
    unfolding count_law[OF t'(2)] count_law[OF assms] t'(3) by (simp add: domIff)
  ultimately show thesis by (rule that)
qed

text \<open>What was added is found, and other keys are untouched.\<close>

lemma lookup_after_add:
  assumes "inv t" "abs t key = None" "count t + 1 < slots" "add key v t = Some t'"
  shows "lookup key' t' = Some (if key' = key then Some v else abs t key')"
proof -
  have "inv t'" "abs t' = (abs t)(key \<mapsto> v)"
    using add_law[OF assms(1-3), of v] assms(4) by auto
  then show ?thesis by (simp add: lookup_law)
qed

lemma lookup_after_remove:
  assumes "inv t" "remove key t = Some (t', r)"
  shows "lookup key' t' = Some (if key' = key then None else abs t key')"
proof -
  have "inv t'" "abs t' = (abs t)(key := None)"
    using remove_law[OF assms(1), of key] assms(2) by auto
  then show ?thesis by (simp add: lookup_law)
qed

end

lemma slot_array_index:
  assumes "k < 64"
  shows "key_index (slot_find (2 ^ k)) (slot_insert (2 ^ k)) (slot_erase (2 ^ k)) (slot_map (2 ^ k))
           sa_live_count (slot_inv k) (2 ^ k)"
proof
  fix sa key v
  show "slot_inv k sa \<Longrightarrow> slot_find (2 ^ k) key sa = Some (slot_map (2 ^ k) sa key)"
    using slot_find_correct[OF assms] .
  show "slot_inv k sa \<Longrightarrow> slot_map (2 ^ k) sa key = None \<Longrightarrow> sa_live_count sa + 1 < 2 ^ k \<Longrightarrow>
     \<exists>t'. slot_insert (2 ^ k) key v sa = Some t' \<and> slot_inv k t' \<and>
          slot_map (2 ^ k) t' = (slot_map (2 ^ k) sa)(key \<mapsto> v)"
    using slot_insert_correct[OF assms] by metis
  show "slot_inv k sa \<Longrightarrow> \<exists>t'. slot_erase (2 ^ k) key sa = Some (t', slot_map (2 ^ k) sa key) \<and>
      slot_inv k t' \<and> slot_map (2 ^ k) t' = (slot_map (2 ^ k) sa)(key := None)"
    using slot_erase_correct[OF assms] by metis
qed (auto simp: slot_inv_def)

text \<open>The two instances of the template: 64K order slots and 4K level slots a side.\<close>

definition kOrderSlots :: "64 word" where "kOrderSlots = 2 ^ 16"
definition kLevelSlots :: "64 word" where "kLevelSlots = 2 ^ 12"

interpretation os: key_index "slot_find kOrderSlots" "slot_insert kOrderSlots" "slot_erase kOrderSlots"
    "slot_map kOrderSlots" sa_live_count "slot_inv 16" "2 ^ 16"
  unfolding kOrderSlots_def by (rule slot_array_index) simp

interpretation ls: key_index "slot_find kLevelSlots" "slot_insert kLevelSlots" "slot_erase kLevelSlots"
    "slot_map kLevelSlots" sa_live_count "slot_inv 12" "2 ^ 12"
  unfolding kLevelSlots_def by (rule slot_array_index) simp

text \<open>The nodes visited by \<open>forEachNode\<close> are the map's range, each binding once.\<close>

lemma set_slot_nodes:
  assumes "k < 64" "slot_inv k sa"
  shows "set (slot_nodes (2 ^ k) sa) = ran (slot_map (2 ^ k) sa)"
    and "inj_on (slot_map (2 ^ k) sa) (dom (slot_map (2 ^ k) sa)) \<Longrightarrow> distinct (slot_nodes (2 ^ k) sa)"
proof -
  have once: "keys_once k (sa_entries sa)"
    using assms(2) by (simp add: slot_inv_def)
  have set: "set (slot_pairs (2 ^ k) sa) = {(key, v). slot_map (2 ^ k) sa key = Some v}"
    using slot_map_iff[OF assms(1) once] by (auto simp: set_slot_pairs[OF assms(1)])
  then show "set (slot_nodes (2 ^ k) sa) = ran (slot_map (2 ^ k) sa)"
    by (force simp: slot_nodes_def ran_def)
  assume inj: "inj_on (slot_map (2 ^ k) sa) (dom (slot_map (2 ^ k) sa))"
  have "distinct (slot_pairs (2 ^ k) sa)"
    using distinct_slot_pairs[OF assms(1) once] by (simp add: distinct_map)
  moreover have "inj_on snd (set (slot_pairs (2 ^ k) sa))"
    using inj unfolding set inj_on_def by (force simp: dom_def)
  ultimately show "distinct (slot_nodes (2 ^ k) sa)"
    by (simp add: slot_nodes_def distinct_map)
qed

section \<open>The table is a finite map\<close>

text \<open>C17: With \<open>2 ^ k\<close> slots of which one stays free, \<open>find\<close>, \<open>insert\<close> and \<open>erase\<close> all return
  (no probe loop runs for ever) and do what lookup, update and deletion do to the finite map the
  table stands for: \<open>erase\<close> reports the removed node and its backward shift loses no other key.\<close>

theorem slot_array_is_map:
  assumes "k < 64" "slot_inv k sa"
  shows "slot_find (2 ^ k) key sa = Some (slot_map (2 ^ k) sa key) \<and>
    (slot_map (2 ^ k) sa key = None \<and> sa_live_count sa + 1 < 2 ^ k \<longrightarrow>
      (\<exists>sa'. slot_insert (2 ^ k) key v sa = Some sa' \<and> slot_inv k sa' \<and>
             slot_map (2 ^ k) sa' = (slot_map (2 ^ k) sa)(key \<mapsto> v) \<and>
             sa_live_count sa' = sa_live_count sa + 1)) \<and>
    (\<exists>sa'. slot_erase (2 ^ k) key sa = Some (sa', slot_map (2 ^ k) sa key) \<and> slot_inv k sa' \<and>
           slot_map (2 ^ k) sa' = (slot_map (2 ^ k) sa)(key := None))"
proof (intro conjI impI)
  assume "slot_map (2 ^ k) sa key = None \<and> sa_live_count sa + 1 < 2 ^ k"
  then show "\<exists>sa'. slot_insert (2 ^ k) key v sa = Some sa' \<and> slot_inv k sa' \<and>
      slot_map (2 ^ k) sa' = (slot_map (2 ^ k) sa)(key \<mapsto> v) \<and> sa_live_count sa' = sa_live_count sa + 1"
    using slot_insert_correct[OF assms, of key v] by metis
next
  show "\<exists>sa'. slot_erase (2 ^ k) key sa = Some (sa', slot_map (2 ^ k) sa key) \<and> slot_inv k sa' \<and>
      slot_map (2 ^ k) sa' = (slot_map (2 ^ k) sa)(key := None)"
    using slot_erase_correct[OF assms, of key] by metis
qed (rule slot_find_correct[OF assms])

text \<open>Two keys with the same home; the first is erased and the second moves back into its slot.\<close>

lemma slot_array_is_map_witness:
  "\<exists>sa1 sa2 sa3. slot_insert (2 ^ 2) 1 10 slot_array_new = Some sa1 \<and>
     slot_insert (2 ^ 2) 5 20 sa1 = Some sa2 \<and> slot_erase (2 ^ 2) 1 sa2 = Some (sa3, Some 10) \<and>
     slot_find (2 ^ 2) 5 sa3 = Some (Some 20) \<and> slot_find (2 ^ 2) 1 sa3 = Some None"
proof -
  note new = slot_new_correct[of 2]
  have c0: "sa_live_count slot_array_new = 0" by (simp add: slot_array_new_def)
  obtain sa1 where 1: "slot_insert (2 ^ 2) 1 10 slot_array_new = Some sa1" "slot_inv 2 sa1"
      "slot_map (2 ^ 2) sa1 = [1 \<mapsto> 10]" "sa_live_count sa1 = 1"
    using slot_array_is_map[OF _ new(2), of 1 10] new(1) c0 by auto
  obtain sa2 where 2: "slot_insert (2 ^ 2) 5 20 sa1 = Some sa2" "slot_inv 2 sa2"
      "slot_map (2 ^ 2) sa2 = [1 \<mapsto> 10, 5 \<mapsto> 20]"
    using slot_array_is_map[OF _ 1(2), of 5 20] 1(3,4) by auto
  obtain sa3 where 3: "slot_erase (2 ^ 2) 1 sa2 = Some (sa3, Some 10)" "slot_inv 2 sa3"
      "slot_map (2 ^ 2) sa3 = [5 \<mapsto> 20]"
    using slot_array_is_map[OF _ 2(2), of 1] 2(3) by (auto simp: fun_upd_twist)
  show ?thesis
    using 1(1) 2(1) 3 slot_array_is_map[OF _ 3(2), of 5] slot_array_is_map[OF _ 3(2), of 1] by auto
qed

end
