(* ===== verification/MemPool.thy ===== *)
theory MemPool
  imports Prelude
begin

text \<open>
  \<open>common/mem_pool.h\<close>: the fixed-capacity object pool. A pointer into the pool is the index of
  its block; the vector of blocks is a function of the index with the vector's size beside it, and
  an index outside the vector is \<open>Undef\<close> (or the failed \<open>ASSERT\<close> of \<open>deallocate\<close>). The theory
  proves the pool's contract, states it as the locale \<open>node_pool\<close> that the books rely on, and
  interprets the locale on the pool.
\<close>

section \<open>Model\<close>

record 'a object_block =
  blk_object :: 'a
  blk_free :: bool

record 'a mem_pool =
  mp_store :: "nat \<Rightarrow> 'a object_block"
  mp_size :: nat
  mp_next_free_index :: nat
  mp_exhausted :: bool

text \<open>The constructor: \<open>num_elems\<close> free blocks holding \<open>T()\<close>, here \<open>x\<close>.\<close>

definition mem_pool_new :: "'a \<Rightarrow> nat \<Rightarrow> exn + 'a mem_pool" where
  "mem_pool_new x num_elems =
     (if num_elems = 0 then Inl (Invalid_argument ''MemPool capacity must be greater than zero'')
      else Inr \<lparr>mp_store = (\<lambda>_. \<lparr>blk_object = x, blk_free = True\<rparr>), mp_size = num_elems,
                mp_next_free_index = 0, mp_exhausted = False\<rparr>)"

text \<open>
  The \<open>do ... while\<close> of \<open>updateNextFreeIndex\<close>: \<open>Some i\<close> where it stops at a free block, \<open>None\<close>
  where it comes back to \<open>initial\<close>. Both indices are inside the vector (the caller checks).
\<close>

function scan_free :: "(nat \<Rightarrow> 'a object_block) \<Rightarrow> nat \<Rightarrow> nat \<Rightarrow> nat \<Rightarrow> nat option" where
  "scan_free st n initial i =
     (if \<not> (initial < n \<and> i < n) then None
      else if blk_free (st i) then Some i
      else let j = (if Suc i = n then 0 else Suc i)
           in if j = initial then None else scan_free st n initial j)"
  by pat_completeness auto
termination
  by (relation "measure (\<lambda>(st, n, initial, i). if i < initial then initial - i else n - i + initial)")
     (auto split: if_splits)

declare scan_free.simps [simp del]

definition updateNextFreeIndex :: "'a mem_pool \<Rightarrow> ('a mem_pool, unit) outcome" where
  "updateNextFreeIndex p =
     (if mp_next_free_index p < mp_size p then
        (case scan_free (mp_store p) (mp_size p) (mp_next_free_index p) (mp_next_free_index p) of
           Some j \<Rightarrow> Ok (p\<lparr>mp_next_free_index := j\<rparr>) ()
         | None \<Rightarrow> Ok (p\<lparr>mp_exhausted := True\<rparr>) ())
      else Undef)"

definition allocate :: "'a \<Rightarrow> 'a mem_pool \<Rightarrow> ('a mem_pool, nat) outcome" where
  "allocate x p =
     (if mp_exhausted p then Abort ''Memory pool out of space.''
      else let i = mp_next_free_index p in
        if \<not> i < mp_size p then Undef
        else if \<not> blk_free (mp_store p i) then Abort ''Expected free ObjectBlock at index''
        else then_do
               (updateNextFreeIndex
                  (p\<lparr>mp_store := (mp_store p)(i := \<lparr>blk_object = x, blk_free = False\<rparr>)\<rparr>))
               (\<lambda>p' _. Ok p' i))"

definition deallocate :: "nat \<Rightarrow> 'a mem_pool \<Rightarrow> ('a mem_pool, unit) outcome" where
  "deallocate i p =
     (if \<not> i < mp_size p then
        Abort ''Element being deallocated does not belong to this memory pool.''
      else if blk_free (mp_store p i) then Abort ''Expected in-use ObjectBlock at index''
      else let p1 = p\<lparr>mp_store := (mp_store p)(i := (mp_store p i)\<lparr>blk_free := True\<rparr>)\<rparr> in
        Ok (if mp_exhausted p then p1\<lparr>mp_exhausted := False, mp_next_free_index := i\<rparr> else p1) ())"

text \<open>Reading and writing the object behind a pointer.\<close>

definition pool_get :: "'a mem_pool \<Rightarrow> nat \<Rightarrow> 'a" where
  "pool_get p i = blk_object (mp_store p i)"

definition pool_put :: "nat \<Rightarrow> 'a \<Rightarrow> 'a mem_pool \<Rightarrow> 'a mem_pool" where
  "pool_put i x p = p\<lparr>mp_store := (mp_store p)(i := (mp_store p i)\<lparr>blk_object := x\<rparr>)\<rparr>"

section \<open>Contract\<close>

definition pool_live :: "'a mem_pool \<Rightarrow> nat set" where
  "pool_live p = {i. i < mp_size p \<and> \<not> blk_free (mp_store p i)}"

text \<open>
  The invariant: the scan position is inside the vector, it is at a free block unless the pool is
  flagged exhausted, and the flag is set only when every block is in use.
\<close>

definition pool_inv :: "'a mem_pool \<Rightarrow> bool" where
  "pool_inv p \<longleftrightarrow> mp_next_free_index p < mp_size p \<and>
     (if mp_exhausted p then pool_live p = {..<mp_size p}
      else blk_free (mp_store p (mp_next_free_index p)))"

lemma pool_live_finite [simp, intro]: "finite (pool_live p)"
  by (simp add: pool_live_def)

lemma pool_live_subset: "pool_live p \<subseteq> {..<mp_size p}"
  by (auto simp: pool_live_def)

lemma pool_view_index [simp]:
  "pool_live (p\<lparr>mp_next_free_index := j\<rparr>) = pool_live p"
  "pool_get (p\<lparr>mp_next_free_index := j\<rparr>) = pool_get p"
  "pool_live (p\<lparr>mp_exhausted := e\<rparr>) = pool_live p"
  "pool_get (p\<lparr>mp_exhausted := e\<rparr>) = pool_get p"
  by (simp_all add: pool_live_def pool_get_def fun_eq_iff)

lemma scan_free_Some:
  "scan_free st n initial i = Some j \<Longrightarrow> j < n \<and> blk_free (st j)"
proof (induction st n initial i rule: scan_free.induct)
  case (1 st n initial i)
  then show ?case
    by (subst (asm) (2) scan_free.simps) (auto simp: Let_def split: if_splits)
qed

text \<open>The part of the cycle the loop has still to visit before it is back at \<open>initial\<close>.\<close>

definition scan_rest :: "nat \<Rightarrow> nat \<Rightarrow> nat \<Rightarrow> nat set" where
  "scan_rest n initial i = (if i < initial then {i..<initial} else {i..<n} \<union> {..<initial})"

lemma scan_free_None:
  "scan_free st n initial i = None \<Longrightarrow> initial < n \<Longrightarrow> i < n \<Longrightarrow>
     \<forall>k\<in>scan_rest n initial i. \<not> blk_free (st k)"
proof (induction st n initial i rule: scan_free.induct)
  case (1 st n initial i)
  let ?j = "if Suc i = n then 0 else Suc i"
  have nf: "\<not> blk_free (st i)"
    using "1.prems" by (subst (asm) scan_free.simps) (auto split: if_splits)
  have sub: "scan_rest n initial i \<subseteq> insert i (if ?j = initial then {} else scan_rest n initial ?j)"
    using "1.prems"(2,3) by (auto simp: scan_rest_def split: if_splits)
  show ?case
  proof (cases "?j = initial")
    case True
    with sub nf show ?thesis by auto
  next
    case False
    have "scan_free st n initial ?j = None"
      using "1.prems" nf False by (subst (asm) scan_free.simps) (auto simp: Let_def split: if_splits)
    then have "\<forall>k\<in>scan_rest n initial ?j. \<not> blk_free (st k)"
      using "1.IH"[OF _ nf refl False] "1.prems"(2,3) by (auto split: if_splits)
    with sub nf False show ?thesis by auto
  qed
qed

lemma scan_free_full:
  "scan_free st n i i = None \<Longrightarrow> i < n \<Longrightarrow> k < n \<Longrightarrow> \<not> blk_free (st k)"
  using scan_free_None[of st n i i] by (force simp: scan_rest_def)

lemma pool_put_simps [simp]:
  "pool_get (pool_put i x p) = (pool_get p)(i := x)"
  "pool_live (pool_put i x p) = pool_live p"
  "pool_inv (pool_put i x p) = pool_inv p"
  "mp_size (pool_put i x p) = mp_size p"
  by (auto simp: pool_put_def pool_get_def pool_live_def pool_inv_def fun_eq_iff)

lemma pool_new_inv:
  "mem_pool_new x n = Inr p \<Longrightarrow> pool_inv p \<and> pool_live p = {} \<and> mp_size p = n \<and> 0 < n"
  by (auto simp: mem_pool_new_def pool_inv_def pool_live_def split: if_splits)

text \<open>An exhausted pool is a full one.\<close>

lemma pool_exhausted_iff:
  assumes "pool_inv p"
  shows "mp_exhausted p \<longleftrightarrow> card (pool_live p) = mp_size p"
proof
  assume "card (pool_live p) = mp_size p"
  then have "pool_live p = {..<mp_size p}"
    using pool_live_subset[of p] by (intro card_subset_eq) auto
  with assms show "mp_exhausted p"
    by (auto simp: pool_inv_def pool_live_def split: if_splits)
qed (use assms in \<open>auto simp: pool_inv_def split: if_splits\<close>)

lemma allocate_post:
  assumes inv: "pool_inv p" and room: "card (pool_live p) < mp_size p"
  shows "post (\<lambda>p' i. pool_inv p' \<and> mp_size p' = mp_size p \<and> i \<notin> pool_live p \<and>
                 pool_live p' = insert i (pool_live p) \<and> pool_get p' = (pool_get p)(i := x))
              (\<lambda>_ _. False) (allocate x p)"
proof -
  let ?i = "mp_next_free_index p"
  let ?q = "p\<lparr>mp_store := (mp_store p)(?i := \<lparr>blk_object = x, blk_free = False\<rparr>)\<rparr>"
  have ne: "\<not> mp_exhausted p"
    using pool_exhausted_iff[OF inv] room by simp
  with inv have i: "?i < mp_size p" "blk_free (mp_store p ?i)"
    by (auto simp: pool_inv_def)
  have live: "pool_live ?q = insert ?i (pool_live p)" "?i \<notin> pool_live p"
    using i by (auto simp: pool_live_def)
  have get: "pool_get ?q = (pool_get p)(?i := x)"
    by (auto simp: pool_get_def)
  show ?thesis
  proof (cases "scan_free (mp_store ?q) (mp_size p) ?i ?i")
    case None
    have "pool_live ?q = {..<mp_size p}"
    proof (intro set_eqI)
      fix k show "k \<in> pool_live ?q \<longleftrightarrow> k \<in> {..<mp_size p}"
        using scan_free_full[OF None i(1), of k] i
        by (cases "k = mp_next_free_index p") (auto simp: pool_live_def)
    qed
    with None ne i live get show ?thesis
      by (simp add: allocate_def updateNextFreeIndex_def pool_inv_def Let_def)
  next
    case (Some j)
    with scan_free_Some[OF Some] ne i live get show ?thesis
      by (simp add: allocate_def updateNextFreeIndex_def pool_inv_def Let_def)
  qed
qed

lemma deallocate_post:
  assumes "pool_inv p" and "i \<in> pool_live p"
  shows "post (\<lambda>p' _. pool_inv p' \<and> mp_size p' = mp_size p \<and>
                 pool_live p' = pool_live p - {i} \<and> pool_get p' = pool_get p)
              (\<lambda>_ _. False) (deallocate i p)"
proof -
  let ?q = "p\<lparr>mp_store := (mp_store p)(i := (mp_store p i)\<lparr>blk_free := True\<rparr>)\<rparr>"
  have "pool_live ?q = pool_live p - {i}" "pool_get ?q = pool_get p"
    by (auto simp: pool_live_def pool_get_def)
  with assms show ?thesis
    by (auto simp: deallocate_def Let_def pool_inv_def pool_live_def split: if_splits)
qed

section \<open>The interface the books use\<close>

locale node_pool =
  fixes alloc :: "'a \<Rightarrow> 'p \<Rightarrow> ('p, nat) outcome"
    and dealloc :: "nat \<Rightarrow> 'p \<Rightarrow> ('p, unit) outcome"
    and get :: "'p \<Rightarrow> nat \<Rightarrow> 'a"
    and put :: "nat \<Rightarrow> 'a \<Rightarrow> 'p \<Rightarrow> 'p"
    and live :: "'p \<Rightarrow> nat set"
    and cap :: "'p \<Rightarrow> nat"
    and inv :: "'p \<Rightarrow> bool"
  assumes live_finite: "finite (live p)"
    and alloc_ok: "inv p \<Longrightarrow> card (live p) < cap p \<Longrightarrow>
      post (\<lambda>p' i. inv p' \<and> cap p' = cap p \<and> i \<notin> live p \<and>
              live p' = insert i (live p) \<and> get p' = (get p)(i := x))
           (\<lambda>_ _. False) (alloc x p)"
    and dealloc_ok: "inv p \<Longrightarrow> i \<in> live p \<Longrightarrow>
      post (\<lambda>p' _. inv p' \<and> cap p' = cap p \<and> live p' = live p - {i} \<and> get p' = get p)
           (\<lambda>_ _. False) (dealloc i p)"
    and put_get: "get (put i x p) = (get p)(i := x)"
    and put_live: "live (put i x p) = live p"
    and put_cap: "cap (put i x p) = cap p"
    and put_inv: "inv (put i x p) = inv p"
begin

text \<open>Freeing a list of blocks one after the other, as the books' clearing loops do.\<close>

fun free_all :: "nat list \<Rightarrow> 'p \<Rightarrow> ('p, unit) outcome" where
  "free_all [] p = Ok p ()"
| "free_all (i # is) p = then_do (dealloc i p) (\<lambda>p' _. free_all is p')"

lemma free_all_ok:
  "inv p \<Longrightarrow> distinct is \<Longrightarrow> set is \<subseteq> live p \<Longrightarrow>
     post (\<lambda>p' _. inv p' \<and> cap p' = cap p \<and> live p' = live p - set is \<and> get p' = get p)
          (\<lambda>_ _. False) (free_all is p)"
proof (induction "is" arbitrary: p)
  case (Cons i "is")
  have "post (\<lambda>p' _. inv p' \<and> cap p' = cap p \<and> live p' = live p - {i} \<and> get p' = get p)
           (\<lambda>_ _. False) (dealloc i p)"
    using Cons.prems by (intro dealloc_ok) auto
  then obtain q where q: "dealloc i p = Ok q ()" "inv q" "cap q = cap p"
      "live q = live p - {i}" "get q = get p"
    by (auto dest!: post_False_E)
  have "post (\<lambda>p' _. inv p' \<and> cap p' = cap q \<and> live p' = live q - set is \<and> get p' = get q)
          (\<lambda>_ _. False) (free_all is q)"
    using Cons.prems q by (intro Cons.IH) auto
  then show ?case
    using q by (auto elim!: post_mono)
qed simp

lemma alloc_obtains:
  assumes "inv p" "card (live p) < cap p"
  obtains p' i where "alloc x p = Ok p' i" "inv p'" "cap p' = cap p" "i \<notin> live p"
    "live p' = insert i (live p)" "get p' = (get p)(i := x)"
  using post_False_E[OF alloc_ok[OF assms]] by blast

lemma dealloc_obtains:
  assumes "inv p" "i \<in> live p"
  obtains p' where "dealloc i p = Ok p' ()" "inv p'" "cap p' = cap p"
    "live p' = live p - {i}" "get p' = get p"
  using post_False_E[OF dealloc_ok[OF assms]] by (metis (full_types) old.unit.exhaust)

end

interpretation mp: node_pool allocate deallocate pool_get pool_put pool_live mp_size pool_inv
  by unfold_locales (auto intro: allocate_post deallocate_post)

section \<open>The documented deviations 2 and 6 of the header\<close>

text \<open>
  Every block can be in use at once: from a fresh pool, \<open>allocate\<close> succeeds as long as fewer than
  \<open>num_elems\<close> blocks are live, and the next one terminates the process instead of spinning.
\<close>

fun allocate_n :: "nat \<Rightarrow> 'a \<Rightarrow> 'a mem_pool \<Rightarrow> ('a mem_pool, nat list) outcome" where
  "allocate_n 0 x p = Ok p []"
| "allocate_n (Suc k) x p =
     then_do (allocate x p) (\<lambda>p' i. then_do (allocate_n k x p') (\<lambda>p'' is. Ok p'' (i # is)))"

lemma allocate_n_post:
  "pool_inv p \<Longrightarrow> card (pool_live p) + k \<le> mp_size p \<Longrightarrow>
     post (\<lambda>p' is. pool_inv p' \<and> mp_size p' = mp_size p \<and> length is = k \<and> distinct is \<and>
              set is \<inter> pool_live p = {} \<and> pool_live p' = set is \<union> pool_live p)
          (\<lambda>_ _. False) (allocate_n k x p)"
proof (induction k arbitrary: p)
  case (Suc k)
  from Suc.prems have "card (pool_live p) < mp_size p" by simp
  with Suc.prems(1) obtain p' i where a: "allocate x p = Ok p' i" "pool_inv p'"
      "mp_size p' = mp_size p" "i \<notin> pool_live p" "pool_live p' = insert i (pool_live p)"
    by (rule mp.alloc_obtains)
  then have "post (\<lambda>p'' is. pool_inv p'' \<and> mp_size p'' = mp_size p' \<and> length is = k \<and>
      distinct is \<and> set is \<inter> pool_live p' = {} \<and> pool_live p'' = set is \<union> pool_live p')
      (\<lambda>_ _. False) (allocate_n k x p')"
    using Suc.prems by (intro Suc.IH) auto
  then obtain p'' "is" where "allocate_n k x p' = Ok p'' is" "pool_inv p''"
      "mp_size p'' = mp_size p'" "length is = k" "distinct is" "set is \<inter> pool_live p' = {}"
      "pool_live p'' = set is \<union> pool_live p'"
    by (auto dest!: post_False_E)
  with a show ?case by auto
qed simp

text \<open>A fresh pool of \<open>n\<close> blocks hands out all \<open>n\<close> of them, each once, and the next
  allocation ends the process with the pool's message instead of scanning for ever; a freed block
  is then the next one handed out.\<close>

theorem pool_capacity_usable:
  assumes "mem_pool_new x n = Inr p"
  shows "\<exists>p' is. allocate_n n x p = Ok p' is \<and> distinct is \<and> set is = {..<n} \<and>
    allocate y p' = Abort ''Memory pool out of space.'' \<and>
    (\<forall>i<n. \<exists>p1 p2. deallocate i p' = Ok p1 () \<and> allocate y p1 = Ok p2 i)"
proof -
  have p: "pool_inv p" "pool_live p = {}" "mp_size p = n" "0 < n"
    using pool_new_inv[OF assms] by auto
  then obtain p' "is" where a: "allocate_n n x p = Ok p' is" "pool_inv p'" "mp_size p' = n"
      "length is = n" "distinct is" "pool_live p' = set is"
    using post_False_E[OF allocate_n_post[of p n x]] by auto
  have "card (pool_live p') = n"
    using a by (simp add: distinct_card)
  then have full: "pool_live p' = {..<n}" "mp_exhausted p'"
    using pool_live_subset[of p'] pool_exhausted_iff[OF a(2)] a(3) card_subset_eq[of "{..<n}" "pool_live p'"]
    by auto
  have "\<exists>p1 p2. deallocate i p' = Ok p1 () \<and> allocate y p1 = Ok p2 i" if i: "i < n" for i
  proof -
    have "\<not> blk_free (mp_store p' i)"
      using full(1) i by (auto simp: pool_live_def)
    then have "deallocate i p' = Ok (p'\<lparr>mp_store := (mp_store p')(i := (mp_store p' i)\<lparr>blk_free := True\<rparr>),
        mp_exhausted := False, mp_next_free_index := i\<rparr>) ()"
      using full(2) i a(3) by (simp add: deallocate_def Let_def)
    moreover have "\<exists>q'. updateNextFreeIndex q = Ok q' ()" if "mp_next_free_index q < mp_size q" for q :: "'a mem_pool"
      using that by (auto simp: updateNextFreeIndex_def split: option.splits)
    from this[of "p'\<lparr>mp_exhausted := False, mp_next_free_index := i,
        mp_store := (mp_store p')(i := \<lparr>blk_object = y, blk_free = False\<rparr>)\<rparr>"]
    obtain q where "updateNextFreeIndex (p'\<lparr>mp_exhausted := False, mp_next_free_index := i,
        mp_store := (mp_store p')(i := \<lparr>blk_object = y, blk_free = False\<rparr>)\<rparr>) = Ok q ()"
      using i a(3) by auto
    ultimately show ?thesis
      using i a(3) by (simp add: allocate_def Let_def)
  qed
  moreover have "allocate y p' = Abort ''Memory pool out of space.''"
    using full(2) by (simp add: allocate_def)
  ultimately show ?thesis
    using a(1,5,6) full(1) by (intro exI[of _ p'] exI[of _ "is"]) simp
qed

lemma pool_capacity_usable_witness:
  "\<exists>p p' is. mem_pool_new (0 :: nat) 3 = Inr p \<and> allocate_n 3 0 p = Ok p' is \<and> set is = {..<3} \<and>
     allocate 9 p' = Abort ''Memory pool out of space.''"
proof -
  obtain p where p: "mem_pool_new (0 :: nat) 3 = Inr p" by (simp add: mem_pool_new_def)
  show ?thesis
    using pool_capacity_usable[OF p, of 9] p by blast
qed

end
