(* ===== verification/Decimal.thy ===== *)
theory Decimal
  imports Prelude
begin

text \<open>
  Decimal text: what \<open>std::to_string\<close>, stream output of integers and \<open>std::stoull\<close> do in the
  program. Client order ids travel to a venue as decimal text and come back as decimal text; the
  round trip is proved here.
\<close>

section \<open>Printing\<close>

definition digit_char :: "nat \<Rightarrow> char" where
  "digit_char d = char_of (48 + d)"

fun show_nat :: "nat \<Rightarrow> string" where
  "show_nat n = (if n < 10 then [digit_char n] else show_nat (n div 10) @ [digit_char (n mod 10)])"

declare show_nat.simps [simp del]

definition show_int :: "int \<Rightarrow> string" where
  "show_int i = (if i < 0 then CHR ''-'' # show_nat (nat (- i)) else show_nat (nat i))"

definition show_u :: "'a::len word \<Rightarrow> string" where
  "show_u w = show_nat (unat w)"

definition show_s :: "'a::len word \<Rightarrow> string" where
  "show_s w = show_int (sint w)"

section \<open>Parsing\<close>

definition is_digit :: "char \<Rightarrow> bool" where
  "is_digit c \<longleftrightarrow> 48 \<le> (of_char c :: nat) \<and> (of_char c :: nat) \<le> 57"

definition digit_val :: "char \<Rightarrow> nat" where
  "digit_val c = of_char c - 48"

definition is_space :: "char \<Rightarrow> bool" where
  "is_space c \<longleftrightarrow> (of_char c :: nat) = 32 \<or> (9 \<le> (of_char c :: nat) \<and> (of_char c :: nat) \<le> 13)"

fun digits_val :: "nat \<Rightarrow> string \<Rightarrow> nat" where
  "digits_val acc [] = acc"
| "digits_val acc (c # cs) = digits_val (10 * acc + digit_val c) cs"

text \<open>
  \<open>std::stoull\<close>: leading white space and one sign are skipped, the longest run of digits is the
  number; no digit is \<open>invalid_argument\<close>, a number above 64 bits is \<open>out_of_range\<close>, and a minus
  sign negates modulo \<open>2 ^ 64\<close> as \<open>strtoull\<close> does. The result has the number of characters read.
\<close>

definition stoull :: "string \<Rightarrow> exn + (64 word \<times> nat)" where
  "stoull s =
     (let ws = takeWhile is_space s; r = dropWhile is_space s;
          neg = (case r of c # _ \<Rightarrow> c = CHR ''-'' | [] \<Rightarrow> False);
          signed = (case r of c # _ \<Rightarrow> c = CHR ''-'' \<or> c = CHR ''+'' | [] \<Rightarrow> False);
          ds = takeWhile is_digit (if signed then tl r else r);
          v = digits_val 0 ds
      in if ds = [] then Inl (Invalid_argument ''stoull'')
         else if v \<ge> 2 ^ 64 then Inl (Out_of_range ''stoull'')
         else Inr ((if neg then - of_nat v else of_nat v),
                   length ws + (if signed then 1 else 0) + length ds))"

section \<open>Round trip\<close>

lemma of_char_digit [simp]: "d < 10 \<Longrightarrow> (of_char (digit_char d) :: nat) = 48 + d"
  by (simp add: digit_char_def)

lemma is_digit_digit_char [simp]: "d < 10 \<Longrightarrow> is_digit (digit_char d)"
  by (simp add: is_digit_def)

lemma digit_val_digit_char [simp]: "d < 10 \<Longrightarrow> digit_val (digit_char d) = d"
  by (simp add: digit_val_def)

lemma digits_val_snoc: "digits_val acc (cs @ [c]) = 10 * digits_val acc cs + digit_val c"
  by (induction acc cs rule: digits_val.induct) simp_all

lemma show_nat_digits: "\<forall>c\<in>set (show_nat n). is_digit c"
proof (induction n rule: show_nat.induct)
  case (1 n)
  then show ?case by (subst show_nat.simps) auto
qed

lemma show_nat_nonempty [simp]: "show_nat n \<noteq> []"
  by (subst show_nat.simps) simp

lemma digits_val_show_nat [simp]: "digits_val 0 (show_nat n) = n"
proof (induction n rule: show_nat.induct)
  case (1 n)
  then show ?case by (subst show_nat.simps) (auto simp: digits_val_snoc)
qed

lemma digit_not_space: "is_digit c \<Longrightarrow> \<not> is_space c \<and> c \<noteq> CHR ''-'' \<and> c \<noteq> CHR ''+''"
  by (auto simp: is_digit_def is_space_def)

lemma show_nat_inj [simp]: "show_nat m = show_nat n \<longleftrightarrow> m = n"
  by (metis digits_val_show_nat)

lemma stoull_show_nat:
  assumes "n < 2 ^ 64"
  shows "stoull (show_nat n) = Inr (of_nat n, length (show_nat n))"
proof -
  obtain c cs where c: "show_nat n = c # cs"
    by (meson neq_Nil_conv show_nat_nonempty)
  then have d: "is_digit c" "\<forall>x\<in>set (c # cs). is_digit x"
    using show_nat_digits[of n] by auto
  have "takeWhile is_digit (show_nat n) = show_nat n"
    using show_nat_digits[of n] by (simp add: takeWhile_eq_all_conv)
  moreover have "takeWhile is_space (show_nat n) = []" "dropWhile is_space (show_nat n) = show_nat n"
    using digit_not_space[OF d(1)] by (simp_all add: c)
  moreover have "digits_val 0 (show_nat n) = n" by simp
  ultimately show ?thesis
    using digit_not_space[OF d(1)] assms c unfolding stoull_def Let_def by simp
qed

lemma stoull_show_u: "stoull (show_u (w :: 64 word)) = Inr (w, length (show_u w))"
  using stoull_show_nat[of "unat w"] unsigned_less[of w, where ?'a = nat] by (simp add: show_u_def)

lemma show_u_inj [simp]: "show_u w = show_u w' \<longleftrightarrow> w = w'"
  by (simp add: show_u_def word_eq_iff_unsigned[where ?'a = nat])

end
