(* ===== verification/Binary64.thy ===== *)
theory Binary64
  imports Complex_Main Prelude
begin

text \<open>
  The C++ type \<open>double\<close>: IEEE 754 binary64 with round-half-to-even, on exact rationals. A finite
  value is the rational it denotes, so the two zeros are one value; the operations of the program
  modelled on this type never divide by a zero and never print one, so the sign is not observed.
  Comparisons with a NaN are false, as in C++.
\<close>

section \<open>Rounding\<close>

fun bits :: "nat \<Rightarrow> nat" where
  "bits n = (if n = 0 then 0 else Suc (bits (n div 2)))"

declare bits.simps [simp del]

definition pow2 :: "int \<Rightarrow> rat" where
  "pow2 e = (if 0 \<le> e then 2 ^ nat e else 1 / 2 ^ nat (- e))"

text \<open>The binary exponent of a positive rational: \<open>2 ^ e \<le> x < 2 ^ (e + 1)\<close>.\<close>

definition exponent2 :: "rat \<Rightarrow> int" where
  "exponent2 x = (let (n, d) = quotient_of x; e = int (bits (nat n)) - int (bits (nat d))
                  in if pow2 e \<le> x then e else e - 1)"

definition round_even :: "rat \<Rightarrow> int" where
  "round_even x = (let f = \<lfloor>x\<rfloor>; r = x - of_int f in
     if r < 1 / 2 then f else if r > 1 / 2 then f + 1 else if even f then f else f + 1)"

text \<open>The exponent of the last place of the format at \<open>x\<close>, with the subnormal bound.\<close>

definition quantum :: "rat \<Rightarrow> int" where
  "quantum x = max (exponent2 \<bar>x\<bar>) (-1022) - 52"

definition nearest :: "rat \<Rightarrow> rat" where
  "nearest x = (if x = 0 then 0 else of_int (round_even (x / pow2 (quantum x))) * pow2 (quantum x))"

datatype f64 = NaN | PosInf | NegInf | Fin rat

definition round64 :: "rat \<Rightarrow> f64" where
  "round64 x = (let y = nearest x in
     if y \<ge> pow2 1024 then PosInf else if y \<le> - pow2 1024 then NegInf else Fin y)"

section \<open>Arithmetic and comparisons\<close>

instantiation f64 :: "{plus, minus, times, uminus, zero, one, inverse, ord}"
begin

definition zero_f64 :: f64 where "zero_f64 = Fin 0"

definition one_f64 :: f64 where "one_f64 = Fin 1"

fun uminus_f64 :: "f64 \<Rightarrow> f64" where
  "uminus_f64 NaN = NaN"
| "uminus_f64 PosInf = NegInf"
| "uminus_f64 NegInf = PosInf"
| "uminus_f64 (Fin a) = Fin (- a)"

fun plus_f64 :: "f64 \<Rightarrow> f64 \<Rightarrow> f64" where
  "plus_f64 (Fin a) (Fin b) = round64 (a + b)"
| "plus_f64 NaN y = NaN"
| "plus_f64 x NaN = NaN"
| "plus_f64 PosInf NegInf = NaN"
| "plus_f64 NegInf PosInf = NaN"
| "plus_f64 PosInf y = PosInf"
| "plus_f64 x PosInf = PosInf"
| "plus_f64 NegInf y = NegInf"
| "plus_f64 x NegInf = NegInf"

definition minus_f64 :: "f64 \<Rightarrow> f64 \<Rightarrow> f64" where
  "minus_f64 x y = x + (- y)"

definition inf_of_sign :: "rat \<Rightarrow> f64" where
  "inf_of_sign s = (if s > 0 then PosInf else if s < 0 then NegInf else NaN)"

fun sign_of :: "f64 \<Rightarrow> rat" where
  "sign_of PosInf = 1"
| "sign_of NegInf = -1"
| "sign_of (Fin a) = sgn a"
| "sign_of NaN = 0"

fun times_f64 :: "f64 \<Rightarrow> f64 \<Rightarrow> f64" where
  "times_f64 (Fin a) (Fin b) = round64 (a * b)"
| "times_f64 x y = (if x = NaN \<or> y = NaN then NaN else inf_of_sign (sign_of x * sign_of y))"

fun divide_f64 :: "f64 \<Rightarrow> f64 \<Rightarrow> f64" where
  "divide_f64 (Fin a) (Fin b) = (if b = 0 then inf_of_sign a else round64 (a / b))"
| "divide_f64 NaN y = NaN"
| "divide_f64 x NaN = NaN"
| "divide_f64 (Fin a) y = Fin 0"
| "divide_f64 x (Fin b) = inf_of_sign (sign_of x * (if b < 0 then -1 else 1))"
| "divide_f64 x y = NaN"

definition inverse_f64 :: "f64 \<Rightarrow> f64" where
  "inverse_f64 y = Fin 1 div y"

fun less_eq_f64 :: "f64 \<Rightarrow> f64 \<Rightarrow> bool" where
  "less_eq_f64 (Fin a) (Fin b) \<longleftrightarrow> a \<le> b"
| "less_eq_f64 NaN y \<longleftrightarrow> False"
| "less_eq_f64 x NaN \<longleftrightarrow> False"
| "less_eq_f64 NegInf y \<longleftrightarrow> True"
| "less_eq_f64 x PosInf \<longleftrightarrow> True"
| "less_eq_f64 PosInf y \<longleftrightarrow> False"
| "less_eq_f64 x NegInf \<longleftrightarrow> False"

definition less_f64 :: "f64 \<Rightarrow> f64 \<Rightarrow> bool" where
  "less_f64 x y \<longleftrightarrow> x \<le> y \<and> \<not> y \<le> x"

instance ..

end

definition isfinite :: "f64 \<Rightarrow> bool" where
  "isfinite x = (case x of Fin _ \<Rightarrow> True | _ \<Rightarrow> False)"

text \<open>Conversions: from integers with rounding; to integers by truncation, undefined out of range.\<close>

definition of_integer :: "int \<Rightarrow> f64" where
  "of_integer i = round64 (of_int i)"

definition truncate_rat :: "rat \<Rightarrow> int" where
  "truncate_rat a = (if a \<ge> 0 then \<lfloor>a\<rfloor> else - \<lfloor>- a\<rfloor>)"

definition to_integer :: "int \<Rightarrow> int \<Rightarrow> f64 \<Rightarrow> int option" where
  "to_integer lo hi x = (case x of
     Fin a \<Rightarrow> (let i = truncate_rat a in if lo \<le> i \<and> i \<le> hi then Some i else None)
   | _ \<Rightarrow> None)"

section \<open>The exponent\<close>

lemma pow2_pos [simp]: "0 < pow2 e" "pow2 e \<noteq> 0" "0 \<le> pow2 e"
  by (auto simp: pow2_def)

lemma pow2_0 [simp]: "pow2 0 = 1"
  by (simp add: pow2_def)

lemma pow2_nat: "pow2 (int n) = 2 ^ n"
  by (simp add: pow2_def)

lemma pow2_add: "pow2 (a + b) = pow2 a * pow2 b"
proof -
  have suc: "pow2 (e + 1) = 2 * pow2 e" for e
  proof (cases "0 \<le> e")
    case False
    then have "nat (- e) = Suc (nat (- (e + 1)))" by simp
    then have "(2 :: rat) ^ nat (- e) = 2 * 2 ^ nat (- (e + 1))" by (simp only: power_Suc)
    with False show ?thesis
      by (cases "e = -1") (simp_all add: pow2_def field_simps)
  qed (simp add: pow2_def nat_add_distrib)
  have up: "pow2 (a + int n) = pow2 a * pow2 (int n)" for a n
  proof (induction n)
    case (Suc n)
    have "pow2 (a + int (Suc n)) = 2 * pow2 (a + int n)" "pow2 (int (Suc n)) = 2 * pow2 (int n)"
      using suc[of "a + int n"] suc[of "int n"] by (simp_all add: ac_simps)
    with Suc show ?case by simp
  qed simp
  show ?thesis
  proof (cases "0 \<le> b")
    case True
    with up[of a "nat b"] show ?thesis by simp
  next
    case False
    with up[of "a + b" "nat (- b)"] up[of b "nat (- b)"] show ?thesis
      by (simp add: mult.assoc mult.commute[of "pow2 (- b)"])
  qed
qed

lemma pow2_mono_iff [simp]: "pow2 a \<le> pow2 b \<longleftrightarrow> a \<le> b" "pow2 a < pow2 b \<longleftrightarrow> a < b"
proof -
  have "pow2 a < pow2 b" if "a < b" for a b
  proof -
    have "pow2 b = pow2 a * pow2 (b - a)" using pow2_add[of a "b - a"] by simp
    moreover have "1 < pow2 (b - a)" using that by (simp add: pow2_def)
    ultimately show ?thesis by simp
  qed
  then show "pow2 a \<le> pow2 b \<longleftrightarrow> a \<le> b" "pow2 a < pow2 b \<longleftrightarrow> a < b"
    by (metis leD le_less not_le)+
qed

lemma pow2_diff: "pow2 (a - b) = pow2 a / pow2 b"
  using pow2_add[of "a - b" b] by (simp add: field_simps)

lemma bits_bounds: "0 < n \<Longrightarrow> 2 ^ (bits n - 1) \<le> n \<and> n < 2 ^ bits n \<and> 0 < bits n"
proof (induction n rule: bits.induct)
  case (1 n)
  show ?case
  proof (cases "n = 1")
    case True
    moreover have "bits 1 = 1" by (subst bits.simps) (simp add: bits.simps[of 0])
    ultimately show ?thesis by simp
  next
    case False
    with 1 have "0 < n div 2" "n \<noteq> 0" by auto
    with 1 have "2 ^ (bits (n div 2) - 1) \<le> n div 2" "n div 2 < 2 ^ bits (n div 2)" "0 < bits (n div 2)"
      by auto
    moreover have "(2 :: nat) ^ bits (n div 2) = 2 * 2 ^ (bits (n div 2) - 1)"
      using \<open>0 < bits (n div 2)\<close> by (simp flip: power_Suc)
    moreover have "bits n = Suc (bits (n div 2))"
      using \<open>n \<noteq> 0\<close> by (subst bits.simps) simp
    moreover have "m \<le> n div 2 \<Longrightarrow> 2 * m \<le> n" "n div 2 < 2 * m \<Longrightarrow> n < 4 * m" for m by linarith+
    ultimately show ?thesis by simp
  qed
qed

lemma exponent2_bounds:
  assumes "0 < x"
  shows "pow2 (exponent2 x) \<le> x" "x < pow2 (exponent2 x + 1)"
proof -
  obtain n d where q: "quotient_of x = (n, d)" by fastforce
  then have d: "0 < d" "x = of_int n / of_int d"
    by (simp_all add: quotient_of_denom_pos quotient_of_div)
  with assms have n: "0 < n" by (simp add: zero_less_divide_iff)
  let ?bn = "int (bits (nat n))" and ?bd = "int (bits (nat d))"
  have le: "pow2 (b - 1) \<le> of_int i \<and> of_int i < pow2 b" if "0 < i" "b = int (bits (nat i))" for i b
  proof -
    have bs: "2 ^ (bits (nat i) - 1) \<le> nat i" "nat i < 2 ^ bits (nat i)" "0 < bits (nat i)"
      using bits_bounds[of "nat i"] that by auto
    then have "(2 :: rat) ^ (bits (nat i) - 1) \<le> of_nat (nat i)" "of_nat (nat i) < (2 :: rat) ^ bits (nat i)"
      by (metis of_nat_le_iff of_nat_numeral of_nat_power, metis of_nat_less_iff of_nat_numeral of_nat_power)
    then show ?thesis
      using that bs(3) by (simp add: pow2_def nat_diff_distrib)
  qed
  have "pow2 (?bn - ?bd - 1) \<le> x" "x < pow2 (?bn - ?bd + 1)"
  proof -
    have bn: "pow2 (?bn - 1) \<le> of_int n" "of_int n < pow2 ?bn"
      and bd: "pow2 (?bd - 1) \<le> of_int d" "of_int d < pow2 ?bd"
      using le[OF n refl] le[OF d(1) refl] by auto
    have "pow2 (?bn - ?bd - 1) = pow2 (?bn - 1) / pow2 ?bd"
      by (simp add: algebra_simps flip: pow2_diff)
    also have "\<dots> \<le> of_int n / of_int d"
      using bn bd d(1) n by (intro frac_le) auto
    finally show "pow2 (?bn - ?bd - 1) \<le> x" using d(2) by simp
    have "of_int n / of_int d < pow2 ?bn / pow2 (?bd - 1)"
      using bn bd d(1) n by (intro frac_less) auto
    also have "\<dots> = pow2 (?bn - ?bd + 1)"
      by (simp add: algebra_simps flip: pow2_diff)
    finally show "x < pow2 (?bn - ?bd + 1)" using d(2) by simp
  qed
  then show "pow2 (exponent2 x) \<le> x" "x < pow2 (exponent2 x + 1)"
    by (auto simp: exponent2_def q Let_def)
qed

lemma exponent2_eqI:
  assumes "pow2 e \<le> x" "x < pow2 (e + 1)"
  shows "exponent2 x = e"
proof -
  have "0 < x" using assms(1) pow2_pos(1)[of e] by linarith
  note b = exponent2_bounds[OF this]
  have "pow2 (exponent2 x) < pow2 (e + 1)" "pow2 e < pow2 (exponent2 x + 1)"
    using assms b by linarith+
  then show ?thesis by simp
qed

lemma exponent2_mono: "0 < x \<Longrightarrow> x \<le> y \<Longrightarrow> exponent2 x \<le> exponent2 y"
  using exponent2_bounds[of x] exponent2_bounds[of y]
    pow2_mono_iff(2)[of "exponent2 x" "exponent2 y + 1"] by linarith

section \<open>Rounding is monotone and exact on representable values\<close>

lemma round_even_mono: "x \<le> y \<Longrightarrow> round_even x \<le> round_even y"
proof -
  assume xy: "x \<le> y"
  have f: "\<lfloor>x\<rfloor> \<le> \<lfloor>y\<rfloor>" using xy by (rule floor_mono)
  show ?thesis
  proof (cases "\<lfloor>x\<rfloor> = \<lfloor>y\<rfloor>")
    case True
    with xy show ?thesis by (auto simp: round_even_def Let_def)
  next
    case False
    with f show ?thesis by (auto simp: round_even_def Let_def)
  qed
qed

lemma round_even_of_int [simp]: "round_even (of_int i) = i"
  by (simp add: round_even_def)

lemma round_even_uminus: "round_even (- x) = - round_even x"
proof (cases "x = of_int \<lfloor>x\<rfloor>")
  case True
  then have "- x = of_int (- \<lfloor>x\<rfloor>)" by simp
  with True show ?thesis by (metis round_even_of_int)
next
  case False
  then have fl: "\<lfloor>- x\<rfloor> = - \<lfloor>x\<rfloor> - 1"
    by (intro floor_unique) (simp_all, linarith+)
  define f where "f = \<lfloor>x\<rfloor>"
  have "even (- f - 1) \<longleftrightarrow> odd f" by simp
  then show ?thesis
    unfolding round_even_def Let_def fl f_def[symmetric] by (auto simp: field_simps)
qed

lemma quantum_bound: "x \<noteq> 0 \<Longrightarrow> \<bar>x\<bar> / pow2 (quantum x) < 2 ^ 53"
proof -
  assume "x \<noteq> 0"
  then have "\<bar>x\<bar> < pow2 (exponent2 \<bar>x\<bar> + 1)" by (simp add: exponent2_bounds)
  also have "\<dots> \<le> pow2 (quantum x + 53)" by (simp add: quantum_def)
  also have "\<dots> = 2 ^ 53 * pow2 (quantum x)" by (simp add: pow2_add) (simp add: pow2_def)
  finally show ?thesis by (simp add: field_simps)
qed

text \<open>A value with a 53-bit significand and an exponent in range is its own rounding.\<close>

lemma nearest_exact_less:
  assumes "\<bar>m\<bar> < 2 ^ 53" "-1074 \<le> k"
  shows "nearest (of_int m * pow2 k) = of_int m * pow2 k"
proof (cases "m = 0")
  case False
  let ?x = "of_int m * pow2 k"
  have ax: "\<bar>?x\<bar> = of_int \<bar>m\<bar> * pow2 k" by (simp add: abs_mult)
  have "pow2 (exponent2 \<bar>?x\<bar>) \<le> \<bar>?x\<bar>"
    using False by (intro exponent2_bounds) simp
  also have "\<dots> < 2 ^ 53 * pow2 k"
    unfolding ax using assms(1) by (simp add: of_int_less_iff[symmetric, where ?'a = rat] del: of_int_less_iff)
  also have "\<dots> = pow2 (k + 53)" by (simp add: pow2_add) (simp add: pow2_def)
  finally have "exponent2 \<bar>?x\<bar> < k + 53" by simp
  with assms(2) have "quantum ?x \<le> k" by (simp add: quantum_def)
  then have "?x / pow2 (quantum ?x) = of_int (m * 2 ^ nat (k - quantum ?x))"
    using pow2_diff[of k "quantum ?x"] by (simp add: pow2_def[of "k - quantum ?x"])
  then have "of_int (round_even (?x / pow2 (quantum ?x))) = ?x / pow2 (quantum ?x)"
    by (metis round_even_of_int)
  then show ?thesis by (simp add: nearest_def)
qed (simp add: nearest_def)

lemma nearest_exact:
  assumes "\<bar>m\<bar> \<le> 2 ^ 53" "-1074 \<le> k"
  shows "nearest (of_int m * pow2 k) = of_int m * pow2 k"
proof (cases "\<bar>m\<bar> = 2 ^ 53")
  case True
  then obtain i :: int where i: "m = i * 2 ^ 53" "\<bar>i\<bar> = 1"
    by (metis abs_mult_sgn abs_sgn_eq_1 mult.commute abs_0 power_not_zero zero_neq_numeral)
  have "of_int m * pow2 k = of_int (i * 2 ^ 52) * pow2 (k + 1)"
    by (simp add: i(1) pow2_add) (simp add: pow2_def)
  with nearest_exact_less[of "i * 2 ^ 52" "k + 1"] assms(2) i(2) show ?thesis
    by (simp add: abs_mult)
qed (use assms nearest_exact_less in simp)

definition representable :: "rat \<Rightarrow> bool" where
  "representable x \<longleftrightarrow> (\<exists>m k. x = of_int m * pow2 k \<and> \<bar>m\<bar> \<le> 2 ^ 53 \<and> -1074 \<le> k)"

lemma nearest_representable: "representable x \<Longrightarrow> nearest x = x"
  by (auto simp: representable_def nearest_exact)

lemma representable_nearest [simp]: "representable (nearest x)"
proof (cases "x = 0")
  case True
  then show ?thesis by (auto simp: representable_def nearest_def intro!: exI[of _ 0])
next
  case False
  let ?q = "x / pow2 (quantum x)"
  have "\<bar>?q\<bar> \<le> 2 ^ 53"
    using quantum_bound[OF False] by (simp add: abs_divide)
  from abs_le_D1[OF this] abs_le_D2[OF this]
  have "of_int (- (2 ^ 53)) \<le> ?q" "?q \<le> of_int (2 ^ 53)" by simp_all
  then have "round_even (of_int (- (2 ^ 53))) \<le> round_even ?q" "round_even ?q \<le> round_even (of_int (2 ^ 53))"
    by (auto intro!: round_even_mono)
  then have "\<bar>round_even ?q\<bar> \<le> 2 ^ 53"
    unfolding round_even_of_int by (simp add: abs_le_iff)
  moreover have "-1074 \<le> quantum x" by (simp add: quantum_def)
  ultimately show ?thesis
    using False by (auto simp: representable_def nearest_def)
qed

lemma nearest_nearest [simp]: "nearest (nearest x) = nearest x"
  by (simp add: nearest_representable)

lemma nearest_uminus: "nearest (- x) = - nearest x"
  by (simp add: nearest_def quantum_def round_even_uminus)

lemma nearest_nonneg: "0 \<le> x \<Longrightarrow> 0 \<le> nearest x"
  using round_even_mono[of 0 "x / pow2 (quantum x)"] round_even_of_int[of 0]
  by (simp add: nearest_def)

lemma nearest_mono_pos:
  assumes "0 < x" "x \<le> y"
  shows "nearest x \<le> nearest y"
proof (cases "quantum x = quantum y")
  case True
  with assms show ?thesis
    by (auto simp: nearest_def intro!: round_even_mono divide_right_mono mult_right_mono)
next
  case False
  let ?e = "exponent2 y"
  have q: "exponent2 x < ?e" "-1022 < ?e"
    using False exponent2_mono[OF assms] assms by (auto simp: quantum_def max_def split: if_splits)
  have rep: "representable (pow2 ?e)"
    unfolding representable_def by (rule exI[of _ 1], rule exI[of _ ?e]) (use q in auto)
  text \<open>Both roundings are compared with the power of two between them.\<close>
  have "x / pow2 (quantum x) \<le> pow2 (max (exponent2 x) (-1022) + 1) / pow2 (quantum x)"
    by (intro divide_right_mono less_imp_le[OF less_le_trans[OF exponent2_bounds(2)[OF assms(1)]]]) auto
  also have "\<dots> = of_int (2 ^ 53)"
    using assms(1) pow2_diff[of "max (exponent2 x) (-1022) + 1" "quantum x"]
    by (simp add: quantum_def) (simp add: pow2_def)
  finally have "round_even (x / pow2 (quantum x)) \<le> 2 ^ 53"
    using round_even_mono[of _ "of_int (2 ^ 53)"] unfolding round_even_of_int by simp
  then have "nearest x \<le> of_int (2 ^ 53) * pow2 (quantum x)"
    using assms(1) mult_right_mono[OF of_int_le_iff[THEN iffD2], of _ "2 ^ 53" "pow2 (quantum x)"]
    by (simp add: nearest_def)
  also have "\<dots> = pow2 (quantum x + 53)"
    by (simp add: pow2_add) (simp add: pow2_def)
  also have "\<dots> \<le> pow2 ?e"
    using q assms(1) by (simp add: quantum_def)
  also have "\<dots> \<le> nearest y"
  proof -
    have "pow2 ?e \<le> y" "0 < y" using assms exponent2_bounds(1)[of y] by auto
    moreover have "quantum (pow2 ?e) = quantum y"
      using exponent2_eqI[of ?e "pow2 ?e"] \<open>0 < y\<close> by (simp add: quantum_def)
    ultimately have "nearest (pow2 ?e) \<le> nearest y"
      by (auto simp: nearest_def intro!: round_even_mono divide_right_mono mult_right_mono)
    with rep show ?thesis by (simp add: nearest_representable)
  qed
  finally show ?thesis .
qed

theorem nearest_mono: "x \<le> y \<Longrightarrow> nearest x \<le> nearest y"
proof -
  assume xy: "x \<le> y"
  consider "0 < x" | "y < 0" | "x \<le> 0" "0 \<le> y" by linarith
  then show ?thesis
  proof cases
    case 2
    then show ?thesis
      using nearest_mono_pos[of "- y" "- x"] xy by (simp add: nearest_uminus)
  next
    case 3
    then have "0 \<le> nearest (- x)" "0 \<le> nearest y" by (simp_all add: nearest_nonneg)
    then show ?thesis by (simp add: nearest_uminus)
  qed (use xy nearest_mono_pos in simp)
qed

section \<open>Finite results\<close>

lemma representable_int: "\<bar>i\<bar> \<le> 2 ^ 53 \<Longrightarrow> representable (of_int i)"
  unfolding representable_def by (rule exI[of _ i], rule exI[of _ 0]) simp

lemma representable_double: "representable x \<Longrightarrow> representable (2 * x)"
proof -
  assume "representable x"
  then obtain m k where mk: "x = of_int m * pow2 k" "\<bar>m\<bar> \<le> 2 ^ 53" "-1074 \<le> k"
    by (auto simp: representable_def)
  have "2 * x = of_int m * pow2 (k + 1)"
    by (simp add: mk(1) pow2_add) (simp add: pow2_def)
  moreover have "-1074 \<le> k + 1" using mk(3) by simp
  ultimately show ?thesis using mk(2) unfolding representable_def by blast
qed

lemma representable_pow2: "-1074 \<le> k \<Longrightarrow> representable (pow2 k)"
  unfolding representable_def by (rule exI[of _ 1], rule exI[of _ k]) simp

text \<open>Rounding stays on the same side of every representable bound.\<close>

lemma nearest_le: "x \<le> b \<Longrightarrow> representable b \<Longrightarrow> nearest x \<le> b"
  using nearest_mono[of x b] by (simp add: nearest_representable)

lemma nearest_ge: "b \<le> x \<Longrightarrow> representable b \<Longrightarrow> b \<le> nearest x"
  using nearest_mono[of b x] by (simp add: nearest_representable)

lemma nearest_abs_le: "\<bar>x\<bar> \<le> b \<Longrightarrow> representable b \<Longrightarrow> \<bar>nearest x\<bar> \<le> b"
  using nearest_le[of x b] nearest_le[of "- x" b] by (auto simp: abs_le_iff nearest_uminus)

lemma round64_Fin: "\<bar>x\<bar> \<le> pow2 1023 \<Longrightarrow> round64 x = Fin (nearest x)"
proof -
  assume "\<bar>x\<bar> \<le> pow2 1023"
  then have "\<bar>nearest x\<bar> \<le> pow2 1023"
    by (rule nearest_abs_le) (simp add: representable_pow2)
  moreover have "pow2 1023 < pow2 1024" by simp
  ultimately have "\<bar>nearest x\<bar> < pow2 1024" by (rule le_less_trans)
  from abs_less_iff[THEN iffD1, OF this] show ?thesis
    by (simp add: round64_def Let_def)
qed

lemma round64_exact: "representable x \<Longrightarrow> \<bar>x\<bar> \<le> pow2 1023 \<Longrightarrow> round64 x = Fin x"
  by (simp add: round64_Fin nearest_representable)

text \<open>Bounds by powers of two that fit below \<open>2 ^ 1023\<close>.\<close>

lemma pow2_big: "x \<le> 2 ^ n \<Longrightarrow> n \<le> 1023 \<Longrightarrow> x \<le> pow2 1023"
  using pow2_mono_iff(1)[of "int n" 1023] by (simp only: pow2_nat) auto

lemma of_integer_64:
  assumes "\<bar>i\<bar> \<le> 2 ^ 64"
  shows "of_integer i = Fin (nearest (of_int i))" "\<bar>nearest (of_int i)\<bar> \<le> 2 ^ 64"
proof -
  have "\<bar>of_int i :: rat\<bar> \<le> of_int (2 ^ 64)"
    unfolding of_int_abs[symmetric] using assms by (simp only: of_int_le_iff)
  then have le: "\<bar>of_int i :: rat\<bar> \<le> 2 ^ 64" by simp
  with pow2_big[OF this] show "of_integer i = Fin (nearest (of_int i))"
    by (simp only: of_integer_def) (rule round64_Fin, simp)
  have "representable (2 ^ 64)"
    using representable_pow2[of 64] pow2_nat[of 64] by simp
  with le show "\<bar>nearest (of_int i)\<bar> \<le> 2 ^ 64" by (rule nearest_abs_le)
qed

lemma of_integer_exact: "\<bar>i\<bar> \<le> 2 ^ 53 \<Longrightarrow> of_integer i = Fin (of_int i)"
  using of_integer_64(1)[of i] representable_int[of i] by (simp add: nearest_representable)

lemma le_f64_refl_iff [simp]: "(x :: f64) \<le> x \<longleftrightarrow> x \<noteq> NaN"
  by (cases x) auto

lemma less_f64_Fin [simp]: "Fin a < Fin b \<longleftrightarrow> a < b"
  by (auto simp: less_f64_def)

lemma isfinite_simps [simp]: "isfinite (Fin a)" "\<not> isfinite NaN" "\<not> isfinite PosInf" "\<not> isfinite NegInf"
  by (simp_all add: isfinite_def)

end
