(* ===== verification/CommonTypes.thy ===== *)
theory CommonTypes
  imports Decimal Binary64
begin

text \<open>
  \<open>common/types.h\<close>, \<open>common/performance_trace.h\<close> and the messages of \<open>exchange/\<close>: the enums as
  datatypes, the structs as records with the in-class initialisers as \<open>*_init\<close> values, the
  invalid markers as the maxima of their types, and the text the \<open>toString\<close> members build.
\<close>

section \<open>\<open>common/types.h\<close>\<close>

type_synonym order_id = "64 word"
type_synonym ticker_id = "32 word"
type_synonym client_id = "32 word"
type_synonym price = "64 word"
type_synonym qty = "32 word"

definition ME_MAX_TICKERS :: nat where "ME_MAX_TICKERS = 8"
definition DEPTH_SNAPSHOT_LEVELS :: nat where "DEPTH_SNAPSHOT_LEVELS = 5"

definition OrderId_INVALID :: order_id where "OrderId_INVALID = - 1"
definition TickerId_INVALID :: ticker_id where "TickerId_INVALID = - 1"
definition ClientId_INVALID :: client_id where "ClientId_INVALID = - 1"
definition Price_INVALID :: price where "Price_INVALID = 0x7FFFFFFFFFFFFFFF"
definition Qty_INVALID :: qty where "Qty_INVALID = - 1"
definition Priority_INVALID :: "64 word" where "Priority_INVALID = - 1"

datatype side = Side_INVALID | BUY | SELL | Side_MAX

datatype order_type = OrderType_INVALID | LIMIT | MARKET

datatype order_offset = Offset_INVALID | OPEN | CLOSE | CLOSE_TODAY | CLOSE_YESTERDAY

datatype position_day = TODAY | YESTERDAY | Day_MAX

text \<open>The underlying values of \<open>enum class Side : std::int8_t\<close>.\<close>

primrec sideToValue :: "side \<Rightarrow> int" where
  "sideToValue Side_INVALID = 0"
| "sideToValue BUY = 1"
| "sideToValue SELL = - 1"
| "sideToValue Side_MAX = 2"

text \<open>\<open>static_cast<std::size_t>(side) + 1\<close>: the cast of -1 and the addition wrap.\<close>

definition sideToIndex :: "side \<Rightarrow> nat" where
  "sideToIndex s = unat (of_int (sideToValue s) + 1 :: 64 word)"

primrec sideToString :: "side \<Rightarrow> string" where
  "sideToString BUY = ''BUY''"
| "sideToString SELL = ''SELL''"
| "sideToString Side_INVALID = ''INVALID''"
| "sideToString Side_MAX = ''MAX''"

primrec orderTypeToString :: "order_type \<Rightarrow> string" where
  "orderTypeToString LIMIT = ''LIMIT''"
| "orderTypeToString MARKET = ''MARKET''"
| "orderTypeToString OrderType_INVALID = ''INVALID''"

primrec orderOffsetToString :: "order_offset \<Rightarrow> string" where
  "orderOffsetToString OPEN = ''OPEN''"
| "orderOffsetToString CLOSE = ''CLOSE''"
| "orderOffsetToString CLOSE_TODAY = ''CLOSE_TODAY''"
| "orderOffsetToString CLOSE_YESTERDAY = ''CLOSE_YESTERDAY''"
| "orderOffsetToString Offset_INVALID = ''INVALID''"

primrec positionDayToString :: "position_day \<Rightarrow> string" where
  "positionDayToString TODAY = ''TODAY''"
| "positionDayToString YESTERDAY = ''YESTERDAY''"
| "positionDayToString Day_MAX = ''MAX''"

lemma sideToIndex_simps [simp]:
  "sideToIndex SELL = 0" "sideToIndex Side_INVALID = 1" "sideToIndex BUY = 2" "sideToIndex Side_MAX = 3"
  by (simp_all add: sideToIndex_def)

lemma sideToIndex_less: "sideToIndex s < 4"
  by (cases s) simp_all

lemma sideToIndex_inj: "sideToIndex s = sideToIndex s' \<longleftrightarrow> s = s'"
  by (cases s; cases s') simp_all

section \<open>\<open>common/performance_trace.h\<close>\<close>

record performance_trace =
  pt_t :: "nat \<Rightarrow> 64 word"
  pt_source_id :: "64 word"
  pt_evaluation_id :: "64 word"

definition trace_init :: performance_trace where
  "trace_init = \<lparr>pt_t = (\<lambda>_. 0), pt_source_id = 0, pt_evaluation_id = 0\<rparr>"

section \<open>\<open>exchange/market_data/market_update.h\<close>\<close>

datatype market_update_type =
    Update_INVALID | CLEAR | ADD | MODIFY | CANCEL | TRADE | SNAPSHOT_START | SNAPSHOT_END
  | DEPTH_SNAPSHOT

primrec marketUpdateTypeToString :: "market_update_type \<Rightarrow> string" where
  "marketUpdateTypeToString Update_INVALID = ''INVALID''"
| "marketUpdateTypeToString CLEAR = ''CLEAR''"
| "marketUpdateTypeToString ADD = ''ADD''"
| "marketUpdateTypeToString MODIFY = ''MODIFY''"
| "marketUpdateTypeToString CANCEL = ''CANCEL''"
| "marketUpdateTypeToString TRADE = ''TRADE''"
| "marketUpdateTypeToString SNAPSHOT_START = ''SNAPSHOT_START''"
| "marketUpdateTypeToString SNAPSHOT_END = ''SNAPSHOT_END''"
| "marketUpdateTypeToString DEPTH_SNAPSHOT = ''DEPTH_SNAPSHOT''"

record depth_level =
  dl_price :: price
  dl_qty :: qty

definition depth_level_init :: depth_level where
  "depth_level_init = \<lparr>dl_price = Price_INVALID, dl_qty = Qty_INVALID\<rparr>"

text \<open>The two \<open>std::array<PriceLevel, 5>\<close> are lists; \<open>depth_wf\<close> is their fixed length.\<close>

record depth_snapshot =
  ds_last_price :: price
  ds_bids :: "depth_level list"
  ds_asks :: "depth_level list"
  ds_volume :: qty
  ds_open_interest :: f64
  ds_upper_limit_price :: price
  ds_lower_limit_price :: price

definition depth_snapshot_init :: depth_snapshot where
  "depth_snapshot_init =
     \<lparr>ds_last_price = Price_INVALID,
      ds_bids = replicate DEPTH_SNAPSHOT_LEVELS depth_level_init,
      ds_asks = replicate DEPTH_SNAPSHOT_LEVELS depth_level_init,
      ds_volume = Qty_INVALID, ds_open_interest = 0,
      ds_upper_limit_price = Price_INVALID, ds_lower_limit_price = Price_INVALID\<rparr>"

definition depth_wf :: "depth_snapshot \<Rightarrow> bool" where
  "depth_wf d \<longleftrightarrow> length (ds_bids d) = DEPTH_SNAPSHOT_LEVELS \<and> length (ds_asks d) = DEPTH_SNAPSHOT_LEVELS"

record market_update =
  mu_type :: market_update_type
  mu_trace :: performance_trace
  mu_order_id :: order_id
  mu_ticker_id :: ticker_id
  mu_side :: side
  mu_price :: price
  mu_qty :: qty
  mu_priority :: "64 word"
  mu_depth :: depth_snapshot

definition market_update_init :: market_update where
  "market_update_init =
     \<lparr>mu_type = Update_INVALID, mu_trace = trace_init, mu_order_id = OrderId_INVALID,
      mu_ticker_id = TickerId_INVALID, mu_side = Side_INVALID, mu_price = Price_INVALID,
      mu_qty = Qty_INVALID, mu_priority = Priority_INVALID, mu_depth = depth_snapshot_init\<rparr>"

definition market_update_toString :: "market_update \<Rightarrow> string" where
  "market_update_toString u =
     ''MarketUpdate[type:'' @ marketUpdateTypeToString (mu_type u) @
     '' ticker:'' @ show_u (mu_ticker_id u) @ '' order:'' @ show_u (mu_order_id u) @
     '' side:'' @ sideToString (mu_side u) @ '' price:'' @ show_s (mu_price u) @
     '' qty:'' @ show_u (mu_qty u) @ '']''"

section \<open>\<open>exchange/order_server\<close>\<close>

datatype client_request_type = Request_INVALID | Request_NEW | Request_CANCEL

primrec clientRequestTypeToString :: "client_request_type \<Rightarrow> string" where
  "clientRequestTypeToString Request_INVALID = ''INVALID''"
| "clientRequestTypeToString Request_NEW = ''NEW''"
| "clientRequestTypeToString Request_CANCEL = ''CANCEL''"

record client_request =
  rq_type :: client_request_type
  rq_trace :: performance_trace
  rq_client_id :: client_id
  rq_ticker_id :: ticker_id
  rq_order_id :: order_id
  rq_side :: side
  rq_price :: price
  rq_qty :: qty
  rq_order_type :: order_type
  rq_offset :: order_offset

definition client_request_init :: client_request where
  "client_request_init =
     \<lparr>rq_type = Request_INVALID, rq_trace = trace_init, rq_client_id = ClientId_INVALID,
      rq_ticker_id = TickerId_INVALID, rq_order_id = OrderId_INVALID, rq_side = Side_INVALID,
      rq_price = Price_INVALID, rq_qty = Qty_INVALID, rq_order_type = OrderType_INVALID,
      rq_offset = Offset_INVALID\<rparr>"

definition client_request_toString :: "client_request \<Rightarrow> string" where
  "client_request_toString r =
     ''ClientRequest[type:'' @ clientRequestTypeToString (rq_type r) @
     '' client:'' @ show_u (rq_client_id r) @ '' ticker:'' @ show_u (rq_ticker_id r) @
     '' order:'' @ show_u (rq_order_id r) @ '' side:'' @ sideToString (rq_side r) @
     '' price:'' @ show_s (rq_price r) @ '' qty:'' @ show_u (rq_qty r) @
     '' order-type:'' @ orderTypeToString (rq_order_type r) @
     '' offset:'' @ orderOffsetToString (rq_offset r) @ '']''"

datatype client_response_type =
    Response_INVALID | ACCEPTED | CANCELED | FILLED | CANCEL_REJECTED | REJECTED

primrec clientResponseTypeToString :: "client_response_type \<Rightarrow> string" where
  "clientResponseTypeToString Response_INVALID = ''INVALID''"
| "clientResponseTypeToString ACCEPTED = ''ACCEPTED''"
| "clientResponseTypeToString CANCELED = ''CANCELED''"
| "clientResponseTypeToString FILLED = ''FILLED''"
| "clientResponseTypeToString CANCEL_REJECTED = ''CANCEL_REJECTED''"
| "clientResponseTypeToString REJECTED = ''REJECTED''"

record client_response =
  rs_type :: client_response_type
  rs_client_id :: client_id
  rs_ticker_id :: ticker_id
  rs_client_order_id :: order_id
  rs_venue_order_id :: order_id
  rs_side :: side
  rs_price :: price
  rs_exec_qty :: qty
  rs_leaves_qty :: qty
  rs_order_type :: order_type
  rs_offset :: order_offset

definition client_response_init :: client_response where
  "client_response_init =
     \<lparr>rs_type = Response_INVALID, rs_client_id = ClientId_INVALID, rs_ticker_id = TickerId_INVALID,
      rs_client_order_id = OrderId_INVALID, rs_venue_order_id = OrderId_INVALID,
      rs_side = Side_INVALID, rs_price = Price_INVALID, rs_exec_qty = Qty_INVALID,
      rs_leaves_qty = Qty_INVALID, rs_order_type = OrderType_INVALID, rs_offset = Offset_INVALID\<rparr>"

definition client_response_toString :: "client_response \<Rightarrow> string" where
  "client_response_toString r =
     ''ClientResponse[type:'' @ clientResponseTypeToString (rs_type r) @
     '' client:'' @ show_u (rs_client_id r) @ '' ticker:'' @ show_u (rs_ticker_id r) @
     '' client-order:'' @ show_u (rs_client_order_id r) @
     '' venue-order:'' @ show_u (rs_venue_order_id r) @
     '' side:'' @ sideToString (rs_side r) @ '' price:'' @ show_s (rs_price r) @
     '' exec-qty:'' @ show_u (rs_exec_qty r) @ '' leaves-qty:'' @ show_u (rs_leaves_qty r) @ '']''"

text \<open>The sequence-numbered envelopes of the venue protocols.\<close>

record 'a sequenced =
  sq_seq_num :: "64 word"
  sq_payload :: 'a

end
