(* ===== verification/LevelList.thy ===== *)
theory LevelList
  imports MemPool CommonTypes
begin

text \<open>
  The price level nodes of \<open>MarketOrderBook\<close> and their sorted circular doubly linked list
  (\<open>trading/strategy/market_order_book.h\<close>): the pointer updates of
  \<open>insertLevelIntoSortedList\<close> and \<open>removeLevelFromSortedList\<close>, write by write, over the pool
  that holds the nodes. A pointer is a block index, null is \<open>None\<close>. The theory proves that on a
  well-formed ring they insert and remove one node and keep the ring sorted.
\<close>

section \<open>Model\<close>

record price_level =
  pl_price :: price
  pl_qty :: qty
  pl_side :: side
  pl_prev :: "nat option"
  pl_next :: "nat option"

type_synonym level_pool = "price_level mem_pool"

abbreviation set_prev :: "nat \<Rightarrow> nat option \<Rightarrow> level_pool \<Rightarrow> level_pool" where
  "set_prev i v p \<equiv> pool_put i (pool_get p i\<lparr>pl_prev := v\<rparr>) p"

abbreviation set_next :: "nat \<Rightarrow> nat option \<Rightarrow> level_pool \<Rightarrow> level_pool" where
  "set_next i v p \<equiv> pool_put i (pool_get p i\<lparr>pl_next := v\<rparr>) p"

text \<open>Higher is better for bids, lower for asks; prices are signed.\<close>

definition isBetterLevelPrice :: "side \<Rightarrow> price \<Rightarrow> price \<Rightarrow> bool" where
  "isBetterLevelPrice sd l r = (if sd = BUY then sint l > sint r else sint l < sint r)"

text \<open>
  The walk from the best level: \<open>Some (Some t)\<close> where it stops at \<open>t\<close>, \<open>Some None\<close> where it would
  follow a null pointer, \<open>None\<close> where it never stops.
\<close>

partial_function (option) walk_levels ::
  "side \<Rightarrow> (nat \<Rightarrow> price_level) \<Rightarrow> nat \<Rightarrow> price \<Rightarrow> nat \<Rightarrow> nat option option" where
  "walk_levels sd get head price target =
     (if isBetterLevelPrice sd (pl_price (get target)) price then
        (case pl_next (get target) of
           None \<Rightarrow> Some None
         | Some t \<Rightarrow> if t = head then Some (Some t) else walk_levels sd get head price t)
      else Some (Some target))"

text \<open>The result is the new pool and the new head pointer.\<close>

definition insertLevelIntoSortedList ::
  "side \<Rightarrow> nat \<Rightarrow> nat option \<Rightarrow> level_pool \<Rightarrow> (level_pool, nat option) outcome" where
  "insertLevelIntoSortedList sd level head p =
     (case head of
        None \<Rightarrow> Ok (set_next level (Some level) (set_prev level (Some level) p)) (Some level)
      | Some h \<Rightarrow>
          await (walk_levels sd (pool_get p) h (pl_price (pool_get p level)) h) (\<lambda>t. deref t (\<lambda>target.
          let p1 = set_prev level (pl_prev (pool_get p target)) p;
              p2 = set_next level (Some target) p1
          in deref (pl_prev (pool_get p2 target)) (\<lambda>tp.
          let p3 = set_next tp (Some level) p2;
              p4 = set_prev target (Some level) p3
          in Ok p4 (if isBetterLevelPrice sd (pl_price (pool_get p4 level)) (pl_price (pool_get p4 h))
                    then Some level else Some h)))))"

definition removeLevelFromSortedList ::
  "nat \<Rightarrow> nat option \<Rightarrow> level_pool \<Rightarrow> (level_pool, nat option) outcome" where
  "removeLevelFromSortedList level head p =
     then_do
       (if pl_next (pool_get p level) = Some level then Ok p None
        else deref (pl_prev (pool_get p level)) (\<lambda>pv.
          let p1 = set_next pv (pl_next (pool_get p level)) p
          in deref (pl_next (pool_get p1 level)) (\<lambda>nx.
          let p2 = set_prev nx (pl_prev (pool_get p1 level)) p1
          in Ok p2 (if head = Some level then pl_next (pool_get p2 level) else head))))
       (\<lambda>p' head'. Ok (set_prev level None (set_next level None p')) head')"

section \<open>Rings\<close>

text \<open>Consecutive elements point at each other.\<close>

fun links :: "(nat \<Rightarrow> price_level) \<Rightarrow> nat list \<Rightarrow> bool" where
  "links get (a # b # xs) \<longleftrightarrow> pl_next (get a) = Some b \<and> pl_prev (get b) = Some a \<and> links get (b # xs)"
| "links get _ \<longleftrightarrow> True"

definition ring :: "(nat \<Rightarrow> price_level) \<Rightarrow> nat list \<Rightarrow> bool" where
  "ring get xs \<longleftrightarrow> distinct xs \<and> (xs \<noteq> [] \<longrightarrow> links get (xs @ [hd xs]))"

definition head_of :: "nat list \<Rightarrow> nat option" where
  "head_of xs = (case xs of [] \<Rightarrow> None | x # _ \<Rightarrow> Some x)"

definition better_first :: "side \<Rightarrow> (nat \<Rightarrow> price_level) \<Rightarrow> nat list \<Rightarrow> bool" where
  "better_first sd get = sorted_wrt (\<lambda>a b. isBetterLevelPrice sd (pl_price (get a)) (pl_price (get b)))"

lemma head_of_simps [simp]: "head_of [] = None" "head_of (x # xs) = Some x"
  by (simp_all add: head_of_def)

lemma links_append:
  "links get (xs @ a # ys) \<longleftrightarrow> links get (xs @ [a]) \<and> links get (a # ys)"
proof (induction xs)
  case (Cons x xs)
  then show ?case by (cases xs) auto
qed simp

lemma links_cong:
  assumes "\<And>a. a \<in> set (butlast xs) \<Longrightarrow> pl_next (get a) = pl_next (get' a)"
    and "\<And>b. b \<in> set (tl xs) \<Longrightarrow> pl_prev (get b) = pl_prev (get' b)"
  shows "links get xs = links get' xs"
  using assms
proof (induction get xs rule: links.induct)
  case (1 get a b xs)
  from "1.prems" have "pl_next (get a) = pl_next (get' a)" "pl_prev (get b) = pl_prev (get' b)"
    by (auto split: if_splits)
  moreover have "links get (b # xs) = links get' (b # xs)"
    using "1.prems" by (intro "1.IH") (auto split: if_splits)
  ultimately show ?case by simp
qed auto

lemma ring_rotate: "ring get (x # xs) \<longleftrightarrow> ring get (xs @ [x])"
proof (cases xs)
  case (Cons y ys)
  have "links get (x # y # ys @ [x]) \<longleftrightarrow> links get (y # ys @ [x] @ [y])"
    using links_append[of get "y # ys" x "[y]"] by auto
  then show ?thesis by (auto simp: ring_def Cons)
qed simp

lemma ring_split_rotate: "ring get (xs @ ys) \<longleftrightarrow> ring get (ys @ xs)"
proof (induction xs arbitrary: ys)
  case (Cons x xs)
  from ring_rotate[of get x "xs @ ys"] Cons[of "ys @ [x]"] show ?case by simp
qed simp

text \<open>Inserting \<open>l\<close> before the first element of a ring, and so before any element.\<close>

lemma ring_insert_front:
  assumes r: "ring get (t # xs)" and l: "l \<notin> set (t # xs)"
    and prev: "pl_prev (get t) = Some tp"
    and get': "\<And>a. a \<noteq> l \<Longrightarrow> pl_next (get' a) = (if a = tp then Some l else pl_next (get a))"
      "\<And>a. a \<noteq> l \<Longrightarrow> pl_prev (get' a) = (if a = t then Some l else pl_prev (get a))"
      "pl_next (get' l) = Some t" "pl_prev (get' l) = Some tp"
  shows "ring get' (l # t # xs)"
proof -
  obtain ys z where e: "t # xs = ys @ [z]"
    by (metis append_butlast_last_id list.distinct(1))
  have d: "distinct (t # xs)" and "links get ((ys @ [z]) @ [t])"
    using r unfolding e[symmetric] by (simp_all add: ring_def)
  then have lk: "links get (t # xs)" "pl_prev (get t) = Some z"
    using links_append[of get ys z "[t]"] by (simp_all add: e)
  with prev have tp: "tp = z" by simp
  have z: "z \<noteq> l" "z \<notin> set ys"
    using l d unfolding e by auto
  have "links get (t # xs) = links get' (t # xs)"
  proof (rule links_cong)
    fix a assume "a \<in> set (butlast (t # xs))"
    then have "a \<in> set ys" by (simp add: e)
    moreover have "a \<noteq> l" using \<open>a \<in> set ys\<close> l unfolding e by auto
    ultimately show "pl_next (get a) = pl_next (get' a)"
      using get'(1)[of a] z tp by auto
  next
    fix b assume "b \<in> set (tl (t # xs))"
    with l d have "b \<noteq> l" "b \<noteq> t" by auto
    then show "pl_prev (get b) = pl_prev (get' b)"
      using get'(2)[of b] by auto
  qed
  with lk have "links get' (ys @ [z])" by (simp add: e)
  moreover have "pl_next (get' z) = Some l" "pl_prev (get' l) = Some z"
    using get' tp z by auto
  ultimately have "links get' ((t # xs) @ [l])"
    using links_append[of get' ys z "[l]"] by (simp add: e)
  moreover have "pl_next (get' l) = Some t" "pl_prev (get' t) = Some l"
    using get' l by auto
  ultimately show ?thesis
    using d l by (simp add: ring_def)
qed

text \<open>Unlinking the first element of a ring of at least two.\<close>

lemma ring_remove_front:
  assumes r: "ring get (l # t # xs)"
    and prev: "pl_prev (get l) = Some pv"
    and get': "\<And>a. a \<noteq> l \<Longrightarrow> pl_next (get' a) = (if a = pv then Some t else pl_next (get a))"
      "\<And>a. a \<noteq> l \<Longrightarrow> pl_prev (get' a) = (if a = t then Some pv else pl_prev (get a))"
  shows "ring get' (t # xs)" "pl_next (get l) = Some t"
proof -
  obtain ys z where e: "t # xs = ys @ [z]"
    by (metis append_butlast_last_id list.distinct(1))
  have d: "distinct (l # t # xs)" and n: "pl_next (get l) = Some t" and "links get ((ys @ [z]) @ [l])"
    using r unfolding e[symmetric] by (simp_all add: ring_def)
  then have lk: "links get (t # xs)" "pl_prev (get l) = Some z"
    using links_append[of get ys z "[l]"] by (simp_all add: e)
  with prev have pv: "pv = z" by simp
  have z: "z \<noteq> l" "z \<notin> set ys" "l \<notin> set ys"
    using d unfolding e by auto
  have "links get (t # xs) = links get' (t # xs)"
  proof (rule links_cong)
    fix a assume "a \<in> set (butlast (t # xs))"
    then have "a \<in> set ys" by (simp add: e)
    with z have "a \<noteq> l" "a \<noteq> z" by auto
    then show "pl_next (get a) = pl_next (get' a)"
      using get'(1)[of a] pv by auto
  next
    fix b assume "b \<in> set (tl (t # xs))"
    with d have "b \<noteq> l" "b \<noteq> t" by auto
    then show "pl_prev (get b) = pl_prev (get' b)"
      using get'(2)[of b] by auto
  qed
  with lk have "links get' (ys @ [z])" by (simp add: e)
  moreover have "pl_next (get' z) = Some t" "pl_prev (get' t) = Some z"
    using get' pv z d by auto
  ultimately have "links get' ((t # xs) @ [t])"
    using links_append[of get' ys z "[t]"] by (simp add: e)
  then show "ring get' (t # xs)"
    using d by (simp add: ring_def)
  show "pl_next (get l) = Some t" by (rule n)
qed

lemma ring_single: "ring get [l] \<longleftrightarrow> pl_next (get l) = Some l \<and> pl_prev (get l) = Some l"
  by (auto simp: ring_def)

text \<open>In a ring every element has both neighbours, and they are elements.\<close>

lemma ring_neighbours:
  assumes "ring get xs" "i \<in> set xs"
  obtains p n where "pl_prev (get i) = Some p" "pl_next (get i) = Some n" "p \<in> set xs" "n \<in> set xs"
proof -
  obtain as bs where xs: "xs = as @ i # bs" using assms(2) by (meson split_list)
  with assms(1) have r: "ring get (i # bs @ as)"
    using ring_split_rotate[of get as "i # bs"] by simp
  obtain ys z where e: "i # bs @ as = ys @ [z]"
    by (metis append_butlast_last_id list.distinct(1))
  have "links get ((ys @ [z]) @ [i])"
    using r unfolding e[symmetric] by (simp add: ring_def)
  then have "pl_prev (get i) = Some z"
    using links_append[of get ys z "[i]"] by simp
  moreover have "pl_next (get i) = Some (hd (bs @ as @ [i]))"
  proof (cases "bs @ as")
    case (Cons c cs)
    then have "hd (bs @ as @ [i]) = c" by (metis append_assoc append_Cons list.sel(1))
    with r Cons show ?thesis by (simp add: ring_def)
  qed (use r in \<open>simp add: ring_def\<close>)
  moreover have "z \<in> set xs" using arg_cong[OF e, of set] xs by auto
  moreover have "hd (bs @ as @ [i]) \<in> set xs" using xs by (cases bs; cases as) auto
  ultimately show thesis by (rule that)
qed

section \<open>Insertion and removal\<close>

lemma better_trans: "isBetterLevelPrice sd a b \<Longrightarrow> isBetterLevelPrice sd b c \<Longrightarrow> isBetterLevelPrice sd a c"
  by (auto simp: isBetterLevelPrice_def split: if_splits)

lemma better_total: "a \<noteq> b \<Longrightarrow> \<not> isBetterLevelPrice sd a b \<longleftrightarrow> isBetterLevelPrice sd b a"
  by (auto simp: isBetterLevelPrice_def word_eq_iff_signed[where ?'a = int])

lemma better_irrefl [simp]: "\<not> isBetterLevelPrice sd a a"
  by (simp add: isBetterLevelPrice_def)

lemma walk_levels_result:
  assumes "links get (ts @ [h])" "h \<notin> set (tl ts)" "ts \<noteq> []"
  shows "walk_levels sd get h price (hd ts) =
    Some (Some (hd (dropWhile (\<lambda>i. isBetterLevelPrice sd (pl_price (get i)) price) ts @ [h])))"
  using assms
proof (induction ts)
  case (Cons t ts)
  show ?case
  proof (cases ts)
    case Nil
    with Cons.prems show ?thesis by (subst walk_levels.simps) simp
  next
    case (Cons u us)
    with Cons.prems have "pl_next (get t) = Some u" "u \<noteq> h" by auto
    with Cons.IH Cons.prems Cons show ?thesis
      by (subst walk_levels.simps) auto
  qed
qed simp

text \<open>What the pool keeps when only links change.\<close>

definition same_levels :: "level_pool \<Rightarrow> level_pool \<Rightarrow> bool" where
  "same_levels p p' \<longleftrightarrow> (\<forall>i. pl_price (pool_get p' i) = pl_price (pool_get p i) \<and>
       pl_qty (pool_get p' i) = pl_qty (pool_get p i) \<and> pl_side (pool_get p' i) = pl_side (pool_get p i)) \<and>
     pool_live p' = pool_live p \<and> pool_inv p' = pool_inv p \<and> mp_size p' = mp_size p"

lemma same_levels_better: "same_levels p p' \<Longrightarrow> better_first sd (pool_get p') xs = better_first sd (pool_get p) xs"
  by (simp add: same_levels_def better_first_def)

lemma insertLevelIntoSortedList_correct:
  assumes r: "ring (pool_get p) xs" and so: "better_first sd (pool_get p) xs"
    and l: "level \<notin> set xs" "\<And>i. i \<in> set xs \<Longrightarrow> pl_price (pool_get p i) \<noteq> pl_price (pool_get p level)"
  shows "\<exists>p' as bs. xs = as @ bs \<and>
    insertLevelIntoSortedList sd level (head_of xs) p = Ok p' (head_of (as @ level # bs)) \<and>
    ring (pool_get p') (as @ level # bs) \<and> better_first sd (pool_get p') (as @ level # bs) \<and>
    same_levels p p'"
proof (cases xs)
  case Nil
  then show ?thesis
    by (intro exI[of _ "set_next level (Some level) (set_prev level (Some level) p)"])
       (auto simp: insertLevelIntoSortedList_def ring_single better_first_def same_levels_def)
next
  case (Cons h xt)
  let ?get = "pool_get p" and ?better = "\<lambda>i. isBetterLevelPrice sd (pl_price (pool_get p i)) (pl_price (pool_get p level))"
  define as bs where ab: "as = takeWhile ?better xs" "bs = dropWhile ?better xs"
  have xs: "xs = as @ bs" by (simp add: ab)
  define target where "target = hd (bs @ [h])"
  have walk: "walk_levels sd ?get h (pl_price (?get level)) h = Some (Some target)"
    using walk_levels_result[of ?get xs h sd "pl_price (?get level)"] r Cons
    by (auto simp: ring_def target_def ab)
  have t: "target \<in> set xs" "target \<noteq> level"
  proof -
    show "target \<in> set xs"
    proof (cases bs)
      case (Cons b bt)
      then have "target = b" "b \<in> set (as @ bs)" by (simp_all add: target_def)
      then show ?thesis by (simp only: xs)
    qed (simp add: target_def \<open>xs = h # xt\<close>)
    with l(1) show "target \<noteq> level" by auto
  qed
  obtain tp where tp: "pl_prev (?get target) = Some tp" "tp \<in> set xs"
    using ring_neighbours[OF r t(1)] by metis
  with l(1) have tpl: "tp \<noteq> level" by auto
  define p4 where "p4 = (let p1 = set_prev level (pl_prev (pool_get p target)) p;
      p2 = set_next level (Some target) p1; p3 = set_next tp (Some level) p2
      in set_prev target (Some level) p3)"
  have same: "same_levels p p4"
    using t tpl by (simp add: same_levels_def p4_def Let_def)
  have get4: "pl_next (pool_get p4 a) = (if a = tp then Some level else pl_next (?get a))"
    "pl_prev (pool_get p4 a) = (if a = target then Some level else pl_prev (?get a))" if "a \<noteq> level" for a
    using that t tpl by (simp_all add: p4_def Let_def)
  have get4l: "pl_next (pool_get p4 level) = Some target" "pl_prev (pool_get p4 level) = Some tp"
    using t tpl tp by (simp_all add: p4_def Let_def)
  have pr: "pl_price (pool_get p4 i) = pl_price (?get i)" for i
    using same by (simp add: same_levels_def)
  have ring: "ring (pool_get p4) (as @ level # bs)"
  proof -
    obtain rest where rot: "target # rest = (if bs = [] then as else bs @ as)"
      using Cons xs by (cases bs) (auto simp: target_def)
    have "ring ?get (target # rest)"
      using r xs ring_split_rotate[of ?get as bs] by (auto simp: rot)
    moreover have "level \<notin> set (target # rest)"
      using l(1) xs by (auto simp: rot)
    ultimately have "ring (pool_get p4) (level # target # rest)"
      using tp(1) get4 get4l by (intro ring_insert_front[where tp = tp]) auto
    then have "ring (pool_get p4) (level # (bs @ as))"
      using rot by (auto split: if_splits)
    then show ?thesis
      using ring_split_rotate[of "pool_get p4" as "level # bs"] by simp
  qed
  have sorted: "better_first sd (pool_get p4) (as @ level # bs)"
  proof -
    have 1: "?better i" if "i \<in> set as" for i
      using that set_takeWhileD unfolding ab by fastforce
    have 2: "isBetterLevelPrice sd (pl_price (?get level)) (pl_price (?get i))" if i: "i \<in> set bs" for i
    proof -
      obtain b bt where b: "bs = b # bt" using i by (cases bs) auto
      then have "\<not> ?better b"
        using hd_dropWhile[of ?better xs] by (auto simp: ab)
      then have b1: "isBetterLevelPrice sd (pl_price (?get level)) (pl_price (?get b))"
        using l(2)[of b] xs b by (simp add: better_total)
      show ?thesis
      proof (cases "i = b")
        case False
        with i b so xs have "isBetterLevelPrice sd (pl_price (?get b)) (pl_price (?get i))"
          by (auto simp: better_first_def sorted_wrt_append)
        with b1 show ?thesis by (rule better_trans)
      qed (use b1 in simp)
    qed
    from so have "better_first sd ?get (as @ bs)" by (simp add: xs)
    with 1 2 show ?thesis
      by (auto simp: better_first_def sorted_wrt_append pr)
  qed
  have hd: "(if isBetterLevelPrice sd (pl_price (pool_get p4 level)) (pl_price (pool_get p4 h)) then Some level else Some h)
      = head_of (as @ level # bs)"
  proof (cases "?better h")
    case True
    then have "as \<noteq> []" "hd as = h" by (simp_all add: ab Cons)
    moreover have "\<not> isBetterLevelPrice sd (pl_price (?get level)) (pl_price (?get h))"
      using True better_trans better_irrefl by blast
    ultimately show ?thesis by (cases as) (simp_all add: pr)
  next
    case False
    then have "as = []" by (simp add: ab Cons)
    moreover have "isBetterLevelPrice sd (pl_price (?get level)) (pl_price (?get h))"
      using False l(2)[of h] Cons by (simp add: better_total)
    ultimately show ?thesis by (simp add: pr)
  qed
  have "insertLevelIntoSortedList sd level (head_of xs) p = Ok p4 (head_of (as @ level # bs))"
    unfolding hd[symmetric] using walk tp t tpl
    by (simp add: Cons insertLevelIntoSortedList_def p4_def Let_def)
  with ring sorted same xs show ?thesis by blast
qed

lemma removeLevelFromSortedList_correct:
  assumes r: "ring (pool_get p) (as @ level # bs)" and so: "better_first sd (pool_get p) (as @ level # bs)"
  shows "\<exists>p'. removeLevelFromSortedList level (head_of (as @ level # bs)) p = Ok p' (head_of (as @ bs)) \<and>
    ring (pool_get p') (as @ bs) \<and> better_first sd (pool_get p') (as @ bs) \<and> same_levels p p'"
proof -
  let ?get = "pool_get p"
  have rot: "ring ?get (level # bs @ as)"
    using r ring_split_rotate[of ?get as "level # bs"] by simp
  have d: "level \<notin> set (bs @ as)" using rot by (simp add: ring_def)
  have sorted: "better_first sd ?get (as @ bs)"
    using so by (auto simp: better_first_def sorted_wrt_append)
  show ?thesis
  proof (cases "bs @ as")
    case Nil
    with rot have "pl_next (?get level) = Some level" by (simp add: ring_single)
    with Nil show ?thesis
      by (auto simp: removeLevelFromSortedList_def same_levels_def ring_def better_first_def)
  next
    case (Cons t rest)
    obtain pv where pv: "pl_prev (?get level) = Some pv" "pv \<in> set (as @ level # bs)"
      using ring_neighbours[OF r, of level] by auto
    have rot': "ring ?get (level # t # rest)" using rot Cons by simp
    have nx: "pl_next (?get level) = Some t"
      using rot' by (simp add: ring_def)
    have tl: "t \<noteq> level" using d Cons by auto
    have pvl: "pv \<noteq> level"
    proof
      assume "pv = level"
      obtain ys z where e: "t # rest = ys @ [z]"
        by (metis append_butlast_last_id list.distinct(1))
      have "links ?get ((level # ys) @ z # [level])" using rot' e by (simp add: ring_def)
      then have "pl_prev (?get level) = Some z" using links_append[of ?get "level # ys" z "[level]"] by simp
      moreover have "z \<in> set (t # rest)" by (simp add: e)
      ultimately show False using pv \<open>pv = level\<close> d Cons by auto
    qed
    define p2 where "p2 = set_prev t (Some pv) (set_next pv (Some t) p)"
    define p4 where "p4 = set_prev level None (set_next level None p2)"
    have same: "same_levels p p4"
      by (simp add: same_levels_def p4_def p2_def)
    have get4: "pl_next (pool_get p4 a) = (if a = pv then Some t else pl_next (?get a))"
      "pl_prev (pool_get p4 a) = (if a = t then Some pv else pl_prev (?get a))" if "a \<noteq> level" for a
      using that by (simp_all add: p4_def p2_def)
    have "ring (pool_get p4) (t # rest)"
      using ring_remove_front(1)[OF rot' pv(1)] get4 by blast
    then have "ring (pool_get p4) (as @ bs)"
      using ring_split_rotate[of "pool_get p4" as bs] Cons by simp
    moreover have "head_of (as @ bs) =
        (if head_of (as @ level # bs) = Some level then Some t else head_of (as @ level # bs))"
      using d Cons by (cases as) auto
    then have "removeLevelFromSortedList level (head_of (as @ level # bs)) p = Ok p4 (head_of (as @ bs))"
      using nx pv tl pvl by (simp add: removeLevelFromSortedList_def p4_def p2_def Let_def)
    ultimately show ?thesis
      using same sorted same_levels_better[OF same] by blast
  qed
qed

end
