(* ===== verification/BookSide.thy ===== *)
theory BookSide
  imports SlotArray LevelList
begin

text \<open>
  One side of the incremental \<open>MarketOrderBook\<close>: its level slots, level pool and head pointer, and
  the functions that keep the three in step (\<open>requireLevelCapacity\<close>, \<open>createLevel\<close>,
  \<open>addToLevel\<close>, \<open>removeFromLevel\<close>, \<open>clearSideLevels\<close>). The code selects the side's members with
  \<open>levelSlots(side)\<close>, \<open>levelPool(side)\<close> and \<open>levelHead(side)\<close>; here they are one record. The
  theory proves that the side is a map from prices to quantities kept as a list sorted best first.
\<close>

section \<open>Model\<close>

definition kMaxBookOrderSlots :: nat where "kMaxBookOrderSlots = 64 * 1024"
definition kMaxBookLevelSlotsPerSide :: nat where "kMaxBookLevelSlotsPerSide = 4 * 1024"
definition kMaxLiveOrderEntries :: nat where "kMaxLiveOrderEntries = kMaxBookOrderSlots * 3 div 4"
definition kMaxLiveLevelEntriesPerSide :: nat where
  "kMaxLiveLevelEntriesPerSide = kMaxBookLevelSlotsPerSide * 3 div 4"

record book_side =
  bs_slots :: slot_array
  bs_pool :: level_pool
  bs_head :: "nat option"

definition level_init :: price_level where
  "level_init = \<lparr>pl_price = Price_INVALID, pl_qty = 0, pl_side = Side_INVALID, pl_prev = None, pl_next = None\<rparr>"

abbreviation level_capacity_error :: exn where
  "level_capacity_error \<equiv> Runtime_error ''MarketOrderBook price level slot capacity exhausted''"

definition requireLevelCapacity :: "price \<Rightarrow> book_side \<Rightarrow> (book_side, unit) outcome" where
  "requireLevelCapacity price s =
     await (slot_find kLevelSlots price (bs_slots s)) (\<lambda>level.
       if level \<noteq> None then Ok s ()
       else if sa_live_count (bs_slots s) \<ge> kMaxLiveLevelEntriesPerSide
       then Throw s level_capacity_error
       else Ok s ())"

definition createLevel :: "side \<Rightarrow> price \<Rightarrow> book_side \<Rightarrow> (book_side, nat) outcome" where
  "createLevel sd price s =
     (if sa_live_count (bs_slots s) \<ge> kMaxLiveLevelEntriesPerSide then Throw s level_capacity_error
      else then_do
        (on_part (\<lambda>p. s\<lparr>bs_pool := p\<rparr>)
          (allocate \<lparr>pl_price = price, pl_qty = 0, pl_side = sd, pl_prev = None, pl_next = None\<rparr>
             (bs_pool s)))
        (\<lambda>s1 level.
          await (slot_insert kLevelSlots price level (bs_slots s1)) (\<lambda>slots.
          let s2 = s1\<lparr>bs_slots := slots\<rparr> in
          then_do
            (on_part (\<lambda>p. s2\<lparr>bs_pool := p\<rparr>)
              (insertLevelIntoSortedList sd level (bs_head s2) (bs_pool s2)))
            (\<lambda>s3 head. Ok (s3\<lparr>bs_head := head\<rparr>) level))))"

definition addToLevel :: "side \<Rightarrow> price \<Rightarrow> qty \<Rightarrow> book_side \<Rightarrow> (book_side, unit) outcome" where
  "addToLevel sd price qty s =
     await (slot_find kLevelSlots price (bs_slots s)) (\<lambda>found.
       then_do (case found of None \<Rightarrow> createLevel sd price s | Some level \<Rightarrow> Ok s level)
         (\<lambda>s1 level. Ok (s1\<lparr>bs_pool := pool_put level
            (pool_get (bs_pool s1) level\<lparr>pl_qty := pl_qty (pool_get (bs_pool s1) level) + qty\<rparr>)
            (bs_pool s1)\<rparr>) ()))"

definition removeFromLevel :: "price \<Rightarrow> qty \<Rightarrow> book_side \<Rightarrow> (book_side, unit) outcome" where
  "removeFromLevel price qty s =
     await (slot_find kLevelSlots price (bs_slots s)) (\<lambda>found.
       case found of
         None \<Rightarrow> Ok s ()
       | Some level \<Rightarrow>
           if pl_qty (pool_get (bs_pool s) level) \<le> qty then
             then_do
               (on_part (\<lambda>p. s\<lparr>bs_pool := p\<rparr>)
                 (removeLevelFromSortedList level (bs_head s) (bs_pool s)))
               (\<lambda>s1 head. let s2 = s1\<lparr>bs_head := head\<rparr> in
                 await (slot_erase kLevelSlots price (bs_slots s2)) (\<lambda>(slots, _).
                 let s3 = s2\<lparr>bs_slots := slots\<rparr> in
                 on_part (\<lambda>p. s3\<lparr>bs_pool := p\<rparr>) (deallocate level (bs_pool s3))))
           else Ok (s\<lparr>bs_pool := pool_put level
             (pool_get (bs_pool s) level\<lparr>pl_qty := pl_qty (pool_get (bs_pool s) level) - qty\<rparr>)
             (bs_pool s)\<rparr>) ())"

text \<open>The clearing loop, from \<open>level\<close> around the ring back to \<open>head\<close>.\<close>

partial_function (option) clear_loop ::
  "nat \<Rightarrow> nat option \<Rightarrow> level_pool \<Rightarrow> (level_pool, unit) outcome option" where
  "clear_loop head level p =
     (if level = Some head then Some (deallocate head p)
      else case level of
        None \<Rightarrow> Some Undef
      | Some l \<Rightarrow>
          (case deallocate l p of
             Ok p' _ \<Rightarrow> clear_loop head (pl_next (pool_get p l)) p'
           | Throw p' e \<Rightarrow> Some (Throw p' e)
           | Abort m \<Rightarrow> Some (Abort m)
           | Hang \<Rightarrow> Some Hang
           | Undef \<Rightarrow> Some Undef))"

definition clearSideLevels :: "book_side \<Rightarrow> (book_side, unit) outcome" where
  "clearSideLevels s =
     then_do
       (case bs_head s of
          None \<Rightarrow> Ok s ()
        | Some head \<Rightarrow>
            await (clear_loop head (pl_next (pool_get (bs_pool s) head)) (bs_pool s))
              (on_part (\<lambda>p. s\<lparr>bs_pool := p\<rparr>)))
       (\<lambda>s1 _. Ok (s1\<lparr>bs_head := None, bs_slots := slot_clear (bs_slots s1)\<rparr>) ())"

section \<open>What a side stands for\<close>

text \<open>The levels in list order, best first, and as a map from prices to quantities.\<close>

definition level_list :: "(nat \<Rightarrow> price_level) \<Rightarrow> nat list \<Rightarrow> (price \<times> qty) list" where
  "level_list get xs = map (\<lambda>i. (pl_price (get i), pl_qty (get i))) xs"

definition side_rel :: "side \<Rightarrow> book_side \<Rightarrow> nat list \<Rightarrow> bool" where
  "side_rel sd s xs \<longleftrightarrow>
     slot_inv 12 (bs_slots s) \<and> pool_inv (bs_pool s) \<and>
     mp_size (bs_pool s) = kMaxBookLevelSlotsPerSide \<and>
     pool_live (bs_pool s) = set xs \<and> ring (pool_get (bs_pool s)) xs \<and>
     bs_head s = head_of xs \<and> better_first sd (pool_get (bs_pool s)) xs \<and>
     slot_map kLevelSlots (bs_slots s) = map_of (map (\<lambda>i. (pl_price (pool_get (bs_pool s) i), i)) xs) \<and>
     length xs \<le> kMaxLiveLevelEntriesPerSide"

definition side_levels :: "book_side \<Rightarrow> nat list \<Rightarrow> price \<rightharpoonup> qty" where
  "side_levels s xs = map_of (level_list (pool_get (bs_pool s)) xs)"

lemma side_rel_side: "(sd = BUY) = (sd' = BUY) \<Longrightarrow> side_rel sd s xs = side_rel sd' s xs"
proof -
  assume "(sd = BUY) = (sd' = BUY)"
  then have "isBetterLevelPrice sd = isBetterLevelPrice sd'"
    by (intro ext) (simp add: isBetterLevelPrice_def)
  then show ?thesis by (simp add: side_rel_def better_first_def)
qed

lemma better_first_distinct:
  assumes "better_first sd get xs"
  shows "distinct (map (\<lambda>i. pl_price (get i)) xs)"
  using assms by (induction xs) (auto simp: better_first_def)

lemma side_rel_prices: "side_rel sd s xs \<Longrightarrow> distinct (map (\<lambda>i. pl_price (pool_get (bs_pool s) i)) xs)"
  by (rule better_first_distinct) (auto simp: side_rel_def)

lemma map_of_price_index:
  "distinct (map f xs) \<Longrightarrow> map_of (map (\<lambda>i. (f i, g i)) xs) k = Some v \<longleftrightarrow> (\<exists>i\<in>set xs. f i = k \<and> g i = v)"
  by (subst map_of_eq_Some_iff) (auto simp: comp_def)

lemma map_of_price_None:
  "map_of (map (\<lambda>i. (f i, g i)) xs) k = None \<longleftrightarrow> k \<notin> f ` set xs"
  by (auto simp: map_of_eq_None_iff image_image)

text \<open>The slots find a level exactly when the map has its price.\<close>

lemma side_find:
  assumes "side_rel sd s xs"
  shows "slot_map kLevelSlots (bs_slots s) price = Some i \<longleftrightarrow> i \<in> set xs \<and> pl_price (pool_get (bs_pool s) i) = price"
    and "slot_map kLevelSlots (bs_slots s) price = None \<longleftrightarrow> side_levels s xs price = None"
    and "i \<in> set xs \<Longrightarrow> side_levels s xs (pl_price (pool_get (bs_pool s) i)) = Some (pl_qty (pool_get (bs_pool s) i))"
proof -
  have m: "slot_map kLevelSlots (bs_slots s) = map_of (map (\<lambda>i. (pl_price (pool_get (bs_pool s) i), i)) xs)"
    using assms by (simp add: side_rel_def)
  note d = side_rel_prices[OF assms]
  show "slot_map kLevelSlots (bs_slots s) price = Some i \<longleftrightarrow> i \<in> set xs \<and> pl_price (pool_get (bs_pool s) i) = price"
    unfolding m map_of_price_index[OF d] by auto
  show "slot_map kLevelSlots (bs_slots s) price = None \<longleftrightarrow> side_levels s xs price = None"
    unfolding m side_levels_def level_list_def map_of_price_None by (rule refl)
  show "i \<in> set xs \<Longrightarrow> side_levels s xs (pl_price (pool_get (bs_pool s) i)) = Some (pl_qty (pool_get (bs_pool s) i))"
    unfolding side_levels_def level_list_def map_of_price_index[OF d] by auto
qed

lemma side_levels_iff:
  "side_rel sd s xs \<Longrightarrow> side_levels s xs k = Some v \<longleftrightarrow>
     (\<exists>i\<in>set xs. pl_price (pool_get (bs_pool s) i) = k \<and> pl_qty (pool_get (bs_pool s) i) = v)"
  unfolding side_levels_def level_list_def by (rule map_of_price_index) (rule side_rel_prices)

lemma map_eqI_Some: "(\<And>k v. m k = Some v \<longleftrightarrow> m' k = Some v) \<Longrightarrow> m = m'"
  by (rule ext) (metis option.exhaust)

lemma side_lookup: "side_rel sd s xs \<Longrightarrow> slot_find kLevelSlots price (bs_slots s) = Some (slot_map kLevelSlots (bs_slots s) price)"
  by (rule ls.lookup_law) (simp add: side_rel_def)

lemma side_count: "side_rel sd s xs \<Longrightarrow> sa_live_count (bs_slots s) = length xs"
proof -
  assume r: "side_rel sd s xs"
  then have "sa_live_count (bs_slots s) = card (dom (slot_map kLevelSlots (bs_slots s)))"
    by (intro ls.count_law) (simp add: side_rel_def)
  also have "dom (slot_map kLevelSlots (bs_slots s)) = set (map (\<lambda>i. pl_price (pool_get (bs_pool s) i)) xs)"
    using r by (simp add: side_rel_def dom_map_of_conv_image_fst image_image)
  finally show ?thesis
    using distinct_card[OF side_rel_prices[OF r]] by simp
qed

lemma card_side_levels: "side_rel sd s xs \<Longrightarrow> card (dom (side_levels s xs)) = length xs"
proof -
  assume r: "side_rel sd s xs"
  have "dom (side_levels s xs) = set (map (\<lambda>i. pl_price (pool_get (bs_pool s) i)) xs)"
    by (simp add: side_levels_def level_list_def dom_map_of_conv_image_fst image_image)
  then show ?thesis
    using distinct_card[OF side_rel_prices[OF r]] by simp
qed

lemma side_new:
  assumes "mem_pool_new level_init kMaxBookLevelSlotsPerSide = Inr p"
  shows "side_rel sd \<lparr>bs_slots = slot_array_new, bs_pool = p, bs_head = None\<rparr> []"
  using pool_new_inv[OF assms] slot_new_correct[of 12, folded kLevelSlots_def]
  by (simp add: side_rel_def ring_def better_first_def)

text \<open>A quantity written into a level.\<close>

lemma side_put_qty:
  assumes r: "side_rel sd s xs" and i: "i \<in> set xs"
  shows "side_rel sd (s\<lparr>bs_pool := pool_put i (pool_get (bs_pool s) i\<lparr>pl_qty := q\<rparr>) (bs_pool s)\<rparr>) xs"
    and "side_levels (s\<lparr>bs_pool := pool_put i (pool_get (bs_pool s) i\<lparr>pl_qty := q\<rparr>) (bs_pool s)\<rparr>) xs
         = (side_levels s xs)(pl_price (pool_get (bs_pool s) i) \<mapsto> q)"
proof -
  let ?get = "pool_get (bs_pool s)"
  let ?get' = "?get(i := ?get i\<lparr>pl_qty := q\<rparr>)"
  have f: "pl_price (?get' j) = pl_price (?get j)" "pl_next (?get' j) = pl_next (?get j)"
    "pl_prev (?get' j) = pl_prev (?get j)" for j by simp_all
  have "links ?get' ys = links ?get ys" for ys
    by (rule links_cong) (simp_all add: f)
  then show r': "side_rel sd (s\<lparr>bs_pool := pool_put i (?get i\<lparr>pl_qty := q\<rparr>) (bs_pool s)\<rparr>) xs"
    using r by (simp add: side_rel_def ring_def better_first_def f cong: map_cong del: fun_upd_apply)
  have inj: "pl_price (?get j) = pl_price (?get i) \<longleftrightarrow> j = i" if "j \<in> set xs" for j
    using side_rel_prices[OF r] i that by (auto simp: distinct_map inj_on_def)
  show "side_levels (s\<lparr>bs_pool := pool_put i (?get i\<lparr>pl_qty := q\<rparr>) (bs_pool s)\<rparr>) xs
         = (side_levels s xs)(pl_price (?get i) \<mapsto> q)"
  proof (rule map_eqI_Some)
    fix k v
    let ?s = "s\<lparr>bs_pool := pool_put i (?get i\<lparr>pl_qty := q\<rparr>) (bs_pool s)\<rparr>"
    have "side_levels ?s xs k = Some v \<longleftrightarrow>
        (\<exists>j\<in>set xs. pl_price (?get j) = k \<and> (if j = i then q else pl_qty (?get j)) = v)"
      unfolding side_levels_iff[OF r'] by auto
    also have "\<dots> \<longleftrightarrow> (if k = pl_price (?get i) then v = q else
        (\<exists>j\<in>set xs. pl_price (?get j) = k \<and> pl_qty (?get j) = v))"
      using i inj by (auto split: if_splits)
    also have "\<dots> \<longleftrightarrow> ((side_levels s xs)(pl_price (?get i) \<mapsto> q)) k = Some v"
      using side_levels_iff[OF r, of k v] by auto
    finally show "side_levels ?s xs k = Some v \<longleftrightarrow> ((side_levels s xs)(pl_price (?get i) \<mapsto> q)) k = Some v" .
  qed
qed

lemma side_relI:
  assumes "slot_inv 12 (bs_slots s)" "pool_inv (bs_pool s)" "mp_size (bs_pool s) = kMaxBookLevelSlotsPerSide"
    "pool_live (bs_pool s) = set xs" "ring (pool_get (bs_pool s)) xs" "bs_head s = head_of xs"
    "better_first sd (pool_get (bs_pool s)) xs" "length xs \<le> kMaxLiveLevelEntriesPerSide"
    "\<And>k i. slot_map kLevelSlots (bs_slots s) k = Some i \<longleftrightarrow> i \<in> set xs \<and> pl_price (pool_get (bs_pool s) i) = k"
  shows "side_rel sd s xs"
proof -
  have "slot_map kLevelSlots (bs_slots s) = map_of (map (\<lambda>i. (pl_price (pool_get (bs_pool s) i), i)) xs)"
    by (rule map_eqI_Some)
       (auto simp: assms(9) map_of_price_index[OF better_first_distinct[OF assms(7)]])
  with assms show ?thesis by (simp add: side_rel_def)
qed

lemmas book_capacities = kMaxBookOrderSlots_def kMaxBookLevelSlotsPerSide_def kMaxLiveOrderEntries_def
  kMaxLiveLevelEntriesPerSide_def

lemma createLevel_correct:
  assumes r: "side_rel sd s xs" and absent: "side_levels s xs price = None"
    and room: "length xs < kMaxLiveLevelEntriesPerSide"
  shows "\<exists>s' xs' l. createLevel sd price s = Ok s' l \<and> side_rel sd s' xs' \<and> l \<in> set xs' \<and>
    pl_price (pool_get (bs_pool s') l) = price \<and> pl_qty (pool_get (bs_pool s') l) = 0 \<and>
    side_levels s' xs' = (side_levels s xs)(price \<mapsto> 0)"
proof -
  let ?get = "pool_get (bs_pool s)"
  let ?new = "\<lparr>pl_price = price, pl_qty = 0, pl_side = sd, pl_prev = None, pl_next = None\<rparr>"
  have R: "slot_inv 12 (bs_slots s)" "pool_inv (bs_pool s)" "mp_size (bs_pool s) = kMaxBookLevelSlotsPerSide"
    "pool_live (bs_pool s) = set xs" "ring ?get xs" "bs_head s = head_of xs" "better_first sd ?get xs"
    using r by (simp_all add: side_rel_def)
  have "distinct xs" using R(5) by (simp add: ring_def)
  then have "card (pool_live (bs_pool s)) < mp_size (bs_pool s)"
    using room R(3,4) by (simp add: distinct_card book_capacities)
  from mp.alloc_obtains[OF R(2) this, of ?new]
  obtain p1 l where a: "allocate ?new (bs_pool s) = Ok p1 l" "pool_inv p1" "mp_size p1 = mp_size (bs_pool s)"
      "l \<notin> set xs" "pool_live p1 = insert l (set xs)" "pool_get p1 = ?get(l := ?new)"
    using R(4) by metis
  have none: "slot_map kLevelSlots (bs_slots s) price = None"
    using side_find(2)[OF r] absent by simp
  have cnt: "sa_live_count (bs_slots s) = length xs" by (rule side_count[OF r])
  have "sa_live_count (bs_slots s) + 1 < 2 ^ 12"
    using room cnt by (simp add: book_capacities)
  from ls.add_obtains[OF R(1) none this, of l]
  obtain sl where sl: "slot_insert kLevelSlots price l (bs_slots s) = Some sl" "slot_inv 12 sl"
      "slot_map kLevelSlots sl = (slot_map kLevelSlots (bs_slots s))(price \<mapsto> l)"
    by blast
  have get1: "pool_get p1 i = ?get i" if "i \<in> set xs" for i
    using that a(4,6) by auto
  have ring1: "ring (pool_get p1) xs"
  proof -
    have "links (pool_get p1) (xs @ [hd xs]) = links ?get (xs @ [hd xs])" if "xs \<noteq> []"
      by (rule links_cong) (use that get1 in_set_butlastD in \<open>cases xs; fastforce\<close>)+
    with R(5) show ?thesis by (auto simp: ring_def)
  qed
  have bf1: "better_first sd (pool_get p1) xs"
    using R(7) unfolding better_first_def by (rule sorted_wrt_mono_rel[rotated]) (simp add: get1)
  have other: "pl_price (pool_get p1 i) \<noteq> pl_price (pool_get p1 l)" if "i \<in> set xs" for i
    using that get1[OF that] a(6) none side_find(1)[OF r, of price i] by auto
  obtain p2 as bs where ins: "xs = as @ bs"
      "insertLevelIntoSortedList sd l (head_of xs) p1 = Ok p2 (head_of (as @ l # bs))"
      "ring (pool_get p2) (as @ l # bs)" "better_first sd (pool_get p2) (as @ l # bs)" "same_levels p1 p2"
    using insertLevelIntoSortedList_correct[OF ring1 bf1 a(4) other] by metis
  let ?s' = "s\<lparr>bs_pool := p2, bs_slots := sl, bs_head := head_of (as @ l # bs)\<rparr>" and ?ys = "as @ l # bs"
  have run: "createLevel sd price s = Ok ?s' l"
    using room cnt a(1) sl(1) ins(2) R(6) by (simp add: createLevel_def Let_def)
  have pq: "pl_price (pool_get p2 i) = (if i = l then price else pl_price (?get i))"
    "pl_qty (pool_get p2 i) = (if i = l then 0 else pl_qty (?get i))" for i
    using ins(5) a(6) by (simp_all add: same_levels_def)
  have rel: "side_rel sd ?s' ?ys"
  proof (rule side_relI)
    fix k i
    show "slot_map kLevelSlots (bs_slots ?s') k = Some i \<longleftrightarrow> i \<in> set ?ys \<and> pl_price (pool_get (bs_pool ?s') i) = k"
      using side_find(1)[OF r, of k i] none side_find(1)[OF r, of price i] ins(1) a(4) by (auto simp: sl(3) pq)
  qed (use sl ins a R room in \<open>auto simp: same_levels_def\<close>)
  have "side_levels ?s' ?ys = (side_levels s xs)(price \<mapsto> 0)"
  proof (rule map_eqI_Some)
    fix k v
    show "side_levels ?s' ?ys k = Some v \<longleftrightarrow> ((side_levels s xs)(price \<mapsto> 0)) k = Some v"
      using side_levels_iff[OF rel, of k v] side_levels_iff[OF r, of k v] side_levels_iff[OF r, of price v]
        absent ins(1) a(4) by (auto simp: pq)
  qed
  with run rel pq(1,2)[of l] show ?thesis
    by (intro exI[of _ ?s'] exI[of _ ?ys] exI[of _ l]) simp
qed

text \<open>\<open>addToLevel\<close> adds (modulo \<open>2 ^ 32\<close>) to the price's quantity; only a new price can fail.\<close>

definition add_qty :: "price \<Rightarrow> qty \<Rightarrow> (price \<rightharpoonup> qty) \<Rightarrow> price \<rightharpoonup> qty" where
  "add_qty price qty m = m(price \<mapsto> (case m price of None \<Rightarrow> 0 | Some q \<Rightarrow> q) + qty)"

definition remove_qty :: "price \<Rightarrow> qty \<Rightarrow> (price \<rightharpoonup> qty) \<Rightarrow> price \<rightharpoonup> qty" where
  "remove_qty price qty m = (case m price of None \<Rightarrow> m
     | Some q \<Rightarrow> if q \<le> qty then m(price := None) else m(price \<mapsto> q - qty))"

lemma addToLevel_correct:
  assumes r: "side_rel sd s xs"
    and room: "side_levels s xs price = None \<Longrightarrow> length xs < kMaxLiveLevelEntriesPerSide"
  shows "\<exists>s' xs'. addToLevel sd price qty s = Ok s' () \<and> side_rel sd s' xs' \<and>
    side_levels s' xs' = add_qty price qty (side_levels s xs)"
proof (cases "slot_map kLevelSlots (bs_slots s) price")
  case None
  then have absent: "side_levels s xs price = None" using side_find(2)[OF r] by simp
  obtain s1 xs1 l where c: "createLevel sd price s = Ok s1 l" "side_rel sd s1 xs1" "l \<in> set xs1"
      "pl_price (pool_get (bs_pool s1) l) = price" "pl_qty (pool_get (bs_pool s1) l) = 0"
      "side_levels s1 xs1 = (side_levels s xs)(price \<mapsto> 0)"
    using createLevel_correct[OF r absent room[OF absent]] by blast
  note p = side_put_qty[OF c(2,3), of "0 + qty"]
  have "addToLevel sd price qty s = Ok (s1\<lparr>bs_pool := pool_put l
      (pool_get (bs_pool s1) l\<lparr>pl_qty := 0 + qty\<rparr>) (bs_pool s1)\<rparr>) ()"
    by (simp add: addToLevel_def side_lookup[OF r] None c)
  with p c absent show ?thesis by (auto simp: add_qty_def)
next
  case (Some l)
  then have l: "l \<in> set xs" "pl_price (pool_get (bs_pool s) l) = price"
    using side_find(1)[OF r] by auto
  have q: "side_levels s xs price = Some (pl_qty (pool_get (bs_pool s) l))"
    using side_find(3)[OF r l(1)] l(2) by simp
  note p = side_put_qty[OF r l(1), of "pl_qty (pool_get (bs_pool s) l) + qty"]
  have "addToLevel sd price qty s = Ok (s\<lparr>bs_pool := pool_put l
      (pool_get (bs_pool s) l\<lparr>pl_qty := pl_qty (pool_get (bs_pool s) l) + qty\<rparr>) (bs_pool s)\<rparr>) ()"
    by (simp add: addToLevel_def side_lookup[OF r] Some)
  with p l q show ?thesis by (auto simp: add_qty_def)
qed

lemma addToLevel_full:
  assumes r: "side_rel sd s xs" and "side_levels s xs price = None" "length xs \<ge> kMaxLiveLevelEntriesPerSide"
  shows "addToLevel sd price qty s = Throw s level_capacity_error"
  using assms(2,3) side_find(2)[OF r, of price]
  by (simp add: addToLevel_def side_lookup[OF r] side_count[OF r] createLevel_def)

lemma requireLevelCapacity_correct:
  assumes r: "side_rel sd s xs"
  shows "requireLevelCapacity price s =
    (if side_levels s xs price = None \<and> length xs \<ge> kMaxLiveLevelEntriesPerSide
     then Throw s level_capacity_error else Ok s ())"
  using side_find(2)[OF r, of price] by (auto simp: requireLevelCapacity_def side_lookup[OF r] side_count[OF r])

lemma removeFromLevel_correct:
  assumes r: "side_rel sd s xs"
  shows "\<exists>s' xs'. removeFromLevel price qty s = Ok s' () \<and> side_rel sd s' xs' \<and>
    side_levels s' xs' = remove_qty price qty (side_levels s xs) \<and> length xs' \<le> length xs"
proof (cases "slot_map kLevelSlots (bs_slots s) price")
  case None
  then have "side_levels s xs price = None" using side_find(2)[OF r] by simp
  with None r show ?thesis
    by (intro exI[of _ s] exI[of _ xs]) (simp add: removeFromLevel_def side_lookup[OF r] remove_qty_def)
next
  case (Some l)
  let ?get = "pool_get (bs_pool s)"
  have l: "l \<in> set xs" "pl_price (?get l) = price"
    using Some side_find(1)[OF r] by auto
  have q: "side_levels s xs price = Some (pl_qty (?get l))"
    using side_find(3)[OF r l(1)] l(2) by simp
  show ?thesis
  proof (cases "pl_qty (?get l) \<le> qty")
    case False
    note p = side_put_qty[OF r l(1), of "pl_qty (?get l) - qty"]
    have "removeFromLevel price qty s = Ok (s\<lparr>bs_pool := pool_put l
        (?get l\<lparr>pl_qty := pl_qty (?get l) - qty\<rparr>) (bs_pool s)\<rparr>) ()"
      using False by (simp add: removeFromLevel_def side_lookup[OF r] Some)
    with p l q False show ?thesis by (auto simp: remove_qty_def)
  next
    case True
    have R: "slot_inv 12 (bs_slots s)" "pool_inv (bs_pool s)" "mp_size (bs_pool s) = kMaxBookLevelSlotsPerSide"
      "pool_live (bs_pool s) = set xs" "ring ?get xs" "bs_head s = head_of xs" "better_first sd ?get xs"
      "length xs \<le> kMaxLiveLevelEntriesPerSide"
      using r by (simp_all add: side_rel_def)
    obtain as bs where xs: "xs = as @ l # bs" using l(1) by (meson split_list)
    have d: "l \<notin> set (as @ bs)" using R(5) xs by (simp add: ring_def)
    obtain p1 where rm: "removeLevelFromSortedList l (head_of xs) (bs_pool s) = Ok p1 (head_of (as @ bs))"
        "ring (pool_get p1) (as @ bs)" "better_first sd (pool_get p1) (as @ bs)" "same_levels (bs_pool s) p1"
      using removeLevelFromSortedList_correct[of "bs_pool s" as l bs sd] R(5,7) xs by blast
    obtain sl where sl: "slot_erase kLevelSlots price (bs_slots s) = Some (sl, Some l)" "slot_inv 12 sl"
        "slot_map kLevelSlots sl = (slot_map kLevelSlots (bs_slots s))(price := None)"
      using ls.remove_law[OF R(1), of price] Some by auto
    have "pool_inv p1" "l \<in> pool_live p1"
      using rm(4) R l(1) by (auto simp: same_levels_def)
    then obtain p2 where p2: "deallocate l p1 = Ok p2 ()" "pool_inv p2" "mp_size p2 = mp_size p1"
        "pool_live p2 = pool_live p1 - {l}" "pool_get p2 = pool_get p1"
      by (rule mp.dealloc_obtains)
    let ?s' = "s\<lparr>bs_pool := p2, bs_head := head_of (as @ bs), bs_slots := sl\<rparr>"
    have run: "removeFromLevel price qty s = Ok ?s' ()"
      using True R(6) rm(1) sl(1) p2(1) by (simp add: removeFromLevel_def side_lookup[OF r] Some Let_def)
    have pq: "pl_price (pool_get p2 i) = pl_price (?get i)" "pl_qty (pool_get p2 i) = pl_qty (?get i)" for i
      using rm(4) p2(5) by (simp_all add: same_levels_def)
    have other: "pl_price (?get i) \<noteq> price" if "i \<in> set (as @ bs)" for i
    proof -
      have "i \<in> set xs" "i \<noteq> l" using that d xs by auto
      then show ?thesis
        using side_rel_prices[OF r] l by (auto simp: distinct_map inj_on_def)
    qed
    have rel: "side_rel sd ?s' (as @ bs)"
    proof (rule side_relI)
      fix k i
      show "slot_map kLevelSlots (bs_slots ?s') k = Some i \<longleftrightarrow>
          i \<in> set (as @ bs) \<and> pl_price (pool_get (bs_pool ?s') i) = k"
        using side_find(1)[OF r, of k i] other l(2) by (auto simp: sl(3) pq xs)
    qed (use sl rm p2 R xs d in \<open>auto simp: same_levels_def\<close>)
    have "side_levels ?s' (as @ bs) = (side_levels s xs)(price := None)"
    proof (rule map_eqI_Some)
      fix k v
      show "side_levels ?s' (as @ bs) k = Some v \<longleftrightarrow> ((side_levels s xs)(price := None)) k = Some v"
        using side_levels_iff[OF rel, of k v] side_levels_iff[OF r, of k v] other l(2)
        by (auto simp: pq xs)
    qed
    with run rel q True show ?thesis
      by (intro exI[of _ ?s'] exI[of _ "as @ bs"]) (simp add: remove_qty_def xs)
  qed
qed

lemma clear_loop_free_all:
  "links (pool_get p) (ts @ [h]) \<Longrightarrow> h \<notin> set ts \<Longrightarrow> pool_inv p \<Longrightarrow> distinct ts \<Longrightarrow> ts \<noteq> [] \<Longrightarrow>
     h \<in> pool_live p \<Longrightarrow> set ts \<subseteq> pool_live p \<Longrightarrow>
     \<exists>p'. clear_loop h (Some (hd ts)) p = Some (Ok p' ()) \<and> pool_inv p' \<and> mp_size p' = mp_size p \<and>
       pool_live p' = pool_live p - insert h (set ts)"
proof (induction ts arbitrary: p)
  case (Cons t ts)
  then have t: "t \<in> pool_live p" "t \<noteq> h" by auto
  obtain q where q: "deallocate t p = Ok q ()" "pool_inv q" "mp_size q = mp_size p"
      "pool_live q = pool_live p - {t}" "pool_get q = pool_get p"
    using mp.dealloc_obtains[OF Cons.prems(3) t(1)] by blast
  have nx: "pl_next (pool_get p t) = Some (hd (ts @ [h]))"
    using Cons.prems(1) by (cases ts) auto
  show ?case
  proof (cases "ts = []")
    case True
    have "h \<in> pool_live q" using q(4) t(2) Cons.prems(6) by auto
    then obtain p' where "deallocate h q = Ok p' ()" "pool_inv p'" "mp_size p' = mp_size q"
        "pool_live p' = pool_live q - {h}"
      using mp.dealloc_obtains[OF q(2)] by blast
    then show ?thesis
      using q t(2) nx True by (subst clear_loop.simps) (subst clear_loop.simps, auto)
  next
    case False
    then have "links (pool_get q) (ts @ [h])" using Cons.prems(1) q(5) by (cases ts) auto
    then obtain p' where "clear_loop h (Some (hd ts)) q = Some (Ok p' ())" "pool_inv p'" "mp_size p' = mp_size q"
        "pool_live p' = pool_live q - insert h (set ts)"
      using Cons.IH[of q] Cons.prems q t(2) False by auto
    then show ?thesis
      using q t(2) nx False by (subst clear_loop.simps) auto
  qed
qed simp

lemma clearSideLevels_correct:
  assumes r: "side_rel sd s xs"
  shows "\<exists>s'. clearSideLevels s = Ok s' () \<and> side_rel sd s' []"
proof -
  have R: "pool_inv (bs_pool s)" "mp_size (bs_pool s) = kMaxBookLevelSlotsPerSide"
    "pool_live (bs_pool s) = set xs" "ring (pool_get (bs_pool s)) xs" "bs_head s = head_of xs"
    using r by (simp_all add: side_rel_def)
  have cleared: "side_rel sd (s\<lparr>bs_pool := p, bs_head := None, bs_slots := slot_clear (bs_slots s)\<rparr>) []"
    if "pool_inv p" "mp_size p = kMaxBookLevelSlotsPerSide" "pool_live p = {}" for p
    using that slot_new_correct[of 12, folded kLevelSlots_def]
    by (simp add: side_rel_def ring_def better_first_def slot_clear_new)
  show ?thesis
  proof (cases xs)
    case Nil
    then have "clearSideLevels s = Ok (s\<lparr>bs_pool := bs_pool s, bs_head := None, bs_slots := slot_clear (bs_slots s)\<rparr>) ()"
      using R(5) by (simp add: clearSideLevels_def)
    with cleared[OF R(1,2)] R(3) Nil show ?thesis by simp
  next
    case (Cons h ts)
    have "\<exists>p. clear_loop h (pl_next (pool_get (bs_pool s) h)) (bs_pool s) = Some (Ok p ()) \<and> pool_inv p \<and>
      mp_size p = mp_size (bs_pool s) \<and> pool_live p = {}"
    proof (cases ts)
      case Nil
      with R(4) Cons have nx: "pl_next (pool_get (bs_pool s) h) = Some h" by (simp add: ring_single)
      have "h \<in> pool_live (bs_pool s)" using R(3) Cons by simp
      then obtain p where "deallocate h (bs_pool s) = Ok p ()" "pool_inv p" "mp_size p = mp_size (bs_pool s)"
          "pool_live p = pool_live (bs_pool s) - {h}"
        using mp.dealloc_obtains[OF R(1)] by blast
      then show ?thesis
        using nx R(3) Cons Nil by (subst clear_loop.simps) auto
    next
      case (Cons t ts')
      with R(4) \<open>xs = h # ts\<close> have nx: "pl_next (pool_get (bs_pool s) h) = Some (hd ts)"
        and lk: "links (pool_get (bs_pool s)) (ts @ [h])" "h \<notin> set ts" "distinct ts"
        by (simp_all add: ring_def)
      then obtain p where "clear_loop h (Some (hd ts)) (bs_pool s) = Some (Ok p ())" "pool_inv p"
          "mp_size p = mp_size (bs_pool s)" "pool_live p = pool_live (bs_pool s) - insert h (set ts)"
        using clear_loop_free_all[OF lk(1,2) R(1) lk(3)] R(3) Cons \<open>xs = h # ts\<close> by auto
      then show ?thesis
        using nx R(3) \<open>xs = h # ts\<close> by auto
    qed
    then obtain p where p: "clear_loop h (pl_next (pool_get (bs_pool s) h)) (bs_pool s) = Some (Ok p ())"
        "pool_inv p" "mp_size p = mp_size (bs_pool s)" "pool_live p = {}" by blast
    then have "clearSideLevels s = Ok (s\<lparr>bs_pool := p, bs_head := None, bs_slots := slot_clear (bs_slots s)\<rparr>) ()"
      using R(5) Cons by (simp add: clearSideLevels_def)
    with cleared[OF p(2) _ p(4)] p(3) R(2) show ?thesis by auto
  qed
qed

text \<open>The head of the list is the best price of the side.\<close>

lemma side_head_best:
  assumes r: "side_rel sd s xs"
  shows "(case bs_head s of None \<Rightarrow> side_levels s xs = Map.empty
    | Some h \<Rightarrow> side_levels s xs (pl_price (pool_get (bs_pool s) h)) = Some (pl_qty (pool_get (bs_pool s) h)) \<and>
        (\<forall>k\<in>dom (side_levels s xs). k \<noteq> pl_price (pool_get (bs_pool s) h) \<longrightarrow>
           isBetterLevelPrice sd (pl_price (pool_get (bs_pool s) h)) k))"
proof (cases xs)
  case Nil
  with r show ?thesis by (simp add: side_rel_def side_levels_def level_list_def)
next
  case (Cons h ts)
  have "isBetterLevelPrice sd (pl_price (pool_get (bs_pool s) h)) k"
    if k: "side_levels s xs k = Some v" "k \<noteq> pl_price (pool_get (bs_pool s) h)" for k v
  proof -
    obtain i where "i \<in> set xs" "pl_price (pool_get (bs_pool s) i) = k"
      using k(1) side_levels_iff[OF r] by blast
    with k(2) Cons r show ?thesis
      by (auto simp: side_rel_def better_first_def)
  qed
  moreover have "bs_head s = Some h" using r Cons by (simp add: side_rel_def)
  moreover have "side_levels s xs (pl_price (pool_get (bs_pool s) h)) = Some (pl_qty (pool_get (bs_pool s) h))"
    using side_find(3)[OF r, of h] Cons by simp
  ultimately show ?thesis by auto
qed

end
