(* ===== verification/OrderBook.thy ===== *)
theory OrderBook
  imports BookSide
begin

text \<open>
  \<open>MarketOrderBook\<close> (\<open>trading/strategy/market_order_book.h\<close>): the pooled incremental book with its
  order slots and two sides, and the depth-snapshot mode. The theory gives the book an abstract
  state (orders by id, quantities by price) and proves that every update of the pooled book is
  that update of the abstract one, exceptions included, and that the BBO is the best level.
\<close>

section \<open>Model\<close>

record bbo =
  bbo_bid_price :: price
  bbo_ask_price :: price
  bbo_bid_qty :: qty
  bbo_ask_qty :: qty

definition bbo_init :: bbo where
  "bbo_init = \<lparr>bbo_bid_price = Price_INVALID, bbo_ask_price = Price_INVALID,
               bbo_bid_qty = Qty_INVALID, bbo_ask_qty = Qty_INVALID\<rparr>"

definition bbo_toString :: "bbo \<Rightarrow> string" where
  "bbo_toString b = ''BBO[bid:'' @ show_u (bbo_bid_qty b) @ ''@'' @ show_s (bbo_bid_price b) @
     '' ask:'' @ show_s (bbo_ask_price b) @ ''@'' @ show_u (bbo_ask_qty b) @ '']''"

datatype book_mode = Mode_UNINITIALIZED | Mode_INCREMENTAL | Mode_DEPTH_SNAPSHOT

primrec modeToString :: "book_mode \<Rightarrow> string" where
  "modeToString Mode_UNINITIALIZED = ''UNINITIALIZED''"
| "modeToString Mode_INCREMENTAL = ''INCREMENTAL''"
| "modeToString Mode_DEPTH_SNAPSHOT = ''DEPTH_SNAPSHOT''"

record book_order =
  bo_order_id :: order_id
  bo_price :: price
  bo_qty :: qty
  bo_side :: side

definition book_order_init :: book_order where
  "book_order_init = \<lparr>bo_order_id = OrderId_INVALID, bo_price = Price_INVALID, bo_qty = Qty_INVALID,
                      bo_side = Side_INVALID\<rparr>"

record market_order_book =
  mob_ticker_id :: ticker_id
  mob_mode :: book_mode
  mob_depth :: depth_snapshot
  mob_bbo :: bbo
  mob_order_pool :: "book_order mem_pool"
  mob_order_slots :: slot_array
  mob_bids :: book_side
  mob_asks :: book_side

definition market_order_book_new :: "ticker_id \<Rightarrow> exn + market_order_book" where
  "market_order_book_new ticker =
     (case mem_pool_new book_order_init kMaxBookOrderSlots of
        Inl e \<Rightarrow> Inl e
      | Inr orders \<Rightarrow> (case mem_pool_new level_init kMaxBookLevelSlotsPerSide of
          Inl e \<Rightarrow> Inl e
        | Inr levels \<Rightarrow> Inr
            \<lparr>mob_ticker_id = ticker, mob_mode = Mode_UNINITIALIZED, mob_depth = depth_snapshot_init,
             mob_bbo = bbo_init, mob_order_pool = orders, mob_order_slots = slot_array_new,
             mob_bids = \<lparr>bs_slots = slot_array_new, bs_pool = levels, bs_head = None\<rparr>,
             mob_asks = \<lparr>bs_slots = slot_array_new, bs_pool = levels, bs_head = None\<rparr>\<rparr>))"

text \<open>\<open>side == Side::BUY ? bid : ask\<close> of \<open>levelSlots\<close>, \<open>levelPool\<close> and \<open>levelHead\<close>.\<close>

definition book_side_of :: "side \<Rightarrow> market_order_book \<Rightarrow> book_side" where
  "book_side_of sd b = (if sd = BUY then mob_bids b else mob_asks b)"

definition put_book_side :: "side \<Rightarrow> market_order_book \<Rightarrow> book_side \<Rightarrow> market_order_book" where
  "put_book_side sd b s = (if sd = BUY then b\<lparr>mob_bids := s\<rparr> else b\<lparr>mob_asks := s\<rparr>)"

definition on_side :: "side \<Rightarrow> (book_side \<Rightarrow> (book_side, 'a) outcome) \<Rightarrow> market_order_book \<Rightarrow>
    (market_order_book, 'a) outcome" where
  "on_side sd f b = on_part (put_book_side sd b) (f (book_side_of sd b))"

definition book_cancelOrder :: "order_id \<Rightarrow> market_order_book \<Rightarrow> (market_order_book, unit) outcome" where
  "book_cancelOrder order_id b =
     await (slot_erase kOrderSlots order_id (mob_order_slots b)) (\<lambda>(slots, erased).
     let b1 = b\<lparr>mob_order_slots := slots\<rparr> in
     case erased of
       None \<Rightarrow> Ok b1 ()
     | Some order \<Rightarrow>
         let ord = pool_get (mob_order_pool b1) order in
         then_do (on_side (bo_side ord) (removeFromLevel (bo_price ord) (bo_qty ord)) b1)
           (\<lambda>b2 _. on_part (\<lambda>p. b2\<lparr>mob_order_pool := p\<rparr>) (deallocate order (mob_order_pool b2))))"

abbreviation order_capacity_error :: exn where
  "order_capacity_error \<equiv> Runtime_error ''MarketOrderBook order slot capacity exhausted''"

definition book_addOrder :: "market_update \<Rightarrow> market_order_book \<Rightarrow> (market_order_book, unit) outcome" where
  "book_addOrder u b =
     then_do (book_cancelOrder (mu_order_id u) b) (\<lambda>b1 _.
     if sa_live_count (mob_order_slots b1) \<ge> kMaxLiveOrderEntries then Throw b1 order_capacity_error
     else then_do (on_side (mu_side u) (requireLevelCapacity (mu_price u)) b1) (\<lambda>b2 _.
     then_do (on_part (\<lambda>p. b2\<lparr>mob_order_pool := p\<rparr>)
        (allocate \<lparr>bo_order_id = mu_order_id u, bo_price = mu_price u, bo_qty = mu_qty u,
                   bo_side = mu_side u\<rparr> (mob_order_pool b2))) (\<lambda>b3 order.
     await (slot_insert kOrderSlots (mu_order_id u) order (mob_order_slots b3)) (\<lambda>slots.
     on_side (mu_side u) (addToLevel (mu_side u) (mu_price u) (mu_qty u))
       (b3\<lparr>mob_order_slots := slots\<rparr>)))))"

text \<open>Assigning fields through the order pointer.\<close>

definition update_order :: "nat \<Rightarrow> (book_order \<Rightarrow> book_order) \<Rightarrow> market_order_book \<Rightarrow> market_order_book" where
  "update_order order f b =
     b\<lparr>mob_order_pool := pool_put order (f (pool_get (mob_order_pool b) order)) (mob_order_pool b)\<rparr>"

definition book_modifyOrder :: "market_update \<Rightarrow> market_order_book \<Rightarrow> (market_order_book, unit) outcome" where
  "book_modifyOrder u b =
     await (slot_find kOrderSlots (mu_order_id u) (mob_order_slots b)) (\<lambda>found.
     case found of
       None \<Rightarrow> Ok b ()
     | Some order \<Rightarrow>
         let ord = pool_get (mob_order_pool b) order in
         then_do
           (if bo_side ord \<noteq> mu_side u \<or> bo_price ord \<noteq> mu_price u then
              then_do (on_side (mu_side u) (requireLevelCapacity (mu_price u)) b) (\<lambda>b1 _.
              then_do (on_side (bo_side ord) (removeFromLevel (bo_price ord) (bo_qty ord)) b1) (\<lambda>b2 _.
              on_side (mu_side u) (addToLevel (mu_side u) (mu_price u) (mu_qty u))
                (update_order order (\<lambda>x. x\<lparr>bo_side := mu_side u, bo_price := mu_price u\<rparr>) b2)))
            else if mu_qty u \<ge> bo_qty ord then
              on_side (bo_side ord) (addToLevel (bo_side ord) (bo_price ord) (mu_qty u - bo_qty ord)) b
            else
              on_side (bo_side ord) (removeFromLevel (bo_price ord) (bo_qty ord - mu_qty u)) b)
           (\<lambda>b' _. Ok (update_order order (\<lambda>x. x\<lparr>bo_qty := mu_qty u\<rparr>) b') ()))"

text \<open>The visitor of \<open>forEachNode\<close> in \<open>clearIncrementalBook\<close>.\<close>

fun deallocate_all :: "nat list \<Rightarrow> 'a mem_pool \<Rightarrow> ('a mem_pool, unit) outcome" where
  "deallocate_all [] p = Ok p ()"
| "deallocate_all (i # is) p = then_do (deallocate i p) (\<lambda>p' _. deallocate_all is p')"

definition clearIncrementalBook :: "market_order_book \<Rightarrow> (market_order_book, unit) outcome" where
  "clearIncrementalBook b =
     then_do (on_part (\<lambda>p. b\<lparr>mob_order_pool := p\<rparr>)
        (deallocate_all (slot_nodes kOrderSlots (mob_order_slots b)) (mob_order_pool b))) (\<lambda>b1 _.
     let b2 = b1\<lparr>mob_order_slots := slot_clear (mob_order_slots b1)\<rparr> in
     then_do (on_side BUY clearSideLevels b2) (\<lambda>b3 _.
     then_do (on_side SELL clearSideLevels b3) (\<lambda>b4 _.
     Ok (b4\<lparr>mob_bbo := bbo_init\<rparr>) ())))"

text \<open>Price and quantity at a head pointer, the invalid markers where it is null.\<close>

definition head_price_qty :: "book_side \<Rightarrow> price \<times> qty" where
  "head_price_qty s = (case bs_head s of
     None \<Rightarrow> (Price_INVALID, Qty_INVALID)
   | Some h \<Rightarrow> (pl_price (pool_get (bs_pool s) h), pl_qty (pool_get (bs_pool s) h)))"

definition updateBBOFromIncrementalBook :: "market_order_book \<Rightarrow> market_order_book" where
  "updateBBOFromIncrementalBook b =
     b\<lparr>mob_bbo := \<lparr>bbo_bid_price = fst (head_price_qty (mob_bids b)),
                   bbo_ask_price = fst (head_price_qty (mob_asks b)),
                   bbo_bid_qty = snd (head_price_qty (mob_bids b)),
                   bbo_ask_qty = snd (head_price_qty (mob_asks b))\<rparr>\<rparr>"

definition updateBBOFromDepthSnapshot :: "market_order_book \<Rightarrow> market_order_book" where
  "updateBBOFromDepthSnapshot b =
     b\<lparr>mob_bbo := \<lparr>bbo_bid_price = dl_price (hd (ds_bids (mob_depth b))),
                   bbo_ask_price = dl_price (hd (ds_asks (mob_depth b))),
                   bbo_bid_qty = dl_qty (hd (ds_bids (mob_depth b))),
                   bbo_ask_qty = dl_qty (hd (ds_asks (mob_depth b)))\<rparr>\<rparr>"

definition requireIncrementalMode :: "market_order_book \<Rightarrow> (market_order_book, unit) outcome" where
  "requireIncrementalMode b =
     (if mob_mode b = Mode_DEPTH_SNAPSHOT
      then Throw b (Logic_error ''MarketOrderBook cannot mix depth snapshot and incremental updates'')
      else Ok (b\<lparr>mob_mode := Mode_INCREMENTAL\<rparr>) ())"

definition requireDepthSnapshotMode :: "market_order_book \<Rightarrow> (market_order_book, unit) outcome" where
  "requireDepthSnapshotMode b =
     (if mob_mode b = Mode_INCREMENTAL
      then Throw b (Logic_error ''MarketOrderBook cannot mix incremental and depth snapshot updates'')
      else Ok (b\<lparr>mob_mode := Mode_DEPTH_SNAPSHOT\<rparr>) ())"

definition onDepthSnapshot :: "depth_snapshot \<Rightarrow> market_order_book \<Rightarrow> (market_order_book, unit) outcome" where
  "onDepthSnapshot snapshot b =
     (if mob_mode b = Mode_INCREMENTAL
      then Throw b (Logic_error ''MarketOrderBook cannot mix incremental and depth snapshot updates'')
      else let b1 = (if mob_mode b = Mode_UNINITIALIZED then b\<lparr>mob_bbo := bbo_init\<rparr> else b);
               b2 = b1\<lparr>mob_depth := snapshot, mob_mode := Mode_DEPTH_SNAPSHOT\<rparr>
           in Ok (updateBBOFromDepthSnapshot b2) ())"

text \<open>An incremental update runs its handler and then refreshes the BBO.\<close>

definition incremental :: "(market_order_book \<Rightarrow> (market_order_book, unit) outcome) \<Rightarrow>
    market_order_book \<Rightarrow> (market_order_book, unit) outcome" where
  "incremental f b = then_do (requireIncrementalMode b) (\<lambda>b1 _. then_do (f b1) (\<lambda>b2 _.
     Ok (updateBBOFromIncrementalBook b2) ()))"

definition book_onMarketUpdate :: "market_update \<Rightarrow> market_order_book \<Rightarrow> (market_order_book, unit) outcome" where
  "book_onMarketUpdate u b = (case mu_type u of
     ADD \<Rightarrow> incremental (book_addOrder u) b
   | MODIFY \<Rightarrow> incremental (book_modifyOrder u) b
   | CANCEL \<Rightarrow> incremental (book_cancelOrder (mu_order_id u)) b
   | CLEAR \<Rightarrow> incremental clearIncrementalBook b
   | DEPTH_SNAPSHOT \<Rightarrow> then_do (requireDepthSnapshotMode b) (\<lambda>b1 _. onDepthSnapshot (mu_depth u) b1)
   | TRADE \<Rightarrow> requireIncrementalMode b
   | _ \<Rightarrow> Ok b ())"

definition market_order_book_toString :: "market_order_book \<Rightarrow> string" where
  "market_order_book_toString b =
     ''MarketOrderBook[ticker:'' @ show_u (mob_ticker_id b) @ '' mode:'' @ modeToString (mob_mode b) @
     '' '' @ bbo_toString (mob_bbo b) @ '']''"

section \<open>The abstract book\<close>

text \<open>Resting orders by id and aggregated quantity by price.\<close>

record abs_book =
  ab_mode :: book_mode
  ab_depth :: depth_snapshot
  ab_orders :: "order_id \<rightharpoonup> side \<times> price \<times> qty"
  ab_bids :: "price \<rightharpoonup> qty"
  ab_asks :: "price \<rightharpoonup> qty"

definition ab_side :: "side \<Rightarrow> abs_book \<Rightarrow> price \<rightharpoonup> qty" where
  "ab_side sd a = (if sd = BUY then ab_bids a else ab_asks a)"

definition ab_put_side :: "side \<Rightarrow> (price \<rightharpoonup> qty) \<Rightarrow> abs_book \<Rightarrow> abs_book" where
  "ab_put_side sd m a = (if sd = BUY then a\<lparr>ab_bids := m\<rparr> else a\<lparr>ab_asks := m\<rparr>)"

definition ab_add :: "side \<Rightarrow> price \<Rightarrow> qty \<Rightarrow> abs_book \<Rightarrow> abs_book" where
  "ab_add sd p q a = ab_put_side sd (add_qty p q (ab_side sd a)) a"

definition ab_remove :: "side \<Rightarrow> price \<Rightarrow> qty \<Rightarrow> abs_book \<Rightarrow> abs_book" where
  "ab_remove sd p q a = ab_put_side sd (remove_qty p q (ab_side sd a)) a"

definition ab_cancel :: "order_id \<Rightarrow> abs_book \<Rightarrow> abs_book" where
  "ab_cancel oid a = (case ab_orders a oid of
     None \<Rightarrow> a
   | Some (sd, p, q) \<Rightarrow> ab_remove sd p q (a\<lparr>ab_orders := (ab_orders a)(oid := None)\<rparr>))"

definition ab_level_full :: "side \<Rightarrow> price \<Rightarrow> abs_book \<Rightarrow> bool" where
  "ab_level_full sd p a \<longleftrightarrow> ab_side sd a p = None \<and> card (dom (ab_side sd a)) \<ge> kMaxLiveLevelEntriesPerSide"

definition ab_add_order :: "market_update \<Rightarrow> abs_book \<Rightarrow> (abs_book, unit) outcome" where
  "ab_add_order u a =
     (let a1 = ab_cancel (mu_order_id u) a in
      if card (dom (ab_orders a1)) \<ge> kMaxLiveOrderEntries then Throw a1 order_capacity_error
      else if ab_level_full (mu_side u) (mu_price u) a1 then Throw a1 level_capacity_error
      else Ok (ab_add (mu_side u) (mu_price u) (mu_qty u)
            (a1\<lparr>ab_orders := (ab_orders a1)(mu_order_id u \<mapsto> (mu_side u, mu_price u, mu_qty u))\<rparr>)) ())"

definition ab_modify_order :: "market_update \<Rightarrow> abs_book \<Rightarrow> (abs_book, unit) outcome" where
  "ab_modify_order u a = (case ab_orders a (mu_order_id u) of
     None \<Rightarrow> Ok a ()
   | Some (sd, p, q) \<Rightarrow>
       let a1 = a\<lparr>ab_orders := (ab_orders a)(mu_order_id u \<mapsto> (mu_side u, mu_price u, mu_qty u))\<rparr> in
       if sd \<noteq> mu_side u \<or> p \<noteq> mu_price u then
         if ab_level_full (mu_side u) (mu_price u) a then Throw a level_capacity_error
         else Ok (ab_add (mu_side u) (mu_price u) (mu_qty u) (ab_remove sd p q a1)) ()
       else if mu_qty u \<ge> q then
         if ab_level_full sd p a then Throw a level_capacity_error
         else Ok (ab_add sd p (mu_qty u - q) a1) ()
       else Ok (ab_remove sd p (q - mu_qty u) a1) ())"

definition ab_require_incremental :: "abs_book \<Rightarrow> (abs_book, unit) outcome" where
  "ab_require_incremental a =
     (if ab_mode a = Mode_DEPTH_SNAPSHOT
      then Throw a (Logic_error ''MarketOrderBook cannot mix depth snapshot and incremental updates'')
      else Ok (a\<lparr>ab_mode := Mode_INCREMENTAL\<rparr>) ())"

definition ab_on_update :: "market_update \<Rightarrow> abs_book \<Rightarrow> (abs_book, unit) outcome" where
  "ab_on_update u a = (case mu_type u of
     ADD \<Rightarrow> then_do (ab_require_incremental a) (\<lambda>a1 _. ab_add_order u a1)
   | MODIFY \<Rightarrow> then_do (ab_require_incremental a) (\<lambda>a1 _. ab_modify_order u a1)
   | CANCEL \<Rightarrow> then_do (ab_require_incremental a) (\<lambda>a1 _. Ok (ab_cancel (mu_order_id u) a1) ())
   | CLEAR \<Rightarrow> then_do (ab_require_incremental a) (\<lambda>a1 _.
       Ok (a1\<lparr>ab_orders := Map.empty, ab_bids := Map.empty, ab_asks := Map.empty\<rparr>) ())
   | DEPTH_SNAPSHOT \<Rightarrow>
       (if ab_mode a = Mode_INCREMENTAL
        then Throw a (Logic_error ''MarketOrderBook cannot mix incremental and depth snapshot updates'')
        else Ok (a\<lparr>ab_mode := Mode_DEPTH_SNAPSHOT, ab_depth := mu_depth u\<rparr>) ())
   | TRADE \<Rightarrow> ab_require_incremental a
   | _ \<Rightarrow> Ok a ())"

section \<open>The abstraction relation\<close>

definition order_view :: "book_order \<Rightarrow> side \<times> price \<times> qty" where
  "order_view ord = (bo_side ord, bo_price ord, bo_qty ord)"

definition orders_view :: "slot_array \<Rightarrow> book_order mem_pool \<Rightarrow> order_id \<rightharpoonup> side \<times> price \<times> qty" where
  "orders_view sl p = (\<lambda>oid. map_option (\<lambda>i. order_view (pool_get p i)) (slot_map kOrderSlots sl oid))"

text \<open>Order slots and order pool in step: each live block is the node of exactly one key.\<close>

definition orders_ok :: "slot_array \<Rightarrow> book_order mem_pool \<Rightarrow> bool" where
  "orders_ok sl p \<longleftrightarrow> slot_inv 16 sl \<and> pool_inv p \<and> mp_size p = kMaxBookOrderSlots \<and>
     pool_live p = ran (slot_map kOrderSlots sl) \<and>
     inj_on (slot_map kOrderSlots sl) (dom (slot_map kOrderSlots sl)) \<and>
     sa_live_count sl \<le> kMaxLiveOrderEntries"

definition sides_rel :: "market_order_book \<Rightarrow> abs_book \<Rightarrow> bool" where
  "sides_rel b a \<longleftrightarrow> ab_mode a = mob_mode b \<and> ab_depth a = mob_depth b \<and>
     (\<exists>xs. side_rel BUY (mob_bids b) xs \<and> ab_bids a = side_levels (mob_bids b) xs) \<and>
     (\<exists>ys. side_rel SELL (mob_asks b) ys \<and> ab_asks a = side_levels (mob_asks b) ys)"

definition book_rel :: "market_order_book \<Rightarrow> abs_book \<Rightarrow> bool" where
  "book_rel b a \<longleftrightarrow> sides_rel b a \<and> orders_ok (mob_order_slots b) (mob_order_pool b) \<and>
     ab_orders a = orders_view (mob_order_slots b) (mob_order_pool b)"

text \<open>Outcomes related: same result and exception, related states; never a fatal outcome.\<close>

definition outcome_rel :: "('s \<Rightarrow> 't \<Rightarrow> bool) \<Rightarrow> ('s, 'a) outcome \<Rightarrow> ('t, 'a) outcome \<Rightarrow> bool" where
  "outcome_rel R m m' = (case (m, m') of
     (Ok s x, Ok s' x') \<Rightarrow> R s s' \<and> x = x'
   | (Throw s e, Throw s' e') \<Rightarrow> R s s' \<and> e = e'
   | _ \<Rightarrow> False)"

lemma outcome_rel_simps [simp]:
  "outcome_rel R (Ok s x) (Ok s' x') \<longleftrightarrow> R s s' \<and> x = x'"
  "outcome_rel R (Throw s e) (Throw s' e') \<longleftrightarrow> R s s' \<and> e = e'"
  by (simp_all add: outcome_rel_def)

lemma outcome_rel_then_do:
  assumes "outcome_rel R m m'"
    and "\<And>s s' x. R s s' \<Longrightarrow> outcome_rel R (f s x) (f' s' x)"
  shows "outcome_rel R (then_do m f) (then_do m' f')"
  using assms by (cases m; cases m') (auto simp: outcome_rel_def)

section \<open>The orders\<close>

lemma orders_count: "orders_ok sl p \<Longrightarrow> card (dom (orders_view sl p)) = sa_live_count sl"
proof -
  assume "orders_ok sl p"
  then have "sa_live_count sl = card (dom (slot_map kOrderSlots sl))"
    by (intro os.count_law) (simp add: orders_ok_def)
  moreover have "dom (orders_view sl p) = dom (slot_map kOrderSlots sl)"
    by (auto simp: orders_view_def)
  ultimately show ?thesis by simp
qed

lemma orders_erase:
  assumes "orders_ok sl p"
  shows "\<exists>sl'. slot_erase kOrderSlots oid sl = Some (sl', slot_map kOrderSlots sl oid) \<and>
    (case slot_map kOrderSlots sl oid of
       None \<Rightarrow> orders_ok sl' p \<and> orders_view sl' p = orders_view sl p
     | Some i \<Rightarrow> \<exists>p'. deallocate i p = Ok p' () \<and> orders_ok sl' p' \<and>
         orders_view sl' p' = (orders_view sl p)(oid := None))"
proof -
  have inv: "slot_inv 16 sl" "pool_inv p" "pool_live p = ran (slot_map kOrderSlots sl)"
    "inj_on (slot_map kOrderSlots sl) (dom (slot_map kOrderSlots sl))"
    using assms by (simp_all add: orders_ok_def)
  obtain sl' where sl': "slot_erase kOrderSlots oid sl = Some (sl', slot_map kOrderSlots sl oid)"
      "slot_inv 16 sl'" "slot_map kOrderSlots sl' = (slot_map kOrderSlots sl)(oid := None)"
      "sa_live_count sl' = (if slot_map kOrderSlots sl oid = None then sa_live_count sl else sa_live_count sl - 1)"
    using os.remove_obtains[OF inv(1)] by metis
  show ?thesis
  proof (cases "slot_map kOrderSlots sl oid")
    case None
    then have "slot_map kOrderSlots sl' = slot_map kOrderSlots sl" by (simp add: sl'(3) fun_eq_iff)
    with None sl' assms show ?thesis by (simp add: orders_ok_def orders_view_def)
  next
    case (Some i)
    then have "i \<in> pool_live p" by (auto simp: inv(3) ran_def)
    then obtain p' where p': "deallocate i p = Ok p' ()" "pool_inv p'" "mp_size p' = mp_size p"
        "pool_live p' = pool_live p - {i}" "pool_get p' = pool_get p"
      using mp.dealloc_obtains[OF inv(2)] by blast
    have uniq: "slot_map kOrderSlots sl k = Some i \<longleftrightarrow> k = oid" for k
      using inv(4) Some by (auto simp: inj_on_def dom_def)
    have "(\<exists>k. k \<noteq> oid \<and> slot_map kOrderSlots sl k = Some j) \<longleftrightarrow> (\<exists>k. slot_map kOrderSlots sl k = Some j) \<and> j \<noteq> i" for j
      using uniq Some by (metis option.inject)
    then have "ran (slot_map kOrderSlots sl') = ran (slot_map kOrderSlots sl) - {i}"
      unfolding sl'(3) ran_def by auto
    moreover have "inj_on (slot_map kOrderSlots sl') (dom (slot_map kOrderSlots sl'))"
      using inv(4) by (auto simp: sl'(3) inj_on_def dom_def)
    ultimately have "orders_ok sl' p'"
      using assms p' sl' Some by (auto simp: orders_ok_def)
    moreover have "orders_view sl' p' = (orders_view sl p)(oid := None)"
      by (auto simp: orders_view_def sl'(3) p'(5) fun_eq_iff)
    ultimately show ?thesis using sl'(1) Some p'(1) by auto
  qed
qed

lemma orders_insert:
  assumes ok: "orders_ok sl p" and absent: "slot_map kOrderSlots sl oid = None"
    and room: "sa_live_count sl < kMaxLiveOrderEntries"
  shows "\<exists>p' i sl'. allocate ord p = Ok p' i \<and> slot_insert kOrderSlots oid i sl = Some sl' \<and>
    orders_ok sl' p' \<and> orders_view sl' p' = (orders_view sl p)(oid \<mapsto> order_view ord)"
proof -
  have inv: "slot_inv 16 sl" "pool_inv p" "pool_live p = ran (slot_map kOrderSlots sl)"
    "inj_on (slot_map kOrderSlots sl) (dom (slot_map kOrderSlots sl))" "mp_size p = kMaxBookOrderSlots"
    using ok by (simp_all add: orders_ok_def)
  have "sa_live_count sl = card (dom (slot_map kOrderSlots sl))"
    by (rule os.count_law[OF inv(1)])
  moreover have "card (ran (slot_map kOrderSlots sl)) \<le> card (dom (slot_map kOrderSlots sl))"
  proof -
    have "ran (slot_map kOrderSlots sl) = (\<lambda>k. the (slot_map kOrderSlots sl k)) ` dom (slot_map kOrderSlots sl)"
      by (force simp: ran_def dom_def)
    then show ?thesis by (simp add: card_image_le os.finite_law)
  qed
  ultimately have "card (pool_live p) < mp_size p"
    using room by (simp add: inv book_capacities)
  from mp.alloc_obtains[OF inv(2) this, of ord]
  obtain p' i where p': "allocate ord p = Ok p' i" "pool_inv p'" "mp_size p' = mp_size p"
      "i \<notin> pool_live p" "pool_live p' = insert i (pool_live p)" "pool_get p' = (pool_get p)(i := ord)" .
  have "sa_live_count sl + 1 < 2 ^ 16" using room by (simp add: book_capacities)
  from os.add_obtains[OF inv(1) absent this, of i]
  obtain sl' where sl': "slot_insert kOrderSlots oid i sl = Some sl'" "slot_inv 16 sl'"
      "slot_map kOrderSlots sl' = (slot_map kOrderSlots sl)(oid \<mapsto> i)" "sa_live_count sl' = sa_live_count sl + 1" .
  have fresh: "slot_map kOrderSlots sl k \<noteq> Some i" for k
    using p'(4) by (auto simp: inv(3) ran_def)
  have "ran (slot_map kOrderSlots sl') = insert i (ran (slot_map kOrderSlots sl))"
    using absent by (simp add: sl'(3))
  moreover have "inj_on (slot_map kOrderSlots sl') (dom (slot_map kOrderSlots sl'))"
    using inv(4) fresh by (auto simp: sl'(3) inj_on_def dom_def)
  ultimately have "orders_ok sl' p'"
    using ok p' sl' room by (simp add: orders_ok_def)
  moreover have "orders_view sl' p' = (orders_view sl p)(oid \<mapsto> order_view ord)"
    using fresh by (auto simp: orders_view_def sl'(3) p'(6) fun_eq_iff map_option_case split: option.splits)
  ultimately show ?thesis using p'(1) sl'(1) by blast
qed

lemma orders_put:
  assumes ok: "orders_ok sl p" and i: "slot_map kOrderSlots sl oid = Some i"
  shows "orders_ok sl (pool_put i x p)"
    and "orders_view sl (pool_put i x p) = (orders_view sl p)(oid \<mapsto> order_view x)"
proof -
  show "orders_ok sl (pool_put i x p)" using ok by (simp add: orders_ok_def)
  show "orders_view sl (pool_put i x p) = (orders_view sl p)(oid \<mapsto> order_view x)"
  proof
    fix k
    have "slot_map kOrderSlots sl k = Some i \<longleftrightarrow> k = oid"
      using ok i by (auto simp: orders_ok_def inj_on_def dom_def)
    then show "orders_view sl (pool_put i x p) k = ((orders_view sl p)(oid \<mapsto> order_view x)) k"
      by (cases "slot_map kOrderSlots sl k") (auto simp: orders_view_def)
  qed
qed

section \<open>The sides\<close>

lemma sides_rel_side:
  assumes "sides_rel b a"
  obtains xs where "side_rel sd (book_side_of sd b) xs" "ab_side sd a = side_levels (book_side_of sd b) xs"
  using assms side_rel_side[of sd SELL] unfolding sides_rel_def book_side_of_def ab_side_def
  by (cases "sd = BUY") auto

lemma sides_rel_put:
  assumes "sides_rel b a" "side_rel sd s xs"
  shows "sides_rel (put_book_side sd b s) (ab_put_side sd (side_levels s xs) a)"
  using assms side_rel_side[of sd SELL] unfolding sides_rel_def put_book_side_def ab_put_side_def
  by (cases "sd = BUY") auto

lemma put_book_side_frame [simp]:
  "mob_order_pool (put_book_side sd b s) = mob_order_pool b"
  "mob_order_slots (put_book_side sd b s) = mob_order_slots b"
  "put_book_side sd b (book_side_of sd b) = b"
  by (simp_all add: put_book_side_def book_side_of_def)

lemma ab_put_side_frame [simp]:
  "ab_orders (ab_put_side sd m a) = ab_orders a"
  "ab_side sd (ab_put_side sd m a) = m"
  by (simp_all add: ab_put_side_def ab_side_def)

lemma ab_ops_orders [simp]:
  "ab_orders (ab_add sd p q a) = ab_orders a" "ab_orders (ab_remove sd p q a) = ab_orders a"
  by (simp_all add: ab_add_def ab_remove_def)

lemma sides_remove:
  assumes "sides_rel b a"
  obtains b' where "on_side sd (removeFromLevel p q) b = Ok b' ()" "sides_rel b' (ab_remove sd p q a)"
    "mob_order_pool b' = mob_order_pool b" "mob_order_slots b' = mob_order_slots b"
proof -
  obtain xs where xs: "side_rel sd (book_side_of sd b) xs" "ab_side sd a = side_levels (book_side_of sd b) xs"
    using sides_rel_side[OF assms] .
  obtain s' xs' where s': "removeFromLevel p q (book_side_of sd b) = Ok s' ()" "side_rel sd s' xs'"
      "side_levels s' xs' = remove_qty p q (side_levels (book_side_of sd b) xs)"
    using removeFromLevel_correct[OF xs(1)] by blast
  show thesis
    using sides_rel_put[OF assms s'(2)] s' xs(2)
    by (intro that[of "put_book_side sd b s'"]) (simp_all add: on_side_def ab_remove_def)
qed

lemma sides_add:
  assumes "sides_rel b a" "\<not> ab_level_full sd p a"
  obtains b' where "on_side sd (addToLevel sd p q) b = Ok b' ()" "sides_rel b' (ab_add sd p q a)"
    "mob_order_pool b' = mob_order_pool b" "mob_order_slots b' = mob_order_slots b"
proof -
  obtain xs where xs: "side_rel sd (book_side_of sd b) xs" "ab_side sd a = side_levels (book_side_of sd b) xs"
    using sides_rel_side[OF assms(1)] .
  have room: "side_levels (book_side_of sd b) xs p = None \<Longrightarrow> length xs < kMaxLiveLevelEntriesPerSide"
    using assms(2) xs card_side_levels[OF xs(1)] by (simp add: ab_level_full_def)
  obtain s' xs' where s': "addToLevel sd p q (book_side_of sd b) = Ok s' ()" "side_rel sd s' xs'"
      "side_levels s' xs' = add_qty p q (side_levels (book_side_of sd b) xs)"
    using addToLevel_correct[OF xs(1) room, where qty = q] by blast
  show thesis
    using sides_rel_put[OF assms(1) s'(2)] s' xs(2)
    by (intro that[of "put_book_side sd b s'"]) (simp_all add: on_side_def ab_add_def)
qed

lemma sides_add_full:
  assumes "sides_rel b a" "ab_level_full sd p a"
  shows "on_side sd (addToLevel sd p q) b = Throw b level_capacity_error"
proof -
  obtain xs where xs: "side_rel sd (book_side_of sd b) xs" "ab_side sd a = side_levels (book_side_of sd b) xs"
    using sides_rel_side[OF assms(1)] .
  then show ?thesis
    using addToLevel_full[OF xs(1), of p q] assms(2) card_side_levels[OF xs(1)]
    by (simp add: ab_level_full_def on_side_def)
qed

lemma ab_side_orders [simp]:
  "ab_side sd (a\<lparr>ab_orders := m\<rparr>) = ab_side sd a"
  "ab_level_full sd p (a\<lparr>ab_orders := m\<rparr>) = ab_level_full sd p a"
  by (simp_all add: ab_level_full_def ab_side_def)

lemma sides_require:
  assumes "sides_rel b a"
  shows "on_side sd (requireLevelCapacity p) b =
    (if ab_level_full sd p a then Throw b level_capacity_error else Ok b ())"
proof -
  obtain xs where xs: "side_rel sd (book_side_of sd b) xs" "ab_side sd a = side_levels (book_side_of sd b) xs"
    using sides_rel_side[OF assms] .
  show ?thesis
    using requireLevelCapacity_correct[OF xs(1), of p] xs(2) card_side_levels[OF xs(1)]
    by (simp add: on_side_def ab_level_full_def)
qed

lemma sides_rel_frame [simp]:
  "sides_rel (b\<lparr>mob_order_pool := p\<rparr>) a = sides_rel b a"
  "sides_rel (b\<lparr>mob_order_slots := sl\<rparr>) a = sides_rel b a"
  "sides_rel (b\<lparr>mob_bbo := x\<rparr>) a = sides_rel b a"
  "sides_rel b (a\<lparr>ab_orders := m\<rparr>) = sides_rel b a"
  by (simp_all add: sides_rel_def)

section \<open>Every update is the abstract update\<close>

lemma book_relD: "book_rel b a \<Longrightarrow> sides_rel b a" "book_rel b a \<Longrightarrow> orders_ok (mob_order_slots b) (mob_order_pool b)"
  "book_rel b a \<Longrightarrow> ab_orders a = orders_view (mob_order_slots b) (mob_order_pool b)"
  by (simp_all add: book_rel_def)

lemma cancel_sim:
  assumes r: "book_rel b a"
  shows "outcome_rel book_rel (book_cancelOrder oid b) (Ok (ab_cancel oid a) ())"
proof -
  let ?sl = "mob_order_slots b" and ?p = "mob_order_pool b"
  note R = book_relD[OF r]
  obtain sl' where sl': "slot_erase kOrderSlots oid ?sl = Some (sl', slot_map kOrderSlots ?sl oid)"
    and c: "case slot_map kOrderSlots ?sl oid of
       None \<Rightarrow> orders_ok sl' ?p \<and> orders_view sl' ?p = orders_view ?sl ?p
     | Some i \<Rightarrow> \<exists>p'. deallocate i ?p = Ok p' () \<and> orders_ok sl' p' \<and>
         orders_view sl' p' = (orders_view ?sl ?p)(oid := None)"
    using orders_erase[OF R(2)] by blast
  show ?thesis
  proof (cases "slot_map kOrderSlots ?sl oid")
    case None
    then have "ab_orders a oid = None" using R(3) by (simp add: orders_view_def)
    with None sl' c R show ?thesis
      by (simp add: book_cancelOrder_def ab_cancel_def book_rel_def)
  next
    case (Some i)
    let ?o = "pool_get ?p i"
    have ao: "ab_orders a oid = Some (bo_side ?o, bo_price ?o, bo_qty ?o)"
      using R(3) Some by (simp add: orders_view_def order_view_def)
    obtain p' where p': "deallocate i ?p = Ok p' ()" "orders_ok sl' p'"
        "orders_view sl' p' = (orders_view ?sl ?p)(oid := None)"
      using c Some by auto
    let ?b1 = "b\<lparr>mob_order_slots := sl'\<rparr>" and ?a1 = "a\<lparr>ab_orders := (ab_orders a)(oid := None)\<rparr>"
    have "sides_rel ?b1 ?a1" using R(1) by simp
    then obtain b2 where b2: "on_side (bo_side ?o) (removeFromLevel (bo_price ?o) (bo_qty ?o)) ?b1 = Ok b2 ()"
        "sides_rel b2 (ab_remove (bo_side ?o) (bo_price ?o) (bo_qty ?o) ?a1)"
        "mob_order_pool b2 = ?p" "mob_order_slots b2 = sl'"
      by (rule sides_remove) auto
    have "book_cancelOrder oid b = Ok (b2\<lparr>mob_order_pool := p'\<rparr>) ()"
      using sl' Some b2 p'(1) by (simp add: book_cancelOrder_def Let_def)
    moreover have "book_rel (b2\<lparr>mob_order_pool := p'\<rparr>) (ab_cancel oid a)"
      using b2 p' R(3) ao by (simp add: book_rel_def ab_cancel_def)
    ultimately show ?thesis by simp
  qed
qed

lemma ab_cancel_absent: "ab_orders (ab_cancel oid a) oid = None"
  by (simp add: ab_cancel_def split: option.splits)

lemma orders_view_None: "orders_view sl p oid = None \<longleftrightarrow> slot_map kOrderSlots sl oid = None"
  by (simp add: orders_view_def)

lemma add_sim:
  assumes r: "book_rel b a"
  shows "outcome_rel book_rel (book_addOrder u b) (ab_add_order u a)"
proof -
  let ?oid = "mu_order_id u" and ?sd = "mu_side u" and ?p = "mu_price u" and ?q = "mu_qty u"
  let ?a1 = "ab_cancel ?oid a"
  obtain b1 where b1: "book_cancelOrder ?oid b = Ok b1 ()" "book_rel b1 ?a1"
    using cancel_sim[OF r, of ?oid] by (cases "book_cancelOrder ?oid b") (auto simp: outcome_rel_def)
  note R = book_relD[OF b1(2)]
  have cnt: "card (dom (ab_orders ?a1)) = sa_live_count (mob_order_slots b1)"
    using orders_count[OF R(2)] R(3) by simp
  show ?thesis
  proof (cases "sa_live_count (mob_order_slots b1) \<ge> kMaxLiveOrderEntries")
    case True
    with b1 cnt show ?thesis by (simp add: book_addOrder_def ab_add_order_def Let_def)
  next
    case full: False
    show ?thesis
    proof (cases "ab_level_full ?sd ?p ?a1")
      case True
      with full b1 cnt show ?thesis
        by (simp add: book_addOrder_def ab_add_order_def Let_def sides_require[OF R(1)])
    next
      case lv: False
      let ?ord = "\<lparr>bo_order_id = ?oid, bo_price = ?p, bo_qty = ?q, bo_side = ?sd\<rparr>"
      have absent: "slot_map kOrderSlots (mob_order_slots b1) ?oid = None"
        using ab_cancel_absent[of ?oid a] R(3) orders_view_None by metis
      obtain p' i sl' where n: "allocate ?ord (mob_order_pool b1) = Ok p' i"
          "slot_insert kOrderSlots ?oid i (mob_order_slots b1) = Some sl'" "orders_ok sl' p'"
          "orders_view sl' p' = (orders_view (mob_order_slots b1) (mob_order_pool b1))(?oid \<mapsto> order_view ?ord)"
        using orders_insert[OF R(2) absent] full by (meson not_le)
      let ?b3 = "b1\<lparr>mob_order_pool := p', mob_order_slots := sl'\<rparr>"
      let ?a3 = "?a1\<lparr>ab_orders := (ab_orders ?a1)(?oid \<mapsto> (?sd, ?p, ?q))\<rparr>"
      have "sides_rel ?b3 ?a3" "\<not> ab_level_full ?sd ?p ?a3"
        using R(1) lv by simp_all
      then obtain b4 where b4: "on_side ?sd (addToLevel ?sd ?p ?q) ?b3 = Ok b4 ()"
          "sides_rel b4 (ab_add ?sd ?p ?q ?a3)" "mob_order_pool b4 = p'" "mob_order_slots b4 = sl'"
        by (rule sides_add) auto
      have "book_addOrder u b = Ok b4 ()"
        using b1(1) full lv n b4(1) by (simp add: book_addOrder_def sides_require[OF R(1)])
      moreover have "ab_add_order u a = Ok (ab_add ?sd ?p ?q ?a3) ()"
        using full lv cnt by (simp add: ab_add_order_def Let_def)
      moreover have "book_rel b4 (ab_add ?sd ?p ?q ?a3)"
        using b4 n R(3) by (simp add: book_rel_def order_view_def)
      ultimately show ?thesis by simp
    qed
  qed
qed

text \<open>Removing quantity never makes a side fuller; removing the level itself makes room.\<close>

lemma remove_qty_room:
  assumes "finite (dom m)" "m p' = None \<longrightarrow> card (dom m) < n" "card (dom m) \<le> n"
    "remove_qty p q m p' = None"
  shows "card (dom (remove_qty p q m)) < n"
proof (cases "m p'")
  case None
  have "dom (remove_qty p q m) \<subseteq> dom m"
    by (auto simp: remove_qty_def split: option.splits if_splits)
  with assms None show ?thesis by (metis card_mono le_less_trans)
next
  case (Some v)
  with assms(4) have "remove_qty p q m = m(p := None)" "m p \<noteq> None"
    by (auto simp: remove_qty_def split: option.splits if_splits)
  then have "dom (remove_qty p q m) = dom m - {p}" "p \<in> dom m" by auto
  then have "card (dom (remove_qty p q m)) < card (dom m)"
    using assms(1) by (simp only:) (rule card_Diff1_less)
  with assms(3) show ?thesis by simp
qed

lemma modify_sim:
  assumes r: "book_rel b a"
  shows "outcome_rel book_rel (book_modifyOrder u b) (ab_modify_order u a)"
proof -
  let ?oid = "mu_order_id u" and ?sd = "mu_side u" and ?p = "mu_price u" and ?q = "mu_qty u"
  let ?sl = "mob_order_slots b" and ?pool = "mob_order_pool b"
  note R = book_relD[OF r]
  have "slot_inv 16 ?sl" using R(2) by (simp add: orders_ok_def)
  then have find: "slot_find kOrderSlots ?oid ?sl = Some (slot_map kOrderSlots ?sl ?oid)"
    by (rule os.lookup_law)
  show ?thesis
  proof (cases "slot_map kOrderSlots ?sl ?oid")
    case None
    then have "ab_orders a ?oid = None" using R(3) by (simp add: orders_view_def)
    with None find r show ?thesis by (simp add: book_modifyOrder_def ab_modify_order_def)
  next
    case (Some i)
    let ?o = "pool_get ?pool i"
    let ?osd = "bo_side ?o" and ?opr = "bo_price ?o" and ?oq = "bo_qty ?o"
    let ?a1 = "a\<lparr>ab_orders := (ab_orders a)(?oid \<mapsto> (?sd, ?p, ?q))\<rparr>"
    have ao: "ab_orders a ?oid = Some (?osd, ?opr, ?oq)"
      using R(3) Some by (simp add: orders_view_def order_view_def)
    have S1: "sides_rel b ?a1" using R(1) by simp
    text \<open>Once the sides are done, writing the order's fields completes the relation.\<close>
    have finish: "outcome_rel book_rel (Ok (update_order i (\<lambda>x. x\<lparr>bo_qty := ?q\<rparr>) b') ()) (Ok a' ())"
      if "sides_rel b' a'" "ab_orders a' = (ab_orders a)(?oid \<mapsto> (?sd, ?p, ?q))"
        "mob_order_slots b' = ?sl" "mob_order_pool b' = ?pool \<or> mob_order_pool b' = pool_put i (?o\<lparr>bo_side := ?sd, bo_price := ?p\<rparr>) ?pool"
        "mob_order_pool b' = ?pool \<longrightarrow> ?osd = ?sd \<and> ?opr = ?p" for b' a'
    proof -
      let ?x = "pool_get (mob_order_pool b') i\<lparr>bo_qty := ?q\<rparr>"
      have x: "order_view ?x = (?sd, ?p, ?q)"
        using that(4,5) by (auto simp: order_view_def)
      have ok': "orders_ok ?sl (mob_order_pool b')"
        using that(4) R(2) orders_put(1)[OF R(2) Some] by auto
      have view': "(orders_view ?sl (mob_order_pool b'))(?oid \<mapsto> v) = (orders_view ?sl ?pool)(?oid \<mapsto> v)" for v
        using that(4) orders_put(2)[OF R(2) Some] by auto
      show ?thesis
        using that(1-3) orders_put[OF ok' Some, of ?x] R(3) view' x
        by (simp add: book_rel_def update_order_def)
    qed
    show ?thesis
    proof (cases "?osd \<noteq> ?sd \<or> ?opr \<noteq> ?p")
      case True
      show ?thesis
      proof (cases "ab_level_full ?sd ?p a")
        case full: True
        with True find Some ao r show ?thesis
          by (simp add: book_modifyOrder_def ab_modify_order_def Let_def sides_require[OF R(1)])
      next
        case room: False
        obtain b2 where b2: "on_side ?osd (removeFromLevel ?opr ?oq) b = Ok b2 ()"
            "sides_rel b2 (ab_remove ?osd ?opr ?oq ?a1)" "mob_order_pool b2 = ?pool" "mob_order_slots b2 = ?sl"
          using sides_remove[OF S1] by blast
        let ?b3 = "update_order i (\<lambda>x. x\<lparr>bo_side := ?sd, bo_price := ?p\<rparr>) b2"
        have S3: "sides_rel ?b3 (ab_remove ?osd ?opr ?oq ?a1)"
          using b2(2) by (simp add: update_order_def)
        have room3: "\<not> ab_level_full ?sd ?p (ab_remove ?osd ?opr ?oq ?a1)"
        proof -
          obtain xs where xs: "side_rel ?sd (book_side_of ?sd b) xs" "ab_side ?sd a = side_levels (book_side_of ?sd b) xs"
            using sides_rel_side[OF R(1)] .
          have m: "finite (dom (ab_side ?sd a))" "card (dom (ab_side ?sd a)) \<le> kMaxLiveLevelEntriesPerSide"
            using xs card_side_levels[OF xs(1)] by (simp_all add: side_levels_def finite_dom_map_of side_rel_def)
          show ?thesis
          proof (cases "(?sd = BUY) = (?osd = BUY)")
            case True
            then have "ab_side ?sd (ab_remove ?osd ?opr ?oq ?a1) = remove_qty ?opr ?oq (ab_side ?sd a)"
              by (simp add: ab_remove_def ab_side_def ab_put_side_def)
            moreover have "ab_side ?sd a ?p = None \<longrightarrow> card (dom (ab_side ?sd a)) < kMaxLiveLevelEntriesPerSide"
              using room by (auto simp: ab_level_full_def not_le)
            ultimately show ?thesis
              using remove_qty_room[OF m(1) _ m(2), of ?p ?opr ?oq] by (auto simp: ab_level_full_def)
          next
            case False
            then have "ab_side ?sd (ab_remove ?osd ?opr ?oq ?a1) = ab_side ?sd a"
              by (auto simp: ab_remove_def ab_side_def ab_put_side_def)
            with room show ?thesis by (simp add: ab_level_full_def)
          qed
        qed
        obtain b4 where b4: "on_side ?sd (addToLevel ?sd ?p ?q) ?b3 = Ok b4 ()"
            "sides_rel b4 (ab_add ?sd ?p ?q (ab_remove ?osd ?opr ?oq ?a1))"
            "mob_order_pool b4 = mob_order_pool ?b3" "mob_order_slots b4 = mob_order_slots ?b3"
          using sides_add[OF S3 room3] by blast
        have "book_modifyOrder u b = Ok (update_order i (\<lambda>x. x\<lparr>bo_qty := ?q\<rparr>) b4) ()"
          using True room find Some b2 b4 by (simp add: book_modifyOrder_def Let_def sides_require[OF R(1)])
        moreover have "ab_modify_order u a = Ok (ab_add ?sd ?p ?q (ab_remove ?osd ?opr ?oq ?a1)) ()"
          using True room ao by (simp add: ab_modify_order_def Let_def)
        moreover have "mob_order_pool b4 = pool_put i (?o\<lparr>bo_side := ?sd, bo_price := ?p\<rparr>) ?pool"
          using b4(3) b2(3) by (simp add: update_order_def)
        moreover have "pool_put i (?o\<lparr>bo_side := ?sd, bo_price := ?p\<rparr>) ?pool \<noteq> ?pool"
        proof
          assume "pool_put i (?o\<lparr>bo_side := ?sd, bo_price := ?p\<rparr>) ?pool = ?pool"
          from arg_cong[OF this, of "\<lambda>p. pool_get p i"] have "?o\<lparr>bo_side := ?sd, bo_price := ?p\<rparr> = ?o" by simp
          from arg_cong[OF this, of bo_side] arg_cong[OF this, of bo_price] True show False by simp
        qed
        moreover have "mob_order_slots b4 = ?sl"
          using b4(4) b2(4) by (simp add: update_order_def)
        ultimately show ?thesis
          using finish[OF b4(2)] by simp
      qed
    next
      case False
      then have same: "?sd = ?osd" "?p = ?opr" by auto
      show ?thesis
      proof (cases "?q \<ge> ?oq")
        case True
        show ?thesis
        proof (cases "ab_level_full ?osd ?opr a")
          case full: True
          have "book_modifyOrder u b = Throw b level_capacity_error"
            unfolding book_modifyOrder_def same Let_def
            using True find Some sides_add_full[OF R(1) full] by simp
          moreover have "ab_modify_order u a = Throw a level_capacity_error"
            unfolding ab_modify_order_def same Let_def using True full ao by simp
          ultimately show ?thesis using r by simp
        next
          case False
          then have "\<not> ab_level_full ?osd ?opr ?a1" by simp
          then obtain b2 where b2: "on_side ?osd (addToLevel ?osd ?opr (?q - ?oq)) b = Ok b2 ()"
              "sides_rel b2 (ab_add ?osd ?opr (?q - ?oq) ?a1)" "mob_order_pool b2 = ?pool" "mob_order_slots b2 = ?sl"
            by (rule sides_add[OF S1])
          have "book_modifyOrder u b = Ok (update_order i (\<lambda>x. x\<lparr>bo_qty := ?q\<rparr>) b2) ()"
            unfolding book_modifyOrder_def same Let_def using True find Some b2(1) by simp
          moreover have "ab_modify_order u a = Ok (ab_add ?osd ?opr (?q - ?oq) ?a1) ()"
            unfolding ab_modify_order_def ao option.case prod.case Let_def same
            using True False by (simp only: simp_thms if_True if_False)
          ultimately show ?thesis
            by (simp only:) (rule finish[OF b2(2)], simp_all add: b2(3,4) same[symmetric])
        qed
      next
        case False
        obtain b2 where b2: "on_side ?osd (removeFromLevel ?opr (?oq - ?q)) b = Ok b2 ()"
            "sides_rel b2 (ab_remove ?osd ?opr (?oq - ?q) ?a1)" "mob_order_pool b2 = ?pool" "mob_order_slots b2 = ?sl"
          using sides_remove[OF S1] by blast
        have "book_modifyOrder u b = Ok (update_order i (\<lambda>x. x\<lparr>bo_qty := ?q\<rparr>) b2) ()"
          unfolding book_modifyOrder_def same Let_def using False find Some b2(1) by simp
        moreover have "ab_modify_order u a = Ok (ab_remove ?osd ?opr (?oq - ?q) ?a1) ()"
          unfolding ab_modify_order_def ao option.case prod.case Let_def same
          using False by (simp only: simp_thms if_True if_False)
        ultimately show ?thesis
          by (simp only:) (rule finish[OF b2(2)], simp_all add: b2(3,4) same[symmetric])
      qed
    qed
  qed
qed

lemma deallocate_all_free: "deallocate_all is p = mp.free_all is p"
  by (induction "is" p rule: deallocate_all.induct) simp_all

lemma sides_clear:
  assumes "sides_rel b a"
  obtains b' where "on_side sd clearSideLevels b = Ok b' ()" "sides_rel b' (ab_put_side sd Map.empty a)"
    "mob_order_pool b' = mob_order_pool b" "mob_order_slots b' = mob_order_slots b"
proof -
  obtain xs where xs: "side_rel sd (book_side_of sd b) xs"
    using sides_rel_side[OF assms] .
  obtain s' where s': "clearSideLevels (book_side_of sd b) = Ok s' ()" "side_rel sd s' []"
    using clearSideLevels_correct[OF xs] by blast
  show thesis
    using sides_rel_put[OF assms s'(2)] s'(1)
    by (intro that[of "put_book_side sd b s'"]) (simp_all add: on_side_def side_levels_def level_list_def)
qed

lemma clear_sim:
  assumes r: "book_rel b a"
  shows "outcome_rel book_rel (clearIncrementalBook b)
    (Ok (a\<lparr>ab_orders := Map.empty, ab_bids := Map.empty, ab_asks := Map.empty\<rparr>) ())"
proof -
  let ?sl = "mob_order_slots b" and ?p = "mob_order_pool b"
  note R = book_relD[OF r]
  have inv: "slot_inv 16 ?sl" "pool_inv ?p" "pool_live ?p = ran (slot_map kOrderSlots ?sl)"
    "inj_on (slot_map kOrderSlots ?sl) (dom (slot_map kOrderSlots ?sl))" "mp_size ?p = kMaxBookOrderSlots"
    using R(2) by (simp_all add: orders_ok_def)
  have nodes: "set (slot_nodes kOrderSlots ?sl) = pool_live ?p" "distinct (slot_nodes kOrderSlots ?sl)"
    using set_slot_nodes[OF _ inv(1), folded kOrderSlots_def] inv(3,4) by simp_all
  obtain p' where p': "deallocate_all (slot_nodes kOrderSlots ?sl) ?p = Ok p' ()" "pool_inv p'"
      "mp_size p' = mp_size ?p" "pool_live p' = {}"
    using post_False_E[OF mp.free_all_ok[OF inv(2) nodes(2)]] nodes(1)
    by (auto simp: deallocate_all_free)
  let ?b2 = "b\<lparr>mob_order_pool := p', mob_order_slots := slot_clear ?sl\<rparr>"
  have "sides_rel ?b2 a" using R(1) by simp
  then obtain b3 where b3: "on_side BUY clearSideLevels ?b2 = Ok b3 ()" "sides_rel b3 (ab_put_side BUY Map.empty a)"
      "mob_order_pool b3 = p'" "mob_order_slots b3 = slot_clear ?sl"
    by (rule sides_clear) auto
  obtain b4 where b4: "on_side SELL clearSideLevels b3 = Ok b4 ()"
      "sides_rel b4 (ab_put_side SELL Map.empty (ab_put_side BUY Map.empty a))"
      "mob_order_pool b4 = p'" "mob_order_slots b4 = slot_clear ?sl"
    by (rule sides_clear[OF b3(2), of SELL]) (use b3 in auto)
  have new: "slot_map kOrderSlots slot_array_new = Map.empty" "slot_inv 16 slot_array_new"
    using slot_new_correct[of 16, folded kOrderSlots_def] by auto
  have "orders_ok slot_array_new p'" "orders_view slot_array_new p' = Map.empty"
    using p' inv(5) new by (simp_all add: orders_ok_def orders_view_def slot_array_new_def)
  moreover have "ab_put_side SELL Map.empty (ab_put_side BUY Map.empty a) = a\<lparr>ab_bids := Map.empty, ab_asks := Map.empty\<rparr>"
    by (simp add: ab_put_side_def)
  ultimately have "book_rel (b4\<lparr>mob_bbo := bbo_init\<rparr>)
      (a\<lparr>ab_orders := Map.empty, ab_bids := Map.empty, ab_asks := Map.empty\<rparr>)"
    using b4 by (simp add: book_rel_def slot_clear_new sides_rel_def)
  moreover have "clearIncrementalBook b = Ok (b4\<lparr>mob_bbo := bbo_init\<rparr>) ()"
    using p'(1) b3(1) b4(1) by (simp add: clearIncrementalBook_def Let_def)
  ultimately show ?thesis by simp
qed

lemma book_rel_bbo [simp]:
  "book_rel (b\<lparr>mob_bbo := x\<rparr>) a = book_rel b a"
  "book_rel (updateBBOFromIncrementalBook b) a = book_rel b a"
  "book_rel (updateBBOFromDepthSnapshot b) a = book_rel b a"
  by (simp_all add: book_rel_def updateBBOFromIncrementalBook_def updateBBOFromDepthSnapshot_def)

lemma book_rel_mode:
  "book_rel b a \<Longrightarrow> book_rel (b\<lparr>mob_mode := m\<rparr>) (a\<lparr>ab_mode := m\<rparr>)"
  "book_rel b a \<Longrightarrow> book_rel (b\<lparr>mob_depth := d, mob_mode := m\<rparr>) (a\<lparr>ab_mode := m, ab_depth := d\<rparr>)"
  "book_rel b a \<Longrightarrow> ab_mode a = mob_mode b"
  by (auto simp: book_rel_def sides_rel_def)

lemma require_sim:
  "book_rel b a \<Longrightarrow> outcome_rel book_rel (requireIncrementalMode b) (ab_require_incremental a)"
  by (simp add: requireIncrementalMode_def ab_require_incremental_def book_rel_mode)

lemma incremental_sim:
  assumes "book_rel b a" "\<And>b a. book_rel b a \<Longrightarrow> outcome_rel book_rel (f b) (g a)"
  shows "outcome_rel book_rel (incremental f b) (then_do (ab_require_incremental a) (\<lambda>a1 _. g a1))"
  unfolding incremental_def
proof (rule outcome_rel_then_do[OF require_sim[OF assms(1)]])
  fix b a
  assume "book_rel b a"
  then have "outcome_rel book_rel (f b) (g a)" by (rule assms(2))
  then show "outcome_rel book_rel (then_do (f b) (\<lambda>b2 _. Ok (updateBBOFromIncrementalBook b2) ())) (g a)"
    by (cases "f b"; cases "g a") (auto simp: outcome_rel_def)
qed

lemma book_update_sim:
  assumes "book_rel b a"
  shows "outcome_rel book_rel (book_onMarketUpdate u b) (ab_on_update u a)"
proof (cases "mu_type u")
  case ADD
  with incremental_sim[OF assms add_sim] show ?thesis
    by (simp add: book_onMarketUpdate_def ab_on_update_def)
next
  case MODIFY
  with incremental_sim[OF assms modify_sim] show ?thesis
    by (simp add: book_onMarketUpdate_def ab_on_update_def)
next
  case CANCEL
  with incremental_sim[OF assms cancel_sim] show ?thesis
    by (simp add: book_onMarketUpdate_def ab_on_update_def)
next
  case CLEAR
  with incremental_sim[OF assms clear_sim] show ?thesis
    by (simp add: book_onMarketUpdate_def ab_on_update_def)
next
  case DEPTH_SNAPSHOT
  with assms book_rel_mode[OF assms] show ?thesis
    by (auto simp: book_onMarketUpdate_def ab_on_update_def requireDepthSnapshotMode_def onDepthSnapshot_def
        Let_def book_rel_def sides_rel_def updateBBOFromDepthSnapshot_def)
next
  case TRADE
  with require_sim[OF assms] show ?thesis
    by (simp add: book_onMarketUpdate_def ab_on_update_def)
qed (use assms in \<open>simp_all add: book_onMarketUpdate_def ab_on_update_def\<close>)

text \<open>C6: The pooled book refines the abstract one: on every update, from related states, it does
  what the abstract update does, with the same exception where that one throws, and it never
  fails an assertion, follows a null pointer or spins.\<close>

theorem book_refines_abstract:
  assumes "book_rel b a"
  shows "outcome_rel book_rel (book_onMarketUpdate u b) (ab_on_update u a)"
  using assms by (rule book_update_sim)

section \<open>Best bid and offer\<close>

text \<open>Price and quantity of the best level, or the invalid markers of an empty side.\<close>

definition is_best :: "side \<Rightarrow> (price \<rightharpoonup> qty) \<Rightarrow> price \<Rightarrow> qty \<Rightarrow> bool" where
  "is_best sd m p q \<longleftrightarrow>
     (if m = Map.empty then p = Price_INVALID \<and> q = Qty_INVALID
      else m p = Some q \<and> (\<forall>k\<in>dom m. k \<noteq> p \<longrightarrow> isBetterLevelPrice sd p k))"

lemma head_is_best:
  assumes "side_rel sd s xs"
  shows "is_best sd (side_levels s xs) (fst (head_price_qty s)) (snd (head_price_qty s))"
  using side_head_best[OF assms] by (auto simp: is_best_def head_price_qty_def split: option.splits)

lemma updateBBO_is_best:
  assumes "book_rel b a"
  shows "is_best BUY (ab_bids a) (bbo_bid_price (mob_bbo (updateBBOFromIncrementalBook b)))
           (bbo_bid_qty (mob_bbo (updateBBOFromIncrementalBook b)))"
    and "is_best SELL (ab_asks a) (bbo_ask_price (mob_bbo (updateBBOFromIncrementalBook b)))
           (bbo_ask_qty (mob_bbo (updateBBOFromIncrementalBook b)))"
  using assms head_is_best by (auto simp: book_rel_def sides_rel_def updateBBOFromIncrementalBook_def)

lemma incremental_Ok:
  assumes "incremental f b = Ok b' ()"
  obtains b1 b2 where "requireIncrementalMode b = Ok b1 ()" "f b1 = Ok b2 ()"
    "b' = updateBBOFromIncrementalBook b2"
proof -
  from assms obtain b1 where b1: "requireIncrementalMode b = Ok b1 ()"
    by (cases "requireIncrementalMode b") (auto simp: incremental_def)
  with assms obtain b2 where "f b1 = Ok b2 ()" "b' = updateBBOFromIncrementalBook b2"
    by (cases "f b1") (auto simp: incremental_def)
  with b1 show thesis by (rule that)
qed

text \<open>C18: After an incremental update the BBO is, on each side, the best price of the abstract book
  with its aggregated quantity, or invalid where the side is empty.\<close>

theorem bbo_is_best:
  assumes r: "book_rel b a" and t: "mu_type u \<in> {ADD, MODIFY, CANCEL, CLEAR}"
    and ok: "book_onMarketUpdate u b = Ok b' ()"
  shows "\<exists>a'. ab_on_update u a = Ok a' () \<and> book_rel b' a' \<and>
    is_best BUY (ab_bids a') (bbo_bid_price (mob_bbo b')) (bbo_bid_qty (mob_bbo b')) \<and>
    is_best SELL (ab_asks a') (bbo_ask_price (mob_bbo b')) (bbo_ask_qty (mob_bbo b'))"
proof -
  obtain a' where a': "ab_on_update u a = Ok a' ()" "book_rel b' a'"
    using book_update_sim[OF r, of u] ok by (cases "ab_on_update u a") (auto simp: outcome_rel_def)
  obtain f where "incremental f b = Ok b' ()"
    using t ok by (auto simp: book_onMarketUpdate_def)
  then obtain b2 where b2: "b' = updateBBOFromIncrementalBook b2" by (rule incremental_Ok)
  with a'(2) have "book_rel b2 a'" by simp
  from updateBBO_is_best[OF this] a' show ?thesis unfolding b2 by blast
qed

section \<open>The fresh book\<close>

definition ab_empty :: abs_book where
  "ab_empty = \<lparr>ab_mode = Mode_UNINITIALIZED, ab_depth = depth_snapshot_init, ab_orders = Map.empty,
               ab_bids = Map.empty, ab_asks = Map.empty\<rparr>"

lemma book_new_rel:
  assumes "market_order_book_new ticker = Inr b"
  shows "book_rel b ab_empty"
proof -
  obtain op lp where p: "mem_pool_new book_order_init kMaxBookOrderSlots = Inr op"
      "mem_pool_new level_init kMaxBookLevelSlotsPerSide = Inr lp"
      "b = \<lparr>mob_ticker_id = ticker, mob_mode = Mode_UNINITIALIZED, mob_depth = depth_snapshot_init,
             mob_bbo = bbo_init, mob_order_pool = op, mob_order_slots = slot_array_new,
             mob_bids = \<lparr>bs_slots = slot_array_new, bs_pool = lp, bs_head = None\<rparr>,
             mob_asks = \<lparr>bs_slots = slot_array_new, bs_pool = lp, bs_head = None\<rparr>\<rparr>"
    using assms by (auto simp: market_order_book_new_def split: sum.splits)
  have "orders_ok slot_array_new op" "orders_view slot_array_new op = Map.empty"
    using pool_new_inv[OF p(1)] slot_new_correct[of 16, folded kOrderSlots_def]
    by (simp_all add: orders_ok_def orders_view_def slot_array_new_def)
  with side_new[OF p(2)] show ?thesis
    by (auto simp: book_rel_def sides_rel_def p(3) ab_empty_def side_levels_def level_list_def intro!: exI[of _ "[]"])
qed

lemma book_new_ok: "\<exists>b. market_order_book_new ticker = Inr b"
  by (simp add: market_order_book_new_def mem_pool_new_def book_capacities)

text \<open>A book that takes one bid.\<close>

definition sample_add :: market_update where
  "sample_add = market_update_init\<lparr>mu_type := ADD, mu_order_id := 7, mu_side := BUY, mu_price := 100, mu_qty := 5\<rparr>"

lemma book_refines_abstract_witness:
  "\<exists>b b'. market_order_book_new 0 = Inr b \<and> book_onMarketUpdate sample_add b = Ok b' () \<and>
     book_rel b' (ab_empty\<lparr>ab_mode := Mode_INCREMENTAL, ab_orders := [7 \<mapsto> (BUY, 100, 5)], ab_bids := [100 \<mapsto> 5]\<rparr>)"
proof -
  obtain b where b: "market_order_book_new 0 = Inr b" using book_new_ok by blast
  have "ab_on_update sample_add ab_empty
      = Ok (ab_empty\<lparr>ab_mode := Mode_INCREMENTAL, ab_orders := [7 \<mapsto> (BUY, 100, 5)], ab_bids := [100 \<mapsto> 5]\<rparr>) ()"
    by (simp add: ab_on_update_def sample_add_def market_update_init_def ab_empty_def ab_require_incremental_def
        ab_add_order_def ab_cancel_def ab_level_full_def ab_side_def ab_add_def ab_put_side_def add_qty_def
        book_capacities Let_def)
  with book_refines_abstract[OF book_new_rel[OF b], of sample_add] b show ?thesis
    by (cases "book_onMarketUpdate sample_add b") (auto simp: outcome_rel_def)
qed

lemma bbo_is_best_witness:
  "\<exists>b b'. market_order_book_new 0 = Inr b \<and> book_onMarketUpdate sample_add b = Ok b' () \<and>
     bbo_bid_price (mob_bbo b') = 100 \<and> bbo_bid_qty (mob_bbo b') = 5 \<and> bbo_ask_price (mob_bbo b') = Price_INVALID"
proof -
  obtain b where b: "market_order_book_new 0 = Inr b" using book_new_ok by blast
  let ?a = "ab_empty\<lparr>ab_mode := Mode_INCREMENTAL, ab_orders := [7 \<mapsto> (BUY, 100, 5)], ab_bids := [100 \<mapsto> 5]\<rparr>"
  have run: "ab_on_update sample_add ab_empty = Ok ?a ()"
    by (simp add: ab_on_update_def sample_add_def market_update_init_def ab_empty_def ab_require_incremental_def
        ab_add_order_def ab_cancel_def ab_level_full_def ab_side_def ab_add_def ab_put_side_def add_qty_def
        book_capacities Let_def)
  obtain b' where ok: "book_onMarketUpdate sample_add b = Ok b' ()"
    using book_update_sim[OF book_new_rel[OF b], of sample_add] run
    by (cases "book_onMarketUpdate sample_add b") (auto simp: outcome_rel_def)
  have "mu_type sample_add \<in> {ADD, MODIFY, CANCEL, CLEAR}" by (simp add: sample_add_def)
  from bbo_is_best[OF book_new_rel[OF b] this ok] run
  have "is_best BUY (ab_bids ?a) (bbo_bid_price (mob_bbo b')) (bbo_bid_qty (mob_bbo b'))"
    "is_best SELL (ab_asks ?a) (bbo_ask_price (mob_bbo b')) (bbo_ask_qty (mob_bbo b'))" by auto
  then have "bbo_bid_price (mob_bbo b') = 100" "bbo_bid_qty (mob_bbo b') = 5" "bbo_ask_price (mob_bbo b') = Price_INVALID"
    by (auto simp: is_best_def ab_empty_def split: if_splits)
  with b ok show ?thesis by blast
qed

end
