(* ===== verification/BookLevels.thy ===== *)
theory BookLevels
  imports OrderBook
begin

text \<open>
  What the aggregated quantities of the abstract book mean: while orders have positive quantities
  and no level exceeds 32 bits, the quantity at a price is the sum over the orders resting there,
  and a price has a level exactly when an order rests there. Levels of the pooled book follow by
  the refinement of \<open>OrderBook\<close>.
\<close>

definition orders_at :: "side \<Rightarrow> price \<Rightarrow> (order_id \<rightharpoonup> side \<times> price \<times> qty) \<Rightarrow> order_id set" where
  "orders_at sd p m = {oid. \<exists>s q. m oid = Some (s, p, q) \<and> (s = BUY \<longleftrightarrow> sd = BUY)}"

definition order_qty :: "(order_id \<rightharpoonup> side \<times> price \<times> qty) \<Rightarrow> order_id \<Rightarrow> nat" where
  "order_qty m oid = (case m oid of None \<Rightarrow> 0 | Some (_, _, q) \<Rightarrow> unat q)"

definition total_at :: "side \<Rightarrow> price \<Rightarrow> (order_id \<rightharpoonup> side \<times> price \<times> qty) \<Rightarrow> nat" where
  "total_at sd p m = (\<Sum>oid\<in>orders_at sd p m. order_qty m oid)"

definition levels_consistent :: "abs_book \<Rightarrow> bool" where
  "levels_consistent a \<longleftrightarrow> finite (dom (ab_orders a)) \<and>
     (\<forall>oid s p q. ab_orders a oid = Some (s, p, q) \<longrightarrow> q \<noteq> 0) \<and>
     (\<forall>sd p. total_at sd p (ab_orders a) < 2 ^ 32 \<and>
        ab_side sd a p = (if orders_at sd p (ab_orders a) = {} then None
                          else Some (of_nat (total_at sd p (ab_orders a)))))"

text \<open>An update that keeps the quantities positive and the sums within 32 bits.\<close>

definition update_fits :: "market_update \<Rightarrow> abs_book \<Rightarrow> bool" where
  "update_fits u a \<longleftrightarrow> mu_type u \<in> {ADD, MODIFY} \<longrightarrow>
     mu_qty u \<noteq> 0 \<and>
     total_at (mu_side u) (mu_price u) ((ab_orders a)(mu_order_id u := None)) + unat (mu_qty u) < 2 ^ 32"

section \<open>Sums\<close>

lemma orders_at_finite: "finite (dom m) \<Longrightarrow> finite (orders_at sd p m)"
  by (rule finite_subset[of _ "dom m"]) (auto simp: orders_at_def)

lemma total_at_side: "(sd = BUY) = (sd' = BUY) \<Longrightarrow> total_at sd p m = total_at sd' p m"
  by (simp add: total_at_def orders_at_def)

lemma orders_at_insert:
  "orders_at sd p (m(oid \<mapsto> (s, p', q))) =
     (if p' = p \<and> (s = BUY \<longleftrightarrow> sd = BUY) then insert oid (orders_at sd p (m(oid := None)))
      else orders_at sd p (m(oid := None)))"
  by (auto simp: orders_at_def)

lemma total_at_insert:
  assumes "finite (dom m)"
  shows "total_at sd p (m(oid \<mapsto> (s, p', q))) =
    total_at sd p (m(oid := None)) + (if p' = p \<and> (s = BUY \<longleftrightarrow> sd = BUY) then unat q else 0)"
proof -
  have fin: "finite (orders_at sd p (m(oid := None)))"
    by (rule orders_at_finite) (use assms in simp)
  have out: "oid \<notin> orders_at sd p (m(oid := None))"
    by (simp add: orders_at_def)
  have "(\<Sum>x\<in>orders_at sd p (m(oid := None)). order_qty (m(oid \<mapsto> (s, p', q))) x) =
        (\<Sum>x\<in>orders_at sd p (m(oid := None)). order_qty (m(oid := None)) x)"
    by (rule sum.cong) (use out in \<open>auto simp: order_qty_def\<close>)
  then show ?thesis
    using fin out by (simp add: total_at_def orders_at_insert order_qty_def)
qed

lemma total_at_pos:
  assumes "finite (dom m)" "\<forall>oid s p q. m oid = Some (s, p, q) \<longrightarrow> q \<noteq> 0"
  shows "total_at sd p m = 0 \<longleftrightarrow> orders_at sd p m = {}"
proof -
  have "order_qty m oid \<noteq> 0" if oid: "oid \<in> orders_at sd p m" for oid
  proof -
    obtain s q where "m oid = Some (s, p, q)" using oid by (auto simp: orders_at_def)
    moreover from this have "q \<noteq> 0" using assms(2) by blast
    ultimately show ?thesis by (simp add: order_qty_def unat_eq_0)
  qed
  then show ?thesis
    using orders_at_finite[OF assms(1), of sd p] by (auto simp: total_at_def)
qed

section \<open>Orders come and go\<close>

text \<open>The level of a price as the map stores it, from the sum.\<close>

definition level_of_total :: "nat \<Rightarrow> qty option" where
  "level_of_total n = (if n = 0 then None else Some (of_nat n))"

lemma levels_consistentD:
  assumes "levels_consistent a"
  shows "finite (dom (ab_orders a))" "ab_orders a oid = Some (s, p, q) \<Longrightarrow> q \<noteq> 0"
    "total_at sd p (ab_orders a) < 2 ^ 32"
    "ab_side sd a p = level_of_total (total_at sd p (ab_orders a))"
proof -
  show fin: "finite (dom (ab_orders a))" "ab_orders a oid = Some (s, p, q) \<Longrightarrow> q \<noteq> 0"
    "total_at sd p (ab_orders a) < 2 ^ 32"
    using assms unfolding levels_consistent_def by blast+
  have "total_at sd p (ab_orders a) = 0 \<longleftrightarrow> orders_at sd p (ab_orders a) = {}"
    using assms by (intro total_at_pos) (auto simp: levels_consistent_def)
  then show "ab_side sd a p = level_of_total (total_at sd p (ab_orders a))"
    using assms unfolding levels_consistent_def level_of_total_def by simp
qed

lemma levels_consistentI:
  assumes fin: "finite (dom (ab_orders a))"
    and pos: "\<And>oid s p q. ab_orders a oid = Some (s, p, q) \<Longrightarrow> q \<noteq> 0"
    and sum: "\<And>sd p. total_at sd p (ab_orders a) < 2 ^ 32"
    and lev: "\<And>sd p. ab_side sd a p = level_of_total (total_at sd p (ab_orders a))"
  shows "levels_consistent a"
proof -
  have "total_at sd p (ab_orders a) = 0 \<longleftrightarrow> orders_at sd p (ab_orders a) = {}" for sd p
    using fin pos by (intro total_at_pos) auto
  then show ?thesis
    using assms by (simp add: levels_consistent_def level_of_total_def)
qed

lemma ab_side_put: "ab_side sd (ab_put_side sd' m a) = (if (sd = BUY) = (sd' = BUY) then m else ab_side sd a)"
  by (auto simp: ab_side_def ab_put_side_def)

lemma ab_side_cong: "(sd = BUY) = (sd' = BUY) \<Longrightarrow> ab_side sd a = ab_side sd' a"
  by (auto simp: ab_side_def)

text \<open>Adding and removing a number on one level, in terms of sums.\<close>

lemma add_qty_total:
  assumes "m p = level_of_total n" "q \<noteq> 0"
  shows "add_qty p q m p' = (if p' = p then level_of_total (n + unat q) else m p')"
  using assms by (auto simp: add_qty_def level_of_total_def unat_eq_0)

lemma remove_qty_total:
  assumes "m p = level_of_total n" "unat q \<le> n" "n < 2 ^ 32" "q \<noteq> 0"
  shows "remove_qty p q m p' = (if p' = p then level_of_total (n - unat q) else m p')"
proof -
  have n: "unat (of_nat n :: qty) = n"
    using assms(3) by (simp add: unat_of_nat)
  have q0: "unat q \<noteq> 0" using assms(4) by (simp add: unat_eq_0)
  with assms(2) have n0: "n \<noteq> 0" by linarith
  have le: "(of_nat n :: qty) \<le> q \<longleftrightarrow> n - unat q = 0"
    unfolding word_le_nat_alt n by simp
  have sub: "(of_nat (n - unat q) :: qty) = of_nat n - q"
    using assms(2) by (simp add: of_nat_diff)
  have m: "m p = Some (of_nat n)" using assms(1) n0 by (simp add: level_of_total_def)
  show ?thesis
    unfolding remove_qty_def m option.case le level_of_total_def sub by simp
qed

lemma consistent_cancel:
  assumes c: "levels_consistent a"
  shows "levels_consistent (ab_cancel oid a)"
proof (cases "ab_orders a oid")
  case None
  with c show ?thesis by (simp add: ab_cancel_def)
next
  case (Some x)
  obtain s p q where x: "x = (s, p, q)" by (cases x)
  note D = levels_consistentD[OF c]
  have q: "q \<noteq> 0" using D(2)[of oid s p q] Some x by simp
  let ?m = "ab_orders a" and ?m' = "(ab_orders a)(oid := None)"
  have tot: "total_at sd p' ?m = total_at sd p' ?m' + (if p = p' \<and> (s = BUY \<longleftrightarrow> sd = BUY) then unat q else 0)" for sd p'
    using total_at_insert[OF D(1), of sd p' oid s p q] Some x by (simp add: fun_upd_idem)
  have "ab_side s a p = level_of_total (total_at s p ?m)" by (rule D(4))
  then have rem: "remove_qty p q (ab_side s a) p' =
      (if p' = p then level_of_total (total_at s p ?m') else ab_side s a p')" for p'
    using remove_qty_total[of "ab_side s a" p "total_at s p ?m" q p'] tot[of s p] D(3)[of s p] q by simp
  have "levels_consistent (ab_remove s p q (a\<lparr>ab_orders := ?m'\<rparr>))"
  proof (rule levels_consistentI)
    fix sd p'
    show "total_at sd p' (ab_orders (ab_remove s p q (a\<lparr>ab_orders := ?m'\<rparr>))) < 2 ^ 32"
      using D(3)[of sd p'] tot[of sd p'] by simp
    show "ab_side sd (ab_remove s p q (a\<lparr>ab_orders := ?m'\<rparr>)) p' =
      level_of_total
        (total_at sd p' (ab_orders (ab_remove s p q (a\<lparr>ab_orders := ?m'\<rparr>))))"
    proof (cases "(sd = BUY) = (s = BUY)")
      case True
      then have "total_at sd p' ?m' = total_at s p' ?m'" by (rule total_at_side)
      then show ?thesis
        using True rem[of p'] tot[of s p'] D(4)[of s p'] by (auto simp: ab_remove_def ab_side_put)
    next
      case False
      then show ?thesis
        using D(4)[of sd p'] tot[of sd p'] by (auto simp: ab_remove_def ab_side_put)
    qed
  qed (use D in \<open>auto split: if_splits\<close>)
  with Some x show ?thesis by (simp add: ab_cancel_def)
qed

lemma consistent_insert:
  assumes c: "levels_consistent a" and absent: "ab_orders a oid = None" and q: "q \<noteq> 0"
    and fits: "total_at s p (ab_orders a) + unat q < 2 ^ 32"
  shows "levels_consistent (ab_add s p q (a\<lparr>ab_orders := (ab_orders a)(oid \<mapsto> (s, p, q))\<rparr>))"
proof (rule levels_consistentI)
  note D = levels_consistentD[OF c]
  let ?m = "ab_orders a" and ?m' = "(ab_orders a)(oid \<mapsto> (s, p, q))"
  let ?a' = "ab_add s p q (a\<lparr>ab_orders := ?m'\<rparr>)"
  have tot: "total_at sd p' ?m' = total_at sd p' ?m + (if p = p' \<and> (s = BUY \<longleftrightarrow> sd = BUY) then unat q else 0)" for sd p'
    using total_at_insert[OF D(1), of sd p' oid s p q] absent by (simp add: fun_upd_idem)
  fix sd p'
  have eq: "total_at sd p' ?m = total_at s p' ?m" if "(sd = BUY) = (s = BUY)"
    using that by (rule total_at_side)
  show "total_at sd p' (ab_orders ?a') < 2 ^ 32"
    using D(3)[of sd p'] tot[of sd p'] fits eq by (auto split: if_splits)
  have add: "add_qty p q (ab_side s a) p' =
      (if p' = p then level_of_total (total_at s p ?m + unat q) else ab_side s a p')"
    using add_qty_total[of "ab_side s a" p "total_at s p ?m" q p'] D(4)[of s p] q by simp
  show "ab_side sd ?a' p' = level_of_total (total_at sd p' (ab_orders ?a'))"
  proof (cases "(sd = BUY) = (s = BUY)")
    case True
    then show ?thesis
      using add tot[of sd p'] eq D(4)[of s p'] by (auto simp: ab_add_def ab_side_put)
  next
    case False
    then show ?thesis
      using D(4)[of sd p'] tot[of sd p'] by (auto simp: ab_add_def ab_side_put)
  qed
qed (use levels_consistentD[OF c] q in \<open>auto split: if_splits\<close>)

section \<open>Every update\<close>

lemma ab_ops_set_orders:
  "ab_add s p q (a\<lparr>ab_orders := m\<rparr>) = (ab_add s p q a)\<lparr>ab_orders := m\<rparr>"
  "ab_remove s p q (a\<lparr>ab_orders := m\<rparr>) = (ab_remove s p q a)\<lparr>ab_orders := m\<rparr>"
  by (simp_all add: ab_add_def ab_remove_def ab_side_def ab_put_side_def)

text \<open>A change of quantity on one level is a cancel followed by an add.\<close>

lemma requantify:
  assumes "m p = Some L" "q \<le> L" "q' \<noteq> 0"
  shows "q \<le> q' \<Longrightarrow> add_qty p (q' - q) m = add_qty p q' (remove_qty p q m)"
    and "q' < q \<Longrightarrow> remove_qty p (q - q') m = add_qty p q' (remove_qty p q m)"
proof -
  have rem: "remove_qty p q m = (if L = q then m(p := None) else m(p \<mapsto> L - q))"
    using assms(1,2) by (auto simp: remove_qty_def)
  then have rhs: "add_qty p q' (remove_qty p q m) = m(p \<mapsto> L - q + q')"
    by (auto simp: add_qty_def)
  show "add_qty p (q' - q) m = add_qty p q' (remove_qty p q m)"
    unfolding rhs using assms(1) by (simp add: add_qty_def algebra_simps)
  assume less: "q' < q"
  then have "unat (q - q') = unat q - unat q'" by (simp add: unat_sub less_imp_le)
  moreover have "0 < unat q'" "unat q' < unat q"
    using assms(3) less by (simp_all add: unat_gt_0 word_less_nat_alt)
  ultimately have "unat (q - q') < unat q" by linarith
  then have "\<not> L \<le> q - q'"
    using assms(2) by (simp add: word_le_nat_alt)
  then show "remove_qty p (q - q') m = add_qty p q' (remove_qty p q m)"
    unfolding rhs using assms(1) by (simp add: remove_qty_def algebra_simps)
qed

lemma order_le_level:
  assumes c: "levels_consistent a" and o: "ab_orders a oid = Some (s, p, q)"
  obtains L where "ab_side s a p = Some L" "q \<le> L"
proof -
  note D = levels_consistentD[OF c]
  have "total_at s p (ab_orders a) = total_at s p ((ab_orders a)(oid := None)) + unat q"
    using total_at_insert[OF D(1), of s p oid s p q] o by (simp add: fun_upd_idem)
  then have le: "unat q \<le> total_at s p (ab_orders a)" by simp
  moreover have "unat q \<noteq> 0" using D(2)[OF o] by (simp add: unat_eq_0)
  moreover have "unat (of_nat (total_at s p (ab_orders a)) :: qty) = total_at s p (ab_orders a)"
    using D(3)[of s p] by (simp add: unat_of_nat)
  ultimately show thesis
    using D(4)[of s p] by (intro that[of "of_nat (total_at s p (ab_orders a))"])
      (simp_all add: level_of_total_def word_le_nat_alt)
qed

lemma consistent_add:
  assumes c: "levels_consistent a" and t: "mu_type u = ADD" and f: "update_fits u a"
  shows "post (\<lambda>a' _. levels_consistent a') (\<lambda>a' _. levels_consistent a') (ab_add_order u a)"
proof -
  let ?oid = "mu_order_id u"
  have orders: "ab_orders (ab_cancel ?oid a) = (ab_orders a)(?oid := None)"
    by (auto simp: ab_cancel_def fun_upd_idem split: option.splits)
  have "levels_consistent (ab_add (mu_side u) (mu_price u) (mu_qty u) ((ab_cancel ?oid a)
      \<lparr>ab_orders := (ab_orders (ab_cancel ?oid a))(?oid \<mapsto> (mu_side u, mu_price u, mu_qty u))\<rparr>))"
    by (rule consistent_insert[OF consistent_cancel[OF c]])
       (use t f in \<open>auto simp: orders update_fits_def\<close>)
  then show ?thesis
    using consistent_cancel[OF c] by (simp add: ab_add_order_def Let_def)
qed

lemma consistent_modify:
  assumes c: "levels_consistent a" and t: "mu_type u = MODIFY" and f: "update_fits u a"
  shows "post (\<lambda>a' _. levels_consistent a') (\<lambda>a' _. levels_consistent a') (ab_modify_order u a)"
proof (cases "ab_orders a (mu_order_id u)")
  case None
  with c show ?thesis by (simp add: ab_modify_order_def)
next
  case (Some x)
  let ?oid = "mu_order_id u" and ?sd = "mu_side u" and ?p = "mu_price u" and ?q = "mu_qty u"
  obtain s p q where x: "x = (s, p, q)" by (cases x)
  let ?c = "ab_cancel ?oid a"
  let ?new = "ab_add ?sd ?p ?q (?c\<lparr>ab_orders := (ab_orders ?c)(?oid \<mapsto> (?sd, ?p, ?q))\<rparr>)"
  have orders: "ab_orders ?c = (ab_orders a)(?oid := None)"
    using Some x by (simp add: ab_cancel_def)
  have new: "levels_consistent ?new"
    by (rule consistent_insert[OF consistent_cancel[OF c]])
       (use t f in \<open>auto simp: orders update_fits_def\<close>)
  have eq: "?new = (ab_add ?sd ?p ?q (ab_remove s p q a))\<lparr>ab_orders := (ab_orders a)(?oid \<mapsto> (?sd, ?p, ?q))\<rparr>"
    unfolding orders using Some x by (simp add: ab_cancel_def ab_ops_set_orders)
  obtain L where L: "ab_side s a p = Some L" "q \<le> L"
    using order_le_level[OF c] Some x by metis
  have q0: "?q \<noteq> 0" using t f by (simp add: update_fits_def)
  have up: "ab_add s p (?q - q) a = ab_add s p ?q (ab_remove s p q a)" if "q \<le> ?q"
    using requantify(1)[of "ab_side s a" p L q ?q] L q0 that by (simp add: ab_add_def ab_remove_def ab_put_side_def ab_side_def)
  have down: "ab_remove s p (q - ?q) a = ab_add s p ?q (ab_remove s p q a)" if "?q < q"
    using requantify(2)[of "ab_side s a" p L q ?q] L q0 that by (simp add: ab_add_def ab_remove_def ab_put_side_def ab_side_def)
  show ?thesis
  proof (cases "s \<noteq> ?sd \<or> p \<noteq> ?p")
    case True
    with Some x c new eq show ?thesis
      by (simp add: ab_modify_order_def Let_def ab_ops_set_orders)
  next
    case False
    then have "s = ?sd" "p = ?p" by auto
    with Some x c new eq up down show ?thesis
      by (cases "q \<le> ?q") (simp_all add: ab_modify_order_def Let_def ab_ops_set_orders)
  qed
qed

lemma consistent_frame [simp]:
  "levels_consistent (a\<lparr>ab_mode := m\<rparr>) = levels_consistent a"
  "levels_consistent (a\<lparr>ab_depth := d\<rparr>) = levels_consistent a"
  by (simp_all add: levels_consistent_def ab_side_def)

lemma update_fits_mode [simp]: "update_fits u (a\<lparr>ab_mode := m\<rparr>) = update_fits u a"
  by (simp add: update_fits_def)

lemma consistent_empty [simp]:
  "levels_consistent (a\<lparr>ab_orders := Map.empty, ab_bids := Map.empty, ab_asks := Map.empty\<rparr>)"
  by (simp add: levels_consistent_def ab_side_def orders_at_def total_at_def)

lemma consistent_update:
  assumes c: "levels_consistent a" and f: "update_fits u a"
  shows "post (\<lambda>a' _. levels_consistent a') (\<lambda>a' _. levels_consistent a') (ab_on_update u a)"
proof -
  let ?a = "a\<lparr>ab_mode := Mode_INCREMENTAL\<rparr>"
  have "levels_consistent ?a" "update_fits u ?a" using c f by simp_all
  then show ?thesis
    using c consistent_add[of ?a u] consistent_modify[of ?a u] consistent_cancel[of ?a "mu_order_id u"]
    by (cases "mu_type u") (simp_all add: ab_on_update_def ab_require_incremental_def)
qed

text \<open>C19: While quantities are positive and sums fit in 32 bits, the pooled book keeps, through any
  update and also through a throwing one, one level per price with resting orders, whose quantity
  is the sum of theirs.\<close>

theorem book_levels_are_sums:
  assumes "book_rel b a" "levels_consistent a" "update_fits u a"
  shows "\<exists>b' a'. (book_onMarketUpdate u b = Ok b' () \<or> (\<exists>e. book_onMarketUpdate u b = Throw b' e)) \<and>
    book_rel b' a' \<and> levels_consistent a'"
  using book_update_sim[OF assms(1), of u] consistent_update[OF assms(2,3)]
  by (cases "book_onMarketUpdate u b"; cases "ab_on_update u a") (auto simp: outcome_rel_def)

lemma book_levels_are_sums_witness:
  "\<exists>b b' a'. market_order_book_new 0 = Inr b \<and>
     (book_onMarketUpdate sample_add b = Ok b' () \<or> (\<exists>e. book_onMarketUpdate sample_add b = Throw b' e)) \<and>
     book_rel b' a' \<and> levels_consistent a'"
proof -
  obtain b where b: "market_order_book_new 0 = Inr b" using book_new_ok by blast
  have "levels_consistent ab_empty"
    using consistent_empty[of ab_empty] by (simp add: ab_empty_def)
  moreover have "update_fits sample_add ab_empty"
    by (simp add: update_fits_def sample_add_def ab_empty_def total_at_def orders_at_def)
  ultimately show ?thesis
    using book_levels_are_sums[OF book_new_rel[OF b], of sample_add] b by blast
qed

end
