(* ===== verification/PositionKeeper.thy ===== *)
theory PositionKeeper
  imports OrderBook
begin

text \<open>
  \<open>trading/strategy/position_keeper.h\<close>. The position of a ticker is a signed net position together
  with the quantity and the average opening price of each position day, and the profit and loss.

  \<open>std::int32_t\<close> values are integers whose arithmetic is checked: a result outside 32 bits is
  undefined behaviour. Doubles are the rounded values of \<open>Binary64\<close>. The pointer to a BBO is the
  index of the book that owns it; operations that read through it take the memory \<open>mem\<close> of the
  BBOs, because the books change them between calls.
\<close>

section \<open>Checked 32-bit signed arithmetic\<close>

definition int32 :: "int \<Rightarrow> (int \<Rightarrow> ('s, 'a) outcome) \<Rightarrow> ('s, 'a) outcome" where
  "int32 i f = (if - (2 ^ 31) \<le> i \<and> i < 2 ^ 31 then f i else Undef)"

lemma int32_ok [simp]: "- 2147483648 \<le> i \<Longrightarrow> i < 2147483648 \<Longrightarrow> int32 i f = f i"
  by (simp add: int32_def)

text \<open>\<open>static_cast<std::int32_t>(qty)\<close> wraps; \<open>static_cast<double>\<close> of a quantity or a price rounds.\<close>

abbreviation qty_int32 :: "qty \<Rightarrow> int" where "qty_int32 q \<equiv> sint q"

abbreviation qty_double :: "qty \<Rightarrow> f64" where "qty_double q \<equiv> of_integer (uint q)"

abbreviation price_double :: "price \<Rightarrow> f64" where "price_double p \<equiv> of_integer (sint p)"

section \<open>Data\<close>

record position_day_info =
  pd_qty :: qty
  pd_open_vwap :: f64

record position_info =
  pi_position :: int
  pi_days :: "position_day \<Rightarrow> position_day_info"
  pi_realized_pnl :: f64
  pi_unrealized_pnl :: f64
  pi_total_pnl :: f64
  pi_bbo :: "nat option"

definition position_day_init :: position_day_info where
  "position_day_init = \<lparr>pd_qty = 0, pd_open_vwap = 0\<rparr>"

definition position_info_init :: position_info where
  "position_info_init =
     \<lparr>pi_position = 0, pi_days = (\<lambda>_. position_day_init), pi_realized_pnl = 0,
      pi_unrealized_pnl = 0, pi_total_pnl = 0, pi_bbo = None\<rparr>"

section \<open>Queries\<close>

definition todayQty :: "position_info \<Rightarrow> qty" where
  "todayQty p = pd_qty (pi_days p TODAY)"

definition yesterdayQty :: "position_info \<Rightarrow> qty" where
  "yesterdayQty p = pd_qty (pi_days p YESTERDAY)"

text \<open>The loop over \<open>position_days_\<close> that adds up the cost.\<close>

definition position_cost :: "position_info \<Rightarrow> f64" where
  "position_cost p =
     fold (\<lambda>d cost. cost + pd_open_vwap (pi_days p d) * qty_double (pd_qty (pi_days p d)))
       [TODAY, YESTERDAY] 0"

definition averageEntryPrice :: "position_info \<Rightarrow> (unit, price) outcome" where
  "averageEntryPrice p =
     (if pi_position p = 0 then Ok () Price_INVALID
      else int32 \<bar>pi_position p\<bar> (\<lambda>n.
        case to_integer (- (2 ^ 63)) (2 ^ 63 - 1) (position_cost p div of_integer n) of
          None \<Rightarrow> Undef | Some i \<Rightarrow> Ok () (of_int i)))"

definition closeableQty :: "order_offset \<Rightarrow> position_info \<Rightarrow> qty" where
  "closeableQty off p =
     (case off of
        CLOSE_TODAY \<Rightarrow> todayQty p
      | CLOSE_YESTERDAY \<Rightarrow> yesterdayQty p
      | CLOSE \<Rightarrow> todayQty p + yesterdayQty p
      | _ \<Rightarrow> 0)"

definition closeOffsetFor :: "qty \<Rightarrow> position_info \<Rightarrow> order_offset" where
  "closeOffsetFor requested p =
     (if requested = 0 then Offset_INVALID
      else if yesterdayQty p > 0 then CLOSE_YESTERDAY
      else if todayQty p > 0 then CLOSE_TODAY
      else Offset_INVALID)"

section \<open>Updates\<close>

definition set_day :: "position_day \<Rightarrow> position_day_info \<Rightarrow> position_info \<Rightarrow> position_info" where
  "set_day d i p = p\<lparr>pi_days := (pi_days p)(d := i)\<rparr>"

definition addOpen :: "qty \<Rightarrow> price \<Rightarrow> position_day \<Rightarrow> position_info \<Rightarrow> position_info" where
  "addOpen q px day p =
     (let old = pi_days p day; old_qty = pd_qty old; new_qty = old_qty + q
      in set_day day
           \<lparr>pd_qty = new_qty,
            pd_open_vwap =
              (if new_qty = 0 then 0
               else (pd_open_vwap old * qty_double old_qty + price_double px * qty_double q)
                      div qty_double new_qty)\<rparr> p)"

text \<open>
  The lambda \<open>consume\<close> of \<open>closePosition\<close>: its \<open>amount\<close> is the remaining quantity at the call, and
  the remaining and the closed quantity are references.
\<close>

definition consume :: "price \<Rightarrow> side \<Rightarrow> position_day \<Rightarrow> position_info \<times> qty \<times> qty \<Rightarrow>
    position_info \<times> qty \<times> qty" where
  "consume px sd day = (\<lambda>(p, remaining, closed).
     let d = pi_days p day; consumed = min (pd_qty d) remaining
     in if consumed = 0 then (p, remaining, closed)
        else
          let sign = sideToValue sd;
              pnl_per_unit = (if sign > 0 then pd_open_vwap d - price_double px
                              else price_double px - pd_open_vwap d);
              left = pd_qty d - consumed
          in (set_day day \<lparr>pd_qty = left, pd_open_vwap = (if left = 0 then 0 else pd_open_vwap d)\<rparr>
                (p\<lparr>pi_realized_pnl := pi_realized_pnl p + pnl_per_unit * qty_double consumed\<rparr>),
              remaining - consumed, closed + consumed))"

definition closePosition :: "qty \<Rightarrow> price \<Rightarrow> side \<Rightarrow> order_offset \<Rightarrow> position_info \<Rightarrow>
    position_info \<times> qty" where
  "closePosition requested px sd off p =
     (let s = (p, requested, 0);
          (p', remaining, closed) =
            (if off = CLOSE_TODAY then consume px sd TODAY s
             else if off = CLOSE_YESTERDAY then consume px sd YESTERDAY s
             else consume px sd TODAY (consume px sd YESTERDAY s))
      in (p', closed))"

definition recalculateUnrealizedPnl :: "(nat \<Rightarrow> bbo) \<Rightarrow> position_info \<Rightarrow>
    (position_info, unit) outcome" where
  "recalculateUnrealizedPnl mem p =
     (let flat = Ok (p\<lparr>pi_unrealized_pnl := 0\<rparr>) ()
      in case pi_bbo p of
           None \<Rightarrow> flat
         | Some ref \<Rightarrow>
             let b = mem ref
             in if pi_position p = 0 \<or> bbo_bid_price b = Price_INVALID \<or> bbo_ask_price b = Price_INVALID
                then flat
                else int32 \<bar>pi_position p\<bar> (\<lambda>n.
                  let mid_price = (price_double (bbo_bid_price b) + price_double (bbo_ask_price b)) div Fin 2;
                      average_price = position_cost p div of_integer n
                  in Ok (p\<lparr>pi_unrealized_pnl :=
                        (if pi_position p > 0 then (mid_price - average_price) * of_integer n
                         else (average_price - mid_price) * of_integer n)\<rparr>) ()))"

definition refresh_pnl :: "(nat \<Rightarrow> bbo) \<Rightarrow> position_info \<Rightarrow> (position_info, unit) outcome" where
  "refresh_pnl mem p =
     then_do (recalculateUnrealizedPnl mem p) (\<lambda>p _.
       Ok (p\<lparr>pi_total_pnl := pi_realized_pnl p + pi_unrealized_pnl p\<rparr>) ())"

definition onFill :: "(nat \<Rightarrow> bbo) \<Rightarrow> client_response \<Rightarrow> position_info \<Rightarrow>
    (position_info, unit) outcome" where
  "onFill mem r p =
     (if rs_exec_qty r = 0 \<or> rs_exec_qty r = Qty_INVALID then Ok p ()
      else
        let (p', q) =
          (if rs_offset r = OPEN
           then (addOpen (rs_exec_qty r) (rs_price r) TODAY p, rs_exec_qty r)
           else closePosition (rs_exec_qty r) (rs_price r) (rs_side r) (rs_offset r) p)
        in int32 (sideToValue (rs_side r) * qty_int32 q) (\<lambda>d.
             int32 (pi_position p' + d) (\<lambda>n. refresh_pnl mem (p'\<lparr>pi_position := n\<rparr>))))"

definition position_updateBBO :: "(nat \<Rightarrow> bbo) \<Rightarrow> nat option \<Rightarrow> position_info \<Rightarrow>
    (position_info, unit) outcome" where
  "position_updateBBO mem ref p = refresh_pnl mem (p\<lparr>pi_bbo := ref\<rparr>)"

section \<open>The keeper\<close>

text \<open>\<open>std::array<PositionInfo, ME_MAX_TICKERS>\<close>; \<open>at\<close> throws out of range.\<close>

record position_keeper =
  pk_positions :: "nat \<Rightarrow> position_info"

definition position_keeper_new :: position_keeper where
  "position_keeper_new = \<lparr>pk_positions = (\<lambda>_. position_info_init)\<rparr>"

definition at_position :: "ticker_id \<Rightarrow> (position_info \<Rightarrow> (position_info, 'a) outcome) \<Rightarrow>
    position_keeper \<Rightarrow> (position_keeper, 'a) outcome" where
  "at_position t f k =
     (if unat t < ME_MAX_TICKERS
      then on_part (\<lambda>p. k\<lparr>pk_positions := (pk_positions k)(unat t := p)\<rparr>) (f (pk_positions k (unat t)))
      else Throw k (Out_of_range ''array::at''))"

definition keeper_onClientResponse :: "(nat \<Rightarrow> bbo) \<Rightarrow> client_response \<Rightarrow> position_keeper \<Rightarrow>
    (position_keeper, unit) outcome" where
  "keeper_onClientResponse mem r k =
     (if rs_type r = FILLED then at_position (rs_ticker_id r) (onFill mem r) k else Ok k ())"

definition keeper_updateBBO :: "(nat \<Rightarrow> bbo) \<Rightarrow> ticker_id \<Rightarrow> nat option \<Rightarrow> position_keeper \<Rightarrow>
    (position_keeper, unit) outcome" where
  "keeper_updateBBO mem t ref k = at_position t (position_updateBBO mem ref) k"

definition getPositionInfo :: "ticker_id \<Rightarrow> position_keeper \<Rightarrow> (position_keeper, position_info) outcome" where
  "getPositionInfo t k = at_position t (\<lambda>p. Ok p p) k"

section \<open>Quantities\<close>

text \<open>What is held, over both days; the invariant that ties the net position to it.\<close>

definition held :: "position_info \<Rightarrow> nat" where
  "held p = unat (todayQty p) + unat (yesterdayQty p)"

definition position_ok :: "position_info \<Rightarrow> bool" where
  "position_ok p \<longleftrightarrow> \<bar>pi_position p\<bar> = int (held p) \<and> held p < 2 ^ 31 \<and>
     (\<forall>d. pd_qty (pi_days p d) = 0 \<longrightarrow> pd_open_vwap (pi_days p d) = 0)"

text \<open>How much of a fill counts, and which fills a consistent account receives.\<close>

definition closeable :: "order_offset \<Rightarrow> position_info \<Rightarrow> nat" where
  "closeable off p =
     (if off = CLOSE_TODAY then unat (todayQty p)
      else if off = CLOSE_YESTERDAY then unat (yesterdayQty p) else held p)"

definition fill_qty :: "client_response \<Rightarrow> position_info \<Rightarrow> nat" where
  "fill_qty r p =
     (if rs_exec_qty r = 0 \<or> rs_exec_qty r = Qty_INVALID then 0
      else if rs_offset r = OPEN then unat (rs_exec_qty r)
      else min (unat (rs_exec_qty r)) (closeable (rs_offset r) p))"

definition fill_fits :: "client_response \<Rightarrow> position_info \<Rightarrow> bool" where
  "fill_fits r p \<longleftrightarrow> rs_side r \<in> {BUY, SELL} \<and>
     (if rs_offset r = OPEN
      then sgn (pi_position p) \<in> {0, sideToValue (rs_side r)} \<and> held p + fill_qty r p < 2 ^ 31
      else sgn (pi_position p) \<in> {0, - sideToValue (rs_side r)})"

lemma set_day_simps [simp]:
  "pi_days (set_day d i p) = (pi_days p)(d := i)" "pi_position (set_day d i p) = pi_position p"
  "pi_bbo (set_day d i p) = pi_bbo p" "pi_realized_pnl (set_day d i p) = pi_realized_pnl p"
  by (simp_all add: set_day_def)

definition zero_vwap :: "position_info \<Rightarrow> bool" where
  "zero_vwap p \<longleftrightarrow> (\<forall>d. pd_qty (pi_days p d) = 0 \<longrightarrow> pd_open_vwap (pi_days p d) = 0)"

lemma consume_spec:
  assumes "consume px sd day (p, m, c) = (p', m', c')"
  shows "pi_position p' = pi_position p" "pi_bbo p' = pi_bbo p"
    "unat (pd_qty (pi_days p' day)) = unat (pd_qty (pi_days p day)) - unat m"
    "\<And>d. d \<noteq> day \<Longrightarrow> pi_days p' d = pi_days p d"
    "m' = m - min (pd_qty (pi_days p day)) m" "c' = c + min (pd_qty (pi_days p day)) m"
    "zero_vwap p \<Longrightarrow> zero_vwap p'"
proof -
  let ?q = "pd_qty (pi_days p day)"
  have diff: "unat (?q - min ?q m) = unat ?q - unat m"
    by (simp add: min_def unat_sub word_le_nat_alt)
  have "pi_position p' = pi_position p \<and> pi_bbo p' = pi_bbo p \<and>
    unat (pd_qty (pi_days p' day)) = unat ?q - unat m \<and> (\<forall>d. d \<noteq> day \<longrightarrow> pi_days p' d = pi_days p d) \<and>
    m' = m - min ?q m \<and> c' = c + min ?q m \<and> (zero_vwap p \<longrightarrow> zero_vwap p')"
  proof (cases "min ?q m = 0")
    case True
    then have e: "p' = p" "m' = m" "c' = c" using assms by (simp_all add: consume_def)
    have "unat ?q = unat ?q - unat m" using diff unfolding True by (simp only: diff_zero)
    then show ?thesis unfolding e True by (intro conjI allI impI) (rule refl | assumption | simp only: diff_zero add_0_right)+
  next
    case False
    define r where "r = pi_realized_pnl p'"
    have e: "p' = set_day day \<lparr>pd_qty = ?q - min ?q m,
        pd_open_vwap = (if ?q - min ?q m = 0 then 0 else pd_open_vwap (pi_days p day))\<rparr> (p\<lparr>pi_realized_pnl := r\<rparr>)"
      "m' = m - min ?q m" "c' = c + min ?q m"
      using assms False unfolding consume_def Let_def prod.case r_def
      by (simp_all only: if_False prod.inject) auto
    show ?thesis using diff unfolding e by (simp add: zero_vwap_def)
  qed
  then show "pi_position p' = pi_position p" "pi_bbo p' = pi_bbo p"
    "unat (pd_qty (pi_days p' day)) = unat ?q - unat m"
    "\<And>d. d \<noteq> day \<Longrightarrow> pi_days p' d = pi_days p d"
    "m' = m - min ?q m" "c' = c + min ?q m" "zero_vwap p \<Longrightarrow> zero_vwap p'" by blast+
qed

lemma consume_ex: "\<exists>p' m' c'. consume px sd day s = (p', m', c')"
  by (metis prod_cases3)

lemma held_set: "held p = unat (pd_qty (pi_days p TODAY)) + unat (pd_qty (pi_days p YESTERDAY))"
  by (simp add: held_def todayQty_def yesterdayQty_def)

lemma unat_min_word: "unat (min a b) = min (unat a) (unat (b :: qty))"
  by (simp add: min_def word_le_nat_alt)

lemma closePosition_spec:
  assumes c: "closePosition q px sd off p = (p', cl)" and h: "held p < 2 ^ 31"
  shows "pi_position p' = pi_position p" "pi_bbo p' = pi_bbo p"
    "unat cl = min (unat q) (closeable off p)" "held p' = held p - unat cl"
    "closeable off p' = closeable off p - unat cl" "zero_vwap p \<Longrightarrow> zero_vwap p'"
proof -
  let ?y = "pd_qty (pi_days p YESTERDAY)" and ?t = "pd_qty (pi_days p TODAY)"
  obtain p1 m1 c1 where y: "consume px sd YESTERDAY (p, q, 0) = (p1, m1, c1)" using consume_ex by blast
  obtain p2 m2 c2 where t: "consume px sd TODAY (p, q, 0) = (p2, m2, c2)" using consume_ex by blast
  obtain p3 m3 c3 where b: "consume px sd TODAY (p1, m1, c1) = (p3, m3, c3)" using consume_ex by blast
  note ys = consume_spec[OF y] and ts = consume_spec[OF t] and bs = consume_spec[OF b]
  have m1: "unat m1 = unat q - unat ?y"
    using ys(5) by (simp add: unat_sub min_def word_le_nat_alt)
  have both: "unat c3 = min (unat q) (unat ?y + unat ?t)"
  proof -
    have "unat (min ?y q + min ?t m1) = unat (min ?y q) + unat (min ?t m1)"
      using h by (subst unat_add_lem[THEN iffD1]) (auto simp: held_set unat_min_word)
    then have "unat c3 = min (unat ?y) (unat q) + min (unat ?t) (unat m1)"
      using bs(6) ys(6) ys(4)[of TODAY] by (simp add: unat_min_word)
    then show ?thesis using m1 by linarith
  qed
  consider "off = CLOSE_TODAY" | "off = CLOSE_YESTERDAY" | "off \<noteq> CLOSE_TODAY" "off \<noteq> CLOSE_YESTERDAY"
    by blast
  then have "pi_position p' = pi_position p \<and> pi_bbo p' = pi_bbo p \<and>
    unat cl = min (unat q) (closeable off p) \<and> held p' = held p - unat cl \<and>
    closeable off p' = closeable off p - unat cl \<and> (zero_vwap p \<longrightarrow> zero_vwap p')"
  proof cases
    case 1
    then have "p' = p2" "cl = c2" using c t by (simp_all add: closePosition_def)
    then show ?thesis using 1 ts by (auto simp: closeable_def held_set todayQty_def unat_min_word)
  next
    case 2
    then have "p' = p1" "cl = c1" using c y by (simp_all add: closePosition_def)
    then show ?thesis using 2 ys by (auto simp: closeable_def held_set yesterdayQty_def unat_min_word)
  next
    case 3
    then have pc: "p' = p3" "cl = c3" using c y b by (simp_all add: closePosition_def)
    have d: "unat (pd_qty (pi_days p3 TODAY)) = unat ?t - unat m1"
      "unat (pd_qty (pi_days p3 YESTERDAY)) = unat ?y - unat q"
      using bs(3) bs(4)[of YESTERDAY] ys(3) ys(4)[of TODAY] by simp_all
    have h: "held p3 = held p - unat c3" using d both m1 by (simp only: held_set) linarith
    moreover have "closeable off x = held x" for x using 3 by (simp add: closeable_def)
    moreover have "unat c3 = min (unat q) (held p)" using both by (simp add: held_set add.commute)
    ultimately show ?thesis using pc ys(1,2,7) bs(1,2,7) by simp
  qed
  then show "pi_position p' = pi_position p" "pi_bbo p' = pi_bbo p"
    "unat cl = min (unat q) (closeable off p)" "held p' = held p - unat cl"
    "closeable off p' = closeable off p - unat cl" "zero_vwap p \<Longrightarrow> zero_vwap p'" by blast+
qed

lemma addOpen_spec:
  assumes "held p + unat q < 2 ^ 31"
  shows "held (addOpen q px TODAY p) = held p + unat q"
    "pi_position (addOpen q px TODAY p) = pi_position p" "pi_bbo (addOpen q px TODAY p) = pi_bbo p"
    "zero_vwap p \<Longrightarrow> zero_vwap (addOpen q px TODAY p)"
proof -
  have "unat (pd_qty (pi_days p TODAY) + q) = unat (pd_qty (pi_days p TODAY)) + unat q"
    using assms by (subst unat_add_lem[THEN iffD1]) (auto simp: held_set)
  then show "held (addOpen q px TODAY p) = held p + unat q"
    by (simp add: held_set addOpen_def Let_def)
qed (auto simp: addOpen_def Let_def zero_vwap_def)

text \<open>The profit and loss part of an update touches nothing else, and always adds up.\<close>

lemma refresh_pnl_spec:
  assumes "\<bar>pi_position p\<bar> < 2 ^ 31"
  shows "\<exists>p'. refresh_pnl mem p = Ok p' () \<and> pi_position p' = pi_position p \<and> pi_days p' = pi_days p \<and>
    pi_bbo p' = pi_bbo p \<and> pi_realized_pnl p' = pi_realized_pnl p \<and>
    pi_total_pnl p' = pi_realized_pnl p' + pi_unrealized_pnl p'"
  using assms by (auto simp: refresh_pnl_def recalculateUnrealizedPnl_def Let_def split: option.split)

lemma refresh_flat:
  "pi_position p = 0 \<Longrightarrow> refresh_pnl mem p =
     Ok (p\<lparr>pi_unrealized_pnl := 0, pi_total_pnl := pi_realized_pnl p + 0\<rparr>) ()"
  by (simp add: refresh_pnl_def recalculateUnrealizedPnl_def Let_def split: option.split)

lemma held_cong: "pi_days p' = pi_days p \<Longrightarrow> held p' = held p"
  by (simp add: held_set)

lemma qty_int32_nat: "unat (q :: qty) < 2 ^ 31 \<Longrightarrow> qty_int32 q = int (unat q)"
proof -
  assume "unat q < 2 ^ 31"
  then have "int (unat q) < int (2 ^ 31)" by (simp only: of_nat_less_iff)
  then have "uint q < 2 ^ 31" "0 \<le> uint q" by simp_all
  then have "signed_take_bit 31 (uint q) = uint q"
    by (intro signed_take_bit_int_eq_self) (use uint_ge_0[of q] in linarith)+
  moreover have "qty_int32 q = signed_take_bit 31 (uint q)"
    by (simp add: sint_uint)
  ultimately show ?thesis by (simp only: uint_nat)
qed

lemma Qty_INVALID_nat: "unat Qty_INVALID = 2 ^ 32 - 1"
  by (simp add: Qty_INVALID_def unsigned_minus_1_eq_mask mask_eq_exp_minus_1)

lemma abs_sign_mult: "v \<in> {1, - 1} \<Longrightarrow> \<bar>v * int n\<bar> = int n"
  by auto

lemma exec_lt: "q \<noteq> Qty_INVALID \<Longrightarrow> unat (q :: qty) < 2 ^ 32"
  using unsigned_less[of q, where ?'a = nat] by simp

lemma onFill_fits:
  assumes ok: "position_ok p" and fits: "fill_fits r p"
  shows "\<exists>p'. onFill mem r p = Ok p' () \<and> position_ok p' \<and>
    pi_position p' = pi_position p + sideToValue (rs_side r) * int (fill_qty r p) \<and>
    (p' = p \<or> pi_total_pnl p' = pi_realized_pnl p' + pi_unrealized_pnl p')"
proof (cases "rs_exec_qty r = 0 \<or> rs_exec_qty r = Qty_INVALID")
  case True
  then show ?thesis using ok by (auto simp: onFill_def fill_qty_def)
next
  case False
  let ?o = "rs_offset r = OPEN" and ?s = "sideToValue (rs_side r)" and ?f = "int (fill_qty r p)"
  obtain p1 q where p1: "(if ?o then (addOpen (rs_exec_qty r) (rs_price r) TODAY p, rs_exec_qty r)
      else closePosition (rs_exec_qty r) (rs_price r) (rs_side r) (rs_offset r) p) = (p1, q)"
    by (metis surj_pair)
  have side: "?s = 1 \<or> ?s = - 1" using fits by (cases "rs_side r") (simp_all add: fill_fits_def)
  have z: "zero_vwap p" and h: "held p < 2 ^ 31" and abs: "\<bar>pi_position p\<bar> = int (held p)"
    using ok by (simp_all add: position_ok_def zero_vwap_def)
  have step: "pi_position p1 = pi_position p \<and> unat q = fill_qty r p \<and> zero_vwap p1 \<and>
      held p1 < 2 ^ 31 \<and> \<bar>pi_position p + ?s * ?f\<bar> = int (held p1) \<and> unat q < 2 ^ 31"
  proof (cases ?o)
    case True
    then have fq: "held p + unat (rs_exec_qty r) < 2 ^ 31" "fill_qty r p = unat (rs_exec_qty r)"
      using fits False by (auto simp: fill_fits_def fill_qty_def)
    have "sgn (pi_position p) \<in> {0, ?s}" using fits True by (simp add: fill_fits_def)
    then have "\<bar>pi_position p + ?s * ?f\<bar> = \<bar>pi_position p\<bar> + ?f"
      using fits by (cases "rs_side r") (auto simp: fill_fits_def sgn_if split: if_splits)
    moreover have "p1 = addOpen (rs_exec_qty r) (rs_price r) TODAY p" "q = rs_exec_qty r"
      using p1 True by auto
    ultimately show ?thesis using addOpen_spec[OF fq(1), of "rs_price r"] fq abs z by simp
  next
    case no: False
    have c: "closePosition (rs_exec_qty r) (rs_price r) (rs_side r) (rs_offset r) p = (p1, q)"
      using p1 no by simp
    note cs = closePosition_spec[OF c h]
    have fq: "unat q = fill_qty r p" using cs(3) False no by (simp add: fill_qty_def)
    have le: "unat q \<le> held p" using cs(3) by (simp add: closeable_def held_def split: if_splits)
    have "sgn (pi_position p) \<in> {0, - ?s}" using fits no by (simp add: fill_fits_def)
    then have "\<bar>pi_position p + ?s * ?f\<bar> = \<bar>pi_position p\<bar> - ?f"
      using fits le abs fq by (cases "rs_side r") (auto simp: fill_fits_def sgn_if split: if_splits)
    then show ?thesis using cs(1,4) cs(6)[OF z] fq le h abs by simp
  qed
  have qi: "qty_int32 q = ?f" using step qty_int32_nat[of q] by simp
  have b: "\<bar>?s * ?f\<bar> < 2 ^ 31" "\<bar>pi_position p + ?s * ?f\<bar> < 2 ^ 31"
    using step side by (auto simp: abs_mult)
  have run: "onFill mem r p = refresh_pnl mem (p1\<lparr>pi_position := pi_position p + ?s * ?f\<rparr>)"
  proof -
    have "pi_position p1 = pi_position p" using step by blast
    then show ?thesis using False b by (simp add: onFill_def p1 qi abs_less_iff)
  qed
  obtain p' where "refresh_pnl mem (p1\<lparr>pi_position := pi_position p + ?s * ?f\<rparr>) = Ok p' ()"
    "pi_position p' = pi_position p + ?s * ?f" "pi_days p' = pi_days p1"
    "pi_total_pnl p' = pi_realized_pnl p' + pi_unrealized_pnl p'"
    using refresh_pnl_spec[of "p1\<lparr>pi_position := pi_position p + ?s * ?f\<rparr>" mem] b by auto
  then show ?thesis using run step by (auto simp: position_ok_def zero_vwap_def held_set)
qed

text \<open>C16: A fill that fits the account (an opening one in the direction of the position, a closing one
  against it) is applied without undefined behaviour: the net position moves by the quantity that
  counts (all of an opening fill, at most what is held of a closing one), its size stays the sum of
  the quantities of the two days, and an empty day has no average price.\<close>

theorem position_fill_ok:
  assumes "position_ok p" "fill_fits r p"
  shows "\<exists>p'. onFill mem r p = Ok p' () \<and> position_ok p' \<and>
    pi_position p' = pi_position p + sideToValue (rs_side r) * int (fill_qty r p) \<and>
    (p' = p \<or> pi_total_pnl p' = pi_realized_pnl p' + pi_unrealized_pnl p')"
  using assms by (rule onFill_fits)

definition sample_fill :: client_response where
  "sample_fill = client_response_init\<lparr>rs_type := FILLED, rs_ticker_id := 0, rs_side := BUY,
     rs_price := 100, rs_exec_qty := 3, rs_leaves_qty := 0, rs_offset := OPEN\<rparr>"

lemma position_init_ok: "position_ok position_info_init"
  by (simp add: position_ok_def position_info_init_def position_day_init_def held_set)

lemma position_fill_ok_witness:
  "\<exists>p'. onFill (\<lambda>_. bbo_init) sample_fill position_info_init = Ok p' () \<and> position_ok p' \<and>
     pi_position p' = 3"
proof -
  have "fill_fits sample_fill position_info_init"
    by (simp add: fill_fits_def sample_fill_def position_info_init_def position_day_init_def held_set
        fill_qty_def)
  from position_fill_ok[OF position_init_ok this, of "\<lambda>_. bbo_init"] show ?thesis
    by (auto simp: sample_fill_def position_info_init_def fill_qty_def Qty_INVALID_def)
qed

section \<open>Profit and loss of a round trip\<close>

text \<open>Arithmetic on integers of at most 53 bits is exact.\<close>

abbreviation fint :: "int \<Rightarrow> f64" where "fint i \<equiv> Fin (of_int i)"

lemma round64_int: "\<bar>i\<bar> \<le> 2 ^ 53 \<Longrightarrow> round64 (of_int i) = fint i"
  using of_integer_exact[of i] by (simp add: of_integer_def)

lemma fint_add: "\<bar>i + j\<bar> \<le> 2 ^ 53 \<Longrightarrow> fint i + fint j = fint (i + j)"
  using round64_int[of "i + j"] by simp

lemma fint_diff: "\<bar>i - j\<bar> \<le> 2 ^ 53 \<Longrightarrow> fint i - fint j = fint (i - j)"
  using round64_int[of "i - j"] by (simp add: minus_f64_def)

lemma fint_mult: "\<bar>i * j\<bar> \<le> 2 ^ 53 \<Longrightarrow> fint i * fint j = fint (i * j)"
  using round64_int[of "i * j"] by simp

lemma fint_div: "\<bar>i\<bar> \<le> 2 ^ 53 \<Longrightarrow> j \<noteq> 0 \<Longrightarrow> fint (i * j) div fint j = fint i"
  using round64_int[of i] by simp

lemma zero_fint: "(0 :: f64) = fint 0"
  by (simp add: zero_f64_def)

lemma abs_factor_le: "\<bar>a * int q\<bar> \<le> n \<Longrightarrow> 0 < q \<Longrightarrow> \<bar>a\<bar> \<le> (n :: int)"
  using mult_left_mono[of 1 "int q" "\<bar>a\<bar>"] by (simp add: abs_mult)

lemma qty_double_fint: "qty_double q = fint (int (unat q))"
proof -
  have "uint q < 2 ^ 32" using unsigned_less[of q, where ?'a = int] by simp
  then show ?thesis using of_integer_exact[of "uint q"] uint_ge_0[of q] by simp
qed

lemma vwap_flat:
  assumes a: "\<bar>i * int n\<bar> \<le> 2 ^ 53" and n: "0 < n"
  shows "(0 * fint 0 + fint i * fint (int n)) div fint (int n) = fint i"
proof -
  have "0 * fint 0 = fint 0" using fint_mult[of 0 0] by (simp only: zero_fint) simp
  moreover have "fint 0 + fint (i * int n) = fint (i * int n)" using fint_add[of 0 "i * int n"] a by simp
  moreover have "fint (i * int n) div fint (int n) = fint i"
    by (rule fint_div[OF abs_factor_le[OF a n]]) (use n in simp)
  ultimately show ?thesis by (simp only: fint_mult[OF a])
qed

text \<open>Opening from flat sets the average price to the fill's price.\<close>

lemma addOpen_flat:
  assumes day: "pi_days p TODAY = \<lparr>pd_qty = 0, pd_open_vwap = 0\<rparr>"
    and q: "0 < unat q" and a: "\<bar>sint px * int (unat q)\<bar> \<le> 2 ^ 53"
  shows "addOpen q px TODAY p = set_day TODAY \<lparr>pd_qty = q, pd_open_vwap = fint (sint px)\<rparr> p"
proof -
  have px: "price_double px = fint (sint px)" by (rule of_integer_exact[OF abs_factor_le[OF a q]])
  have z: "qty_double 0 = fint 0" using of_integer_exact[of 0] by simp
  have "(0 * qty_double 0 + price_double px * qty_double q) div qty_double q = fint (sint px)"
    using vwap_flat[OF a q] by (simp only: px qty_double_fint[of q] z)
  moreover have "q \<noteq> 0" using q by auto
  ultimately show ?thesis by (simp only: addOpen_def day Let_def position_day_info.simps add_0_left if_False)
qed

lemma consume_none: "pd_qty (pi_days p d) = 0 \<Longrightarrow> consume px sd d (p, m, c) = (p, m, c)"
  by (simp add: consume_def)

text \<open>Closing all of a day at once realises the difference of the prices.\<close>

lemma realized_exact:
  assumes ab: "\<bar>(b - a) * int n\<bar> \<le> 2 ^ 53" and n: "0 < n" and sd: "sd \<in> {BUY, SELL}"
  shows "fint 0 + (if sideToValue sd > 0 then fint a - fint b else fint b - fint a) * fint (int n) =
    fint (- sideToValue sd * (b - a) * int n)"
proof -
  have swap: "(a - b) * int n = - ((b - a) * int n)" by (simp add: algebra_simps)
  have ba: "\<bar>(a - b) * int n\<bar> \<le> 2 ^ 53" using ab unfolding swap by simp
  have "fint a - fint b = fint (a - b)" "fint b - fint a = fint (b - a)"
    by (rule fint_diff[OF abs_factor_le[OF ba n]], rule fint_diff[OF abs_factor_le[OF ab n]])
  moreover have "fint 0 + fint ((a - b) * int n) = fint ((a - b) * int n)"
    "fint 0 + fint ((b - a) * int n) = fint ((b - a) * int n)"
    using fint_add[of 0 "(a - b) * int n"] fint_add[of 0 "(b - a) * int n"] ab ba
    by (simp_all only: add_0_left)
  ultimately have "fint 0 + (if sideToValue sd > 0 then fint a - fint b else fint b - fint a) * fint (int n) =
      fint (if sideToValue sd > 0 then (a - b) * int n else (b - a) * int n)"
    by (cases "sideToValue sd > 0") (simp_all only: fint_mult[OF ab] fint_mult[OF ba] if_True if_False)
  also have "(if sideToValue sd > 0 then (a - b) * int n else (b - a) * int n) =
      - sideToValue sd * (b - a) * int n"
    using sd swap by auto
  finally show ?thesis .
qed

lemma consume_all:
  assumes day: "pi_days p d = \<lparr>pd_qty = q, pd_open_vwap = fint a\<rparr>" and q: "0 < unat q"
    and sd: "sd \<in> {BUY, SELL}" and r: "pi_realized_pnl p = fint 0"
    and b: "\<bar>sint px\<bar> \<le> 2 ^ 53" and ab: "\<bar>(sint px - a) * int (unat q)\<bar> \<le> 2 ^ 53"
  shows "consume px sd d (p, q, 0) =
    (set_day d \<lparr>pd_qty = 0, pd_open_vwap = 0\<rparr>
       (p\<lparr>pi_realized_pnl := fint (- sideToValue sd * (sint px - a) * int (unat q))\<rparr>), 0, q)"
proof -
  have "q \<noteq> 0" using q by auto
  then show ?thesis
    by (simp only: consume_def Let_def day prod.case position_day_info.simps min.idem if_False diff_self
        simp_thms if_True r of_integer_exact[OF b] qty_double_fint realized_exact[OF ab q sd] add_0_left)
qed

text \<open>C20: A round trip from flat: opening \<open>q\<close> at price \<open>a\<close> and closing it at price \<open>b\<close> on the other side,
  while the amounts fit in the 53 bits of a double, leaves the position flat with the realised
  profit exactly \<open>(b - a) * q\<close> for a long and \<open>(a - b) * q\<close> for a short, whatever the BBO was
  meanwhile; in between the average price of the day is \<open>a\<close>.\<close>

theorem round_trip_pnl:
  assumes flat: "position_ok p" "held p = 0" "pi_realized_pnl p = Fin 0"
    and opn: "rs_offset r = OPEN" "rs_side r \<in> {BUY, SELL}" "0 < unat (rs_exec_qty r)"
      "unat (rs_exec_qty r) < 2 ^ 31" "\<bar>sint (rs_price r) * int (unat (rs_exec_qty r))\<bar> \<le> 2 ^ 53"
    and closing: "rs_offset r' \<in> {CLOSE, CLOSE_TODAY}" "rs_exec_qty r' = rs_exec_qty r"
      "rs_side r' = (if rs_side r = BUY then SELL else BUY)" "\<bar>sint (rs_price r')\<bar> \<le> 2 ^ 53"
      "\<bar>(sint (rs_price r') - sint (rs_price r)) * int (unat (rs_exec_qty r))\<bar> \<le> 2 ^ 53"
  shows "\<exists>p1 p2. onFill mem r p = Ok p1 () \<and> pd_open_vwap (pi_days p1 TODAY) = Fin (of_int (sint (rs_price r))) \<and>
    onFill mem' r' p1 = Ok p2 () \<and> pi_position p2 = 0 \<and> held p2 = 0 \<and>
    pi_realized_pnl p2 = Fin (of_int (sideToValue (rs_side r) *
      (sint (rs_price r') - sint (rs_price r)) * int (unat (rs_exec_qty r)))) \<and>
    pi_total_pnl p2 = pi_realized_pnl p2"
proof -
  let ?q = "rs_exec_qty r" and ?a = "sint (rs_price r)" and ?v = "sideToValue (rs_side r)"
  have days: "pi_days p d = \<lparr>pd_qty = 0, pd_open_vwap = 0\<rparr>" if "d \<in> {TODAY, YESTERDAY}" for d
    using flat that by (auto simp: position_ok_def held_set unat_eq_0 intro: position_day_info.equality)
  have pos: "pi_position p = 0" using flat by (simp add: position_ok_def)
  have q: "?q \<noteq> 0" "?q \<noteq> Qty_INVALID" "qty_int32 ?q = int (unat ?q)"
    using opn(3,4) qty_int32_nat[of ?q] Qty_INVALID_nat by (auto simp del: unsigned_minus_1_eq_mask)
  have v: "?v \<in> {1, - 1}" "sideToValue (rs_side r') = - ?v" "rs_side r' \<in> {BUY, SELL}"
    using opn(2) closing(3) by auto
  have fits: "\<bar>?v * int (unat ?q)\<bar> < 2 ^ 31"
  proof -
    have "int (unat ?q) < int (2 ^ 31)" using opn(4) by (simp only: of_nat_less_iff)
    then show ?thesis unfolding abs_sign_mult[OF v(1)] by simp
  qed
  let ?p = "(set_day TODAY \<lparr>pd_qty = ?q, pd_open_vwap = fint ?a\<rparr> p)\<lparr>pi_position := ?v * int (unat ?q)\<rparr>"
  have "onFill mem r p = refresh_pnl mem ?p"
    using q opn pos fits days[of TODAY] addOpen_flat[of p ?q "rs_price r"]
    by (simp add: onFill_def Let_def abs_less_iff)
  then obtain p1 where p1: "onFill mem r p = Ok p1 ()" "pi_position p1 = ?v * int (unat ?q)"
    "pi_days p1 = pi_days ?p" "pi_realized_pnl p1 = fint 0"
    using refresh_pnl_spec[of ?p mem] fits flat(3) by auto
  let ?r = "fint (- sideToValue (rs_side r') * (sint (rs_price r') - ?a) * int (unat ?q))"
  let ?p1 = "set_day TODAY \<lparr>pd_qty = 0, pd_open_vwap = 0\<rparr> (p1\<lparr>pi_realized_pnl := ?r\<rparr>)"
  have "consume (rs_price r') (rs_side r') TODAY (p1, ?q, 0) = (?p1, 0, ?q)"
    using p1 closing opn v by (intro consume_all) simp_all
  moreover have "consume (rs_price r') (rs_side r') YESTERDAY (p1, ?q, 0) = (p1, ?q, 0)"
    using p1(3) days[of YESTERDAY] by (intro consume_none) simp
  ultimately have "closePosition ?q (rs_price r') (rs_side r') (rs_offset r') p1 = (?p1, ?q)"
    using closing(1) by (auto simp: closePosition_def)
  then have "onFill mem' r' p1 = refresh_pnl mem' (?p1\<lparr>pi_position := 0\<rparr>)"
    using q closing(1,2) p1(2) fits v by (auto simp: onFill_def abs_less_iff)
  moreover have "refresh_pnl mem' (?p1\<lparr>pi_position := 0\<rparr>) =
      Ok (?p1\<lparr>pi_position := 0, pi_unrealized_pnl := 0, pi_total_pnl := ?r + 0\<rparr>) ()"
    by (simp add: refresh_flat)
  moreover have "?r + 0 = ?r"
  proof -
    have "\<bar>- sideToValue (rs_side r') * (sint (rs_price r') - ?a) * int (unat ?q) + 0\<bar> \<le> 2 ^ 53"
      using closing(5) v(1,2) by (auto simp: abs_mult abs_minus_commute)
    from fint_add[OF this] show ?thesis by (simp only: zero_fint add_0_right)
  qed
  ultimately show ?thesis
    using p1 days[of YESTERDAY] v(2) by (auto simp: held_set)
qed

lemma round_trip_pnl_witness:
  "\<exists>p1 p2. onFill (\<lambda>_. bbo_init) sample_fill position_info_init = Ok p1 () \<and>
     onFill (\<lambda>_. bbo_init) (sample_fill\<lparr>rs_side := SELL, rs_offset := CLOSE, rs_price := 110\<rparr>) p1 = Ok p2 () \<and>
     pi_realized_pnl p2 = Fin 30"
  using round_trip_pnl[OF position_init_ok, of sample_fill "sample_fill\<lparr>rs_side := SELL, rs_offset := CLOSE, rs_price := 110\<rparr>"
      "\<lambda>_. bbo_init" "\<lambda>_. bbo_init"]
  by (auto simp: position_info_init_def position_day_init_def held_set sample_fill_def zero_f64_def)

text \<open>
  The other direction is not netted: an opening fill against the position adds to the day's quantity
  and subtracts from the net position, and the two no longer agree.
\<close>

lemma opening_against_position:
  "\<exists>p1 p2. onFill (\<lambda>_. bbo_init) sample_fill position_info_init = Ok p1 () \<and>
     onFill (\<lambda>_. bbo_init) (sample_fill\<lparr>rs_side := SELL, rs_exec_qty := 1\<rparr>) p1 = Ok p2 () \<and>
     pi_position p2 = 2 \<and> held p2 = 4 \<and> \<not> position_ok p2"
  by (simp add: onFill_def sample_fill_def position_info_init_def position_day_init_def addOpen_def Let_def
      refresh_pnl_def recalculateUnrealizedPnl_def Qty_INVALID_def held_set position_ok_def)

end
