(* ===== verification/RiskManager.thy ===== *)
theory RiskManager
  imports PositionKeeper
begin

text \<open>
  \<open>trading/strategy/risk_manager.h\<close>: the pre-trade check and the resolution of close offsets.

  The manager only reads the position keeper it points to; \<open>rm_keeper\<close> is the keeper at the time of
  the call, \<open>None\<close> for the null pointer. The members are \<open>noexcept\<close>, so an exception of
  \<open>getPositionInfo\<close> ends the process.
\<close>

text \<open>A query returns a value and changes nothing; \<open>query\<close> continues with its value in state \<open>s\<close>.\<close>

definition query :: "'s \<Rightarrow> (unit, 'a) outcome \<Rightarrow> ('a \<Rightarrow> ('s, 'b) outcome) \<Rightarrow> ('s, 'b) outcome" where
  "query s m f = then_do (on_part (\<lambda>_. s) m) (\<lambda>_. f)"

lemma query_simps [simp]:
  "query s (Ok u a) f = f a" "query s (Throw u e) f = Throw s e" "query s (Abort m) f = Abort m"
  "query s Hang f = Hang" "query s Undef f = Undef"
  by (simp_all add: query_def)

datatype risk_check_result =
    Risk_INVALID | ORDER_TOO_LARGE | POSITION_TOO_LARGE | CLOSE_QUANTITY_TOO_LARGE
  | LOSS_TOO_LARGE | ALLOWED

record risk_limits =
  rl_max_order_size :: qty
  rl_max_position :: qty
  rl_max_loss :: f64

definition risk_limits_init :: risk_limits where
  "risk_limits_init = \<lparr>rl_max_order_size = Qty_INVALID, rl_max_position = Qty_INVALID, rl_max_loss = 0\<rparr>"

record risk_manager =
  rm_keeper :: "position_keeper option"
  rm_limits :: risk_limits

text \<open>\<open>getPositionInfo\<close> as the \<open>noexcept\<close> members call it.\<close>

definition position_of :: "ticker_id \<Rightarrow> position_keeper \<Rightarrow> (position_info \<Rightarrow> (unit, 'a) outcome) \<Rightarrow>
    (unit, 'a) outcome" where
  "position_of t k f =
     (case getPositionInfo t k of
        Ok _ p \<Rightarrow> f p
      | _ \<Rightarrow> Abort ''std::terminate'')"

definition checkPreTradeRisk :: "ticker_id \<Rightarrow> side \<Rightarrow> order_offset \<Rightarrow> qty \<Rightarrow> risk_manager \<Rightarrow>
    (unit, risk_check_result) outcome" where
  "checkPreTradeRisk t sd off q rm =
     (case rm_keeper rm of
        None \<Rightarrow> Ok () Risk_INVALID
      | Some k \<Rightarrow>
          let lims = rm_limits rm;
              check_loss = (\<lambda>p.
                if rl_max_loss lims > 0 \<and> pi_total_pnl p < - rl_max_loss lims then Ok () LOSS_TOO_LARGE
                else Ok () ALLOWED)
          in if q = 0 \<or> q = Qty_INVALID \<or> sd = Side_INVALID then Ok () Risk_INVALID
             else if rl_max_order_size lims \<noteq> Qty_INVALID \<and> q > rl_max_order_size lims
             then Ok () ORDER_TOO_LARGE
             else position_of t k (\<lambda>p.
               if off = OPEN then
                 int32 (sideToValue sd * qty_int32 q) (\<lambda>d.
                 int32 (pi_position p + d) (\<lambda>next_position.
                   if rl_max_position lims \<noteq> Qty_INVALID then
                     int32 \<bar>next_position\<bar> (\<lambda>size.
                       if size > qty_int32 (rl_max_position lims) then Ok () POSITION_TOO_LARGE
                       else check_loss p)
                   else check_loss p))
               else if q > closeableQty off p then Ok () CLOSE_QUANTITY_TOO_LARGE
               else check_loss p))"

definition resolveCloseOffset :: "ticker_id \<Rightarrow> qty \<Rightarrow> risk_manager \<Rightarrow> (unit, order_offset) outcome" where
  "resolveCloseOffset t requested rm =
     (case rm_keeper rm of
        None \<Rightarrow> Ok () Offset_INVALID
      | Some k \<Rightarrow>
          if unat t \<ge> ME_MAX_TICKERS then Ok () Offset_INVALID
          else position_of t k (\<lambda>p. Ok () (closeOffsetFor requested p)))"

definition risk_closeableQty :: "ticker_id \<Rightarrow> order_offset \<Rightarrow> risk_manager \<Rightarrow> (unit, qty) outcome" where
  "risk_closeableQty t off rm =
     (case rm_keeper rm of
        None \<Rightarrow> Ok () 0
      | Some k \<Rightarrow>
          if unat t \<ge> ME_MAX_TICKERS then Ok () 0
          else position_of t k (\<lambda>p. Ok () (closeableQty off p)))"

lemma position_of_simps [simp]:
  "unat t < ME_MAX_TICKERS \<Longrightarrow> position_of t k f = f (pk_positions k (unat t))"
  "\<not> unat t < ME_MAX_TICKERS \<Longrightarrow> position_of t k f = Abort ''std::terminate''"
  by (simp_all add: position_of_def getPositionInfo_def at_position_def)

section \<open>What \<open>ALLOWED\<close> means\<close>

text \<open>The limits as the operator states them, over unbounded integers.\<close>

definition within_limits :: "risk_limits \<Rightarrow> side \<Rightarrow> order_offset \<Rightarrow> qty \<Rightarrow> position_info \<Rightarrow> bool" where
  "within_limits lims sd off q p \<longleftrightarrow>
     0 < q \<and> q \<noteq> Qty_INVALID \<and> sd \<noteq> Side_INVALID \<and>
     (rl_max_order_size lims = Qty_INVALID \<or> q \<le> rl_max_order_size lims) \<and>
     (off = OPEN \<longrightarrow> rl_max_position lims = Qty_INVALID \<or>
        \<bar>pi_position p + sideToValue sd * int (unat q)\<bar> \<le> int (unat (rl_max_position lims))) \<and>
     (off \<noteq> OPEN \<longrightarrow> q \<le> closeableQty off p) \<and>
     \<not> (rl_max_loss lims > 0 \<and> pi_total_pnl p < - rl_max_loss lims)"

text \<open>The sizes for which the 32-bit signed arithmetic of the check is exact.\<close>

definition risk_sizes_fit :: "risk_limits \<Rightarrow> side \<Rightarrow> order_offset \<Rightarrow> qty \<Rightarrow> position_info \<Rightarrow> bool" where
  "risk_sizes_fit lims sd off q p \<longleftrightarrow>
     (off = OPEN \<longrightarrow> unat q < 2 ^ 31 \<and> \<bar>sideToValue sd * int (unat q)\<bar> < 2 ^ 31 \<and>
        \<bar>pi_position p + sideToValue sd * int (unat q)\<bar> < 2 ^ 31 \<and>
        (rl_max_position lims = Qty_INVALID \<or> unat (rl_max_position lims) < 2 ^ 31))"

text \<open>C4: For a known ticker, and sizes within 31 bits, the pre-trade check answers and allows exactly
  the orders within the order size, position, closeable quantity and loss limits.\<close>

theorem risk_allows_within_limits:
  assumes k: "rm_keeper rm = Some k" and t: "unat t < ME_MAX_TICKERS"
    and fit: "risk_sizes_fit (rm_limits rm) sd off q (pk_positions k (unat t))"
  shows "\<exists>v. checkPreTradeRisk t sd off q rm = Ok () v \<and>
    (v = ALLOWED \<longleftrightarrow> within_limits (rm_limits rm) sd off q (pk_positions k (unat t)))"
proof (cases "off = OPEN")
  case True
  let ?p = "pk_positions k (unat t)" and ?l = "rm_limits rm"
  have b: "qty_int32 q = int (unat q)" "\<bar>sideToValue sd * int (unat q)\<bar> < 2 ^ 31"
    "\<bar>pi_position ?p + sideToValue sd * int (unat q)\<bar> < 2 ^ 31"
    and m: "rl_max_position ?l \<noteq> Qty_INVALID \<Longrightarrow>
      qty_int32 (rl_max_position ?l) = int (unat (rl_max_position ?l))"
    using fit True qty_int32_nat[of q] qty_int32_nat[of "rl_max_position ?l"]
    by (auto simp: risk_sizes_fit_def)
  define d where "d = sideToValue sd * int (unat q)"
  define n where "n = pi_position ?p + d"
  have i: "int32 d f = f d" "int32 n f = f n" "int32 \<bar>n\<bar> f = f \<bar>n\<bar>"
    for f :: "int \<Rightarrow> (unit, risk_check_result) outcome"
    using b(2,3) by (auto simp: d_def n_def int32_def)
  show ?thesis
    unfolding checkPreTradeRisk_def within_limits_def b(1) k option.case Let_def position_of_simps(1)[OF t]
      d_def[symmetric] i(1) n_def[symmetric] i(2,3) word_neq_0_conv[symmetric]
    using True m by (auto simp: not_less)
next
  case False
  then show ?thesis
    using k t unfolding checkPreTradeRisk_def within_limits_def word_neq_0_conv[symmetric]
    by (auto simp: Let_def not_less)
qed

definition sample_risk :: risk_manager where
  "sample_risk = \<lparr>rm_keeper = Some position_keeper_new,
     rm_limits = \<lparr>rl_max_order_size = Qty_INVALID, rl_max_position = 100, rl_max_loss = 0\<rparr>\<rparr>"

lemma risk_allows_within_limits_witness:
  "\<exists>v. checkPreTradeRisk 0 BUY OPEN 101 sample_risk = Ok () v \<and> v \<noteq> ALLOWED"
proof -
  have "risk_sizes_fit (rm_limits sample_risk) BUY OPEN 101 (pk_positions position_keeper_new (unat 0))"
    "\<not> within_limits (rm_limits sample_risk) BUY OPEN 101 (pk_positions position_keeper_new (unat 0))"
    by (simp_all add: risk_sizes_fit_def within_limits_def sample_risk_def position_keeper_new_def
        position_info_init_def Qty_INVALID_def)
  then show ?thesis
    using risk_allows_within_limits[of sample_risk position_keeper_new 0 BUY OPEN 101]
    by (auto simp: sample_risk_def ME_MAX_TICKERS_def)
qed

text \<open>
  Outside those sizes the check can be wrong: a quantity of \<open>2 ^ 32 - 50\<close> is the signed value
  \<open>- 50\<close>, so a position limit of 100 lets it pass; and a limit of \<open>2 ^ 31\<close> is a negative signed
  value that refuses even one contract.
\<close>

lemma position_limit_wraps:
  "checkPreTradeRisk 0 BUY OPEN (- 50) sample_risk = Ok () ALLOWED"
  "\<not> within_limits (rm_limits sample_risk) BUY OPEN (- 50) (pk_positions position_keeper_new 0)"
  by (simp_all add: checkPreTradeRisk_def sample_risk_def position_keeper_new_def position_info_init_def
      within_limits_def Let_def Qty_INVALID_def ME_MAX_TICKERS_def zero_f64_def)

lemma large_position_limit_refuses:
  "checkPreTradeRisk 0 BUY OPEN 1 (sample_risk\<lparr>rm_limits := (rm_limits sample_risk)
     \<lparr>rl_max_position := 2 ^ 31\<rparr>\<rparr>) = Ok () POSITION_TOO_LARGE"
  by (simp add: checkPreTradeRisk_def sample_risk_def position_keeper_new_def position_info_init_def
      Let_def Qty_INVALID_def ME_MAX_TICKERS_def)

end
