(* ===== verification/OrderManager.thy ===== *)
theory OrderManager
  imports RiskManager
begin

text \<open>
  \<open>trading/strategy/om_order.h\<close> and \<open>order_manager.{h,cpp}\<close>: one order per ticker and side, moved
  towards the wanted price and quantity by sending NEW and CANCEL requests.

  The manager sends through a pointer to the trade engine. Here it is a function \<open>send\<close> on the state
  \<open>'p\<close> of whatever takes the requests, \<open>None\<close> for the null pointer, and the operations work on the
  pair of the manager and that state. The locale \<open>request_port\<close> says what the manager relies on;
  the trade engine provides it.
\<close>

section \<open>\<open>om_order.h\<close>\<close>

datatype om_order_state = Order_INVALID | PENDING_NEW | LIVE | PENDING_CANCEL | DEAD

primrec omOrderStateToString :: "om_order_state \<Rightarrow> string" where
  "omOrderStateToString Order_INVALID = ''INVALID''"
| "omOrderStateToString PENDING_NEW = ''PENDING_NEW''"
| "omOrderStateToString LIVE = ''LIVE''"
| "omOrderStateToString PENDING_CANCEL = ''PENDING_CANCEL''"
| "omOrderStateToString DEAD = ''DEAD''"

record om_order =
  oo_ticker_id :: ticker_id
  oo_order_id :: order_id
  oo_side :: side
  oo_price :: price
  oo_qty :: qty
  oo_order_type :: order_type
  oo_offset :: order_offset
  oo_state :: om_order_state

definition om_order_init :: om_order where
  "om_order_init =
     \<lparr>oo_ticker_id = TickerId_INVALID, oo_order_id = OrderId_INVALID, oo_side = Side_INVALID,
      oo_price = Price_INVALID, oo_qty = Qty_INVALID, oo_order_type = OrderType_INVALID,
      oo_offset = Offset_INVALID, oo_state = Order_INVALID\<rparr>"

definition om_order_toString :: "om_order \<Rightarrow> string" where
  "om_order_toString o' =
     ''OMOrder[ticker:'' @ show_u (oo_ticker_id o') @ '' order:'' @ show_u (oo_order_id o') @
     '' side:'' @ sideToString (oo_side o') @ '' price:'' @ show_s (oo_price o') @
     '' qty:'' @ show_u (oo_qty o') @ '' order-type:'' @ orderTypeToString (oo_order_type o') @
     '' offset:'' @ orderOffsetToString (oo_offset o') @
     '' state:'' @ omOrderStateToString (oo_state o') @ '']''"

section \<open>The manager\<close>

text \<open>\<open>om_orders\<close> is the two-dimensional array, by ticker and \<open>sideToIndex\<close>.\<close>

record order_manager =
  om_client_id :: client_id
  om_orders :: "nat \<Rightarrow> nat \<Rightarrow> om_order"
  om_next_order_id :: order_id

definition order_manager_new :: "client_id \<Rightarrow> order_manager" where
  "order_manager_new c =
     \<lparr>om_client_id = c, om_orders = (\<lambda>_ _. om_order_init), om_next_order_id = 1\<rparr>"

type_synonym 'p sender = "client_request \<Rightarrow> 'p \<Rightarrow> ('p, unit) outcome"

definition put_order :: "nat \<Rightarrow> nat \<Rightarrow> om_order \<Rightarrow> order_manager \<Rightarrow> order_manager" where
  "put_order t i o' om = om\<lparr>om_orders := (om_orders om)(t := (om_orders om t)(i := o'))\<rparr>"

text \<open>\<open>orders_.at(ticker).at(sideToIndex(side))\<close>: the second index is always in range.\<close>

definition at_order :: "ticker_id \<Rightarrow> 's \<Rightarrow> ('s, 'a) outcome \<Rightarrow> ('s, 'a) outcome" where
  "at_order t s m = (if unat t < ME_MAX_TICKERS then m else Throw s (Out_of_range ''array::at''))"

definition getOrder :: "ticker_id \<Rightarrow> side \<Rightarrow> order_manager \<Rightarrow> (order_manager, om_order) outcome" where
  "getOrder t sd om = at_order t om (Ok om (om_orders om (unat t) (sideToIndex sd)))"

definition onOrderUpdate :: "client_response \<Rightarrow> order_manager \<Rightarrow> order_manager" where
  "onOrderUpdate r om =
     (if unat (rs_ticker_id r) \<ge> ME_MAX_TICKERS then om
      else
        let t = unat (rs_ticker_id r); i = sideToIndex (rs_side r); o' = om_orders om t i;
            dead = o'\<lparr>oo_state := DEAD\<rparr>
        in if oo_order_id o' \<noteq> rs_client_order_id r then om
           else put_order t i
             (case rs_type r of
                ACCEPTED \<Rightarrow> o'\<lparr>oo_state := LIVE\<rparr>
              | FILLED \<Rightarrow>
                  (let o'' = o'\<lparr>oo_qty := rs_leaves_qty r\<rparr>
                   in if oo_qty o'' = 0 then o''\<lparr>oo_state := DEAD\<rparr> else o'')
              | CANCELED \<Rightarrow> dead
              | REJECTED \<Rightarrow> dead
              | CANCEL_REJECTED \<Rightarrow>
                  (if oo_state o' = PENDING_CANCEL then o'\<lparr>oo_state := LIVE\<rparr> else o')
              | Response_INVALID \<Rightarrow> o') om)"

definition newOrder :: "'p sender option \<Rightarrow> risk_manager option \<Rightarrow> nat \<Rightarrow> nat \<Rightarrow> ticker_id \<Rightarrow> price \<Rightarrow>
    side \<Rightarrow> qty \<Rightarrow> order_offset \<Rightarrow> order_manager \<times> 'p \<Rightarrow> (order_manager \<times> 'p, unit) outcome" where
  "newOrder engine risk t' i t px sd q off s =
     (case (engine, risk) of
        (Some send, Some rm) \<Rightarrow>
          query s (checkPreTradeRisk t sd off q rm) (\<lambda>v.
            if v \<noteq> ALLOWED then Ok s ()
            else
              let om = fst s;
                  request = client_request_init
                    \<lparr>rq_type := Request_NEW, rq_client_id := om_client_id om, rq_ticker_id := t,
                     rq_order_id := om_next_order_id om, rq_side := sd, rq_price := px, rq_qty := q,
                     rq_order_type := LIMIT, rq_offset := off\<rparr>
              in then_do (on_part (Pair om) (send request (snd s))) (\<lambda>(om, p) _.
                   Ok (put_order t' i
                         \<lparr>oo_ticker_id = t, oo_order_id = om_next_order_id om, oo_side = sd,
                          oo_price = px, oo_qty = q, oo_order_type = rq_order_type request,
                          oo_offset = off, oo_state = PENDING_NEW\<rparr>
                         (om\<lparr>om_next_order_id := om_next_order_id om + 1\<rparr>), p) ()))
      | _ \<Rightarrow> Ok s ())"

definition om_cancelOrder :: "'p sender option \<Rightarrow> nat \<Rightarrow> nat \<Rightarrow> order_manager \<times> 'p \<Rightarrow>
    (order_manager \<times> 'p, unit) outcome" where
  "om_cancelOrder engine t i s =
     (let om = fst s; o' = om_orders om t i
      in case engine of
           None \<Rightarrow> Ok s ()
         | Some send \<Rightarrow>
             if oo_state o' \<noteq> LIVE then Ok s ()
             else
               let request = client_request_init
                     \<lparr>rq_type := Request_CANCEL, rq_client_id := om_client_id om,
                      rq_ticker_id := oo_ticker_id o', rq_order_id := oo_order_id o',
                      rq_side := oo_side o', rq_price := oo_price o', rq_qty := oo_qty o',
                      rq_order_type := oo_order_type o', rq_offset := oo_offset o'\<rparr>
               in then_do (on_part (Pair om) (send request (snd s))) (\<lambda>(om, p) _.
                    Ok (put_order t i ((om_orders om t i)\<lparr>oo_state := PENDING_CANCEL\<rparr>) om, p) ()))"

text \<open>\<open>moveOrder\<close> takes the order by reference: here its place \<open>t'\<close>, \<open>i\<close> in the array.\<close>

definition moveOrder :: "'p sender option \<Rightarrow> risk_manager option \<Rightarrow> nat \<Rightarrow> nat \<Rightarrow> ticker_id \<Rightarrow> price \<Rightarrow>
    side \<Rightarrow> qty \<Rightarrow> order_offset \<Rightarrow> order_manager \<times> 'p \<Rightarrow> (order_manager \<times> 'p, unit) outcome" where
  "moveOrder engine risk t' i t px sd q off s =
     (let o' = om_orders (fst s) t' i;
          new = (if px \<noteq> Price_INVALID \<and> q > 0 then newOrder engine risk t' i t px sd q off s else Ok s ())
      in case oo_state o' of
           LIVE \<Rightarrow>
             (if oo_price o' \<noteq> px \<or> oo_qty o' \<noteq> q \<or> oo_offset o' \<noteq> off
              then om_cancelOrder engine t' i s else Ok s ())
         | Order_INVALID \<Rightarrow> new
         | DEAD \<Rightarrow> new
         | PENDING_NEW \<Rightarrow> Ok s ()
         | PENDING_CANCEL \<Rightarrow> Ok s ())"

definition moveOrders :: "'p sender option \<Rightarrow> risk_manager option \<Rightarrow> ticker_id \<Rightarrow> price \<Rightarrow> price \<Rightarrow> qty \<Rightarrow>
    order_manager \<times> 'p \<Rightarrow> (order_manager \<times> 'p, unit) outcome" where
  "moveOrders engine risk t bid ask clip s =
     at_order t s
       (then_do (moveOrder engine risk (unat t) (sideToIndex BUY) t bid BUY clip OPEN s) (\<lambda>s _.
          moveOrder engine risk (unat t) (sideToIndex SELL) t ask SELL clip OPEN s))"

definition moveOpenOrder :: "'p sender option \<Rightarrow> risk_manager option \<Rightarrow> ticker_id \<Rightarrow> price \<Rightarrow> side \<Rightarrow> qty \<Rightarrow>
    order_manager \<times> 'p \<Rightarrow> (order_manager \<times> 'p, unit) outcome" where
  "moveOpenOrder engine risk t px sd q s =
     at_order t s (moveOrder engine risk (unat t) (sideToIndex sd) t px sd q OPEN s)"

definition moveCloseOrder :: "'p sender option \<Rightarrow> risk_manager option \<Rightarrow> ticker_id \<Rightarrow> price \<Rightarrow> side \<Rightarrow> qty \<Rightarrow>
    order_manager \<times> 'p \<Rightarrow> (order_manager \<times> 'p, unit) outcome" where
  "moveCloseOrder engine risk t px sd q s =
     (case risk of
        None \<Rightarrow> Ok s ()
      | Some rm \<Rightarrow>
          query s (resolveCloseOffset t q rm) (\<lambda>off.
            if off = Offset_INVALID then Ok s ()
            else query s (risk_closeableQty t off rm) (\<lambda>available_qty.
              let order_qty = min q available_qty
              in if order_qty = 0 then Ok s ()
                 else query s (checkPreTradeRisk t sd off order_qty rm) (\<lambda>v.
                   if v \<noteq> ALLOWED then Ok s ()
                   else at_order t s
                     (moveOrder engine risk (unat t) (sideToIndex sd) t px sd order_qty off s)))))"

section \<open>What the manager needs of the engine\<close>

text \<open>
  A port takes a request by appending it to its log (the trace, which the engine sets, aside) and
  never throws; it may end the process, when the queue is full.
\<close>

locale request_port =
  fixes send :: "client_request \<Rightarrow> 'p \<Rightarrow> ('p, unit) outcome"
    and sent :: "'p \<Rightarrow> client_request list"
    and good :: "'p \<Rightarrow> bool"
  assumes send_appends: "good p \<Longrightarrow> rq_trace r = trace_init \<Longrightarrow> send r p = Ok p' u \<Longrightarrow>
      good p' \<and> sent p' = sent p @ [r]"
    and send_no_throw: "good p \<Longrightarrow> send r p \<noteq> Throw p' e"

text \<open>The plainest port is the log itself; every operation on a lawful port does what it does on it.\<close>

definition list_send :: "client_request list sender" where
  "list_send r l = Ok (l @ [r]) ()"

definition port_sim :: "('p \<Rightarrow> bool) \<Rightarrow> ('p \<Rightarrow> client_request list) \<Rightarrow>
    (order_manager \<times> 'p, 'a) outcome \<Rightarrow> (order_manager \<times> client_request list, 'a) outcome \<Rightarrow> bool" where
  "port_sim good sent m m' \<longleftrightarrow>
     (case m of
        Ok s a \<Rightarrow> good (snd s) \<and> m' = Ok (fst s, sent (snd s)) a
      | Throw s e \<Rightarrow> good (snd s) \<and> m' = Throw (fst s, sent (snd s)) e
      | _ \<Rightarrow> True)"

lemma port_sim_Ok [simp]:
  "port_sim good sent (Ok s a) m' \<longleftrightarrow> good (snd s) \<and> m' = Ok (fst s, sent (snd s)) a"
  "port_sim good sent (Throw s e) m' \<longleftrightarrow> good (snd s) \<and> m' = Throw (fst s, sent (snd s)) e"
  "port_sim good sent (Abort x) m'" "port_sim good sent Hang m'" "port_sim good sent Undef m'"
  by (simp_all add: port_sim_def)

context request_port
begin

lemma sim_then_do:
  assumes "port_sim good sent m m'" "\<And>s a. good (snd s) \<Longrightarrow> port_sim good sent (f s a) (f' (fst s, sent (snd s)) a)"
  shows "port_sim good sent (then_do m f) (then_do m' f')"
  using assms by (cases m) auto

lemma sim_query:
  assumes "good p" "\<And>v. port_sim good sent (f v) (f' v)"
  shows "port_sim good sent (query (om, p) m f) (query (om, sent p) m f')"
  using assms by (cases m) auto

lemma sim_send:
  assumes "good p" "rq_trace r = trace_init"
  shows "port_sim good sent (on_part (Pair om) (send r p)) (on_part (Pair om) (list_send r (sent p)))"
  using send_appends[OF assms] send_no_throw[OF assms(1)]
  by (cases "send r p") (auto simp: list_send_def)

lemma sim_newOrder:
  "good p \<Longrightarrow> port_sim good sent (newOrder (Some send) risk t' i t px sd q off (om, p))
     (newOrder (Some list_send) risk t' i t px sd q off (om, sent p))"
  unfolding newOrder_def
  by (cases risk) (auto simp: Let_def client_request_init_def intro!: sim_query sim_then_do sim_send)

lemma sim_cancel:
  "good p \<Longrightarrow> port_sim good sent (om_cancelOrder (Some send) t i (om, p))
     (om_cancelOrder (Some list_send) t i (om, sent p))"
  unfolding om_cancelOrder_def
  by (auto simp: Let_def client_request_init_def intro!: sim_then_do sim_send)

lemma sim_move:
  "good p \<Longrightarrow> port_sim good sent (moveOrder (Some send) risk t' i t px sd q off (om, p))
     (moveOrder (Some list_send) risk t' i t px sd q off (om, sent p))"
  unfolding moveOrder_def
  by (auto simp: Let_def sim_newOrder sim_cancel split: om_order_state.split)

lemma sim_moveOrders:
  "good p \<Longrightarrow> port_sim good sent (moveOrders (Some send) risk t bid ask clip (om, p))
     (moveOrders (Some list_send) risk t bid ask clip (om, sent p))"
  unfolding moveOrders_def at_order_def
  by (auto intro!: sim_then_do sim_move)

lemma sim_open:
  "good p \<Longrightarrow> port_sim good sent (moveOpenOrder (Some send) risk t px sd q (om, p))
     (moveOpenOrder (Some list_send) risk t px sd q (om, sent p))"
  unfolding moveOpenOrder_def at_order_def by (auto intro!: sim_move)

lemma sim_close:
  "good p \<Longrightarrow> port_sim good sent (moveCloseOrder (Some send) risk t px sd q (om, p))
     (moveCloseOrder (Some list_send) risk t px sd q (om, sent p))"
  unfolding moveCloseOrder_def at_order_def
  by (cases risk) (auto simp: Let_def intro!: sim_query sim_move)

end

section \<open>Runs of the manager\<close>

definition news :: "client_request list \<Rightarrow> client_request list" where
  "news l = filter (\<lambda>r. rq_type r = Request_NEW) l"

lemma news_append [simp]: "news (l @ l') = news l @ news l'"
  by (simp add: news_def)

lemma news_simps [simp]:
  "news [] = []" "rq_type r = Request_NEW \<Longrightarrow> news [r] = [r]" "rq_type r = Request_CANCEL \<Longrightarrow> news [r] = []"
  by (simp_all add: news_def)

definition new_request :: "order_manager \<Rightarrow> ticker_id \<Rightarrow> price \<Rightarrow> side \<Rightarrow> qty \<Rightarrow> order_offset \<Rightarrow> client_request" where
  "new_request om t px sd q off = client_request_init
     \<lparr>rq_type := Request_NEW, rq_client_id := om_client_id om, rq_ticker_id := t,
      rq_order_id := om_next_order_id om, rq_side := sd, rq_price := px, rq_qty := q,
      rq_order_type := LIMIT, rq_offset := off\<rparr>"

definition cancel_request :: "order_manager \<Rightarrow> om_order \<Rightarrow> client_request" where
  "cancel_request om o' = client_request_init
     \<lparr>rq_type := Request_CANCEL, rq_client_id := om_client_id om, rq_ticker_id := oo_ticker_id o',
      rq_order_id := oo_order_id o', rq_side := oo_side o', rq_price := oo_price o', rq_qty := oo_qty o',
      rq_order_type := oo_order_type o', rq_offset := oo_offset o'\<rparr>"

definition placed :: "ticker_id \<Rightarrow> price \<Rightarrow> side \<Rightarrow> qty \<Rightarrow> order_offset \<Rightarrow> order_manager \<Rightarrow> order_manager" where
  "placed t px sd q off om = put_order (unat t) (sideToIndex sd)
     \<lparr>oo_ticker_id = t, oo_order_id = om_next_order_id om, oo_side = sd, oo_price = px, oo_qty = q,
      oo_order_type = LIMIT, oo_offset = off, oo_state = PENDING_NEW\<rparr>
     (om\<lparr>om_next_order_id := om_next_order_id om + 1\<rparr>)"

definition cancelling :: "ticker_id \<Rightarrow> side \<Rightarrow> order_manager \<Rightarrow> order_manager" where
  "cancelling t sd om = put_order (unat t) (sideToIndex sd)
     ((om_orders om (unat t) (sideToIndex sd))\<lparr>oo_state := PENDING_CANCEL\<rparr>) om"

definition idle :: "om_order \<Rightarrow> bool" where
  "idle o' \<longleftrightarrow> oo_state o' = Order_INVALID \<or> oo_state o' = DEAD"

abbreviation slot :: "order_manager \<Rightarrow> ticker_id \<Rightarrow> side \<Rightarrow> om_order" where
  "slot om t sd \<equiv> om_orders om (unat t) (sideToIndex sd)"

text \<open>The three things a move can do.\<close>

inductive move_step :: "risk_manager option \<Rightarrow> order_manager \<times> client_request list \<Rightarrow>
    order_manager \<times> client_request list \<Rightarrow> bool" for risk where
  stay: "move_step risk s s"
| new: "risk = Some rm \<Longrightarrow> idle (slot om t sd) \<Longrightarrow> px \<noteq> Price_INVALID \<Longrightarrow> 0 < q \<Longrightarrow>
    unat t < ME_MAX_TICKERS \<Longrightarrow> checkPreTradeRisk t sd off q rm = Ok () ALLOWED \<Longrightarrow>
    move_step risk (om, l) (placed t px sd q off om, l @ [new_request om t px sd q off])"
| cancel: "oo_state (slot om t sd) = LIVE \<Longrightarrow>
    move_step risk (om, l) (cancelling t sd om, l @ [cancel_request om (slot om t sd)])"

lemma newOrder_list:
  assumes "newOrder (Some list_send) risk (unat t) (sideToIndex sd) t px sd q off (om, l) = Ok s' ()"
  shows "s' = (om, l) \<or> (\<exists>rm. risk = Some rm \<and> checkPreTradeRisk t sd off q rm = Ok () ALLOWED \<and>
    s' = (placed t px sd q off om, l @ [new_request om t px sd q off]))"
proof (cases risk)
  case None
  then show ?thesis using assms by (simp add: newOrder_def)
next
  case (Some rm)
  then show ?thesis
    using assms by (cases "checkPreTradeRisk t sd off q rm")
      (auto simp: newOrder_def list_send_def Let_def placed_def new_request_def client_request_init_def
        split: if_splits)
qed

lemma cancelOrder_list:
  assumes "om_cancelOrder (Some list_send) (unat t) (sideToIndex sd) (om, l) = Ok s' ()"
  shows "s' = (om, l) \<or> (oo_state (slot om t sd) = LIVE \<and>
    s' = (cancelling t sd om, l @ [cancel_request om (slot om t sd)]))"
  using assms by (auto simp: om_cancelOrder_def Let_def list_send_def cancelling_def cancel_request_def
      split: if_splits)

lemma moveOrder_step:
  assumes "moveOrder (Some list_send) risk (unat t) (sideToIndex sd) t px sd q off s = Ok s' ()"
    and t: "unat t < ME_MAX_TICKERS"
  shows "move_step risk s s'"
proof -
  obtain om l where s: "s = (om, l)" by fastforce
  let ?st = "oo_state (slot om t sd)"
  have new: "move_step risk s s'"
    if "(if px \<noteq> Price_INVALID \<and> q > 0 then
          newOrder (Some list_send) risk (unat t) (sideToIndex sd) t px sd q off s else Ok s ()) = Ok s' ()"
      and i: "idle (slot om t sd)"
    using that newOrder_list[of risk t sd px q off om l s'] t
    by (auto simp: s split: if_splits intro: move_step.intros)
  show ?thesis
  proof (cases ?st)
    case LIVE
    then show ?thesis
      using assms cancelOrder_list[of t sd om l s']
      by (auto simp: moveOrder_def Let_def s split: if_splits intro: move_step.intros)
  next
    case Order_INVALID
    then show ?thesis using assms new[unfolded s] by (simp add: s moveOrder_def Let_def s idle_def)
  next
    case DEAD
    then show ?thesis using assms new[unfolded s] by (simp add: s moveOrder_def Let_def s idle_def)
  qed (use assms in \<open>auto simp: moveOrder_def Let_def s intro: move_step.stay\<close>)
qed

lemma then_do_Ok_iff: "then_do m f = Ok s a \<longleftrightarrow> (\<exists>s' b. m = Ok s' b \<and> f s' b = Ok s a)"
  by (cases m) auto

lemma query_Ok_iff: "query s m f = Ok s' a \<longleftrightarrow> (\<exists>v. m = Ok () v \<and> f v = Ok s' a)"
  by (cases m) auto

lemma moveOrders_steps:
  assumes "moveOrders (Some list_send) risk t bid ask clip s = Ok s' ()"
  shows "\<exists>s1. move_step risk s s1 \<and> move_step risk s1 s'"
proof -
  have t: "unat t < ME_MAX_TICKERS"
    using assms by (auto simp: moveOrders_def at_order_def split: if_splits)
  then obtain s1 where
    "moveOrder (Some list_send) risk (unat t) (sideToIndex BUY) t bid BUY clip OPEN s = Ok s1 ()"
    "moveOrder (Some list_send) risk (unat t) (sideToIndex SELL) t ask SELL clip OPEN s1 = Ok s' ()"
    using assms by (auto simp del: sideToIndex_simps simp: moveOrders_def at_order_def then_do_Ok_iff)
  then show ?thesis using moveOrder_step[OF _ t] by blast
qed

lemma moveOpenOrder_step:
  "moveOpenOrder (Some list_send) risk t px sd q s = Ok s' () \<Longrightarrow> move_step risk s s'"
  by (auto simp: moveOpenOrder_def at_order_def split: if_splits intro: moveOrder_step)

lemma moveCloseOrder_step:
  "moveCloseOrder (Some list_send) risk t px sd q s = Ok s' () \<Longrightarrow> move_step risk s s'"
  by (auto simp: moveCloseOrder_def at_order_def query_Ok_iff Let_def
      split: if_splits option.splits intro: moveOrder_step move_step.stay)

section \<open>Order ids\<close>

text \<open>A cancel in the log follows the NEW request of the same id, ticker and side.\<close>

definition same_order :: "client_request \<Rightarrow> client_request \<Rightarrow> bool" where
  "same_order r x \<longleftrightarrow> rq_order_id x = rq_order_id r \<and> rq_ticker_id x = rq_ticker_id r \<and>
     rq_side x = rq_side r \<and> rq_client_id x = rq_client_id r"

definition cancels_known :: "client_request list \<Rightarrow> bool" where
  "cancels_known l \<longleftrightarrow> (\<forall>k<length l. rq_type (l ! k) = Request_CANCEL \<longrightarrow>
     (\<exists>x\<in>set (news (take k l)). same_order (l ! k) x))"

lemma cancels_known_snoc:
  "cancels_known (l @ [r]) \<longleftrightarrow> cancels_known l \<and>
     (rq_type r = Request_CANCEL \<longrightarrow> (\<exists>x\<in>set (news l). same_order r x))"
  by (simp add: cancels_known_def nth_append All_less_Suc) blast

text \<open>Where an order has been placed, the request that placed it is in the log.\<close>

definition placed_by :: "order_manager \<Rightarrow> client_request list \<Rightarrow> nat \<Rightarrow> nat \<Rightarrow> bool" where
  "placed_by om l t i \<longleftrightarrow>
     (let o' = om_orders om t i in
      if oo_state o' = Order_INVALID then oo_order_id o' = OrderId_INVALID
      else \<exists>x\<in>set (news l). rq_order_id x = oo_order_id o' \<and> rq_ticker_id x = oo_ticker_id o' \<and>
        rq_side x = oo_side o' \<and> rq_client_id x = om_client_id om \<and> unat (rq_ticker_id x) = t \<and>
        sideToIndex (rq_side x) = i)"

definition om_inv :: "order_manager \<Rightarrow> client_request list \<Rightarrow> bool" where
  "om_inv om l \<longleftrightarrow>
     om_next_order_id om = of_nat (Suc (length (news l))) \<and>
     map rq_order_id (news l) = map of_nat [1..<Suc (length (news l))] \<and>
     (\<forall>t i. placed_by om l t i) \<and> cancels_known l"

lemma om_inv_new: "om_inv (order_manager_new c) []"
  by (simp add: om_inv_def order_manager_new_def placed_by_def om_order_init_def cancels_known_def)

lemma put_order_simps [simp]:
  "om_orders (put_order t i o' om) t' i' = (if t' = t \<and> i' = i then o' else om_orders om t' i')"
  "om_next_order_id (put_order t i o' om) = om_next_order_id om"
  "om_client_id (put_order t i o' om) = om_client_id om"
  by (auto simp: put_order_def)

lemma om_inv_step:
  assumes step: "move_step risk (om, l) (om', l')" and inv: "om_inv om l"
  shows "om_inv om' l'"
  using step
proof (cases rule: move_step.cases)
  case stay
  then show ?thesis using inv by auto
next
  case (new rm t sd px q off)
  let ?r = "new_request om t px sd q off"
  have r: "news [?r] = [?r]" "rq_order_id ?r = of_nat (Suc (length (news l)))" "rq_type ?r = Request_NEW"
    using inv by (simp_all add: new_request_def om_inv_def)
  have "placed_by om' l' t' i" for t' i
  proof -
    have "placed_by om l t' i" using inv by (simp add: om_inv_def)
    then show ?thesis using new(1,2) r by (auto simp: placed_by_def placed_def Let_def new_request_def)
  qed
  then show ?thesis
    using inv r new(1,2) by (simp add: om_inv_def cancels_known_snoc placed_def)
next
  case (cancel t sd)
  let ?r = "cancel_request om (slot om t sd)"
  have r: "news [?r] = []" "rq_type ?r = Request_CANCEL" by (simp_all add: cancel_request_def)
  have p: "placed_by om l t' i" for t' i using inv by (simp add: om_inv_def)
  have "\<exists>x\<in>set (news l). same_order ?r x"
    using p[of "unat t" "sideToIndex sd"] cancel
    by (auto simp: placed_by_def Let_def same_order_def cancel_request_def)
  moreover have "placed_by om' l' t' i" for t' i
    using p[of t' i] p[of "unat t" "sideToIndex sd"] cancel r
    by (auto simp: placed_by_def cancelling_def Let_def)
  ultimately show ?thesis
    using inv r cancel(1,2) by (simp add: om_inv_def cancels_known_snoc cancelling_def)
qed

lemma om_inv_update:
  assumes inv: "om_inv om l" and id: "rs_client_order_id r \<noteq> OrderId_INVALID"
  shows "om_inv (onOrderUpdate r om) l"
proof -
  have "placed_by (onOrderUpdate r om) l t i" for t i
  proof -
    have "placed_by om l t i" using inv by (simp add: om_inv_def)
    then show ?thesis
      using id by (cases "rs_type r") (auto simp: placed_by_def onOrderUpdate_def Let_def split: if_splits)
  qed
  moreover have "om_next_order_id (onOrderUpdate r om) = om_next_order_id om"
    by (simp add: onOrderUpdate_def Let_def)
  ultimately show ?thesis using inv by (simp add: om_inv_def)
qed

text \<open>
  Any sequence of responses and moves, with any risk manager at each: the states the manager can
  reach with the requests it has sent. A response with the invalid id is not one of an order.
\<close>

inductive om_run :: "client_id \<Rightarrow> order_manager \<Rightarrow> client_request list \<Rightarrow> bool" for c where
  start: "om_run c (order_manager_new c) []"
| response: "om_run c om l \<Longrightarrow> rs_client_order_id r \<noteq> OrderId_INVALID \<Longrightarrow> om_run c (onOrderUpdate r om) l"
| both: "om_run c om l \<Longrightarrow> moveOrders (Some list_send) risk t bid ask clip (om, l) = Ok (om', l') () \<Longrightarrow>
    om_run c om' l'"
| opened: "om_run c om l \<Longrightarrow> moveOpenOrder (Some list_send) risk t px sd q (om, l) = Ok (om', l') () \<Longrightarrow>
    om_run c om' l'"
| closed: "om_run c om l \<Longrightarrow> moveCloseOrder (Some list_send) risk t px sd q (om, l) = Ok (om', l') () \<Longrightarrow>
    om_run c om' l'"

lemma om_run_inv: "om_run c om l \<Longrightarrow> om_inv om l"
proof (induction rule: om_run.induct)
  case (both om l risk t bid ask clip om' l')
  then obtain s1 where "move_step risk (om, l) s1" "move_step risk s1 (om', l')"
    using moveOrders_steps by blast
  then show ?case using both.IH om_inv_step by (metis prod.collapse)
qed (auto intro: om_inv_new om_inv_update om_inv_step dest: moveOpenOrder_step moveCloseOrder_step)

lemma distinct_ids: "n < 2 ^ 64 \<Longrightarrow> distinct (map (of_nat :: nat \<Rightarrow> order_id) [1..<Suc n])"
  by (auto simp: distinct_map inj_on_def word_eq_iff_unsigned[where ?'a = nat] unsigned_of_nat
      take_bit_nat_eq_self)

text \<open>C28: However responses and moves interleave, and until the 64-bit counter is used up, the ids of
  the NEW requests of a client are 1, 2, 3 and so on without repetition, and every CANCEL names a
  request sent before it by its id, ticker, side and client.\<close>

theorem order_ids_unique:
  assumes "om_run c om l" "length (news l) < 2 ^ 64"
  shows "map rq_order_id (news l) = map of_nat [1..<Suc (length (news l))] \<and>
    distinct (map rq_order_id (news l)) \<and> cancels_known l"
  using om_run_inv[OF assms(1)] distinct_ids[OF assms(2)] by (simp add: om_inv_def)

definition sample_accept :: client_response where
  "sample_accept = client_response_init\<lparr>rs_type := ACCEPTED, rs_ticker_id := 0, rs_side := BUY,
     rs_client_order_id := 1\<rparr>"

lemma sample_run:
  "\<exists>om l. om_run 7 om l \<and> map rq_type l = [Request_NEW, Request_CANCEL]"
proof -
  let ?send = "Some list_send" and ?rm = "Some sample_risk"
  define s1 where "s1 = (placed 0 100 BUY 5 OPEN (order_manager_new 7), [new_request (order_manager_new 7) 0 100 BUY 5 OPEN])"
  have ok: "checkPreTradeRisk 0 BUY OPEN 5 sample_risk = Ok () ALLOWED"
    by (simp add: checkPreTradeRisk_def sample_risk_def position_keeper_new_def position_info_init_def
        Let_def Qty_INVALID_def ME_MAX_TICKERS_def zero_f64_def)
  have n: "moveOpenOrder ?send ?rm 0 100 BUY 5 (order_manager_new 7, []) = Ok s1 ()"
    using ok by (simp add: moveOpenOrder_def at_order_def moveOrder_def newOrder_def list_send_def Let_def
        s1_def placed_def new_request_def order_manager_new_def om_order_init_def Price_INVALID_def
        ME_MAX_TICKERS_def client_request_init_def)
  let ?om = "onOrderUpdate sample_accept (fst s1)"
  have live: "oo_state (om_orders ?om 0 2) = LIVE" "oo_price (om_orders ?om 0 2) = 100"
    by (simp_all add: onOrderUpdate_def sample_accept_def s1_def placed_def order_manager_new_def
        ME_MAX_TICKERS_def Let_def)
  have c: "moveOpenOrder ?send ?rm 0 101 BUY 5 (?om, snd s1) =
      Ok (cancelling 0 BUY ?om, snd s1 @ [cancel_request ?om (slot ?om 0 BUY)]) ()"
    using live by (simp add: moveOpenOrder_def at_order_def moveOrder_def om_cancelOrder_def list_send_def Let_def
        cancelling_def cancel_request_def ME_MAX_TICKERS_def)
  have "om_run 7 (fst s1) (snd s1)"
    by (rule om_run.opened[OF om_run.start]) (use n in simp)
  then have "om_run 7 ?om (snd s1)"
    by (rule om_run.response) (simp add: sample_accept_def OrderId_INVALID_def)
  from om_run.opened[OF this c] show ?thesis
    by (intro exI conjI) (assumption, simp add: s1_def new_request_def cancel_request_def)
qed

lemma order_ids_unique_witness:
  "\<exists>l. map rq_type l = [Request_NEW, Request_CANCEL] \<and> map rq_order_id (news l) = [1] \<and> cancels_known l"
proof -
  obtain om l where l: "om_run 7 om l" "map rq_type l = [Request_NEW, Request_CANCEL]"
    using sample_run by auto
  then have n: "length (news l) = 1" by (auto simp: map_eq_Cons_conv news_def)
  have "map rq_order_id (news l) = [1] \<and> cancels_known l"
    using order_ids_unique[OF l(1)] by (simp add: n)
  with l(2) show ?thesis by (intro exI[of _ l]) simp
qed

section \<open>Permission\<close>

lemma moveOrder_new:
  assumes "moveOrder (Some list_send) risk (unat t) (sideToIndex sd) t px sd q off (om, l) = Ok (om', l @ [r]) ()"
    and "rq_type r = Request_NEW"
  shows "r = new_request om t px sd q off \<and> 0 < q"
  using assms newOrder_list[of risk t sd px q off om l "(om', l @ [r])"]
    cancelOrder_list[of t sd om l "(om', l @ [r])"]
  by (auto simp: moveOrder_def Let_def cancel_request_def split: om_order_state.splits if_splits)

definition permitted :: "risk_manager option \<Rightarrow> order_manager \<Rightarrow> order_manager \<Rightarrow> client_request \<Rightarrow> bool" where
  "permitted risk om om' r \<longleftrightarrow>
     (rq_type r = Request_NEW \<and> idle (slot om (rq_ticker_id r) (rq_side r)) \<and>
      oo_state (slot om' (rq_ticker_id r) (rq_side r)) = PENDING_NEW \<and>
      rq_price r \<noteq> Price_INVALID \<and> 0 < rq_qty r \<and>
      (\<exists>rm. risk = Some rm \<and>
         checkPreTradeRisk (rq_ticker_id r) (rq_side r) (rq_offset r) (rq_qty r) rm = Ok () ALLOWED)) \<or>
     (rq_type r = Request_CANCEL \<and> oo_state (slot om (rq_ticker_id r) (rq_side r)) = LIVE \<and>
      oo_state (slot om' (rq_ticker_id r) (rq_side r)) = PENDING_CANCEL \<and>
      rq_order_id r = oo_order_id (slot om (rq_ticker_id r) (rq_side r)))"

lemma move_step_permitted:
  assumes "move_step risk (om, l) (om', l')" "om_inv om l"
  shows "l' = l \<and> om' = om \<or> (\<exists>r. l' = l @ [r] \<and> permitted risk om om' r)"
  using assms(1)
proof (cases rule: move_step.cases)
  case stay
  then show ?thesis by simp
next
  case (new rm t sd px q off)
  then show ?thesis by (auto simp: permitted_def new_request_def placed_def)
next
  case (cancel t sd)
  have "placed_by om l (unat t) (sideToIndex sd)" using assms(2) by (simp add: om_inv_def)
  then have "unat (oo_ticker_id (slot om t sd)) = unat t" "sideToIndex (oo_side (slot om t sd)) = sideToIndex sd"
    using cancel(3) by (auto simp: placed_by_def Let_def)
  then show ?thesis using cancel by (auto simp: permitted_def cancel_request_def cancelling_def)
qed

text \<open>C3: A move on one side sends at most one request. A NEW needs an idle order of its ticker and
  side, a price and a quantity, and a pre-trade check that allows exactly what it asks for; a CANCEL
  needs a live order and names it. The order is pending afterwards.\<close>

theorem requests_need_permission:
  assumes "om_run c om l"
    and "moveOpenOrder (Some list_send) risk t px sd q (om, l) = Ok (om', l') () \<or>
      moveCloseOrder (Some list_send) risk t px sd q (om, l) = Ok (om', l') ()"
  shows "l' = l \<and> om' = om \<or> (\<exists>r. l' = l @ [r] \<and> permitted risk om om' r)"
  using assms(2) move_step_permitted[OF _ om_run_inv[OF assms(1)]]
    moveOpenOrder_step[of risk t px sd q "(om, l)"] moveCloseOrder_step[of risk t px sd q "(om, l)"]
  by blast

lemma requests_need_permission_witness:
  "\<exists>om' l'. moveOpenOrder (Some list_send) None 0 100 BUY 5 (order_manager_new 7, []) = Ok (om', l') () \<and>
     (l' = [] \<and> om' = order_manager_new 7 \<or> (\<exists>r. l' = [r] \<and> permitted None (order_manager_new 7) om' r))"
proof -
  have "moveOpenOrder (Some list_send) None 0 100 BUY 5 (order_manager_new 7, []) = Ok (order_manager_new 7, []) ()"
    by (simp add: moveOpenOrder_def at_order_def moveOrder_def newOrder_def ME_MAX_TICKERS_def Let_def
        order_manager_new_def om_order_init_def)
  then show ?thesis using requests_need_permission[OF om_run.start, of None 0 100 BUY 5] by fastforce
qed

lemma openOrder_new:
  assumes "moveOpenOrder (Some list_send) risk t px sd q (om, l) = Ok (om', l @ [r]) ()"
    and "rq_type r = Request_NEW"
  shows "r = new_request om t px sd q OPEN"
  using assms moveOrder_new[of risk t sd px q OPEN om l om' r]
  by (auto simp: moveOpenOrder_def at_order_def split: if_splits)

lemma closeOrder_new:
  assumes "rm_keeper rm = Some k" and "unat t < ME_MAX_TICKERS"
    and "moveCloseOrder (Some list_send) (Some rm) t px sd q (om, l) = Ok (om', l @ [r]) ()"
    and "rq_type r = Request_NEW"
  shows "\<exists>off. r = new_request om t px sd (min q (closeableQty off (pk_positions k (unat t)))) off \<and>
    0 < rq_qty r \<and> off = (if yesterdayQty (pk_positions k (unat t)) > 0 then CLOSE_YESTERDAY else CLOSE_TODAY)"
proof -
  let ?p = "pk_positions k (unat t)"
  obtain off where off: "off = closeOffsetFor q ?p" "off \<noteq> Offset_INVALID"
    and m: "moveOrder (Some list_send) (Some rm) (unat t) (sideToIndex sd) t px sd (min q (closeableQty off ?p)) off
      (om, l) = Ok (om', l @ [r]) ()"
    using assms(1-3)
    by (auto simp: moveCloseOrder_def resolveCloseOffset_def risk_closeableQty_def query_Ok_iff at_order_def Let_def
        split: if_splits)
  have o: "off = (if yesterdayQty ?p > 0 then CLOSE_YESTERDAY else CLOSE_TODAY)"
    using off by (auto simp: closeOffsetFor_def split: if_splits)
  show ?thesis using moveOrder_new[OF m assms(4)] o by (intro exI[of _ off]) (simp add: new_request_def)
qed

text \<open>C29: An order that \<open>moveCloseOrder\<close> sends closes one position day, yesterday's first, and never
  asks for more than was requested or than that day holds, so that a complete fill of it closes
  all of its quantity.\<close>

theorem close_order_within_day:
  assumes "rm_keeper rm = Some k" and "unat t < ME_MAX_TICKERS"
    and "moveCloseOrder (Some list_send) (Some rm) t px sd q (om, l) = Ok (om', l @ [r]) ()"
    and "rq_type r = Request_NEW"
  shows "rq_ticker_id r = t \<and> rq_side r = sd \<and> 0 < rq_qty r \<and> rq_qty r \<le> q \<and>
    (let p = pk_positions k (unat t) in
       rq_offset r = (if yesterdayQty p > 0 then CLOSE_YESTERDAY else CLOSE_TODAY) \<and>
       rq_qty r \<le> closeableQty (rq_offset r) p \<and>
       (rs_offset f = rq_offset r \<and> rs_exec_qty f = rq_qty r \<and> rs_exec_qty f \<noteq> Qty_INVALID \<longrightarrow>
          fill_qty f p = unat (rq_qty r)))"
proof -
  let ?p = "pk_positions k (unat t)"
  obtain off where r: "r = new_request om t px sd (min q (closeableQty off ?p)) off" "0 < rq_qty r"
    and o: "off = (if yesterdayQty ?p > 0 then CLOSE_YESTERDAY else CLOSE_TODAY)"
    using closeOrder_new[OF assms] by blast
  have "min q (closeableQty off ?p) \<le> closeableQty off ?p" by simp
  then have "unat (min q (closeableQty off ?p)) \<le> closeable off ?p"
    using o by (auto simp: word_le_nat_alt closeableQty_def closeable_def)
  then show ?thesis
    using r o by (auto simp: new_request_def Let_def fill_qty_def min_def)
qed

lemma close_order_within_day_witness:
  "\<exists>k om' r. moveCloseOrder (Some list_send) (Some (sample_risk\<lparr>rm_keeper := Some k\<rparr>)) 0 100 SELL 5
       (order_manager_new 7, []) = Ok (om', [r]) () \<and>
     rq_offset r = CLOSE_TODAY \<and> rq_qty r \<le> closeableQty CLOSE_TODAY (pk_positions k 0)"
proof -
  define p where "p = position_info_init\<lparr>pi_position := 3,
    pi_days := (\<lambda>_. position_day_init)(TODAY := \<lparr>pd_qty = 3, pd_open_vwap = Fin 100\<rparr>)\<rparr>"
  define k where "k = \<lparr>pk_positions = (\<lambda>_. p)\<rparr>"
  define rm where "rm = sample_risk\<lparr>rm_keeper := Some k\<rparr>"
  have p: "yesterdayQty p = 0" "todayQty p = 3" "pi_total_pnl p = Fin 0"
    by (simp_all add: p_def yesterdayQty_def todayQty_def position_day_init_def position_info_init_def zero_f64_def)
  have ok: "checkPreTradeRisk 0 SELL CLOSE_TODAY 3 rm = Ok () ALLOWED"
    using p by (simp add: checkPreTradeRisk_def rm_def sample_risk_def k_def closeableQty_def
        Let_def Qty_INVALID_def ME_MAX_TICKERS_def zero_f64_def)
  let ?r = "new_request (order_manager_new 7) 0 100 SELL 3 CLOSE_TODAY"
  have c: "moveCloseOrder (Some list_send) (Some rm) 0 100 SELL 5 (order_manager_new 7, []) =
      Ok (placed 0 100 SELL 3 CLOSE_TODAY (order_manager_new 7), [] @ [?r]) ()"
    using p ok by (simp add: moveCloseOrder_def resolveCloseOffset_def risk_closeableQty_def rm_def sample_risk_def
        k_def closeOffsetFor_def closeableQty_def ME_MAX_TICKERS_def Let_def at_order_def moveOrder_def newOrder_def
        list_send_def placed_def new_request_def order_manager_new_def om_order_init_def Price_INVALID_def
        client_request_init_def)
  have h: "rm_keeper rm = Some k" "unat (0 :: ticker_id) < ME_MAX_TICKERS" "rq_type ?r = Request_NEW"
    by (simp_all add: rm_def ME_MAX_TICKERS_def new_request_def)
  note w = close_order_within_day[OF h(1,2) c h(3)]
  have "rq_offset ?r = CLOSE_TODAY" using w p(1) by (simp add: Let_def k_def)
  moreover have "rq_qty ?r \<le> closeableQty (rq_offset ?r) (pk_positions k 0)"
    using w unfolding Let_def unat_0 by blast
  ultimately show ?thesis using c unfolding rm_def append_Nil by metis
qed

end
