(* ===== verification/FeatureEngine.thy ===== *)
theory FeatureEngine
  imports OrderManager
begin

text \<open>
  \<open>trading/strategy/feature_engine.h\<close>: the mid price, the relative spread and the imbalance of the top
  of the book, and \<open>jev_decision.h\<close>: the records exchanged with the decision worker.
\<close>

section \<open>The features of a book\<close>

record market_features =
  mf_mid_price :: f64
  mf_relative_spread_bps :: f64
  mf_total_qty :: "64 word"
  mf_imbalance :: f64
  mf_valid :: bool

definition market_features_init :: market_features where
  "market_features_init =
     \<lparr>mf_mid_price = 0, mf_relative_spread_bps = 0, mf_total_qty = 0, mf_imbalance = 0, mf_valid = False\<rparr>"

text \<open>\<open>onMarketUpdate\<close> reads the BBO of the book and sets the features.\<close>

definition feature_onMarketUpdate :: "bbo \<Rightarrow> market_features" where
  "feature_onMarketUpdate b =
     (if bbo_bid_price b = Price_INVALID \<or> bbo_ask_price b = Price_INVALID \<or>
         bbo_bid_qty b = Qty_INVALID \<or> bbo_ask_qty b = Qty_INVALID \<or>
         sint (bbo_bid_price b) \<le> 0 \<or> sint (bbo_ask_price b) \<le> sint (bbo_bid_price b) \<or>
         bbo_bid_qty b = 0 \<or> bbo_ask_qty b = 0
      then market_features_init
      else
        let bid_qty = qty_double (bbo_bid_qty b); ask_qty = qty_double (bbo_ask_qty b);
            total_qty = bid_qty + ask_qty;
            mid_price = (price_double (bbo_bid_price b) + price_double (bbo_ask_price b)) div Fin 2
        in if \<not> isfinite mid_price \<or> mid_price \<le> 0 \<or> \<not> isfinite total_qty \<or> total_qty \<le> 0
           then market_features_init
           else
             let spread = price_double (bbo_ask_price b - bbo_bid_price b) div mid_price * Fin 10000;
                 imbalance = (bid_qty - ask_qty) div total_qty;
                 ok = isfinite spread \<and> isfinite imbalance
             in if \<not> ok then market_features_init
                else \<lparr>mf_mid_price = mid_price, mf_relative_spread_bps = spread,
                      mf_total_qty = ucast (bbo_bid_qty b) + ucast (bbo_ask_qty b),
                      mf_imbalance = imbalance, mf_valid = ok\<rparr>)"

section \<open>\<open>jev_decision.h\<close>\<close>

record position_state =
  ps_net_position :: int
  ps_today_qty :: qty
  ps_yesterday_qty :: qty
  ps_average_entry_price :: price
  ps_realized_pnl :: f64
  ps_unrealized_pnl :: f64

record working_order_state =
  wo_order_id :: order_id
  wo_side :: side
  wo_price :: price
  wo_qty :: qty
  wo_order_type :: order_type
  wo_offset :: order_offset
  wo_state :: om_order_state

record account_state =
  ac_available_margin :: f64
  ac_used_margin :: f64
  ac_equity :: f64

definition account_state_init :: account_state where
  "account_state_init = \<lparr>ac_available_margin = 0, ac_used_margin = 0, ac_equity = 0\<rparr>"

record risk_state =
  rk_max_order_size :: qty
  rk_max_position :: qty
  rk_max_loss :: f64

record jev_evaluation_state =
  es_trace :: performance_trace
  es_price_scale :: f64
  es_pnl_before_fees :: bool
  es_evaluation_id :: "64 word"
  es_ticker_id :: ticker_id
  es_depth_snapshot :: depth_snapshot
  es_market_features :: market_features
  es_position :: position_state
  es_working_orders :: "working_order_state list"
  es_account :: account_state
  es_risk :: risk_state

datatype jev_bias = Bias_INVALID | LONG | SHORT

datatype jev_intent = Intent_INVALID | Intent_OPEN | Intent_CLOSE | HOLD

record jev_decision =
  jd_evaluation_id :: "64 word"
  jd_trace :: performance_trace
  jd_ticker_id :: ticker_id
  jd_bias :: jev_bias
  jd_intent :: jev_intent
  jd_long_probability :: f64
  jd_short_probability :: f64
  jd_open_probability :: f64
  jd_close_probability :: f64
  jd_hold_probability :: f64
  jd_confidence :: f64

definition jev_decision_init :: jev_decision where
  "jev_decision_init =
     \<lparr>jd_evaluation_id = 0, jd_trace = trace_init, jd_ticker_id = TickerId_INVALID,
      jd_bias = Bias_INVALID, jd_intent = Intent_INVALID, jd_long_probability = 0,
      jd_short_probability = 0, jd_open_probability = 0, jd_close_probability = 0,
      jd_hold_probability = 0, jd_confidence = 0\<rparr>"

definition position_state_init :: position_state where
  "position_state_init = \<lparr>ps_net_position = 0, ps_today_qty = 0, ps_yesterday_qty = 0,
     ps_average_entry_price = Price_INVALID, ps_realized_pnl = 0, ps_unrealized_pnl = 0\<rparr>"

definition working_order_init :: working_order_state where
  "working_order_init = \<lparr>wo_order_id = OrderId_INVALID, wo_side = Side_INVALID, wo_price = Price_INVALID,
     wo_qty = Qty_INVALID, wo_order_type = OrderType_INVALID, wo_offset = Offset_INVALID, wo_state = Order_INVALID\<rparr>"

definition jev_evaluation_init :: jev_evaluation_state where
  "jev_evaluation_init =
     \<lparr>es_trace = trace_init, es_price_scale = 1, es_pnl_before_fees = False, es_evaluation_id = 0,
      es_ticker_id = TickerId_INVALID, es_depth_snapshot = depth_snapshot_init,
      es_market_features = market_features_init, es_position = position_state_init,
      es_working_orders = [working_order_init, working_order_init], es_account = account_state_init,
      es_risk = \<lparr>rk_max_order_size = 0, rk_max_position = 0, rk_max_loss = 0\<rparr>\<rparr>"

section \<open>Bounds\<close>

text \<open>A two-sided book with positive, uncrossed prices and known positive quantities.\<close>

definition quotable :: "bbo \<Rightarrow> bool" where
  "quotable b \<longleftrightarrow> 0 < sint (bbo_bid_price b) \<and> sint (bbo_bid_price b) < sint (bbo_ask_price b) \<and>
     bbo_ask_price b \<noteq> Price_INVALID \<and> bbo_bid_qty b \<notin> {0, Qty_INVALID} \<and> bbo_ask_qty b \<notin> {0, Qty_INVALID}"

lemma sint_64_bounds: "- (2 ^ 63) \<le> sint (x :: 64 word)" "sint (x :: 64 word) < 2 ^ 63"
  using sint_ge[of x] sint_lt[of x] by simp_all

lemma nearest_mid:
  assumes ab: "representable a" "representable b" "a \<le> b"
  shows "a \<le> nearest (nearest (a + b) / 2)" "nearest (nearest (a + b) / 2) \<le> b"
proof -
  have "2 * a \<le> nearest (a + b)" using ab by (intro nearest_ge representable_double) simp_all
  then show "a \<le> nearest (nearest (a + b) / 2)" using ab by (intro nearest_ge) simp_all
  have "nearest (a + b) \<le> 2 * b" using ab by (intro nearest_le representable_double) simp_all
  then show "nearest (nearest (a + b) / 2) \<le> b" using ab by (intro nearest_le) simp_all
qed

text \<open>The mid price of two positive 64-bit prices is between them.\<close>

lemma mid_price:
  assumes "0 < i" "i \<le> j" "j < 2 ^ 63"
  shows "\<exists>m. (of_integer i + of_integer j) div Fin 2 = Fin m \<and> of_integer i \<le> Fin m \<and> Fin m \<le> of_integer j \<and>
    1 \<le> m \<and> m \<le> 2 ^ 64"
proof -
  define a b where "a = nearest (of_int i)" and "b = nearest (of_int j)"
  have ij: "\<bar>i\<bar> \<le> 2 ^ 64" "\<bar>j\<bar> \<le> 2 ^ 64" using assms by auto
  have eq: "of_integer i = Fin a" "of_integer j = Fin b" and le: "\<bar>b\<bar> \<le> 2 ^ 64" "\<bar>a\<bar> \<le> 2 ^ 64"
    using of_integer_64[OF ij(1)] of_integer_64[OF ij(2)] by (simp_all add: a_def b_def)
  have r: "representable a" "representable b" by (simp_all add: a_def b_def)
  have "a \<le> b" using assms(2) by (simp add: a_def b_def nearest_mono)
  have "1 \<le> a" using assms(1) representable_int[of 1] nearest_ge[of 1 "of_int i"] by (simp add: a_def)
  have "2 * b \<le> 2 * 2 ^ 64" using le by simp
  then have "nearest (a + b) \<le> 2 * b" "0 \<le> nearest (a + b)"
    using \<open>a \<le> b\<close> \<open>1 \<le> a\<close> r by (auto intro!: nearest_le nearest_nonneg representable_double)
  have big: "\<bar>x\<bar> \<le> 2 ^ 65 \<Longrightarrow> round64 x = Fin (nearest x)" for x
    using round64_Fin[of x] pow2_big[of "\<bar>x\<bar>" 65] by simp
  have "round64 (a + b) = Fin (nearest (a + b))" using le \<open>1 \<le> a\<close> \<open>a \<le> b\<close> by (intro big) simp
  moreover have "round64 (nearest (a + b) / 2) = Fin (nearest (nearest (a + b) / 2))"
    using le \<open>nearest (a + b) \<le> 2 * b\<close> \<open>0 \<le> nearest (a + b)\<close> by (intro big) simp
  ultimately show ?thesis
    using nearest_mid[OF r \<open>a \<le> b\<close>] \<open>1 \<le> a\<close> le(1) by (auto simp: eq)
qed

lemma round64_pos_bound:
  assumes "0 \<le> x" "x \<le> 2 ^ n" "n \<le> 1000"
  shows "\<exists>y. round64 x = Fin y \<and> 0 \<le> y \<and> y \<le> 2 ^ n"
proof -
  have "round64 x = Fin (nearest x)" using assms pow2_big[of "\<bar>x\<bar>" n] by (intro round64_Fin) simp
  moreover have "representable (2 ^ n)" using representable_pow2[of "int n"] by (simp add: pow2_nat)
  ultimately show ?thesis using assms by (auto intro!: nearest_nonneg nearest_le)
qed

lemma of_integer_nonneg:
  assumes "0 \<le> i" "i \<le> 2 ^ 64"
  shows "\<exists>y. of_integer i = Fin y \<and> 0 \<le> y \<and> y \<le> 2 ^ 64"
proof -
  have "of_int i \<le> (2 ^ 64 :: rat)" using assms(2) by (metis of_int_le_iff of_int_power of_int_numeral)
  then show ?thesis using round64_pos_bound[of "of_int i" 64] assms(1) by (simp add: of_integer_def)
qed

lemma spread_bounds:
  assumes "0 \<le> d" "d \<le> 2 ^ 64" "1 \<le> m"
  shows "\<exists>s. of_integer d div Fin m * Fin 10000 = Fin s \<and> 0 \<le> s"
proof -
  obtain y where y: "of_integer d = Fin y" "0 \<le> y" "y \<le> 2 ^ 64"
    using of_integer_nonneg[OF assms(1,2)] by blast
  have "y / m \<le> y" using y(2) assms(3) mult_left_mono[of 1 m y] by (simp add: pos_divide_le_eq)
  then obtain z where z: "round64 (y / m) = Fin z" "0 \<le> z" "z \<le> 2 ^ 64"
    using round64_pos_bound[of "y / m" 64] y assms(3) by auto
  have "z * 10000 \<le> 2 ^ 78" using z(3) by simp
  then show ?thesis using round64_pos_bound[of "z * 10000" 78] z y assms(3) by auto
qed

lemma imbalance_bounds:
  assumes "0 < a" "0 < b" "a < 2 ^ 32" "b < 2 ^ 32"
  shows "\<exists>v. (fint a - fint b) div (fint a + fint b) = Fin v \<and> -1 \<le> v \<and> v \<le> 1"
proof -
  have sum: "fint a + fint b = fint (a + b)" and diff: "fint a - fint b = fint (a - b)"
    by (rule fint_add, use assms in simp) (rule fint_diff, use assms in simp)
  let ?x = "of_int (a - b) / of_int (a + b) :: rat"
  have "\<bar>of_int (a - b)\<bar> \<le> (of_int (a + b) :: rat)"
    using assms unfolding of_int_abs[symmetric] of_int_le_iff by auto
  then have x: "\<bar>?x\<bar> \<le> 1" using assms(1,2) by (simp add: divide_le_eq_1 flip: of_int_add)
  have "\<bar>nearest ?x\<bar> \<le> 1" using nearest_abs_le[OF x] representable_int[of 1] by simp
  moreover have "round64 ?x = Fin (nearest ?x)" using x pow2_big[of "\<bar>?x\<bar>" 0] by (intro round64_Fin) simp
  moreover have "of_int (a + b) \<noteq> (0 :: rat)" using assms by (simp flip: of_int_add)
  ultimately show ?thesis unfolding sum diff by (auto simp: abs_le_iff simp flip: of_int_add of_int_diff)
qed

lemma sint_diff:
  fixes a b :: "64 word"
  assumes "0 < sint b" "sint b < sint a"
  shows "sint (a - b) = sint a - sint b"
proof -
  have "sint a - sint b < 2 ^ 63" using assms sint_64_bounds(2)[of a] by linarith
  then show ?thesis
    using assms by (simp add: sint_word_ariths(2) signed_take_bit_int_eq_self)
qed

text \<open>What the features of a quotable book are.\<close>

lemma features_of_quotable:
  assumes "quotable b"
  shows "let f = feature_onMarketUpdate b in
    mf_valid f \<and> price_double (bbo_bid_price b) \<le> mf_mid_price f \<and>
    mf_mid_price f \<le> price_double (bbo_ask_price b) \<and>
    unat (mf_total_qty f) = unat (bbo_bid_qty b) + unat (bbo_ask_qty b) \<and>
    (\<exists>v. mf_imbalance f = Fin v \<and> -1 \<le> v \<and> v \<le> 1) \<and> (\<exists>s. mf_relative_spread_bps f = Fin s \<and> 0 \<le> s)"
proof -
  let ?bp = "sint (bbo_bid_price b)" and ?ap = "sint (bbo_ask_price b)"
  let ?bq = "int (unat (bbo_bid_qty b))" and ?aq = "int (unat (bbo_ask_qty b))"
  have p: "0 < ?bp" "?bp < ?ap" and q: "bbo_bid_qty b \<noteq> 0" "bbo_ask_qty b \<noteq> 0"
    and inv: "bbo_ask_price b \<noteq> Price_INVALID" "bbo_bid_qty b \<noteq> Qty_INVALID" "bbo_ask_qty b \<noteq> Qty_INVALID"
    using assms by (auto simp: quotable_def)
  have "bbo_bid_price b \<noteq> Price_INVALID"
    using p(2) sint_64_bounds(2)[of "bbo_ask_price b"] by (auto simp: Price_INVALID_def)
  obtain m where m: "(price_double (bbo_bid_price b) + price_double (bbo_ask_price b)) div Fin 2 = Fin m"
    "price_double (bbo_bid_price b) \<le> Fin m" "Fin m \<le> price_double (bbo_ask_price b)" "1 \<le> m"
    using mid_price[OF p(1)] p(2) sint_64_bounds(2)[of "bbo_ask_price b"] by (metis less_imp_le)
  have qb: "0 < ?bq" "?bq < 2 ^ 32" "0 < ?aq" "?aq < 2 ^ 32"
    using q unsigned_less[of "bbo_bid_qty b", where ?'a = int] unsigned_less[of "bbo_ask_qty b", where ?'a = int]
    by (simp_all add: word_less_def word_neq_0_conv)
  obtain v where v: "(fint ?bq - fint ?aq) div (fint ?bq + fint ?aq) = Fin v" "-1 \<le> v" "v \<le> 1"
    using imbalance_bounds[OF qb(1,3,2,4)] by blast
  have total: "fint ?bq + fint ?aq = fint (?bq + ?aq)" using qb by (intro fint_add) simp
  have "sint (bbo_ask_price b - bbo_bid_price b) = ?ap - ?bp" by (rule sint_diff[OF p])
  then obtain s where s: "price_double (bbo_ask_price b - bbo_bid_price b) div Fin m * Fin 10000 = Fin s" "0 \<le> s"
    using spread_bounds[of "?ap - ?bp" m] m(4) p sint_64_bounds(2)[of "bbo_ask_price b"] by auto
  have "unat (ucast (bbo_bid_qty b) + ucast (bbo_ask_qty b) :: 64 word) =
      unat (bbo_bid_qty b) + unat (bbo_ask_qty b)"
    using unsigned_less[of "bbo_bid_qty b", where ?'a = nat] unsigned_less[of "bbo_ask_qty b", where ?'a = nat]
    by (subst unat_add_lem[THEN iffD1]) (simp_all add: unsigned_ucast_eq take_bit_nat_eq_self)
  moreover have "feature_onMarketUpdate b =
      \<lparr>mf_mid_price = Fin m, mf_relative_spread_bps = Fin s,
       mf_total_qty = ucast (bbo_bid_qty b) + ucast (bbo_ask_qty b), mf_imbalance = Fin v, mf_valid = True\<rparr>"
  proof -
    have "\<not> Fin m \<le> 0" "isfinite (fint (?bq + ?aq))" "\<not> fint (?bq + ?aq) \<le> 0"
      using m(4) qb by (simp_all add: zero_f64_def flip: of_int_add)
    then show ?thesis
      using p q inv \<open>bbo_bid_price b \<noteq> Price_INVALID\<close>
      unfolding feature_onMarketUpdate_def Let_def qty_double_fint m(1) s(1) total v(1)[unfolded total] by simp
  qed
  ultimately show ?thesis using m v s by simp
qed

text \<open>The features are valid exactly for a two-sided, positive, uncrossed top of book with known
  quantities. Then, in the rounded arithmetic of doubles and for every 64-bit price, the mid lies
  between the bid and the ask, the spread is not negative, the total quantity is the exact sum and
  the imbalance lies between -1 and 1; otherwise every feature is its default.\<close>

theorem features_bounded:
  "let f = feature_onMarketUpdate b in
     (mf_valid f \<longleftrightarrow> quotable b) \<and>
     (if quotable b
      then price_double (bbo_bid_price b) \<le> mf_mid_price f \<and> mf_mid_price f \<le> price_double (bbo_ask_price b) \<and>
        unat (mf_total_qty f) = unat (bbo_bid_qty b) + unat (bbo_ask_qty b) \<and>
        (\<exists>v. mf_imbalance f = Fin v \<and> -1 \<le> v \<and> v \<le> 1) \<and>
        (\<exists>s. mf_relative_spread_bps f = Fin s \<and> 0 \<le> s)
      else f = market_features_init)"
proof (cases "quotable b")
  case True
  then show ?thesis using features_of_quotable[OF True] by (simp add: Let_def)
next
  case False
  then have "feature_onMarketUpdate b = market_features_init"
    by (auto simp: feature_onMarketUpdate_def quotable_def)
  then show ?thesis using False by (simp add: market_features_init_def)
qed

end
