(* ===== verification/LFQueue.thy ===== *)
theory LFQueue
  imports Prelude
begin

text \<open>
  \<open>common/lf_queue.h\<close>: the single-producer/single-consumer ring that connects every thread of the
  program. First the operations one after the other and the FIFO contract (the locale
  \<open>bounded_queue\<close>, interpreted on the ring). Then the two threads interleaved at the level of the
  atomic accesses of the code: the slot accesses never race, nothing is lost or reordered, and
  neither \<open>updateWriteIndex\<close> nor \<open>updateReadIndex\<close> terminates the process when the callers
  follow the tryGet protocol.
\<close>

section \<open>Model\<close>

record 'a lf_queue =
  lq_store :: "nat \<Rightarrow> 'a"
  lq_capacity :: nat
  lq_next_write :: nat
  lq_next_read :: nat
  lq_num_elements :: nat

definition lf_queue_new :: "'a \<Rightarrow> nat \<Rightarrow> exn + 'a lf_queue" where
  "lf_queue_new x num_elems =
     (if num_elems = 0 then Inl (Invalid_argument ''LFQueue capacity must be greater than zero'')
      else Inr \<lparr>lq_store = (\<lambda>_. x), lq_capacity = num_elems, lq_next_write = 0, lq_next_read = 0,
                lq_num_elements = 0\<rparr>)"

definition lq_isFull :: "'a lf_queue \<Rightarrow> bool" where
  "lq_isFull q \<longleftrightarrow> lq_num_elements q = lq_capacity q"

definition tryGetNextToWriteTo :: "'a lf_queue \<Rightarrow> nat option" where
  "tryGetNextToWriteTo q = (if lq_isFull q then None else Some (lq_next_write q))"

definition getNextToWriteTo :: "'a lf_queue \<Rightarrow> ('a lf_queue, nat) outcome" where
  "getNextToWriteTo q =
     (case tryGetNextToWriteTo q of None \<Rightarrow> Abort ''terminate'' | Some slot \<Rightarrow> Ok q slot)"

definition updateWriteIndex :: "'a lf_queue \<Rightarrow> ('a lf_queue, unit) outcome" where
  "updateWriteIndex q =
     (if lq_isFull q then Abort ''terminate''
      else Ok (q\<lparr>lq_next_write := (lq_next_write q + 1) mod lq_capacity q,
                 lq_num_elements := lq_num_elements q + 1\<rparr>) ())"

definition getNextToRead :: "'a lf_queue \<Rightarrow> nat option" where
  "getNextToRead q = (if lq_num_elements q = 0 then None else Some (lq_next_read q))"

definition updateReadIndex :: "'a lf_queue \<Rightarrow> ('a lf_queue, unit) outcome" where
  "updateReadIndex q =
     (if lq_num_elements q = 0 then Abort ''terminate''
      else Ok (q\<lparr>lq_next_read := (lq_next_read q + 1) mod lq_capacity q,
                 lq_num_elements := lq_num_elements q - 1\<rparr>) ())"

text \<open>Writing through the pointer that \<open>tryGetNextToWriteTo\<close> returned.\<close>

definition lq_write_slot :: "nat \<Rightarrow> 'a \<Rightarrow> 'a lf_queue \<Rightarrow> 'a lf_queue" where
  "lq_write_slot slot x q = q\<lparr>lq_store := (lq_store q)(slot := x)\<rparr>"

text \<open>
  The producers' idiom: \<open>slot = tryGetNextToWriteTo(); if (slot == nullptr) std::terminate();\<close>
  \<open>*slot = x; updateWriteIndex();\<close> and the consumers' peek.
\<close>

definition lq_enqueue :: "'a \<Rightarrow> 'a lf_queue \<Rightarrow> ('a lf_queue, unit) outcome" where
  "lq_enqueue x q =
     (case tryGetNextToWriteTo q of
        None \<Rightarrow> Abort ''terminate''
      | Some slot \<Rightarrow> updateWriteIndex (lq_write_slot slot x q))"

definition lq_peek :: "'a lf_queue \<Rightarrow> 'a option" where
  "lq_peek q = map_option (lq_store q) (getNextToRead q)"

section \<open>The FIFO contract\<close>

definition lq_inv :: "'a lf_queue \<Rightarrow> bool" where
  "lq_inv q \<longleftrightarrow> 0 < lq_capacity q \<and> lq_next_read q < lq_capacity q \<and>
     lq_num_elements q \<le> lq_capacity q \<and>
     lq_next_write q = (lq_next_read q + lq_num_elements q) mod lq_capacity q"

definition lq_content :: "'a lf_queue \<Rightarrow> 'a list" where
  "lq_content q = map (\<lambda>i. lq_store q ((lq_next_read q + i) mod lq_capacity q)) [0..<lq_num_elements q]"

lemma length_lq_content [simp]: "length (lq_content q) = lq_num_elements q"
  by (simp add: lq_content_def)

lemma add_mod_inj:
  assumes "i < n" "j < n" "(r + i) mod n = (r + j) mod n"
  shows "i = (j :: nat)"
proof -
  from assms(3) obtain a b where "r + i + n * a = r + j + n * b" by (auto simp: nat_mod_eq_iff)
  then have "(i + n * a) mod n = (j + n * b) mod n" by simp
  with assms show ?thesis by simp
qed

lemma lq_new_inv: "lf_queue_new x n = Inr q \<Longrightarrow> lq_inv q \<and> lq_content q = [] \<and> lq_capacity q = n"
  by (auto simp: lf_queue_new_def lq_inv_def lq_content_def split: if_splits)

lemma lq_enqueue_ok:
  assumes "lq_inv q" "lq_num_elements q < lq_capacity q"
  shows "\<exists>q'. lq_enqueue x q = Ok q' () \<and> lq_inv q' \<and> lq_content q' = lq_content q @ [x] \<and>
              lq_capacity q' = lq_capacity q"
proof -
  let ?c = "lq_capacity q" and ?r = "lq_next_read q" and ?n = "lq_num_elements q"
  let ?q = "lq_write_slot (lq_next_write q) x q
      \<lparr>lq_next_write := (lq_next_write q + 1) mod ?c, lq_num_elements := ?n + 1\<rparr>"
  have "lq_enqueue x q = Ok ?q ()"
    using assms(2) by (simp add: lq_enqueue_def tryGetNextToWriteTo_def updateWriteIndex_def
        lq_isFull_def lq_write_slot_def)
  moreover have "lq_inv ?q"
    using assms by (auto simp: lq_inv_def lq_write_slot_def mod_Suc_eq)
  moreover have "lq_content ?q = lq_content q @ [x]"
  proof -
    have "(?r + i) mod ?c \<noteq> lq_next_write q" if "i < ?n" for i
      using add_mod_inj[of i ?c ?n ?r] that assms by (auto simp: lq_inv_def)
    then show ?thesis
      using assms by (simp add: lq_content_def lq_write_slot_def lq_inv_def)
  qed
  moreover have "lq_capacity ?q = ?c" by (simp add: lq_write_slot_def)
  ultimately show ?thesis by blast
qed

lemma lq_enqueue_full: "lq_num_elements q = lq_capacity q \<Longrightarrow> lq_enqueue x q = Abort ''terminate''"
  by (simp add: lq_enqueue_def tryGetNextToWriteTo_def lq_isFull_def)

lemma lq_peek_content: "lq_inv q \<Longrightarrow> lq_peek q = (case lq_content q of [] \<Rightarrow> None | x # _ \<Rightarrow> Some x)"
proof (cases "lq_num_elements q")
  case (Suc n)
  assume "lq_inv q"
  then have "lq_content q = lq_store q (lq_next_read q) # map (\<lambda>i. lq_store q ((lq_next_read q + i) mod lq_capacity q)) [1..<Suc n]"
    using Suc by (simp add: lq_content_def lq_inv_def upt_conv_Cons del: upt_Suc)
  with Suc show ?thesis by (simp add: lq_peek_def getNextToRead_def)
qed (simp add: lq_peek_def getNextToRead_def lq_content_def)

lemma lq_dequeue_ok:
  assumes "lq_inv q" "lq_content q = x # xs"
  shows "\<exists>q'. updateReadIndex q = Ok q' () \<and> lq_inv q' \<and> lq_content q' = xs \<and>
              lq_capacity q' = lq_capacity q"
proof -
  let ?c = "lq_capacity q" and ?r = "lq_next_read q" and ?n = "lq_num_elements q"
  let ?q = "q\<lparr>lq_next_read := (?r + 1) mod ?c, lq_num_elements := ?n - 1\<rparr>"
  have n: "?n = Suc (length xs)"
    using assms(2) length_lq_content[of q] by simp
  then have "updateReadIndex q = Ok ?q ()"
    by (simp add: updateReadIndex_def)
  moreover have "lq_inv ?q"
    using assms(1) n by (auto simp: lq_inv_def mod_simps)
  moreover have "lq_content ?q = xs"
  proof (rule nth_equalityI)
    fix i assume i: "i < length (lq_content ?q)"
    then have "lq_content ?q ! i = lq_content q ! Suc i"
      using n by (simp add: lq_content_def mod_simps del: upt_Suc)
    then show "lq_content ?q ! i = xs ! i" by (simp add: assms(2))
  qed (simp add: n)
  ultimately show ?thesis by auto
qed

lemma lq_dequeue_empty: "lq_content q = [] \<Longrightarrow> updateReadIndex q = Abort ''terminate''"
  using length_lq_content[of q] by (simp add: updateReadIndex_def)

text \<open>
  The contract that the components on both ends of a queue rely on: a list that grows at one end
  and is consumed at the other, with a bound.
\<close>

locale bounded_queue =
  fixes enq :: "'a \<Rightarrow> 'q \<Rightarrow> ('q, unit) outcome"
    and peek :: "'q \<Rightarrow> 'a option"
    and deq :: "'q \<Rightarrow> ('q, unit) outcome"
    and content :: "'q \<Rightarrow> 'a list"
    and bound :: "'q \<Rightarrow> nat"
    and inv :: "'q \<Rightarrow> bool"
  assumes bound_law: "inv q \<Longrightarrow> length (content q) \<le> bound q"
    and enq_law: "inv q \<Longrightarrow> length (content q) < bound q \<Longrightarrow>
      \<exists>q'. enq x q = Ok q' () \<and> inv q' \<and> content q' = content q @ [x] \<and> bound q' = bound q"
    and full_law: "inv q \<Longrightarrow> length (content q) = bound q \<Longrightarrow> enq x q = Abort ''terminate''"
    and peek_law: "inv q \<Longrightarrow> peek q = (case content q of [] \<Rightarrow> None | x # _ \<Rightarrow> Some x)"
    and deq_law: "inv q \<Longrightarrow> content q = x # xs \<Longrightarrow>
      \<exists>q'. deq q = Ok q' () \<and> inv q' \<and> content q' = xs \<and> bound q' = bound q"
begin

lemma enq_cases:
  assumes "inv q"
  obtains (ok) q' where "enq x q = Ok q' ()" "inv q'" "content q' = content q @ [x]" "bound q' = bound q"
    | (full) "length (content q) = bound q" "enq x q = Abort ''terminate''"
proof (cases "length (content q) = bound q")
  case True
  with full_law[OF assms] show thesis by (intro full)
next
  case False
  with bound_law[OF assms] enq_law[OF assms, of x] show thesis by (auto intro: ok)
qed

fun enq_all :: "'a list \<Rightarrow> 'q \<Rightarrow> ('q, unit) outcome" where
  "enq_all [] q = Ok q ()"
| "enq_all (x # xs) q = then_do (enq x q) (\<lambda>q' _. enq_all xs q')"

fun deq_n :: "nat \<Rightarrow> 'q \<Rightarrow> ('q, 'a list) outcome" where
  "deq_n 0 q = Ok q []"
| "deq_n (Suc n) q = (case peek q of
     None \<Rightarrow> Ok q []
   | Some x \<Rightarrow> then_do (deq q) (\<lambda>q1 _. then_do (deq_n n q1) (\<lambda>q2 xs. Ok q2 (x # xs))))"

lemma enq_all_ok:
  "inv q \<Longrightarrow> length (content q) + length xs \<le> bound q \<Longrightarrow>
     \<exists>q'. enq_all xs q = Ok q' () \<and> inv q' \<and> content q' = content q @ xs \<and> bound q' = bound q"
proof (induction xs arbitrary: q)
  case (Cons x xs)
  then obtain q' where q': "enq x q = Ok q' ()" "inv q'" "content q' = content q @ [x]" "bound q' = bound q"
    using enq_law[of q x] by auto
  with Cons.IH[of q'] Cons.prems show ?case by auto
qed simp

lemma deq_n_ok:
  "inv q \<Longrightarrow> \<exists>q'. deq_n n q = Ok q' (take n (content q)) \<and> inv q' \<and> content q' = drop n (content q) \<and>
     bound q' = bound q"
proof (induction n arbitrary: q)
  case (Suc n)
  show ?case
  proof (cases "content q")
    case Nil
    with Suc.prems peek_law[of q] show ?thesis by simp
  next
    case (Cons x xs)
    then obtain q' where q': "deq q = Ok q' ()" "inv q'" "content q' = xs" "bound q' = bound q"
      using deq_law[OF Suc.prems Cons] by blast
    with Suc.IH[of q'] Cons Suc.prems peek_law[of q] show ?thesis by auto
  qed
qed simp

text \<open>What goes in comes out, in order.\<close>

lemma fifo:
  assumes "inv q" "length (content q) + length xs \<le> bound q"
  shows "\<exists>q'. then_do (enq_all xs q) (\<lambda>q1 _. deq_n (length (content q) + length xs) q1)
              = Ok q' (content q @ xs) \<and> content q' = []"
proof -
  obtain q1 where q1: "enq_all xs q = Ok q1 ()" "inv q1" "content q1 = content q @ xs"
    using enq_all_ok[OF assms] by blast
  with deq_n_ok[OF q1(2), of "length (content q) + length xs"] show ?thesis by auto
qed

end

interpretation lq: bounded_queue lq_enqueue lq_peek updateReadIndex lq_content lq_capacity lq_inv
proof
  fix q :: "'a lf_queue" and x xs
  show "lq_inv q \<Longrightarrow> length (lq_content q) \<le> lq_capacity q" by (simp add: lq_inv_def)
  show "lq_inv q \<Longrightarrow> length (lq_content q) < lq_capacity q \<Longrightarrow>
      \<exists>q'. lq_enqueue x q = Ok q' () \<and> lq_inv q' \<and> lq_content q' = lq_content q @ [x] \<and>
           lq_capacity q' = lq_capacity q"
    using lq_enqueue_ok[of q x] by simp
  show "lq_inv q \<Longrightarrow> length (lq_content q) = lq_capacity q \<Longrightarrow> lq_enqueue x q = Abort ''terminate''"
    using lq_enqueue_full[of q x] by simp
  show "lq_inv q \<Longrightarrow> lq_peek q = (case lq_content q of [] \<Rightarrow> None | x # _ \<Rightarrow> Some x)"
    by (rule lq_peek_content)
  show "lq_inv q \<Longrightarrow> lq_content q = x # xs \<Longrightarrow>
      \<exists>q'. updateReadIndex q = Ok q' () \<and> lq_inv q' \<and> lq_content q' = xs \<and> lq_capacity q' = lq_capacity q"
    by (rule lq_dequeue_ok)
qed

section \<open>Two threads\<close>

text \<open>
  One producer and one consumer, each at its own program point; a step is one access to shared
  memory. The acquire/release pairs on \<open>num_elements_\<close> order the plain slot accesses, so the
  accesses are interleaved sequentially. \<open>sp_sent\<close> and \<open>sp_received\<close> record the values written
  and read; they have no counterpart in the code.
\<close>

datatype 'a producer_pc =
    P_idle
  | P_slot 'a      \<comment> \<open>\<open>tryGetNextToWriteTo\<close> returned the slot at \<open>next_write_index_\<close>\<close>
  | P_written      \<comment> \<open>the slot is written, \<open>updateWriteIndex\<close> is called\<close>
  | P_checked      \<comment> \<open>its \<open>isFull\<close> was false\<close>
  | P_stored       \<comment> \<open>\<open>next_write_index_\<close> is stored, \<open>fetch_add\<close> is next\<close>
  | P_terminated

datatype consumer_pc =
    C_idle
  | C_slot         \<comment> \<open>\<open>getNextToRead\<close> returned the slot at \<open>next_read_index_\<close>\<close>
  | C_read         \<comment> \<open>the slot is read, \<open>updateReadIndex\<close> is called\<close>
  | C_checked      \<comment> \<open>its \<open>size()\<close> was not zero\<close>
  | C_stored       \<comment> \<open>\<open>next_read_index_\<close> is stored, \<open>fetch_sub\<close> is next\<close>
  | C_terminated

record 'a spsc =
  sp_queue :: "'a lf_queue"
  sp_producer :: "'a producer_pc"
  sp_consumer :: consumer_pc
  sp_sent :: "'a list"
  sp_received :: "'a list"

inductive spsc_step :: "'a spsc \<Rightarrow> 'a spsc \<Rightarrow> bool" where
  p_try: "sp_producer s = P_idle \<Longrightarrow> \<not> lq_isFull (sp_queue s) \<Longrightarrow>
     spsc_step s (s\<lparr>sp_producer := P_slot x\<rparr>)"
| p_write: "sp_producer s = P_slot x \<Longrightarrow>
     spsc_step s (s\<lparr>sp_producer := P_written, sp_sent := sp_sent s @ [x],
       sp_queue := lq_write_slot (lq_next_write (sp_queue s)) x (sp_queue s)\<rparr>)"
| p_check: "sp_producer s = P_written \<Longrightarrow>
     spsc_step s (s\<lparr>sp_producer := (if lq_isFull (sp_queue s) then P_terminated else P_checked)\<rparr>)"
| p_index: "sp_producer s = P_checked \<Longrightarrow>
     spsc_step s (s\<lparr>sp_producer := P_stored, sp_queue := (sp_queue s)
       \<lparr>lq_next_write := (lq_next_write (sp_queue s) + 1) mod lq_capacity (sp_queue s)\<rparr>\<rparr>)"
| p_add: "sp_producer s = P_stored \<Longrightarrow>
     spsc_step s (s\<lparr>sp_producer := P_idle,
       sp_queue := (sp_queue s)\<lparr>lq_num_elements := lq_num_elements (sp_queue s) + 1\<rparr>\<rparr>)"
| c_try: "sp_consumer s = C_idle \<Longrightarrow> lq_num_elements (sp_queue s) \<noteq> 0 \<Longrightarrow>
     spsc_step s (s\<lparr>sp_consumer := C_slot\<rparr>)"
| c_take: "sp_consumer s = C_slot \<Longrightarrow>
     spsc_step s (s\<lparr>sp_consumer := C_read,
       sp_received := sp_received s @ [lq_store (sp_queue s) (lq_next_read (sp_queue s))]\<rparr>)"
| c_check: "sp_consumer s = C_read \<Longrightarrow>
     spsc_step s (s\<lparr>sp_consumer := (if lq_num_elements (sp_queue s) = 0 then C_terminated else C_checked)\<rparr>)"
| c_index: "sp_consumer s = C_checked \<Longrightarrow>
     spsc_step s (s\<lparr>sp_consumer := C_stored, sp_queue := (sp_queue s)
       \<lparr>lq_next_read := (lq_next_read (sp_queue s) + 1) mod lq_capacity (sp_queue s)\<rparr>\<rparr>)"
| c_sub: "sp_consumer s = C_stored \<Longrightarrow>
     spsc_step s (s\<lparr>sp_consumer := C_idle,
       sp_queue := (sp_queue s)\<lparr>lq_num_elements := lq_num_elements (sp_queue s) - 1\<rparr>\<rparr>)"

definition spsc_init :: "'a \<Rightarrow> nat \<Rightarrow> 'a spsc \<Rightarrow> bool" where
  "spsc_init x n s \<longleftrightarrow> lf_queue_new x n = Inr (sp_queue s) \<and> sp_producer s = P_idle \<and>
     sp_consumer s = C_idle \<and> sp_sent s = [] \<and> sp_received s = []"

inductive spsc_reachable :: "'a \<Rightarrow> nat \<Rightarrow> 'a spsc \<Rightarrow> bool" for x n where
  init: "spsc_init x n s \<Longrightarrow> spsc_reachable x n s"
| step: "spsc_reachable x n s \<Longrightarrow> spsc_step s s' \<Longrightarrow> spsc_reachable x n s'"

text \<open>The number of completed pushes and pops, from the histories and the program points.\<close>

definition pushed :: "'a spsc \<Rightarrow> nat" where
  "pushed s = length (sp_sent s) - (if sp_producer s \<in> {P_written, P_checked, P_stored} then 1 else 0)"

definition popped :: "'a spsc \<Rightarrow> nat" where
  "popped s = length (sp_received s) - (if sp_consumer s \<in> {C_read, C_checked, C_stored} then 1 else 0)"

text \<open>The slots hold the values that are written and not yet released.\<close>

definition slots_hold :: "nat \<Rightarrow> nat \<Rightarrow> 'a spsc \<Rightarrow> bool" where
  "slots_hold n b s \<longleftrightarrow> (\<forall>i. b \<le> i \<and> i < length (sp_sent s) \<longrightarrow>
     lq_store (sp_queue s) (i mod n) = sp_sent s ! i)"

definition spsc_inv :: "nat \<Rightarrow> 'a spsc \<Rightarrow> bool" where
  "spsc_inv n s \<longleftrightarrow>
     (let q = sp_queue s; a = pushed s; b = popped s in
      0 < n \<and> lq_capacity q = n \<and> b \<le> a \<and> a \<le> b + n \<and> lq_num_elements q = a - b \<and>
      lq_next_write q = (a + (if sp_producer s = P_stored then 1 else 0)) mod n \<and>
      lq_next_read q = (b + (if sp_consumer s = C_stored then 1 else 0)) mod n \<and>
      (sp_producer s \<noteq> P_idle \<longrightarrow> a < b + n) \<and> (sp_consumer s \<noteq> C_idle \<longrightarrow> b < a) \<and>
      sp_producer s \<noteq> P_terminated \<and> sp_consumer s \<noteq> C_terminated \<and>
      (sp_producer s \<in> {P_written, P_checked, P_stored} \<longrightarrow> sp_sent s \<noteq> []) \<and>
      (sp_consumer s \<in> {C_read, C_checked, C_stored} \<longrightarrow> sp_received s \<noteq> []) \<and>
      take (length (sp_received s)) (sp_sent s) = sp_received s \<and>
      length (sp_received s) \<le> length (sp_sent s) \<and>
      slots_hold n b s)"

lemma spsc_init_inv: "spsc_init x n s \<Longrightarrow> spsc_inv n s"
  by (cases s) (auto simp: slots_hold_def spsc_init_def spsc_inv_def Let_def pushed_def popped_def lf_queue_new_def split: if_splits)

lemma spsc_step_inv:
  assumes "spsc_step s s'" "spsc_inv n s"
  shows "spsc_inv n s'"
  using assms
proof (cases rule: spsc_step.cases)
  case (p_try x)
  with assms(2) show ?thesis
    by (auto simp: spsc_inv_def slots_hold_def Let_def pushed_def popped_def lq_isFull_def)
next
  case (p_write x)
  let ?a = "pushed s" and ?b = "popped s"
  have len: "length (sp_sent s) = ?a" using p_write by (simp add: pushed_def)
  have ne: "i mod n \<noteq> ?a mod n" if "?b \<le> i" "i < ?a" for i
  proof
    assume "i mod n = ?a mod n"
    then have "(?b + (i - ?b)) mod n = (?b + (?a - ?b)) mod n" using that by simp
    moreover have "?a < ?b + n" using assms(2) p_write by (simp add: spsc_inv_def Let_def)
    then have "i - ?b < n" "?a - ?b < n" using that by linarith+
    ultimately have "i - ?b = ?a - ?b" using add_mod_inj by blast
    with that show False by linarith
  qed
  have f: "sp_sent s' = sp_sent s @ [x]" "sp_received s' = sp_received s" "sp_producer s' = P_written"
    "sp_consumer s' = sp_consumer s" "lq_capacity (sp_queue s') = lq_capacity (sp_queue s)"
    "lq_num_elements (sp_queue s') = lq_num_elements (sp_queue s)"
    "lq_next_write (sp_queue s') = lq_next_write (sp_queue s)"
    "lq_next_read (sp_queue s') = lq_next_read (sp_queue s)"
    "lq_store (sp_queue s') = (lq_store (sp_queue s))(lq_next_write (sp_queue s) := x)"
    using p_write by (simp_all add: lq_write_slot_def)
  have c: "popped s' = ?b" "pushed s' = ?a"
    using p_write(2) by (simp_all add: popped_def pushed_def f)
  have hold: "slots_hold n ?b s" using assms(2) by (simp add: spsc_inv_def Let_def)
  then have old: "?b \<le> i \<Longrightarrow> i < length (sp_sent s) \<Longrightarrow> lq_store (sp_queue s) (i mod n) = sp_sent s ! i"
    for i by (simp add: slots_hold_def)
  have w: "lq_next_write (sp_queue s) = ?a mod n" and le: "length (sp_received s) \<le> length (sp_sent s)"
    and tk: "take (length (sp_received s)) (sp_sent s) = sp_received s"
    using assms(2) p_write(2) unfolding spsc_inv_def Let_def by simp_all
  have "lq_store (sp_queue s') (i mod n) = sp_sent s' ! i" if "?b \<le> i" "i < length (sp_sent s')" for i
  proof (cases "i = ?a")
    case False
    with that len have "i < ?a" by (simp add: f)
    with that ne[of i] old[of i] len show ?thesis by (simp add: f w nth_append)
  qed (use len in \<open>simp add: f w nth_append\<close>)
  then have "slots_hold n ?b s'" by (simp add: slots_hold_def)
  moreover have "take (length (sp_received s)) (sp_sent s @ [x]) = sp_received s"
    using le tk by simp
  ultimately show ?thesis
    using assms(2) p_write(2) le unfolding spsc_inv_def Let_def c f
    by (intro conjI) simp_all
next
  case p_check
  have "\<not> lq_isFull (sp_queue s)"
    using assms(2) p_check(2) unfolding spsc_inv_def Let_def lq_isFull_def by (elim conjE) simp
  with p_check(1) have s': "s' = s\<lparr>sp_producer := P_checked\<rparr>" by simp
  have "popped s' = popped s" "pushed s' = pushed s"
    using p_check(2) by (simp_all add: s' popped_def pushed_def)
  with p_check(2) assms(2) show ?thesis
    unfolding s' by (simp add: spsc_inv_def slots_hold_def Let_def)
next
  case p_index
  then have "popped s' = popped s" "pushed s' = pushed s" 
    by (auto simp: popped_def pushed_def)
  with p_index assms(2) show ?thesis
    by (auto simp: spsc_inv_def slots_hold_def Let_def mod_simps)
next
  case p_add
  then have "popped s' = popped s" "pushed s' = Suc (pushed s)" using assms(2)
    by (auto simp: popped_def pushed_def spsc_inv_def Let_def)
  with p_add assms(2) show ?thesis
    by (auto simp: spsc_inv_def slots_hold_def Let_def mod_simps)
next
  case c_try
  with assms(2) show ?thesis
    by (auto simp: spsc_inv_def slots_hold_def Let_def pushed_def popped_def)
next
  case c_take
  let ?a = "pushed s" and ?b = "popped s"
  have len: "length (sp_received s) = ?b" using c_take by (simp add: popped_def)
  have v: "lq_store (sp_queue s) (lq_next_read (sp_queue s)) = sp_sent s ! ?b" "?b < length (sp_sent s)"
    using assms(2) c_take by (auto simp: spsc_inv_def slots_hold_def Let_def pushed_def)
  have "popped s' = popped s" "pushed s' = pushed s" using c_take len
    by (auto simp: popped_def pushed_def)
  with c_take v len assms(2) show ?thesis
    by (auto simp: spsc_inv_def slots_hold_def Let_def take_Suc_conv_app_nth)
next
  case c_check
  have "lq_num_elements (sp_queue s) \<noteq> 0"
    using assms(2) c_check(2) unfolding spsc_inv_def Let_def by (elim conjE) simp
  with c_check(1) have s': "s' = s\<lparr>sp_consumer := C_checked\<rparr>" by simp
  have "popped s' = popped s" "pushed s' = pushed s"
    using c_check(2) by (simp_all add: s' popped_def pushed_def)
  with c_check(2) assms(2) show ?thesis
    unfolding s' by (simp add: spsc_inv_def slots_hold_def Let_def)
next
  case c_index
  then have "popped s' = popped s" "pushed s' = pushed s" 
    by (auto simp: popped_def pushed_def)
  with c_index assms(2) show ?thesis
    by (auto simp: spsc_inv_def slots_hold_def Let_def mod_simps)
next
  case c_sub
  then have "popped s' = Suc (popped s)" "pushed s' = pushed s" using assms(2)
    by (auto simp: popped_def pushed_def spsc_inv_def Let_def)
  with c_sub assms(2) show ?thesis
    by (auto simp: spsc_inv_def slots_hold_def Let_def mod_simps)
qed


lemma spsc_reachable_inv: "spsc_reachable x n s \<Longrightarrow> spsc_inv n s"
  by (induction rule: spsc_reachable.induct) (auto intro: spsc_init_inv spsc_step_inv)

text \<open>C27: With one producer and one consumer, whatever the interleaving of their accesses, the
  consumer has read exactly a prefix of what the producer wrote, in order; the two threads are
  never at the same slot at once; the count stays within the capacity; and neither index update
  terminates the process.\<close>

theorem spsc_safe:
  assumes "spsc_reachable x n s"
  shows "sp_received s = take (length (sp_received s)) (sp_sent s) \<and>
    (sp_producer s = P_slot y \<and> sp_consumer s = C_slot \<longrightarrow>
       lq_next_write (sp_queue s) \<noteq> lq_next_read (sp_queue s)) \<and>
    lq_num_elements (sp_queue s) \<le> n \<and>
    sp_producer s \<noteq> P_terminated \<and> sp_consumer s \<noteq> C_terminated"
proof -
  have inv: "spsc_inv n s" using assms by (rule spsc_reachable_inv)
  have "lq_next_write (sp_queue s) \<noteq> lq_next_read (sp_queue s)"
    if "sp_producer s = P_slot y" "sp_consumer s = C_slot"
  proof
    assume "lq_next_write (sp_queue s) = lq_next_read (sp_queue s)"
    moreover have b: "popped s < pushed s" "pushed s < popped s + n"
      using that inv by (auto simp: spsc_inv_def Let_def)
    ultimately have "(popped s + (pushed s - popped s)) mod n = (popped s + 0) mod n"
      using that inv by (simp add: spsc_inv_def Let_def)
    then have "pushed s - popped s = 0"
      by (rule add_mod_inj[rotated 2]) (use b in auto)
    with b show False by simp
  qed
  moreover have "lq_num_elements (sp_queue s) \<le> n"
    using inv by (auto simp: spsc_inv_def Let_def)
  ultimately show ?thesis
    using inv unfolding spsc_inv_def Let_def by simp
qed

lemma spsc_reachable_witness:
  "\<exists>s. spsc_reachable (0 :: nat) 2 s \<and> sp_sent s = [7] \<and> sp_received s = [7] \<and>
     sp_producer s = P_idle \<and> sp_consumer s = C_idle"
proof -
  let ?q = "\<lparr>lq_store = (\<lambda>_. 0), lq_capacity = 2, lq_next_write = 0, lq_next_read = 0, lq_num_elements = 0\<rparr>"
  let ?s0 = "\<lparr>sp_queue = ?q, sp_producer = P_idle, sp_consumer = C_idle, sp_sent = [], sp_received = []\<rparr>"
  have r0: "spsc_reachable (0 :: nat) 2 ?s0"
    by (rule spsc_reachable.init) (simp add: spsc_init_def lf_queue_new_def)
  note r1 = spsc_reachable.step[OF r0 spsc_step.p_try[of _ 7]]
  note r2 = spsc_reachable.step[OF r1 spsc_step.p_write[of _ 7]]
  note r3 = spsc_reachable.step[OF r2 spsc_step.p_check]
  note r4 = spsc_reachable.step[OF r3 spsc_step.p_index]
  note r5 = spsc_reachable.step[OF r4 spsc_step.p_add]
  note r6 = spsc_reachable.step[OF r5 spsc_step.c_try]
  note r7 = spsc_reachable.step[OF r6 spsc_step.c_take]
  note r8 = spsc_reachable.step[OF r7 spsc_step.c_check]
  note r9 = spsc_reachable.step[OF r8 spsc_step.c_index]
  note r10 = spsc_reachable.step[OF r9 spsc_step.c_sub]
  show ?thesis
    by (rule exI, rule conjI, rule r10) (simp_all add: lq_isFull_def lq_write_slot_def)
qed

lemma spsc_safe_witness:
  "\<exists>s. spsc_reachable (0 :: nat) 2 s \<and> sp_sent s = [7] \<and>
     sp_received s = take (length (sp_received s)) (sp_sent s) \<and> lq_num_elements (sp_queue s) \<le> 2"
proof -
  obtain s where s: "spsc_reachable (0 :: nat) 2 s" "sp_sent s = [7]"
    using spsc_reachable_witness by auto
  with spsc_safe[OF s(1)] show ?thesis by (intro exI[of _ s]) simp
qed

text \<open>C13: Between operations the ring holds, in order, exactly the values sent and not yet
  received: the interleaved queue refines the sequential list contract.\<close>

theorem spsc_refines_list:
  assumes "spsc_reachable x n s" "sp_producer s = P_idle" "sp_consumer s = C_idle"
  shows "lq_inv (sp_queue s) \<and> sp_sent s = sp_received s @ lq_content (sp_queue s)"
proof -
  have inv: "spsc_inv n s" using assms(1) by (rule spsc_reachable_inv)
  let ?q = "sp_queue s" and ?a = "length (sp_sent s)" and ?b = "length (sp_received s)"
  have ab: "pushed s = ?a" "popped s = ?b"
    using assms by (simp_all add: pushed_def popped_def)
  have I: "0 < n" "lq_capacity ?q = n" "?b \<le> ?a" "?a \<le> ?b + n" "lq_num_elements ?q = ?a - ?b"
    "lq_next_write ?q = ?a mod n" "lq_next_read ?q = ?b mod n"
    "take ?b (sp_sent s) = sp_received s" "slots_hold n ?b s"
    using inv assms(2,3) unfolding spsc_inv_def Let_def ab by simp_all
  have "lq_content ?q = drop ?b (sp_sent s)"
  proof (rule nth_equalityI)
    fix i assume "i < length (lq_content ?q)"
    then have i: "i < ?a - ?b" by (simp add: I)
    then have "lq_content ?q ! i = lq_store ?q ((?b + i) mod n)"
      by (simp add: lq_content_def I mod_simps)
    also have "\<dots> = sp_sent s ! (?b + i)"
      using I(9) i by (simp add: slots_hold_def)
    finally show "lq_content ?q ! i = drop ?b (sp_sent s) ! i"
      using I(3) by simp
  qed (simp add: I)
  moreover have "lq_inv ?q"
    using I(1-7) mod_add_left_eq[of ?b n "?a - ?b"] by (simp add: lq_inv_def)
  ultimately show ?thesis
    using I(8) append_take_drop_id[of ?b "sp_sent s"] by simp
qed

lemma spsc_refines_list_witness:
  "\<exists>s. spsc_reachable (0 :: nat) 2 s \<and> sp_sent s = [7] \<and> lq_inv (sp_queue s) \<and>
     sp_sent s = sp_received s @ lq_content (sp_queue s)"
proof -
  obtain s where s: "spsc_reachable (0 :: nat) 2 s" "sp_producer s = P_idle" "sp_consumer s = C_idle"
      "sp_sent s = [7]"
    using spsc_reachable_witness by auto
  with spsc_refines_list[OF s(1-3)] show ?thesis by (intro exI[of _ s]) simp
qed

end
