(* ===== verification/Measurement.thy ===== *)
theory Measurement
  imports CommonTypes LFQueue
begin

text \<open>
  \<open>trading/performance/measurement.{h,cpp}\<close> and \<open>callgrind_profiler.{h,cpp}\<close>: the latency samples of a
  capture window, and the window in which the profiler collects. Time stamps are 64-bit nanoseconds
  of the steady clock, read outside and passed in. The sample vector, allocated once, is a function
  with the vector's size. The export writes two files: here their text, with the rendering of the
  JSON object, which a library does, as the parameter \<open>dump\<close>.
\<close>

section \<open>Measurement\<close>

record sample =
  sm_trace :: performance_trace
  sm_order_id :: order_id
  sm_ticker_id :: ticker_id
  sm_type :: client_request_type
  sm_offset :: order_offset

record measurement =
  me_samples :: "nat \<Rightarrow> sample"
  me_capacity :: nat
  me_window_ns :: "64 word"
  me_grace_ns :: "64 word"
  me_start :: "64 word"
  me_end :: "64 word"
  me_next_source :: "64 word"
  me_size :: nat
  me_overflow :: nat

definition sample_init :: sample where
  "sample_init = \<lparr>sm_trace = trace_init, sm_order_id = 0, sm_ticker_id = 0, sm_type = Request_INVALID,
     sm_offset = Offset_INVALID\<rparr>"

definition measurement_new :: "nat \<Rightarrow> 64 word \<Rightarrow> 64 word \<Rightarrow> exn + measurement" where
  "measurement_new capacity window grace =
     (if capacity = 0 \<or> window = 0 \<or> grace = 0 \<or> window > (- 1) - grace
      then Inl (Invalid_argument ''Invalid performance capture bounds'')
      else Inr \<lparr>me_samples = (\<lambda>_. sample_init), me_capacity = capacity, me_window_ns = window,
                me_grace_ns = grace, me_start = 0, me_end = 0, me_next_source = 0, me_size = 0,
                me_overflow = 0\<rparr>)"

definition startCapture :: "64 word \<Rightarrow> measurement \<Rightarrow> (measurement, unit) outcome" where
  "startCapture now m =
     (if now = 0 \<or> me_start m \<noteq> 0 then Throw m (Logic_error ''Performance capture can only be armed once'')
      else Ok (m\<lparr>me_start := now\<rparr>) ())"

definition stopCapture :: "64 word \<Rightarrow> measurement \<Rightarrow> measurement" where
  "stopCapture now m = m\<lparr>me_end := now\<rparr>"

definition isWithinAdmissionWindow :: "64 word \<Rightarrow> measurement \<Rightarrow> bool" where
  "isWithinAdmissionWindow now m \<longleftrightarrow>
     me_start m \<noteq> 0 \<and> (me_end m = 0 \<or> now < me_end m) \<and> now \<ge> me_start m \<and>
     now - me_start m < me_window_ns m"

definition isWithinCollectionWindow :: "64 word \<Rightarrow> measurement \<Rightarrow> bool" where
  "isWithinCollectionWindow now m \<longleftrightarrow>
     me_start m \<noteq> 0 \<and> (me_end m = 0 \<or> now < me_end m) \<and> now \<ge> me_start m \<and>
     now - me_start m < me_window_ns m + me_grace_ns m"

definition createTrace :: "64 word \<Rightarrow> measurement \<Rightarrow> measurement \<times> performance_trace" where
  "createTrace now m =
     (if isWithinAdmissionWindow now m
      then let source = me_next_source m + 1
           in (m\<lparr>me_next_source := source\<rparr>, trace_init\<lparr>pt_t := (pt_t trace_init)(0 := now), pt_source_id := source\<rparr>)
      else (m, trace_init))"

text \<open>The loop over the time stamps from \<open>first\<close>: each is set and none is before the one before it.\<close>

definition stamps_ok :: "nat \<Rightarrow> performance_trace \<Rightarrow> bool" where
  "stamps_ok first tr \<longleftrightarrow>
     (\<forall>i\<in>set [first..<8]. pt_t tr i \<noteq> 0 \<and> \<not> (i > first \<and> pt_t tr i < pt_t tr (i - 1)))"

definition recordTrace :: "client_request \<Rightarrow> int \<Rightarrow> measurement \<Rightarrow> measurement" where
  "recordTrace r result m =
     (let trace = rq_trace r; cancel = (rq_type r = Request_CANCEL); first = (if cancel then 4 else 0)
      in if result \<noteq> 0 \<or> \<not> isWithinCollectionWindow (pt_t trace 7) m then m
         else if \<not> cancel \<and> (rq_type r \<noteq> Request_NEW \<or> pt_source_id trace = 0 \<or> pt_evaluation_id trace = 0 \<or>
                  \<not> isWithinAdmissionWindow (pt_t trace 0) m) then m
         else if cancel \<and> \<not> isWithinAdmissionWindow (pt_t trace 4) m then m
         else if \<not> stamps_ok first trace then m
         else if me_size m = me_capacity m then m\<lparr>me_overflow := me_overflow m + 1\<rparr>
         else m\<lparr>me_samples := (me_samples m)(me_size m :=
                  \<lparr>sm_trace = trace, sm_order_id = rq_order_id r, sm_ticker_id = rq_ticker_id r,
                   sm_type = rq_type r, sm_offset = rq_offset r\<rparr>),
                me_size := me_size m + 1\<rparr>)"

section \<open>Export\<close>

definition csv_header :: string where
  "csv_header = ''type,offset,order_id,ticker_id,source_id,evaluation_id,t1,t2,t3,t4,t5,t6,t7,t8'' @ [CHR 0x0A]"

definition csv_row :: "sample \<Rightarrow> string" where
  "csv_row s =
     clientRequestTypeToString (sm_type s) @ '','' @ orderOffsetToString (sm_offset s) @ '','' @
     show_u (sm_order_id s) @ '','' @ show_u (sm_ticker_id s) @ '','' @
     show_u (pt_source_id (sm_trace s)) @ '','' @ show_u (pt_evaluation_id (sm_trace s)) @
     concat (map (\<lambda>i. '','' @ show_u (pt_t (sm_trace s) i)) [0..<8]) @ [CHR 0x0A]"

record capture_meta =
  cm_start :: "64 word"
  cm_end :: "64 word"
  cm_export :: "64 word"
  cm_window :: "64 word"
  cm_grace :: "64 word"
  cm_capacity :: nat
  cm_samples :: nat
  cm_new_samples :: nat
  cm_overflow :: nat
  cm_healthy :: bool
  cm_provider_failures :: "64 word"
  cm_window_completed :: bool

definition exportTrace :: "(capture_meta \<Rightarrow> string) \<Rightarrow> bool \<Rightarrow> bool \<Rightarrow> 64 word \<Rightarrow> bool \<Rightarrow> 64 word \<Rightarrow> measurement \<Rightarrow>
    exn + (string \<times> string)" where
  "exportTrace dump csv_exists meta_exists now healthy failures m =
     (if csv_exists \<or> meta_exists
      then Inl (Runtime_error ''Performance output already exists; choose a new directory'')
      else
        let samples = map (me_samples m) [0..<me_size m];
            start = me_start m;
            completed_at = (if me_end m \<noteq> 0 then me_end m else now)
        in Inr (csv_header @ concat (map csv_row samples),
                dump \<lparr>cm_start = start, cm_end = me_end m, cm_export = now, cm_window = me_window_ns m,
                      cm_grace = me_grace_ns m, cm_capacity = me_capacity m, cm_samples = me_size m,
                      cm_new_samples = length (filter (\<lambda>s. sm_type s = Request_NEW) samples),
                      cm_overflow = me_overflow m, cm_healthy = healthy, cm_provider_failures = failures,
                      cm_window_completed = (start \<noteq> 0 \<and> completed_at \<ge> start \<and>
                        completed_at - start \<ge> me_window_ns m + me_grace_ns m)\<rparr> @ [CHR 0x0A]))"

section \<open>The Callgrind window\<close>

record callgrind_profiler =
  cp_window_ns :: "64 word"
  cp_start :: "64 word"
  cp_end :: "64 word"
  cp_started :: bool

definition callgrind_new :: "64 word \<Rightarrow> exn + callgrind_profiler" where
  "callgrind_new window =
     (if window = 0 \<or> window > (- 1) - 1 then Inl (Invalid_argument ''Invalid Callgrind profiling window'')
      else Inr \<lparr>cp_window_ns = window, cp_start = 0, cp_end = 0, cp_started = False\<rparr>)"

definition callgrind_startCapture :: "64 word \<Rightarrow> callgrind_profiler \<Rightarrow> (callgrind_profiler, unit) outcome" where
  "callgrind_startCapture now p =
     (if now = 0 \<or> cp_started p then Throw p (Logic_error ''Callgrind capture can only be armed once'')
      else Ok (p\<lparr>cp_start := now, cp_end := now + cp_window_ns p, cp_started := True\<rparr>) ())"

definition callgrind_stopCapture :: "64 word \<Rightarrow> callgrind_profiler \<Rightarrow> callgrind_profiler" where
  "callgrind_stopCapture now p = p\<lparr>cp_end := now\<rparr>"

text \<open>Whether the scope that \<open>collect\<close> returns toggles the collection, at its begin and its end.\<close>

definition callgrind_collect :: "64 word \<Rightarrow> callgrind_profiler \<Rightarrow> bool" where
  "callgrind_collect now p \<longleftrightarrow>
     cp_started p \<and> cp_start p \<noteq> 0 \<and> cp_end p \<noteq> 0 \<and> now \<ge> cp_start p \<and> now < cp_end p"

definition scope_toggle :: "bool \<Rightarrow> bool \<Rightarrow> bool" where
  "scope_toggle enabled collecting = (if enabled then \<not> collecting else collecting)"

section \<open>What the samples are\<close>

definition sample_ok :: "sample \<Rightarrow> bool" where
  "sample_ok s \<longleftrightarrow> sm_type s \<in> {Request_NEW, Request_CANCEL} \<and>
     (let first = (if sm_type s = Request_CANCEL then 4 else 0); t = pt_t (sm_trace s) in
      (\<forall>i j. first \<le> i \<and> i \<le> j \<and> j < 8 \<longrightarrow> 0 < t i \<and> t i \<le> t j)) \<and>
     (sm_type s = Request_NEW \<longrightarrow> pt_source_id (sm_trace s) \<noteq> 0 \<and> pt_evaluation_id (sm_trace s) \<noteq> 0)"

definition measurement_ok :: "measurement \<Rightarrow> bool" where
  "measurement_ok m \<longleftrightarrow> me_size m \<le> me_capacity m \<and>
     unat (me_window_ns m) + unat (me_grace_ns m) < 2 ^ 64 \<and> (\<forall>i<me_size m. sample_ok (me_samples m i))"

lemma measurement_new_ok:
  assumes "measurement_new c w g = Inr m"
  shows "measurement_ok m"
proof -
  have m: "w \<le> - 1 - g" "me_window_ns m = w" "me_grace_ns m = g" "me_size m = 0"
    using assms by (auto simp: measurement_new_def not_less split: if_splits)
  have "unat (- 1 - g) = unat (- 1 :: 64 word) - unat g"
    by (simp add: unat_sub)
  moreover have "unat (- 1 :: 64 word) = 2 ^ 64 - 1"
    by (simp add: unsigned_minus_1_eq_mask mask_eq_exp_minus_1)
  ultimately have "unat w + unat g < 2 ^ 64"
    using m(1) unsigned_less[of g, where ?'a = nat] by (simp add: word_le_nat_alt)
  with m show ?thesis by (simp add: measurement_ok_def)
qed

lemma stamps_ok_mono:
  assumes s: "stamps_ok first tr" and i: "first \<le> i" "i \<le> j" "j < 8"
  shows "0 < pt_t tr i \<and> pt_t tr i \<le> pt_t tr j"
proof
  show "0 < pt_t tr i" using s i by (simp add: stamps_ok_def word_neq_0_conv)
  show "pt_t tr i \<le> pt_t tr j" using i(2,3)
  proof (induction j rule: dec_induct)
    case (step k)
    have "\<not> pt_t tr (Suc k) < pt_t tr k"
      using s step i(1) by (auto simp: stamps_ok_def dest: bspec[of _ _ "Suc k"])
    with step show ?case by simp
  qed simp
qed

lemma recordTrace_ok:
  assumes "measurement_ok m"
  shows "measurement_ok (recordTrace r result m)"
proof -
  have "sample_ok \<lparr>sm_trace = rq_trace r, sm_order_id = rq_order_id r, sm_ticker_id = rq_ticker_id r,
      sm_type = rq_type r, sm_offset = rq_offset r\<rparr>"
    if "stamps_ok (if rq_type r = Request_CANCEL then 4 else 0) (rq_trace r)"
      "rq_type r = Request_CANCEL \<or> rq_type r = Request_NEW \<and> pt_source_id (rq_trace r) \<noteq> 0 \<and>
        pt_evaluation_id (rq_trace r) \<noteq> 0"
    using that stamps_ok_mono[OF that(1)] by (auto simp: sample_ok_def Let_def)
  then show ?thesis
    using assms by (auto simp: recordTrace_def Let_def measurement_ok_def less_Suc_eq)
qed

text \<open>The windows, over unbounded time.\<close>

lemma windows_exact:
  assumes "measurement_ok m"
  shows "isWithinCollectionWindow now m \<longleftrightarrow> me_start m \<noteq> 0 \<and> (me_end m = 0 \<or> now < me_end m) \<and>
      unat (me_start m) \<le> unat now \<and>
      unat now < unat (me_start m) + unat (me_window_ns m) + unat (me_grace_ns m)"
    "isWithinAdmissionWindow now m \<Longrightarrow> isWithinCollectionWindow now m"
proof -
  have sum: "unat (me_window_ns m + me_grace_ns m) = unat (me_window_ns m) + unat (me_grace_ns m)"
    using assms by (intro unat_add_lem[THEN iffD1]) (simp add: measurement_ok_def)
  have diff: "me_start m \<le> now \<Longrightarrow> unat (now - me_start m) = unat now - unat (me_start m)"
    by (rule unat_sub)
  show "isWithinCollectionWindow now m \<longleftrightarrow> me_start m \<noteq> 0 \<and> (me_end m = 0 \<or> now < me_end m) \<and>
      unat (me_start m) \<le> unat now \<and>
      unat now < unat (me_start m) + unat (me_window_ns m) + unat (me_grace_ns m)"
    using diff sum unfolding isWithinCollectionWindow_def word_less_nat_alt word_le_nat_alt by fastforce
  show "isWithinAdmissionWindow now m \<Longrightarrow> isWithinCollectionWindow now m"
    using diff sum unfolding isWithinCollectionWindow_def isWithinAdmissionWindow_def
      word_less_nat_alt word_le_nat_alt by fastforce
qed

text \<open>The life of a capture: armed, stopped, traces created, submissions recorded.\<close>

inductive capture :: "measurement \<Rightarrow> bool" where
  created: "measurement_new c w g = Inr m \<Longrightarrow> capture m"
| armed: "capture m \<Longrightarrow> startCapture now m = Ok m' () \<Longrightarrow> capture m'"
| stopped: "capture m \<Longrightarrow> capture (stopCapture now m)"
| traced: "capture m \<Longrightarrow> capture (fst (createTrace now m))"
| recorded: "capture m \<Longrightarrow> capture (recordTrace r result m)"

lemma capture_ok: "capture m \<Longrightarrow> measurement_ok m"
proof (induction rule: capture.induct)
  case (armed m now m')
  then show ?case by (auto simp: startCapture_def measurement_ok_def split: if_splits)
next
  case (traced m now)
  then show ?case by (auto simp: createTrace_def Let_def measurement_ok_def)
next
  case (stopped m now)
  then show ?case by (simp add: stopCapture_def measurement_ok_def)
qed (rule measurement_new_ok recordTrace_ok, assumption)+

text \<open>Through any capture the samples stay within the preallocated storage, and each is a NEW of a
  traced evaluation or a CANCEL whose time stamps, from the first that counts for it to the last, are
  set and in order, so that every latency taken from them is a difference that does not wrap; the
  collection window is the exact interval from the start to the end of window and grace.\<close>

theorem samples_are_ordered:
  assumes "capture m"
  shows "me_size m \<le> me_capacity m \<and> (\<forall>i<me_size m. sample_ok (me_samples m i)) \<and>
    (isWithinCollectionWindow now m \<longleftrightarrow> me_start m \<noteq> 0 \<and> (me_end m = 0 \<or> now < me_end m) \<and>
       unat (me_start m) \<le> unat now \<and>
       unat now < unat (me_start m) + unat (me_window_ns m) + unat (me_grace_ns m))"
  using capture_ok[OF assms] windows_exact(1)[OF capture_ok[OF assms]] by (simp add: measurement_ok_def)

definition sample_request :: client_request where
  "sample_request = client_request_init\<lparr>rq_type := Request_CANCEL,
     rq_trace := trace_init\<lparr>pt_t := (\<lambda>i. 100 + of_nat i)\<rparr>\<rparr>"

lemma samples_are_ordered_witness:
  "\<exists>m :: measurement. me_size m = 1 \<and> me_capacity m = 2 \<and> sample_ok (me_samples m 0)"
proof -
  obtain m0 where m0: "measurement_new 2 1000 10 = Inr m0" by (simp add: measurement_new_def)
  let ?m = "recordTrace sample_request 0 (m0\<lparr>me_start := 100\<rparr>)"
  have "startCapture 100 m0 = Ok (m0\<lparr>me_start := 100\<rparr>) ()"
    using m0 by (auto simp: measurement_new_def startCapture_def)
  then have c: "capture ?m" by (intro capture.recorded capture.armed[OF capture.created[OF m0]])
  have "me_size ?m = 1" "me_capacity ?m = 2"
    using m0 by (auto simp: measurement_new_def recordTrace_def sample_request_def Let_def stamps_ok_def
        upt_rec isWithinCollectionWindow_def isWithinAdmissionWindow_def)
  moreover from this have "sample_ok (me_samples ?m 0)" using samples_are_ordered[OF c] by simp
  ultimately show ?thesis by blast
qed

end
