(* ===== verification/Drain.thy ===== *)
theory Drain
  imports LFQueue
begin

text \<open>
  The loop with which a worker empties a queue: \<open>while (x = peek()) { handle(x); advance(); }\<close>.
  The loop has no bound of its own: \<open>None\<close> is the value of a loop that never ends. It ends when
  every round leaves fewer elements.
\<close>

partial_function (option) drain ::
    "('s \<Rightarrow> 'x option) \<Rightarrow> ('x \<Rightarrow> 's \<Rightarrow> ('s, unit) outcome) \<Rightarrow> bool \<Rightarrow> 's \<Rightarrow> ('s, bool) outcome option" where
  "drain peek body processed s =
     (case peek s of
        None \<Rightarrow> Some (Ok s processed)
      | Some x \<Rightarrow>
          (case body x s of
             Ok s' _ \<Rightarrow> drain peek body True s'
           | Throw s' e \<Rightarrow> Some (Throw s' e)
           | Abort m \<Rightarrow> Some (Abort m)
           | Hang \<Rightarrow> Some Hang
           | Undef \<Rightarrow> Some Undef))"

text \<open>What a body must do for its loop to empty the queue: take the element it was given.\<close>

definition consumes :: "('s \<Rightarrow> 'x list) \<Rightarrow> ('s \<Rightarrow> bool) \<Rightarrow> ('x \<Rightarrow> 's \<Rightarrow> ('s, unit) outcome) \<Rightarrow> bool" where
  "consumes pending good body \<longleftrightarrow>
     (\<forall>s x xs s'. good s \<longrightarrow> pending s = x # xs \<longrightarrow> body x s = Ok s' () \<longrightarrow> good s' \<and> pending s' = xs)"

lemma drain_returns:
  assumes "consumes pending good body"
    and peek: "\<And>s. good s \<Longrightarrow> peek s = (case pending s of [] \<Rightarrow> None | x # _ \<Rightarrow> Some x)"
    and "good s"
  shows "\<exists>m. drain peek body processed s = Some m \<and>
    (\<forall>s' b. m = Ok s' b \<longrightarrow> good s' \<and> pending s' = [] \<and> (b \<longleftrightarrow> processed \<or> pending s \<noteq> []))"
  using assms(3)
proof (induction "pending s" arbitrary: s processed)
  case Nil
  then show ?case using peek[of s] by (subst drain.simps) simp
next
  case (Cons x xs)
  show ?case
  proof (cases "body x s")
    case (Ok s' u)
    then have "good s'" "pending s' = xs"
      using assms(1)[unfolded consumes_def, rule_format, OF Cons.prems Cons.hyps(2)[symmetric], of s'] Ok
      by simp_all
    then obtain m where m: "drain peek body True s' = Some m"
      "\<forall>s'' b. m = Ok s'' b \<longrightarrow> good s'' \<and> pending s'' = [] \<and> b"
      using Cons.hyps(1)[of s' True] by auto
    have "drain peek body processed s = Some m"
      using peek[OF Cons.prems] Ok m(1) Cons.hyps(2)[symmetric] by (subst drain.simps) simp
    then show ?thesis using m(2) Cons.hyps(2)[symmetric] by auto
  qed (use peek[OF Cons.prems] Cons.hyps(2)[symmetric] in \<open>subst drain.simps, simp\<close>)+
qed

text \<open>An invariant of the body is one of the loop, however it ends.\<close>

lemma drain_invariant:
  assumes body: "\<And>x s. P s \<Longrightarrow> peek s = Some x \<Longrightarrow>
      (\<forall>s' u. body x s = Ok s' u \<longrightarrow> P s') \<and> (\<forall>s' e. body x s = Throw s' e \<longrightarrow> Q s' e)"
    and "P s" "drain peek body processed s = Some m"
  shows "(\<forall>s' b. m = Ok s' b \<longrightarrow> P s') \<and> (\<forall>s' e. m = Throw s' e \<longrightarrow> Q s' e)"
proof -
  have "(\<forall>x s. P s \<longrightarrow> peek s = Some x \<longrightarrow>
      (\<forall>s' u. body x s = Ok s' u \<longrightarrow> P s') \<and> (\<forall>s' e. body x s = Throw s' e \<longrightarrow> Q s' e)) \<longrightarrow> P s \<longrightarrow>
    (\<forall>s' b. m = Ok s' b \<longrightarrow> P s') \<and> (\<forall>s' e. m = Throw s' e \<longrightarrow> Q s' e)"
  proof (rule drain.raw_induct[OF _ assms(3)], intro impI, goal_cases)
    case (1 f peek body processed s m)
    show ?case
    proof (cases "peek s")
      case None
      then show ?thesis using 1(2,4) by auto
    next
      case (Some x)
      have b: "(\<forall>s' u. body x s = Ok s' u \<longrightarrow> P s') \<and> (\<forall>s' e. body x s = Throw s' e \<longrightarrow> Q s' e)"
        using 1(3) 1(4) Some by blast
      show ?thesis
      proof (cases "body x s")
        case (Ok s' u)
        then have "P s'" "f peek body True s' = Some m" using b 1(2) Some by simp_all
        then show ?thesis using 1(1) 1(3) by blast
      next
        case (Throw s' e)
        then have "m = Throw s' e" "Q s' e" using b 1(2) Some by simp_all
        then show ?thesis by simp
      qed (use 1(2) Some in auto)
    qed
  qed
  with body assms(2) show ?thesis by blast
qed

lemma drain_no_hang:
  assumes body: "\<And>x s. P s \<Longrightarrow> peek s = Some x \<Longrightarrow> body x s \<noteq> Hang \<and> (\<forall>s' u. body x s = Ok s' u \<longrightarrow> P s')"
    and "P s" "drain peek body processed s = Some m"
  shows "m \<noteq> Hang"
proof -
  have "(\<forall>x s. P s \<longrightarrow> peek s = Some x \<longrightarrow> body x s \<noteq> Hang \<and> (\<forall>s' u. body x s = Ok s' u \<longrightarrow> P s')) \<longrightarrow>
      P s \<longrightarrow> m \<noteq> Hang"
  proof (rule drain.raw_induct[OF _ assms(3)], intro impI, goal_cases)
    case (1 f peek body processed s m)
    show ?case
    proof (cases "peek s")
      case None
      then show ?thesis using 1(2) by auto
    next
      case (Some x)
      have b: "body x s \<noteq> Hang \<and> (\<forall>s' u. body x s = Ok s' u \<longrightarrow> P s')" using 1(3) 1(4) Some by blast
      show ?thesis
      proof (cases "body x s")
        case (Ok s' u)
        then have "P s'" "f peek body True s' = Some m" using b 1(2) Some by simp_all
        then show ?thesis using 1(1) 1(3) by blast
      qed (use 1(2) Some b in auto)
    qed
  qed
  with body assms(2) show ?thesis by blast
qed

section \<open>A loop whose body succeeds\<close>

lemma drain_fold:
  assumes body: "\<And>x xs s. good s \<Longrightarrow> pending s = x # xs \<Longrightarrow>
      \<exists>s'. body x s = Ok s' () \<and> good s' \<and> pending s' = xs \<and> view s' = step x (view s)"
    and peek: "\<And>s. good s \<Longrightarrow> peek s = (case pending s of [] \<Rightarrow> None | x # _ \<Rightarrow> Some x)"
    and "good s"
  shows "\<exists>s'. drain peek body processed s = Some (Ok s' (processed \<or> pending s \<noteq> [])) \<and>
    good s' \<and> pending s' = [] \<and> view s' = fold step (pending s) (view s)"
  using assms(3)
proof (induction "pending s" arbitrary: s processed)
  case Nil
  then show ?case using peek[of s] by (subst drain.simps) simp
next
  case (Cons x xs)
  obtain s1 where b: "body x s = Ok s1 ()" "good s1" "pending s1 = xs" "view s1 = step x (view s)"
    using body[OF Cons.prems Cons.hyps(2)[symmetric]] by blast
  have "drain peek body processed s = drain peek body True s1"
    using peek[OF Cons.prems] b(1) Cons.hyps(2)[symmetric] by (subst drain.simps) simp
  then show ?case
    using Cons.hyps(1)[OF b(3)[symmetric] b(2), of True] b(3,4) Cons.hyps(2)[symmetric] by simp
qed

end
