(* ===== verification/TradeEngine.thy ===== *)
theory TradeEngine
  imports FeatureEngine Measurement Drain
begin

text \<open>
  \<open>trading/strategy/trade_engine.{h,cpp}\<close>: the owner of the participant's state. Its worker drains the
  responses, the market updates and the decisions, in this order, and then schedules an evaluation.

  The queues are the sequential \<open>LFQueue\<close> operations (the interleaving of their two ends is in
  \<open>LFQueue\<close>). The pointers to the queues are not null once the constructor has returned; the queue
  of evaluations is attached later. The books are addressed by ticker, and the pointer to a BBO is
  that index. The three callbacks observe; their calls are the list \<open>te_events\<close>. The engine runs
  without a log handle and without the profiler, both optional. Reading the steady clock takes the
  next of the readings \<open>te_clock\<close>, in nanoseconds.
\<close>

section \<open>State\<close>

datatype engine_event =
    On_response client_response
  | On_market market_update
  | On_decision jev_decision

record trade_engine =
  te_client_id :: client_id
  te_keeper :: position_keeper
  te_limits :: risk_limits
  te_orders :: order_manager
  te_account :: account_state
  te_latest_evaluation :: "nat \<Rightarrow> 64 word"
  te_features :: "nat \<Rightarrow> market_features"
  te_evaluations :: "jev_evaluation_state lf_queue option"
  te_interval_ns :: nat
  te_next_evaluation_at :: nat
  te_jev_ticker :: ticker_id
  te_next_evaluation_id :: "64 word"
  te_order_quantity :: qty
  te_requests :: "client_request lf_queue"
  te_responses :: "client_response lf_queue"
  te_updates :: "market_update lf_queue"
  te_decisions :: "jev_decision lf_queue"
  te_books :: "nat \<Rightarrow> market_order_book"
  te_measurement :: "measurement option"
  te_latest_traces :: "nat \<Rightarrow> performance_trace"
  te_decision_trace :: performance_trace
  te_simex :: bool
  te_single_order :: bool
  te_venue_ready :: bool
  te_venue_account :: account_state
  te_venue_multiplier :: f64
  te_clock :: "nat \<Rightarrow> nat"
  te_ticks :: nat
  te_events :: "engine_event list"

definition read_clock :: "trade_engine \<Rightarrow> trade_engine \<times> nat" where
  "read_clock s = (s\<lparr>te_ticks := te_ticks s + 1\<rparr>, te_clock s (te_ticks s))"

text \<open>The constructor, from queues that are there; a book throws on no ticker it is given here.\<close>

definition defaultRiskLimits :: risk_limits where
  "defaultRiskLimits = \<lparr>rl_max_order_size = Qty_INVALID, rl_max_position = Qty_INVALID, rl_max_loss = 0\<rparr>"

definition trade_engine_new :: "client_id \<Rightarrow> risk_limits \<Rightarrow> client_request lf_queue option \<Rightarrow>
    client_response lf_queue option \<Rightarrow> market_update lf_queue option \<Rightarrow> jev_decision lf_queue option \<Rightarrow>
    (nat \<Rightarrow> nat) \<Rightarrow> exn + trade_engine" where
  "trade_engine_new client limits requests responses updates decisions clock =
     (case (requests, responses, updates, decisions) of
        (Some rq, Some rs, Some mu, Some jd) \<Rightarrow>
          Inr \<lparr>te_client_id = client, te_keeper = position_keeper_new, te_limits = limits,
            te_orders = order_manager_new client, te_account = account_state_init,
            te_latest_evaluation = (\<lambda>_. 0), te_features = (\<lambda>_. market_features_init),
            te_evaluations = None, te_interval_ns = 2000 * 1000000, te_next_evaluation_at = clock 0,
            te_jev_ticker = 0, te_next_evaluation_id = 1, te_order_quantity = 1,
            te_requests = rq, te_responses = rs, te_updates = mu, te_decisions = jd,
            te_books = (\<lambda>t. projr (market_order_book_new (of_nat t))),
            te_measurement = None, te_latest_traces = (\<lambda>_. trace_init), te_decision_trace = trace_init,
            te_simex = False, te_single_order = False, te_venue_ready = True,
            te_venue_account = account_state_init, te_venue_multiplier = 1,
            te_clock = clock, te_ticks = 1, te_events = []\<rparr>
      | _ \<Rightarrow> Inl (Invalid_argument ''TradeEngine queues must not be null''))"

section \<open>Configuration and the venue mailbox\<close>

definition setDecisionOrderQuantity :: "qty \<Rightarrow> trade_engine \<Rightarrow> (trade_engine, unit) outcome" where
  "setDecisionOrderQuantity q s =
     (if q = 0 \<or> q = Qty_INVALID then Throw s (Invalid_argument ''Decision order quantity must be positive'')
      else Ok (s\<lparr>te_order_quantity := q\<rparr>) ())"

definition enableSimexConstraints :: "trade_engine \<Rightarrow> trade_engine" where
  "enableSimexConstraints s = s\<lparr>te_simex := True\<rparr>"

definition enableSingleOrderVenue :: "trade_engine \<Rightarrow> trade_engine" where
  "enableSingleOrderVenue s = s\<lparr>te_single_order := True, te_simex := True, te_venue_ready := False\<rparr>"

definition updateVenueState :: "bool \<Rightarrow> account_state \<Rightarrow> f64 \<Rightarrow> trade_engine \<Rightarrow> trade_engine" where
  "updateVenueState ready account multiplier s =
     (let s = s\<lparr>te_venue_account := account, te_venue_multiplier := multiplier, te_venue_ready := ready\<rparr>
      in if ready then s else s\<lparr>te_latest_evaluation := (\<lambda>_. 0)\<rparr>)"

definition disableVenueTrading :: "trade_engine \<Rightarrow> trade_engine" where
  "disableVenueTrading s = s\<lparr>te_venue_ready := False, te_latest_evaluation := (\<lambda>_. 0)\<rparr>"

definition setAccountState :: "account_state \<Rightarrow> trade_engine \<Rightarrow> trade_engine" where
  "setAccountState a s = s\<lparr>te_account := a\<rparr>"

definition setMeasurement :: "measurement option \<Rightarrow> trade_engine \<Rightarrow> trade_engine" where
  "setMeasurement m s = s\<lparr>te_measurement := m\<rparr>"

definition acceptsEvaluation :: "jev_evaluation_state \<Rightarrow> trade_engine \<Rightarrow> bool" where
  "acceptsEvaluation e s \<longleftrightarrow>
     (\<not> te_single_order s \<or> te_venue_ready s) \<and> unat (es_ticker_id e) < ME_MAX_TICKERS \<and>
     es_evaluation_id e \<noteq> 0 \<and> te_latest_evaluation s (unat (es_ticker_id e)) = es_evaluation_id e"

definition registerEvaluation :: "ticker_id \<Rightarrow> 64 word \<Rightarrow> trade_engine \<Rightarrow> (trade_engine, unit) outcome" where
  "registerEvaluation t e s =
     (if unat t \<ge> ME_MAX_TICKERS \<or> e = 0 then Throw s (Invalid_argument ''Invalid Jev evaluation registration'')
      else Ok (s\<lparr>te_latest_evaluation := (te_latest_evaluation s)(unat t := e)\<rparr>) ())"

definition attachJevEvaluationQueue :: "jev_evaluation_state lf_queue option \<Rightarrow> int \<Rightarrow> ticker_id \<Rightarrow>
    trade_engine \<Rightarrow> (trade_engine, unit) outcome" where
  "attachJevEvaluationQueue q interval_ms t s =
     (if q = None \<or> interval_ms < 0 \<or> unat t \<ge> ME_MAX_TICKERS
      then Throw s (Invalid_argument ''Invalid Jev evaluation queue configuration'')
      else
        let (s, now) = read_clock s
        in Ok (s\<lparr>te_evaluations := q, te_interval_ns := nat interval_ms * 1000000, te_jev_ticker := t,
                 te_next_evaluation_at := now\<rparr>) ())"

section \<open>Sending requests\<close>

text \<open>The trace that goes with a request, when a measurement is installed.\<close>

definition request_trace :: "client_request \<Rightarrow> trade_engine \<Rightarrow> trade_engine \<times> performance_trace" where
  "request_trace r s =
     (case te_measurement s of
        None \<Rightarrow> (s, trace_init)
      | Some m \<Rightarrow>
          let (s, now) = read_clock s;
              tr = (if rq_type r = Request_NEW \<and> pt_source_id (te_decision_trace s) \<noteq> 0 \<and>
                       isWithinCollectionWindow (of_nat now) m
                    then te_decision_trace s else trace_init)
          in if pt_source_id tr \<noteq> 0 \<or> rq_type r = Request_CANCEL \<and> isWithinAdmissionWindow (of_nat now) m
             then let (s, sent) = read_clock s in (s, tr\<lparr>pt_t := (pt_t tr)(4 := of_nat sent)\<rparr>)
             else (s, tr))"

definition sendClientRequest :: "client_request \<Rightarrow> trade_engine \<Rightarrow> (trade_engine, unit) outcome" where
  "sendClientRequest r s =
     (case tryGetNextToWriteTo (te_requests s) of
        None \<Rightarrow> Abort ''terminate''
      | Some place \<Rightarrow>
          let (s, tr) = request_trace r s
          in on_part (\<lambda>q. s\<lparr>te_requests := q\<rparr>)
               (updateWriteIndex (lq_write_slot place (r\<lparr>rq_trace := tr\<rparr>) (te_requests s))))"

text \<open>The risk manager the order manager points to, and the order manager's calls on the engine.\<close>

definition te_risk :: "trade_engine \<Rightarrow> risk_manager" where
  "te_risk s = \<lparr>rm_keeper = Some (te_keeper s), rm_limits = te_limits s\<rparr>"

definition with_orders :: "(order_manager \<times> trade_engine \<Rightarrow> (order_manager \<times> trade_engine, 'a) outcome) \<Rightarrow>
    trade_engine \<Rightarrow> (trade_engine, 'a) outcome" where
  "with_orders f s = on_part (\<lambda>(om, s'). s'\<lparr>te_orders := om\<rparr>) (f (te_orders s, s))"

definition te_moveOpenOrder :: "ticker_id \<Rightarrow> price \<Rightarrow> side \<Rightarrow> qty \<Rightarrow> trade_engine \<Rightarrow> (trade_engine, unit) outcome" where
  "te_moveOpenOrder t px sd q s =
     with_orders (moveOpenOrder (Some sendClientRequest) (Some (te_risk s)) t px sd q) s"

definition te_moveCloseOrder :: "ticker_id \<Rightarrow> price \<Rightarrow> side \<Rightarrow> qty \<Rightarrow> trade_engine \<Rightarrow> (trade_engine, unit) outcome" where
  "te_moveCloseOrder t px sd q s =
     with_orders (moveCloseOrder (Some sendClientRequest) (Some (te_risk s)) t px sd q) s"

section \<open>Handlers\<close>

definition note_event :: "engine_event \<Rightarrow> trade_engine \<Rightarrow> trade_engine" where
  "note_event e s = s\<lparr>te_events := te_events s @ [e]\<rparr>"

definition on_keeper :: "(position_keeper \<Rightarrow> (position_keeper, 'a) outcome) \<Rightarrow> trade_engine \<Rightarrow>
    (trade_engine, 'a) outcome" where
  "on_keeper f s = on_part (\<lambda>k. s\<lparr>te_keeper := k\<rparr>) (f (te_keeper s))"

definition te_bbo :: "trade_engine \<Rightarrow> nat \<Rightarrow> bbo" where
  "te_bbo s t = mob_bbo (te_books s t)"

text \<open>The check after a fill that the simex integration turns on.\<close>

definition position_agrees :: "int \<Rightarrow> position_info \<Rightarrow> bool" where
  "position_agrees expected p \<longleftrightarrow> pi_position p = expected \<and>
     int (unat (todayQty p)) + int (unat (yesterdayQty p)) = \<bar>expected\<bar>"

definition handleClientResponse :: "client_response \<Rightarrow> trade_engine \<Rightarrow> (trade_engine, unit) outcome" where
  "handleClientResponse r s =
     (if unat (rs_ticker_id r) \<ge> ME_MAX_TICKERS then Ok s ()
      else
        let t = unat (rs_ticker_id r);
            finish = (\<lambda>s. Ok (note_event (On_response r) (s\<lparr>te_orders := onOrderUpdate r (te_orders s)\<rparr>)) ())
        in if rs_type r = FILLED then
             let expected = pi_position (pk_positions (te_keeper s) t) +
                   sideToValue (rs_side r) * int (unat (rs_exec_qty r))
             in then_do (on_keeper (keeper_onClientResponse (te_bbo s) r) s) (\<lambda>s _.
                  if te_simex s \<and> \<not> position_agrees expected (pk_positions (te_keeper s) t)
                  then Throw s (Logic_error ''Simex execution and participant position disagree'')
                  else finish s)
           else finish s)"

definition handleMarketUpdate :: "market_update \<Rightarrow> trade_engine \<Rightarrow> (trade_engine, unit) outcome" where
  "handleMarketUpdate u s =
     (let t = unat (mu_ticker_id u)
      in then_do (on_keeper (keeper_updateBBO (te_bbo s) (mu_ticker_id u) (Some t)) s) (\<lambda>s _.
           let s = s\<lparr>te_features := (te_features s)(t := feature_onMarketUpdate (te_bbo s t))\<rparr>;
               s = (if mf_valid (te_features s t) then s
                    else s\<lparr>te_latest_evaluation := (te_latest_evaluation s)(t := 0)\<rparr>)
           in Ok (note_event (On_market u) s) ()))"

definition working :: "om_order \<Rightarrow> bool" where
  "working o' \<longleftrightarrow> oo_state o' \<noteq> Order_INVALID \<and> oo_state o' \<noteq> DEAD"

text \<open>The decisions that a venue with a single working order drops.\<close>

definition single_order_blocks :: "jev_decision \<Rightarrow> trade_engine \<Rightarrow> bool" where
  "single_order_blocks d s \<longleftrightarrow>
     (let t = unat (jd_ticker_id d) in
      te_single_order s \<and>
      ((\<exists>sd\<in>set [BUY, SELL]. working (om_orders (te_orders s) t (sideToIndex sd))) \<or>
       (jd_intent d = Intent_OPEN \<and> pi_position (pk_positions (te_keeper s) t) \<noteq> 0)))"

text \<open>The opening decisions that the simex constraints drop.\<close>

definition opposite_open :: "jev_decision \<Rightarrow> side \<Rightarrow> trade_engine \<Rightarrow> bool" where
  "opposite_open d sd s \<longleftrightarrow>
     (let t = unat (jd_ticker_id d);
          position = pi_position (pk_positions (te_keeper s) t);
          opposite = om_orders (te_orders s) t (sideToIndex (if sd = BUY then SELL else BUY))
      in te_simex s \<and>
         ((position > 0 \<and> sd = SELL) \<or> (position < 0 \<and> sd = BUY) \<or>
          (working opposite \<and> oo_offset opposite = OPEN)))"

definition handleJevDecision :: "jev_decision \<Rightarrow> trade_engine \<Rightarrow> (trade_engine, unit) outcome" where
  "handleJevDecision d s =
     (let t = unat (jd_ticker_id d); done' = (\<lambda>s. Ok (note_event (On_decision d) s) ())
      in if te_single_order s \<and> \<not> te_venue_ready s then Ok s ()
         else if t \<ge> ME_MAX_TICKERS \<or> jd_evaluation_id d = 0 \<or>
                 jd_evaluation_id d \<noteq> te_latest_evaluation s t then Ok s ()
         else if \<not> mf_valid (te_features s t) then Ok s ()
         else if single_order_blocks d s then Ok s ()
         else
           let b = te_bbo s t
           in if jd_intent d = Intent_OPEN then
                let sd = (if jd_bias d = LONG then BUY else SELL)
                in if opposite_open d sd s then done' s
                   else
                     let px = (if sd = BUY then bbo_ask_price b else bbo_bid_price b)
                     in if px \<noteq> Price_INVALID
                        then then_do (te_moveOpenOrder (jd_ticker_id d) px sd (te_order_quantity s) s) (\<lambda>s _. done' s)
                        else done' s
              else if jd_intent d = Intent_CLOSE then
                let position = pi_position (pk_positions (te_keeper s) t)
                in if position \<noteq> 0 then
                     let sd = (if position > 0 then SELL else BUY);
                         px = (if sd = BUY then bbo_ask_price b else bbo_bid_price b)
                     in if px \<noteq> Price_INVALID
                        then then_do (te_moveCloseOrder (jd_ticker_id d) px sd (te_order_quantity s) s) (\<lambda>s _. done' s)
                        else done' s
                   else done' s
              else done' s)"

section \<open>The worker's rounds\<close>

definition responses_body :: "client_response \<Rightarrow> trade_engine \<Rightarrow> (trade_engine, unit) outcome" where
  "responses_body r s =
     then_do (handleClientResponse r s) (\<lambda>s _.
       on_part (\<lambda>q. s\<lparr>te_responses := q\<rparr>) (updateReadIndex (te_responses s)))"

definition processClientResponses :: "trade_engine \<Rightarrow> (trade_engine, bool) outcome" where
  "processClientResponses s = await (drain (\<lambda>s. lq_peek (te_responses s)) responses_body False s) id"

definition updates_body :: "market_update \<Rightarrow> trade_engine \<Rightarrow> (trade_engine, unit) outcome" where
  "updates_body u s =
     (let (s, received) = (case te_measurement s of None \<Rightarrow> (s, 0) | Some _ \<Rightarrow> read_clock s);
          t = unat (mu_ticker_id u)
      in if t \<ge> ME_MAX_TICKERS then Abort ''terminate''
         else
           let tr = mu_trace u;
               tr = (if pt_source_id tr \<noteq> 0 then tr\<lparr>pt_t := (pt_t tr)(3 := of_nat received)\<rparr> else tr);
               s = s\<lparr>te_latest_traces := (te_latest_traces s)(t := tr)\<rparr>
           in then_do (on_part (\<lambda>b. s\<lparr>te_books := (te_books s)(t := b)\<rparr>) (book_onMarketUpdate u (te_books s t)))
                (\<lambda>s _. then_do (handleMarketUpdate u s) (\<lambda>s _.
                  on_part (\<lambda>q. s\<lparr>te_updates := q\<rparr>) (updateReadIndex (te_updates s)))))"

definition processMarketUpdates :: "trade_engine \<Rightarrow> (trade_engine, bool) outcome" where
  "processMarketUpdates s = await (drain (\<lambda>s. lq_peek (te_updates s)) updates_body False s) id"

definition decisions_body :: "jev_decision \<Rightarrow> trade_engine \<Rightarrow> (trade_engine, unit) outcome" where
  "decisions_body d s =
     then_do (handleJevDecision d (s\<lparr>te_decision_trace := jd_trace d\<rparr>)) (\<lambda>s _.
       let s = s\<lparr>te_decision_trace := trace_init\<rparr>
       in on_part (\<lambda>q. s\<lparr>te_decisions := q\<rparr>) (updateReadIndex (te_decisions s)))"

definition processJevDecisions :: "trade_engine \<Rightarrow> (trade_engine, bool) outcome" where
  "processJevDecisions s = await (drain (\<lambda>s. lq_peek (te_decisions s)) decisions_body False s) id"

definition toWorkingOrder :: "om_order \<Rightarrow> working_order_state" where
  "toWorkingOrder o' =
     \<lparr>wo_order_id = oo_order_id o', wo_side = oo_side o', wo_price = oo_price o', wo_qty = oo_qty o',
      wo_order_type = oo_order_type o', wo_offset = oo_offset o', wo_state = oo_state o'\<rparr>"

definition buildJevEvaluationState :: "ticker_id \<Rightarrow> 64 word \<Rightarrow> trade_engine \<Rightarrow>
    (trade_engine, jev_evaluation_state) outcome" where
  "buildJevEvaluationState ticker e s =
     (if unat ticker \<ge> ME_MAX_TICKERS \<or> e = 0
      then Throw s (Invalid_argument ''Invalid Jev evaluation state request'')
      else
        let t = unat ticker;
            (scale, before_fees, account, pnl_factor) =
              (if te_single_order s
               then (Fin 100000000, True, te_venue_account s, te_venue_multiplier s div Fin 100000000)
               else (1, False, te_account s, 1));
            (s, tr) =
              (case te_measurement s of
                 None \<Rightarrow> (s, trace_init)
               | Some m \<Rightarrow>
                   let (s, now) = read_clock s
                   in (s, if isWithinAdmissionWindow (of_nat now) m
                          then (te_latest_traces s t)\<lparr>pt_evaluation_id := e\<rparr> else trace_init));
            f = te_features s t; p = pk_positions (te_keeper s) t; lims = te_limits s
        in if \<not> mf_valid f
           then Throw s (Logic_error ''Cannot build Jev evaluation state without valid market features'')
           else query s (averageEntryPrice p) (\<lambda>average.
             Ok s \<lparr>es_trace = tr, es_price_scale = scale, es_pnl_before_fees = before_fees,
               es_evaluation_id = e, es_ticker_id = ticker,
               es_depth_snapshot = mob_depth (te_books s t), es_market_features = f,
               es_position = \<lparr>ps_net_position = pi_position p, ps_today_qty = todayQty p,
                 ps_yesterday_qty = yesterdayQty p, ps_average_entry_price = average,
                 ps_realized_pnl = pi_realized_pnl p * pnl_factor,
                 ps_unrealized_pnl = pi_unrealized_pnl p * pnl_factor\<rparr>,
               es_working_orders =
                 [toWorkingOrder (om_orders (te_orders s) t (sideToIndex BUY)),
                  toWorkingOrder (om_orders (te_orders s) t (sideToIndex SELL))],
               es_account = account,
               es_risk = \<lparr>rk_max_order_size = rl_max_order_size lims, rk_max_position = rl_max_position lims,
                 rk_max_loss = rl_max_loss lims\<rparr>\<rparr>))"

definition scheduleJevEvaluation :: "trade_engine \<Rightarrow> (trade_engine, bool) outcome" where
  "scheduleJevEvaluation s =
     (if te_single_order s \<and> \<not> te_venue_ready s then Ok s False
      else if te_evaluations s = None \<or> \<not> mf_valid (te_features s (unat (te_jev_ticker s))) then Ok s False
      else
        let (s, now) = read_clock s
        in if now < te_next_evaluation_at s then Ok s False
           else
             let e = te_next_evaluation_id s; s = s\<lparr>te_next_evaluation_id := e + 1\<rparr>
             in then_do (buildJevEvaluationState (te_jev_ticker s) e s) (\<lambda>s state.
                  deref (te_evaluations s) (\<lambda>q.
                    case tryGetNextToWriteTo q of
                      None \<Rightarrow> Abort ''terminate''
                    | Some place \<Rightarrow>
                        then_do (registerEvaluation (te_jev_ticker s) e s) (\<lambda>s _.
                        then_do (on_part (\<lambda>q. s\<lparr>te_evaluations := Some q\<rparr>)
                                   (updateWriteIndex (lq_write_slot place state q))) (\<lambda>s _.
                          let (s, later) = read_clock s
                          in Ok (s\<lparr>te_next_evaluation_at := later + te_interval_ns s\<rparr>) True)))))"

definition processPending :: "trade_engine \<Rightarrow> (trade_engine, bool) outcome" where
  "processPending s =
     then_do (processClientResponses s) (\<lambda>s p1.
     then_do (processMarketUpdates s) (\<lambda>s p2.
     then_do (processJevDecisions s) (\<lambda>s p3.
     then_do (scheduleJevEvaluation s) (\<lambda>s p4.
       Ok s (p4 \<or> p3 \<or> p2 \<or> p1)))))"

end
