(* ===== verification/EngineOrders.thy ===== *)
theory EngineOrders
  imports TradeEngine
begin

text \<open>
  The engine as the port of its order manager, and what a round of the engine does to orders and
  requests: the requests it queues are those of a run of the manager.
\<close>

section \<open>The engine provides the port\<close>

definition untraced :: "client_request \<Rightarrow> client_request" where
  "untraced r = r\<lparr>rq_trace := trace_init\<rparr>"

definition te_sent :: "trade_engine \<Rightarrow> client_request list" where
  "te_sent s = map untraced (lq_content (te_requests s))"

text \<open>Sending changes only the request queue and the clock.\<close>

definition te_frame :: "trade_engine \<Rightarrow> trade_engine \<Rightarrow> bool" where
  "te_frame s0 s \<longleftrightarrow> lq_inv (te_requests s) \<and>
     (\<exists>q n. s = s0\<lparr>te_ticks := n, te_requests := q\<rparr>)"

lemma te_frame_refl: "lq_inv (te_requests s) \<Longrightarrow> te_frame s s"
  unfolding te_frame_def by (intro conjI exI[of _ "te_requests s"] exI[of _ "te_ticks s"]) simp_all

lemma te_frame_upd:
  "te_frame s0 s \<Longrightarrow> lq_inv q \<Longrightarrow> te_frame s0 (s\<lparr>te_ticks := n, te_requests := q\<rparr>)"
  by (clarsimp simp: te_frame_def) blast

lemma request_trace_ticks: "\<exists>n tr. request_trace r s = (s\<lparr>te_ticks := n\<rparr>, tr)"
proof -
  have "fst (request_trace r s) = s\<lparr>te_ticks := te_ticks (fst (request_trace r s))\<rparr>"
    by (simp add: request_trace_def read_clock_def Let_def split: option.split)
  then show ?thesis by (metis prod.collapse)
qed

lemma sendClientRequest_enqueue:
  "\<exists>n tr. sendClientRequest r s = on_part (\<lambda>q. s\<lparr>te_ticks := n, te_requests := q\<rparr>)
     (lq_enqueue (r\<lparr>rq_trace := tr\<rparr>) (te_requests s))"
proof -
  obtain n tr where t: "request_trace r s = (s\<lparr>te_ticks := n\<rparr>, tr)"
    using request_trace_ticks by blast
  show ?thesis
    by (intro exI[of _ n] exI[of _ tr]) (simp add: sendClientRequest_def lq_enqueue_def t split: option.split)
qed

lemma lq_enqueue_not_throw: "lq_enqueue x q \<noteq> Throw q' e"
  by (simp add: lq_enqueue_def updateWriteIndex_def split: option.split)

lemma lq_enqueue_OkD:
  assumes "lq_inv q" "lq_enqueue x q = Ok q' u"
  shows "lq_inv q' \<and> lq_content q' = lq_content q @ [x] \<and> lq_capacity q' = lq_capacity q"
proof -
  have "lq_num_elements q < lq_capacity q"
    using assms lq_enqueue_full[of q x] by (auto simp: lq_inv_def le_less)
  then show ?thesis using lq_enqueue_ok[OF assms(1), of x] assms(2) by auto
qed

text \<open>\<open>h\<close> is what the gateway has taken already; the log is \<open>h\<close> and what is still queued.\<close>

definition te_log :: "client_request list \<Rightarrow> trade_engine \<Rightarrow> client_request list" where
  "te_log h s = h @ te_sent s"

interpretation te: request_port sendClientRequest "te_log h" "te_frame s0" for s0 h
proof
  fix p p' :: trade_engine and r u e
  assume good: "te_frame s0 p"
  obtain n tr where s: "sendClientRequest r p = on_part (\<lambda>q. p\<lparr>te_ticks := n, te_requests := q\<rparr>)
     (lq_enqueue (r\<lparr>rq_trace := tr\<rparr>) (te_requests p))"
    using sendClientRequest_enqueue by blast
  show "sendClientRequest r p \<noteq> Throw p' e"
    by (cases "lq_enqueue (r\<lparr>rq_trace := tr\<rparr>) (te_requests p)") (auto simp: s lq_enqueue_not_throw)
  assume r: "rq_trace r = trace_init" and ok: "sendClientRequest r p = Ok p' u"
  from ok obtain q where q: "lq_enqueue (r\<lparr>rq_trace := tr\<rparr>) (te_requests p) = Ok q u"
    "p' = p\<lparr>te_ticks := n, te_requests := q\<rparr>"
    by (cases "lq_enqueue (r\<lparr>rq_trace := tr\<rparr>) (te_requests p)") (auto simp: s)
  have "lq_inv (te_requests p)" using good by (simp add: te_frame_def)
  note e = lq_enqueue_OkD[OF this q(1)]
  have "untraced (r\<lparr>rq_trace := tr\<rparr>) = r" using r by (simp add: untraced_def)
  then show "te_frame s0 p' \<and> te_log h p' = te_log h p @ [r]"
    using e te_frame_upd[OF good] by (simp add: q(2) te_sent_def te_log_def)
qed

section \<open>Moves from the engine\<close>

definition moved :: "trade_engine \<Rightarrow> trade_engine \<Rightarrow> bool" where
  "moved s s' \<longleftrightarrow> lq_inv (te_requests s') \<and>
     (\<exists>n q om. s' = s\<lparr>te_ticks := n, te_requests := q, te_orders := om\<rparr>)"

lemma moved_same:
  assumes "moved s s'"
  shows "te_responses s' = te_responses s" "te_updates s' = te_updates s" "te_decisions s' = te_decisions s"
    "te_books s' = te_books s" "te_keeper s' = te_keeper s" "te_features s' = te_features s"
    "te_client_id s' = te_client_id s" "te_evaluations s' = te_evaluations s"
    "te_latest_evaluation s' = te_latest_evaluation s" "te_events s' = te_events s"
    "te_limits s' = te_limits s"
  using assms by (auto simp: moved_def)

lemma with_orders_moved:
  assumes sim: "port_sim (te_frame s) (te_log h) (f (te_orders s, s)) (g (te_orders s, te_log h s))"
    and ok: "with_orders f s = Ok s' ()"
  shows "moved s s' \<and> g (te_orders s, te_log h s) = Ok (te_orders s', te_log h s') ()"
proof -
  obtain om p where p: "f (te_orders s, s) = Ok (om, p) ()" "s' = p\<lparr>te_orders := om\<rparr>"
    using ok by (cases "f (te_orders s, s)") (auto simp: with_orders_def)
  with sim have "te_frame s p" "g (te_orders s, te_log h s) = Ok (om, te_log h p) ()" by simp_all
  then show ?thesis
    by (auto simp: p(2) te_frame_def moved_def te_sent_def te_log_def)
qed

lemma te_moveOpenOrder_moved:
  assumes "lq_inv (te_requests s)" "te_moveOpenOrder t px sd q s = Ok s' ()"
  shows "moved s s' \<and> moveOpenOrder (Some list_send) (Some (te_risk s)) t px sd q (te_orders s, te_log h s) =
    Ok (te_orders s', te_log h s') ()"
  by (rule with_orders_moved[where f = "moveOpenOrder (Some sendClientRequest) (Some (te_risk s)) t px sd q"])
    (rule te.sim_open[OF te_frame_refl[OF assms(1)]], use assms(2) in \<open>simp add: te_moveOpenOrder_def\<close>)

lemma te_moveCloseOrder_moved:
  assumes "lq_inv (te_requests s)" "te_moveCloseOrder t px sd q s = Ok s' ()"
  shows "moved s s' \<and> moveCloseOrder (Some list_send) (Some (te_risk s)) t px sd q (te_orders s, te_log h s) =
    Ok (te_orders s', te_log h s') ()"
  by (rule with_orders_moved[where f = "moveCloseOrder (Some sendClientRequest) (Some (te_risk s)) t px sd q"])
    (rule te.sim_close[OF te_frame_refl[OF assms(1)]], use assms(2) in \<open>simp add: te_moveCloseOrder_def\<close>)

section \<open>Decisions\<close>

text \<open>The gate a decision passes: the venue ready, the evaluation the latest of its ticker, the
  features valid, and no block of a single-order venue.\<close>

definition decision_passes :: "jev_decision \<Rightarrow> trade_engine \<Rightarrow> bool" where
  "decision_passes d s \<longleftrightarrow>
     (let t = unat (jd_ticker_id d) in
      (te_single_order s \<longrightarrow> te_venue_ready s) \<and> t < ME_MAX_TICKERS \<and> jd_evaluation_id d \<noteq> 0 \<and>
      jd_evaluation_id d = te_latest_evaluation s t \<and> mf_valid (te_features s t) \<and> \<not> single_order_blocks d s)"

definition decision_quote :: "jev_decision \<Rightarrow> side \<Rightarrow> trade_engine \<Rightarrow> price" where
  "decision_quote d sd s =
     (let b = te_bbo s (unat (jd_ticker_id d)) in if sd = BUY then bbo_ask_price b else bbo_bid_price b)"

lemma handleJevDecision_blocked:
  "\<not> decision_passes d s \<Longrightarrow> handleJevDecision d s = Ok s ()"
  by (auto simp: handleJevDecision_def decision_passes_def Let_def)

text \<open>What is left when it passes.\<close>

inductive decision_move :: "jev_decision \<Rightarrow> trade_engine \<Rightarrow> trade_engine \<Rightarrow> bool" for d s where
  none: "decision_move d s s"
| open_order: "jd_intent d = Intent_OPEN \<Longrightarrow> sd = (if jd_bias d = LONG then BUY else SELL) \<Longrightarrow>
    \<not> opposite_open d sd s \<Longrightarrow> decision_quote d sd s \<noteq> Price_INVALID \<Longrightarrow>
    te_moveOpenOrder (jd_ticker_id d) (decision_quote d sd s) sd (te_order_quantity s) s = Ok s' () \<Longrightarrow>
    decision_move d s s'"
| close_order: "jd_intent d = Intent_CLOSE \<Longrightarrow> p = pi_position (pk_positions (te_keeper s) (unat (jd_ticker_id d))) \<Longrightarrow>
    p \<noteq> 0 \<Longrightarrow> sd = (if p > 0 then SELL else BUY) \<Longrightarrow> decision_quote d sd s \<noteq> Price_INVALID \<Longrightarrow>
    te_moveCloseOrder (jd_ticker_id d) (decision_quote d sd s) sd (te_order_quantity s) s = Ok s' () \<Longrightarrow>
    decision_move d s s'"

lemma handleJevDecision_move:
  assumes p: "decision_passes d s" and ok: "handleJevDecision d s = Ok s' ()"
  shows "\<exists>s1. decision_move d s s1 \<and> s' = note_event (On_decision d) s1"
proof -
  let ?t = "unat (jd_ticker_id d)"
  have gate: "\<not> (te_single_order s \<and> \<not> te_venue_ready s)" "\<not> (?t \<ge> ME_MAX_TICKERS \<or> jd_evaluation_id d = 0 \<or>
      jd_evaluation_id d \<noteq> te_latest_evaluation s ?t)" "mf_valid (te_features s ?t)" "\<not> single_order_blocks d s"
    using p by (auto simp: decision_passes_def Let_def)
  define sd where "sd = (if jd_bias d = LONG then BUY else SELL)"
  define pos where "pos = pi_position (pk_positions (te_keeper s) ?t)"
  define sc where "sc = (if pos > 0 then SELL else BUY)"
  have run: "handleJevDecision d s =
     (if jd_intent d = Intent_OPEN then
        if opposite_open d sd s \<or> decision_quote d sd s = Price_INVALID then Ok (note_event (On_decision d) s) ()
        else then_do (te_moveOpenOrder (jd_ticker_id d) (decision_quote d sd s) sd (te_order_quantity s) s)
               (\<lambda>s _. Ok (note_event (On_decision d) s) ())
      else if jd_intent d = Intent_CLOSE then
        if pos = 0 \<or> decision_quote d sc s = Price_INVALID then Ok (note_event (On_decision d) s) ()
        else then_do (te_moveCloseOrder (jd_ticker_id d) (decision_quote d sc s) sc (te_order_quantity s) s)
               (\<lambda>s _. Ok (note_event (On_decision d) s) ())
      else Ok (note_event (On_decision d) s) ())"
    using gate unfolding handleJevDecision_def decision_quote_def Let_def sd_def pos_def sc_def
    by (simp only: if_False not_not if_True refl if_not_P disj_imp simp_thms) (auto simp: if_bool_eq_conj)
  show ?thesis
    using ok unfolding run
    by (auto simp: then_do_Ok_iff split: if_splits intro: decision_move.none
        decision_move.open_order[OF _ sd_def] decision_move.close_order[OF _ pos_def _ sc_def])
qed

lemma decision_move_moved:
  assumes "decision_move d s s'" "lq_inv (te_requests s)"
  shows "moved s s' \<and> (s' = s \<or> (\<exists>t px sd q.
    moveOpenOrder (Some list_send) (Some (te_risk s)) t px sd q (te_orders s, te_log h s) = Ok (te_orders s', te_log h s') () \<or>
    moveCloseOrder (Some list_send) (Some (te_risk s)) t px sd q (te_orders s, te_log h s) = Ok (te_orders s', te_log h s') ()))"
  using assms(1)
proof cases
  case none
  have "\<exists>n q om. s = s\<lparr>te_ticks := n, te_requests := q, te_orders := om\<rparr>"
    by (intro exI[of _ "te_ticks s"] exI[of _ "te_requests s"] exI[of _ "te_orders s"]) simp
  then show ?thesis using none assms(2) by (auto simp: moved_def)
next
  case (open_order sd)
  from te_moveOpenOrder_moved[OF assms(2) open_order(5), of h] show ?thesis by blast
next
  case (close_order p sd)
  from te_moveCloseOrder_moved[OF assms(2) close_order(6), of h] show ?thesis by blast
qed

lemma om_run_decision:
  assumes "decision_move d s s'" "lq_inv (te_requests s)" "om_run c (te_orders s) (te_log h s)"
  shows "om_run c (te_orders s') (te_log h s')"
  using decision_move_moved[OF assms(1,2), of h] assms(3) om_run.opened[OF assms(3)] om_run.closed[OF assms(3)]
  by blast

lemma note_event_simps [simp]:
  "te_orders (note_event e s) = te_orders s" "te_requests (note_event e s) = te_requests s"
  "te_log h (note_event e s) = te_log h s" "te_sent (note_event e s) = te_sent s"
  "te_responses (note_event e s) = te_responses s" "te_updates (note_event e s) = te_updates s"
  "te_decisions (note_event e s) = te_decisions s" "te_books (note_event e s) = te_books s"
  "te_keeper (note_event e s) = te_keeper s" "te_client_id (note_event e s) = te_client_id s"
  "te_features (note_event e s) = te_features s"
  by (simp_all add: note_event_def te_log_def te_sent_def)

text \<open>C2: A decision changes no order and queues no request unless the venue is ready, its evaluation is
  the latest registered for its ticker, the features are valid and a single-order venue has no working
  order; then it queues at most one request, and a NEW is for its ticker, at the opposite best quote,
  of at most the configured quantity, on the side of the bias when it opens and against the position
  when it closes, and passed the pre-trade check.\<close>

theorem decision_requests_guarded:
  assumes run: "om_run c (te_orders s) (te_log h s)" and q: "lq_inv (te_requests s)"
    and ok: "handleJevDecision d s = Ok s' ()"
  shows "(\<not> decision_passes d s \<longrightarrow> s' = s) \<and>
    (te_log h s' = te_log h s \<or>
     (\<exists>r. te_log h s' = te_log h s @ [r] \<and> permitted (Some (te_risk s)) (te_orders s) (te_orders s') r \<and>
       (rq_type r = Request_NEW \<longrightarrow>
          rq_ticker_id r = jd_ticker_id d \<and> rq_price r = decision_quote d (rq_side r) s \<and>
          rq_qty r \<le> te_order_quantity s \<and>
          (if jd_intent d = Intent_OPEN
           then rq_offset r = OPEN \<and> rq_side r = (if jd_bias d = LONG then BUY else SELL)
           else jd_intent d = Intent_CLOSE \<and> rq_offset r \<in> {CLOSE_TODAY, CLOSE_YESTERDAY} \<and>
             rq_side r = (if pi_position (pk_positions (te_keeper s) (unat (jd_ticker_id d))) > 0
                          then SELL else BUY)))))"
proof (cases "decision_passes d s")
  case False
  then show ?thesis using handleJevDecision_blocked[OF False] ok by simp
next
  case True
  from handleJevDecision_move[OF True ok] obtain s1 where m: "decision_move d s s1" "s' = note_event (On_decision d) s1"
    by blast
  show ?thesis
    using m(1)
  proof cases
    case none
    then show ?thesis using m(2) True by simp
  next
    case (open_order sd)
    note l = te_moveOpenOrder_moved[OF q open_order(5), of h, THEN conjunct2]
    have "te_log h s1 = te_log h s \<or> (\<exists>r. te_log h s1 = te_log h s @ [r] \<and>
        permitted (Some (te_risk s)) (te_orders s) (te_orders s1) r)"
      using move_step_permitted[OF moveOpenOrder_step[OF l] om_run_inv[OF run]] by blast
    then show ?thesis
      using openOrder_new[of "Some (te_risk s)" "jd_ticker_id d" "decision_quote d sd s" sd "te_order_quantity s"
          "te_orders s" "te_log h s" "te_orders s1"] l open_order(1,2) True m(2)
      by (auto simp: new_request_def)
  next
    case (close_order p sd)
    note l = te_moveCloseOrder_moved[OF q close_order(6), of h, THEN conjunct2]
    have k: "rm_keeper (te_risk s) = Some (te_keeper s)" "unat (jd_ticker_id d) < ME_MAX_TICKERS"
      using True by (auto simp: te_risk_def decision_passes_def Let_def)
    have "te_log h s1 = te_log h s \<or> (\<exists>r. te_log h s1 = te_log h s @ [r] \<and>
        permitted (Some (te_risk s)) (te_orders s) (te_orders s1) r)"
      using move_step_permitted[OF moveCloseOrder_step[OF l] om_run_inv[OF run]] by blast
    then show ?thesis
      using closeOrder_new[OF k, of "decision_quote d sd s" sd "te_order_quantity s" "te_orders s" "te_log h s"
          "te_orders s1"] l close_order(1,2,4) True m(2)
      by (fastforce simp: new_request_def)
  qed
qed

section \<open>Rounds\<close>

text \<open>Partial postconditions: what holds if the call returns or throws.\<close>

primrec wpost :: "('s \<Rightarrow> bool) \<Rightarrow> ('s, 'a) outcome \<Rightarrow> bool" where
  "wpost P (Ok s a) = P s"
| "wpost P (Throw s e) = P s"
| "wpost P (Abort m) = True"
| "wpost P Hang = True"
| "wpost P Undef = True"

lemma wpost_then_do: "wpost P m \<Longrightarrow> (\<And>s a. P s \<Longrightarrow> wpost P (f s a)) \<Longrightarrow> wpost P (then_do m f)"
  by (cases m) auto

lemma wpost_then_do': "wpost P m \<Longrightarrow> (\<And>s a. m = Ok s a \<Longrightarrow> wpost P (f s a)) \<Longrightarrow> wpost P (then_do m f)"
  by (cases m) auto

lemma wpost_on_part: "(\<And>p. P (put p)) \<Longrightarrow> wpost P (on_part put m)"
  by (cases m) auto

lemma wpost_query: "P s \<Longrightarrow> (\<And>a. wpost P (f a)) \<Longrightarrow> wpost P (query s m f)"
  by (cases m) auto

lemma wpost_drain:
  assumes "\<And>x s. P s \<Longrightarrow> peek s = Some x \<Longrightarrow> wpost P (body x s)" and "P s"
  shows "wpost P (await (drain peek body b s) id)"
proof (cases "drain peek body b s")
  case (Some m)
  have "(\<forall>s' u. body x s = Ok s' u \<longrightarrow> P s') \<and> (\<forall>s' e. body x s = Throw s' e \<longrightarrow> P s')"
    if "P s" "peek s = Some x" for x s
    using assms(1)[OF that] by auto
  from drain_invariant[of P peek body "\<lambda>s _. P s", OF this assms(2) Some]
  show ?thesis using Some by (cases m) auto
qed simp

text \<open>The state of the engine between calls, with what the gateway has taken so far.\<close>

definition te_safe :: "client_id \<Rightarrow> client_request list \<Rightarrow> trade_engine \<Rightarrow> bool" where
  "te_safe c h s \<longleftrightarrow> om_run c (te_orders s) (te_log h s) \<and> lq_inv (te_requests s) \<and>
     lq_inv (te_responses s) \<and> lq_inv (te_updates s) \<and> lq_inv (te_decisions s) \<and>
     (\<forall>r\<in>set (lq_content (te_responses s)). rs_client_order_id r \<noteq> OrderId_INVALID)"

lemma te_safe_upd [simp]:
  "te_safe c h (s\<lparr>te_keeper := k\<rparr>) = te_safe c h s"
  "te_safe c h (s\<lparr>te_ticks := n\<rparr>) = te_safe c h s"
  "te_safe c h (s\<lparr>te_latest_traces := l\<rparr>) = te_safe c h s"
  "te_safe c h (s\<lparr>te_books := b\<rparr>) = te_safe c h s"
  "te_safe c h (s\<lparr>te_features := f\<rparr>) = te_safe c h s"
  "te_safe c h (s\<lparr>te_latest_evaluation := v\<rparr>) = te_safe c h s"
  "te_safe c h (s\<lparr>te_decision_trace := tr\<rparr>) = te_safe c h s"
  "te_safe c h (s\<lparr>te_evaluations := q\<rparr>) = te_safe c h s"
  "te_safe c h (s\<lparr>te_next_evaluation_id := e\<rparr>) = te_safe c h s"
  "te_safe c h (s\<lparr>te_next_evaluation_at := m\<rparr>) = te_safe c h s"
  "te_safe c h (note_event ev s) = te_safe c h s"
  "te_safe c h (s\<lparr>te_order_quantity := oq\<rparr>) = te_safe c h s"
  "te_safe c h (s\<lparr>te_interval_ns := m\<rparr>) = te_safe c h s"
  "te_safe c h (s\<lparr>te_jev_ticker := jt\<rparr>) = te_safe c h s"
  by (simp_all add: te_safe_def te_log_def te_sent_def)

lemma te_safe_venue [simp]:
  "te_safe c h (updateVenueState ready a m s) = te_safe c h s"
  "te_safe c h (disableVenueTrading s) = te_safe c h s"
  "te_safe c h (enableSimexConstraints s) = te_safe c h s"
  "te_safe c h (enableSingleOrderVenue s) = te_safe c h s"
  "te_safe c h (setAccountState a s) = te_safe c h s"
  "te_safe c h (setMeasurement me s) = te_safe c h s"
  by (simp_all add: te_safe_def te_log_def te_sent_def updateVenueState_def disableVenueTrading_def
      enableSimexConstraints_def enableSingleOrderVenue_def setAccountState_def setMeasurement_def Let_def)

lemma updateReadIndex_OkD:
  assumes "lq_inv q" "updateReadIndex q = Ok q' u"
  shows "lq_inv q' \<and> lq_content q' = tl (lq_content q)"
proof (cases "lq_content q")
  case Nil
  then show ?thesis using lq_dequeue_empty[OF Nil] assms(2) by simp
next
  case (Cons x xs)
  then show ?thesis using lq_dequeue_ok[OF assms(1) Cons] assms(2) by auto
qed

lemma updateReadIndex_not_throw: "updateReadIndex q \<noteq> Throw q' e"
  by (simp add: updateReadIndex_def)

lemma wpost_advance:
  assumes "lq_inv q" "\<And>q'. lq_inv q' \<Longrightarrow> lq_content q' = tl (lq_content q) \<Longrightarrow> P (put q')"
  shows "wpost P (on_part put (updateReadIndex q))"
  using updateReadIndex_OkD[OF assms(1)] assms(2)
  by (cases "updateReadIndex q") (auto simp: updateReadIndex_not_throw)

lemma safe_onOrderUpdate:
  assumes "te_safe c h s" "rs_client_order_id r \<noteq> OrderId_INVALID"
  shows "te_safe c h (s\<lparr>te_orders := onOrderUpdate r (te_orders s)\<rparr>)"
  using assms om_run.response[of c "te_orders s" "te_log h s" r]
  by (simp add: te_safe_def te_log_def te_sent_def)

lemma wpost_on_keeper: "te_safe c h s \<Longrightarrow> wpost (te_safe c h) (on_keeper f s)"
  by (simp add: on_keeper_def wpost_on_part)

lemma safe_handleClientResponse:
  assumes "te_safe c h s" "rs_client_order_id r \<noteq> OrderId_INVALID"
  shows "wpost (te_safe c h) (handleClientResponse r s)"
  using assms unfolding handleClientResponse_def Let_def
  by (auto intro!: wpost_then_do[where P = "te_safe c h"] wpost_on_keeper safe_onOrderUpdate)

text \<open>What the handlers leave alone: the incoming queues and the books.\<close>

lemma on_part_Ok_iff: "on_part put m = Ok s a \<longleftrightarrow> (\<exists>p. m = Ok p a \<and> s = put p)"
  by (cases m) auto

lemma wpostD: "wpost P m \<Longrightarrow> m = Ok s a \<Longrightarrow> P s"
  by simp

definition queues :: "trade_engine \<Rightarrow> client_response lf_queue \<times> market_update lf_queue \<times>
    jev_decision lf_queue \<times> (nat \<Rightarrow> market_order_book)" where
  "queues s = (te_responses s, te_updates s, te_decisions s, te_books s)"

lemma queues_upd [simp]:
  "queues (s\<lparr>te_keeper := k\<rparr>) = queues s" "queues (s\<lparr>te_orders := om\<rparr>) = queues s"
  "queues (s\<lparr>te_ticks := n\<rparr>) = queues s" "queues (s\<lparr>te_latest_traces := l\<rparr>) = queues s"
  "queues (s\<lparr>te_features := f\<rparr>) = queues s"
  "queues (s\<lparr>te_latest_evaluation := v\<rparr>) = queues s" "queues (s\<lparr>te_decision_trace := tr\<rparr>) = queues s"
  "queues (s\<lparr>te_requests := q\<rparr>) = queues s" "queues (note_event e s) = queues s"
  by (simp_all add: queues_def)

lemma queues_on_keeper: "queues s = q \<Longrightarrow> wpost (\<lambda>s'. queues s' = q) (on_keeper f s)"
  by (simp add: on_keeper_def wpost_on_part)

lemma handleClientResponse_queues: "wpost (\<lambda>s'. queues s' = queues s) (handleClientResponse r s)"
  unfolding handleClientResponse_def Let_def
  by (auto intro!: wpost_then_do[where P = "\<lambda>s'. queues s' = queues s"] queues_on_keeper)

lemma handleMarketUpdate_queues: "wpost (\<lambda>s'. queues s' = queues s) (handleMarketUpdate u s)"
  unfolding handleMarketUpdate_def Let_def
  by (auto intro!: wpost_then_do[where P = "\<lambda>s'. queues s' = queues s"] queues_on_keeper)

lemma safe_handleMarketUpdate: "te_safe c h s \<Longrightarrow> wpost (te_safe c h) (handleMarketUpdate u s)"
  unfolding handleMarketUpdate_def Let_def
  by (auto intro!: wpost_then_do[where P = "te_safe c h"] wpost_on_keeper)

lemma safe_pop_response:
  "te_safe c h s \<Longrightarrow> lq_inv q \<Longrightarrow> lq_content q = tl (lq_content (te_responses s)) \<Longrightarrow>
     te_safe c h (s\<lparr>te_responses := q\<rparr>)"
  by (cases "lq_content (te_responses s)") (auto simp: te_safe_def te_log_def te_sent_def)

lemma safe_responses_body:
  assumes s: "te_safe c h s" and r: "lq_peek (te_responses s) = Some r"
  shows "wpost (te_safe c h) (responses_body r s)"
proof -
  have inv: "lq_inv (te_responses s)" using s by (simp add: te_safe_def)
  have "r \<in> set (lq_content (te_responses s))"
    using r lq_peek_content[OF inv] by (auto split: list.splits)
  then have "rs_client_order_id r \<noteq> OrderId_INVALID" using s by (simp add: te_safe_def)
  from safe_handleClientResponse[OF s this] show ?thesis
    unfolding responses_body_def
  proof (rule wpost_then_do)
    fix s' assume s': "te_safe c h s'"
    then show "wpost (te_safe c h) (on_part (\<lambda>q. s'\<lparr>te_responses := q\<rparr>) (updateReadIndex (te_responses s')))"
      by (intro wpost_advance safe_pop_response) (simp_all add: te_safe_def)
  qed
qed

lemma safe_pop_update: "te_safe c h s \<Longrightarrow> lq_inv q \<Longrightarrow> te_safe c h (s\<lparr>te_updates := q\<rparr>)"
  by (simp add: te_safe_def te_log_def te_sent_def)

lemma safe_pop_decision: "te_safe c h s \<Longrightarrow> lq_inv q \<Longrightarrow> te_safe c h (s\<lparr>te_decisions := q\<rparr>)"
  by (simp add: te_safe_def te_log_def te_sent_def)

lemma safe_updates_body:
  assumes s: "te_safe c h s"
  shows "wpost (te_safe c h) (updates_body u s)"
proof -
  have adv: "wpost (te_safe c h) (on_part (\<lambda>q. s'\<lparr>te_updates := q\<rparr>) (updateReadIndex (te_updates s')))"
    if "te_safe c h s'" for s'
    using that by (intro wpost_advance safe_pop_update) (simp_all add: te_safe_def)
  have book: "(\<And>b. te_safe c h (put b)) \<Longrightarrow> wpost (te_safe c h) (on_part put m)"
    for put and m :: "(market_order_book, unit) outcome"
    by (rule wpost_on_part)
  show ?thesis
    using s unfolding updates_body_def Let_def
    by (auto simp: read_clock_def split: option.split
        intro!: wpost_then_do[where P = "te_safe c h"] book safe_handleMarketUpdate adv)
qed

lemma safe_moved:
  assumes "moved s s'" "te_safe c h s" "om_run c (te_orders s') (te_log h s')"
  shows "te_safe c h s'"
  using assms moved_same[OF assms(1)] by (simp add: te_safe_def moved_def)

text \<open>The moves of a known ticker do not throw.\<close>

primrec throws :: "('s, 'a) outcome \<Rightarrow> bool" where
  "throws (Ok s a) = False"
| "throws (Throw s e) = True"
| "throws (Abort m) = False"
| "throws Hang = False"
| "throws Undef = False"

lemma throws_then_do: "throws (then_do m f) \<Longrightarrow> throws m \<or> (\<exists>s a. throws (f s a))"
  by (cases m) auto

lemma throws_query: "throws (query s m f) \<Longrightarrow> throws m \<or> (\<exists>a. throws (f a))"
  by (cases m) auto

lemma throws_simps [simp]:
  "throws (on_part put m) = throws m" "\<not> throws (int32 i (\<lambda>i. Ok s a))"
  by (cases m; simp) (simp add: int32_def)

lemma throws_position_of: "throws (position_of t k f) \<Longrightarrow> \<exists>p. throws (f p)"
  by (cases "unat t < ME_MAX_TICKERS") auto

lemma throws_int32: "throws (int32 i f) \<Longrightarrow> \<exists>i. throws (f i)"
  by (auto simp: int32_def split: if_splits)

lemma checkPreTradeRisk_no_throw [simp]: "\<not> throws (checkPreTradeRisk t sd off q rm)"
  by (auto simp: checkPreTradeRisk_def Let_def split: option.splits if_splits
      dest!: throws_position_of throws_int32)

lemma closeQueries_no_throw [simp]:
  "\<not> throws (resolveCloseOffset t q rm)" "\<not> throws (risk_closeableQty t off rm)"
  by (auto simp: resolveCloseOffset_def risk_closeableQty_def split: option.splits if_splits
      dest!: throws_position_of)

lemma sendClientRequest_no_throw [simp]: "\<not> throws (sendClientRequest r s)"
proof -
  obtain n tr where "sendClientRequest r s = on_part (\<lambda>q. s\<lparr>te_ticks := n, te_requests := q\<rparr>)
     (lq_enqueue (r\<lparr>rq_trace := tr\<rparr>) (te_requests s))"
    using sendClientRequest_enqueue by blast
  then show ?thesis
    by (cases "lq_enqueue (r\<lparr>rq_trace := tr\<rparr>) (te_requests s)") (auto simp: lq_enqueue_not_throw)
qed

lemma moveOrder_no_throw [simp]:
  "\<not> throws (moveOrder (Some sendClientRequest) risk t' i t px sd q off s)"
proof -
  have "\<not> throws (newOrder (Some sendClientRequest) risk t' i t px sd q off s)"
    by (auto simp: newOrder_def Let_def split: option.splits prod.splits if_splits
        dest!: throws_query throws_then_do)
  moreover have "\<not> throws (om_cancelOrder (Some sendClientRequest) t' i s)"
    by (auto simp: om_cancelOrder_def Let_def split: option.splits prod.splits if_splits
        dest!: throws_query throws_then_do)
  ultimately show ?thesis
    by (auto simp: moveOrder_def Let_def split: om_order_state.splits)
qed

lemma te_moves_no_throw:
  "unat t < ME_MAX_TICKERS \<Longrightarrow> \<not> throws (te_moveOpenOrder t px sd q s)"
  "unat t < ME_MAX_TICKERS \<Longrightarrow> \<not> throws (te_moveCloseOrder t px sd q s)"
  by (auto simp: te_moveOpenOrder_def te_moveCloseOrder_def with_orders_def moveOpenOrder_def moveCloseOrder_def
      at_order_def Let_def split: if_splits dest!: throws_query)

lemma handleJevDecision_no_throw: "\<not> throws (handleJevDecision d s)"
  using te_moves_no_throw
  by (auto simp: handleJevDecision_def Let_def split: if_splits dest!: throws_then_do)

lemma handleJevDecision_safe:
  assumes s: "te_safe c h s"
  shows "wpost (\<lambda>s'. te_safe c h s' \<and> queues s' = queues s) (handleJevDecision d s)"
proof (cases "handleJevDecision d s")
  case (Ok s' u)
  show ?thesis
  proof (cases "decision_passes d s")
    case True
    from handleJevDecision_move[OF True] Ok obtain s1 where
      m: "decision_move d s s1" "s' = note_event (On_decision d) s1" by auto
    have q: "lq_inv (te_requests s)" "om_run c (te_orders s) (te_log h s)" using s by (simp_all add: te_safe_def)
    have "moved s s1" using decision_move_moved[OF m(1) q(1)] by blast
    then show ?thesis
      using safe_moved[OF _ s om_run_decision[OF m(1) q]] moved_same[of s s1] by (simp add: Ok m(2) queues_def)
  next
    case False
    then show ?thesis using handleJevDecision_blocked[OF False] s by simp
  qed
next
  case (Throw s' e)
  then show ?thesis using handleJevDecision_no_throw[of d s] by simp
qed simp_all

lemma safe_decisions_body:
  assumes s: "te_safe c h s"
  shows "wpost (te_safe c h) (decisions_body d s)"
proof -
  have "wpost (te_safe c h) (handleJevDecision d (s\<lparr>te_decision_trace := jd_trace d\<rparr>))"
    using handleJevDecision_safe[of c h "s\<lparr>te_decision_trace := jd_trace d\<rparr>" d] s
    by (cases "handleJevDecision d (s\<lparr>te_decision_trace := jd_trace d\<rparr>)") auto
  then show ?thesis
    unfolding decisions_body_def Let_def
  proof (rule wpost_then_do)
    fix s' assume "te_safe c h s'"
    then have s': "te_safe c h (s'\<lparr>te_decision_trace := trace_init\<rparr>)" by simp
    then show "wpost (te_safe c h) (on_part (\<lambda>q. s'\<lparr>te_decision_trace := trace_init, te_decisions := q\<rparr>)
        (updateReadIndex (te_decisions (s'\<lparr>te_decision_trace := trace_init\<rparr>))))"
      by (intro wpost_advance) (auto simp: te_safe_def te_log_def te_sent_def)
  qed
qed

lemma safe_build: "te_safe c h s \<Longrightarrow> wpost (te_safe c h) (buildJevEvaluationState t e s)"
  unfolding buildJevEvaluationState_def Let_def
  by (auto simp: read_clock_def split: prod.splits option.splits intro!: wpost_query)

lemma safe_schedule: "te_safe c h s \<Longrightarrow> wpost (te_safe c h) (scheduleJevEvaluation s)"
  unfolding scheduleJevEvaluation_def Let_def read_clock_def registerEvaluation_def deref_def prod.case
  by (auto split: option.splits intro!: wpost_then_do[where P = "te_safe c h"] safe_build wpost_on_part)

lemma safe_processPending: "te_safe c h s \<Longrightarrow> wpost (te_safe c h) (processPending s)"
  unfolding processPending_def processClientResponses_def processMarketUpdates_def processJevDecisions_def
  by (intro wpost_then_do[where P = "te_safe c h"] wpost_drain)
    (auto intro: safe_responses_body safe_updates_body safe_decisions_body safe_schedule)

section \<open>The life of an engine\<close>

text \<open>
  What can happen to an engine between its construction and its end: the calls that configure it (the main
  program attaches the queue of evaluations and sets the quantity of a decision before it starts the
  engine), the venue side puts responses and updates into its queues, the worker takes evaluations and
  puts decisions, the gateway takes requests, the mailbox changes it, and it processes what is pending. A
  response names an order.
\<close>

inductive engine_run :: "client_id \<Rightarrow> client_request list \<Rightarrow> trade_engine \<Rightarrow> bool" for c where
  created: "trade_engine_new c lims (Some rq) (Some rs) (Some mu) (Some jd) clock = Inr s \<Longrightarrow>
    lq_inv rq \<Longrightarrow> lq_inv rs \<Longrightarrow> lq_inv mu \<Longrightarrow> lq_inv jd \<Longrightarrow> lq_content rq = [] \<Longrightarrow> lq_content rs = [] \<Longrightarrow>
    engine_run c [] s"
| venue_response: "engine_run c h s \<Longrightarrow> rs_client_order_id r \<noteq> OrderId_INVALID \<Longrightarrow>
    lq_enqueue r (te_responses s) = Ok q () \<Longrightarrow> engine_run c h (s\<lparr>te_responses := q\<rparr>)"
| venue_update: "engine_run c h s \<Longrightarrow> lq_enqueue u (te_updates s) = Ok q () \<Longrightarrow>
    engine_run c h (s\<lparr>te_updates := q\<rparr>)"
| worker_decision: "engine_run c h s \<Longrightarrow> lq_enqueue d (te_decisions s) = Ok q () \<Longrightarrow>
    engine_run c h (s\<lparr>te_decisions := q\<rparr>)"
| attached: "engine_run c h s \<Longrightarrow> lq_inv q \<Longrightarrow> attachJevEvaluationQueue (Some q) interval t s = Ok s' () \<Longrightarrow>
    engine_run c h s'"
| quantity: "engine_run c h s \<Longrightarrow> setDecisionOrderQuantity n s = Ok s' () \<Longrightarrow> engine_run c h s'"
| worker_takes: "engine_run c h s \<Longrightarrow> te_evaluations s = Some q \<Longrightarrow> updateReadIndex q = Ok q' () \<Longrightarrow>
    engine_run c h (s\<lparr>te_evaluations := Some q'\<rparr>)"
| gateway_takes: "engine_run c h s \<Longrightarrow> lq_peek (te_requests s) = Some r \<Longrightarrow>
    updateReadIndex (te_requests s) = Ok q () \<Longrightarrow> engine_run c (h @ [untraced r]) (s\<lparr>te_requests := q\<rparr>)"
| venue_state: "engine_run c h s \<Longrightarrow> engine_run c h (updateVenueState ready account multiplier s)"
| venue_off: "engine_run c h s \<Longrightarrow> engine_run c h (disableVenueTrading s)"
| simex: "engine_run c h s \<Longrightarrow> engine_run c h (enableSimexConstraints s)"
| single_order: "engine_run c h s \<Longrightarrow> engine_run c h (enableSingleOrderVenue s)"
| account: "engine_run c h s \<Longrightarrow> engine_run c h (setAccountState a s)"
| measured: "engine_run c h s \<Longrightarrow> engine_run c h (setMeasurement m s)"
| registered: "engine_run c h s \<Longrightarrow> registerEvaluation t e s = Ok s' () \<Longrightarrow> engine_run c h s'"
| processed: "engine_run c h s \<Longrightarrow> processPending s = Ok s' b \<Longrightarrow> engine_run c h s'"

lemma trade_engine_new_fields:
  assumes "trade_engine_new c lims (Some rq) (Some rs) (Some mu) (Some jd) clock = Inr s"
  shows "te_orders s = order_manager_new c" "te_requests s = rq" "te_responses s = rs" "te_updates s = mu"
    "te_decisions s = jd" "te_books s = (\<lambda>t. projr (market_order_book_new (of_nat t)))"
    "te_features s = (\<lambda>_. market_features_init)" "te_evaluations s = None" "te_single_order s = False"
    "te_jev_ticker s = 0"
  using assms
  by (simp_all only: trade_engine_new_def prod.case option.case sum.inject)
    (drule sym, simp only: trade_engine.select_convs)+

lemma engine_run_safe: "engine_run c h s \<Longrightarrow> te_safe c h s"
proof (induction rule: engine_run.induct)
  case (created lims rq rs mu jd clock s)
  show ?case
    using om_run.start[of c] created(2-7) trade_engine_new_fields[OF created(1)]
    by (simp add: te_safe_def te_log_def te_sent_def)
next
  case (venue_response h s r q)
  then show ?case
    using lq_enqueue_OkD[of "te_responses s" r q] by (auto simp: te_safe_def te_log_def te_sent_def)
next
  case (venue_update h s u q)
  then show ?case
    using lq_enqueue_OkD[of "te_updates s" u q] by (simp add: te_safe_def te_log_def te_sent_def)
next
  case (worker_decision h s d q)
  then show ?case
    using lq_enqueue_OkD[of "te_decisions s" d q] by (simp add: te_safe_def te_log_def te_sent_def)
next
  case (gateway_takes h s r q)
  have i: "lq_inv (te_requests s)" using gateway_takes.IH by (simp add: te_safe_def)
  then have "lq_content (te_requests s) = r # lq_content q" "lq_inv q"
    using updateReadIndex_OkD[OF i gateway_takes(3)] gateway_takes(2) lq_peek_content[OF i]
    by (auto split: list.splits)
  then show ?case using gateway_takes.IH by (simp add: te_safe_def te_log_def te_sent_def)
next
  case (attached h s q interval t s')
  then show ?case by (auto simp: attachJevEvaluationQueue_def read_clock_def split: if_splits)
next
  case (quantity h s n s')
  then show ?case by (auto simp: setDecisionOrderQuantity_def split: if_splits)
next
  case (registered h s t e s')
  then show ?case by (auto simp: registerEvaluation_def split: if_splits)
next
  case (processed h s s' b)
  then show ?case using safe_processPending[of c h s] by simp
qed simp_all

section \<open>A run with a request\<close>

definition sample_queue :: "'a \<Rightarrow> 'a lf_queue" where
  "sample_queue x = projr (lf_queue_new x 4)"

definition sample_engine :: trade_engine where
  "sample_engine = projr (trade_engine_new 7 (rm_limits sample_risk)
     (Some (sample_queue client_request_init)) (Some (sample_queue client_response_init))
     (Some (sample_queue market_update_init)) (Some (sample_queue jev_decision_init)) (\<lambda>_. 0))"

lemma sample_queue_ok: "lq_inv (sample_queue x)" "lq_content (sample_queue x) = []"
  by (simp_all add: sample_queue_def lf_queue_new_def lq_inv_def lq_content_def)

lemma sample_engine_run: "engine_run 7 [] sample_engine"
proof (rule engine_run.created[OF _ sample_queue_ok(1) sample_queue_ok(1) sample_queue_ok(1) sample_queue_ok(1)
      sample_queue_ok(2) sample_queue_ok(2)])
  show "trade_engine_new 7 (rm_limits sample_risk)
     (Some (sample_queue client_request_init)) (Some (sample_queue client_response_init))
     (Some (sample_queue market_update_init)) (Some (sample_queue jev_decision_init)) (\<lambda>_. 0) = Inr sample_engine"
    by (simp add: sample_engine_def trade_engine_new_def)
qed

definition sample_decision :: jev_decision where
  "sample_decision = jev_decision_init\<lparr>jd_evaluation_id := 1, jd_ticker_id := 0, jd_bias := LONG,
     jd_intent := Intent_OPEN\<rparr>"

definition sample_bbo :: bbo where
  "sample_bbo = \<lparr>bbo_bid_price = 100, bbo_ask_price = 101, bbo_bid_qty = 5, bbo_ask_qty = 6\<rparr>"

text \<open>The engine once the book of ticker 0 shows a quote and an evaluation has been registered.\<close>

definition quoted_engine :: trade_engine where
  "quoted_engine = sample_engine\<lparr>te_books := (\<lambda>t. (te_books sample_engine t)\<lparr>mob_bbo := sample_bbo\<rparr>),
     te_features := (\<lambda>_. market_features_init\<lparr>mf_valid := True\<rparr>), te_latest_evaluation := (\<lambda>_. 1)\<rparr>"

lemma sample_engine_fields:
  "te_orders sample_engine = order_manager_new 7" "te_requests sample_engine = sample_queue client_request_init"
  "te_keeper sample_engine = position_keeper_new" "te_limits sample_engine = rm_limits sample_risk"
  "te_measurement sample_engine = None" "te_single_order sample_engine = False" "te_simex sample_engine = False"
  "te_order_quantity sample_engine = 1" "te_evaluations sample_engine = None"
  "te_responses sample_engine = sample_queue client_response_init"
  "te_updates sample_engine = sample_queue market_update_init"
  "te_decisions sample_engine = sample_queue jev_decision_init"
  "te_books sample_engine = (\<lambda>t. projr (market_order_book_new (of_nat t)))"
  "te_next_evaluation_id sample_engine = 1" "te_interval_ns sample_engine = 2000000000"
  by (simp_all add: sample_engine_def trade_engine_new_def)

lemma quoted_decision:
  "\<exists>s'. handleJevDecision sample_decision quoted_engine = Ok s' () \<and> length (te_log [] s') = 1"
proof -
  have risk: "checkPreTradeRisk 0 BUY OPEN 1 (te_risk quoted_engine) = Ok () ALLOWED"
    by (simp add: te_risk_def quoted_engine_def sample_engine_fields checkPreTradeRisk_def sample_risk_def
        position_keeper_new_def position_info_init_def Let_def Qty_INVALID_def ME_MAX_TICKERS_def zero_f64_def)
  let ?r = "new_request (order_manager_new 7) 0 101 BUY 1 OPEN"
  let ?q = "sample_queue client_request_init"
  have q: "lq_inv ?q" "lq_num_elements ?q < lq_capacity ?q"
    by (simp_all add: sample_queue_ok) (simp add: sample_queue_def lf_queue_new_def)
  obtain q' where q': "lq_enqueue ?r ?q = Ok q' ()" "lq_content q' = [?r]"
    using lq_enqueue_ok[OF q, of ?r] sample_queue_ok(2)[of client_request_init] by auto
  have "rq_trace ?r = trace_init" by (simp add: new_request_def client_request_init_def)
  then have "?r\<lparr>rq_trace := trace_init\<rparr> = ?r" by (metis client_request.surjective client_request.update_convs(2))
  then have send: "sendClientRequest ?r quoted_engine = Ok (quoted_engine\<lparr>te_requests := q'\<rparr>) ()"
    using q'(1) by (simp add: sendClientRequest_def request_trace_def quoted_engine_def sample_engine_fields
        lq_enqueue_def split: option.splits)
  have "moveOpenOrder (Some sendClientRequest) (Some (te_risk quoted_engine)) 0 101 BUY 1
      (te_orders quoted_engine, quoted_engine) =
      Ok (placed 0 101 BUY 1 OPEN (order_manager_new 7), quoted_engine\<lparr>te_requests := q'\<rparr>) ()"
    using risk send
    by (simp add: moveOpenOrder_def at_order_def moveOrder_def newOrder_def ME_MAX_TICKERS_def Let_def
        quoted_engine_def sample_engine_fields order_manager_new_def om_order_init_def Price_INVALID_def
        placed_def new_request_def client_request_init_def)
  then have "te_moveOpenOrder 0 101 BUY 1 quoted_engine = Ok (quoted_engine\<lparr>te_requests := q',
      te_orders := placed 0 101 BUY 1 OPEN (order_manager_new 7)\<rparr>) ()"
    by (simp add: te_moveOpenOrder_def with_orders_def)
  then have "handleJevDecision sample_decision quoted_engine = Ok (note_event (On_decision sample_decision)
      (quoted_engine\<lparr>te_requests := q', te_orders := placed 0 101 BUY 1 OPEN (order_manager_new 7)\<rparr>)) ()"
    by (simp add: handleJevDecision_def sample_decision_def quoted_engine_def sample_engine_fields Let_def
        ME_MAX_TICKERS_def single_order_blocks_def opposite_open_def te_bbo_def sample_bbo_def Price_INVALID_def)
  then show ?thesis by (simp add: te_log_def te_sent_def q'(2) del: length_lq_content)
qed

lemma decision_requests_guarded_witness:
  "\<exists>s' r. handleJevDecision sample_decision quoted_engine = Ok s' () \<and> te_log [] s' = [r] \<and>
     permitted (Some (te_risk quoted_engine)) (te_orders quoted_engine) (te_orders s') r"
proof -
  have "om_run 7 (te_orders quoted_engine) (te_log [] quoted_engine)"
    using om_run.start[of 7] by (simp add: quoted_engine_def sample_engine_fields te_log_def te_sent_def sample_queue_ok)
  moreover have "lq_inv (te_requests quoted_engine)"
    by (simp add: quoted_engine_def sample_engine_fields sample_queue_ok)
  moreover obtain s' where s': "handleJevDecision sample_decision quoted_engine = Ok s' ()" "length (te_log [] s') = 1"
    using quoted_decision by blast
  moreover have "te_log [] quoted_engine = []"
    by (simp add: quoted_engine_def sample_engine_fields te_log_def te_sent_def sample_queue_ok)
  ultimately show ?thesis using decision_requests_guarded[of 7 quoted_engine "[]" sample_decision s'] by auto
qed

end
