(* ===== verification/EngineRounds.thy ===== *)
theory EngineRounds
  imports EngineOrders
begin

text \<open>
  What a round of the engine keeps and does: it ends, its books stay well formed and the features those of
  the books, and the last step schedules an evaluation or says why not; a book without a quote withdraws the
  registered evaluation; with the simex constraints a fill and the position agree or the engine throws.
\<close>

section \<open>A round ends\<close>

text \<open>No step of a round waits: only the unbounded probe loops of the books could.\<close>

primrec hangs :: "('s, 'a) outcome \<Rightarrow> bool" where
  "hangs (Ok s a) = False"
| "hangs (Throw s e) = False"
| "hangs (Abort m) = False"
| "hangs Hang = True"
| "hangs Undef = False"

lemma hangs_iff: "hangs m \<longleftrightarrow> m = Hang"
  by (cases m) auto

lemma hangs_then_do: "hangs (then_do m f) \<Longrightarrow> hangs m \<or> (\<exists>s a. m = Ok s a \<and> hangs (f s a))"
  by (cases m) auto

lemma hangs_query: "hangs (query s m f) \<Longrightarrow> hangs m \<or> (\<exists>a. hangs (f a))"
  by (cases m) auto

lemma hangs_on_part [simp]: "hangs (on_part put m) = hangs m"
  by (cases m) auto

lemma hangs_int32: "hangs (int32 i f) \<Longrightarrow> \<exists>i. hangs (f i)"
  by (auto simp: int32_def split: if_splits)

lemma hangs_position_of: "hangs (position_of t k f) \<Longrightarrow> \<exists>p. hangs (f p)"
  by (cases "unat t < ME_MAX_TICKERS") auto

lemma checkPreTradeRisk_no_hang [simp]: "\<not> hangs (checkPreTradeRisk t sd off q rm)"
  by (auto simp: checkPreTradeRisk_def Let_def split: option.splits if_splits
      dest!: hangs_position_of hangs_int32)

lemma closeQueries_no_hang [simp]:
  "\<not> hangs (resolveCloseOffset t q rm)" "\<not> hangs (risk_closeableQty t off rm)"
  by (auto simp: resolveCloseOffset_def risk_closeableQty_def split: option.splits if_splits
      dest!: hangs_position_of)

lemma queue_ops_no_hang [simp]:
  "\<not> hangs (updateWriteIndex q)" "\<not> hangs (updateReadIndex q)"
  by (simp_all add: updateWriteIndex_def updateReadIndex_def)

lemma sendClientRequest_no_hang [simp]: "\<not> hangs (sendClientRequest r s)"
  by (auto simp: sendClientRequest_def Let_def split: option.split prod.split)

lemma moveOrder_no_hang [simp]:
  "\<not> hangs (moveOrder (Some sendClientRequest) risk t' i t px sd q off s)"
proof -
  have "\<not> hangs (newOrder (Some sendClientRequest) risk t' i t px sd q off s)"
    by (auto simp: newOrder_def Let_def split: option.splits prod.splits if_splits
        dest!: hangs_query hangs_then_do)
  moreover have "\<not> hangs (om_cancelOrder (Some sendClientRequest) t' i s)"
    by (auto simp: om_cancelOrder_def Let_def split: option.splits prod.splits if_splits
        dest!: hangs_query hangs_then_do)
  ultimately show ?thesis
    by (auto simp: moveOrder_def Let_def split: om_order_state.splits)
qed

lemma te_moves_no_hang [simp]:
  "\<not> hangs (te_moveOpenOrder t px sd q s)" "\<not> hangs (te_moveCloseOrder t px sd q s)"
  by (auto simp: te_moveOpenOrder_def te_moveCloseOrder_def with_orders_def moveOpenOrder_def moveCloseOrder_def
      at_order_def Let_def split: if_splits dest!: hangs_query)

lemma handleJevDecision_no_hang [simp]: "\<not> hangs (handleJevDecision d s)"
  by (auto simp: handleJevDecision_def Let_def split: if_splits dest!: hangs_then_do)

lemma recalculate_no_hang [simp]: "\<not> hangs (refresh_pnl mem p)"
  by (auto simp: refresh_pnl_def recalculateUnrealizedPnl_def Let_def split: option.splits if_splits
      dest!: hangs_then_do hangs_int32)

lemma keeper_no_hang [simp]:
  "\<not> hangs (keeper_onClientResponse mem r k)" "\<not> hangs (keeper_updateBBO mem t ref k)"
  by (auto simp: keeper_onClientResponse_def keeper_updateBBO_def at_position_def onFill_def position_updateBBO_def
      split: if_splits prod.splits dest!: hangs_int32)

lemma handlers_no_hang [simp]:
  "\<not> hangs (handleClientResponse r s)" "\<not> hangs (handleMarketUpdate u s)"
  by (auto simp: handleClientResponse_def handleMarketUpdate_def on_keeper_def Let_def
      split: if_splits dest!: hangs_then_do)

lemma bodies_no_hang [simp]: "\<not> hangs (responses_body r s)" "\<not> hangs (decisions_body d s)"
  by (auto simp: responses_body_def decisions_body_def Let_def dest!: hangs_then_do)

lemma build_no_hang [simp]: "\<not> hangs (buildJevEvaluationState t e s)"
  by (auto simp: buildJevEvaluationState_def averageEntryPrice_def Let_def split: if_splits prod.splits option.splits
      dest!: hangs_query hangs_int32)

lemma schedule_no_hang [simp]: "\<not> hangs (scheduleJevEvaluation s)"
  by (auto simp: scheduleJevEvaluation_def registerEvaluation_def deref_def Let_def
      split: if_splits prod.splits option.splits dest!: hangs_then_do)

text \<open>The books of the tickers are related to abstract books, so their updates end.\<close>

definition books_ok :: "trade_engine \<Rightarrow> bool" where
  "books_ok s \<longleftrightarrow> (\<forall>t<ME_MAX_TICKERS. \<exists>a. book_rel (te_books s t) a)"

lemma ab_update_no_hang: "\<not> hangs (ab_on_update u a)"
  by (auto simp: ab_on_update_def ab_require_incremental_def ab_add_order_def ab_modify_order_def Let_def
      split: market_update_type.splits if_splits option.splits prod.splits dest!: hangs_then_do)

lemma book_update_ends:
  assumes "book_rel b a"
  shows "\<not> hangs (book_onMarketUpdate u b)"
    "book_onMarketUpdate u b = Ok b' x \<Longrightarrow> \<exists>a'. book_rel b' a'"
proof -
  note sim = book_update_sim[OF assms, of u]
  show "\<not> hangs (book_onMarketUpdate u b)"
    using sim ab_update_no_hang[of u a]
    by (cases "book_onMarketUpdate u b"; cases "ab_on_update u a") (auto simp: outcome_rel_def)
  show "book_onMarketUpdate u b = Ok b' x \<Longrightarrow> \<exists>a'. book_rel b' a'"
    using sim by (cases "ab_on_update u a") (auto simp: outcome_rel_def)
qed

text \<open>
  Between the rounds the features of a ticker are those of the top of its book, and the queue of
  evaluations, once it is attached, is one. The plan is what the scheduling of the next evaluation starts from.
\<close>

definition features_current :: "trade_engine \<Rightarrow> bool" where
  "features_current s \<longleftrightarrow> (\<forall>t<ME_MAX_TICKERS. te_features s t = feature_onMarketUpdate (te_bbo s t))"

definition engine_ok :: "trade_engine \<Rightarrow> bool" where
  "engine_ok s \<longleftrightarrow> books_ok s \<and> features_current s \<and> (\<forall>q. te_evaluations s = Some q \<longrightarrow> lq_inv q) \<and>
     unat (te_jev_ticker s) < ME_MAX_TICKERS"

definition plan :: "trade_engine \<Rightarrow> jev_evaluation_state lf_queue option \<times> 64 word \<times> ticker_id \<times> nat" where
  "plan s = (te_evaluations s, te_next_evaluation_id s, te_jev_ticker s, te_next_evaluation_at s)"

lemma plan_upd [simp]:
  "plan (s\<lparr>te_keeper := k\<rparr>) = plan s" "plan (s\<lparr>te_orders := om\<rparr>) = plan s" "plan (s\<lparr>te_ticks := n\<rparr>) = plan s"
  "plan (s\<lparr>te_latest_traces := l\<rparr>) = plan s" "plan (s\<lparr>te_features := f\<rparr>) = plan s"
  "plan (s\<lparr>te_latest_evaluation := v\<rparr>) = plan s" "plan (s\<lparr>te_decision_trace := tr\<rparr>) = plan s"
  "plan (s\<lparr>te_requests := q\<rparr>) = plan s" "plan (s\<lparr>te_responses := rs\<rparr>) = plan s"
  "plan (s\<lparr>te_updates := us\<rparr>) = plan s" "plan (s\<lparr>te_decisions := ds\<rparr>) = plan s"
  "plan (s\<lparr>te_books := b\<rparr>) = plan s" "plan (note_event e s) = plan s"
  by (simp_all add: plan_def note_event_def)

lemma engine_ok_same:
  "te_books s' = te_books s \<Longrightarrow> te_features s' = te_features s \<Longrightarrow> plan s' = plan s \<Longrightarrow>
     engine_ok s' = engine_ok s"
  by (simp add: engine_ok_def books_ok_def features_current_def te_bbo_def plan_def)

lemma plan_on_keeper:
  "plan s = v \<and> te_features s = f \<Longrightarrow> wpost (\<lambda>s'. plan s' = v \<and> te_features s' = f) (on_keeper g s)"
  by (simp add: on_keeper_def wpost_on_part)

lemma handleClientResponse_plan:
  "wpost (\<lambda>s'. plan s' = plan s \<and> te_features s' = te_features s) (handleClientResponse r s)"
  unfolding handleClientResponse_def Let_def
  by (auto intro!: plan_on_keeper wpost_then_do[where P = "\<lambda>s'. plan s' = plan s \<and> te_features s' = te_features s"])

lemma handleMarketUpdate_Ok:
  assumes "handleMarketUpdate u s = Ok s' ()"
  shows "plan s' = plan s \<and> te_books s' = te_books s \<and> te_features s' =
    (te_features s)(unat (mu_ticker_id u) := feature_onMarketUpdate (te_bbo s (unat (mu_ticker_id u))))"
  using assms
  by (auto simp: handleMarketUpdate_def Let_def then_do_Ok_iff on_keeper_def on_part_Ok_iff te_bbo_def
      note_event_def plan_def)

lemma handleJevDecision_plan:
  assumes "lq_inv (te_requests s)" "handleJevDecision d s = Ok s' ()"
  shows "plan s' = plan s \<and> te_features s' = te_features s"
proof (cases "decision_passes d s")
  case True
  from handleJevDecision_move[OF True assms(2)] obtain s1 where m: "decision_move d s s1"
    "s' = note_event (On_decision d) s1" by blast
  have "moved s s1" using decision_move_moved[OF m(1) assms(1)] by blast
  then show ?thesis by (auto simp: m(2) moved_def)
next
  case False
  then show ?thesis using handleJevDecision_blocked[OF False] assms(2) by simp
qed

section \<open>What the rounds leave\<close>

lemma responses_body_Ok:
  assumes s: "te_safe c h s" "engine_ok s" and x: "lq_content (te_responses s) = r # rs"
    and ok: "responses_body r s = Ok s' u"
  shows "te_safe c h s' \<and> engine_ok s' \<and> plan s' = plan s \<and> lq_content (te_responses s') = rs"
proof -
  obtain s1 q where 1: "handleClientResponse r s = Ok s1 ()" "updateReadIndex (te_responses s1) = Ok q u"
    "s' = s1\<lparr>te_responses := q\<rparr>"
    using ok by (auto simp: responses_body_def then_do_Ok_iff on_part_Ok_iff)
  have e: "queues s1 = queues s" using handleClientResponse_queues[of s r] 1(1) by simp
  have p: "plan s1 = plan s" "te_features s1 = te_features s" using handleClientResponse_plan[of s r] 1(1) by simp_all
  have "lq_peek (te_responses s) = Some r"
    using s(1) x lq_peek_content[of "te_responses s"] by (simp add: te_safe_def)
  from safe_responses_body[OF s(1) this] ok have "te_safe c h s'" by simp
  moreover have "lq_content q = rs"
    using updateReadIndex_OkD[OF _ 1(2)] e x s(1) by (simp add: queues_def te_safe_def)
  moreover have "engine_ok s' = engine_ok s"
    using 1(3) e p by (intro engine_ok_same) (simp_all add: queues_def)
  ultimately show ?thesis using 1(3) s(2) p(1) by simp
qed

lemma decisions_body_Ok:
  assumes s: "te_safe c h s" "engine_ok s" and x: "lq_content (te_decisions s) = d # ds"
    and ok: "decisions_body d s = Ok s' u"
  shows "te_safe c h s' \<and> engine_ok s' \<and> plan s' = plan s \<and> lq_content (te_decisions s') = ds \<and>
    te_responses s' = te_responses s \<and> te_updates s' = te_updates s"
proof -
  let ?s = "s\<lparr>te_decision_trace := jd_trace d\<rparr>"
  obtain s1 q where 1: "handleJevDecision d ?s = Ok s1 ()"
    "updateReadIndex (te_decisions s1) = Ok q u" "s' = s1\<lparr>te_decision_trace := trace_init, te_decisions := q\<rparr>"
    using ok by (auto simp: decisions_body_def then_do_Ok_iff on_part_Ok_iff Let_def)
  have e: "queues s1 = queues s" using handleJevDecision_safe[of c h ?s d] s(1) 1(1) by simp
  have p: "plan s1 = plan s" "te_features s1 = te_features s"
    using handleJevDecision_plan[OF _ 1(1)] s(1) by (simp_all add: te_safe_def)
  have "te_safe c h s'" using safe_decisions_body[OF s(1), of d] ok by simp
  moreover have "lq_content q = ds"
    using updateReadIndex_OkD[OF _ 1(2)] e x s(1) by (simp add: queues_def te_safe_def)
  moreover have "engine_ok s' = engine_ok s"
    using 1(3) e p by (intro engine_ok_same) (simp_all add: queues_def)
  ultimately show ?thesis using 1(3) e s(2) p(1) by (simp add: queues_def)
qed

lemma updates_body_form:
  "\<exists>s0. queues s0 = queues s \<and> plan s0 = plan s \<and> te_features s0 = te_features s \<and> updates_body u s =
     (let t = unat (mu_ticker_id u) in
      if t \<ge> ME_MAX_TICKERS then Abort ''terminate''
      else then_do (on_part (\<lambda>b. s0\<lparr>te_books := (te_books s0)(t := b)\<rparr>) (book_onMarketUpdate u (te_books s0 t)))
        (\<lambda>s _. then_do (handleMarketUpdate u s) (\<lambda>s _.
          on_part (\<lambda>q. s\<lparr>te_updates := q\<rparr>) (updateReadIndex (te_updates s)))))"
proof -
  define sr where "sr = (case te_measurement s of None \<Rightarrow> (s, 0) | Some _ \<Rightarrow> read_clock s)"
  have q: "queues (fst sr) = queues s" "plan (fst sr) = plan s" "te_features (fst sr) = te_features s"
    by (simp_all add: sr_def read_clock_def split: option.split)
  obtain s1 n where sr: "sr = (s1, n)" by fastforce
  show ?thesis
    unfolding updates_body_def sr_def[symmetric] sr prod.case
    by (rule exI[of _ "s1\<lparr>te_latest_traces := (te_latest_traces s1)(unat (mu_ticker_id u) :=
        (let tr = mu_trace u in if pt_source_id tr \<noteq> 0 then tr\<lparr>pt_t := (pt_t tr)(3 := of_nat n)\<rparr> else tr))\<rparr>"])
      (use q sr in \<open>simp add: Let_def\<close>)
qed

lemma updates_body_Ok:
  assumes s: "te_safe c h s" "engine_ok s" and x: "lq_content (te_updates s) = m # ms"
    and ok: "updates_body m s = Ok s' u"
  shows "te_safe c h s' \<and> engine_ok s' \<and> plan s' = plan s \<and> lq_content (te_updates s') = ms \<and>
    te_responses s' = te_responses s"
proof -
  let ?t = "unat (mu_ticker_id m)"
  obtain s0 b s1 q where t: "?t < ME_MAX_TICKERS"
    and 0: "queues s0 = queues s" "plan s0 = plan s" "te_features s0 = te_features s"
    and b: "book_onMarketUpdate m (te_books s0 ?t) = Ok b ()"
    and 1: "handleMarketUpdate m (s0\<lparr>te_books := (te_books s0)(?t := b)\<rparr>) = Ok s1 ()"
    "updateReadIndex (te_updates s1) = Ok q u" "s' = s1\<lparr>te_updates := q\<rparr>"
  proof -
    obtain s0 where s0: "queues s0 = queues s" "plan s0 = plan s" "te_features s0 = te_features s"
      "updates_body m s = (if ?t \<ge> ME_MAX_TICKERS then Abort ''terminate''
        else then_do (on_part (\<lambda>b. s0\<lparr>te_books := (te_books s0)(?t := b)\<rparr>) (book_onMarketUpdate m (te_books s0 ?t)))
        (\<lambda>s _. then_do (handleMarketUpdate m s) (\<lambda>s _.
          on_part (\<lambda>q. s\<lparr>te_updates := q\<rparr>) (updateReadIndex (te_updates s)))))"
      using updates_body_form[of s m] unfolding Let_def by blast
    from ok[unfolded s0(4)] show thesis
      by (auto simp: then_do_Ok_iff on_part_Ok_iff split: if_splits intro!: that[OF _ s0(1-3)])
  qed
  let ?s = "s0\<lparr>te_books := (te_books s0)(?t := b)\<rparr>"
  have e: "queues s1 = queues ?s" using handleMarketUpdate_queues[of ?s m] 1(1) by simp
  note h = handleMarketUpdate_Ok[OF 1(1)]
  have books: "te_books s0 = te_books s" using 0 by (simp add: queues_def)
  obtain a where "book_rel (te_books s ?t) a" using s(2) t by (auto simp: engine_ok_def books_ok_def)
  then obtain a' where "book_rel b a'"
    using book_update_ends(2)[of "te_books s ?t" a m b "()"] b books by auto
  then have "books_ok s'" using h books s(2) 1(3) by (auto simp: engine_ok_def books_ok_def)
  moreover have "features_current s'"
    using h books 0(3) s(2) 1(3) by (auto simp: engine_ok_def features_current_def te_bbo_def)
  moreover have "te_evaluations s' = te_evaluations s" "te_jev_ticker s' = te_jev_ticker s"
    using h 0(2) 1(3) by (simp_all add: plan_def)
  moreover have "te_safe c h s'" using safe_updates_body[OF s(1), of m] ok by simp
  moreover have "lq_content q = ms"
    using updateReadIndex_OkD[OF _ 1(2)] e 0 x s(1) by (simp add: queues_def te_safe_def)
  ultimately show ?thesis using e 0 h s(2) 1(3) by (simp add: queues_def engine_ok_def)
qed

lemma updates_body_no_hang: "engine_ok s \<Longrightarrow> \<not> hangs (updates_body u s)"
proof
  assume b: "engine_ok s" and "hangs (updates_body u s)"
  let ?t = "unat (mu_ticker_id u)"
  obtain s0 where s0: "queues s0 = queues s" "updates_body u s = (if ?t \<ge> ME_MAX_TICKERS then Abort ''terminate''
      else then_do (on_part (\<lambda>b. s0\<lparr>te_books := (te_books s0)(?t := b)\<rparr>) (book_onMarketUpdate u (te_books s0 ?t)))
      (\<lambda>s _. then_do (handleMarketUpdate u s) (\<lambda>s _.
        on_part (\<lambda>q. s\<lparr>te_updates := q\<rparr>) (updateReadIndex (te_updates s)))))"
    using updates_body_form[of s u] unfolding Let_def by blast
  from \<open>hangs (updates_body u s)\<close>[unfolded s0(2)]
  have "?t < ME_MAX_TICKERS" "hangs (book_onMarketUpdate u (te_books s0 ?t))"
    by (auto split: if_splits dest!: hangs_then_do)
  moreover have "te_books s0 = te_books s" using s0(1) by (simp add: queues_def)
  ultimately show False using b book_update_ends(1) by (auto simp: engine_ok_def books_ok_def)
qed

lemma queues_upd_schedule [simp]:
  "queues (s\<lparr>te_evaluations := v\<rparr>) = queues s" "queues (s\<lparr>te_next_evaluation_id := e\<rparr>) = queues s"
  "queues (s\<lparr>te_next_evaluation_at := n\<rparr>) = queues s"
  by (simp_all add: queues_def)

lemma schedule_queues: "wpost (\<lambda>s'. queues s' = queues s) (scheduleJevEvaluation s)"
proof -
  have "wpost (\<lambda>s'. queues s' = queues s) (buildJevEvaluationState t e s0)" if "queues s0 = queues s" for t e s0
    using that unfolding buildJevEvaluationState_def Let_def
    by (auto simp: read_clock_def split: prod.splits option.splits intro!: wpost_query)
  then show ?thesis
    unfolding scheduleJevEvaluation_def Let_def read_clock_def registerEvaluation_def deref_def prod.case
    by (auto split: option.splits intro!: wpost_then_do[where P = "\<lambda>s'. queues s' = queues s"] wpost_on_part)
qed

text \<open>The three loops end, with their queue empty when they end normally.\<close>

lemma drain_ends:
  assumes body: "\<And>x xs s s' u. good s \<Longrightarrow> pending s = x # xs \<Longrightarrow> body x s = Ok s' u \<Longrightarrow> good s' \<and> pending s' = xs"
    and peek: "\<And>s. good s \<Longrightarrow> peek s = (case pending s of [] \<Rightarrow> None | x # _ \<Rightarrow> Some x)"
    and hang: "\<And>x s. good s \<Longrightarrow> \<not> hangs (body x s)" and "good s"
  shows "\<not> hangs (await (drain peek body b s) id) \<and>
    (\<forall>s' r. await (drain peek body b s) id = Ok s' r \<longrightarrow> good s' \<and> pending s' = [])"
proof -
  have c: "consumes pending good body"
    unfolding consumes_def by (intro allI impI) (rule body)
  obtain m where m: "drain peek body b s = Some m"
    "\<forall>s' r. m = Ok s' r \<longrightarrow> good s' \<and> pending s' = []"
  proof -
    have "\<exists>m. drain peek body b s = Some m \<and>
        (\<forall>s' r. m = Ok s' r \<longrightarrow> good s' \<and> pending s' = [] \<and> (r \<longleftrightarrow> b \<or> pending s \<noteq> []))"
      by (rule drain_returns[OF c _ assms(4)]) (rule peek)
    then show thesis using that by blast
  qed
  have "m \<noteq> Hang"
  proof (rule drain_no_hang[where P = good, OF _ assms(4) m(1)])
    fix x s assume s: "good s" "peek s = Some x"
    then obtain xs where xs: "pending s = x # xs" using peek[OF s(1)] by (cases "pending s") simp_all
    have "body x s \<noteq> Hang" using hang[OF s(1), of x] by (simp add: hangs_iff)
    moreover have "good s'" if "body x s = Ok s' u" for s' u using body[OF s(1) xs that] ..
    ultimately show "body x s \<noteq> Hang \<and> (\<forall>s' u. body x s = Ok s' u \<longrightarrow> good s')" by blast
  qed
  then show ?thesis using m by (simp add: hangs_iff)
qed

text \<open>The three loops of a round one after the other, up to the scheduling.\<close>

definition pending_empty :: "trade_engine \<Rightarrow> bool" where
  "pending_empty s \<longleftrightarrow> lq_content (te_responses s) = [] \<and> lq_content (te_updates s) = [] \<and> lq_content (te_decisions s) = []"

lemma peek_pending: "lq_inv q \<Longrightarrow> lq_peek q = (case lq_content q of [] \<Rightarrow> None | x # _ \<Rightarrow> Some x)"
  by (rule lq_peek_content)

lemma responses_end:
  assumes "te_safe c h s" "engine_ok s"
  shows "\<not> hangs (processClientResponses s) \<and> (\<forall>s' b. processClientResponses s = Ok s' b \<longrightarrow>
    te_safe c h s' \<and> engine_ok s' \<and> plan s' = plan s \<and> lq_content (te_responses s') = [])"
proof -
  let ?g = "\<lambda>s'. te_safe c h s' \<and> engine_ok s' \<and> plan s' = plan s"
  have "\<not> hangs (processClientResponses s) \<and> (\<forall>s' b. processClientResponses s = Ok s' b \<longrightarrow>
      ?g s' \<and> lq_content (te_responses s') = [])"
    unfolding processClientResponses_def
  proof (rule drain_ends[where good = ?g])
    show "?g s' \<and> lq_content (te_responses s') = xs"
      if "?g s1" "lq_content (te_responses s1) = x # xs" "responses_body x s1 = Ok s' u" for x xs s1 s' u
      using responses_body_Ok[of c h s1 x xs s' u] that by simp
  qed (use assms in \<open>simp_all add: peek_pending te_safe_def\<close>)
  then show ?thesis by blast
qed

lemma updates_end:
  assumes "te_safe c h s" "engine_ok s" "lq_content (te_responses s) = []"
  shows "\<not> hangs (processMarketUpdates s) \<and> (\<forall>s' b. processMarketUpdates s = Ok s' b \<longrightarrow>
    te_safe c h s' \<and> engine_ok s' \<and> plan s' = plan s \<and> lq_content (te_responses s') = [] \<and> lq_content (te_updates s') = [])"
proof -
  let ?g = "\<lambda>s'. te_safe c h s' \<and> engine_ok s' \<and> plan s' = plan s \<and> lq_content (te_responses s') = []"
  have "\<not> hangs (processMarketUpdates s) \<and> (\<forall>s' b. processMarketUpdates s = Ok s' b \<longrightarrow>
      ?g s' \<and> lq_content (te_updates s') = [])"
    unfolding processMarketUpdates_def
  proof (rule drain_ends[where good = ?g])
    show "?g s' \<and> lq_content (te_updates s') = xs"
      if "?g s1" "lq_content (te_updates s1) = x # xs" "updates_body x s1 = Ok s' u" for x xs s1 s' u
      using updates_body_Ok[of c h s1 x xs s' u] that by simp
  qed (use assms in \<open>simp_all add: peek_pending te_safe_def updates_body_no_hang\<close>)
  then show ?thesis by blast
qed

lemma decisions_end:
  assumes "te_safe c h s" "engine_ok s" "lq_content (te_responses s) = []" "lq_content (te_updates s) = []"
  shows "\<not> hangs (processJevDecisions s) \<and> (\<forall>s' b. processJevDecisions s = Ok s' b \<longrightarrow>
    te_safe c h s' \<and> engine_ok s' \<and> plan s' = plan s \<and> pending_empty s')"
proof -
  let ?g = "\<lambda>s'. te_safe c h s' \<and> engine_ok s' \<and> plan s' = plan s \<and> lq_content (te_responses s') = [] \<and>
    lq_content (te_updates s') = []"
  have "\<not> hangs (processJevDecisions s) \<and> (\<forall>s' b. processJevDecisions s = Ok s' b \<longrightarrow>
      ?g s' \<and> lq_content (te_decisions s') = [])"
    unfolding processJevDecisions_def
  proof (rule drain_ends[where good = ?g])
    show "?g s' \<and> lq_content (te_decisions s') = xs"
      if "?g s1" "lq_content (te_decisions s1) = x # xs" "decisions_body x s1 = Ok s' u" for x xs s1 s' u
      using decisions_body_Ok[of c h s1 x xs s' u] that by simp
  qed (use assms in \<open>simp_all add: peek_pending te_safe_def\<close>)
  then show ?thesis by (auto simp: pending_empty_def)
qed

lemma round_no_hang:
  assumes s: "te_safe c h s" "engine_ok s"
  shows "\<not> hangs (processPending s)"
proof
  note r = responses_end[OF s]
  assume "hangs (processPending s)"
  then consider "hangs (processClientResponses s)"
    | s1 b1 where "processClientResponses s = Ok s1 b1" "hangs (processMarketUpdates s1)"
    | s1 b1 s2 b2 where "processClientResponses s = Ok s1 b1" "processMarketUpdates s1 = Ok s2 b2"
      "hangs (processJevDecisions s2)"
    unfolding processPending_def by (fastforce dest!: hangs_then_do)
  then show False
  proof cases
    case 1
    then show False using r by blast
  next
    case 2
    then show False using r updates_end[of c h s1] by blast
  next
    case 3
    then show False using r updates_end[of c h s1] decisions_end[of c h s2] by blast
  qed
qed

text \<open>The state in which a round that returns schedules an evaluation.\<close>

lemma round_schedules:
  assumes s: "te_safe c h s" "engine_ok s" and ok: "processPending s = Ok s' b"
  obtains s3 b4 where "te_safe c h s3" "engine_ok s3" "plan s3 = plan s" "pending_empty s3"
    "scheduleJevEvaluation s3 = Ok s' b4"
proof -
  from ok[unfolded processPending_def then_do_Ok_iff] obtain s1 b1 s2 b2 s3 b3 b4 where p: "processClientResponses s = Ok s1 b1"
    "processMarketUpdates s1 = Ok s2 b2" "processJevDecisions s2 = Ok s3 b3" "scheduleJevEvaluation s3 = Ok s' b4"
    by blast
  have 1: "te_safe c h s1" "engine_ok s1" "plan s1 = plan s" "lq_content (te_responses s1) = []"
    using responses_end[OF s] p(1) by blast+
  have 2: "te_safe c h s2" "engine_ok s2" "plan s2 = plan s" "lq_content (te_responses s2) = []" "lq_content (te_updates s2) = []"
    using updates_end[OF 1(1,2,4)] p(2) 1(3) by simp_all
  have "te_safe c h s3" "engine_ok s3" "plan s3 = plan s" "pending_empty s3"
    using decisions_end[OF 2(1,2,4,5)] p(3) 2(3) by simp_all
  then show thesis using that p(4) by blast
qed

section \<open>What an evaluation shows\<close>

text \<open>
  The snapshot of a ticker, field by field, against the engine: its book, its position with the profit
  and loss in the units of the venue, its two orders, the account of the venue or the engine's own, the
  limits. The trace is that of the latest update when the measurement admits it at the reading \<open>now\<close>.
\<close>

definition evaluation_shows :: "jev_evaluation_state \<Rightarrow> nat \<Rightarrow> trade_engine \<Rightarrow> bool" where
  "evaluation_shows e now s \<longleftrightarrow>
     (let t = unat (es_ticker_id e); p = pk_positions (te_keeper s) t; shown = es_position e;
          factor = (if te_single_order s then te_venue_multiplier s div Fin 100000000 else 1)
      in es_depth_snapshot e = mob_depth (te_books s t) \<and>
         es_market_features e = feature_onMarketUpdate (te_bbo s t) \<and>
         ps_net_position shown = pi_position p \<and>
         ps_today_qty shown = pd_qty (pi_days p TODAY) \<and> ps_yesterday_qty shown = pd_qty (pi_days p YESTERDAY) \<and>
         averageEntryPrice p = Ok () (ps_average_entry_price shown) \<and>
         ps_realized_pnl shown = pi_realized_pnl p * factor \<and>
         ps_unrealized_pnl shown = pi_unrealized_pnl p * factor \<and>
         es_working_orders e = map (\<lambda>sd. toWorkingOrder (om_orders (te_orders s) t (sideToIndex sd))) [BUY, SELL] \<and>
         es_account e = (if te_single_order s then te_venue_account s else te_account s) \<and>
         es_price_scale e = (if te_single_order s then Fin 100000000 else 1) \<and>
         es_pnl_before_fees e = te_single_order s \<and>
         es_risk e = \<lparr>rk_max_order_size = rl_max_order_size (te_limits s), rk_max_position = rl_max_position (te_limits s),
                      rk_max_loss = rl_max_loss (te_limits s)\<rparr> \<and>
         es_trace e = (case te_measurement s of
             None \<Rightarrow> trace_init
           | Some m \<Rightarrow> if isWithinAdmissionWindow (of_nat now) m
                       then (te_latest_traces s t)\<lparr>pt_evaluation_id := es_evaluation_id e\<rparr> else trace_init))"

lemma build_Ok:
  assumes "buildJevEvaluationState t e s = Ok s' state" "engine_ok s"
  shows "es_evaluation_id state = e \<and> es_ticker_id state = t \<and> e \<noteq> 0 \<and> unat t < ME_MAX_TICKERS \<and>
    s' = s\<lparr>te_ticks := te_ticks s + (if te_measurement s = None then 0 else 1)\<rparr> \<and>
    evaluation_shows state (te_clock s (te_ticks s)) s"
proof -
  have t: "unat t < ME_MAX_TICKERS" using assms(1) by (auto simp: buildJevEvaluationState_def split: if_splits)
  then have f: "te_features s (unat t) = feature_onMarketUpdate (te_bbo s (unat t))"
    using assms(2) by (simp add: engine_ok_def features_current_def)
  show ?thesis
  proof (cases "te_measurement s")
    case None
    then show ?thesis using assms(1) t unfolding buildJevEvaluationState_def Let_def None option.case prod.case
      by (cases "te_single_order s")
        (auto simp: query_Ok_iff evaluation_shows_def todayQty_def yesterdayQty_def f None Let_def split: if_splits)
  next
    case (Some m)
    then show ?thesis using assms(1) t unfolding buildJevEvaluationState_def Let_def Some option.case read_clock_def prod.case
      by (cases "te_single_order s")
        (auto simp: query_Ok_iff evaluation_shows_def todayQty_def yesterdayQty_def te_bbo_def f Some Let_def split: if_splits)
  qed
qed

section \<open>The scheduling of an evaluation\<close>

lemma evaluation_shows_cong:
  assumes "s' = s\<lparr>te_next_evaluation_id := i, te_latest_evaluation := l, te_evaluations := q, te_ticks := n,
    te_next_evaluation_at := w\<rparr>"
  shows "evaluation_shows e now s' = evaluation_shows e now s"
proof -
  have f: "te_books s' = te_books s" "te_keeper s' = te_keeper s" "te_orders s' = te_orders s" "te_limits s' = te_limits s"
    "te_single_order s' = te_single_order s" "te_venue_multiplier s' = te_venue_multiplier s"
    "te_venue_account s' = te_venue_account s" "te_account s' = te_account s" "te_measurement s' = te_measurement s"
    "te_latest_traces s' = te_latest_traces s"
    by (simp_all add: assms)
  show ?thesis by (simp only: evaluation_shows_def te_bbo_def f)
qed

lemma features_valid_iff: "mf_valid (feature_onMarketUpdate b) \<longleftrightarrow> quotable b"
  using features_bounded[of b] by (simp add: Let_def)

lemma evaluation_queued:
  assumes "deref x (\<lambda>q. case tryGetNextToWriteTo q of
      None \<Rightarrow> Abort m
    | Some place \<Rightarrow> then_do (f place q) (\<lambda>s _. then_do (g place q s) (\<lambda>s _.
        let (s, later) = read_clock s in Ok (k s later) True))) = Ok s' b"
  shows b
  using assms
  by (cases x; simp add: deref_def) (auto simp: then_do_Ok_iff read_clock_def Let_def split: option.splits)

lemma schedule_False:
  assumes "scheduleJevEvaluation s = Ok s' False"
  shows "(\<exists>n. s' = s\<lparr>te_ticks := n\<rparr>) \<and>
    (te_single_order s' \<and> \<not> te_venue_ready s' \<or> te_evaluations s' = None \<or>
     \<not> mf_valid (te_features s' (unat (te_jev_ticker s'))) \<or> te_clock s' (te_ticks s' - 1) < te_next_evaluation_at s')"
proof -
  have same: "\<exists>n. s = s\<lparr>te_ticks := n\<rparr>" by (rule exI[of _ "te_ticks s"]) simp
  consider "te_single_order s \<and> \<not> te_venue_ready s" | "te_evaluations s = None"
    | "\<not> mf_valid (te_features s (unat (te_jev_ticker s)))" | "te_clock s (te_ticks s) < te_next_evaluation_at s"
    | (due) "\<not> (te_single_order s \<and> \<not> te_venue_ready s)" "te_evaluations s \<noteq> None"
      "mf_valid (te_features s (unat (te_jev_ticker s)))" "\<not> te_clock s (te_ticks s) < te_next_evaluation_at s"
    by blast
  then show ?thesis
  proof cases
    case 1
    then have "s' = s" using assms by (simp add: scheduleJevEvaluation_def)
    then show ?thesis using 1 same by metis
  next
    case 2
    then have "s' = s" using assms by (simp add: scheduleJevEvaluation_def split: if_splits)
    then show ?thesis using 2 same by metis
  next
    case 3
    then have "s' = s" using assms by (simp add: scheduleJevEvaluation_def split: if_splits)
    then show ?thesis using 3 same by metis
  next
    case 4
    then have "s' = s \<and> (te_single_order s \<and> \<not> te_venue_ready s \<or> te_evaluations s = None \<or>
        \<not> mf_valid (te_features s (unat (te_jev_ticker s)))) \<or> s' = s\<lparr>te_ticks := te_ticks s + 1\<rparr>"
      using assms by (auto simp: scheduleJevEvaluation_def read_clock_def split: if_splits)
    then show ?thesis
    proof
      assume "s' = s\<lparr>te_ticks := te_ticks s + 1\<rparr>"
      then show ?thesis using 4 by auto
    next
      assume "s' = s \<and> (te_single_order s \<and> \<not> te_venue_ready s \<or> te_evaluations s = None \<or>
        \<not> mf_valid (te_features s (unat (te_jev_ticker s))))"
      then show ?thesis using same by metis
    qed
  next
    case due
    have "\<exists>s1 e. deref (te_evaluations s1) (\<lambda>q.
        case tryGetNextToWriteTo q of
          None \<Rightarrow> Abort ''terminate''
        | Some place \<Rightarrow>
            then_do (registerEvaluation (te_jev_ticker s1) (te_next_evaluation_id s) s1) (\<lambda>s _.
            then_do (on_part (\<lambda>q. s\<lparr>te_evaluations := Some q\<rparr>)
                       (updateWriteIndex (lq_write_slot place e q))) (\<lambda>s _.
              let (s, later) = read_clock s
              in Ok (s\<lparr>te_next_evaluation_at := later + te_interval_ns s\<rparr>) True))) = Ok s' False"
      using assms due by (simp add: scheduleJevEvaluation_def read_clock_def then_do_Ok_iff Let_def) blast
    then show ?thesis by (elim exE) (drule evaluation_queued, simp)
  qed
qed

lemma schedule_True:
  assumes ok: "scheduleJevEvaluation s = Ok s' True" and s: "engine_ok s"
  obtains q q' e n where "te_evaluations s = Some q" "lq_inv q'" "lq_content q' = lq_content q @ [e]"
    "es_evaluation_id e = te_next_evaluation_id s" "es_evaluation_id e \<noteq> 0" "es_ticker_id e = te_jev_ticker s"
    "\<not> (te_single_order s \<and> \<not> te_venue_ready s)" "mf_valid (te_features s (unat (te_jev_ticker s)))"
    "te_next_evaluation_at s \<le> te_clock s (te_ticks s)" "evaluation_shows e (te_clock s (te_ticks s + 1)) s"
    "n = te_ticks s + (if te_measurement s = None then 1 else 2)"
    "s' = s\<lparr>te_next_evaluation_id := te_next_evaluation_id s + 1,
       te_latest_evaluation := (te_latest_evaluation s)(unat (te_jev_ticker s) := te_next_evaluation_id s),
       te_evaluations := Some q', te_ticks := n + 1, te_next_evaluation_at := te_clock s n + te_interval_ns s\<rparr>"
proof -
  let ?e = "te_next_evaluation_id s" and ?t = "te_jev_ticker s"
  define s0 where "s0 = s\<lparr>te_ticks := te_ticks s + 1, te_next_evaluation_id := ?e + 1\<rparr>"
  have v: "mf_valid (te_features s (unat ?t))" "\<not> (te_single_order s \<and> \<not> te_venue_ready s)"
    and due: "te_next_evaluation_at s \<le> te_clock s (te_ticks s)"
    using ok by (auto simp: scheduleJevEvaluation_def read_clock_def Let_def not_less split: if_splits)
  obtain s1 e where b: "buildJevEvaluationState ?t ?e s0 = Ok s1 e"
    and rest: "deref (te_evaluations s1) (\<lambda>q.
        case tryGetNextToWriteTo q of
          None \<Rightarrow> Abort ''terminate''
        | Some place \<Rightarrow>
            then_do (registerEvaluation (te_jev_ticker s1) ?e s1) (\<lambda>s _.
            then_do (on_part (\<lambda>q. s\<lparr>te_evaluations := Some q\<rparr>)
                       (updateWriteIndex (lq_write_slot place e q))) (\<lambda>s _.
              let (s, later) = read_clock s
              in Ok (s\<lparr>te_next_evaluation_at := later + te_interval_ns s\<rparr>) True))) = Ok s' True"
    using ok v by (auto simp: scheduleJevEvaluation_def read_clock_def then_do_Ok_iff Let_def s0_def split: if_splits)
  have "engine_ok s0"
    using s by (simp add: s0_def engine_ok_def books_ok_def features_current_def te_bbo_def)
  note bo = build_Ok[OF b this]
  define n where "n = te_ticks s + (if te_measurement s = None then 1 else 2)"
  have s1: "s1 = s0\<lparr>te_ticks := n\<rparr>" using bo by (simp add: s0_def n_def)
  have bnd: "?e \<noteq> 0" "\<not> ME_MAX_TICKERS \<le> unat ?t" using bo by auto
  obtain q where q: "te_evaluations s = Some q"
    using rest by (cases "te_evaluations s") (simp_all add: s1 s0_def deref_def)
  obtain place where place: "tryGetNextToWriteTo q = Some place"
    using rest q by (auto simp: s1 s0_def split: option.splits)
  then obtain q' where q': "lq_enqueue e q = Ok q' ()"
    and s': "s' = s1\<lparr>te_latest_evaluation := (te_latest_evaluation s1)(unat ?t := ?e), te_evaluations := Some q',
      te_ticks := n + 1, te_next_evaluation_at := te_clock s n + te_interval_ns s\<rparr>"
    using rest q bnd
    by (auto simp: s1 s0_def registerEvaluation_def then_do_Ok_iff on_part_Ok_iff read_clock_def lq_enqueue_def Let_def)
  have "lq_inv q" using s q by (simp add: engine_ok_def)
  note q2 = lq_enqueue_OkD[OF this q']
  have "evaluation_shows e (te_clock s (te_ticks s + 1)) s"
    using bo evaluation_shows_cong[where s' = s0 and s = s and n = "te_ticks s + 1" and i = "?e + 1" and
        l = "te_latest_evaluation s" and q = "te_evaluations s" and w = "te_next_evaluation_at s"] by (simp add: s0_def)
  then show thesis
    by (intro that[of q q' e n] q v due n_def) (use q2 bo in \<open>simp_all add: s' s1 s0_def\<close>)
qed

section \<open>A round of an engine that runs\<close>

lemma new_book: "\<exists>a. book_rel (projr (market_order_book_new t)) a" "mob_bbo (projr (market_order_book_new t)) = bbo_init"
proof -
  obtain b where b: "market_order_book_new t = Inr b" using book_new_ok[of t] by blast
  then show "\<exists>a. book_rel (projr (market_order_book_new t)) a" using book_new_rel by fastforce
  show "mob_bbo (projr (market_order_book_new t)) = bbo_init"
    using b by (auto simp: market_order_book_new_def split: sum.splits)
qed

lemma engine_ok_venue:
  "engine_ok (updateVenueState ready a m s) = engine_ok s" "engine_ok (disableVenueTrading s) = engine_ok s"
  "engine_ok (enableSimexConstraints s) = engine_ok s" "engine_ok (enableSingleOrderVenue s) = engine_ok s"
  "engine_ok (setAccountState acc s) = engine_ok s" "engine_ok (setMeasurement me s) = engine_ok s"
  by (simp_all add: engine_ok_def books_ok_def features_current_def te_bbo_def updateVenueState_def
      disableVenueTrading_def enableSimexConstraints_def enableSingleOrderVenue_def setAccountState_def setMeasurement_def
      Let_def)

lemma schedule_engine_ok:
  assumes "scheduleJevEvaluation s = Ok s' b" "engine_ok s"
  shows "engine_ok s' \<and> queues s' = queues s"
proof (cases b)
  case True
  with assms(1) have "scheduleJevEvaluation s = Ok s' True" by simp
  from this assms(2) show ?thesis
  proof (rule schedule_True, goal_cases)
    case (1 q q' e n)
    let ?s = "s\<lparr>te_next_evaluation_id := te_next_evaluation_id s + 1,
       te_latest_evaluation := (te_latest_evaluation s)(unat (te_jev_ticker s) := te_next_evaluation_id s),
       te_evaluations := Some q', te_ticks := n + 1, te_next_evaluation_at := te_clock s n + te_interval_ns s\<rparr>"
    have "te_books ?s = te_books s" "te_features ?s = te_features s" "te_jev_ticker ?s = te_jev_ticker s"
      "te_evaluations ?s = Some q'" by simp_all
    then have "engine_ok ?s"
      using assms(2) 1(2) by (simp only: engine_ok_def books_ok_def features_current_def te_bbo_def) simp
    moreover have "queues ?s = queues s" by (simp add: queues_def)
    ultimately show ?case by (simp only: 1(12))
  qed
next
  case False
  with assms(1) have "scheduleJevEvaluation s = Ok s' False" by simp
  then obtain n where "s' = s\<lparr>te_ticks := n\<rparr>" using schedule_False by blast
  then show ?thesis using assms(2) engine_ok_same[of s' s] by simp
qed

lemma engine_run_ok: "engine_run c h s \<Longrightarrow> engine_ok s"
proof (induction rule: engine_run.induct)
  case (created lims rq rs mu jd clock s)
  note f = trade_engine_new_fields[OF created(1)]
  have "feature_onMarketUpdate bbo_init = market_features_init"
    by (simp add: feature_onMarketUpdate_def bbo_init_def)
  then show ?case
    using f new_book by (simp add: engine_ok_def books_ok_def features_current_def te_bbo_def ME_MAX_TICKERS_def)
next
  case (attached h s q interval t s')
  then show ?case
    by (auto simp: attachJevEvaluationQueue_def read_clock_def engine_ok_def books_ok_def features_current_def te_bbo_def
        split: if_splits)
next
  case (quantity h s n s')
  then show ?case using engine_ok_same[of "s\<lparr>te_order_quantity := n\<rparr>" s]
    by (auto simp: setDecisionOrderQuantity_def plan_def split: if_splits)
next
  case (worker_takes h s q q')
  then have "lq_inv q" by (simp add: engine_ok_def)
  then show ?case using worker_takes updateReadIndex_OkD[of q q' "()"]
    by (simp add: engine_ok_def books_ok_def features_current_def te_bbo_def)
next
  case (registered h s t e s')
  then show ?case using engine_ok_same[of "s\<lparr>te_latest_evaluation := (te_latest_evaluation s)(unat t := e)\<rparr>" s]
    by (auto simp: registerEvaluation_def split: if_splits)
next
  case (processed h s s' b)
  from engine_run_safe[OF processed(1)] processed(3,2) show ?case
    by (rule round_schedules) (use schedule_engine_ok in blast)
next
  case (venue_response h s r q)
  then show ?case by (subst engine_ok_same[of _ s]) simp_all
next
  case (venue_update h s u q)
  then show ?case by (subst engine_ok_same[of _ s]) simp_all
next
  case (worker_decision h s d q)
  then show ?case by (subst engine_ok_same[of _ s]) simp_all
next
  case (gateway_takes h s r q)
  then show ?case by (subst engine_ok_same[of _ s]) simp_all
qed (simp_all add: engine_ok_venue)

section \<open>Without a quote\<close>

lemma features_unquotable: "\<not> quotable b \<Longrightarrow> feature_onMarketUpdate b = market_features_init"
  by (auto simp: feature_onMarketUpdate_def quotable_def)

text \<open>C32: When an update leaves the book of a ticker without a quote (a side missing, a price not
  positive, crossed prices or an unknown quantity), the features become invalid, the registered
  evaluation is withdrawn, and from then on every decision on that ticker is dropped without any
  effect, whatever evaluation it answers.\<close>

theorem quote_loss_withdraws_evaluation:
  assumes "\<not> quotable (te_bbo s (unat (mu_ticker_id u)))" "handleMarketUpdate u s = Ok s' ()"
  shows "te_latest_evaluation s' (unat (mu_ticker_id u)) = 0 \<and>
    te_features s' (unat (mu_ticker_id u)) = market_features_init \<and>
    (jd_ticker_id d = mu_ticker_id u \<longrightarrow> handleJevDecision d s' = Ok s' ())"
proof -
  let ?t = "unat (mu_ticker_id u)"
  have "te_latest_evaluation s' ?t = 0 \<and> te_features s' ?t = market_features_init"
    using assms features_unquotable[OF assms(1)]
    by (auto simp: handleMarketUpdate_def Let_def then_do_Ok_iff on_keeper_def on_part_Ok_iff te_bbo_def
        note_event_def market_features_init_def)
  moreover from this have "\<not> decision_passes d s'" if "jd_ticker_id d = mu_ticker_id u"
    using that by (simp add: decision_passes_def Let_def)
  ultimately show ?thesis using handleJevDecision_blocked[of d s'] by blast
qed

lemma quote_loss_withdraws_evaluation_witness:
  "\<exists>s'. handleMarketUpdate (market_update_init\<lparr>mu_ticker_id := 0\<rparr>)
       (quoted_engine\<lparr>te_books := (\<lambda>t. (te_books sample_engine t)\<lparr>mob_bbo := bbo_init\<rparr>)\<rparr>) = Ok s' () \<and>
     te_latest_evaluation quoted_engine 0 = 1 \<and> handleJevDecision sample_decision s' = Ok s' ()"
proof -
  let ?s = "quoted_engine\<lparr>te_books := (\<lambda>t. (te_books sample_engine t)\<lparr>mob_bbo := bbo_init\<rparr>)\<rparr>"
  let ?u = "market_update_init\<lparr>mu_ticker_id := 0\<rparr>"
  have "\<exists>s'. handleMarketUpdate ?u ?s = Ok s' ()"
    by (simp add: handleMarketUpdate_def on_keeper_def keeper_updateBBO_def at_position_def ME_MAX_TICKERS_def
        position_updateBBO_def refresh_flat quoted_engine_def sample_engine_fields position_keeper_new_def
        position_info_init_def Let_def)
  then obtain s' where s': "handleMarketUpdate ?u ?s = Ok s' ()" by blast
  have "\<not> quotable (te_bbo ?s (unat (mu_ticker_id ?u)))"
    by (simp add: quotable_def te_bbo_def bbo_init_def)
  from quote_loss_withdraws_evaluation[OF this s', of sample_decision] s' show ?thesis
    by (auto simp: sample_decision_def quoted_engine_def)
qed

text \<open>With the simex constraints on, a fill is taken over only when afterwards the net position is
  the old one moved by the whole fill and the days hold exactly its size; a fill that fits the
  account and closes no more than is held passes this check.\<close>

theorem simex_fill_agrees:
  assumes "te_simex s" "rs_type r = FILLED" "unat (rs_ticker_id r) < ME_MAX_TICKERS"
  shows "(\<forall>s'. handleClientResponse r s = Ok s' () \<longrightarrow>
      position_agrees (pi_position (pk_positions (te_keeper s) (unat (rs_ticker_id r))) +
          sideToValue (rs_side r) * int (unat (rs_exec_qty r)))
        (pk_positions (te_keeper s') (unat (rs_ticker_id r)))) \<and>
    (let p = pk_positions (te_keeper s) (unat (rs_ticker_id r)) in
     position_ok p \<and> fill_fits r p \<and> fill_qty r p = unat (rs_exec_qty r) \<longrightarrow>
       (\<exists>s'. handleClientResponse r s = Ok s' ()))"
proof -
  let ?t = "unat (rs_ticker_id r)" and ?m = "te_bbo s"
  let ?p = "pk_positions (te_keeper s) ?t"
  let ?x = "pi_position ?p + sideToValue (rs_side r) * int (unat (rs_exec_qty r))"
  have run: "handleClientResponse r s =
     then_do (on_part (\<lambda>p. s\<lparr>te_keeper := (te_keeper s)\<lparr>pk_positions := (pk_positions (te_keeper s))(?t := p)\<rparr>\<rparr>)
       (onFill ?m r ?p)) (\<lambda>s _. if te_simex s \<and> \<not> position_agrees ?x (pk_positions (te_keeper s) ?t)
          then Throw s (Logic_error ''Simex execution and participant position disagree'')
          else Ok (note_event (On_response r) (s\<lparr>te_orders := onOrderUpdate r (te_orders s)\<rparr>)) ())"
    using assms by (cases "onFill ?m r ?p")
      (simp_all add: handleClientResponse_def on_keeper_def keeper_onClientResponse_def at_position_def Let_def)
  have "\<exists>s'. handleClientResponse r s = Ok s' ()"
    if ok: "position_ok ?p" "fill_fits r ?p" "fill_qty r ?p = unat (rs_exec_qty r)"
  proof -
    obtain p' where "onFill ?m r ?p = Ok p' ()" "position_ok p'" "pi_position p' = ?x"
      using onFill_fits[OF ok(1,2), of ?m] ok(3) by auto
    then show ?thesis
      by (simp add: run position_agrees_def position_ok_def held_def)
  qed
  then show ?thesis
    using assms(1) by (auto simp: run then_do_Ok_iff on_part_Ok_iff Let_def split: if_splits)
qed

definition simex_engine :: trade_engine where
  "simex_engine = enableSimexConstraints sample_engine"

lemma simex_fill_agrees_witness:
  "\<exists>s'. handleClientResponse sample_fill simex_engine = Ok s' () \<and>
     pi_position (pk_positions (te_keeper s') 0) = 3"
proof -
  have "fill_fits sample_fill position_info_init" "fill_qty sample_fill position_info_init = 3"
    by (simp_all add: fill_fits_def sample_fill_def position_info_init_def position_day_init_def held_set
        fill_qty_def Qty_INVALID_def)
  then show ?thesis
    using simex_fill_agrees[of simex_engine sample_fill] position_init_ok
    by (auto simp: simex_engine_def enableSimexConstraints_def sample_fill_def sample_engine_fields
        position_keeper_new_def ME_MAX_TICKERS_def position_agrees_def position_info_init_def Let_def)
qed

end
