(* ===== verification/EngineLife.thy ===== *)
theory EngineLife
  imports EngineRounds
begin

text \<open>
  The whole life of an engine, as the main program deploys it: the requests it sends, the end of its rounds
  and what its evaluations show, with an engine that is configured, gets a quote, schedules an evaluation,
  gets the decision on it and sends an order.
\<close>

section \<open>Properties of the life of an engine\<close>

text \<open>C30: Over the whole life of an engine, from its construction through its configuration (the queue of
  evaluations attached, the quantity of a decision set) and its rounds, the requests that it has handed to the gateway and those
  still queued are those of one run of the order manager: the NEW requests carry the ids 1, 2, 3 and
  so on, each once, and every CANCEL names a request sent before it.\<close>

theorem engine_requests_well_numbered:
  assumes "engine_run c h s" "length (news (te_log h s)) < 2 ^ 64"
  shows "om_run c (te_orders s) (te_log h s) \<and>
    map rq_order_id (news (te_log h s)) = map of_nat [1..<Suc (length (news (te_log h s)))] \<and>
    distinct (map rq_order_id (news (te_log h s))) \<and> cancels_known (te_log h s)"
proof -
  have r: "om_run c (te_orders s) (te_log h s)" using engine_run_safe[OF assms(1)] by (simp add: te_safe_def)
  show ?thesis using om_run_inv[OF r] distinct_ids[OF assms(2)] r by (simp add: om_inv_def)
qed

text \<open>C31: A round of the engine comes to an end: from every state of an engine's life, with or
  without a queue of evaluations attached, none of its loops runs for ever, and when it returns, every
  response, update and decision that was pending has been handled and the three queues are empty.\<close>

theorem round_drains_queues:
  assumes "engine_run c h s"
  shows "processPending s \<noteq> Hang \<and> (\<forall>s' b. processPending s = Ok s' b \<longrightarrow>
    lq_content (te_responses s') = [] \<and> lq_content (te_updates s') = [] \<and> lq_content (te_decisions s') = [])"
proof -
  note s = engine_run_safe[OF assms] engine_run_ok[OF assms]
  have "pending_empty s'" if "processPending s = Ok s' b" for s' b
    using s that by (rule round_schedules) (auto simp: pending_empty_def queues_def dest!: schedule_engine_ok)
  then show ?thesis using round_no_hang[OF s] by (auto simp: pending_empty_def hangs_iff)
qed

text \<open>C33: When a round of an engine with a queue of evaluations returns, either the queue is as it was, and
  then the venue is not ready, the book of the ticker has no quote or the interval has not passed; or
  exactly one snapshot is behind those already queued, of the configured ticker, with the next id, which is
  not zero, and the snapshot shows the engine as the round leaves it: the depth and the features of its
  book, its position, both working orders, account, limits and trace. Then the engine accepts decisions for
  this snapshot, and the next one is due an interval later.\<close>

theorem scheduled_evaluation_is_current:
  assumes run: "engine_run c h s" and round: "processPending s = Ok s' b" and q: "te_evaluations s = Some q"
  shows "\<exists>q'. te_evaluations s' = Some q' \<and>
    (lq_content q' = lq_content q \<and> te_next_evaluation_id s' = te_next_evaluation_id s \<and>
       (te_single_order s' \<and> \<not> te_venue_ready s' \<or> \<not> quotable (te_bbo s' (unat (te_jev_ticker s))) \<or>
        te_clock s' (te_ticks s' - 1) < te_next_evaluation_at s) \<or>
     (\<exists>e. lq_content q' = lq_content q @ [e] \<and> es_ticker_id e = te_jev_ticker s \<and>
        es_evaluation_id e = te_next_evaluation_id s \<and> es_evaluation_id e \<noteq> 0 \<and>
        te_next_evaluation_id s' = te_next_evaluation_id s + 1 \<and> quotable (te_bbo s' (unat (es_ticker_id e))) \<and>
        te_next_evaluation_at s \<le> te_clock s' (te_ticks s' - (if te_measurement s' = None then 2 else 3)) \<and>
        te_next_evaluation_at s' = te_clock s' (te_ticks s' - 1) + te_interval_ns s' \<and>
        acceptsEvaluation e s' \<and> evaluation_shows e (te_clock s' (te_ticks s' - 2)) s'))"
proof -
  note s = engine_run_safe[OF run] engine_run_ok[OF run]
  from s round show ?thesis
  proof (rule round_schedules)
    fix s3 b4 assume s3: "engine_ok s3" "plan s3 = plan s" and ok: "scheduleJevEvaluation s3 = Ok s' b4"
    have p: "te_evaluations s3 = Some q" "te_next_evaluation_id s3 = te_next_evaluation_id s"
      "te_jev_ticker s3 = te_jev_ticker s" "te_next_evaluation_at s3 = te_next_evaluation_at s"
      using s3(2) q by (simp_all add: plan_def)
    have valid: "mf_valid (te_features s3 (unat (te_jev_ticker s))) \<longleftrightarrow> quotable (te_bbo s3 (unat (te_jev_ticker s)))"
      using s3(1) p(3) by (simp add: engine_ok_def features_current_def features_valid_iff)
    show ?thesis
    proof (cases b4)
      case True
      with ok have "scheduleJevEvaluation s3 = Ok s' True" by simp
      from this s3(1) show ?thesis
      proof (rule schedule_True, goal_cases)
        case (1 q1 q' e n)
        have f: "te_evaluations s' = Some q'" "te_next_evaluation_id s' = te_next_evaluation_id s + 1"
          "te_single_order s' = te_single_order s3" "te_venue_ready s' = te_venue_ready s3" "te_clock s' = te_clock s3"
          "te_latest_evaluation s' (unat (te_jev_ticker s)) = te_next_evaluation_id s" "te_ticks s' = n + 1"
          "te_measurement s' = te_measurement s3" "te_next_evaluation_at s' = te_clock s' n + te_interval_ns s'"
          "te_bbo s' t = te_bbo s3 t" for t
          by (simp_all add: 1(12) p te_bbo_def)
        have ticks: "te_ticks s' - (if te_measurement s' = None then 2 else 3) = te_ticks s3" "te_ticks s' - 1 = n"
          "te_measurement s3 \<noteq> None \<Longrightarrow> te_ticks s' - 2 = te_ticks s3 + 1"
          using 1(11) by (simp_all only: f) simp_all
        have "evaluation_shows e (te_clock s3 (te_ticks s3 + 1)) s'"
          using 1(10) evaluation_shows_cong[OF 1(12)] by simp
        then have shows': "evaluation_shows e (te_clock s' (te_ticks s' - 2)) s'"
          using ticks(3) f(5,8) by (cases "te_measurement s3") (simp_all add: evaluation_shows_def)
        have "unat (te_jev_ticker s) < ME_MAX_TICKERS" using s3(1) p(3) by (simp add: engine_ok_def)
        then have accepts: "acceptsEvaluation e s'"
          using 1(4-7) f(3,4,6) p(2,3) by (auto simp: acceptsEvaluation_def)
        have g1: "lq_content q' = lq_content q @ [e]" "es_ticker_id e = te_jev_ticker s"
          "es_evaluation_id e = te_next_evaluation_id s" "es_evaluation_id e \<noteq> 0"
          using 1(1,3-6) p(1-3) by simp_all
        have g2: "quotable (te_bbo s' (unat (es_ticker_id e)))" using 1(6,8) p(3) valid f(10) by simp
        have g3: "te_next_evaluation_at s \<le> te_clock s' (te_ticks s' - (if te_measurement s' = None then 2 else 3))"
          using 1(9) p(4) unfolding ticks(1) f(5) by simp
        have g4: "te_next_evaluation_at s' = te_clock s' (te_ticks s' - 1) + te_interval_ns s'"
          unfolding ticks(2) by (rule f(9))
        show ?thesis
          by (rule exI[of _ q'], rule conjI[OF f(1)], rule disjI2, rule exI[of _ e])
            (intro conjI g1 g2 g3 g4 f(2) accepts shows')
      qed
    next
      case False
      with ok have "scheduleJevEvaluation s3 = Ok s' False" by simp
      from schedule_False[OF this] obtain n where n: "s' = s3\<lparr>te_ticks := n\<rparr>"
        and why: "te_single_order s' \<and> \<not> te_venue_ready s' \<or> te_evaluations s' = None \<or>
          \<not> mf_valid (te_features s' (unat (te_jev_ticker s'))) \<or> te_clock s' (te_ticks s' - 1) < te_next_evaluation_at s'"
        by (elim exE conjE)
      have f: "te_evaluations s' = te_evaluations s3" "te_next_evaluation_id s' = te_next_evaluation_id s3"
        "te_features s' = te_features s3" "te_jev_ticker s' = te_jev_ticker s3" "te_bbo s' t = te_bbo s3 t"
        "te_next_evaluation_at s' = te_next_evaluation_at s3" for t
        by (simp_all add: n te_bbo_def)
      have "te_single_order s' \<and> \<not> te_venue_ready s' \<or> \<not> quotable (te_bbo s' (unat (te_jev_ticker s))) \<or>
          te_clock s' (te_ticks s' - 1) < te_next_evaluation_at s"
        using why valid unfolding f p by blast
      then show ?thesis using f(1,2) p(1,2) by (intro exI[of _ q]) simp
    qed
  qed
qed

section \<open>A deployed engine\<close>

text \<open>The sample engine once the main program has set the quantity and attached the queue of evaluations.\<close>

definition deployed_engine :: trade_engine where
  "deployed_engine = sample_engine\<lparr>te_order_quantity := 1, te_evaluations := Some (sample_queue jev_evaluation_init),
     te_interval_ns := 1000000000, te_jev_ticker := 0, te_next_evaluation_at := 0, te_ticks := 2\<rparr>"

lemma sample_ticks: "te_ticks sample_engine = 1" "te_clock sample_engine = (\<lambda>_. 0)" "te_next_evaluation_at sample_engine = 0"
  "te_jev_ticker sample_engine = 0" "te_latest_evaluation sample_engine = (\<lambda>_. 0)" "te_venue_ready sample_engine"
  by (simp_all add: sample_engine_def trade_engine_new_def)

lemma deployed_engine_run: "engine_run 7 [] deployed_engine"
proof -
  have "setDecisionOrderQuantity 1 sample_engine = Ok (sample_engine\<lparr>te_order_quantity := 1\<rparr>) ()"
    by (simp add: setDecisionOrderQuantity_def Qty_INVALID_def)
  note q = engine_run.quantity[OF sample_engine_run this]
  have "attachJevEvaluationQueue (Some (sample_queue jev_evaluation_init)) 1000 0 (sample_engine\<lparr>te_order_quantity := 1\<rparr>) =
      Ok deployed_engine ()"
    by (simp add: attachJevEvaluationQueue_def deployed_engine_def read_clock_def ME_MAX_TICKERS_def sample_ticks)
  from engine_run.attached[OF q sample_queue_ok(1) this] show ?thesis .
qed

lemma deployed_fields:
  "te_requests deployed_engine = sample_queue client_request_init" "te_responses deployed_engine = sample_queue client_response_init"
  "te_updates deployed_engine = sample_queue market_update_init" "te_decisions deployed_engine = sample_queue jev_decision_init"
  "te_keeper deployed_engine = position_keeper_new" "te_orders deployed_engine = order_manager_new 7"
  "te_limits deployed_engine = rm_limits sample_risk" "te_measurement deployed_engine = None"
  "te_single_order deployed_engine = False" "te_simex deployed_engine = False" "te_order_quantity deployed_engine = 1"
  "te_evaluations deployed_engine = Some (sample_queue jev_evaluation_init)" "te_jev_ticker deployed_engine = 0"
  "te_next_evaluation_id deployed_engine = 1" "te_next_evaluation_at deployed_engine = 0" "te_clock deployed_engine = (\<lambda>_. 0)"
  "te_books deployed_engine = (\<lambda>t. projr (market_order_book_new (of_nat t)))"
  by (simp_all add: deployed_engine_def sample_engine_fields sample_ticks)

text \<open>A quote arrives.\<close>

definition quote_update :: market_update where
  "quote_update = market_update_init\<lparr>mu_type := DEPTH_SNAPSHOT, mu_ticker_id := 0, mu_depth := depth_snapshot_init
     \<lparr>ds_bids := \<lparr>dl_price = 100, dl_qty = 5\<rparr> # replicate 4 depth_level_init,
      ds_asks := \<lparr>dl_price = 101, dl_qty = 6\<rparr> # replicate 4 depth_level_init\<rparr>\<rparr>"

lemma drain_none: "peek s = None \<Longrightarrow> await (drain peek body b s) id = Ok s b"
  by (subst drain.simps) simp

lemma drain_one:
  "peek s = Some x \<Longrightarrow> body x s = Ok s1 () \<Longrightarrow> peek s1 = None \<Longrightarrow> await (drain peek body b s) id = Ok s1 True"
  by (subst drain.simps, simp, subst drain.simps, simp)

lemma queue_one:
  obtains q q' where "lq_enqueue x (sample_queue y) = Ok q ()" "lq_inv q" "lq_content q = [x]" "lq_peek q = Some x"
    "updateReadIndex q = Ok q' ()" "lq_inv q'" "lq_content q' = []" "lq_peek q' = None"
proof -
  have room: "lq_num_elements (sample_queue y) < lq_capacity (sample_queue y)" by (simp add: sample_queue_def lf_queue_new_def)
  obtain q where q: "lq_enqueue x (sample_queue y) = Ok q ()" "lq_inv q" "lq_content q = [x]"
    using lq_enqueue_ok[OF sample_queue_ok(1) room, of x] sample_queue_ok(2)[of y] by auto
  obtain q' where q': "updateReadIndex q = Ok q' ()" "lq_inv q'" "lq_content q' = []"
    using lq_dequeue_ok[OF q(2,3)] by auto
  show thesis using that[OF q _ q'] q q' by (simp add: lq_peek_content)
qed

lemma queue_none: "lq_peek (sample_queue y) = None"
  by (simp add: lq_peek_content sample_queue_ok)

lemma sample_quotable: "quotable sample_bbo"
  by (simp add: quotable_def sample_bbo_def Price_INVALID_def Qty_INVALID_def)

lemma new_book_mode: "mob_mode (projr (market_order_book_new t)) = Mode_UNINITIALIZED"
  using book_new_ok[of t] by (auto simp: market_order_book_new_def split: sum.splits)

lemma quote_book:
  "\<exists>b. book_onMarketUpdate quote_update (projr (market_order_book_new 0)) = Ok b () \<and> mob_bbo b = sample_bbo"
  by (simp add: book_onMarketUpdate_def quote_update_def requireDepthSnapshotMode_def new_book_mode onDepthSnapshot_def
      updateBBOFromDepthSnapshot_def sample_bbo_def Let_def market_update_init_def)

definition quote_keeper :: position_keeper where
  "quote_keeper = position_keeper_new\<lparr>pk_positions := (pk_positions position_keeper_new)
     (0 := position_info_init\<lparr>pi_unrealized_pnl := 0, pi_total_pnl := 0 + 0, pi_bbo := Some 0\<rparr>)\<rparr>"

lemma quote_handled:
  assumes "te_keeper s = position_keeper_new" "te_bbo s 0 = sample_bbo"
  shows "handleMarketUpdate quote_update s = Ok (note_event (On_market quote_update)
    (s\<lparr>te_keeper := quote_keeper, te_features := (te_features s)(0 := feature_onMarketUpdate sample_bbo)\<rparr>)) ()"
  using assms features_valid_iff[of sample_bbo] sample_quotable
  by (simp add: handleMarketUpdate_def on_keeper_def keeper_updateBBO_def at_position_def ME_MAX_TICKERS_def
      position_updateBBO_def refresh_flat position_keeper_new_def position_info_init_def quote_update_def te_bbo_def
      quote_keeper_def Let_def)

lemma quote_round_update:
  assumes "te_updates s = q" "updateReadIndex q = Ok q' ()" "te_measurement s = None" "te_keeper s = position_keeper_new"
    "te_books s 0 = projr (market_order_book_new 0)"
  shows "\<exists>l b. mob_bbo b = sample_bbo \<and> updates_body quote_update s = Ok (note_event (On_market quote_update)
    (s\<lparr>te_latest_traces := l, te_books := (te_books s)(0 := b), te_keeper := quote_keeper,
       te_features := (te_features s)(0 := feature_onMarketUpdate sample_bbo)\<rparr>)\<lparr>te_updates := q'\<rparr>) ()"
proof -
  obtain b where b: "book_onMarketUpdate quote_update (projr (market_order_book_new 0)) = Ok b ()" "mob_bbo b = sample_bbo"
    using quote_book by blast
  let ?l = "(te_latest_traces s)(0 := mu_trace quote_update)"
  have t: "mu_ticker_id quote_update = 0" "pt_source_id (mu_trace quote_update) = 0"
    by (simp_all add: quote_update_def market_update_init_def trace_init_def)
  have h: "handleMarketUpdate quote_update (s\<lparr>te_latest_traces := ?l, te_books := (te_books s)(0 := b)\<rparr>) =
      Ok (note_event (On_market quote_update) (s\<lparr>te_latest_traces := ?l, te_books := (te_books s)(0 := b), te_keeper := quote_keeper,
       te_features := (te_features s)(0 := feature_onMarketUpdate sample_bbo)\<rparr>)) ()"
    by (subst quote_handled) (use assms b(2) in \<open>simp_all add: te_bbo_def\<close>)
  have "updates_body quote_update s = Ok (note_event (On_market quote_update)
    (s\<lparr>te_latest_traces := ?l, te_books := (te_books s)(0 := b), te_keeper := quote_keeper,
       te_features := (te_features s)(0 := feature_onMarketUpdate sample_bbo)\<rparr>)\<lparr>te_updates := q'\<rparr>) ()"
    using assms b(1) h t by (simp add: updates_body_def ME_MAX_TICKERS_def Let_def)
  then show ?thesis using b(2) by blast
qed

text \<open>The round schedules an evaluation.\<close>

lemma schedules:
  assumes "te_measurement s = None" "\<not> te_single_order s" "te_evaluations s = Some (sample_queue x)" "te_jev_ticker s = 0"
    "te_next_evaluation_at s = 0" "te_next_evaluation_id s = 1" "mf_valid (te_features s 0)"
    "pi_position (pk_positions (te_keeper s) 0) = 0"
  shows "\<exists>s'. scheduleJevEvaluation s = Ok s' True"
  using assms
  by (simp add: scheduleJevEvaluation_def read_clock_def buildJevEvaluationState_def averageEntryPrice_def
      registerEvaluation_def ME_MAX_TICKERS_def tryGetNextToWriteTo_def updateWriteIndex_def lq_isFull_def
      lq_write_slot_def sample_queue_def lf_queue_new_def Let_def)

text \<open>What the two rounds of the example rely on.\<close>

definition quiet :: "trade_engine \<Rightarrow> bool" where
  "quiet s \<longleftrightarrow> te_requests s = sample_queue client_request_init \<and> te_responses s = sample_queue client_response_init \<and>
     te_orders s = order_manager_new 7 \<and>
     te_limits s = rm_limits sample_risk \<and> te_measurement s = None \<and> \<not> te_single_order s \<and> \<not> te_simex s \<and>
     te_order_quantity s = 1 \<and> te_jev_ticker s = 0 \<and> te_clock s = (\<lambda>_. 0)"

definition quoting :: "trade_engine \<Rightarrow> bool" where
  "quoting s \<longleftrightarrow> quiet s \<and> te_keeper s = quote_keeper \<and> te_bbo s 0 = sample_bbo \<and>
     te_features s 0 = feature_onMarketUpdate sample_bbo \<and> lq_inv (te_updates s) \<and> lq_content (te_updates s) = []"

lemma quote_features: "mf_valid (feature_onMarketUpdate sample_bbo)"
  using features_valid_iff sample_quotable by blast

lemma quote_flat: "pi_position (pk_positions quote_keeper 0) = 0"
  by (simp add: quote_keeper_def position_info_init_def)

lemma quote_round:
  obtains q s' where "lq_enqueue quote_update (te_updates deployed_engine) = Ok q ()" "lq_content q = [quote_update]"
    "processPending (deployed_engine\<lparr>te_updates := q\<rparr>) = Ok s' True" "quoting s'"
    "te_latest_evaluation s' 0 = 1" "te_next_evaluation_at s' > 0" "te_evaluations s' \<noteq> None"
    "te_decisions s' = sample_queue jev_decision_init"
proof -
  obtain q q' where q: "lq_enqueue quote_update (te_updates deployed_engine) = Ok q ()" "lq_inv q" "lq_content q = [quote_update]"
    "lq_peek q = Some quote_update" "updateReadIndex q = Ok q' ()" "lq_inv q'" "lq_content q' = []" "lq_peek q' = None"
    unfolding deployed_fields by (rule queue_one[of quote_update market_update_init])
  let ?s0 = "deployed_engine\<lparr>te_updates := q\<rparr>"
  have run: "engine_run 7 [] ?s0" by (rule engine_run.venue_update[OF deployed_engine_run q(1)])
  obtain l b where b: "mob_bbo b = sample_bbo" and u: "updates_body quote_update ?s0 = Ok (note_event (On_market quote_update)
      (?s0\<lparr>te_latest_traces := l, te_books := (te_books ?s0)(0 := b), te_keeper := quote_keeper,
         te_features := (te_features ?s0)(0 := feature_onMarketUpdate sample_bbo)\<rparr>)\<lparr>te_updates := q'\<rparr>) ()"
    using quote_round_update[of ?s0 q q'] q(5) by (auto simp: deployed_fields)
  define s1 where "s1 = note_event (On_market quote_update)
      (?s0\<lparr>te_latest_traces := l, te_books := (te_books ?s0)(0 := b), te_keeper := quote_keeper,
         te_features := (te_features ?s0)(0 := feature_onMarketUpdate sample_bbo)\<rparr>)\<lparr>te_updates := q'\<rparr>"
  have u1: "updates_body quote_update ?s0 = Ok s1 ()" using u by (simp only: s1_def)
  have f: "quiet s1" "te_keeper s1 = quote_keeper" "te_bbo s1 0 = sample_bbo" "te_features s1 0 = feature_onMarketUpdate sample_bbo"
    "te_updates s1 = q'" "te_evaluations s1 = Some (sample_queue jev_evaluation_init)" "te_next_evaluation_id s1 = 1"
    "te_next_evaluation_at s1 = 0" "te_interval_ns s1 = 1000000000" "te_decisions s1 = sample_queue jev_decision_init"
    using b by (simp_all add: s1_def quiet_def note_event_def deployed_fields te_bbo_def)
      (simp add: deployed_engine_def)
  have ok: "engine_ok s1"
    using updates_body_Ok[OF engine_run_safe[OF run] engine_run_ok[OF run] _ u1] q(3) by simp
  have "\<exists>s'. scheduleJevEvaluation s1 = Ok s' True"
    by (rule schedules) (use f quote_features quote_flat in \<open>simp_all add: quiet_def\<close>)
  then obtain s' where s': "scheduleJevEvaluation s1 = Ok s' True" by blast
  have "processClientResponses ?s0 = Ok ?s0 False"
    unfolding processClientResponses_def by (rule drain_none) (simp add: deployed_fields queue_none)
  moreover have "processMarketUpdates ?s0 = Ok s1 True"
    unfolding processMarketUpdates_def
    by (rule drain_one[where x = quote_update and body = updates_body]) (simp_all add: u1 q(4,8) f(5))
  moreover have "processJevDecisions s1 = Ok s1 False"
    unfolding processJevDecisions_def by (rule drain_none) (simp add: f(10) queue_none)
  ultimately have round: "processPending ?s0 = Ok s' True" using s' by (simp add: processPending_def)
  have "quoting s' \<and> te_latest_evaluation s' 0 = 1 \<and> te_next_evaluation_at s' > 0 \<and> te_evaluations s' \<noteq> None \<and>
      te_decisions s' = sample_queue jev_decision_init"
    using s' ok
  proof (rule schedule_True, goal_cases)
    case (1 q1 q2 e n)
    show ?case using f q(6,7) by (simp add: 1(12) quoting_def quiet_def te_bbo_def)
  qed
  then show thesis using that[OF q(1,3) round] by blast
qed

lemma quote_run:
  obtains s s' where "engine_run 7 [] s" "lq_content (te_updates s) = [quote_update]" "processPending s = Ok s' True"
    "te_evaluations s = Some (sample_queue jev_evaluation_init)" "te_clock s' = (\<lambda>_. 0)" "te_next_evaluation_at s = 0"
    "te_jev_ticker s = 0" "te_next_evaluation_id s = 1" "quoting s'"
proof (rule quote_round)
  fix q s' assume q: "lq_enqueue quote_update (te_updates deployed_engine) = Ok q ()" "lq_content q = [quote_update]"
    "processPending (deployed_engine\<lparr>te_updates := q\<rparr>) = Ok s' True" "quoting s'"
  show thesis
    by (rule that[of "deployed_engine\<lparr>te_updates := q\<rparr>" s', OF engine_run.venue_update[OF deployed_engine_run q(1)] _ q(3)])
      (use q(2,4) in \<open>simp_all add: deployed_fields quoting_def quiet_def\<close>)
qed

lemma round_drains_queues_witness:
  "\<exists>s s'. engine_run 7 [] s \<and> te_evaluations s \<noteq> None \<and> lq_content (te_updates s) = [quote_update] \<and>
     processPending s = Ok s' True \<and> lq_content (te_updates s') = []"
proof (rule quote_run)
  fix s s' assume s: "engine_run 7 [] s" "lq_content (te_updates s) = [quote_update]" "processPending s = Ok s' True"
    "te_evaluations s = Some (sample_queue jev_evaluation_init)"
  have "lq_content (te_updates s') = []" using round_drains_queues[OF s(1)] s(3) by blast
  then show ?thesis using s by (intro exI[of _ s] exI[of _ s']) simp
qed

lemma scheduled_evaluation_is_current_witness:
  "\<exists>s s' q' e. engine_run 7 [] s \<and> processPending s = Ok s' True \<and> te_evaluations s' = Some q' \<and> lq_content q' = [e] \<and>
     es_evaluation_id e = 1 \<and> acceptsEvaluation e s' \<and> es_market_features e = feature_onMarketUpdate sample_bbo"
proof (rule quote_run)
  fix s s' assume s: "engine_run 7 [] s" "processPending s = Ok s' True"
    "te_evaluations s = Some (sample_queue jev_evaluation_init)" "te_clock s' = (\<lambda>_. 0)" "te_next_evaluation_at s = 0"
    "te_jev_ticker s = 0" "te_next_evaluation_id s = 1" "quoting s'"
  have quote: "te_bbo s' 0 = sample_bbo" "\<not> te_single_order s'" using s(8) by (simp_all add: quoting_def quiet_def)
  obtain q' where q': "te_evaluations s' = Some q'" and
    "lq_content q' = lq_content (sample_queue jev_evaluation_init) \<and> te_next_evaluation_id s' = te_next_evaluation_id s \<and>
       (te_single_order s' \<and> \<not> te_venue_ready s' \<or> \<not> quotable (te_bbo s' (unat (te_jev_ticker s))) \<or>
        te_clock s' (te_ticks s' - 1) < te_next_evaluation_at s) \<or>
     (\<exists>e. lq_content q' = lq_content (sample_queue jev_evaluation_init) @ [e] \<and> es_ticker_id e = te_jev_ticker s \<and>
        es_evaluation_id e = te_next_evaluation_id s \<and> acceptsEvaluation e s' \<and>
        evaluation_shows e (te_clock s' (te_ticks s' - 2)) s')"
    using scheduled_evaluation_is_current[OF s(1-3)] by blast
  then obtain e where "lq_content q' = [e]" "es_ticker_id e = 0" "es_evaluation_id e = 1" "acceptsEvaluation e s'"
    "evaluation_shows e (te_clock s' (te_ticks s' - 2)) s'"
    using s(4-7) quote sample_quotable sample_queue_ok(2)[of jev_evaluation_init] by auto
  then show ?thesis using s(1,2) q' quote(1)
    by (intro exI[of _ s] exI[of _ s'] exI[of _ q'] exI[of _ e]) (simp add: evaluation_shows_def Let_def)
qed

section \<open>The decision on it\<close>

lemma decision_sends:
  assumes s: "quoting s" "te_latest_evaluation s 0 = 1"
  obtains q' where "handleJevDecision sample_decision s = Ok (note_event (On_decision sample_decision)
      (s\<lparr>te_requests := q', te_orders := placed 0 101 BUY 1 OPEN (order_manager_new 7)\<rparr>)) ()"
    "lq_content q' = [new_request (order_manager_new 7) 0 101 BUY 1 OPEN]"
proof -
  have f: "te_requests s = sample_queue client_request_init" "te_orders s = order_manager_new 7"
    "te_limits s = rm_limits sample_risk" "te_measurement s = None" "\<not> te_single_order s" "\<not> te_simex s"
    "te_order_quantity s = 1" "te_keeper s = quote_keeper" "mob_bbo (te_books s 0) = sample_bbo" "mf_valid (te_features s 0)"
    using s(1) quote_features by (simp_all add: quoting_def quiet_def te_bbo_def)
  have risk: "checkPreTradeRisk 0 BUY OPEN 1 (te_risk s) = Ok () ALLOWED"
    by (simp add: te_risk_def f checkPreTradeRisk_def sample_risk_def quote_keeper_def
        position_keeper_new_def position_info_init_def Let_def Qty_INVALID_def ME_MAX_TICKERS_def zero_f64_def)
  let ?r = "new_request (order_manager_new 7) 0 101 BUY 1 OPEN"
  let ?q = "sample_queue client_request_init"
  have q: "lq_inv ?q" "lq_num_elements ?q < lq_capacity ?q"
    by (simp_all add: sample_queue_ok) (simp add: sample_queue_def lf_queue_new_def)
  obtain q' where q': "lq_enqueue ?r ?q = Ok q' ()" "lq_content q' = [?r]"
    using lq_enqueue_ok[OF q, of ?r] sample_queue_ok(2)[of client_request_init] by auto
  have "rq_trace ?r = trace_init" by (simp add: new_request_def client_request_init_def)
  then have "?r\<lparr>rq_trace := trace_init\<rparr> = ?r" by (metis client_request.surjective client_request.update_convs(2))
  then have send: "sendClientRequest ?r s = Ok (s\<lparr>te_requests := q'\<rparr>) ()"
    using q'(1) by (simp add: sendClientRequest_def request_trace_def f lq_enqueue_def split: option.splits)
  have "moveOpenOrder (Some sendClientRequest) (Some (te_risk s)) 0 101 BUY 1 (te_orders s, s) =
      Ok (placed 0 101 BUY 1 OPEN (order_manager_new 7), s\<lparr>te_requests := q'\<rparr>) ()"
    using risk send
    by (simp add: moveOpenOrder_def at_order_def moveOrder_def newOrder_def ME_MAX_TICKERS_def Let_def
        f order_manager_new_def om_order_init_def Price_INVALID_def placed_def new_request_def client_request_init_def)
  then have "te_moveOpenOrder 0 101 BUY 1 s = Ok (s\<lparr>te_requests := q',
      te_orders := placed 0 101 BUY 1 OPEN (order_manager_new 7)\<rparr>) ()"
    by (simp add: te_moveOpenOrder_def with_orders_def)
  then have "handleJevDecision sample_decision s = Ok (note_event (On_decision sample_decision)
      (s\<lparr>te_requests := q', te_orders := placed 0 101 BUY 1 OPEN (order_manager_new 7)\<rparr>)) ()"
    using s(2) f by (simp add: handleJevDecision_def sample_decision_def Let_def
        ME_MAX_TICKERS_def single_order_blocks_def opposite_open_def te_bbo_def sample_bbo_def Price_INVALID_def)
  then show thesis using that q'(2) by blast
qed

lemma decision_round:
  obtains s r where "engine_run 7 [] s" "te_log [] s = [r]" "rq_type r = Request_NEW"
proof (rule quote_round)
  fix q s1 assume q: "lq_enqueue quote_update (te_updates deployed_engine) = Ok q ()"
    and round1: "processPending (deployed_engine\<lparr>te_updates := q\<rparr>) = Ok s1 True"
    and s1: "quoting s1" "te_latest_evaluation s1 0 = 1" "te_next_evaluation_at s1 > 0" "te_evaluations s1 \<noteq> None"
      "te_decisions s1 = sample_queue jev_decision_init"
  have run1: "engine_run 7 [] s1"
    by (rule engine_run.processed[OF engine_run.venue_update[OF deployed_engine_run q] round1])
  obtain qd qd' where qd: "lq_enqueue sample_decision (te_decisions s1) = Ok qd ()" "lq_peek qd = Some sample_decision"
    "updateReadIndex qd = Ok qd' ()" "lq_peek qd' = None"
    unfolding s1(5) by (rule queue_one[of sample_decision jev_decision_init])
  let ?s = "s1\<lparr>te_decisions := qd\<rparr>" and ?t = "s1\<lparr>te_decisions := qd, te_decision_trace := jd_trace sample_decision\<rparr>"
  have run: "engine_run 7 [] ?s" by (rule engine_run.worker_decision[OF run1 qd(1)])
  have "quoting ?t" using s1(1) by (simp add: quoting_def quiet_def te_bbo_def)
  then obtain q' where h: "handleJevDecision sample_decision ?t = Ok (note_event (On_decision sample_decision)
      (?t\<lparr>te_requests := q', te_orders := placed 0 101 BUY 1 OPEN (order_manager_new 7)\<rparr>)) ()"
    and q': "lq_content q' = [new_request (order_manager_new 7) 0 101 BUY 1 OPEN]"
    by (rule decision_sends) (simp add: s1(2))
  define s2 where "s2 = note_event (On_decision sample_decision)
      (?t\<lparr>te_requests := q', te_orders := placed 0 101 BUY 1 OPEN (order_manager_new 7)\<rparr>)
        \<lparr>te_decision_trace := trace_init, te_decisions := qd'\<rparr>"
  have body: "decisions_body sample_decision ?s = Ok s2 ()"
    using h qd(3) by (simp add: decisions_body_def s2_def note_event_def)
  have f: "te_decisions s2 = qd'" "te_requests s2 = q'" "te_clock s2 = (\<lambda>_. 0)" "te_next_evaluation_at s2 > 0"
    "\<not> te_single_order s2"
    using s1(1,3) by (simp_all add: s2_def note_event_def quoting_def quiet_def)
  have sched: "\<exists>s3. scheduleJevEvaluation s2 = Ok s3 False \<and> te_requests s3 = q'"
    using f by (simp add: scheduleJevEvaluation_def read_clock_def)
  then obtain s3 where s3: "scheduleJevEvaluation s2 = Ok s3 False" "te_requests s3 = q'" by blast
  have "processClientResponses ?s = Ok ?s False"
    unfolding processClientResponses_def using s1(1) by (intro drain_none) (simp add: quoting_def quiet_def queue_none)
  moreover have "processMarketUpdates ?s = Ok ?s False"
    unfolding processMarketUpdates_def using s1(1) by (intro drain_none) (simp add: quoting_def lq_peek_content)
  moreover have "processJevDecisions ?s = Ok s2 True"
    unfolding processJevDecisions_def
    by (rule drain_one[where x = sample_decision and body = decisions_body]) (simp_all add: body qd(2,4) f(1))
  ultimately have "processPending ?s = Ok s3 True" using s3(1) by (simp add: processPending_def)
  note run3 = engine_run.processed[OF run this]
  have "te_log [] s3 = [untraced (new_request (order_manager_new 7) 0 101 BUY 1 OPEN)]"
    by (simp add: te_log_def te_sent_def s3(2) q')
  moreover have "rq_type (untraced (new_request (order_manager_new 7) 0 101 BUY 1 OPEN)) = Request_NEW"
    by (simp add: untraced_def new_request_def)
  ultimately show thesis using run3 by (intro that)
qed

text \<open>The engine is configured, gets a quote, schedules an evaluation, gets its decision and sends an order.\<close>

lemma engine_requests_well_numbered_witness:
  "\<exists>s r. engine_run 7 [] s \<and> te_log [] s = [r] \<and> rq_order_id r = 1 \<and> om_run 7 (te_orders s) [r]"
proof (rule decision_round)
  fix s r assume s: "engine_run 7 [] s" "te_log [] s = [r]" "rq_type r = Request_NEW"
  have n: "news (te_log [] s) = [r]" using s(2,3) by (simp add: news_def)
  show ?thesis using engine_requests_well_numbered[OF s(1)] s(1,2) n by (intro exI[of _ s] exI[of _ r]) simp
qed

end
