(* ===== verification/Gateways.thy ===== *)
theory Gateways
  imports EngineRounds
begin

text \<open>
  The components at the other ends of the engine's queues: \<open>order_gw/order_gateway.{h,cpp}\<close>,
  \<open>market_data/market_data_consumer.{h,cpp}\<close> and \<open>strategy/jev_worker.{h,cpp}\<close>. They run without a
  log handle. What a venue or a decision provider does is a parameter: the request handler of the
  gateway acts on the gateway and on a venue state \<open>'v\<close>, and the provider is a function that returns
  a decision or throws.
\<close>

section \<open>The order gateway\<close>

record order_gateway =
  og_client_id :: client_id
  og_requests :: "client_request lf_queue option"
  og_responses :: "client_response lf_queue option"
  og_running :: bool
  og_next_outgoing :: "64 word"
  og_next_expected :: "64 word"
  og_clock :: "nat \<Rightarrow> 64 word"
  og_ticks :: nat

definition order_gateway_new :: "client_id \<Rightarrow> client_request lf_queue option \<Rightarrow> client_response lf_queue option \<Rightarrow>
    (nat \<Rightarrow> 64 word) \<Rightarrow> order_gateway" where
  "order_gateway_new c requests responses clock =
     \<lparr>og_client_id = c, og_requests = requests, og_responses = responses, og_running = False,
      og_next_outgoing = 1, og_next_expected = 1, og_clock = clock, og_ticks = 0\<rparr>"

definition og_read_clock :: "order_gateway \<Rightarrow> order_gateway \<times> 64 word" where
  "og_read_clock g = (g\<lparr>og_ticks := og_ticks g + 1\<rparr>, og_clock g (og_ticks g))"

type_synonym 'v request_handler =
  "64 word \<Rightarrow> client_request \<Rightarrow> order_gateway \<times> 'v \<Rightarrow> (order_gateway \<times> 'v, unit) outcome"

text \<open>A request that carries the stamp of its sending gets those of its receipt and of its handling.\<close>

definition stamp_at :: "nat \<Rightarrow> order_gateway \<Rightarrow> client_request \<Rightarrow> order_gateway \<times> client_request" where
  "stamp_at i g r =
     (let tr = rq_trace r in
      if pt_t tr 4 \<noteq> 0
      then let (g, now) = og_read_clock g in (g, r\<lparr>rq_trace := tr\<lparr>pt_t := (pt_t tr)(i := now)\<rparr>\<rparr>)
      else (g, r))"

definition gateway_body :: "'v request_handler option \<Rightarrow> client_request \<Rightarrow> order_gateway \<times> 'v \<Rightarrow>
    (order_gateway \<times> 'v, unit) outcome" where
  "gateway_body handler request = (\<lambda>(g, v).
     let (g, observed) = stamp_at 5 g request;
         sequence = og_next_outgoing g;
         g = g\<lparr>og_next_outgoing := sequence + 1\<rparr>
     in then_do
          (case handler of
             None \<Rightarrow> Ok (g, v) ()
           | Some h \<Rightarrow> (let (g, observed) = stamp_at 6 g observed in h sequence observed (g, v)))
          (\<lambda>(g, v) _. deref (og_requests g) (\<lambda>q.
             on_part (\<lambda>q. (g\<lparr>og_requests := Some q\<rparr>, v)) (updateReadIndex q))))"

definition gateway_processPending :: "'v request_handler option \<Rightarrow> order_gateway \<times> 'v \<Rightarrow>
    (order_gateway \<times> 'v, bool) outcome" where
  "gateway_processPending handler s =
     (if og_requests (fst s) = None then Throw s (Logic_error ''OrderGateway request queue is null'')
      else await (drain (\<lambda>(g, v). Option.bind (og_requests g) lq_peek) (gateway_body handler) False s) id)"

definition publishClientResponse :: "64 word \<Rightarrow> client_response \<Rightarrow> order_gateway \<Rightarrow> (order_gateway, unit) outcome" where
  "publishClientResponse seq_num r g =
     (case og_responses g of
        None \<Rightarrow> Throw g (Logic_error ''OrderGateway response queue is null'')
      | Some q \<Rightarrow>
          if rs_client_id r \<noteq> og_client_id g
          then Throw g (Logic_error ''OrderGateway response client id mismatch'')
          else if seq_num \<noteq> og_next_expected g
          then Throw g (Logic_error ''OrderGateway response sequence gap'')
          else then_do (on_part (\<lambda>q. g\<lparr>og_responses := Some q\<rparr>) (lq_enqueue r q))
                 (\<lambda>g _. Ok (g\<lparr>og_next_expected := og_next_expected g + 1\<rparr>) ()))"

text \<open>Whether \<open>start\<close> launches a worker; \<open>stop\<close> ends it.\<close>

definition gateway_start :: "order_gateway \<Rightarrow> order_gateway \<times> bool" where
  "gateway_start g = (if og_running g then (g, False) else (g\<lparr>og_running := True\<rparr>, True))"

definition gateway_stop :: "order_gateway \<Rightarrow> order_gateway" where
  "gateway_stop g = g\<lparr>og_running := False\<rparr>"

section \<open>The market data consumer\<close>

record market_data_consumer =
  mc_client_id :: client_id
  mc_updates :: "market_update lf_queue option"
  mc_running :: bool
  mc_started :: bool
  mc_local_receive :: "64 word"
  mc_next_expected :: "64 word"
  mc_clock :: "nat \<Rightarrow> 64 word"
  mc_ticks :: nat

definition market_data_consumer_new :: "client_id \<Rightarrow> market_update lf_queue option \<Rightarrow> (nat \<Rightarrow> 64 word) \<Rightarrow>
    market_data_consumer" where
  "market_data_consumer_new c updates clock =
     \<lparr>mc_client_id = c, mc_updates = updates, mc_running = False, mc_started = False,
      mc_local_receive = 0, mc_next_expected = 1, mc_clock = clock, mc_ticks = 0\<rparr>"

definition consumer_start :: "market_data_consumer \<Rightarrow> (market_data_consumer, unit) outcome" where
  "consumer_start m =
     (if mc_running m then Ok m ()
      else if mc_started m then Throw m (Logic_error ''MarketDataConsumer cannot be restarted'')
      else Ok (m\<lparr>mc_running := True, mc_started := True\<rparr>) ())"

definition consumer_stop :: "market_data_consumer \<Rightarrow> market_data_consumer" where
  "consumer_stop m = m\<lparr>mc_running := False\<rparr>"

definition consumer_setPollHandler :: "market_data_consumer \<Rightarrow> (market_data_consumer, unit) outcome" where
  "consumer_setPollHandler m =
     (if mc_running m then Throw m (Logic_error ''Cannot replace a running market poll handler'') else Ok m ())"

text \<open>The stamp is set on the copy in the queue, which the consumer of the queue cannot see yet.\<close>

definition publishMarketUpdate :: "market_update \<Rightarrow> market_data_consumer \<Rightarrow> (market_data_consumer, unit) outcome" where
  "publishMarketUpdate u m =
     (case mc_updates m of
        None \<Rightarrow> Throw m (Logic_error ''MarketDataConsumer queue is null'')
      | Some q \<Rightarrow>
          (case tryGetNextToWriteTo q of
             None \<Rightarrow> Abort ''terminate''
           | Some place \<Rightarrow>
               let tr = mu_trace u;
                   (m, u) =
                     (if pt_source_id tr \<noteq> 0
                      then (m\<lparr>mc_ticks := mc_ticks m + 1\<rparr>,
                            u\<lparr>mu_trace := tr\<lparr>pt_t := (pt_t tr)(2 := mc_clock m (mc_ticks m))\<rparr>\<rparr>)
                      else (m, u))
               in then_do (on_part (\<lambda>q. m\<lparr>mc_updates := Some q\<rparr>) (updateWriteIndex (lq_write_slot place u q)))
                    (\<lambda>m _. Ok (m\<lparr>mc_local_receive := mc_local_receive m + 1\<rparr>) ())))"

definition publishSequencedMarketUpdate :: "64 word \<Rightarrow> market_update \<Rightarrow> market_data_consumer \<Rightarrow>
    (market_data_consumer, unit) outcome" where
  "publishSequencedMarketUpdate seq_num u m =
     (if seq_num \<noteq> mc_next_expected m then Throw m (Logic_error ''MarketDataConsumer venue sequence gap'')
      else publishMarketUpdate u (m\<lparr>mc_next_expected := mc_next_expected m + 1\<rparr>))"

section \<open>The decision worker\<close>

record jev_worker =
  jw_states :: "jev_evaluation_state lf_queue option"
  jw_decisions :: "jev_decision lf_queue option"
  jw_running :: bool
  jw_failure_count :: "64 word"

type_synonym provider = "jev_evaluation_state \<Rightarrow> exn + jev_decision"

definition jev_worker_new :: "jev_evaluation_state lf_queue option \<Rightarrow> jev_decision lf_queue option \<Rightarrow> jev_worker" where
  "jev_worker_new states decisions =
     \<lparr>jw_states = states, jw_decisions = decisions, jw_running = False, jw_failure_count = 0\<rparr>"

definition worker_start :: "jev_worker \<Rightarrow> jev_worker \<times> bool" where
  "worker_start w = (if jw_running w then (w, False) else (w\<lparr>jw_running := True\<rparr>, True))"

definition worker_stop :: "jev_worker \<Rightarrow> jev_worker" where
  "worker_stop w = w\<lparr>jw_running := False\<rparr>"

text \<open>The deterministic provider of the replay tests.\<close>

definition mock_provider :: provider where
  "mock_provider e =
     (let net = ps_net_position (es_position e);
          bias = (if net < 0 then LONG else SHORT);
          intent = (if net = 0 then Intent_OPEN else HOLD);
          long = (if bias = LONG then round64 (3 / 4) else round64 (1 / 4))
      in Inr (jev_decision_init\<lparr>jd_evaluation_id := es_evaluation_id e, jd_ticker_id := es_ticker_id e,
           jd_bias := bias, jd_intent := intent, jd_long_probability := long,
           jd_short_probability := 1 - long,
           jd_open_probability := (if intent = Intent_OPEN then round64 (3 / 4) else round64 (1 / 10)),
           jd_close_probability := round64 (1 / 10),
           jd_hold_probability := (if intent = HOLD then round64 (4 / 5) else round64 (3 / 20)),
           jd_confidence := round64 (3 / 4)\<rparr>))"

text \<open>The first loop: it empties the queue and keeps a copy of the newest state.\<close>

definition newest_body :: "jev_evaluation_state \<Rightarrow> jev_evaluation_state lf_queue \<times> jev_evaluation_state option \<Rightarrow>
    (jev_evaluation_state lf_queue \<times> jev_evaluation_state option, unit) outcome" where
  "newest_body e = (\<lambda>(q, latest). on_part (\<lambda>q. (q, Some e)) (updateReadIndex q))"

definition finish_decision :: "jev_evaluation_state \<Rightarrow> jev_decision \<Rightarrow> jev_decision" where
  "finish_decision newest d =
     (let d = (if jd_evaluation_id d = 0 then d\<lparr>jd_evaluation_id := es_evaluation_id newest\<rparr> else d);
          d = (if jd_ticker_id d = TickerId_INVALID then d\<lparr>jd_ticker_id := es_ticker_id newest\<rparr> else d)
      in d\<lparr>jd_trace := (if jd_evaluation_id d = es_evaluation_id newest \<and> jd_ticker_id d = es_ticker_id newest
                       then es_trace newest else trace_init)\<rparr>)"

definition worker_processPending :: "(jev_evaluation_state \<Rightarrow> bool) option \<Rightarrow> provider option \<Rightarrow> jev_worker \<Rightarrow>
    (jev_worker, bool) outcome" where
  "worker_processPending accepts provider w =
     (case (jw_states w, jw_decisions w, provider) of
        (Some states, Some decisions, Some evaluate) \<Rightarrow>
          (let drained = await (drain (\<lambda>(q, _). lq_peek q) newest_body False (states, None)) id
           in map_outcome fst id
                (then_do (on_part (\<lambda>(q, latest). (w\<lparr>jw_states := Some q\<rparr>, latest)) drained)
                  (\<lambda>(w, latest) _.
                    case latest of
                      None \<Rightarrow> Ok (w, latest) False
                    | Some newest \<Rightarrow>
                        if (case accepts of None \<Rightarrow> False | Some f \<Rightarrow> \<not> f newest) then Ok (w, latest) True
                        else
                          (case evaluate newest of
                             Inl e \<Rightarrow> Ok (w\<lparr>jw_failure_count := jw_failure_count w + 1\<rparr>, latest) True
                           | Inr d \<Rightarrow>
                               on_part (\<lambda>q. (w\<lparr>jw_decisions := Some q\<rparr>, latest))
                                 (then_do (lq_enqueue (finish_decision newest d) decisions)
                                    (\<lambda>q _. Ok q True))))))
      | _ \<Rightarrow> Throw w (Logic_error ''JevWorker dependencies must not be null''))"

section \<open>Delivery in order\<close>

text \<open>What a handler of the gateway may do: publish responses, but neither touch the request queue nor
  the numbering of the requests. The handlers considered here also return.\<close>

definition well_behaved :: "(64 word \<Rightarrow> client_request \<Rightarrow> order_gateway \<Rightarrow> order_gateway) \<Rightarrow> bool" where
  "well_behaved f \<longleftrightarrow> (\<forall>n r g. og_requests (f n r g) = og_requests g \<and> og_next_outgoing (f n r g) = og_next_outgoing g)"

text \<open>A handler with a log of what it was given.\<close>

definition recording :: "(64 word \<Rightarrow> client_request \<Rightarrow> order_gateway \<Rightarrow> order_gateway) \<Rightarrow>
    (64 word \<times> client_request) list request_handler" where
  "recording f n r = (\<lambda>(g, seen). Ok (f n r g, seen @ [(n, r)]) ())"

fun numbered :: "64 word \<Rightarrow> 'a list \<Rightarrow> (64 word \<times> 'a) list" where
  "numbered n [] = []"
| "numbered n (x # xs) = (n, x) # numbered (n + 1) xs"

definition og_content :: "order_gateway \<Rightarrow> client_request list" where
  "og_content g = (case og_requests g of None \<Rightarrow> [] | Some q \<Rightarrow> lq_content q)"

definition og_good :: "order_gateway \<Rightarrow> bool" where
  "og_good g \<longleftrightarrow> (case og_requests g of None \<Rightarrow> False | Some q \<Rightarrow> lq_inv q)"

lemma stamp_at_keeps:
  "stamp_at i g r = (g', r') \<Longrightarrow> untraced r' = untraced r \<and> og_requests g' = og_requests g \<and>
     og_next_outgoing g' = og_next_outgoing g"
  by (auto simp: stamp_at_def og_read_clock_def untraced_def Let_def split: if_splits prod.splits)

lemma numbered_snoc: "numbered n (xs @ [x]) = numbered n xs @ [(n + of_nat (length xs), x)]"
  by (induction xs arbitrary: n) (simp_all add: algebra_simps)

lemma length_numbered [simp]: "length (numbered n xs) = length xs"
  by (induction n xs rule: numbered.induct) simp_all

definition deliver :: "client_request \<Rightarrow> 64 word \<times> (64 word \<times> client_request) list \<Rightarrow>
    64 word \<times> (64 word \<times> client_request) list" where
  "deliver r = (\<lambda>(n, seen). (n + 1, seen @ [(n, untraced r)]))"

definition og_view :: "order_gateway \<times> (64 word \<times> client_request) list \<Rightarrow>
    64 word \<times> (64 word \<times> client_request) list" where
  "og_view = (\<lambda>(g, seen). (og_next_outgoing g, map (map_prod id untraced) seen))"

lemma fold_deliver:
  "fold deliver rs (n, seen) = (n + of_nat (length rs), seen @ numbered n (map untraced rs))"
  by (induction rs arbitrary: n seen) (simp_all add: deliver_def algebra_simps)

lemma gateway_body_records:
  assumes "well_behaved f" "og_good g" "og_content g = r # rs"
  shows "\<exists>g' r'. gateway_body (Some (recording f)) r (g, seen) = Ok (g', seen @ [(og_next_outgoing g, r')]) () \<and>
    untraced r' = untraced r \<and> og_good g' \<and> og_content g' = rs \<and> og_next_outgoing g' = og_next_outgoing g + 1"
proof -
  obtain q where q: "og_requests g = Some q" "lq_inv q" "lq_content q = r # rs"
    using assms(2,3) by (auto simp: og_good_def og_content_def split: option.splits)
  obtain q' where q': "updateReadIndex q = Ok q' ()" "lq_inv q'" "lq_content q' = rs"
    using lq_dequeue_ok[OF q(2,3)] by auto
  obtain g1 r1 where 1: "stamp_at 5 g r = (g1, r1)" by fastforce
  let ?g2 = "g1\<lparr>og_next_outgoing := og_next_outgoing g1 + 1\<rparr>"
  obtain g3 r3 where 3: "stamp_at 6 ?g2 r1 = (g3, r3)" by fastforce
  let ?g4 = "f (og_next_outgoing g1) r3 g3"
  have "og_requests ?g4 = Some q" "og_next_outgoing ?g4 = og_next_outgoing g + 1" "untraced r3 = untraced r"
    and n: "og_next_outgoing g1 = og_next_outgoing g"
    using assms(1) stamp_at_keeps[OF 1] stamp_at_keeps[OF 3] q(1) by (auto simp: well_behaved_def)
  then show ?thesis
    using q' 3[unfolded n] by (auto simp: gateway_body_def recording_def 1 Let_def og_good_def og_content_def)
qed

lemma gateway_delivers:
  assumes "well_behaved f" "og_good g"
  shows "\<exists>g' seen. gateway_processPending (Some (recording f)) (g, []) = Ok (g', seen) (og_content g \<noteq> []) \<and>
    og_good g' \<and> og_content g' = [] \<and> og_next_outgoing g' = og_next_outgoing g + of_nat (length (og_content g)) \<and>
    map (map_prod id untraced) seen = numbered (og_next_outgoing g) (map untraced (og_content g))"
proof -
  let ?s = "(g, []) :: order_gateway \<times> (64 word \<times> client_request) list"
  have "\<exists>s'. drain (\<lambda>(g, v). Option.bind (og_requests g) lq_peek) (gateway_body (Some (recording f))) False ?s =
      Some (Ok s' (False \<or> (og_content \<circ> fst) ?s \<noteq> [])) \<and>
    (og_good \<circ> fst) s' \<and> (og_content \<circ> fst) s' = [] \<and> og_view s' = fold deliver ((og_content \<circ> fst) ?s) (og_view ?s)"
  proof (rule drain_fold)
    fix r rs and s :: "order_gateway \<times> (64 word \<times> client_request) list"
    assume "(og_good \<circ> fst) s" "(og_content \<circ> fst) s = r # rs"
    then show "\<exists>s'. gateway_body (Some (recording f)) r s = Ok s' () \<and> (og_good \<circ> fst) s' \<and> (og_content \<circ> fst) s' = rs \<and>
        og_view s' = deliver r (og_view s)"
      using gateway_body_records[OF assms(1), of "fst s" r rs "snd s"] by (cases s) (force simp: deliver_def og_view_def)
  next
    fix s :: "order_gateway \<times> (64 word \<times> client_request) list"
    assume "(og_good \<circ> fst) s"
    then show "(case s of (g, v) \<Rightarrow> Option.bind (og_requests g) lq_peek) =
        (case (og_content \<circ> fst) s of [] \<Rightarrow> None | x # _ \<Rightarrow> Some x)"
      by (cases s) (auto simp: og_good_def og_content_def lq_peek_content split: option.splits)
  qed (use assms(2) in simp)
  then obtain g' seen where d: "drain (\<lambda>(g, v). Option.bind (og_requests g) lq_peek) (gateway_body (Some (recording f))) False ?s =
      Some (Ok (g', seen) (og_content g \<noteq> []))" "og_good g'" "og_content g' = []"
      "og_view (g', seen) = fold deliver (og_content g) (og_view ?s)"
    by fastforce
  have "og_requests g \<noteq> None" using assms(2) by (auto simp: og_good_def split: option.splits)
  with d show ?thesis
    by (intro exI[of _ g'] exI[of _ seen]) (simp add: gateway_processPending_def fold_deliver og_view_def)
qed

text \<open>C34: When the gateway processes its queue, its request handler is called once for every queued
  request, in the order they were queued and with consecutive sequence numbers from the next outgoing
  one, unchanged except for trace stamps; the queue is then empty and the numbering has advanced by
  as many. This holds whatever responses the handler publishes meanwhile.\<close>

theorem gateway_hands_over_in_order:
  assumes "well_behaved f" "og_requests g = Some q" "lq_inv q"
  shows "\<exists>g' q' seen. gateway_processPending (Some (recording f)) (g, []) = Ok (g', seen) (lq_content q \<noteq> []) \<and>
    map (map_prod id untraced) seen = numbered (og_next_outgoing g) (map untraced (lq_content q)) \<and>
    og_requests g' = Some q' \<and> lq_inv q' \<and> lq_content q' = [] \<and>
    og_next_outgoing g' = og_next_outgoing g + of_nat (length (lq_content q))"
proof -
  have "og_good g" "og_content g = lq_content q" using assms(2,3) by (simp_all add: og_good_def og_content_def)
  from gateway_delivers[OF assms(1) this(1)] this(2) obtain g' seen
    where g': "gateway_processPending (Some (recording f)) (g, []) = Ok (g', seen) (lq_content q \<noteq> [])"
      "og_good g'" "og_content g' = []" "og_next_outgoing g' = og_next_outgoing g + of_nat (length (lq_content q))"
      "map (map_prod id untraced) seen = numbered (og_next_outgoing g) (map untraced (lq_content q))"
    by auto
  then show ?thesis
    by (auto simp: og_good_def og_content_def split: option.splits)
qed

section \<open>Responses and market updates are accepted in sequence\<close>

text \<open>A caller that offers messages one after the other and survives the exceptions; the result is the
  list of the messages that were accepted.\<close>

primrec offer_all :: "(64 word \<Rightarrow> 'r \<Rightarrow> 'g \<Rightarrow> ('g, unit) outcome) \<Rightarrow> (64 word \<times> 'r) list \<Rightarrow> 'g \<Rightarrow>
    ('g, (64 word \<times> 'r) list) outcome" where
  "offer_all publish [] g = Ok g []"
| "offer_all publish (a # as) g =
     (case publish (fst a) (snd a) g of
        Ok g' _ \<Rightarrow> map_outcome id (\<lambda>acc. a # acc) (offer_all publish as g')
      | Throw g' _ \<Rightarrow> offer_all publish as g'
      | Abort m \<Rightarrow> Abort m
      | Hang \<Rightarrow> Hang
      | Undef \<Rightarrow> Undef)"

text \<open>An inlet takes exactly the message that carries the expected number; a refusal has no effect.\<close>

locale sequenced_inlet =
  fixes publish :: "64 word \<Rightarrow> 'r \<Rightarrow> 'g \<Rightarrow> ('g, unit) outcome"
    and good :: "'g \<Rightarrow> bool"
    and expected :: "'g \<Rightarrow> 64 word"
    and held :: "'g \<Rightarrow> 'm list"
    and room :: "'g \<Rightarrow> nat"
    and mine :: "'g \<Rightarrow> 'r \<Rightarrow> bool"
    and plain :: "'r \<Rightarrow> 'm"
  assumes accept: "good g \<Longrightarrow> n = expected g \<Longrightarrow> mine g r \<Longrightarrow> 0 < room g \<Longrightarrow>
      \<exists>g'. publish n r g = Ok g' () \<and> good g' \<and> held g' = held g @ [plain r] \<and> expected g' = n + 1 \<and>
        room g = Suc (room g') \<and> mine g' = mine g"
    and refuse: "good g \<Longrightarrow> n \<noteq> expected g \<or> \<not> mine g r \<Longrightarrow> \<exists>e. publish n r g = Throw g e"
begin

lemma offers_in_sequence:
  assumes "good g" "length as \<le> room g"
  shows "\<exists>g' acc. offer_all publish as g = Ok g' acc \<and> good g' \<and> acc = numbered (expected g) (map snd acc) \<and>
    held g' = held g @ map (plain \<circ> snd) acc \<and> expected g' = expected g + of_nat (length acc) \<and>
    (\<forall>a \<in> set acc. a \<in> set as \<and> mine g (snd a))"
  using assms
proof (induction as arbitrary: g)
  case (Cons a as)
  show ?case
  proof (cases "fst a = expected g \<and> mine g (snd a)")
    case True
    obtain g1 where g1: "publish (fst a) (snd a) g = Ok g1 ()" "good g1" "held g1 = held g @ [plain (snd a)]"
      "expected g1 = fst a + 1" "room g = Suc (room g1)" "mine g1 = mine g"
      using accept[OF Cons.prems(1) _ conjunct2[OF True], of "fst a"] True Cons.prems(2) by auto
    obtain g' acc where IH: "offer_all publish as g1 = Ok g' acc" "good g'"
      "acc = numbered (expected g1) (map snd acc)" "held g' = held g1 @ map (plain \<circ> snd) acc"
      "expected g' = expected g1 + of_nat (length acc)" "\<forall>a \<in> set acc. a \<in> set as \<and> mine g1 (snd a)"
      using Cons.IH[OF g1(2)] g1(5) Cons.prems(2) by auto
    show ?thesis
    proof (intro exI conjI)
      show "offer_all publish (a # as) g = Ok g' (a # acc)" using g1(1) IH(1) by simp
      show "a # acc = numbered (expected g) (map snd (a # acc))" using IH(3) g1(4) True by (cases a) simp
    qed (use IH g1 True in \<open>auto simp: algebra_simps\<close>)
  next
    case False
    then obtain e where "publish (fst a) (snd a) g = Throw g e"
      using refuse[OF Cons.prems(1)] by blast
    then show ?thesis using Cons.IH[OF Cons.prems(1)] Cons.prems(2) by auto
  qed
qed simp

end

definition inlet_room :: "'a lf_queue option \<Rightarrow> nat" where
  "inlet_room q = (case q of None \<Rightarrow> 0 | Some q \<Rightarrow> lq_capacity q - lq_num_elements q)"

definition inlet_ok :: "'a lf_queue option \<Rightarrow> bool" where
  "inlet_ok q = (case q of None \<Rightarrow> False | Some q \<Rightarrow> lq_inv q)"

definition inlet_held :: "('a \<Rightarrow> 'b) \<Rightarrow> 'a lf_queue option \<Rightarrow> 'b list" where
  "inlet_held f q = (case q of None \<Rightarrow> [] | Some q \<Rightarrow> map f (lq_content q))"

definition untraced_update :: "market_update \<Rightarrow> market_update" where
  "untraced_update u = u\<lparr>mu_trace := trace_init\<rparr>"

lemma inlet_enqueue:
  assumes "inlet_ok (Some q)" "0 < inlet_room (Some q)"
  shows "\<exists>q'. lq_enqueue x q = Ok q' () \<and> inlet_ok (Some q') \<and> inlet_held f (Some q') = inlet_held f (Some q) @ [f x] \<and>
    inlet_room (Some q) = Suc (inlet_room (Some q'))"
proof -
  have "lq_inv q" "lq_num_elements q < lq_capacity q" using assms by (simp_all add: inlet_ok_def inlet_room_def)
  from lq_enqueue_ok[OF this, of x] obtain q' where q': "lq_enqueue x q = Ok q' ()" "lq_inv q'"
    "lq_content q' = lq_content q @ [x]" "lq_capacity q' = lq_capacity q"
    by blast
  have "length (lq_content q') = Suc (length (lq_content q))" using q'(3) by simp
  then have "lq_num_elements q' = Suc (lq_num_elements q)" by simp
  with q' show ?thesis using assms(2) by (simp add: inlet_ok_def inlet_held_def inlet_room_def)
qed

interpretation gateway: sequenced_inlet publishClientResponse "\<lambda>g. inlet_ok (og_responses g)" og_next_expected
    "\<lambda>g. inlet_held id (og_responses g)" "\<lambda>g. inlet_room (og_responses g)"
    "\<lambda>g r. rs_client_id r = og_client_id g" id
proof (unfold_locales, goal_cases)
  case (1 g n r)
  then obtain q where q: "og_responses g = Some q" by (auto simp: inlet_room_def split: option.splits)
  with 1 show ?case
    using inlet_enqueue[of q r id] by (auto simp: publishClientResponse_def)
next
  case (2 g n r)
  then obtain q where q: "og_responses g = Some q" by (auto simp: inlet_ok_def split: option.splits)
  with 2 show ?case by (auto simp: publishClientResponse_def)
qed

interpretation consumer: sequenced_inlet publishSequencedMarketUpdate "\<lambda>m. inlet_ok (mc_updates m)" mc_next_expected
    "\<lambda>m. inlet_held untraced_update (mc_updates m)" "\<lambda>m. inlet_room (mc_updates m)"
    "\<lambda>m u. True" untraced_update
proof (unfold_locales, goal_cases)
  case (1 m n u)
  then obtain q where q: "mc_updates m = Some q" by (auto simp: inlet_room_def split: option.splits)
  then have "0 < inlet_room (Some q)" "inlet_ok (Some q)" using 1 by simp_all
  then have free: "tryGetNextToWriteTo q = Some (lq_next_write q)"
    by (simp add: tryGetNextToWriteTo_def lq_isFull_def inlet_room_def)
  show ?case
  proof (cases "pt_source_id (mu_trace u) = 0")
    case True
    from inlet_enqueue[OF \<open>inlet_ok (Some q)\<close> \<open>0 < inlet_room (Some q)\<close>, of u untraced_update] show ?thesis
      using 1 q True free
      by (auto simp: publishSequencedMarketUpdate_def publishMarketUpdate_def lq_enqueue_def)
  next
    case False
    let ?u = "u\<lparr>mu_trace := mu_trace u\<lparr>pt_t := (pt_t (mu_trace u))(2 := mc_clock m (mc_ticks m))\<rparr>\<rparr>"
    have "untraced_update ?u = untraced_update u" by (simp add: untraced_update_def)
    with inlet_enqueue[OF \<open>inlet_ok (Some q)\<close> \<open>0 < inlet_room (Some q)\<close>, of ?u untraced_update] show ?thesis
      using 1 q False free
      by (auto simp: publishSequencedMarketUpdate_def publishMarketUpdate_def lq_enqueue_def)
  qed
next
  case (2 m n u)
  then show ?case by (simp add: publishSequencedMarketUpdate_def)
qed

text \<open>C26: Whatever responses a venue offers to the gateway and with whatever numbers, none that is out
  of sequence or for another client gets through: the queue receives, after what it held, exactly
  the accepted ones, and these carry the consecutive numbers from the expected one.\<close>

theorem responses_accepted_in_sequence:
  assumes "og_responses g = Some q" "lq_inv q" "lq_num_elements q + length as \<le> lq_capacity q"
  shows "\<exists>g' q' acc. offer_all publishClientResponse as g = Ok g' acc \<and> og_responses g' = Some q' \<and> lq_inv q' \<and>
    lq_content q' = lq_content q @ map snd acc \<and> acc = numbered (og_next_expected g) (map snd acc) \<and>
    og_next_expected g' = og_next_expected g + of_nat (length acc) \<and>
    (\<forall>a \<in> set acc. a \<in> set as \<and> rs_client_id (snd a) = og_client_id g)"
proof -
  have "inlet_ok (og_responses g)" "length as \<le> inlet_room (og_responses g)"
    using assms by (simp_all add: inlet_ok_def inlet_room_def)
  from gateway.offers_in_sequence[OF this] obtain g' acc where a: "offer_all publishClientResponse as g = Ok g' acc"
    "inlet_ok (og_responses g')" "acc = numbered (og_next_expected g) (map snd acc)"
    "inlet_held id (og_responses g') = inlet_held id (og_responses g) @ map (id \<circ> snd) acc"
    "og_next_expected g' = og_next_expected g + of_nat (length acc)"
    "\<forall>a \<in> set acc. a \<in> set as \<and> rs_client_id (snd a) = og_client_id g"
    by blast
  obtain q' where "og_responses g' = Some q'" using a(2) by (auto simp: inlet_ok_def split: option.splits)
  with a show ?thesis using assms(1) by (intro exI[of _ g'] exI[of _ q'] exI[of _ acc]) (simp add: inlet_ok_def inlet_held_def)
qed

lemma updates_accepted_in_sequence:
  assumes "mc_updates m = Some q" "lq_inv q" "lq_num_elements q + length as \<le> lq_capacity q"
  shows "\<exists>m' q' acc. offer_all publishSequencedMarketUpdate as m = Ok m' acc \<and> mc_updates m' = Some q' \<and> lq_inv q' \<and>
    map untraced_update (lq_content q') = map untraced_update (lq_content q @ map snd acc) \<and>
    acc = numbered (mc_next_expected m) (map snd acc)"
proof -
  have "inlet_ok (mc_updates m)" "length as \<le> inlet_room (mc_updates m)"
    using assms by (simp_all add: inlet_ok_def inlet_room_def)
  from consumer.offers_in_sequence[OF this] obtain m' acc where a: "offer_all publishSequencedMarketUpdate as m = Ok m' acc"
    "inlet_ok (mc_updates m')" "acc = numbered (mc_next_expected m) (map snd acc)"
    "inlet_held untraced_update (mc_updates m') = inlet_held untraced_update (mc_updates m) @ map (untraced_update \<circ> snd) acc"
    by blast
  obtain q' where "mc_updates m' = Some q'" using a(2) by (auto simp: inlet_ok_def split: option.splits)
  with a show ?thesis using assms(1) by (intro exI[of _ m'] exI[of _ q'] exI[of _ acc]) (simp add: inlet_ok_def inlet_held_def)
qed

definition sample_gateway :: order_gateway where
  "sample_gateway = order_gateway_new 7 (Some (sample_queue client_request_init)) (Some (sample_queue client_response_init)) (\<lambda>_. 0)"

lemma sample_queue_size: "lq_capacity (sample_queue x) = 4" "lq_num_elements (sample_queue x) = 0"
  by (simp_all add: sample_queue_def lf_queue_new_def)

lemma gateway_hands_over_in_order_witness:
  "\<exists>q g' seen. lq_content q = [client_request_init] \<and>
     gateway_processPending (Some (recording (\<lambda>n r g. g))) (sample_gateway\<lparr>og_requests := Some q\<rparr>, []) = Ok (g', seen) True \<and>
     map fst seen = [1]"
proof -
  obtain q where q: "lq_inv q" "lq_content q = [client_request_init]"
    using lq_enqueue_ok[OF sample_queue_ok(1), of client_request_init client_request_init]
    by (auto simp: sample_queue_size sample_queue_ok)
  let ?g = "sample_gateway\<lparr>og_requests := Some q\<rparr>"
  have "well_behaved (\<lambda>n r g. g)" by (simp add: well_behaved_def)
  from gateway_hands_over_in_order[OF this, of ?g q] q(1) obtain g' seen where
    g': "gateway_processPending (Some (recording (\<lambda>n r g. g))) (?g, []) = Ok (g', seen) (lq_content q \<noteq> [])"
    "map (map_prod id untraced) seen = numbered (og_next_outgoing ?g) (map untraced (lq_content q))"
    by auto
  have "map fst seen = map fst (map (map_prod id untraced) seen)" by simp
  also have "\<dots> = [1]" unfolding g'(2) q(2) by (simp add: sample_gateway_def order_gateway_new_def)
  finally show ?thesis using g'(1) q(2) by auto
qed

lemma responses_accepted_in_sequence_witness:
  "\<exists>g' q' acc. offer_all publishClientResponse [(1, client_response_init\<lparr>rs_client_id := 7\<rparr>), (3, client_response_init)] sample_gateway =
       Ok g' acc \<and> og_responses g' = Some q' \<and> lq_content q' = map snd acc \<and> acc = numbered 1 (map snd acc)"
  using responses_accepted_in_sequence[of sample_gateway "sample_queue client_response_init"
      "[(1, client_response_init\<lparr>rs_client_id := 7\<rparr>), (3, client_response_init)]"]
  by (auto simp: sample_gateway_def order_gateway_new_def sample_queue_ok sample_queue_size)

section \<open>The worker answers the newest evaluation\<close>

lemma fold_newest: "fold (\<lambda>e _. Some e) es l = (if es = [] then l else Some (last es))"
  by (induction es arbitrary: l) auto

lemma worker_drains:
  assumes "lq_inv q"
  shows "\<exists>q'. drain (\<lambda>(q, _). lq_peek q) newest_body False (q, None) =
      Some (Ok (q', if lq_content q = [] then None else Some (last (lq_content q))) (lq_content q \<noteq> [])) \<and>
    lq_inv q' \<and> lq_content q' = []"
proof -
  let ?s = "(q, None) :: jev_evaluation_state lf_queue \<times> jev_evaluation_state option"
  have "\<exists>s'. drain (\<lambda>(q, _). lq_peek q) newest_body False ?s = Some (Ok s' (False \<or> (lq_content \<circ> fst) ?s \<noteq> [])) \<and>
    (lq_inv \<circ> fst) s' \<and> (lq_content \<circ> fst) s' = [] \<and> snd s' = fold (\<lambda>e _. Some e) ((lq_content \<circ> fst) ?s) (snd ?s)"
  proof (rule drain_fold)
    fix e es and s :: "jev_evaluation_state lf_queue \<times> jev_evaluation_state option"
    assume "(lq_inv \<circ> fst) s" "(lq_content \<circ> fst) s = e # es"
    then show "\<exists>s'. newest_body e s = Ok s' () \<and> (lq_inv \<circ> fst) s' \<and> (lq_content \<circ> fst) s' = es \<and> snd s' = Some e"
      using lq_dequeue_ok[of "fst s" e es] by (cases s) (auto simp: newest_body_def)
  qed (use assms in \<open>auto simp: lq_peek_content split: prod.splits\<close>)
  then show ?thesis by (auto simp: fold_newest split: if_splits)
qed

definition worker_asks :: "(jev_evaluation_state \<Rightarrow> bool) option \<Rightarrow> jev_evaluation_state \<Rightarrow> bool" where
  "worker_asks accepts e = (case accepts of None \<Rightarrow> True | Some f \<Rightarrow> f e)"

text \<open>The provider's answer, if it is asked at all.\<close>

definition worker_answer :: "(jev_evaluation_state \<Rightarrow> bool) option \<Rightarrow> provider \<Rightarrow> jev_evaluation_state list \<Rightarrow>
    (exn + jev_decision) option" where
  "worker_answer accepts evaluate es =
     (if es \<noteq> [] \<and> worker_asks accepts (last es) then Some (evaluate (last es)) else None)"

lemma worker_answers:
  assumes "jw_states w = Some qs" "lq_inv qs" "jw_decisions w = Some qd" "lq_inv qd"
    "lq_num_elements qd < lq_capacity qd"
  shows "\<exists>w' qs' qd'. worker_processPending accepts (Some evaluate) w = Ok w' (lq_content qs \<noteq> []) \<and>
    jw_states w' = Some qs' \<and> lq_inv qs' \<and> lq_content qs' = [] \<and> jw_decisions w' = Some qd' \<and> lq_inv qd' \<and>
    lq_content qd' = lq_content qd @
      (case worker_answer accepts evaluate (lq_content qs) of
         Some (Inr d) \<Rightarrow> [finish_decision (last (lq_content qs)) d] | _ \<Rightarrow> []) \<and>
    jw_failure_count w' = jw_failure_count w +
      (case worker_answer accepts evaluate (lq_content qs) of Some (Inl e) \<Rightarrow> 1 | _ \<Rightarrow> 0) \<and>
    (\<forall>d. lq_content qd' = lq_content qd @ [d] \<longrightarrow> jd_trace d = trace_init \<or>
       jd_evaluation_id d = es_evaluation_id (last (lq_content qs)) \<and> jd_ticker_id d = es_ticker_id (last (lq_content qs)))"
proof -
  obtain qs' where qs': "drain (\<lambda>(q, _). lq_peek q) newest_body False (qs, None) =
      Some (Ok (qs', if lq_content qs = [] then None else Some (last (lq_content qs))) (lq_content qs \<noteq> []))"
    "lq_inv qs'" "lq_content qs' = []"
    using worker_drains[OF assms(2)] by blast
  have ids: "jd_trace (finish_decision e d) = trace_init \<or>
      jd_evaluation_id (finish_decision e d) = es_evaluation_id e \<and> jd_ticker_id (finish_decision e d) = es_ticker_id e"
    for e d by (simp add: finish_decision_def Let_def)
  have asks: "(case accepts of None \<Rightarrow> False | Some f \<Rightarrow> \<not> f e) = (\<not> worker_asks accepts e)" for e
    by (simp add: worker_asks_def split: option.split)
  let ?w = "w\<lparr>jw_states := Some qs'\<rparr>"
  consider "lq_content qs = []" | "lq_content qs \<noteq> []" "\<not> worker_asks accepts (last (lq_content qs))"
    | e where "lq_content qs \<noteq> []" "worker_asks accepts (last (lq_content qs))" "evaluate (last (lq_content qs)) = Inl e"
    | d where "lq_content qs \<noteq> []" "worker_asks accepts (last (lq_content qs))" "evaluate (last (lq_content qs)) = Inr d"
    by (cases "evaluate (last (lq_content qs))") blast+
  then show ?thesis
  proof cases
    case 1
    then have "worker_processPending accepts (Some evaluate) w = Ok ?w False"
      using assms qs'(1) by (simp add: worker_processPending_def asks)
    with 1 assms qs'(2,3) show ?thesis by (intro exI[of _ ?w] exI[of _ qs'] exI[of _ qd]) (simp add: worker_answer_def)
  next
    case 2
    then have "worker_processPending accepts (Some evaluate) w = Ok ?w True"
      using assms qs'(1) by (simp add: worker_processPending_def asks)
    with 2 assms qs'(2,3) show ?thesis by (intro exI[of _ ?w] exI[of _ qs'] exI[of _ qd]) (simp add: worker_answer_def)
  next
    case 3
    then have "worker_processPending accepts (Some evaluate) w = Ok (?w\<lparr>jw_failure_count := jw_failure_count w + 1\<rparr>) True"
      using 3 assms qs'(1) by (simp add: worker_processPending_def asks)
    with 3 assms qs'(2,3) show ?thesis
      by (intro exI[of _ "?w\<lparr>jw_failure_count := jw_failure_count w + 1\<rparr>"] exI[of _ qs'] exI[of _ qd]) (simp add: worker_answer_def)
  next
    case 4
    obtain qd' where q: "lq_enqueue (finish_decision (last (lq_content qs)) d) qd = Ok qd' ()" "lq_inv qd'"
      "lq_content qd' = lq_content qd @ [finish_decision (last (lq_content qs)) d]"
      using lq_enqueue_ok[OF assms(4,5)] by blast
    have "worker_processPending accepts (Some evaluate) w = Ok (?w\<lparr>jw_decisions := Some qd'\<rparr>) True"
      using 4 assms qs'(1) q(1) by (simp add: worker_processPending_def asks)
    with 4 assms qs'(2,3) q(2,3) ids show ?thesis
      by (intro exI[of _ "?w\<lparr>jw_decisions := Some qd'\<rparr>"] exI[of _ qs'] exI[of _ qd']) (simp add: worker_answer_def)
  qed
qed

text \<open>When the decision worker processes its queue it takes every pending evaluation but asks the
  provider at most once, about the newest one and only if the filter accepts it. The provider's
  decision is queued with the missing ids filled in and with the trace of that evaluation only if
  it answers it; an exception of the provider is counted and queues nothing.\<close>

theorem worker_answers_newest:
  assumes "jw_states w = Some qs" "lq_inv qs" "jw_decisions w = Some qd" "lq_inv qd"
    "lq_num_elements qd < lq_capacity qd"
  shows "\<exists>w' qs' qd'. worker_processPending accepts (Some evaluate) w = Ok w' (lq_content qs \<noteq> []) \<and>
    jw_states w' = Some qs' \<and> lq_inv qs' \<and> lq_content qs' = [] \<and> jw_decisions w' = Some qd' \<and> lq_inv qd' \<and>
    lq_content qd' = lq_content qd @
      (case worker_answer accepts evaluate (lq_content qs) of
         Some (Inr d) \<Rightarrow> [finish_decision (last (lq_content qs)) d] | _ \<Rightarrow> []) \<and>
    jw_failure_count w' = jw_failure_count w +
      (case worker_answer accepts evaluate (lq_content qs) of Some (Inl e) \<Rightarrow> 1 | _ \<Rightarrow> 0) \<and>
    (\<forall>d. lq_content qd' = lq_content qd @ [d] \<longrightarrow> jd_trace d = trace_init \<or>
       jd_evaluation_id d = es_evaluation_id (last (lq_content qs)) \<and> jd_ticker_id d = es_ticker_id (last (lq_content qs)))"
  using worker_answers[OF assms] .

definition sample_evaluation :: jev_evaluation_state where
  "sample_evaluation = undefined\<lparr>es_evaluation_id := 5, es_ticker_id := 0\<rparr>"

lemma worker_answers_newest_witness:
  "\<exists>q w' qd'. lq_content q = [sample_evaluation] \<and>
     worker_processPending None (Some mock_provider) (jev_worker_new (Some q) (Some (sample_queue jev_decision_init))) = Ok w' True \<and>
     jw_decisions w' = Some qd' \<and> map jd_evaluation_id (lq_content qd') = [5]"
proof -
  let ?w = "\<lambda>q. jev_worker_new (Some q) (Some (sample_queue jev_decision_init))"
  obtain q where q: "lq_inv q" "lq_content q = [sample_evaluation]"
    using lq_enqueue_ok[OF sample_queue_ok(1), of sample_evaluation sample_evaluation]
    by (auto simp: sample_queue_size sample_queue_ok)
  have w: "jw_states (?w q) = Some q" "jw_decisions (?w q) = Some (sample_queue jev_decision_init)"
    by (simp_all add: jev_worker_new_def)
  have room: "lq_num_elements (sample_queue jev_decision_init) < lq_capacity (sample_queue jev_decision_init)"
    by (simp add: sample_queue_size)
  obtain d where d: "mock_provider sample_evaluation = Inr d" "jd_evaluation_id d = 5"
    by (auto simp: mock_provider_def Let_def sample_evaluation_def)
  then have "jd_evaluation_id (finish_decision sample_evaluation d) = 5" by (simp add: finish_decision_def Let_def)
  with worker_answers_newest[OF w(1) q(1) w(2) sample_queue_ok(1) room, of None mock_provider] d(1) q(2)
  obtain w' qd' where "worker_processPending None (Some mock_provider) (?w q) = Ok w' True" "jw_decisions w' = Some qd'"
    "lq_content qd' = [finish_decision sample_evaluation d]"
    by (force simp: worker_answer_def sample_queue_ok worker_asks_def)
  with q(2) \<open>jd_evaluation_id (finish_decision sample_evaluation d) = 5\<close> show ?thesis
    by (intro exI[of _ q] exI[of _ w'] exI[of _ qd']) (simp add: worker_answer_def)
qed

end
