(* ===== verification/Doubles.thy ===== *)
theory Doubles
  imports Binary64 Decimal
begin

text \<open>
  A \<open>double\<close> as the 64 bits that store it, for the code that hashes the bits and for the numbers
  that arrive as text. \<open>f64_of_bits\<close> is the value of a bit pattern, \<open>bits_of_rat\<close> the pattern of a
  finite value, \<open>stod\<close> the conversion of \<open>std::stod\<close> (decimal and hexadecimal numbers, infinities
  and NaN, \<open>invalid_argument\<close> and \<open>out_of_range\<close>).
\<close>

section \<open>Bit patterns\<close>

type_synonym double = "64 word"

definition f64_of_bits :: "double \<Rightarrow> f64" where
  "f64_of_bits w =
     (let neg = bit w 63;
          e = unat w div 2 ^ 52 mod 2 ^ 11;
          m = unat w mod 2 ^ 52
      in if e = 2047 then (if m \<noteq> 0 then NaN else if neg then NegInf else PosInf)
         else let x = (if e = 0 then of_nat m * pow2 (-1074) else of_nat (2 ^ 52 + m) * pow2 (int e - 1075))
              in Fin (if neg then - x else x))"

text \<open>The pattern of a representable value that is not negative, and its negation.\<close>

definition bits_of_rat :: "bool \<Rightarrow> rat \<Rightarrow> double" where
  "bits_of_rat neg x =
     (let e = (if x = 0 then -1022 else max (exponent2 x) (-1022));
          m = \<lfloor>x / pow2 (e - 52)\<rfloor>
      in of_int ((e + 1022) * 2 ^ 52 + m) OR (if neg then 2 ^ 63 else 0))"

definition inf_bits :: double where "inf_bits = 0x7ff0000000000000"

definition nan_bits :: double where "nan_bits = 0x7ff8000000000000"

text \<open>The comparison \<open>==\<close> of two doubles.\<close>

definition d_eq :: "double \<Rightarrow> double \<Rightarrow> bool" where
  "d_eq a b \<longleftrightarrow> f64_of_bits a = f64_of_bits b \<and> f64_of_bits a \<noteq> NaN"

section \<open>\<open>std::stod\<close>\<close>

definition ascii_lower :: "char \<Rightarrow> char" where
  "ascii_lower c = (let n = of_char c :: nat in if 65 \<le> n \<and> n \<le> 90 then char_of (n + 32) else c)"

definition is_hex :: "char \<Rightarrow> bool" where
  "is_hex c \<longleftrightarrow> is_digit c \<or> (let n = of_char (ascii_lower c) :: nat in 97 \<le> n \<and> n \<le> 102)"

definition hex_val :: "char \<Rightarrow> nat" where
  "hex_val c = (if is_digit c then digit_val c else of_char (ascii_lower c) - 87)"

definition is_prefix_nocase :: "string \<Rightarrow> string \<Rightarrow> bool" where
  "is_prefix_nocase p s \<longleftrightarrow> map ascii_lower (take (length p) s) = p"

text \<open>An exponent part: the marker, an optional sign and at least one digit; otherwise there is none.\<close>

definition exponent_part :: "char \<Rightarrow> string \<Rightarrow> int" where
  "exponent_part marker s =
     (case s of
        [] \<Rightarrow> 0
      | c # r \<Rightarrow>
          if ascii_lower c \<noteq> marker then 0
          else let neg = (r \<noteq> [] \<and> hd r = CHR ''-'');
                   ds = takeWhile is_digit (if r \<noteq> [] \<and> (hd r = CHR ''-'' \<or> hd r = CHR ''+'') then tl r else r)
               in (if neg then - int (digits_val 0 ds) else int (digits_val 0 ds)))"

text \<open>Digits with an optional point; \<open>None\<close> when there is no digit. The result has the digits, the
  number of them after the point, and the rest of the text.\<close>

definition mantissa_part :: "(char \<Rightarrow> bool) \<Rightarrow> string \<Rightarrow> (string \<times> nat \<times> string) option" where
  "mantissa_part digit s =
     (let whole = takeWhile digit s; r = dropWhile digit s;
          frac = (if r \<noteq> [] \<and> hd r = CHR ''.'' then takeWhile digit (tl r) else []);
          rest = (if r \<noteq> [] \<and> hd r = CHR ''.'' then dropWhile digit (tl r) else r)
      in if whole @ frac = [] then None else Some (whole @ frac, length frac, rest))"

definition decimal_number :: "string \<Rightarrow> rat option" where
  "decimal_number s =
     map_option (\<lambda>(ds, k, rest).
        let e = exponent_part (CHR ''e'') rest - int k; m = of_nat (digits_val 0 ds)
        in if 0 \<le> e then m * 10 ^ nat e else m / 10 ^ nat (- e))
      (mantissa_part is_digit s)"

definition hex_number :: "string \<Rightarrow> rat option" where
  "hex_number s =
     map_option (\<lambda>(ds, k, rest). of_nat (foldl (\<lambda>a c. 16 * a + hex_val c) 0 ds) *
        pow2 (exponent_part (CHR ''p'') rest - 4 * int k))
      (mantissa_part is_hex s)"

text \<open>Rounding to the format: a result beyond the largest double, and one below the smallest normal
  double that is not exact, set \<open>ERANGE\<close>, which \<open>std::stod\<close> turns into \<open>out_of_range\<close>.\<close>

definition tiny :: "rat \<Rightarrow> bool" where
  "tiny x \<longleftrightarrow> (let q = exponent2 x - 52 in of_int (round_even (x / pow2 q)) * pow2 q < pow2 (-1022))"

definition double_of_rat :: "bool \<Rightarrow> rat \<Rightarrow> exn + double" where
  "double_of_rat neg x =
     (let y = nearest x
      in if x \<noteq> 0 \<and> (pow2 1024 \<le> y \<or> (tiny x \<and> y \<noteq> x)) then Inl (Out_of_range ''stod'')
         else Inr (bits_of_rat neg y))"

definition stod :: "string \<Rightarrow> exn + double" where
  "stod s =
     (let r = dropWhile is_space s;
          neg = (r \<noteq> [] \<and> hd r = CHR ''-'');
          r = (if r \<noteq> [] \<and> (hd r = CHR ''-'' \<or> hd r = CHR ''+'') then tl r else r);
          sign = (if neg then 2 ^ 63 else 0)
      in if is_prefix_nocase ''inf'' r then Inr (inf_bits OR sign)
         else if is_prefix_nocase ''nan'' r then Inr (nan_bits OR sign)
         else
           (case (if is_prefix_nocase ''0x'' r then hex_number (drop 2 r) else None) of
              Some x \<Rightarrow> double_of_rat neg x
            | None \<Rightarrow>
                (case decimal_number r of
                   Some x \<Rightarrow> double_of_rat neg x
                 | None \<Rightarrow> Inl (Invalid_argument ''stod''))))"

section \<open>The patterns of a value\<close>

text \<open>A price is canonical when its value determines its bits: it is neither a NaN nor the negative
  zero.\<close>

definition canonical :: "double \<Rightarrow> bool" where
  "canonical w \<longleftrightarrow> f64_of_bits w \<noteq> NaN \<and> w \<noteq> 2 ^ 63"

text \<open>The three fields of a pattern.\<close>

definition exp_field :: "double \<Rightarrow> nat" where "exp_field w = unat w div 2 ^ 52 mod 2 ^ 11"

definition man_field :: "double \<Rightarrow> nat" where "man_field w = unat w mod 2 ^ 52"

definition magnitude :: "nat \<Rightarrow> nat \<Rightarrow> rat" where
  "magnitude e m = (if e = 0 then of_nat m * pow2 (-1074) else of_nat (2 ^ 52 + m) * pow2 (int e - 1075))"

lemma f64_of_bits_fields:
  "f64_of_bits w =
     (if exp_field w = 2047 then (if man_field w \<noteq> 0 then NaN else if bit w 63 then NegInf else PosInf)
      else Fin (if bit w 63 then - magnitude (exp_field w) (man_field w) else magnitude (exp_field w) (man_field w)))"
  by (simp add: f64_of_bits_def Let_def exp_field_def man_field_def magnitude_def)

lemma man_field_less: "man_field w < 2 ^ 52"
  by (simp add: man_field_def)

lemma pattern_eqI:
  assumes "bit v 63 = bit w 63" "exp_field v = exp_field w" "man_field v = man_field w"
  shows "v = (w :: double)"
proof -
  have split: "unat w = (if bit w 63 then 2 ^ 63 else 0) + exp_field w * 2 ^ 52 + man_field w" for w :: double
  proof -
    have "unat w < 2 ^ 64" using unsigned_less[of w, where ?'a = nat] by simp
    then have "unat w div 2 ^ 63 < 2" by simp
    moreover have "bit w 63 \<longleftrightarrow> odd (unat w div 2 ^ 63)"
      using bit_iff_odd[of "unat w" 63] by (simp add: bit_unsigned_iff)
    ultimately have "(if bit w 63 then 2 ^ 63 else 0) = unat w div 2 ^ 63 * 2 ^ 63" by (auto simp: odd_iff_mod_2_eq_one)
    moreover have "unat w = unat w div 2 ^ 63 * 2 ^ 63 + unat w mod 2 ^ 63" by simp
    moreover have "unat w mod 2 ^ 63 = exp_field w * 2 ^ 52 + man_field w"
      using mod_mult2_eq[of "unat w" "2 ^ 52" "2 ^ 11"] by (simp add: exp_field_def man_field_def)
    ultimately show ?thesis by linarith
  qed
  have "unat v = unat w" using split[of v] split[of w] assms by simp
  then show ?thesis by (simp add: word_eq_iff_unsigned[where ?'a = nat])
qed

lemma magnitude_bounds:
  assumes "m < 2 ^ 52"
  shows "e \<noteq> 0 \<Longrightarrow> pow2 (int e - 1023) \<le> magnitude e m" "magnitude e m < pow2 (int e - 1022)" "0 \<le> magnitude e m"
proof -
  have m: "of_nat m < (2 :: rat) ^ 52" using assms by (metis of_nat_less_iff of_nat_numeral of_nat_power)
  have s: "pow2 (52 + k) = 2 ^ 52 * pow2 k" for k by (simp add: pow2_add pow2_nat[of 52, simplified])
  show "pow2 (int e - 1023) \<le> magnitude e m" if "e \<noteq> 0"
    using that s[of "int e - 1075"] by (simp add: magnitude_def algebra_simps)
  show "magnitude e m < pow2 (int e - 1022)"
  proof (cases "e = 0")
    case True
    have "of_nat m * pow2 (-1074) < 2 ^ 52 * pow2 (-1074)" using m by (intro mult_strict_right_mono) auto
    then show ?thesis using True s[of "-1074"] by (simp add: magnitude_def)
  next
    case False
    have "of_nat (2 ^ 52 + m) * pow2 (int e - 1075) < (2 * 2 ^ 52) * pow2 (int e - 1075)"
      using m by (intro mult_strict_right_mono) auto
    also have "\<dots> = pow2 (int e - 1022)"
      using s[of "int e - 1075"] s[of "int e - 1074"] pow2_add[of 1 "int e - 1023"]
      by (simp add: algebra_simps pow2_nat[of 1, simplified])
    finally show ?thesis using False by (simp add: magnitude_def)
  qed
  show "0 \<le> magnitude e m" by (simp add: magnitude_def)
qed

lemma magnitude_inj:
  assumes "m < 2 ^ 52" "m' < 2 ^ 52" "magnitude e m = magnitude e' m'"
  shows "e = e' \<and> m = m'"
proof -
  have less: False if "e < e'" "magnitude e m = magnitude e' m'" "m < 2 ^ 52" "m' < 2 ^ 52" for e e' m m'
  proof -
    have "magnitude e m < pow2 (int e - 1022)" using magnitude_bounds(2)[OF that(3)] .
    also have "\<dots> \<le> pow2 (int e' - 1023)" using that(1) by simp
    also have "\<dots> \<le> magnitude e' m'" using magnitude_bounds(1)[OF that(4), of e'] that(1) by simp
    finally show False using that(2) by simp
  qed
  have "e = e'" using less[of e e' m m'] less[of e' e m' m] assms by (metis linorder_neqE_nat)
  moreover from this assms(3) have "of_nat m = (of_nat m' :: rat)"
    by (cases "e = 0") (simp_all add: magnitude_def)
  ultimately show ?thesis by simp
qed

lemma magnitude_0:
  assumes "m < 2 ^ 52"
  shows "magnitude e m = 0 \<longleftrightarrow> e = 0 \<and> m = 0"
proof
  assume "magnitude e m = 0"
  with assms show "e = 0 \<and> m = 0" using magnitude_inj[of m 0 e 0] by (simp add: magnitude_def[of 0 0])
qed (simp add: magnitude_def)

lemma canonical_inj:
  assumes "canonical v" "canonical w" "f64_of_bits v = f64_of_bits w"
  shows "v = w"
proof -
  have zero: "u = 2 ^ 63" if "bit u 63" "magnitude (exp_field u) (man_field u) = 0" for u :: double
  proof (rule pattern_eqI)
    show "bit u 63 = bit (2 ^ 63 :: double) 63" using that by (simp add: bit_exp_iff)
    have "exp_field u = 0" "man_field u = 0" using that magnitude_0[OF man_field_less] by blast+
    then show "exp_field u = exp_field (2 ^ 63)" "man_field u = man_field (2 ^ 63)"
      by (simp_all add: exp_field_def man_field_def)
  qed
  show ?thesis
  proof (cases "exp_field v = 2047 \<or> exp_field w = 2047")
    case True
    then show ?thesis
      using assms unfolding f64_of_bits_fields canonical_def
      by (intro pattern_eqI) (auto split: if_splits)
  next
    case False
    let ?v = "magnitude (exp_field v) (man_field v)" and ?w = "magnitude (exp_field w) (man_field w)"
    have nn: "0 \<le> ?v" "0 \<le> ?w" using magnitude_bounds(3)[OF man_field_less] by blast+
    have eq: "(if bit v 63 then - ?v else ?v) = (if bit w 63 then - ?w else ?w)"
      using assms(3) False by (simp add: f64_of_bits_fields)
    have b: "bit v 63 = bit w 63"
    proof (rule ccontr)
      assume "bit v 63 \<noteq> bit w 63"
      then have "?v = 0" "?w = 0" using eq nn by (auto split: if_splits)
      then show False using zero[of v] zero[of w] assms(1,2) \<open>bit v 63 \<noteq> bit w 63\<close> by (auto simp: canonical_def)
    qed
    with eq have "?v = ?w" by (simp split: if_splits)
    with magnitude_inj[OF man_field_less man_field_less this] b show ?thesis by (intro pattern_eqI) auto
  qed
qed

end
