(* ===== verification/DepthBook.thy ===== *)
theory DepthBook
  imports MemPool Doubles ProbeIndex
begin

text \<open>
  \<open>trading/venue/binance/binance_depth_book.{h,cpp}\<close>, one side of the book: pooled nodes on a sorted
  doubly linked list, and an open-addressed table from prices to nodes with tombstones. A pointer
  is a block index, null is \<open>None\<close>; a price is the 64 bits of its double, because the table hashes
  them. The probing loops and the walks along the list have no bound of their own: they are
  \<open>partial_function\<close>s, \<open>None\<close> when they never end.
\<close>

section \<open>Model\<close>

record price_level_node =
  pn_price :: double
  pn_qty :: double
  pn_prev :: "nat option"
  pn_next :: "nat option"
  pn_slot :: "32 word"

definition price_level_node_init :: price_level_node where
  "price_level_node_init = \<lparr>pn_price = 0, pn_qty = 0, pn_prev = None, pn_next = None, pn_slot = 0\<rparr>"

datatype price_slot = Vacant | Tombstone | Occupied nat

definition kMaxPriceLevelsPerSide :: nat where "kMaxPriceLevelsPerSide = 4096"

definition kPriceSlotCount :: "64 word" where "kPriceSlotCount = 8192"

definition kMaxTombstonesPerSide :: nat where "kMaxTombstonesPerSide = 8192 div 4"

definition kNoSlot :: "64 word" where "kNoSlot = kPriceSlotCount"

record depth_side =
  sd_is_bid :: bool
  sd_pool :: "price_level_node mem_pool"
  sd_slots :: "64 word \<Rightarrow> price_slot"
  sd_head :: "nat option"
  sd_tail :: "nat option"
  sd_level_count :: nat
  sd_tombstones :: nat

definition depth_side_new :: "bool \<Rightarrow> depth_side" where
  "depth_side_new bid =
     \<lparr>sd_is_bid = bid, sd_pool = projr (mem_pool_new price_level_node_init kMaxPriceLevelsPerSide),
      sd_slots = (\<lambda>_. Vacant), sd_head = None, sd_tail = None, sd_level_count = 0, sd_tombstones = 0\<rparr>"

abbreviation sd_get :: "depth_side \<Rightarrow> nat \<Rightarrow> price_level_node" where
  "sd_get s \<equiv> pool_get (sd_pool s)"

definition sd_put :: "nat \<Rightarrow> price_level_node \<Rightarrow> depth_side \<Rightarrow> depth_side" where
  "sd_put i n s = s\<lparr>sd_pool := pool_put i n (sd_pool s)\<rparr>"

definition priceBetter :: "bool \<Rightarrow> double \<Rightarrow> double \<Rightarrow> bool" where
  "priceBetter is_bid candidate incumbent =
     (if is_bid then f64_of_bits candidate > f64_of_bits incumbent else f64_of_bits candidate < f64_of_bits incumbent)"

definition priceHash :: "double \<Rightarrow> 64 word" where
  "priceHash price =
     (let bits = price + 0x9e3779b97f4a7c15;
          bits = (bits XOR drop_bit 30 bits) * 0xbf58476d1ce4e5b9;
          bits = (bits XOR drop_bit 27 bits) * 0x94d049bb133111eb
      in bits XOR drop_bit 31 bits)"

definition slotHome :: "double \<Rightarrow> 64 word" where
  "slotHome price = priceHash price AND (kPriceSlotCount - 1)"

definition next_slot :: "64 word \<Rightarrow> 64 word" where
  "next_slot index = (index + 1) AND (kPriceSlotCount - 1)"

partial_function (option) find_from ::
    "(64 word \<Rightarrow> price_slot) \<Rightarrow> (nat \<Rightarrow> price_level_node) \<Rightarrow> double \<Rightarrow> 64 word \<Rightarrow> nat option option" where
  "find_from slots get price index =
     (case slots index of
        Vacant \<Rightarrow> Some None
      | Tombstone \<Rightarrow> find_from slots get price (next_slot index)
      | Occupied i \<Rightarrow>
          if d_eq (pn_price (get i)) price then Some (Some i)
          else find_from slots get price (next_slot index))"

definition findNode :: "depth_side \<Rightarrow> double \<Rightarrow> nat option option" where
  "findNode s price = find_from (sd_slots s) (sd_get s) price (slotHome price)"

text \<open>The walk from the best level; the result is the pair \<open>(previous, current)\<close>.\<close>

partial_function (option) walk_sorted ::
    "bool \<Rightarrow> (nat \<Rightarrow> price_level_node) \<Rightarrow> double \<Rightarrow> nat option \<Rightarrow> nat option \<Rightarrow> (nat option \<times> nat option) option" where
  "walk_sorted bid get price previous current =
     (case current of
        None \<Rightarrow> Some (previous, current)
      | Some c \<Rightarrow>
          if priceBetter bid price (pn_price (get c)) then Some (previous, current)
          else walk_sorted bid get price current (pn_next (get c)))"

definition depth_insertSorted :: "nat \<Rightarrow> depth_side \<Rightarrow> (depth_side, unit) outcome" where
  "depth_insertSorted node s =
     await (walk_sorted (sd_is_bid s) (sd_get s) (pn_price (sd_get s node)) None (sd_head s))
       (\<lambda>(previous, current).
          let s = sd_put node (sd_get s node\<lparr>pn_prev := previous\<rparr>) s;
              s = sd_put node (sd_get s node\<lparr>pn_next := current\<rparr>) s;
              s = (case previous of
                     Some p \<Rightarrow> sd_put p (sd_get s p\<lparr>pn_next := Some node\<rparr>) s
                   | None \<Rightarrow> s\<lparr>sd_head := Some node\<rparr>);
              s = (case current of
                     Some c \<Rightarrow> sd_put c (sd_get s c\<lparr>pn_prev := Some node\<rparr>) s
                   | None \<Rightarrow> s\<lparr>sd_tail := Some node\<rparr>)
          in Ok (s\<lparr>sd_level_count := sd_level_count s + 1\<rparr>) ())"

definition depth_unlink :: "nat \<Rightarrow> depth_side \<Rightarrow> depth_side" where
  "depth_unlink node s =
     (let s = (case pn_prev (sd_get s node) of
                 Some p \<Rightarrow> sd_put p (sd_get s p\<lparr>pn_next := pn_next (sd_get s node)\<rparr>) s
               | None \<Rightarrow> s\<lparr>sd_head := pn_next (sd_get s node)\<rparr>)
      in case pn_next (sd_get s node) of
           Some n \<Rightarrow> sd_put n (sd_get s n\<lparr>pn_prev := pn_prev (sd_get s node)\<rparr>) s
         | None \<Rightarrow> s\<lparr>sd_tail := pn_prev (sd_get s node)\<rparr>)"

partial_function (option) probe_free ::
    "(64 word \<Rightarrow> price_slot) \<Rightarrow> 64 word \<Rightarrow> 64 word \<Rightarrow> (64 word \<times> 64 word) option" where
  "probe_free slots index reusable =
     (if slots index = Vacant then Some (index, reusable)
      else probe_free slots (next_slot index)
        (if slots index = Tombstone \<and> reusable = kNoSlot then index else reusable))"

definition insertSlot :: "nat \<Rightarrow> depth_side \<Rightarrow> (depth_side, unit) outcome" where
  "insertSlot node s =
     await (probe_free (sd_slots s) (slotHome (pn_price (sd_get s node))) kNoSlot)
       (\<lambda>(index, reusable).
          let target = (if reusable \<noteq> kNoSlot then reusable else index);
              s = s\<lparr>sd_slots := (sd_slots s)(target := Occupied node)\<rparr>
          in Ok (sd_put node (sd_get s node\<lparr>pn_slot := ucast target\<rparr>) s) ())"

partial_function (option) probe_vacant :: "(64 word \<Rightarrow> price_slot) \<Rightarrow> 64 word \<Rightarrow> 64 word option" where
  "probe_vacant slots index =
     (if slots index = Vacant then Some index else probe_vacant slots (next_slot index))"

partial_function (option) rehash_from :: "nat option \<Rightarrow> depth_side \<Rightarrow> depth_side option" where
  "rehash_from node s =
     (case node of
        None \<Rightarrow> Some s
      | Some n \<Rightarrow>
          Option.bind (probe_vacant (sd_slots s) (slotHome (pn_price (sd_get s n)))) (\<lambda>index.
            let s = s\<lparr>sd_slots := (sd_slots s)(index := Occupied n)\<rparr>;
                s = sd_put n (sd_get s n\<lparr>pn_slot := ucast index\<rparr>) s
            in rehash_from (pn_next (sd_get s n)) s))"

definition rehashSlots :: "depth_side \<Rightarrow> (depth_side, unit) outcome" where
  "rehashSlots s =
     await (rehash_from (sd_head s) (s\<lparr>sd_slots := (\<lambda>_. Vacant), sd_tombstones := 0\<rparr>)) (\<lambda>s. Ok s ())"

partial_function (option) clear_nodes ::
    "nat option \<Rightarrow> price_level_node mem_pool \<Rightarrow> (price_level_node mem_pool, unit) outcome option" where
  "clear_nodes node p =
     (case node of
        None \<Rightarrow> Some (Ok p ())
      | Some n \<Rightarrow>
          (case deallocate n p of
             Ok p' _ \<Rightarrow> clear_nodes (pn_next (pool_get p n)) p'
           | Throw p' e \<Rightarrow> Some (Throw p' e)
           | Abort m \<Rightarrow> Some (Abort m)
           | Hang \<Rightarrow> Some Hang
           | Undef \<Rightarrow> Some Undef))"

definition clearSide :: "depth_side \<Rightarrow> (depth_side, unit) outcome" where
  "clearSide s =
     then_do (await (clear_nodes (sd_head s) (sd_pool s)) (on_part (\<lambda>p. s\<lparr>sd_pool := p\<rparr>)))
       (\<lambda>s _. Ok (s\<lparr>sd_slots := (\<lambda>_. Vacant), sd_head := None, sd_tail := None, sd_level_count := 0,
                   sd_tombstones := 0\<rparr>) ())"

definition upsertPrice :: "double \<Rightarrow> double \<Rightarrow> depth_side \<Rightarrow> (depth_side, unit) outcome" where
  "upsertPrice price qty s =
     await (findNode s price) (\<lambda>found.
       case found of
         Some node \<Rightarrow> Ok (sd_put node (sd_get s node\<lparr>pn_qty := qty\<rparr>) s) ()
       | None \<Rightarrow>
           then_do (on_part (\<lambda>p. s\<lparr>sd_pool := p\<rparr>) (allocate price_level_node_init (sd_pool s)))
             (\<lambda>s node.
                let s = sd_put node (sd_get s node\<lparr>pn_price := price\<rparr>) s;
                    s = sd_put node (sd_get s node\<lparr>pn_qty := qty\<rparr>) s
                in then_do (depth_insertSorted node s) (\<lambda>s _. insertSlot node s)))"

definition removePrice :: "double \<Rightarrow> depth_side \<Rightarrow> (depth_side, unit) outcome" where
  "removePrice price s =
     await (findNode s price) (\<lambda>found.
       case found of
         None \<Rightarrow> Ok s ()
       | Some node \<Rightarrow>
           (let s = s\<lparr>sd_slots := (sd_slots s)(ucast (pn_slot (sd_get s node)) := Tombstone),
                      sd_tombstones := sd_tombstones s + 1\<rparr>;
                s = depth_unlink node s
            in then_do (on_part (\<lambda>p. s\<lparr>sd_pool := p\<rparr>) (deallocate node (sd_pool s)))
                 (\<lambda>s _.
                    let s = s\<lparr>sd_level_count := sd_level_count s - 1\<rparr>
                    in if sd_tombstones s > kMaxTombstonesPerSide then rehashSlots s else Ok s ())))"

end
