(* ===== verification/DepthSide.thy ===== *)
theory DepthSide
  imports DepthBook
begin

text \<open>
  One side of the depth book is a finite map. The theory gives the invariant of the price table
  (every node is reachable from the home slot of its price without crossing a vacant slot, and the
  counter bounds the tombstones, so a vacant slot always exists and probing ends) and of the sorted
  doubly linked list, and proves that the operations of a side update the map.
\<close>

section \<open>The price table\<close>

abbreviation nth_slot :: "64 word \<Rightarrow> nat \<Rightarrow> 64 word" where
  "nth_slot \<equiv> ProbeIndex.at 13"

lemma next_slot_at: "next_slot (nth_slot h j) = nth_slot h (Suc j)"
  using at_Suc[of 13 h j] pow2_minus_1_mask[where ?'a = 64, of 13]
  by (simp add: next_slot_def kPriceSlotCount_def flip: and_mask_take_bit)

lemma slotHome_take_bit: "slotHome p = take_bit 13 (priceHash p)"
  using pow2_minus_1_mask[where ?'a = 64, of 13]
  by (simp add: slotHome_def kPriceSlotCount_def flip: and_mask_take_bit)

lemma idx_slotHome [simp]: "idx 13 (slotHome p)"
  by (simp add: slotHome_take_bit)

definition slot_of :: "price_level_node \<Rightarrow> 64 word" where
  "slot_of n = ucast (pn_slot n)"

definition home_of :: "price_level_node \<Rightarrow> 64 word" where
  "home_of n = slotHome (pn_price n)"

definition table_ok :: "(64 word \<Rightarrow> price_slot) \<Rightarrow> (nat \<Rightarrow> price_level_node) \<Rightarrow> nat set \<Rightarrow> nat \<Rightarrow> bool" where
  "table_ok slots get A tombs \<longleftrightarrow>
     (\<forall>i\<in>A. idx 13 (slot_of (get i)) \<and> slots (slot_of (get i)) = Occupied i \<and>
        (\<forall>j < dist 13 (home_of (get i)) (slot_of (get i)). slots (nth_slot (home_of (get i)) j) \<noteq> Vacant)) \<and>
     (\<forall>w i. idx 13 w \<longrightarrow> slots w = Occupied i \<longrightarrow> i \<in> A \<and> w = slot_of (get i)) \<and>
     card {w. idx 13 w \<and> slots w = Tombstone} \<le> tombs"

lemma ucast_idx: "idx 13 (w :: 64 word) \<Longrightarrow> ucast (ucast w :: 32 word) = w"
proof -
  assume "idx 13 w"
  then have "take_bit 13 w = w" by (simp add: idx_def)
  then have "ucast (ucast w :: 32 word) = (ucast (ucast (take_bit 13 w) :: 32 word) :: 64 word)" by simp
  also have "\<dots> = take_bit 13 w"
    by (rule bit_word_eqI) (auto simp: bit_simps)
  finally show ?thesis using \<open>take_bit 13 w = w\<close> by simp
qed

lemma table_vacant:
  assumes t: "table_ok slots get A tombs" and "finite A" "card A + tombs < 8192" "idx 13 h"
  obtains D where "D < 8192" "slots (nth_slot h D) = Vacant" "\<And>j. j < D \<Longrightarrow> slots (nth_slot h j) \<noteq> Vacant"
proof -
  let ?all = "{w :: 64 word. idx 13 w}"
  let ?occ = "{w. idx 13 w \<and> (\<exists>i. slots w = Occupied i)}" and ?tomb = "{w. idx 13 w \<and> slots w = Tombstone}"
  have "?occ \<subseteq> (\<lambda>i. slot_of (get i)) ` A" using t by (auto simp: table_ok_def)
  then have "card ?occ \<le> card A" using surj_card_le[OF assms(2)] by blast
  moreover have "card ?tomb \<le> tombs" using t by (simp add: table_ok_def)
  moreover have "card (?occ \<union> ?tomb) \<le> card ?occ + card ?tomb" by (rule card_Un_le)
  ultimately have "card (?occ \<union> ?tomb) < card ?all" using assms(3) card_idx[of 13] by simp
  then obtain w where w: "idx 13 w" "w \<notin> ?occ \<union> ?tomb"
    using card_lt_ex_free[of ?all "?occ \<union> ?tomb"] by auto
  then have vac: "slots w = Vacant" by (cases "slots w") auto
  let ?P = "\<lambda>j. slots (nth_slot h j) = Vacant"
  have P: "?P (dist 13 h w)" using at_dist[of 13 w h] w(1) vac by simp
  show ?thesis
  proof (rule that[of "LEAST j. ?P j"])
    show "(LEAST j. ?P j) < 8192"
      using Least_le[of ?P, OF P] dist_less[of 13 h w] by simp
    show "?P (LEAST j. ?P j)" by (rule LeastI[of ?P, OF P])
    show "slots (nth_slot h j) \<noteq> Vacant" if "j < (LEAST j. ?P j)" for j using not_less_Least[OF that] by simp
  qed
qed

lemma find_from_none:
  assumes "slots (nth_slot h D) = Vacant" "j \<le> D"
    and "\<And>p i. j \<le> p \<Longrightarrow> p < D \<Longrightarrow> slots (nth_slot h p) = Occupied i \<Longrightarrow> \<not> d_eq (pn_price (get i)) price"
  shows "find_from slots get price (nth_slot h j) = Some None"
  using assms(2,3)
proof (induction "D - j" arbitrary: j)
  case 0
  then show ?case using assms(1) by (subst find_from.simps) simp
next
  case (Suc n)
  have IH: "find_from slots get price (nth_slot h (Suc j)) = Some None"
  proof (rule Suc.hyps(1))
    show "\<not> d_eq (pn_price (get i)) price" if "Suc j \<le> p" "p < D" "slots (nth_slot h p) = Occupied i" for p i
      using Suc.prems(2)[OF Suc_leD[OF that(1)] that(2,3)] .
  qed (use Suc.hyps(2) in auto)
  show ?case
    using IH Suc.prems(2)[of j] Suc.hyps(2) assms(1)
    by (subst find_from.simps) (simp add: next_slot_at split: price_slot.splits)
qed

lemma find_from_some:
  assumes "j \<le> m" "slots (nth_slot h m) = Occupied i" "d_eq (pn_price (get i)) price"
    and "\<And>p. p < m \<Longrightarrow> slots (nth_slot h p) \<noteq> Vacant"
    and "\<And>p i. p < m \<Longrightarrow> slots (nth_slot h p) = Occupied i \<Longrightarrow> \<not> d_eq (pn_price (get i)) price"
  shows "find_from slots get price (nth_slot h j) = Some (Some i)"
  using assms(1)
proof (induction "m - j" arbitrary: j)
  case 0
  then show ?case using assms(2,3) by (subst find_from.simps) simp
next
  case (Suc n)
  have IH: "find_from slots get price (nth_slot h (Suc j)) = Some (Some i)"
    using Suc.hyps(2) Suc.prems by (intro Suc.hyps(1)) auto
  have "j < m" using Suc.hyps(2) by simp
  show ?case
    using IH assms(4,5)[OF \<open>j < m\<close>]
    by (subst find_from.simps) (auto simp: next_slot_at split: price_slot.splits)
qed

lemma table_find:
  assumes t: "table_ok slots get A tombs" and f: "finite A" "card A + tombs < 8192"
    and can: "canonical price" "\<And>i. i \<in> A \<Longrightarrow> canonical (pn_price (get i))"
    and inj: "inj_on (\<lambda>i. pn_price (get i)) A"
  shows "find_from slots get price (slotHome price) = Some None \<and> (\<forall>i\<in>A. pn_price (get i) \<noteq> price) \<or>
    (\<exists>i\<in>A. find_from slots get price (slotHome price) = Some (Some i) \<and> pn_price (get i) = price)"
proof -
  let ?h = "slotHome price"
  obtain D where D: "D < 8192" "slots (nth_slot ?h D) = Vacant" "\<And>j. j < D \<Longrightarrow> slots (nth_slot ?h j) \<noteq> Vacant"
    using table_vacant[OF t f idx_slotHome, of price] by blast
  have eq: "d_eq (pn_price (get i)) price \<longleftrightarrow> pn_price (get i) = price" if "i \<in> A" for i
    using canonical_inj[OF can(2)[OF that] can(1)] can(1) by (auto simp: d_eq_def canonical_def)
  have occ: "i \<in> A" if "slots (nth_slot ?h p) = Occupied i" for p i
    using t that idx_at unfolding table_ok_def by blast
  show ?thesis
  proof (cases "\<exists>i\<in>A. pn_price (get i) = price")
    case False
    then have "find_from slots get price (nth_slot ?h 0) = Some None"
      using eq occ by (intro find_from_none[where h = ?h and slots = slots, OF D(2)]) auto
    then show ?thesis using False by simp
  next
    case True
    then obtain i where i: "i \<in> A" "pn_price (get i) = price" by blast
    let ?m = "dist 13 ?h (slot_of (get i))"
    have s: "idx 13 (slot_of (get i))" "slots (slot_of (get i)) = Occupied i"
      "\<And>j. j < ?m \<Longrightarrow> slots (nth_slot ?h j) \<noteq> Vacant"
      using t i by (auto simp: table_ok_def home_of_def)
    have m: "slots (nth_slot ?h ?m) = Occupied i" using s(1,2) at_dist[of 13 "slot_of (get i)" ?h] by simp
    have other: "\<not> d_eq (pn_price (get k)) price" if "p < ?m" "slots (nth_slot ?h p) = Occupied k" for p k
    proof
      assume "d_eq (pn_price (get k)) price"
      then have "k = i" using eq[OF occ[OF that(2)]] inj occ[OF that(2)] i by (auto dest: inj_onD)
      then have "nth_slot ?h p = slot_of (get i)" using t that(2) idx_at unfolding table_ok_def by blast
      then have "dist 13 ?h (slot_of (get i)) = p mod 2 ^ 13" using dist_at[of 13 ?h p] by simp
      also have "\<dots> \<le> p" by simp
      finally show False using that(1) by simp
    qed
    have "find_from slots get price (nth_slot ?h 0) = Some (Some i)"
      using m s(3) other eq[OF i(1)] i(2) by (intro find_from_some[where h = ?h and slots = slots and m = ?m]) auto
    then show ?thesis using i by auto
  qed
qed

lemma nth_slot_not_kNoSlot: "nth_slot h j \<noteq> kNoSlot"
proof
  assume e: "nth_slot h j = kNoSlot"
  have "unat (nth_slot h j) < 2 ^ 13" using idx_iff_less[of 13 "nth_slot h j"] by simp
  then show False by (simp add: e kNoSlot_def kPriceSlotCount_def)
qed

lemma probe_free_spec:
  assumes "slots (nth_slot h D) = Vacant" "\<And>j. j < D \<Longrightarrow> slots (nth_slot h j) \<noteq> Vacant" "j \<le> D"
  shows "\<exists>r'. probe_free slots (nth_slot h j) r = Some (nth_slot h D, r') \<and>
    (r' = r \<or> (\<exists>p<D. r' = nth_slot h p \<and> slots r' = Tombstone))"
  using assms(3)
proof (induction "D - j" arbitrary: j r)
  case 0
  then show ?case using assms(1) by (subst probe_free.simps) simp
next
  case (Suc n)
  then have j: "j < D" by simp
  let ?r = "if slots (nth_slot h j) = Tombstone \<and> r = kNoSlot then nth_slot h j else r"
  have m: "n = D - Suc j" "Suc j \<le> D" using Suc.hyps(2) by simp_all
  obtain r' where "probe_free slots (nth_slot h (Suc j)) ?r = Some (nth_slot h D, r')"
    "r' = ?r \<or> (\<exists>p<D. r' = nth_slot h p \<and> slots r' = Tombstone)"
    using Suc.hyps(1)[OF m, of ?r] by blast
  then show ?case
    using assms(2)[OF j] j by (subst probe_free.simps) (auto simp: next_slot_at split: if_splits)
qed

lemma probe_vacant_spec:
  assumes "slots (nth_slot h D) = Vacant" "\<And>j. j < D \<Longrightarrow> slots (nth_slot h j) \<noteq> Vacant" "j \<le> D"
  shows "probe_vacant slots (nth_slot h j) = Some (nth_slot h D)"
  using assms(3)
proof (induction "D - j" arbitrary: j)
  case 0
  then show ?case using assms(1) by (subst probe_vacant.simps) simp
next
  case (Suc n)
  then show ?case
    using assms(2)[of j] Suc.hyps(1)[of "Suc j"] by (subst probe_vacant.simps) (simp add: next_slot_at)
qed

lemma table_empty: "table_ok (\<lambda>_. Vacant) get {} 0"
  by (simp add: table_ok_def)

lemma table_cong:
  assumes "table_ok slots get A t"
    and "\<And>i. i \<in> A \<Longrightarrow> pn_price (get' i) = pn_price (get i) \<and> pn_slot (get' i) = pn_slot (get i)"
  shows "table_ok slots get' A t"
  using assms by (simp add: table_ok_def slot_of_def home_of_def)

lemma tombstones_mono:
  assumes "card {w :: 64 word. idx 13 w \<and> slots w = Tombstone} \<le> t" "x \<noteq> Tombstone"
  shows "card {w. idx 13 w \<and> (slots(v := x)) w = Tombstone} \<le> t"
proof -
  have "card {w. idx 13 w \<and> (slots(v := x)) w = Tombstone} \<le> card {w. idx 13 w \<and> slots w = Tombstone}"
    using assms(2) by (intro card_mono) auto
  with assms(1) show ?thesis by linarith
qed

lemma table_insert:
  assumes t: "table_ok slots get A t" and i: "i \<notin> A"
    and v: "v = nth_slot (home_of n) p" "\<And>i. slots v \<noteq> Occupied i"
    and p: "\<And>q. q < p \<Longrightarrow> slots (nth_slot (home_of n) q) \<noteq> Vacant"
    and n: "slot_of n = v"
  shows "table_ok (slots(v := Occupied i)) (get(i := n)) (insert i A) t"
proof -
  have old: "idx 13 (slot_of (get k))" "slots (slot_of (get k)) = Occupied k"
    "\<And>j. j < dist 13 (home_of (get k)) (slot_of (get k)) \<Longrightarrow> slots (nth_slot (home_of (get k)) j) \<noteq> Vacant"
    if "k \<in> A" for k using t that by (auto simp: table_ok_def)
  have occ: "k \<in> A \<and> w = slot_of (get k)" if "idx 13 w" "slots w = Occupied k" for w k
    using t that unfolding table_ok_def by blast
  have new: "slots (nth_slot (home_of n) j) \<noteq> Vacant" if "j < dist 13 (home_of n) v" for j
  proof (rule p)
    have "dist 13 (home_of n) v = p mod 2 ^ 13" using dist_at[of 13 "home_of n" p] v(1) by simp
    also have "\<dots> \<le> p" by simp
    finally show "j < p" using that by simp
  qed
  have ne: "slot_of (get k) \<noteq> v" if "k \<in> A" for k using old(2)[OF that] v(2) by metis
  have A: "idx 13 (slot_of ((get(i := n)) k)) \<and> (slots(v := Occupied i)) (slot_of ((get(i := n)) k)) = Occupied k \<and>
      (\<forall>j < dist 13 (home_of ((get(i := n)) k)) (slot_of ((get(i := n)) k)).
         (slots(v := Occupied i)) (nth_slot (home_of ((get(i := n)) k)) j) \<noteq> Vacant)"
    if "k \<in> insert i A" for k
  proof (cases "k = i")
    case True
    then show ?thesis using new v(1) n by simp
  next
    case False
    then have k: "k \<in> A" using that by simp
    with False show ?thesis using old[OF k] ne[OF k] by simp
  qed
  have B: "k \<in> insert i A \<and> w = slot_of ((get(i := n)) k)"
    if "idx 13 w" "(slots(v := Occupied i)) w = Occupied k" for w k
  proof (cases "w = v")
    case True
    then show ?thesis using that n by simp
  next
    case False
    then have "k \<in> A" "w = slot_of (get k)" using occ[OF that(1)] that(2) by auto
    with i show ?thesis by auto
  qed
  have C: "card {w. idx 13 w \<and> (slots(v := Occupied i)) w = Tombstone} \<le> t"
    using t by (intro tombstones_mono) (auto simp: table_ok_def)
  show ?thesis unfolding table_ok_def using A B C by blast
qed

lemma table_delete:
  assumes t: "table_ok slots get A t" and i: "i \<in> A"
  shows "table_ok (slots(slot_of (get i) := Tombstone)) get (A - {i}) (t + 1)"
proof -
  let ?v = "slot_of (get i)"
  have old: "idx 13 (slot_of (get k))" "slots (slot_of (get k)) = Occupied k"
    "\<And>j. j < dist 13 (home_of (get k)) (slot_of (get k)) \<Longrightarrow> slots (nth_slot (home_of (get k)) j) \<noteq> Vacant"
    if "k \<in> A" for k using t that by (auto simp: table_ok_def)
  have occ: "k \<in> A \<and> w = slot_of (get k)" if "idx 13 w" "slots w = Occupied k" for w k
    using t that unfolding table_ok_def by blast
  have ne: "slot_of (get k) \<noteq> ?v" if "k \<in> A - {i}" for k
    using old(2)[of k] old(2)[OF i] that by auto
  have C: "card {w. idx 13 w \<and> (slots(?v := Tombstone)) w = Tombstone} \<le> t + 1"
  proof -
    have "card {w. idx 13 w \<and> (slots(?v := Tombstone)) w = Tombstone}
        \<le> card (insert ?v {w. idx 13 w \<and> slots w = Tombstone})"
      by (intro card_mono) (auto simp del: finite_insert intro: finite_subset[OF subset_UNIV] split: if_splits)
    also have "\<dots> \<le> Suc (card {w. idx 13 w \<and> slots w = Tombstone})" by (simp add: card_insert_if)
    also have "\<dots> \<le> t + 1" using t by (simp add: table_ok_def)
    finally show ?thesis .
  qed
  have B: "k \<in> A - {i} \<and> w = slot_of (get k)" if "idx 13 w" "(slots(?v := Tombstone)) w = Occupied k" for w k
    using that occ[of w k] by (auto split: if_splits)
  have A: "idx 13 (slot_of (get k)) \<and> (slots(?v := Tombstone)) (slot_of (get k)) = Occupied k \<and>
      (\<forall>j < dist 13 (home_of (get k)) (slot_of (get k)). (slots(?v := Tombstone)) (nth_slot (home_of (get k)) j) \<noteq> Vacant)"
    if "k \<in> A - {i}" for k
    using old[of k] ne[OF that] that by simp
  show ?thesis unfolding table_ok_def using A B C by blast
qed

section \<open>The sorted list\<close>

definition first_of :: "nat list \<Rightarrow> nat option \<Rightarrow> nat option" where
  "first_of xs n = (case xs of [] \<Rightarrow> n | x # _ \<Rightarrow> Some x)"

definition last_of :: "nat option \<Rightarrow> nat list \<Rightarrow> nat option" where
  "last_of p xs = (if xs = [] then p else Some (last xs))"

lemma first_of_simps [simp]: "first_of [] n = n" "first_of (x # xs) n = Some x"
  by (simp_all add: first_of_def)

lemma last_of_simps [simp]: "last_of p [] = p" "last_of p (x # xs) = last_of (Some x) xs" "last_of p (xs @ [y]) = Some y"
  by (simp_all add: last_of_def)

text \<open>A segment of a doubly linked list that starts after \<open>p\<close> and ends before \<open>n\<close>.\<close>

fun dseg :: "(nat \<Rightarrow> price_level_node) \<Rightarrow> nat option \<Rightarrow> nat list \<Rightarrow> nat option \<Rightarrow> bool" where
  "dseg get p [] n \<longleftrightarrow> True"
| "dseg get p (x # xs) n \<longleftrightarrow> pn_prev (get x) = p \<and> pn_next (get x) = first_of xs n \<and> dseg get (Some x) xs n"

lemma dseg_append: "dseg get p (as @ bs) n \<longleftrightarrow> dseg get p as (first_of bs n) \<and> dseg get (last_of p as) bs n"
proof (induction as arbitrary: p)
  case (Cons a as)
  then show ?case by (cases as) auto
qed simp

lemma dseg_cong:
  assumes "\<And>i. i \<in> set xs \<Longrightarrow> pn_prev (get' i) = pn_prev (get i) \<and> pn_next (get' i) = pn_next (get i)"
  shows "dseg get' p xs n = dseg get p xs n"
  using assms by (induction xs arbitrary: p) auto

text \<open>Writing the pointer of a neighbour that may be absent.\<close>

definition put_next :: "nat option \<Rightarrow> nat option \<Rightarrow> (nat \<Rightarrow> price_level_node) \<Rightarrow> nat \<Rightarrow> price_level_node" where
  "put_next at_node v get = (case at_node of None \<Rightarrow> get | Some i \<Rightarrow> get(i := get i\<lparr>pn_next := v\<rparr>))"

definition put_prev :: "nat option \<Rightarrow> nat option \<Rightarrow> (nat \<Rightarrow> price_level_node) \<Rightarrow> nat \<Rightarrow> price_level_node" where
  "put_prev at_node v get = (case at_node of None \<Rightarrow> get | Some i \<Rightarrow> get(i := get i\<lparr>pn_prev := v\<rparr>))"

lemma put_pointer_keeps [simp]:
  "pn_price (put_next x v get i) = pn_price (get i)" "pn_price (put_prev x v get i) = pn_price (get i)"
  "pn_qty (put_next x v get i) = pn_qty (get i)" "pn_qty (put_prev x v get i) = pn_qty (get i)"
  "pn_slot (put_next x v get i) = pn_slot (get i)" "pn_slot (put_prev x v get i) = pn_slot (get i)"
  "pn_prev (put_next x v get i) = pn_prev (get i)" "pn_next (put_prev x v get i) = pn_next (get i)"
  by (auto simp: put_next_def put_prev_def split: option.split)

lemma put_pointer_other:
  "x \<noteq> Some i \<Longrightarrow> put_next x v get i = get i" "x \<noteq> Some i \<Longrightarrow> put_prev x v get i = get i"
  by (auto simp: put_next_def put_prev_def split: option.split)

lemma dseg_put_outside:
  assumes "\<And>k. x = Some k \<Longrightarrow> k \<notin> set xs"
  shows "dseg (put_next x v get) p xs n = dseg get p xs n" "dseg (put_prev x v get) p xs n = dseg get p xs n"
proof -
  have "x \<noteq> Some i" if "i \<in> set xs" for i using assms that by blast
  then show "dseg (put_next x v get) p xs n = dseg get p xs n" "dseg (put_prev x v get) p xs n = dseg get p xs n"
    by (auto intro!: dseg_cong simp: put_pointer_other)
qed

lemma dseg_put_next_last:
  assumes "dseg get p as n" "distinct as"
  shows "dseg (put_next (last_of None as) v get) p as v"
proof (cases as rule: rev_cases)
  case (snoc bs b)
  have o: "dseg (put_next (Some b) v get) p bs (Some b) = dseg get p bs (Some b)"
    using assms(2) snoc by (intro dseg_put_outside) auto
  with assms snoc show ?thesis by (simp add: dseg_append) (simp add: put_next_def)
qed simp

lemma dseg_put_prev_first:
  assumes "dseg get p as n" "distinct as"
  shows "dseg (put_prev (first_of as None) v get) v as n"
proof (cases as)
  case (Cons b bs)
  have o: "dseg (put_prev (Some b) v get) (Some b) bs n = dseg get (Some b) bs n"
    using assms(2) Cons by (intro dseg_put_outside) auto
  with assms Cons show ?thesis by (simp add: put_prev_def)
qed simp

lemma first_of_in: "first_of xs None = Some i \<Longrightarrow> i \<in> set xs"
  by (cases xs) auto

lemma last_of_in: "last_of None xs = Some i \<Longrightarrow> i \<in> set xs"
  by (auto simp: last_of_def split: if_splits)

lemma dseg_insert:
  assumes d: "dseg get None (as @ bs) None" "distinct (as @ bs)" "x \<notin> set (as @ bs)"
    and n: "pn_prev n = last_of None as" "pn_next n = first_of bs None"
  shows "dseg (put_prev (first_of bs None) (Some x) (put_next (last_of None as) (Some x) (get(x := n)))) None (as @ x # bs) None"
proof -
  let ?g1 = "get(x := n)"
  let ?g2 = "put_next (last_of None as) (Some x) ?g1"
  let ?g3 = "put_prev (first_of bs None) (Some x) ?g2"
  have as: "dseg ?g1 None as (first_of bs None)" and bs: "dseg ?g1 (last_of None as) bs None"
  proof -
    have "dseg ?g1 p ys m = dseg get p ys m" if "x \<notin> set ys" for p ys m
      using that by (intro dseg_cong) auto
    with d show "dseg ?g1 None as (first_of bs None)" "dseg ?g1 (last_of None as) bs None" by (simp_all add: dseg_append)
  qed
  have "dseg ?g2 None as (Some x)" using dseg_put_next_last[OF as] d(2) by simp
  then have 1: "dseg ?g3 None as (Some x)"
    using d(2) by (subst dseg_put_outside) (auto dest!: first_of_in)
  have "dseg ?g2 (last_of None as) bs None"
    using bs d(2) by (subst dseg_put_outside) (auto dest!: last_of_in)
  from dseg_put_prev_first[OF this] have 2: "dseg ?g3 (Some x) bs None" using d(2) by simp
  have "?g3 x = n"
  proof -
    have "first_of bs None \<noteq> Some x" "last_of None as \<noteq> Some x"
      using d(3) first_of_in[of bs x] last_of_in[of as x] by auto
    then show ?thesis by (simp add: put_pointer_other)
  qed
  with 1 2 n show ?thesis by (simp add: dseg_append)
qed

lemma dseg_delete:
  assumes d: "dseg get None (as @ x # bs) None" "distinct (as @ x # bs)"
  shows "dseg (put_prev (first_of bs None) (last_of None as) (put_next (last_of None as) (first_of bs None) get)) None (as @ bs) None"
proof -
  let ?g2 = "put_next (last_of None as) (first_of bs None) get"
  let ?g3 = "put_prev (first_of bs None) (last_of None as) ?g2"
  have as: "dseg get None as (Some x)" and bs: "dseg get (Some x) bs None"
    using d by (simp_all add: dseg_append)
  have "dseg ?g2 None as (first_of bs None)" using dseg_put_next_last[OF as] d(2) by simp
  then have 1: "dseg ?g3 None as (first_of bs None)"
    using d(2) by (subst dseg_put_outside) (auto dest!: first_of_in)
  have "dseg ?g2 (Some x) bs None"
    using bs d(2) by (subst dseg_put_outside) (auto dest!: last_of_in)
  from dseg_put_prev_first[OF this] have 2: "dseg ?g3 (last_of None as) bs None" using d(2) by simp
  with 1 show ?thesis by (simp add: dseg_append)
qed

end
