(* ===== verification/DepthMap.thy ===== *)
theory DepthMap
  imports DepthSide LFQueue
begin

text \<open>
  The operations of a side of the depth book (\<open>upsertPrice\<close>, \<open>removePrice\<close>, \<open>rehashSlots\<close>,
  \<open>clearSide\<close>) keep its invariant and act on the map from prices to quantities that it stands for.
\<close>

section \<open>Prices are ordered\<close>

lemma f64_less_trans: "(a :: f64) < b \<Longrightarrow> b < c \<Longrightarrow> a < c"
  by (cases a; cases b; cases c) (auto simp: less_f64_def)

lemma f64_less_total: "a \<noteq> NaN \<Longrightarrow> b \<noteq> NaN \<Longrightarrow> a < b \<or> a = b \<or> b < a"
  by (cases a; cases b) (auto simp: less_f64_def)

lemma f64_less_irrefl: "\<not> (a :: f64) < a"
  by (simp add: less_f64_def)

lemma priceBetter_trans: "priceBetter bid a b \<Longrightarrow> priceBetter bid b c \<Longrightarrow> priceBetter bid a c"
  using f64_less_trans by (auto simp: priceBetter_def split: if_splits)

lemma priceBetter_irrefl: "\<not> priceBetter bid a a"
  using f64_less_irrefl by (auto simp: priceBetter_def)

lemma priceBetter_total:
  "canonical a \<Longrightarrow> canonical b \<Longrightarrow> a \<noteq> b \<Longrightarrow> \<not> priceBetter bid a b \<Longrightarrow> priceBetter bid b a"
  using f64_less_total[of "f64_of_bits a" "f64_of_bits b"] canonical_inj[of a b]
  by (auto simp: priceBetter_def canonical_def split: if_splits)

section \<open>What a side stands for\<close>

abbreviation price_of :: "(nat \<Rightarrow> price_level_node) \<Rightarrow> nat \<Rightarrow> double" where
  "price_of get i \<equiv> pn_price (get i)"

definition sorted_levels :: "bool \<Rightarrow> (nat \<Rightarrow> price_level_node) \<Rightarrow> nat list \<Rightarrow> bool" where
  "sorted_levels bid get = sorted_wrt (\<lambda>i j. priceBetter bid (price_of get i) (price_of get j))"

definition list_ok :: "depth_side \<Rightarrow> nat list \<Rightarrow> bool" where
  "list_ok s xs \<longleftrightarrow> distinct xs \<and> dseg (sd_get s) None xs None \<and> sd_head s = first_of xs None \<and>
     sd_tail s = last_of None xs \<and> sorted_levels (sd_is_bid s) (sd_get s) xs \<and>
     (\<forall>i\<in>set xs. canonical (price_of (sd_get s) i)) \<and> sd_level_count s = length xs"

definition pool_ok :: "depth_side \<Rightarrow> nat set \<Rightarrow> bool" where
  "pool_ok s A \<longleftrightarrow> pool_inv (sd_pool s) \<and> mp_size (sd_pool s) = kMaxPriceLevelsPerSide \<and> pool_live (sd_pool s) = A"

definition side_ok :: "depth_side \<Rightarrow> nat list \<Rightarrow> bool" where
  "side_ok s xs \<longleftrightarrow> list_ok s xs \<and> pool_ok s (set xs) \<and>
     table_ok (sd_slots s) (sd_get s) (set xs) (sd_tombstones s) \<and> sd_tombstones s \<le> kMaxTombstonesPerSide"

definition levels_of :: "depth_side \<Rightarrow> nat list \<Rightarrow> (double \<times> double) list" where
  "levels_of s xs = map (\<lambda>i. (pn_price (sd_get s i), pn_qty (sd_get s i))) xs"

lemma sd_put_simps [simp]:
  "sd_get (sd_put i n s) = (sd_get s)(i := n)" "sd_slots (sd_put i n s) = sd_slots s"
  "sd_head (sd_put i n s) = sd_head s" "sd_tail (sd_put i n s) = sd_tail s" "sd_is_bid (sd_put i n s) = sd_is_bid s"
  "sd_level_count (sd_put i n s) = sd_level_count s" "sd_tombstones (sd_put i n s) = sd_tombstones s"
  "pool_ok (sd_put i n s) A = pool_ok s A"
  by (simp_all add: sd_put_def pool_ok_def)

lemma sd_put_twice [simp]: "sd_put i m (sd_put i n s) = sd_put i m s"
  by (simp add: sd_put_def pool_put_def)

lemma pool_ok_fields [simp]:
  "pool_ok (s\<lparr>sd_head := h\<rparr>) A = pool_ok s A" "pool_ok (s\<lparr>sd_tail := h\<rparr>) A = pool_ok s A"
  "pool_ok (s\<lparr>sd_slots := sl\<rparr>) A = pool_ok s A" "pool_ok (s\<lparr>sd_level_count := c\<rparr>) A = pool_ok s A"
  "pool_ok (s\<lparr>sd_tombstones := c\<rparr>) A = pool_ok s A"
  by (simp_all add: pool_ok_def)

lemma side_ok_length: "side_ok s xs \<Longrightarrow> length xs \<le> 4096"
proof -
  assume "side_ok s xs"
  then have "distinct xs" "set xs \<subseteq> {..<4096}"
    using pool_live_subset[of "sd_pool s"] by (auto simp: side_ok_def list_ok_def pool_ok_def kMaxPriceLevelsPerSide_def)
  then show ?thesis using card_mono[of "{..<4096 :: nat}" "set xs"] distinct_card[of xs] by simp
qed

lemma sorted_inj: "sorted_levels bid get xs \<Longrightarrow> inj_on (price_of get) (set xs)"
  unfolding sorted_levels_def
proof (induction xs)
  case (Cons x xs)
  have "price_of get x \<notin> price_of get ` set xs"
  proof
    assume "price_of get x \<in> price_of get ` set xs"
    then obtain y where "y \<in> set xs" "price_of get x = price_of get y" by blast
    then show False using Cons.prems priceBetter_irrefl[of bid "price_of get x"] by auto
  qed
  with Cons show ?case by (auto simp: inj_on_insert)
qed simp

lemma levels_map:
  assumes "inj_on (price_of (sd_get s)) (set xs)" "i \<in> set xs"
  shows "map_of (levels_of s xs) (price_of (sd_get s) i) = Some (pn_qty (sd_get s i))"
  using assms
proof (induction xs)
  case (Cons x xs)
  then show ?case by (cases "x = i") (auto simp: levels_of_def inj_on_def)
qed simp

lemma levels_map_iff:
  assumes "inj_on (price_of (sd_get s)) (set xs)"
  shows "map_of (levels_of s xs) p = Some q \<longleftrightarrow> (\<exists>i\<in>set xs. price_of (sd_get s) i = p \<and> pn_qty (sd_get s i) = q)"
proof
  assume "map_of (levels_of s xs) p = Some q"
  then show "\<exists>i\<in>set xs. price_of (sd_get s) i = p \<and> pn_qty (sd_get s i) = q"
    by (auto dest!: map_of_SomeD simp: levels_of_def)
qed (use levels_map[OF assms] in auto)

lemma levels_map_None: "map_of (levels_of s xs) p = None \<longleftrightarrow> (\<forall>i\<in>set xs. price_of (sd_get s) i \<noteq> p)"
  unfolding levels_of_def map_of_eq_None_iff by force

text \<open>Looking up a price ends, and finds its node if there is one.\<close>

lemma findNode_ok:
  assumes "side_ok s xs" "canonical price"
  shows "findNode s price = Some None \<and> (\<forall>i\<in>set xs. price_of (sd_get s) i \<noteq> price) \<or>
    (\<exists>i\<in>set xs. findNode s price = Some (Some i) \<and> price_of (sd_get s) i = price)"
proof -
  have "card (set xs) + sd_tombstones s < 8192"
    using side_ok_length[OF assms(1)] card_length[of xs] assms(1)
    by (simp add: side_ok_def kMaxTombstonesPerSide_def)
  then show ?thesis
    unfolding findNode_def
    using assms sorted_inj[of "sd_is_bid s" "sd_get s" xs]
    by (intro table_find) (auto simp: side_ok_def list_ok_def)
qed

section \<open>Inserting into the list\<close>

lemma walk_sorted_ok:
  "dseg get prev xs None \<Longrightarrow>
   walk_sorted bid get price prev (first_of xs None) =
     (let as = takeWhile (\<lambda>i. \<not> priceBetter bid price (price_of get i)) xs;
          bs = dropWhile (\<lambda>i. \<not> priceBetter bid price (price_of get i)) xs
      in Some (last_of prev as, first_of bs None))"
proof (induction xs arbitrary: prev)
  case Nil
  then show ?case by (subst walk_sorted.simps) simp
next
  case (Cons x xs)
  then show ?case by (subst walk_sorted.simps) (simp add: Let_def)
qed

lemma sorted_split:
  assumes "sorted_levels bid get xs" "\<And>i. i \<in> set xs \<Longrightarrow> canonical (price_of get i)" "canonical price"
    and "\<And>i. i \<in> set xs \<Longrightarrow> price_of get i \<noteq> price"
    and "as = takeWhile (\<lambda>i. \<not> priceBetter bid price (price_of get i)) xs"
    and "bs = dropWhile (\<lambda>i. \<not> priceBetter bid price (price_of get i)) xs"
  shows "xs = as @ bs" "\<And>i. i \<in> set as \<Longrightarrow> priceBetter bid (price_of get i) price"
    "\<And>i. i \<in> set bs \<Longrightarrow> priceBetter bid price (price_of get i)"
proof -
  show xs: "xs = as @ bs" using assms(5,6) by simp
  show "priceBetter bid (price_of get i) price" if "i \<in> set as" for i
  proof -
    have "i \<in> set xs" "\<not> priceBetter bid price (price_of get i)" using that assms(5) set_takeWhileD by metis+
    then show ?thesis using priceBetter_total[of price "price_of get i" bid] assms(2-4) by metis
  qed
  show "priceBetter bid price (price_of get i)" if i: "i \<in> set bs" for i
  proof -
    obtain b ys where bs: "bs = b # ys" using i by (cases bs) auto
    then have b: "priceBetter bid price (price_of get b)"
      using assms(6) hd_dropWhile[of "\<lambda>i. \<not> priceBetter bid price (price_of get i)" xs] by auto
    have "sorted_levels bid get (b # ys)" using assms(1) xs bs by (simp add: sorted_levels_def sorted_wrt_append)
    then show ?thesis using b i bs priceBetter_trans[OF b] by (auto simp: sorted_levels_def)
  qed
qed

definition same_but_list :: "depth_side \<Rightarrow> depth_side \<Rightarrow> bool" where
  "same_but_list s s' \<longleftrightarrow> sd_slots s' = sd_slots s \<and> sd_tombstones s' = sd_tombstones s \<and> sd_is_bid s' = sd_is_bid s \<and>
     (\<forall>A. pool_ok s' A = pool_ok s A) \<and>
     (\<forall>i. pn_price (sd_get s' i) = pn_price (sd_get s i) \<and> pn_qty (sd_get s' i) = pn_qty (sd_get s i) \<and>
       pn_slot (sd_get s' i) = pn_slot (sd_get s i))"

lemma insertSorted_eq:
  assumes "walk_sorted (sd_is_bid s) (sd_get s) (pn_price (sd_get s node)) None (sd_head s) = Some (previous, current)"
  shows "\<exists>s'. depth_insertSorted node s = Ok s' () \<and> same_but_list s s' \<and>
    sd_get s' = put_prev current (Some node) (put_next previous (Some node)
      ((sd_get s)(node := sd_get s node\<lparr>pn_prev := previous, pn_next := current\<rparr>))) \<and>
    sd_head s' = (if previous = None then Some node else sd_head s) \<and>
    sd_tail s' = (if current = None then Some node else sd_tail s) \<and> sd_level_count s' = sd_level_count s + 1"
  by (cases previous; cases current)
    (simp_all add: depth_insertSorted_def assms Let_def same_but_list_def put_prev_def put_next_def)

lemma insertSorted_ok:
  assumes l: "list_ok s xs" and n: "node \<notin> set xs" "canonical (price_of (sd_get s) node)"
    and new: "\<And>i. i \<in> set xs \<Longrightarrow> price_of (sd_get s) i \<noteq> price_of (sd_get s) node"
  shows "\<exists>s' as bs. depth_insertSorted node s = Ok s' () \<and> same_but_list s s' \<and> xs = as @ bs \<and> list_ok s' (as @ node # bs)"
proof -
  let ?P = "\<lambda>i. \<not> priceBetter (sd_is_bid s) (price_of (sd_get s) node) (price_of (sd_get s) i)"
  define as bs where "as = takeWhile ?P xs" and "bs = dropWhile ?P xs"
  have L: "distinct xs" "dseg (sd_get s) None xs None" "sd_head s = first_of xs None" "sd_tail s = last_of None xs"
    "sorted_levels (sd_is_bid s) (sd_get s) xs" "\<And>i. i \<in> set xs \<Longrightarrow> canonical (price_of (sd_get s) i)"
    "sd_level_count s = length xs"
    using l by (auto simp: list_ok_def)
  note sp = sorted_split[OF L(5,6) n(2) new as_def bs_def]
  have "walk_sorted (sd_is_bid s) (sd_get s) (pn_price (sd_get s node)) None (sd_head s) =
      Some (last_of None as, first_of bs None)"
    unfolding L(3) using walk_sorted_ok[OF L(2)] by (simp add: as_def bs_def Let_def)
  from insertSorted_eq[OF this] obtain s' where s': "depth_insertSorted node s = Ok s' ()" "same_but_list s s'"
    "sd_get s' = put_prev (first_of bs None) (Some node) (put_next (last_of None as) (Some node)
      ((sd_get s)(node := sd_get s node\<lparr>pn_prev := last_of None as, pn_next := first_of bs None\<rparr>)))"
    "sd_head s' = (if last_of None as = None then Some node else sd_head s)"
    "sd_tail s' = (if first_of bs None = None then Some node else sd_tail s)" "sd_level_count s' = sd_level_count s + 1"
    by blast
  have p: "price_of (sd_get s') i = price_of (sd_get s) i" "sd_is_bid s' = sd_is_bid s" for i
    using s'(2) by (simp_all add: same_but_list_def)
  have "dseg (sd_get s') None (as @ node # bs) None"
    unfolding s'(3) using L(1,2) n(1) sp(1) by (intro dseg_insert) auto
  moreover have "sd_head s' = first_of (as @ node # bs) None" using s'(4) L(3) sp(1) by (cases as) (auto simp: last_of_def)
  moreover have "sd_tail s' = last_of None (as @ node # bs)" using s'(5) L(4) sp(1) by (cases bs) (auto simp: last_of_def)
  moreover have "sorted_levels (sd_is_bid s') (sd_get s') (as @ node # bs)"
  proof -
    have "sorted_levels (sd_is_bid s) (sd_get s) (as @ bs)" using L(5) sp(1) by simp
    then show ?thesis using sp(2,3) unfolding sorted_levels_def p by (simp add: sorted_wrt_append)
  qed
  moreover have "\<forall>i\<in>set (as @ node # bs). canonical (price_of (sd_get s') i)" using L(6) n(2) sp(1) p by auto
  moreover have "distinct (as @ node # bs)" "sd_level_count s' = length (as @ node # bs)"
    using L(1,7) n(1) sp(1) s'(6) by auto
  ultimately have "list_ok s' (as @ node # bs)" by (simp add: list_ok_def)
  then show ?thesis using s'(1,2) sp(1) by blast
qed

lemma insertSlot_ok:
  assumes t: "table_ok (sd_slots s) (sd_get s) A (sd_tombstones s)" and f: "finite A" "card A + sd_tombstones s < 8192"
    and n: "node \<notin> A"
  shows "\<exists>s' v. insertSlot node s = Ok s' () \<and> sd_get s' = (sd_get s)(node := sd_get s node\<lparr>pn_slot := v\<rparr>) \<and>
    table_ok (sd_slots s') (sd_get s') (insert node A) (sd_tombstones s') \<and> sd_tombstones s' = sd_tombstones s \<and>
    sd_head s' = sd_head s \<and> sd_tail s' = sd_tail s \<and> sd_is_bid s' = sd_is_bid s \<and>
    sd_level_count s' = sd_level_count s \<and> (\<forall>B. pool_ok s' B = pool_ok s B)"
proof -
  let ?h = "slotHome (pn_price (sd_get s node))"
  obtain D where D: "sd_slots s (nth_slot ?h D) = Vacant" "\<And>j. j < D \<Longrightarrow> sd_slots s (nth_slot ?h j) \<noteq> Vacant"
    using table_vacant[OF t f idx_slotHome, of "pn_price (sd_get s node)"] by blast
  have "\<exists>r'. probe_free (sd_slots s) (nth_slot ?h 0) kNoSlot = Some (nth_slot ?h D, r') \<and>
      (r' = kNoSlot \<or> (\<exists>p<D. r' = nth_slot ?h p \<and> sd_slots s r' = Tombstone))"
    using D by (intro probe_free_spec) auto
  then obtain r where r: "probe_free (sd_slots s) ?h kNoSlot = Some (nth_slot ?h D, r)"
    "r = kNoSlot \<or> (\<exists>p<D. r = nth_slot ?h p \<and> sd_slots s r = Tombstone)" by auto
  define v where "v = (if r \<noteq> kNoSlot then r else nth_slot ?h D)"
  obtain p where p: "v = nth_slot ?h p" "p \<le> D" "\<And>i. sd_slots s v \<noteq> Occupied i"
    using r(2) D(1) nth_slot_not_kNoSlot by (auto simp: v_def intro: that[of D])
  let ?n = "sd_get s node\<lparr>pn_slot := ucast v\<rparr>"
  let ?s = "sd_put node ?n (s\<lparr>sd_slots := (sd_slots s)(v := Occupied node)\<rparr>)"
  have "insertSlot node s = Ok ?s ()" by (simp add: insertSlot_def r(1) Let_def v_def)
  moreover have "table_ok ((sd_slots s)(v := Occupied node)) ((sd_get s)(node := ?n)) (insert node A) (sd_tombstones s)"
  proof (rule table_insert[OF t n])
    have h: "home_of ?n = ?h" by (simp add: home_of_def)
    show "v = nth_slot (home_of ?n) p" unfolding h by (rule p(1))
    show "sd_slots s (nth_slot (home_of ?n) q) \<noteq> Vacant" if "q < p" for q unfolding h using D(2)[of q] that p(2) by simp
    show "slot_of ?n = v" using ucast_idx[of v] p(1) by (simp add: slot_of_def)
  qed (rule p(3))
  ultimately show ?thesis by (intro exI[of _ ?s] exI[of _ "ucast v"]) simp
qed

section \<open>Setting and removing a level\<close>

lemma list_ok_put_qty:
  assumes "list_ok s xs"
  shows "list_ok (sd_put i (sd_get s i\<lparr>pn_qty := q\<rparr>) s) xs"
proof -
  let ?g = "(sd_get s)(i := sd_get s i\<lparr>pn_qty := q\<rparr>)"
  have p: "price_of ?g k = price_of (sd_get s) k" for k by simp
  have "dseg ?g None xs None = dseg (sd_get s) None xs None" by (rule dseg_cong) simp
  moreover have "sorted_levels (sd_is_bid s) ?g xs = sorted_levels (sd_is_bid s) (sd_get s) xs"
    unfolding sorted_levels_def p ..
  ultimately show ?thesis using assms unfolding list_ok_def sd_put_simps p by (simp add: p)
qed

lemma list_ok_slot:
  assumes "list_ok s xs" "sd_get s' = (sd_get s)(i := sd_get s i\<lparr>pn_slot := v\<rparr>)"
    "sd_head s' = sd_head s" "sd_tail s' = sd_tail s" "sd_is_bid s' = sd_is_bid s" "sd_level_count s' = sd_level_count s"
  shows "list_ok s' xs"
proof -
  have p: "price_of (sd_get s') k = price_of (sd_get s) k" for k by (simp add: assms(2))
  have "dseg (sd_get s') None xs None = dseg (sd_get s) None xs None" unfolding assms(2) by (rule dseg_cong) simp
  moreover have "sorted_levels (sd_is_bid s') (sd_get s') xs = sorted_levels (sd_is_bid s) (sd_get s) xs"
    unfolding sorted_levels_def p assms(5) ..
  ultimately show ?thesis using assms unfolding list_ok_def by (simp add: p)
qed

lemma sorted_levels_cong:
  assumes "\<And>i. i \<in> set xs \<Longrightarrow> price_of get' i = price_of get i"
  shows "sorted_levels bid get' xs = sorted_levels bid get xs"
  using assms unfolding sorted_levels_def by (induction xs) auto

lemma list_ok_frame:
  assumes "list_ok s xs" "\<And>i. i \<in> set xs \<Longrightarrow> sd_get s' i = sd_get s i"
    "sd_head s' = sd_head s" "sd_tail s' = sd_tail s" "sd_is_bid s' = sd_is_bid s" "sd_level_count s' = sd_level_count s"
  shows "list_ok s' xs"
proof -
  have "dseg (sd_get s') None xs None = dseg (sd_get s) None xs None" using assms(2) by (intro dseg_cong) simp
  moreover have "sorted_levels (sd_is_bid s') (sd_get s') xs = sorted_levels (sd_is_bid s) (sd_get s) xs"
    unfolding assms(5) using assms(2) by (intro sorted_levels_cong) simp
  ultimately show ?thesis using assms unfolding list_ok_def by simp
qed

lemma levels_ext:
  assumes "inj_on (price_of (sd_get s)) (set xs)" "inj_on (price_of (sd_get s')) (set xs')"
    and "\<And>p q. (\<exists>i\<in>set xs'. price_of (sd_get s') i = p \<and> pn_qty (sd_get s' i) = q) \<longleftrightarrow>
      f (map_of (levels_of s xs)) p = Some q"
  shows "map_of (levels_of s' xs') = f (map_of (levels_of s xs))"
proof
  fix p
  show "map_of (levels_of s' xs') p = f (map_of (levels_of s xs)) p"
    using levels_map_iff[OF assms(2), of p] assms(3)[of p] by (metis not_Some_eq)
qed

lemma side_inj: "side_ok s xs \<Longrightarrow> inj_on (price_of (sd_get s)) (set xs)"
  by (auto simp: side_ok_def list_ok_def intro: sorted_inj)

lemma upsert_ok:
  assumes r: "side_ok s xs" and c: "canonical price"
    and room: "price \<notin> dom (map_of (levels_of s xs)) \<Longrightarrow> length xs < kMaxPriceLevelsPerSide"
  shows "\<exists>s' xs'. upsertPrice price qty s = Ok s' () \<and> side_ok s' xs' \<and> sd_is_bid s' = sd_is_bid s \<and>
    map_of (levels_of s' xs') = (map_of (levels_of s xs))(price \<mapsto> qty)"
  using findNode_ok[OF r c]
proof (elim disjE conjE bexE)
  fix i assume i: "i \<in> set xs" "findNode s price = Some (Some i)" "price_of (sd_get s) i = price"
  let ?s = "sd_put i (sd_get s i\<lparr>pn_qty := qty\<rparr>) s"
  have "upsertPrice price qty s = Ok ?s ()" by (simp add: upsertPrice_def i(2))
  moreover have ok: "side_ok ?s xs"
    using r list_ok_put_qty[of s xs i qty] unfolding side_ok_def by (auto intro: table_cong)
  moreover have "map_of (levels_of ?s xs) = (map_of (levels_of s xs))(price \<mapsto> qty)"
  proof (rule levels_ext[OF side_inj[OF r] side_inj[OF ok], where f = "\<lambda>m. m(price \<mapsto> qty)"])
    show "(\<exists>k\<in>set xs. price_of (sd_get ?s) k = p \<and> pn_qty (sd_get ?s k) = q) \<longleftrightarrow>
        ((map_of (levels_of s xs))(price \<mapsto> qty)) p = Some q" for p q
      using levels_map_iff[OF side_inj[OF r], of p q] side_inj[OF r] i by (auto simp: inj_on_def)
  qed
  ultimately show ?thesis by (metis sd_put_simps(5))
next
  assume miss: "findNode s price = Some None" "\<forall>i\<in>set xs. price_of (sd_get s) i \<noteq> price"
  have L: "list_ok s xs" "pool_ok s (set xs)" "table_ok (sd_slots s) (sd_get s) (set xs) (sd_tombstones s)"
    "sd_tombstones s \<le> kMaxTombstonesPerSide"
    using r by (auto simp: side_ok_def)
  have len: "length xs < 4096"
    using room levels_map_None[of s xs price] miss(2) by (simp add: kMaxPriceLevelsPerSide_def domIff)
  then have "card (pool_live (sd_pool s)) < mp_size (sd_pool s)"
    using L(1,2) distinct_card[of xs] by (simp add: list_ok_def pool_ok_def kMaxPriceLevelsPerSide_def)
  moreover have "pool_inv (sd_pool s)" using L(2) by (simp add: pool_ok_def)
  ultimately obtain p node where a: "allocate price_level_node_init (sd_pool s) = Ok p node" "pool_inv p"
    "mp_size p = mp_size (sd_pool s)" "node \<notin> pool_live (sd_pool s)"
    "pool_live p = insert node (pool_live (sd_pool s))"
    "pool_get p = (pool_get (sd_pool s))(node := price_level_node_init)"
    using mp.alloc_obtains[of "sd_pool s" price_level_node_init] by metis
  have node: "node \<notin> set xs" using a(4) L(2) by (simp add: pool_ok_def)
  let ?n = "price_level_node_init\<lparr>pn_price := price, pn_qty := qty\<rparr>"
  define s1 where "s1 = sd_put node ?n (s\<lparr>sd_pool := p\<rparr>)"
  have g1: "sd_get s1 = (sd_get s)(node := ?n)" by (simp add: s1_def a(6))
  have f1: "sd_slots s1 = sd_slots s" "sd_head s1 = sd_head s" "sd_tail s1 = sd_tail s" "sd_is_bid s1 = sd_is_bid s"
    "sd_level_count s1 = sd_level_count s" "sd_tombstones s1 = sd_tombstones s"
    by (simp_all add: s1_def)
  have l1: "list_ok s1 xs" using node by (intro list_ok_frame[OF L(1)]) (auto simp: g1 f1)
  have "canonical (price_of (sd_get s1) node)" "\<And>i. i \<in> set xs \<Longrightarrow> price_of (sd_get s1) i \<noteq> price_of (sd_get s1) node"
    using c node miss(2) by (auto simp: g1)
  from insertSorted_ok[OF l1 node this] obtain s2 as bs where s2: "depth_insertSorted node s1 = Ok s2 ()" "same_but_list s1 s2"
    "xs = as @ bs" "list_ok s2 (as @ node # bs)"
    by blast
  have same: "sd_slots s2 = sd_slots s" "sd_tombstones s2 = sd_tombstones s" "sd_is_bid s2 = sd_is_bid s"
    "pn_price (sd_get s2 i) = (if i = node then price else price_of (sd_get s) i)"
    "pn_qty (sd_get s2 i) = (if i = node then qty else pn_qty (sd_get s i))"
    "i \<noteq> node \<Longrightarrow> pn_slot (sd_get s2 i) = pn_slot (sd_get s i)"
    "pool_ok s2 A = pool_ok s1 A" for i A
    using s2(2) by (auto simp: same_but_list_def g1 f1)
  have t2: "table_ok (sd_slots s2) (sd_get s2) (set xs) (sd_tombstones s2)"
    unfolding same(1,2) using node by (intro table_cong[OF L(3)]) (auto simp: same)
  have "card (set xs) + sd_tombstones s2 < 8192"
    using L(4) len card_length[of xs] by (simp add: same kMaxTombstonesPerSide_def)
  then obtain s3 v where s3: "insertSlot node s2 = Ok s3 ()" "sd_get s3 = (sd_get s2)(node := sd_get s2 node\<lparr>pn_slot := v\<rparr>)"
    "table_ok (sd_slots s3) (sd_get s3) (insert node (set xs)) (sd_tombstones s3)" "sd_tombstones s3 = sd_tombstones s2"
    "sd_head s3 = sd_head s2" "sd_tail s3 = sd_tail s2" "sd_is_bid s3 = sd_is_bid s2" "sd_level_count s3 = sd_level_count s2"
    "\<And>B. pool_ok s3 B = pool_ok s2 B"
    using insertSlot_ok[OF t2 _ _ node] by auto
  have "upsertPrice price qty s = Ok s3 ()"
  proof -
    have "sd_put node (sd_get (sd_put node (sd_get (s\<lparr>sd_pool := p\<rparr>) node\<lparr>pn_price := price\<rparr>) (s\<lparr>sd_pool := p\<rparr>)) node\<lparr>pn_qty := qty\<rparr>)
        (sd_put node (sd_get (s\<lparr>sd_pool := p\<rparr>) node\<lparr>pn_price := price\<rparr>) (s\<lparr>sd_pool := p\<rparr>)) = s1"
      by (simp add: s1_def a(6))
    with miss(1) a(1) s2(1) s3(1) show ?thesis by (simp add: upsertPrice_def Let_def)
  qed
  moreover have bid: "sd_is_bid s3 = sd_is_bid s" using s3(7) same(3) by simp
  moreover have ok: "side_ok s3 (as @ node # bs)"
  proof -
    have "pool_ok s1 (insert node (set xs))" unfolding s1_def using a(2,3,5) L(2) by (simp add: pool_ok_def sd_put_def)
    then have "pool_ok s3 (set (as @ node # bs))" using s3(9) s2(3) same(7) by simp
    moreover have "list_ok s3 (as @ node # bs)" by (rule list_ok_slot[OF s2(4) s3(2,5,6,7,8)])
    moreover have "set (as @ node # bs) = insert node (set xs)" using s2(3) by auto
    ultimately show ?thesis using s3(3,4) L(4) same(2) by (simp add: side_ok_def)
  qed
  moreover have "map_of (levels_of s3 (as @ node # bs)) = (map_of (levels_of s xs))(price \<mapsto> qty)"
  proof (rule levels_ext[OF side_inj[OF r] side_inj[OF ok], where f = "\<lambda>m. m(price \<mapsto> qty)"])
    have pq: "price_of (sd_get s3) k = (if k = node then price else price_of (sd_get s) k)"
      "pn_qty (sd_get s3 k) = (if k = node then qty else pn_qty (sd_get s k))" for k
      using s3(2) same(4,5) by simp_all
    show "(\<exists>k\<in>set (as @ node # bs). price_of (sd_get s3) k = x \<and> pn_qty (sd_get s3 k) = q) \<longleftrightarrow>
        ((map_of (levels_of s xs))(price \<mapsto> qty)) x = Some q" for x q
      using levels_map_iff[OF side_inj[OF r], of x q] node miss(2) s2(3) unfolding pq by auto
  qed
  ultimately show ?thesis by blast
qed

lemma unlink_ok:
  assumes l: "list_ok s (as @ node # bs)"
  shows "same_but_list s (depth_unlink node s) \<and> list_ok (depth_unlink node s\<lparr>sd_level_count := length (as @ bs)\<rparr>) (as @ bs)"
proof -
  let ?s = "depth_unlink node s"
  have L: "distinct (as @ node # bs)" "dseg (sd_get s) None (as @ node # bs) None" "sd_head s = first_of (as @ node # bs) None"
    "sd_tail s = last_of None (as @ node # bs)" "sorted_levels (sd_is_bid s) (sd_get s) (as @ node # bs)"
    "\<And>i. i \<in> set (as @ node # bs) \<Longrightarrow> canonical (price_of (sd_get s) i)"
    using l by (auto simp: list_ok_def)
  have n: "pn_prev (sd_get s node) = last_of None as" "pn_next (sd_get s node) = first_of bs None"
    using L(2) by (simp_all add: dseg_append)
  have ne: "last_of None as \<noteq> Some node" using L(1) last_of_in[of as node] by auto
  have eq: "sd_get ?s = put_prev (first_of bs None) (last_of None as) (put_next (last_of None as) (first_of bs None) (sd_get s))"
    "sd_head ?s = (if as = [] then first_of bs None else sd_head s)"
    "sd_tail ?s = (if bs = [] then last_of None as else sd_tail s)" "same_but_list s ?s"
    using n ne by (cases as rule: rev_cases; cases bs; simp add: depth_unlink_def Let_def put_prev_def put_next_def same_but_list_def)+
  have p: "price_of (sd_get ?s) i = price_of (sd_get s) i" "sd_is_bid ?s = sd_is_bid s" for i
    using eq(4) by (simp_all add: same_but_list_def)
  have "dseg (sd_get ?s) None (as @ bs) None" unfolding eq(1) using dseg_delete[OF L(2,1)] .
  moreover have "sd_head ?s = first_of (as @ bs) None" using eq(2) L(3) by (cases as) simp_all
  moreover have "sd_tail ?s = last_of None (as @ bs)" using eq(3) L(4) by (cases bs) (simp_all add: last_of_def)
  moreover have "sorted_levels (sd_is_bid ?s) (sd_get ?s) (as @ bs)"
    using L(5) unfolding sorted_levels_def p by (auto simp: sorted_wrt_append)
  moreover have "\<forall>i\<in>set (as @ bs). canonical (price_of (sd_get ?s) i)" using L(6) p by auto
  ultimately have "list_ok (?s\<lparr>sd_level_count := length (as @ bs)\<rparr>) (as @ bs)" using L(1) by (auto simp: list_ok_def)
  with eq(4) show ?thesis by blast
qed

text \<open>Rebuilding the table from the list: the loop ends and leaves no tombstone.\<close>

lemma rehash_from_ok:
  assumes "dseg (sd_get s) prev ys None" "distinct (xs @ ys)" "length (xs @ ys) \<le> 4096"
    "table_ok (sd_slots s) (sd_get s) (set xs) 0" "sd_tombstones s = 0"
  shows "\<exists>s'. rehash_from (first_of ys None) s = Some s' \<and>
    table_ok (sd_slots s') (sd_get s') (set (xs @ ys)) 0 \<and> sd_tombstones s' = 0 \<and>
    (\<forall>i. \<exists>v. sd_get s' i = sd_get s i\<lparr>pn_slot := v\<rparr>) \<and>
    sd_head s' = sd_head s \<and> sd_tail s' = sd_tail s \<and> sd_is_bid s' = sd_is_bid s \<and>
    sd_level_count s' = sd_level_count s \<and> (\<forall>B. pool_ok s' B = pool_ok s B)"
  using assms
proof (induction ys arbitrary: s prev xs)
  case Nil
  have "\<exists>v. sd_get s i = sd_get s i\<lparr>pn_slot := v\<rparr>" for i by (rule exI[of _ "pn_slot (sd_get s i)"]) simp
  with Nil show ?case by (subst rehash_from.simps) simp
next
  case (Cons y ys)
  let ?h = "slotHome (pn_price (sd_get s y))"
  have "card (set xs) + 0 < 8192" using Cons.prems(3) card_length[of xs] by simp
  then obtain D where D: "sd_slots s (nth_slot ?h D) = Vacant" "\<And>j. j < D \<Longrightarrow> sd_slots s (nth_slot ?h j) \<noteq> Vacant"
    using table_vacant[OF Cons.prems(4) _ _ idx_slotHome, of "pn_price (sd_get s y)"] by blast
  define v where "v = nth_slot ?h D"
  have "probe_vacant (sd_slots s) (nth_slot ?h 0) = Some v"
    unfolding v_def using D by (intro probe_vacant_spec) auto
  then have pv: "probe_vacant (sd_slots s) ?h = Some v" by simp
  let ?n = "sd_get s y\<lparr>pn_slot := ucast v\<rparr>"
  define s1 where "s1 = sd_put y ?n (s\<lparr>sd_slots := (sd_slots s)(v := Occupied y)\<rparr>)"
  have g1: "sd_get s1 = (sd_get s)(y := ?n)" "sd_slots s1 = (sd_slots s)(v := Occupied y)" "sd_head s1 = sd_head s"
    "sd_tail s1 = sd_tail s" "sd_is_bid s1 = sd_is_bid s" "sd_level_count s1 = sd_level_count s"
    "sd_tombstones s1 = sd_tombstones s" "pool_ok s1 B = pool_ok s B" for B
    by (simp_all add: s1_def)
  have h: "home_of ?n = ?h" by (simp add: home_of_def)
  have t1: "table_ok (sd_slots s1) (sd_get s1) (insert y (set xs)) 0"
    unfolding g1(1,2)
  proof (rule table_insert[OF Cons.prems(4)])
    show "y \<notin> set xs" using Cons.prems(2) by simp
    show "v = nth_slot (home_of ?n) D" unfolding h by (rule v_def)
    show "sd_slots s v \<noteq> Occupied i" for i using D(1) by (simp add: v_def)
    show "sd_slots s (nth_slot (home_of ?n) q) \<noteq> Vacant" if "q < D" for q unfolding h using D(2)[OF that] .
    show "slot_of ?n = v" using ucast_idx[of v] by (simp add: slot_of_def v_def)
  qed
  have "dseg (sd_get s1) (Some y) ys None = dseg (sd_get s) (Some y) ys None" unfolding g1(1) by (rule dseg_cong) simp
  then have d1: "dseg (sd_get s1) (Some y) ys None" using Cons.prems(1) by simp
  have "\<exists>s'. rehash_from (first_of ys None) s1 = Some s' \<and>
    table_ok (sd_slots s') (sd_get s') (set ((xs @ [y]) @ ys)) 0 \<and> sd_tombstones s' = 0 \<and>
    (\<forall>i. \<exists>v. sd_get s' i = sd_get s1 i\<lparr>pn_slot := v\<rparr>) \<and>
    sd_head s' = sd_head s1 \<and> sd_tail s' = sd_tail s1 \<and> sd_is_bid s' = sd_is_bid s1 \<and>
    sd_level_count s' = sd_level_count s1 \<and> (\<forall>B. pool_ok s' B = pool_ok s1 B)"
    using Cons.prems(2,3,5) t1 g1(7) by (intro Cons.IH[OF d1]) auto
  then obtain s' where s': "rehash_from (first_of ys None) s1 = Some s'"
    "table_ok (sd_slots s') (sd_get s') (set (xs @ y # ys)) 0" "sd_tombstones s' = 0"
    "\<And>i. \<exists>v. sd_get s' i = sd_get s1 i\<lparr>pn_slot := v\<rparr>"
    "sd_head s' = sd_head s" "sd_tail s' = sd_tail s" "sd_is_bid s' = sd_is_bid s"
    "sd_level_count s' = sd_level_count s" "\<And>B. pool_ok s' B = pool_ok s B"
    using g1 by auto
  have "pn_next (sd_get s y) = first_of ys None" using Cons.prems(1) by simp
  then have "rehash_from (Some y) s = rehash_from (first_of ys None) s1"
    by (subst rehash_from.simps) (simp add: pv Let_def flip: s1_def)
  moreover have "\<exists>v. sd_get s' i = sd_get s i\<lparr>pn_slot := v\<rparr>" for i
    using s'(4)[of i] by (cases "i = y") (auto simp: g1(1))
  ultimately show ?case using s' by (intro exI[of _ s']) simp
qed

lemma list_ok_slots:
  assumes "list_ok s xs" "\<And>i. \<exists>v. sd_get s' i = sd_get s i\<lparr>pn_slot := v\<rparr>"
    "sd_head s' = sd_head s" "sd_tail s' = sd_tail s" "sd_is_bid s' = sd_is_bid s" "sd_level_count s' = sd_level_count s"
  shows "list_ok s' xs"
proof -
  have p: "pn_price (sd_get s' i) = pn_price (sd_get s i)" "pn_prev (sd_get s' i) = pn_prev (sd_get s i)"
    "pn_next (sd_get s' i) = pn_next (sd_get s i)" for i
    using assms(2)[of i] by auto
  have "dseg (sd_get s') None xs None = dseg (sd_get s) None xs None" by (rule dseg_cong) (simp add: p)
  moreover have "sorted_levels (sd_is_bid s') (sd_get s') xs = sorted_levels (sd_is_bid s) (sd_get s) xs"
    unfolding assms(5) by (rule sorted_levels_cong) (simp add: p)
  ultimately show ?thesis using assms unfolding list_ok_def by (simp add: p)
qed

lemma rehash_ok:
  assumes "list_ok s xs" "pool_ok s (set xs)"
  shows "\<exists>s'. rehashSlots s = Ok s' () \<and> side_ok s' xs \<and> sd_is_bid s' = sd_is_bid s \<and> levels_of s' xs = levels_of s xs"
proof -
  let ?s = "s\<lparr>sd_slots := (\<lambda>_. Vacant), sd_tombstones := 0\<rparr>"
  have L: "dseg (sd_get s) None xs None" "distinct xs" "sd_head s = first_of xs None" using assms(1) by (auto simp: list_ok_def)
  have "set xs \<subseteq> {..<4096}"
    using pool_live_subset[of "sd_pool s"] assms(2) by (auto simp: pool_ok_def kMaxPriceLevelsPerSide_def)
  then have len: "length xs \<le> 4096" using card_mono[of "{..<4096 :: nat}" "set xs"] distinct_card[OF L(2)] by simp
  have "dseg (sd_get ?s) None xs None" "distinct ([] @ xs)" "length ([] @ xs) \<le> 4096"
    "table_ok (sd_slots ?s) (sd_get ?s) (set []) 0" "sd_tombstones ?s = 0"
    using L len table_empty by simp_all
  from rehash_from_ok[OF this] obtain s' where s': "rehash_from (first_of xs None) ?s = Some s'"
    "table_ok (sd_slots s') (sd_get s') (set xs) 0" "sd_tombstones s' = 0"
    "\<And>i. \<exists>v. sd_get s' i = sd_get s i\<lparr>pn_slot := v\<rparr>"
    "sd_head s' = sd_head s" "sd_tail s' = sd_tail s" "sd_is_bid s' = sd_is_bid s"
    "sd_level_count s' = sd_level_count s" "\<And>B. pool_ok s' B = pool_ok s B"
    by auto
  have "rehashSlots s = Ok s' ()" using s'(1) by (simp add: rehashSlots_def L(3))
  moreover have "list_ok s' xs" by (rule list_ok_slots[OF assms(1) s'(4-8)])
  moreover have "levels_of s' xs = levels_of s xs"
  proof -
    have "pn_price (sd_get s' i) = pn_price (sd_get s i)" "pn_qty (sd_get s' i) = pn_qty (sd_get s i)" for i
      using s'(4)[of i] by auto
    then show ?thesis by (simp add: levels_of_def)
  qed
  ultimately show ?thesis using s'(2,3,7,9) assms(2) by (auto simp: side_ok_def)
qed

lemma remove_ok:
  assumes r: "side_ok s xs" and c: "canonical price"
  shows "\<exists>s' xs'. removePrice price s = Ok s' () \<and> side_ok s' xs' \<and> sd_is_bid s' = sd_is_bid s \<and>
    map_of (levels_of s' xs') = (map_of (levels_of s xs))(price := None)"
  using findNode_ok[OF r c]
proof (elim disjE conjE bexE)
  assume miss: "findNode s price = Some None" "\<forall>i\<in>set xs. price_of (sd_get s) i \<noteq> price"
  have "removePrice price s = Ok s ()" by (simp add: removePrice_def miss(1))
  moreover have "(map_of (levels_of s xs))(price := None) = map_of (levels_of s xs)"
    using levels_map_None[of s xs price] miss(2) by (simp add: fun_upd_idem)
  ultimately show ?thesis using r by metis
next
  fix node assume i: "node \<in> set xs" "findNode s price = Some (Some node)" "price_of (sd_get s) node = price"
  have L: "list_ok s xs" "pool_ok s (set xs)" "table_ok (sd_slots s) (sd_get s) (set xs) (sd_tombstones s)"
    using r by (auto simp: side_ok_def)
  obtain as bs where xs: "xs = as @ node # bs" using i(1) by (meson split_list)
  have nd: "node \<notin> set (as @ bs)" "set (as @ bs) = set xs - {node}" using L(1) xs by (auto simp: list_ok_def)
  let ?v = "slot_of (sd_get s node)"
  define s1 where "s1 = s\<lparr>sd_slots := (sd_slots s)(?v := Tombstone), sd_tombstones := sd_tombstones s + 1\<rparr>"
  have "list_ok s1 (as @ node # bs)" using L(1) xs by (simp add: list_ok_def s1_def)
  note u = unlink_ok[OF this]
  let ?s2 = "depth_unlink node s1"
  have p2: "pool_ok ?s2 (set xs)" using u L(2) by (simp add: same_but_list_def s1_def)
  then have "pool_inv (sd_pool ?s2)" "node \<in> pool_live (sd_pool ?s2)" using i(1) by (simp_all add: pool_ok_def)
  from mp.dealloc_obtains[OF this] obtain p where p: "deallocate node (sd_pool ?s2) = Ok p ()" "pool_inv p"
    "mp_size p = mp_size (sd_pool ?s2)" "pool_live p = pool_live (sd_pool ?s2) - {node}" "pool_get p = sd_get ?s2"
    by metis
  define s3 where "s3 = ?s2\<lparr>sd_pool := p, sd_level_count := sd_level_count ?s2 - 1\<rparr>"
  have cnt: "sd_level_count ?s2 = length xs"
    using L(1) by (simp add: list_ok_def depth_unlink_def Let_def s1_def sd_put_def split: option.split)
  have g3: "sd_get s3 = sd_get ?s2" "sd_slots s3 = sd_slots s1" "sd_tombstones s3 = sd_tombstones s + 1" "sd_is_bid s3 = sd_is_bid s"
    using p(5) u by (simp_all add: s3_def same_but_list_def s1_def)
  have l3: "list_ok s3 (as @ bs)"
    using u p(5) cnt unfolding s3_def by (simp add: list_ok_def xs)
  have p3: "pool_ok s3 (set (as @ bs))" using p(2-4) p2 nd(2) by (simp add: pool_ok_def s3_def)
  have t3: "table_ok (sd_slots s3) (sd_get s3) (set (as @ bs)) (sd_tombstones s3)"
  proof -
    have "table_ok ((sd_slots s)(?v := Tombstone)) (sd_get s) (set xs - {node}) (sd_tombstones s + 1)"
      by (rule table_delete[OF L(3) i(1)])
    then show ?thesis
      unfolding g3 nd(2) s1_def using u by (auto intro: table_cong simp: same_but_list_def s1_def)
  qed
  have m3: "map_of (levels_of s3 (as @ bs)) = (map_of (levels_of s xs))(price := None)"
  proof (rule levels_ext[OF side_inj[OF r], where f = "\<lambda>m. m(price := None)"])
    show inj3: "inj_on (price_of (sd_get s3)) (set (as @ bs))" using l3 unfolding list_ok_def by (blast intro: sorted_inj)
    have pq: "price_of (sd_get s3) k = price_of (sd_get s) k" "pn_qty (sd_get s3 k) = pn_qty (sd_get s k)" for k
      using u by (simp_all add: g3 same_but_list_def s1_def)
    have other: "price_of (sd_get s) k \<noteq> price" if "k \<in> set (as @ bs)" for k
      using that nd i side_inj[OF r] by (auto dest: inj_onD)
    show "(\<exists>k\<in>set (as @ bs). price_of (sd_get s3) k = x \<and> pn_qty (sd_get s3 k) = q) \<longleftrightarrow>
        ((map_of (levels_of s xs))(price := None)) x = Some q" for x q
      using levels_map_iff[OF side_inj[OF r], of x q] other xs i(3) unfolding pq by auto
  qed
  have rm: "removePrice price s = (if sd_tombstones s3 > kMaxTombstonesPerSide then rehashSlots s3 else Ok s3 ())"
    using p(1) unfolding removePrice_def i(2) s3_def s1_def slot_of_def by (simp add: Let_def)
  show ?thesis
  proof (cases "sd_tombstones s3 > kMaxTombstonesPerSide")
    case True
    with rehash_ok[OF l3 p3] rm m3 g3(4) show ?thesis by metis
  next
    case False
    then have "side_ok s3 (as @ bs)" using l3 p3 t3 by (simp add: side_ok_def)
    with False rm m3 g3(4) show ?thesis by metis
  qed
qed

section \<open>Clearing\<close>

lemma clear_nodes_ok:
  assumes "dseg (pool_get p) prev xs None" "distinct xs" "pool_inv p" "pool_live p = set xs"
  shows "\<exists>p'. clear_nodes (first_of xs None) p = Some (Ok p' ()) \<and> pool_inv p' \<and> mp_size p' = mp_size p \<and> pool_live p' = {}"
  using assms
proof (induction xs arbitrary: p prev)
  case Nil
  then show ?case by (subst clear_nodes.simps) simp
next
  case (Cons x xs)
  then have "x \<in> pool_live p" by simp
  from mp.dealloc_obtains[OF Cons.prems(3) this] obtain q where q: "deallocate x p = Ok q ()" "pool_inv q"
    "mp_size q = mp_size p" "pool_live q = pool_live p - {x}" "pool_get q = pool_get p" by metis
  have d: "dseg (pool_get q) (Some x) xs None" "distinct xs" using Cons.prems(1,2) q(5) by simp_all
  moreover have "pool_live q = set xs" using q(4) Cons.prems(2,4) by auto
  ultimately obtain p' where "clear_nodes (first_of xs None) q = Some (Ok p' ())" "pool_inv p'" "mp_size p' = mp_size q" "pool_live p' = {}"
    using Cons.IH[OF d q(2)] by blast
  moreover have "clear_nodes (first_of (x # xs) None) p = clear_nodes (first_of xs None) q"
    using q(1) Cons.prems(1) by (subst clear_nodes.simps) simp
  ultimately show ?case using q(3) by simp
qed

lemma side_ok_empty:
  assumes "pool_ok s {}" "sd_head s = None" "sd_tail s = None" "sd_level_count s = 0" "sd_slots s = (\<lambda>_. Vacant)" "sd_tombstones s = 0"
  shows "side_ok s []"
  using assms by (simp add: side_ok_def list_ok_def sorted_levels_def table_empty)

lemma clear_ok:
  assumes "side_ok s xs"
  shows "\<exists>s'. clearSide s = Ok s' () \<and> side_ok s' [] \<and> sd_is_bid s' = sd_is_bid s"
proof -
  have "dseg (sd_get s) None xs None" "distinct xs" "pool_inv (sd_pool s)" "pool_live (sd_pool s) = set xs"
    "sd_head s = first_of xs None" "mp_size (sd_pool s) = kMaxPriceLevelsPerSide"
    using assms by (auto simp: side_ok_def list_ok_def pool_ok_def)
  with clear_nodes_ok[of "sd_pool s" None xs] obtain p where p: "clear_nodes (sd_head s) (sd_pool s) = Some (Ok p ())"
    "pool_inv p" "mp_size p = kMaxPriceLevelsPerSide" "pool_live p = {}" by auto
  let ?s = "s\<lparr>sd_pool := p, sd_slots := (\<lambda>_. Vacant), sd_head := None, sd_tail := None, sd_level_count := 0, sd_tombstones := 0\<rparr>"
  have "clearSide s = Ok ?s ()" by (simp add: clearSide_def p(1))
  moreover have "side_ok ?s []" using p(2-4) by (intro side_ok_empty) (simp_all add: pool_ok_def)
  ultimately show ?thesis by (intro exI[of _ ?s]) simp
qed

lemma depth_side_new_ok: "side_ok (depth_side_new bid) []" "sd_is_bid (depth_side_new bid) = bid"
proof -
  obtain p where p: "mem_pool_new price_level_node_init kMaxPriceLevelsPerSide = Inr p"
    by (simp add: mem_pool_new_def kMaxPriceLevelsPerSide_def)
  then have "pool_ok (depth_side_new bid) {}" using pool_new_inv[OF p] by (simp add: pool_ok_def depth_side_new_def)
  then show "side_ok (depth_side_new bid) []" by (rule side_ok_empty) (simp_all add: depth_side_new_def)
qed (simp add: depth_side_new_def)

lemma card_levels: "side_ok s xs \<Longrightarrow> card (dom (map_of (levels_of s xs))) = length xs"
proof -
  assume r: "side_ok s xs"
  have "dom (map_of (levels_of s xs)) = price_of (sd_get s) ` set xs"
    by (force simp: dom_map_of_conv_image_fst levels_of_def)
  moreover have "distinct xs" using r by (simp add: side_ok_def list_ok_def)
  ultimately show ?thesis using card_image[OF side_inj[OF r]] by (simp add: distinct_card)
qed

end
