(* ===== verification/Json.thy ===== *)
theory Json
  imports Binary64 Prelude
begin

text \<open>
  What the program uses of the JSON library \<open>nlohmann::json\<close>, which is not part of the repository:
  a value of type \<open>'j json_api\<close> holds the library's accessors and constructors, and every
  definition that reads or builds a document takes it as an argument. An accessor that throws
  returns \<open>Inl\<close> of the exception; an unchecked index outside an array is \<open>None\<close>.
\<close>

record 'j json_api =
  js_null :: 'j
  js_parse :: "string \<Rightarrow> exn + 'j"
  js_dump :: "'j \<Rightarrow> string"
  js_contains :: "'j \<Rightarrow> string \<Rightarrow> bool"
  js_at :: "'j \<Rightarrow> string \<Rightarrow> exn + 'j"
  js_index :: "'j \<Rightarrow> nat \<Rightarrow> (exn + 'j) option"
  js_elements :: "'j \<Rightarrow> 'j list"
  js_items :: "'j \<Rightarrow> (string \<times> 'j) list"
  js_u64 :: "'j \<Rightarrow> exn + 64 word"
  js_i64 :: "'j \<Rightarrow> exn + 64 word"
  js_f64 :: "'j \<Rightarrow> exn + f64"
  js_text :: "'j \<Rightarrow> exn + string"
  js_boolean :: "'j \<Rightarrow> exn + bool"
  js_is_object :: "'j \<Rightarrow> bool"
  js_is_array :: "'j \<Rightarrow> bool"
  js_is_string :: "'j \<Rightarrow> bool"
  js_is_number :: "'j \<Rightarrow> bool"
  js_equal :: "'j \<Rightarrow> 'j \<Rightarrow> bool"
  js_object :: "(string \<times> 'j) list \<Rightarrow> 'j"
  js_array :: "'j list \<Rightarrow> 'j"
  js_of_string :: "string \<Rightarrow> 'j"
  js_of_u64 :: "64 word \<Rightarrow> 'j"
  js_of_i64 :: "64 word \<Rightarrow> 'j"
  js_of_f64 :: "f64 \<Rightarrow> 'j"
  js_of_bool :: "bool \<Rightarrow> 'j"

text \<open>A computation that may throw, inside a call on a state: the state is as the call leaves it.\<close>

definition try_with :: "'s \<Rightarrow> exn + 'b \<Rightarrow> ('b \<Rightarrow> ('s, 'a) outcome) \<Rightarrow> ('s, 'a) outcome" where
  "try_with s r f = (case r of Inl e \<Rightarrow> Throw s e | Inr x \<Rightarrow> f x)"

lemma try_with_simps [simp]: "try_with s (Inl e) f = Throw s e" "try_with s (Inr x) f = f x"
  by (simp_all add: try_with_def)

definition bind_exn :: "exn + 'b \<Rightarrow> ('b \<Rightarrow> exn + 'c) \<Rightarrow> exn + 'c" where
  "bind_exn r f = (case r of Inl e \<Rightarrow> Inl e | Inr x \<Rightarrow> f x)"

lemma bind_exn_simps [simp]: "bind_exn (Inl e) f = Inl e" "bind_exn (Inr x) f = f x"
  by (simp_all add: bind_exn_def)

lemma bind_exn_Inr_iff: "bind_exn r f = Inr y \<longleftrightarrow> (\<exists>x. r = Inr x \<and> f x = Inr y)"
  by (cases r) simp_all

text \<open>
  \<open>j.value(key, default)\<close>: the default only when an object lacks the key, an exception when \<open>j\<close> is no
  object; an \<open>int\<close> keeps the low 32 bits.
\<close>

definition js_value :: "'j json_api \<Rightarrow> ('j \<Rightarrow> exn + 'a) \<Rightarrow> 'j \<Rightarrow> string \<Rightarrow> 'a \<Rightarrow> exn + 'a" where
  "js_value api get j key otherwise =
     (if js_is_object api j \<and> \<not> js_contains api j key then Inr otherwise else bind_exn (js_at api j key) get)"

definition js_int :: "'j json_api \<Rightarrow> 'j \<Rightarrow> exn + int" where
  "js_int api j = bind_exn (js_i64 api j) (\<lambda>w. Inr (sint (ucast w :: 32 word)))"

definition js_get_text :: "'j json_api \<Rightarrow> 'j \<Rightarrow> string \<Rightarrow> exn + string" where
  "js_get_text api j key = bind_exn (js_at api j key) (js_text api)"

section \<open>An instance for the examples\<close>

datatype doc = Null | Bool bool | U64 "64 word" | I64 "64 word" | F64 f64 | Str string | Arr "doc list" | Obj "(string \<times> doc) list"

definition type_error :: "exn + 'b" where
  "type_error = Inl (Runtime_error ''type_error'')"

definition doc_api :: "doc json_api" where
  "doc_api =
     \<lparr>js_null = Null,
      js_parse = (\<lambda>s. Inl (Runtime_error ''parse_error'')), js_dump = (\<lambda>d. []),
      js_contains = (\<lambda>d k. case d of Obj kvs \<Rightarrow> map_of kvs k \<noteq> None | _ \<Rightarrow> False),
      js_at = (\<lambda>d k. case d of Obj kvs \<Rightarrow> (case map_of kvs k of Some v \<Rightarrow> Inr v | None \<Rightarrow> type_error) | _ \<Rightarrow> type_error),
      js_index = (\<lambda>d i. case d of Arr ds \<Rightarrow> if i < length ds then Some (Inr (ds ! i)) else None | _ \<Rightarrow> Some type_error),
      js_elements = (\<lambda>d. case d of Arr ds \<Rightarrow> ds | Obj kvs \<Rightarrow> map snd kvs | Null \<Rightarrow> [] | _ \<Rightarrow> [d]),
      js_items = (\<lambda>d. case d of Obj kvs \<Rightarrow> kvs | _ \<Rightarrow> []),
      js_u64 = (\<lambda>d. case d of U64 w \<Rightarrow> Inr w | _ \<Rightarrow> type_error),
      js_i64 = (\<lambda>d. case d of I64 w \<Rightarrow> Inr w | U64 w \<Rightarrow> Inr w | _ \<Rightarrow> type_error),
      js_f64 = (\<lambda>d. case d of F64 x \<Rightarrow> Inr x | _ \<Rightarrow> type_error),
      js_text = (\<lambda>d. case d of Str s \<Rightarrow> Inr s | _ \<Rightarrow> type_error),
      js_boolean = (\<lambda>d. case d of Bool b \<Rightarrow> Inr b | _ \<Rightarrow> type_error),
      js_is_object = (\<lambda>d. case d of Obj _ \<Rightarrow> True | _ \<Rightarrow> False),
      js_is_array = (\<lambda>d. case d of Arr _ \<Rightarrow> True | _ \<Rightarrow> False),
      js_is_string = (\<lambda>d. case d of Str _ \<Rightarrow> True | _ \<Rightarrow> False),
      js_is_number = (\<lambda>d. case d of U64 _ \<Rightarrow> True | I64 _ \<Rightarrow> True | F64 _ \<Rightarrow> True | _ \<Rightarrow> False),
      js_equal = (\<lambda>d e. d = e),
      js_object = Obj, js_array = Arr, js_of_string = Str, js_of_u64 = U64, js_of_i64 = I64, js_of_f64 = F64, js_of_bool = Bool\<rparr>"

end
