(* ===== verification/DepthFeed.thy ===== *)
theory DepthFeed
  imports DepthMap Json CommonTypes Drain
begin

text \<open>
  \<open>trading/venue/binance/binance_depth_book.{h,cpp}\<close>, the book: two sides, the sequence check of
  the stream events, the bounded ring of the events that arrive before the snapshot, and the market
  update that is published. Events are JSON values, read through the accessors of \<open>Json\<close>.
\<close>

section \<open>Model\<close>

definition kPendingEventCapacity :: nat where "kPendingEventCapacity = 512"

record 'j depth_book =
  db_bids :: depth_side
  db_asks :: depth_side
  db_last_update_id :: "64 word"
  db_snapshot_ready :: bool
  db_pending_events :: "nat \<Rightarrow> 'j"
  db_pending_head :: nat
  db_pending_size :: nat

definition depth_book_new :: "'j json_api \<Rightarrow> 'j depth_book" where
  "depth_book_new J =
     \<lparr>db_bids = depth_side_new True, db_asks = depth_side_new False, db_last_update_id = 0,
      db_snapshot_ready = False, db_pending_events = (\<lambda>_. js_null J), db_pending_head = 0, db_pending_size = 0\<rparr>"

text \<open>A number of a level: the level is indexed, its element read as text, the text converted.\<close>

definition level_number :: "'j json_api \<Rightarrow> nat \<Rightarrow> 'j \<Rightarrow> (exn + double) option" where
  "level_number J i level = map_option (\<lambda>r. bind_exn (bind_exn r (js_text J)) stod) (js_index J level i)"

definition levelPrice :: "'j json_api \<Rightarrow> 'j \<Rightarrow> (exn + double) option" where
  "levelPrice J = level_number J 0"

definition levelQuantity :: "'j json_api \<Rightarrow> 'j \<Rightarrow> (exn + double) option" where
  "levelQuantity J = level_number J 1"

text \<open>The body of the loops over levels; \<open>remove_zero\<close> is true for the stream events.\<close>

definition level_step :: "'j json_api \<Rightarrow> bool \<Rightarrow> 'j \<Rightarrow> depth_side \<Rightarrow> (depth_side, unit) outcome" where
  "level_step J remove_zero level s =
     deref (levelPrice J level) (\<lambda>price. try_with s price (\<lambda>price.
     deref (levelQuantity J level) (\<lambda>quantity. try_with s quantity (\<lambda>quantity.
       if remove_zero \<and> d_eq quantity 0 then removePrice price s else upsertPrice price quantity s))))"

fun level_loop :: "'j json_api \<Rightarrow> bool \<Rightarrow> 'j list \<Rightarrow> depth_side \<Rightarrow> (depth_side, unit) outcome" where
  "level_loop J z [] s = Ok s ()"
| "level_loop J z (l # ls) s = then_do (level_step J z l s) (\<lambda>s _. level_loop J z ls s)"

definition bids_loop :: "'j json_api \<Rightarrow> bool \<Rightarrow> 'j list \<Rightarrow> 'j depth_book \<Rightarrow> ('j depth_book, unit) outcome" where
  "bids_loop J z ls b = on_part (\<lambda>s. b\<lparr>db_bids := s\<rparr>) (level_loop J z ls (db_bids b))"

definition asks_loop :: "'j json_api \<Rightarrow> bool \<Rightarrow> 'j list \<Rightarrow> 'j depth_book \<Rightarrow> ('j depth_book, unit) outcome" where
  "asks_loop J z ls b = on_part (\<lambda>s. b\<lparr>db_asks := s\<rparr>) (level_loop J z ls (db_asks b))"

definition sequence_gap_message :: "64 word \<Rightarrow> 64 word \<Rightarrow> 64 word \<Rightarrow> 64 word \<Rightarrow> string" where
  "sequence_gap_message first final previous last_id =
     ''Binance depth sequence gap: U='' @ show_u first @ '' u='' @ show_u final @
     '' pu='' @ show_u previous @ '' last='' @ show_u last_id"

definition applyDepthEvent :: "'j json_api \<Rightarrow> 'j \<Rightarrow> 'j depth_book \<Rightarrow> ('j depth_book, unit) outcome" where
  "applyDepthEvent J message b =
     (if \<not> js_contains J message ''U'' \<or> \<not> js_contains J message ''u'' \<or> \<not> js_contains J message ''pu'' \<or>
         \<not> js_contains J message ''b'' \<or> \<not> js_contains J message ''a''
      then Throw b (Runtime_error ''Invalid Binance depth event'')
      else
        try_with b (bind_exn (js_at J message ''U'') (js_u64 J)) (\<lambda>first.
        try_with b (bind_exn (js_at J message ''u'') (js_u64 J)) (\<lambda>final.
        try_with b (bind_exn (js_at J message ''pu'') (js_u64 J)) (\<lambda>previous.
          if final \<le> db_last_update_id b then Ok b ()
          else if db_last_update_id b \<noteq> 0 \<and> previous \<noteq> db_last_update_id b \<and>
            \<not> (first \<le> db_last_update_id b + 1 \<and> final \<ge> db_last_update_id b + 1)
          then Throw b (Runtime_error (sequence_gap_message first final previous (db_last_update_id b)))
          else
            try_with b (js_at J message ''b'') (\<lambda>bids.
            then_do (bids_loop J True (js_elements J bids) b) (\<lambda>b _.
            try_with b (js_at J message ''a'') (\<lambda>asks.
            then_do (asks_loop J True (js_elements J asks) b) (\<lambda>b _.
            Ok (b\<lparr>db_last_update_id := final\<rparr>) ()))))))))"

definition onDepthEvent :: "'j json_api \<Rightarrow> 'j \<Rightarrow> 'j depth_book \<Rightarrow> ('j depth_book, unit) outcome" where
  "onDepthEvent J message b =
     (if \<not> db_snapshot_ready b then
        if db_pending_size b = kPendingEventCapacity then Abort ''Binance pending depth events ring overflow''
        else Ok (b\<lparr>db_pending_events := (db_pending_events b)
                     ((db_pending_head b + db_pending_size b) mod kPendingEventCapacity := message),
                   db_pending_size := db_pending_size b + 1\<rparr>) ()
      else applyDepthEvent J message b)"

definition pending_peek :: "'j depth_book \<Rightarrow> 'j option" where
  "pending_peek b = (if db_pending_size b > 0 then Some (db_pending_events b (db_pending_head b)) else None)"

definition pending_body :: "'j json_api \<Rightarrow> 'j \<Rightarrow> 'j depth_book \<Rightarrow> ('j depth_book, unit) outcome" where
  "pending_body J event b =
     then_do (applyDepthEvent J event b) (\<lambda>b _.
       Ok (b\<lparr>db_pending_events := (db_pending_events b)(db_pending_head b := js_null J),
             db_pending_head := (db_pending_head b + 1) mod kPendingEventCapacity,
             db_pending_size := db_pending_size b - 1\<rparr>) ())"

definition drainPendingEvents :: "'j json_api \<Rightarrow> 'j depth_book \<Rightarrow> ('j depth_book, unit) outcome" where
  "drainPendingEvents J b = map_outcome id (\<lambda>_. ()) (await (drain pending_peek (pending_body J) False b) id)"

definition installSnapshot :: "'j json_api \<Rightarrow> 'j \<Rightarrow> 'j depth_book \<Rightarrow> ('j depth_book, unit) outcome" where
  "installSnapshot J depth b =
     then_do (on_part (\<lambda>s. b\<lparr>db_bids := s\<rparr>) (clearSide (db_bids b))) (\<lambda>b _.
     then_do (on_part (\<lambda>s. b\<lparr>db_asks := s\<rparr>) (clearSide (db_asks b))) (\<lambda>b _.
     try_with b (js_at J depth ''bids'') (\<lambda>bids.
     then_do (bids_loop J False (js_elements J bids) b) (\<lambda>b _.
     try_with b (js_at J depth ''asks'') (\<lambda>asks.
     then_do (asks_loop J False (js_elements J asks) b) (\<lambda>b _.
     try_with b (bind_exn (js_at J depth ''lastUpdateId'') (js_u64 J)) (\<lambda>last_id.
     then_do (drainPendingEvents J (b\<lparr>db_last_update_id := last_id\<rparr>)) (\<lambda>b _.
     Ok (b\<lparr>db_snapshot_ready := True\<rparr>) ()))))))))"

text \<open>The conversions are truncations, undefined outside the range of the target type.\<close>

definition publish_level :: "double \<Rightarrow> double \<Rightarrow> depth_level option" where
  "publish_level price quantity =
     (case (to_integer (- (2 ^ 63)) (2 ^ 63 - 1) (f64_of_bits price * Fin 100000000),
            to_integer 0 (2 ^ 32 - 1) (f64_of_bits quantity)) of
        (Some p, Some q) \<Rightarrow> Some \<lparr>dl_price = of_int p, dl_qty = of_int q\<rparr>
      | _ \<Rightarrow> None)"

text \<open>The walk from the head over at most \<open>k\<close> nodes.\<close>

fun publish_levels :: "(nat \<Rightarrow> price_level_node) \<Rightarrow> nat option \<Rightarrow> nat \<Rightarrow> depth_level list option" where
  "publish_levels get None k = Some []"
| "publish_levels get (Some i) 0 = Some []"
| "publish_levels get (Some i) (Suc k) =
     Option.bind (publish_level (pn_price (get i)) (pn_qty (get i))) (\<lambda>l. map_option (Cons l) (publish_levels get (pn_next (get i)) k))"

definition buildMarketUpdate :: "ticker_id \<Rightarrow> 'j depth_book \<Rightarrow> market_update option" where
  "buildMarketUpdate ticker b =
     Option.bind (publish_levels (sd_get (db_bids b)) (sd_head (db_bids b)) DEPTH_SNAPSHOT_LEVELS) (\<lambda>bids.
     Option.bind (publish_levels (sd_get (db_asks b)) (sd_head (db_asks b)) DEPTH_SNAPSHOT_LEVELS) (\<lambda>asks.
       let fill = (\<lambda>ls. ls @ replicate (DEPTH_SNAPSHOT_LEVELS - length ls) depth_level_init)
       in Some (market_update_init\<lparr>mu_type := DEPTH_SNAPSHOT, mu_ticker_id := ticker,
            mu_depth := depth_snapshot_init\<lparr>ds_bids := fill bids, ds_asks := fill asks\<rparr>\<rparr>)))"

definition best_of :: "depth_side \<Rightarrow> (double \<times> double) option" where
  "best_of s = map_option (\<lambda>i. (pn_price (sd_get s i), pn_qty (sd_get s i))) (sd_head s)"

definition bestBid :: "'j depth_book \<Rightarrow> (double \<times> double) option" where
  "bestBid b = best_of (db_bids b)"

definition bestAsk :: "'j depth_book \<Rightarrow> (double \<times> double) option" where
  "bestAsk b = best_of (db_asks b)"

section \<open>The hash\<close>

lemma xorshift_inj:
  assumes "(a :: 64 word) XOR drop_bit n a = b XOR drop_bit n b" "0 < n"
  shows "a = b"
proof -
  have "bit a k = bit b k" for k
  proof (induction "64 - k" arbitrary: k rule: less_induct)
    case less
    show ?case
    proof (cases "k < 64")
      case True
      have "bit (a XOR drop_bit n a) k = bit (b XOR drop_bit n b) k" using assms(1) by simp
      moreover have "bit a (n + k) = bit b (n + k)" using less[of "n + k"] True assms(2) by simp
      ultimately show ?thesis by (simp add: bit_simps) blast
    next
      case False
      then show ?thesis using bit_imp_le_length[of a k] bit_imp_le_length[of b k] by auto
    qed
  qed
  then show ?thesis by (rule bit_word_eqI)
qed

lemma mult_inj:
  assumes "a * c = b * c" "c * d = (1 :: 64 word)"
  shows "a = b"
proof -
  have "a * c * d = b * c * d" using assms(1) by simp
  then show ?thesis using assms(2) by (simp add: mult.assoc)
qed

text \<open>Two prices have the same 64-bit hash only if their bits are equal, so distinct prices collide only
  after the hash is masked to the number of slots.\<close>

theorem priceHash_injective: "priceHash p = priceHash q \<longleftrightarrow> p = q"
proof
  let ?c1 = "0xbf58476d1ce4e5b9 :: 64 word" and ?c2 = "0x94d049bb133111eb :: 64 word"
  let ?b = "\<lambda>p :: 64 word. p + 0x9e3779b97f4a7c15"
  let ?m = "\<lambda>p. (?b p XOR drop_bit 30 (?b p)) * ?c1"
  let ?n = "\<lambda>p. (?m p XOR drop_bit 27 (?m p)) * ?c2"
  have inv: "?c1 * 10871156337175269513 = 1" "?c2 * 3573116690164977347 = 1" by simp_all
  assume "priceHash p = priceHash q"
  then have "?n p XOR drop_bit 31 (?n p) = ?n q XOR drop_bit 31 (?n q)" unfolding priceHash_def Let_def .
  then have "?n p = ?n q" by (rule xorshift_inj) simp
  then have "?m p XOR drop_bit 27 (?m p) = ?m q XOR drop_bit 27 (?m q)" by (rule mult_inj) (rule inv(2))
  then have "?m p = ?m q" by (rule xorshift_inj) simp
  then have "?b p XOR drop_bit 30 (?b p) = ?b q XOR drop_bit 30 (?b q)" by (rule mult_inj) (rule inv(1))
  then have "?b p = ?b q" by (rule xorshift_inj) simp
  then show "p = q" by simp
qed simp

section \<open>Events\<close>

definition level_parsed :: "'j json_api \<Rightarrow> 'j \<Rightarrow> double \<times> double \<Rightarrow> bool" where
  "level_parsed J l pq \<longleftrightarrow> levelPrice J l = Some (Inr (fst pq)) \<and> levelQuantity J l = Some (Inr (snd pq))"

definition level_update :: "bool \<Rightarrow> double \<times> double \<Rightarrow> (double \<rightharpoonup> double) \<Rightarrow> (double \<rightharpoonup> double)" where
  "level_update z pq m = (if z \<and> d_eq (snd pq) 0 then m(fst pq := None) else m(fst pq \<mapsto> snd pq))"

lemma level_step_ok:
  assumes "side_ok s xs" "level_parsed J l pq" "canonical (fst pq)" "length xs < 4096"
  shows "\<exists>s' xs'. level_step J z l s = Ok s' () \<and> side_ok s' xs' \<and> sd_is_bid s' = sd_is_bid s \<and>
    map_of (levels_of s' xs') = level_update z pq (map_of (levels_of s xs))"
proof (cases "z \<and> d_eq (snd pq) 0")
  case True
  then show ?thesis
    using remove_ok[OF assms(1,3)] assms(2) by (auto simp: level_step_def level_parsed_def level_update_def)
next
  case False
  then have "level_step J z l s = upsertPrice (fst pq) (snd pq) s"
    using assms(2) by (auto simp: level_step_def level_parsed_def)
  then show ?thesis
    using upsert_ok[OF assms(1,3), of "snd pq"] assms(4)
    by (simp only: level_update_def False if_False) (simp add: kMaxPriceLevelsPerSide_def)
qed

lemma level_loop_ok:
  assumes "side_ok s xs" "list_all2 (level_parsed J) ls pqs" "\<And>pq. pq \<in> set pqs \<Longrightarrow> canonical (fst pq)"
    "length xs + length pqs \<le> 4096"
  shows "\<exists>s' xs'. level_loop J z ls s = Ok s' () \<and> side_ok s' xs' \<and> sd_is_bid s' = sd_is_bid s \<and>
    map_of (levels_of s' xs') = fold (level_update z) pqs (map_of (levels_of s xs))"
  using assms(2,1,3,4)
proof (induction ls pqs arbitrary: s xs rule: list_all2_induct)
  case Nil
  then show ?case by auto
next
  case (Cons l ls pq pqs)
  obtain s1 xs1 where 1: "level_step J z l s = Ok s1 ()" "side_ok s1 xs1" "sd_is_bid s1 = sd_is_bid s"
    "map_of (levels_of s1 xs1) = level_update z pq (map_of (levels_of s xs))"
    using level_step_ok[OF Cons.prems(1) Cons.hyps(1), of z] Cons.prems(2,3) by auto
  have "dom (map_of (levels_of s1 xs1)) \<subseteq> insert (fst pq) (dom (map_of (levels_of s xs)))"
    unfolding 1(4) by (auto simp: level_update_def)
  then have "card (dom (map_of (levels_of s1 xs1))) \<le> card (insert (fst pq) (dom (map_of (levels_of s xs))))"
    by (intro card_mono) (auto simp: finite_dom_map_of)
  also have "\<dots> \<le> Suc (card (dom (map_of (levels_of s xs))))" by (simp add: card_insert_if finite_dom_map_of)
  finally have "length xs1 \<le> Suc (length xs)" using card_levels[OF 1(2)] card_levels[OF Cons.prems(1)] by simp
  then show ?case using Cons.IH[OF 1(2)] Cons.prems(2,3) 1 by simp
qed

text \<open>What a book stands for: a map from prices to quantities on each side.\<close>

definition book_holds :: "'j depth_book \<Rightarrow> (double \<rightharpoonup> double) \<Rightarrow> (double \<rightharpoonup> double) \<Rightarrow> bool" where
  "book_holds b bids asks \<longleftrightarrow>
     sd_is_bid (db_bids b) \<and> \<not> sd_is_bid (db_asks b) \<and>
     (\<exists>xs. side_ok (db_bids b) xs \<and> map_of (levels_of (db_bids b) xs) = bids) \<and>
     (\<exists>ys. side_ok (db_asks b) ys \<and> map_of (levels_of (db_asks b) ys) = asks)"

text \<open>What it is for an event to carry the three numbers and the two lists of levels.\<close>

definition event_reads :: "'j json_api \<Rightarrow> 'j \<Rightarrow> 64 word \<Rightarrow> 64 word \<Rightarrow> 64 word \<Rightarrow> (double \<times> double) list \<Rightarrow>
    (double \<times> double) list \<Rightarrow> bool" where
  "event_reads J m first final previous bids asks \<longleftrightarrow>
     (\<forall>k \<in> {''U'', ''u'', ''pu'', ''b'', ''a''}. js_contains J m k) \<and>
     bind_exn (js_at J m ''U'') (js_u64 J) = Inr first \<and> bind_exn (js_at J m ''u'') (js_u64 J) = Inr final \<and>
     bind_exn (js_at J m ''pu'') (js_u64 J) = Inr previous \<and>
     (\<exists>b. js_at J m ''b'' = Inr b \<and> list_all2 (level_parsed J) (js_elements J b) bids) \<and>
     (\<exists>a. js_at J m ''a'' = Inr a \<and> list_all2 (level_parsed J) (js_elements J a) asks)"

definition stale_event :: "64 word \<Rightarrow> 64 word \<Rightarrow> bool" where
  "stale_event final last_id \<longleftrightarrow> final \<le> last_id"

definition follows :: "64 word \<Rightarrow> 64 word \<Rightarrow> 64 word \<Rightarrow> 64 word \<Rightarrow> bool" where
  "follows first final previous last_id \<longleftrightarrow>
     last_id = 0 \<or> previous = last_id \<or> first \<le> last_id + 1 \<and> last_id + 1 \<le> final"

lemma bids_loop_ok:
  assumes "book_holds b m n" "list_all2 (level_parsed J) ls pqs" "\<forall>pq \<in> set pqs. canonical (fst pq)"
    "card (dom m) + length pqs \<le> 4096"
  shows "\<exists>b'. bids_loop J z ls b = Ok b' () \<and> book_holds b' (fold (level_update z) pqs m) n \<and>
    db_asks b' = db_asks b \<and> db_last_update_id b' = db_last_update_id b"
proof -
  obtain xs where xs: "side_ok (db_bids b) xs" "map_of (levels_of (db_bids b) xs) = m"
    using assms(1) by (auto simp: book_holds_def)
  have "length xs + length pqs \<le> 4096" using assms(4) card_levels[OF xs(1)] xs(2) by simp
  from level_loop_ok[OF xs(1) assms(2) _ this, of z] assms(3) obtain s' xs' where
    "level_loop J z ls (db_bids b) = Ok s' ()" "side_ok s' xs'" "sd_is_bid s' = sd_is_bid (db_bids b)"
    "map_of (levels_of s' xs') = fold (level_update z) pqs m" unfolding xs(2) by blast
  with assms(1) show ?thesis by (auto simp: bids_loop_def book_holds_def)
qed

lemma asks_loop_ok:
  assumes "book_holds b m n" "list_all2 (level_parsed J) ls pqs" "\<forall>pq \<in> set pqs. canonical (fst pq)"
    "card (dom n) + length pqs \<le> 4096"
  shows "\<exists>b'. asks_loop J z ls b = Ok b' () \<and> book_holds b' m (fold (level_update z) pqs n) \<and>
    db_bids b' = db_bids b \<and> db_last_update_id b' = db_last_update_id b"
proof -
  obtain xs where xs: "side_ok (db_asks b) xs" "map_of (levels_of (db_asks b) xs) = n"
    using assms(1) by (auto simp: book_holds_def)
  have "length xs + length pqs \<le> 4096" using assms(4) card_levels[OF xs(1)] xs(2) by simp
  from level_loop_ok[OF xs(1) assms(2) _ this, of z] assms(3) obtain s' xs' where
    "level_loop J z ls (db_asks b) = Ok s' ()" "side_ok s' xs'" "sd_is_bid s' = sd_is_bid (db_asks b)"
    "map_of (levels_of s' xs') = fold (level_update z) pqs n" unfolding xs(2) by blast
  with assms(1) show ?thesis by (auto simp: asks_loop_def book_holds_def)
qed

text \<open>C7: A well-formed stream event acts on the book as on two finite maps from prices to quantities:
  an event that is not newer than the book changes nothing, one that does not follow the last one
  throws and changes nothing, and any other sets its levels in order (a zero quantity removes the
  price) and its final id. All probing and walking ends, and no node, slot or tombstone is lost.\<close>

theorem depth_event_refines_maps:
  assumes "book_holds b m n" "event_reads J e first final previous bids asks"
    "\<forall>pq \<in> set bids \<union> set asks. canonical (fst pq)"
    "card (dom m) + length bids \<le> kMaxPriceLevelsPerSide" "card (dom n) + length asks \<le> kMaxPriceLevelsPerSide"
  shows "(if stale_event final (db_last_update_id b) then applyDepthEvent J e b = Ok b ()
    else if \<not> follows first final previous (db_last_update_id b)
    then applyDepthEvent J e b = Throw b (Runtime_error (sequence_gap_message first final previous (db_last_update_id b)))
    else \<exists>b'. applyDepthEvent J e b = Ok b' () \<and> db_last_update_id b' = final \<and>
      book_holds b' (fold (level_update True) bids m) (fold (level_update True) asks n))"
proof -
  obtain bj aj where j: "js_at J e ''b'' = Inr bj" "list_all2 (level_parsed J) (js_elements J bj) bids"
    "js_at J e ''a'' = Inr aj" "list_all2 (level_parsed J) (js_elements J aj) asks"
    using assms(2) by (auto simp: event_reads_def)
  obtain b1 where b1: "bids_loop J True (js_elements J bj) b = Ok b1 ()" "book_holds b1 (fold (level_update True) bids m) n"
    using bids_loop_ok[OF assms(1) j(2)] assms(3,4) by (auto simp: kMaxPriceLevelsPerSide_def)
  obtain b2 where b2: "asks_loop J True (js_elements J aj) b1 = Ok b2 ()"
    "book_holds b2 (fold (level_update True) bids m) (fold (level_update True) asks n)"
    using asks_loop_ok[OF b1(2) j(4)] assms(3,5) by (auto simp: kMaxPriceLevelsPerSide_def)
  have "book_holds (b2\<lparr>db_last_update_id := final\<rparr>) (fold (level_update True) bids m) (fold (level_update True) asks n)"
    using b2(2) by (simp add: book_holds_def)
  then show ?thesis
    using assms(2) j b1(1) b2(1)
    by (auto simp: applyDepthEvent_def event_reads_def stale_event_def follows_def)
qed

definition level_doc :: doc where
  "level_doc = Arr [Str ''1'', Str ''1'']"

definition event_doc :: doc where
  "event_doc = Obj [(''U'', U64 1), (''u'', U64 5), (''pu'', U64 0), (''b'', Arr [level_doc]), (''a'', Arr [])]"

abbreviation one_bits :: double where
  "one_bits \<equiv> 4607182418800017408"

lemma stod_1: "stod ''1'' = Inr one_bits"
  by code_simp

lemma canonical_one: "canonical one_bits"
  by (simp add: canonical_def f64_of_bits_def Let_def)

lemma d_eq_one: "\<not> d_eq one_bits 0"
  by (simp add: d_eq_def f64_of_bits_def Let_def pow2_def)

lemma level_doc_parsed: "level_parsed doc_api level_doc (one_bits, one_bits)"
  by (simp add: level_parsed_def levelPrice_def levelQuantity_def level_number_def level_doc_def doc_api_def stod_1)

lemma event_doc_reads: "event_reads doc_api event_doc 1 5 0 [(one_bits, one_bits)] []"
  using level_doc_parsed by (simp add: event_reads_def event_doc_def doc_api_def)

lemma depth_book_new_holds: "book_holds (depth_book_new J) Map.empty Map.empty"
proof -
  have "map_of (levels_of (depth_side_new bid) []) = Map.empty" for bid by (simp add: levels_of_def)
  then show ?thesis using depth_side_new_ok by (auto simp: book_holds_def depth_book_new_def)
qed

lemma depth_book_applied: "\<exists>b :: doc depth_book. book_holds b [one_bits \<mapsto> one_bits] Map.empty"
proof -
  have ok: "side_ok (depth_side_new True) []" by (rule depth_side_new_ok)
  have room: "length [] < kMaxPriceLevelsPerSide" by (simp add: kMaxPriceLevelsPerSide_def)
  have m0: "map_of (levels_of (depth_side_new True) []) = Map.empty" by (simp add: levels_of_def)
  obtain s' xs' where s': "side_ok s' xs'" "sd_is_bid s'" "map_of (levels_of s' xs') = [one_bits \<mapsto> one_bits]"
    using upsert_ok[OF ok canonical_one room, of one_bits] unfolding m0 depth_side_new_ok(2) by blast
  have n: "map_of (levels_of (depth_side_new False) []) = Map.empty" by (simp add: levels_of_def)
  have "book_holds (depth_book_new doc_api\<lparr>db_bids := s'\<rparr>) [one_bits \<mapsto> one_bits] Map.empty"
    unfolding book_holds_def using s' n depth_side_new_ok[of False] by (simp add: depth_book_new_def) blast
  then show ?thesis by blast
qed

lemma depth_event_refines_maps_witness:
  "\<exists>b'. applyDepthEvent doc_api event_doc (depth_book_new doc_api) = Ok b' () \<and> db_last_update_id b' = 5 \<and>
     book_holds b' [one_bits \<mapsto> one_bits] Map.empty"
proof -
  have n: "db_last_update_id (depth_book_new doc_api) = 0" by (simp add: depth_book_new_def)
  have "\<forall>pq \<in> set [(one_bits, one_bits)] \<union> set []. canonical (fst pq)" using canonical_one by simp
  from depth_event_refines_maps[OF depth_book_new_holds[of doc_api] event_doc_reads this]
  show ?thesis
    by (simp add: kMaxPriceLevelsPerSide_def stale_event_def follows_def n level_update_def d_eq_one)
qed

section \<open>The snapshot\<close>

text \<open>The events that wait, in order.\<close>

definition pending_list :: "'j depth_book \<Rightarrow> 'j list" where
  "pending_list b = map (\<lambda>i. db_pending_events b ((db_pending_head b + i) mod kPendingEventCapacity)) [0..<db_pending_size b]"

fun apply_events :: "'j json_api \<Rightarrow> 'j list \<Rightarrow> 'j depth_book \<Rightarrow> ('j depth_book, unit) outcome" where
  "apply_events J [] b = Ok b ()"
| "apply_events J (e # es) b = then_do (onDepthEvent J e b) (\<lambda>b _. apply_events J es b)"

definition ring_ok :: "'j depth_book \<Rightarrow> bool" where
  "ring_ok b \<longleftrightarrow> db_pending_head b < kPendingEventCapacity \<and> db_pending_size b \<le> kPendingEventCapacity"

text \<open>A book without its ring.\<close>

definition book_core :: "'j depth_book \<Rightarrow> depth_side \<times> depth_side \<times> 64 word" where
  "book_core b = (db_bids b, db_asks b, db_last_update_id b)"

lemma if_app_outcome:
  "x = map_outcome g id x' \<Longrightarrow> y = map_outcome g id y' \<Longrightarrow> (if c then x else y) = map_outcome g id (if c then x' else y')"
  by simp

definition with_ring :: "(nat \<Rightarrow> 'j) \<Rightarrow> nat \<Rightarrow> nat \<Rightarrow> bool \<Rightarrow> 'j depth_book \<Rightarrow> 'j depth_book" where
  "with_ring f h k r b = b\<lparr>db_pending_events := f, db_pending_head := h, db_pending_size := k, db_snapshot_ready := r\<rparr>"

lemma with_ring_simps [simp]:
  "db_bids (with_ring f h k r b) = db_bids b" "db_asks (with_ring f h k r b) = db_asks b"
  "db_last_update_id (with_ring f h k r b) = db_last_update_id b" "db_pending_events (with_ring f h k r b) = f"
  "db_pending_head (with_ring f h k r b) = h" "db_pending_size (with_ring f h k r b) = k"
  "db_snapshot_ready (with_ring f h k r b) = r" "book_core (with_ring f h k r b) = book_core b"
  by (simp_all add: with_ring_def book_core_def)

lemma with_ring_self: "b = with_ring (db_pending_events b) (db_pending_head b) (db_pending_size b) (db_snapshot_ready b) b"
  by (simp add: with_ring_def)

lemma loops_frame:
  "bids_loop J z ls (with_ring f h k r b) = map_outcome (with_ring f h k r) id (bids_loop J z ls b)"
  "asks_loop J z ls (with_ring f h k r b) = map_outcome (with_ring f h k r) id (asks_loop J z ls b)"
  by (cases "level_loop J z ls (db_bids b)"; simp add: bids_loop_def with_ring_def)
    (cases "level_loop J z ls (db_asks b)"; simp add: asks_loop_def with_ring_def)

lemma apply_frame: "applyDepthEvent J e (with_ring f h k r b) = map_outcome (with_ring f h k r) id (applyDepthEvent J e b)"
proof -
  have last: "then_do (asks_loop J True ls (with_ring f h k r b)) (\<lambda>b _. Ok (b\<lparr>db_last_update_id := x\<rparr>) ()) =
      map_outcome (with_ring f h k r) id (then_do (asks_loop J True ls b) (\<lambda>b _. Ok (b\<lparr>db_last_update_id := x\<rparr>) ()))"
    for ls b x
    unfolding loops_frame by (cases "asks_loop J True ls b") (simp_all add: with_ring_def)
  have asks: "try_with (with_ring f h k r b) y (\<lambda>asks. then_do (asks_loop J True (js_elements J asks) (with_ring f h k r b))
        (\<lambda>b _. Ok (b\<lparr>db_last_update_id := x\<rparr>) ())) =
      map_outcome (with_ring f h k r) id (try_with b y (\<lambda>asks. then_do (asks_loop J True (js_elements J asks) b)
        (\<lambda>b _. Ok (b\<lparr>db_last_update_id := x\<rparr>) ())))" for b x y
  proof (cases y)
    case (Inr v)
    show ?thesis unfolding Inr try_with_simps by (rule last)
  qed simp
  have bids: "try_with (with_ring f h k r b) w (\<lambda>bids. then_do (bids_loop J True (js_elements J bids) (with_ring f h k r b)) (\<lambda>b _.
        try_with b y (\<lambda>asks. then_do (asks_loop J True (js_elements J asks) b) (\<lambda>b _. Ok (b\<lparr>db_last_update_id := x\<rparr>) ())))) =
      map_outcome (with_ring f h k r) id (try_with b w (\<lambda>bids. then_do (bids_loop J True (js_elements J bids) b) (\<lambda>b _.
        try_with b y (\<lambda>asks. then_do (asks_loop J True (js_elements J asks) b) (\<lambda>b _. Ok (b\<lparr>db_last_update_id := x\<rparr>) ())))))"
    for w x y
  proof (cases w)
    case (Inr v)
    show ?thesis
      by (cases "bids_loop J True (js_elements J v) b")
        (simp_all only: Inr loops_frame(1) try_with_simps outcome.map then_do.simps asks)
  qed simp
  have frame: "try_with (with_ring f h k r b) w F = map_outcome (with_ring f h k r) id (try_with b w G)"
    if "\<And>v. F v = map_outcome (with_ring f h k r) id (G v)" for w F G
    using that by (cases w) simp_all
  show ?thesis
    unfolding applyDepthEvent_def with_ring_simps
    by (rule bids frame if_app_outcome | simp)+
qed

fun apply_all :: "'j json_api \<Rightarrow> 'j list \<Rightarrow> 'j depth_book \<Rightarrow> ('j depth_book, unit) outcome" where
  "apply_all J [] b = Ok b ()"
| "apply_all J (e # es) b = then_do (applyDepthEvent J e b) (\<lambda>b _. apply_all J es b)"

lemma apply_all_frame: "apply_all J es (with_ring f h k r b) = map_outcome (with_ring f h k r) id (apply_all J es b)"
proof (induction es arbitrary: b)
  case (Cons e es)
  then show ?case by (cases "applyDepthEvent J e b") (simp_all add: apply_frame)
qed simp

abbreviation core_outcome :: "('j depth_book, 'a) outcome \<Rightarrow> (depth_side \<times> depth_side \<times> 64 word, unit) outcome" where
  "core_outcome \<equiv> map_outcome book_core (\<lambda>_. ())"

lemma core_frame: "core_outcome (map_outcome (with_ring f h k r) id m) = core_outcome m"
  by (cases m) simp_all

lemma apply_keeps_ring:
  "applyDepthEvent J e b = Ok b' u \<Longrightarrow> b' = with_ring (db_pending_events b) (db_pending_head b) (db_pending_size b) (db_snapshot_ready b) b'"
  using apply_frame[of J e "db_pending_events b" "db_pending_head b" "db_pending_size b" "db_snapshot_ready b" b, folded with_ring_self]
  by (simp add: with_ring_def)

definition pop :: "'j json_api \<Rightarrow> 'j depth_book \<Rightarrow> 'j depth_book" where
  "pop J b = with_ring ((db_pending_events b)(db_pending_head b := js_null J))
     ((db_pending_head b + 1) mod kPendingEventCapacity) (db_pending_size b - 1) (db_snapshot_ready b) b"

lemma pending_list_pop:
  assumes "ring_ok b" "0 < db_pending_size b"
  shows "pending_list b = db_pending_events b (db_pending_head b) # pending_list (pop J b)"
proof -
  let ?h = "db_pending_head b" and ?n = "db_pending_size b" and ?c = kPendingEventCapacity
  have c: "0 < ?c" by (simp add: kPendingEventCapacity_def)
  have ne: "(?h + Suc i) mod ?c \<noteq> ?h" if "i < ?n - 1" for i
  proof
    assume "(?h + Suc i) mod ?c = ?h"
    moreover have "Suc i < ?c" "?h < ?c" using that assms unfolding ring_ok_def by linarith+
    ultimately show False using add_mod_inj[of "Suc i" ?c 0 ?h] c by simp
  qed
  have "[0..<?n] = 0 # map Suc [0..<?n - 1]" using assms(2) by (simp add: map_Suc_upt upt_conv_Cons)
  then have "pending_list b = db_pending_events b (?h mod ?c) #
      map (\<lambda>i. db_pending_events b ((?h + Suc i) mod ?c)) [0..<?n - 1]"
    by (simp add: pending_list_def comp_def)
  moreover have "map (\<lambda>i. db_pending_events b ((?h + Suc i) mod ?c)) [0..<?n - 1] = pending_list (pop J b)"
    unfolding pending_list_def pop_def with_ring_simps
  proof (rule map_cong)
    fix i assume "i \<in> set [0..<?n - 1]"
    then have "i < ?n - 1" by simp
    have "((?h + 1) mod ?c + i) mod ?c = (?h + Suc i) mod ?c" by (simp add: mod_simps)
    with ne[OF \<open>i < ?n - 1\<close>] show "db_pending_events b ((?h + Suc i) mod ?c) =
        ((db_pending_events b)(?h := js_null J)) (((?h + 1) mod ?c + i) mod ?c)"
      by simp
  qed simp
  moreover have "?h mod ?c = ?h" using assms(1) by (simp add: ring_ok_def)
  ultimately show ?thesis by simp
qed

lemma drain_pending:
  "ring_ok b \<Longrightarrow> \<exists>m. drain pending_peek (pending_body J) p b = Some m \<and>
    core_outcome m = core_outcome (apply_all J (pending_list b) b) \<and>
    (\<forall>b' u. m = Ok b' u \<longrightarrow> db_pending_size b' = 0 \<and> db_snapshot_ready b' = db_snapshot_ready b)"
proof (induction "db_pending_size b" arbitrary: b p)
  case 0
  then show ?case by (subst drain.simps) (simp add: pending_peek_def pending_list_def)
next
  case (Suc n)
  let ?e = "db_pending_events b (db_pending_head b)"
  have pl: "pending_list b = ?e # pending_list (pop J b)" using pending_list_pop[OF Suc.prems] Suc.hyps(2) by simp
  have pk: "pending_peek b = Some ?e" using Suc.hyps(2) by (simp add: pending_peek_def)
  show ?case
  proof (cases "applyDepthEvent J ?e b")
    case (Ok b1 u)
    note k = apply_keeps_ring[OF Ok]
    have f: "db_pending_events b1 = db_pending_events b" "db_pending_head b1 = db_pending_head b"
      "db_pending_size b1 = db_pending_size b" "db_snapshot_ready b1 = db_snapshot_ready b"
      by (subst k, simp)+
    have ring: "ring_ok (pop J b1)" using Suc.prems by (auto simp: ring_ok_def pop_def f kPendingEventCapacity_def)
    have "n = db_pending_size (pop J b1)" using Suc.hyps(2) by (simp add: pop_def f)
    from Suc.hyps(1)[OF this ring, of True] obtain m where m: "drain pending_peek (pending_body J) True (pop J b1) = Some m"
      "core_outcome m = core_outcome (apply_all J (pending_list (pop J b1)) (pop J b1))"
      "\<forall>b' u. m = Ok b' u \<longrightarrow> db_pending_size b' = 0 \<and> db_snapshot_ready b' = db_snapshot_ready (pop J b1)"
      by blast
    have "pending_body J ?e b = Ok (pop J b1) ()" by (simp add: pending_body_def Ok pop_def with_ring_def f)
    then have d: "drain pending_peek (pending_body J) p b = drain pending_peek (pending_body J) True (pop J b1)"
      using pk by (subst drain.simps) simp
    have "pending_list (pop J b1) = pending_list (pop J b)" by (simp add: pending_list_def pop_def f)
    moreover have "core_outcome (apply_all J es (pop J b1)) = core_outcome (apply_all J es b1)" for es
      by (simp add: pop_def apply_all_frame core_frame)
    ultimately have "core_outcome m = core_outcome (apply_all J (pending_list b) b)"
      using m(2) by (simp add: pl Ok)
    then show ?thesis using d m(1,3) by (simp add: pop_def f)
  qed (use pk in \<open>subst drain.simps, simp add: pending_body_def pl\<close>)+
qed

lemma apply_events_ready: "db_snapshot_ready b \<Longrightarrow> apply_events J es b = apply_all J es b"
proof (induction es arbitrary: b)
  case (Cons e es)
  show ?case
  proof (cases "applyDepthEvent J e b")
    case (Ok b1 u)
    have "db_snapshot_ready b1" using Cons.prems by (subst apply_keeps_ring[OF Ok]) simp
    then show ?thesis using Cons Ok by (simp add: onDepthEvent_def)
  qed (use Cons.prems in \<open>simp_all add: onDepthEvent_def\<close>)
qed simp

text \<open>The part of \<open>installSnapshot\<close> before the pending events.\<close>

definition load_snapshot :: "'j json_api \<Rightarrow> 'j \<Rightarrow> 'j depth_book \<Rightarrow> ('j depth_book, unit) outcome" where
  "load_snapshot J depth b =
     then_do (on_part (\<lambda>s. b\<lparr>db_bids := s\<rparr>) (clearSide (db_bids b))) (\<lambda>b _.
     then_do (on_part (\<lambda>s. b\<lparr>db_asks := s\<rparr>) (clearSide (db_asks b))) (\<lambda>b _.
     try_with b (js_at J depth ''bids'') (\<lambda>bids.
     then_do (bids_loop J False (js_elements J bids) b) (\<lambda>b _.
     try_with b (js_at J depth ''asks'') (\<lambda>asks.
     then_do (asks_loop J False (js_elements J asks) b) (\<lambda>b _.
     try_with b (bind_exn (js_at J depth ''lastUpdateId'') (js_u64 J)) (\<lambda>last_id.
     Ok (b\<lparr>db_last_update_id := last_id\<rparr>) ())))))))"

lemma then_do_assoc: "then_do (then_do m f) g = then_do m (\<lambda>s a. then_do (f s a) g)"
  by (cases m) simp_all

lemma then_do_try: "then_do (try_with s r f) g = try_with s r (\<lambda>x. then_do (f x) g)"
  by (cases r) simp_all

lemma installSnapshot_split:
  "installSnapshot J depth b =
     then_do (load_snapshot J depth b) (\<lambda>b _. then_do (drainPendingEvents J b) (\<lambda>b _. Ok (b\<lparr>db_snapshot_ready := True\<rparr>) ()))"
  by (simp add: installSnapshot_def load_snapshot_def then_do_assoc then_do_try)

lemma load_frame: "load_snapshot J depth (with_ring f h k r b) = map_outcome (with_ring f h k r) id (load_snapshot J depth b)"
proof -
  have last: "try_with (with_ring f h k r b) y (\<lambda>last_id. Ok ((with_ring f h k r b)\<lparr>db_last_update_id := last_id\<rparr>) ()) =
      map_outcome (with_ring f h k r) id (try_with b y (\<lambda>last_id. Ok (b\<lparr>db_last_update_id := last_id\<rparr>) ()))" for b y
    by (cases y) (simp_all add: with_ring_def)
  have part: "then_do m' F = map_outcome (with_ring f h k r) id (then_do m G)"
    if "m' = map_outcome (with_ring f h k r) id m"
      "\<And>b u. F (with_ring f h k r b) u = map_outcome (with_ring f h k r) id (G b u)" for m m' F G
    using that by (cases m) simp_all
  have frame: "try_with (with_ring f h k r b) w F = map_outcome (with_ring f h k r) id (try_with b w G)"
    if "\<And>v. F v = map_outcome (with_ring f h k r) id (G v)" for w F G b
    using that by (cases w) simp_all
  have clear: "on_part (\<lambda>s. (with_ring f h k r b)\<lparr>db_bids := s\<rparr>) m = map_outcome (with_ring f h k r) id (on_part (\<lambda>s. b\<lparr>db_bids := s\<rparr>) m)"
    "on_part (\<lambda>s. (with_ring f h k r b)\<lparr>db_asks := s\<rparr>) m = map_outcome (with_ring f h k r) id (on_part (\<lambda>s. b\<lparr>db_asks := s\<rparr>) m)" for b m
    by (cases m; simp add: with_ring_def)+
  show ?thesis
    unfolding load_snapshot_def
    by (rule part clear loops_frame last frame | simp only: with_ring_simps)+
qed

lemma load_keeps_ring:
  "load_snapshot J d b = Ok b' u \<Longrightarrow> b' = with_ring (db_pending_events b) (db_pending_head b) (db_pending_size b) (db_snapshot_ready b) b'"
  using load_frame[of J d "db_pending_events b" "db_pending_head b" "db_pending_size b" "db_snapshot_ready b" b, folded with_ring_self]
  by (simp add: with_ring_def)

lemma core_then_ready: "core_outcome (then_do (map_outcome id (\<lambda>_. ()) m) (\<lambda>b _. Ok (b\<lparr>db_snapshot_ready := True\<rparr>) ())) = core_outcome m"
  by (cases m) (simp_all add: book_core_def)

text \<open>C35: Installing the snapshot with buffered events gives the same book, or the same failure, as installing
  it with an empty ring and then feeding the buffered events in the order they came; when it returns
  the ring is empty and the book is ready.\<close>

theorem snapshot_replays_pending:
  assumes "ring_ok b"
  shows "core_outcome (installSnapshot J depth b) =
      core_outcome (then_do (installSnapshot J depth (b\<lparr>db_pending_size := 0\<rparr>)) (\<lambda>b1 _. apply_events J (pending_list b) b1)) \<and>
    (\<forall>b' u. installSnapshot J depth b = Ok b' u \<longrightarrow> db_pending_size b' = 0 \<and> db_snapshot_ready b')"
proof -
  let ?W = "with_ring (db_pending_events b) (db_pending_head b) 0 (db_snapshot_ready b)"
  have w: "b\<lparr>db_pending_size := 0\<rparr> = ?W b" by (simp add: with_ring_def)
  have empty: "drainPendingEvents J c = Ok c ()" if "db_pending_size c = 0" for c :: "'a depth_book"
    using that by (simp add: drainPendingEvents_def drain.simps pending_peek_def)
  show ?thesis
  proof (cases "load_snapshot J depth b")
    case (Ok b1 u)
    note k = load_keeps_ring[OF Ok]
    have f: "db_pending_events b1 = db_pending_events b" "db_pending_head b1 = db_pending_head b"
      "db_pending_size b1 = db_pending_size b" "db_snapshot_ready b1 = db_snapshot_ready b"
      by (subst k, simp)+
    have "ring_ok b1" using assms by (simp add: ring_ok_def f)
    from drain_pending[OF this, of J False] obtain m where m: "drain pending_peek (pending_body J) False b1 = Some m"
      "core_outcome m = core_outcome (apply_all J (pending_list b1) b1)"
      "\<forall>b' u. m = Ok b' u \<longrightarrow> db_pending_size b' = 0" by blast
    have pl: "pending_list b1 = pending_list b" by (simp add: pending_list_def f)
    have inst: "installSnapshot J depth b =
        then_do (map_outcome id (\<lambda>_. ()) m) (\<lambda>b _. Ok (b\<lparr>db_snapshot_ready := True\<rparr>) ())"
      by (simp add: installSnapshot_split Ok drainPendingEvents_def m(1))
    have "installSnapshot J depth (b\<lparr>db_pending_size := 0\<rparr>) = Ok (with_ring (db_pending_events b) (db_pending_head b) 0 True b1) ()"
      by (simp add: installSnapshot_split w load_frame Ok empty)
    then have "core_outcome (then_do (installSnapshot J depth (b\<lparr>db_pending_size := 0\<rparr>)) (\<lambda>b1 _. apply_events J (pending_list b) b1)) =
        core_outcome (apply_all J (pending_list b) b1)"
      by (simp add: apply_events_ready apply_all_frame core_frame)
    moreover have "core_outcome (installSnapshot J depth b) = core_outcome m" unfolding inst by (rule core_then_ready)
    moreover have "\<forall>b' u. installSnapshot J depth b = Ok b' u \<longrightarrow> db_pending_size b' = 0 \<and> db_snapshot_ready b'"
      using m(3) unfolding inst by (cases m) auto
    ultimately show ?thesis using m(2) pl by simp
  qed (simp_all add: installSnapshot_split w load_frame)
qed

definition snapshot_doc :: doc where
  "snapshot_doc = Obj [(''bids'', Arr []), (''asks'', Arr []), (''lastUpdateId'', U64 3)]"

lemma snapshot_replays_pending_witness:
  "let b = depth_book_new doc_api\<lparr>db_pending_events := (\<lambda>_. event_doc), db_pending_size := 1\<rparr> in
     pending_list b = [event_doc] \<and>
     core_outcome (installSnapshot doc_api snapshot_doc b) =
       core_outcome (then_do (installSnapshot doc_api snapshot_doc (b\<lparr>db_pending_size := 0\<rparr>)) (\<lambda>b1 _. apply_events doc_api [event_doc] b1))"
proof -
  let ?b = "depth_book_new doc_api\<lparr>db_pending_events := (\<lambda>_. event_doc), db_pending_size := 1\<rparr>"
  have "ring_ok ?b" by (simp add: ring_ok_def depth_book_new_def kPendingEventCapacity_def)
  moreover have "pending_list ?b = [event_doc]" by (simp add: pending_list_def)
  ultimately show ?thesis using snapshot_replays_pending[of ?b doc_api snapshot_doc] by (simp add: Let_def)
qed

section \<open>What is published\<close>

definition ladder :: "bool \<Rightarrow> (double \<times> double) list \<Rightarrow> (double \<rightharpoonup> double) \<Rightarrow> bool" where
  "ladder bid ls m \<longleftrightarrow> distinct (map fst ls) \<and> map_of ls = m \<and> sorted_wrt (\<lambda>a b. priceBetter bid (fst a) (fst b)) ls"

lemma side_ladder: "side_ok s xs \<Longrightarrow> ladder (sd_is_bid s) (levels_of s xs) (map_of (levels_of s xs))"
proof -
  assume r: "side_ok s xs"
  have "distinct xs" using r by (simp add: side_ok_def list_ok_def)
  then have "distinct (map fst (levels_of s xs))"
    using side_inj[OF r] by (simp add: levels_of_def distinct_map comp_def)
  moreover have "sorted_wrt (\<lambda>a b. priceBetter (sd_is_bid s) (fst a) (fst b)) (levels_of s xs)"
  proof -
    have "sorted_levels (sd_is_bid s) (sd_get s) xs" using r by (simp add: side_ok_def list_ok_def)
    then show ?thesis by (simp add: levels_of_def sorted_wrt_map sorted_levels_def)
  qed
  ultimately show ?thesis by (simp add: ladder_def)
qed

lemma publish_levels_ok:
  "dseg (sd_get s) p xs None \<Longrightarrow>
   publish_levels (sd_get s) (first_of xs None) k = those (map (case_prod publish_level) (take k (levels_of s xs)))"
proof (induction xs arbitrary: p k)
  case Nil
  then show ?case by (cases k) (simp_all add: levels_of_def)
next
  case (Cons x xs)
  show ?case
  proof (cases k)
    case (Suc j)
    have "publish_levels (sd_get s) (pn_next (sd_get s x)) j = those (map (case_prod publish_level) (take j (levels_of s xs)))"
      using Cons.IH[of "Some x" j] Cons.prems by simp
    then show ?thesis using Suc by (simp add: levels_of_def split: option.split)
  qed simp
qed

lemma best_of_ladder: "side_ok s xs \<Longrightarrow> best_of s = (case levels_of s xs of [] \<Rightarrow> None | l # _ \<Rightarrow> Some l)"
  by (cases xs) (simp_all add: best_of_def levels_of_def side_ok_def list_ok_def)

text \<open>C36: The published update shows the best five levels of each side, in strictly better order, converted to
  integers, with the rest of the five marked invalid; the best bid and ask are the first of them.
  It is undefined exactly when one of these conversions is out of range.\<close>

theorem published_depth_is_best:
  assumes "book_holds b m n"
  shows "\<exists>bids asks. ladder True bids m \<and> ladder False asks n \<and>
    bestBid b = (case bids of [] \<Rightarrow> None | l # _ \<Rightarrow> Some l) \<and> bestAsk b = (case asks of [] \<Rightarrow> None | l # _ \<Rightarrow> Some l) \<and>
    buildMarketUpdate t b =
      Option.bind (those (map (case_prod publish_level) (take 5 bids))) (\<lambda>bs.
      Option.bind (those (map (case_prod publish_level) (take 5 asks))) (\<lambda>as.
        Some (market_update_init\<lparr>mu_type := DEPTH_SNAPSHOT, mu_ticker_id := t,
          mu_depth := depth_snapshot_init\<lparr>ds_bids := bs @ replicate (5 - length bs) depth_level_init,
            ds_asks := as @ replicate (5 - length as) depth_level_init\<rparr>\<rparr>)))"
proof -
  obtain xs ys where xs: "side_ok (db_bids b) xs" "map_of (levels_of (db_bids b) xs) = m" "sd_is_bid (db_bids b)"
    and ys: "side_ok (db_asks b) ys" "map_of (levels_of (db_asks b) ys) = n" "\<not> sd_is_bid (db_asks b)"
    using assms by (auto simp: book_holds_def)
  have p: "publish_levels (sd_get s) (sd_head s) k = those (map (case_prod publish_level) (take k (levels_of s zs)))"
    if "side_ok s zs" for s zs k
    using publish_levels_ok[of s None zs k] that by (simp add: side_ok_def list_ok_def)
  have "ladder True (levels_of (db_bids b) xs) m" "ladder False (levels_of (db_asks b) ys) n"
    using side_ladder[OF xs(1)] side_ladder[OF ys(1)] xs ys by simp_all
  then show ?thesis
    using best_of_ladder[OF xs(1)] best_of_ladder[OF ys(1)]
    by (intro exI[of _ "levels_of (db_bids b) xs"] exI[of _ "levels_of (db_asks b) ys"])
      (simp add: buildMarketUpdate_def p[OF xs(1)] p[OF ys(1)] bestBid_def bestAsk_def DEPTH_SNAPSHOT_LEVELS_def Let_def)
qed

lemma one_bits_value: "f64_of_bits one_bits = Fin 1"
  by (simp add: f64_of_bits_def Let_def pow2_def)

lemma publish_one: "publish_level one_bits one_bits = Some \<lparr>dl_price = 100000000, dl_qty = 1\<rparr>"
proof -
  have "representable 100000000" using representable_int[of 100000000] by simp
  then have "round64 100000000 = Fin 100000000"
    using pow2_big[of 100000000 27] by (intro round64_exact) simp_all
  then show ?thesis by (simp add: publish_level_def one_bits_value to_integer_def truncate_rat_def Let_def)
qed

lemma ladder_single:
  assumes "ladder bid ls [p \<mapsto> q]"
  shows "ls = [(p, q)]"
proof -
  have d: "distinct (map fst ls)" "map_of ls = [p \<mapsto> q]" using assms by (simp_all add: ladder_def)
  then have "set (map fst ls) = {p}" using dom_map_of_conv_image_fst[of ls] by simp
  then have "length ls = 1" using distinct_card[OF d(1)] by simp
  then obtain x where "ls = [x]" by (cases ls) auto
  with d(2) show ?thesis by (cases x) (auto simp: fun_eq_iff split: if_splits)
qed

lemma published_depth_is_best_witness:
  "\<exists>(b :: doc depth_book) u. book_holds b [one_bits \<mapsto> one_bits] Map.empty \<and> bestBid b = Some (one_bits, one_bits) \<and>
     buildMarketUpdate 3 b = Some u \<and> ds_bids (mu_depth u) = \<lparr>dl_price = 100000000, dl_qty = 1\<rparr> # replicate 4 depth_level_init"
proof -
  obtain b where b: "book_holds (b :: doc depth_book) [one_bits \<mapsto> one_bits] Map.empty"
    using depth_book_applied by blast
  obtain bids asks where l: "ladder True bids [one_bits \<mapsto> one_bits]" "ladder False asks Map.empty"
    "bestBid b = (case bids of [] \<Rightarrow> None | l # _ \<Rightarrow> Some l)"
    "buildMarketUpdate 3 b =
      Option.bind (those (map (case_prod publish_level) (take 5 bids))) (\<lambda>bs.
      Option.bind (those (map (case_prod publish_level) (take 5 asks))) (\<lambda>as.
        Some (market_update_init\<lparr>mu_type := DEPTH_SNAPSHOT, mu_ticker_id := 3,
          mu_depth := depth_snapshot_init\<lparr>ds_bids := bs @ replicate (5 - length bs) depth_level_init,
            ds_asks := as @ replicate (5 - length as) depth_level_init\<rparr>\<rparr>)))"
    using published_depth_is_best[OF b, of 3] by blast
  have "bids = [(one_bits, one_bits)]" "asks = []" using ladder_single[OF l(1)] l(2) by (auto simp: ladder_def)
  with l(3,4) b show ?thesis by (intro exI[of _ b]) (simp add: publish_one)
qed

section \<open>Truncation\<close>

text \<open>The conversions truncate: a quantity below one is published as zero, and the price 0.29, whose product
  with \<open>100000000\<close> is rounded to just below 29000000, is published one unit low.\<close>

lemma fractional_quantity_lost:
  assumes "f64_of_bits q = Fin x" "0 \<le> x" "x < 1" "publish_level p q = Some l"
  shows "dl_qty l = 0"
proof -
  have "\<lfloor>x\<rfloor> = 0" using assms(2,3) by (intro floor_unique) simp_all
  then have "truncate_rat x = 0" using assms(2) by (simp add: truncate_rat_def)
  with assms(1,4) show ?thesis
    by (auto simp: publish_level_def to_integer_def Let_def split: option.splits)
qed

lemma nearest_eqI:
  assumes "pow2 e \<le> x" "x < pow2 (e + 1)" "-1022 \<le> e" "\<bar>x / pow2 (e - 52) - of_int k\<bar> < 1 / 2"
  shows "nearest x = of_int k * pow2 (e - 52)"
proof -
  have x: "0 < x" using assms(1) pow2_pos(1)[of e] by linarith
  have q: "quantum x = e - 52" using exponent2_eqI[OF assms(1,2)] x assms(3) by (simp add: quantum_def)
  define y where "y = x / pow2 (e - 52)"
  have y: "\<bar>y - of_int k\<bar> < 1 / 2" using assms(4) by (simp add: y_def)
  have "round_even y = k"
  proof (cases "of_int k \<le> y")
    case True
    then have "\<lfloor>y\<rfloor> = k" using y by (intro floor_unique) linarith+
    then show ?thesis using y True by (simp add: round_even_def Let_def)
  next
    case False
    have "of_int (k - 1) \<le> y" "y < of_int (k - 1) + 1" "1 / 2 < y - of_int (k - 1)" using y False by simp_all
    then have "\<lfloor>y\<rfloor> = k - 1" by (intro floor_unique)
    then show ?thesis using \<open>1 / 2 < y - of_int (k - 1)\<close> by (simp add: round_even_def Let_def)
  qed
  then show ?thesis using x by (simp add: nearest_def q y_def)
qed

lemma price_truncated: "publish_level 4598895795485655695 one_bits = Some \<lparr>dl_price = 28999999, dl_qty = 1\<rparr>"
proof -
  let ?x = "5224175567749775 / 2 ^ 54 :: rat"
  have v: "f64_of_bits 4598895795485655695 = Fin ?x"
    by (simp add: f64_of_bits_def Let_def pow2_def bit_iff_odd)
  have "nearest (?x * 100000000) = of_int 7784628223999999 * pow2 (24 - 52)"
    by (rule nearest_eqI) (simp_all add: pow2_def)
  then have "round64 (?x * 100000000) = Fin (7784628223999999 / 2 ^ 28)"
    by (simp add: round64_def Let_def pow2_def)
  moreover have "\<lfloor>7784628223999999 / 2 ^ 28 :: rat\<rfloor> = 28999999" by (rule floor_unique) simp_all
  ultimately show ?thesis
    by (simp add: publish_level_def v one_bits_value to_integer_def truncate_rat_def Let_def)
qed

end
