(* ===== verification/CtpTypes.thy ===== *)
theory CtpTypes
  imports CommonTypes Doubles
begin

text \<open>
  \<open>trading/venue/simnow/ctp_event.h\<close> and \<open>ctp_mapping.{h,cpp}\<close>: the events of the CTP interface
  and the conversions of prices and text fields. Of the vendor's structs the records keep the
  fields the program reads or writes; a character array is the text before its first NUL.
\<close>

section \<open>Events\<close>

datatype ctp_kind =
    TraderConnected | MarketConnected | Disconnected | Auth | Login | MarketLogin | Settlement
  | Instrument | Account | Position | OrderQuery | Subscription | Depth | Order | Trade
  | InsertError | CancelError | Kind_Error

text \<open>The codes of \<open>ThostFtdcUserApiDataType.h\<close> that the program compares or sends.\<close>

definition OST_AllTraded :: char where "OST_AllTraded = CHR ''0''"
definition OST_PartTradedQueueing :: char where "OST_PartTradedQueueing = CHR ''1''"
definition OST_PartTradedNotQueueing :: char where "OST_PartTradedNotQueueing = CHR ''2''"
definition OST_NoTradeQueueing :: char where "OST_NoTradeQueueing = CHR ''3''"
definition OST_NoTradeNotQueueing :: char where "OST_NoTradeNotQueueing = CHR ''4''"
definition OST_Canceled :: char where "OST_Canceled = CHR ''5''"
definition OSS_InsertRejected :: char where "OSS_InsertRejected = CHR ''4''"
definition OSS_CancelRejected :: char where "OSS_CancelRejected = CHR ''5''"
definition PC_Futures :: char where "PC_Futures = CHR ''1''"
definition D_Buy :: char where "D_Buy = CHR ''0''"
definition D_Sell :: char where "D_Sell = CHR ''1''"
definition OF_Open :: char where "OF_Open = CHR ''0''"
definition OF_CloseToday :: char where "OF_CloseToday = CHR ''3''"
definition AF_Delete :: char where "AF_Delete = CHR ''0''"
definition HF_Speculation :: char where "HF_Speculation = CHR ''1''"
definition OPT_LimitPrice :: char where "OPT_LimitPrice = CHR ''2''"
definition TC_GFD :: char where "TC_GFD = CHR ''3''"
definition VC_AV :: char where "VC_AV = CHR ''1''"
definition CC_Immediately :: char where "CC_Immediately = CHR ''1''"
definition FCC_NotForceClose :: char where "FCC_NotForceClose = CHR ''0''"

lemmas ctp_codes = OST_AllTraded_def OST_PartTradedQueueing_def OST_PartTradedNotQueueing_def
  OST_NoTradeQueueing_def OST_NoTradeNotQueueing_def OST_Canceled_def OSS_InsertRejected_def
  OSS_CancelRejected_def PC_Futures_def D_Buy_def D_Sell_def OF_Open_def OF_CloseToday_def AF_Delete_def
  HF_Speculation_def OPT_LimitPrice_def TC_GFD_def VC_AV_def CC_Immediately_def FCC_NotForceClose_def

record ctp_login =
  lg_trading_day :: string
  lg_front :: int
  lg_session :: int
  lg_max_order_ref :: string

record ctp_instrument =
  in_instrument :: string
  in_exchange :: string
  in_product :: char
  in_is_trading :: int
  in_multiple :: int
  in_price_tick :: f64
  in_min_limit_volume :: int
  in_max_limit_volume :: int

record ctp_account =
  ta_currency :: string
  ta_available :: f64
  ta_curr_margin :: f64
  ta_balance :: f64

record ctp_position =
  ip_position :: int
  ip_long_frozen :: int
  ip_short_frozen :: int

record ctp_order =
  co_ref :: string
  co_sys :: string
  co_instrument :: string
  co_front :: int
  co_session :: int
  co_volume_traded :: int
  co_submit_status :: char
  co_status :: char

record ctp_trade =
  ct_ref :: string
  ct_sys :: string
  ct_instrument :: string
  ct_exchange :: string
  ct_trading_day :: string
  ct_trade_id :: string
  ct_volume :: int
  ct_price :: f64
  ct_direction :: char
  ct_offset :: char

record ctp_depth =
  cd_instrument :: string
  cd_trading_day :: string
  cd_last_price :: f64
  cd_upper_limit :: f64
  cd_lower_limit :: f64
  cd_volume :: int
  cd_open_interest :: f64
  cd_bid_prices :: "f64 list"
  cd_bid_volumes :: "int list"
  cd_ask_prices :: "f64 list"
  cd_ask_volumes :: "int list"

record ctp_input_order =
  io_broker :: string
  io_investor :: string
  io_user :: string
  io_instrument :: string
  io_exchange :: string
  io_ref :: string
  io_direction :: char
  io_offset :: char
  io_hedge :: char
  io_price_type :: char
  io_limit_price :: f64
  io_volume :: int
  io_time_condition :: char
  io_volume_condition :: char
  io_min_volume :: int
  io_contingent :: char
  io_force_close :: char

record ctp_order_action =
  oa_broker :: string
  oa_investor :: string
  oa_user :: string
  oa_instrument :: string
  oa_exchange :: string
  oa_ref :: string
  oa_sys :: string
  oa_front :: int
  oa_session :: int
  oa_flag :: char
  oa_action_ref :: int

datatype ctp_payload =
    No_payload
  | P_login ctp_login
  | P_instrument ctp_instrument
  | P_account ctp_account
  | P_position ctp_position
  | P_order ctp_order
  | P_trade ctp_trade
  | P_depth ctp_depth
  | P_input_order ctp_input_order
  | P_order_action ctp_order_action

record ctp_event =
  ev_kind :: ctp_kind
  ev_request_id :: int
  ev_error :: int
  ev_last :: bool
  ev_payload :: ctp_payload
  ev_trace :: performance_trace

section \<open>Mapping\<close>

fun stage :: "ctp_kind \<Rightarrow> string" where
  "stage Auth = ''authenticate''"
| "stage Login = ''trader_login''"
| "stage MarketLogin = ''market_login''"
| "stage Settlement = ''settlement_confirmation''"
| "stage Instrument = ''instrument_query''"
| "stage Account = ''account_query''"
| "stage Position = ''position_query''"
| "stage OrderQuery = ''order_query''"
| "stage Subscription = ''market_subscription''"
| "stage _ = ''unknown''"

definition c_str :: "string \<Rightarrow> string" where
  "c_str s = takeWhile (\<lambda>c. c \<noteq> CHR 0x00) s"

text \<open>\<open>put\<close> into an array of \<open>n\<close> characters: the text it then holds.\<close>

definition put :: "nat \<Rightarrow> string \<Rightarrow> exn + string" where
  "put n value =
     (if length value \<ge> n then Inl (Invalid_argument ''CTP field exceeds SDK width'') else Inr (c_str value))"

text \<open>\<open>std::llround\<close>: to the nearest integer, halves away from zero.\<close>

definition llround :: "rat \<Rightarrow> int" where
  "llround x = (if 0 \<le> x then \<lfloor>x + 1 / 2\<rfloor> else - \<lfloor>- x + 1 / 2\<rfloor>)"

definition price_scale :: f64 where
  "price_scale = Fin 100000000"

definition ctp_price :: "f64 \<Rightarrow> price" where
  "ctp_price value =
     (if \<not> isfinite value \<or> value \<le> 0 \<or> value \<ge> of_integer (sint Price_INVALID) / price_scale then Price_INVALID
      else case value * price_scale of Fin x \<Rightarrow> of_int (llround x) | _ \<Rightarrow> Price_INVALID)"

definition ctp_decimal :: "price \<Rightarrow> f64" where
  "ctp_decimal value = of_integer (sint value) / price_scale"

section \<open>Prices survive the conversion to the venue and back\<close>

lemma round_even_error: "\<bar>of_int (round_even x) - x\<bar> \<le> 1 / 2"
proof -
  have "of_int \<lfloor>x\<rfloor> \<le> x" "x < of_int \<lfloor>x\<rfloor> + 1" by linarith+
  then show ?thesis by (auto simp: round_even_def Let_def abs_le_iff not_less)
qed

lemma nearest_error:
  assumes "pow2 (-1022) \<le> x"
  shows "\<bar>nearest x - x\<bar> \<le> x * pow2 (-53)"
proof -
  let ?q = "pow2 (quantum x)"
  have x: "0 < x" using assms pow2_pos(1)[of "-1022"] by linarith
  have b: "pow2 (exponent2 x) \<le> x" "x < pow2 (exponent2 x + 1)" using exponent2_bounds[OF x] by simp_all
  have "pow2 (-1022) < pow2 (exponent2 x + 1)" using assms b(2) by linarith
  then have "quantum x = exponent2 x - 52" using x by (simp add: quantum_def)
  then have q: "?q = pow2 (exponent2 x) * pow2 (-52)" using pow2_add[of "exponent2 x" "-52"] by simp
  have "nearest x - x = (of_int (round_even (x / ?q)) - x / ?q) * ?q" using x by (simp add: nearest_def field_simps)
  then have "\<bar>nearest x - x\<bar> = \<bar>of_int (round_even (x / ?q)) - x / ?q\<bar> * ?q" by (simp add: abs_mult)
  also have "\<dots> \<le> 1 / 2 * ?q" using round_even_error by (intro mult_right_mono) simp_all
  also have "\<dots> = pow2 (exponent2 x) * pow2 (-53)" unfolding q by (simp add: pow2_def)
  also have "\<dots> \<le> x * pow2 (-53)" using b(1) by (intro mult_right_mono) simp_all
  finally show ?thesis .
qed

lemma llround_near:
  assumes "\<bar>y - of_int x\<bar> < 1 / 2" "0 < x"
  shows "llround y = x"
proof -
  have "of_int x \<ge> (1 :: rat)" using assms(2) by simp
  then have "0 \<le> y" using assms(1) by linarith
  moreover have "of_int x - 1 / 2 < y" "y < of_int x + 1 / 2" using assms(1) unfolding abs_less_iff by linarith+
  ultimately show ?thesis unfolding llround_def by (simp add: floor_eq_iff)
qed

text \<open>The largest price the conversion accepts.\<close>

lemma price_limit: "Fin (2 ^ 24) < of_integer (sint Price_INVALID) / price_scale"
proof -
  have s: "sint Price_INVALID = 2 ^ 63 - 1" by (simp add: Price_INVALID_def)
  have n: "nearest (of_int (2 ^ 63 - 1)) \<ge> 2 ^ 62" "nearest (of_int (2 ^ 63 - 1)) \<le> 2 ^ 64"
    using nearest_ge[of "2 ^ 62" "of_int (2 ^ 63 - 1)"] nearest_le[of "of_int (2 ^ 63 - 1)" "2 ^ 64"]
      representable_pow2[of 62] representable_pow2[of 64] pow2_nat[of 62] pow2_nat[of 64] by simp_all
  have i: "of_integer (2 ^ 63 - 1) = Fin (nearest (of_int (2 ^ 63 - 1)))" by (rule of_integer_64) simp
  let ?d = "nearest (of_int (2 ^ 63 - 1)) / 100000000"
  have "2 ^ 25 \<le> ?d" "?d \<le> 2 ^ 64" using n by simp_all
  then have "round64 ?d = Fin (nearest ?d)" "2 ^ 25 \<le> nearest ?d"
    using nearest_ge[of "2 ^ 25" ?d] representable_pow2[of 25] pow2_nat[of 25] pow2_big[of "?d" 64] round64_Fin[of ?d]
    by simp_all
  then show ?thesis by (simp add: s i[simplified] price_scale_def)
qed

lemma decimal_roundtrip:
  assumes "0 < sint p" "sint p \<le> 2 ^ 50"
  shows "ctp_price (ctp_decimal p) = p"
proof -
  define x :: rat where "x = of_int (sint p)"
  let ?e = "pow2 (-53)"
  let ?v = "nearest (x / 100000000)"
  have x: "1 \<le> x" "x \<le> 2 ^ 50"
  proof -
    have "of_int 1 \<le> x" using assms(1) unfolding x_def of_int_le_iff by linarith
    then show "1 \<le> x" by simp
    have "x \<le> of_int (2 ^ 50)" using assms(2) by (simp only: x_def of_int_le_iff)
    then show "x \<le> 2 ^ 50" by simp
  qed
  have e: "?e = 1 / 2 ^ 53" by (simp add: pow2_def)
  have small1: "pow2 (-1022) \<le> pow2 (-27)" by simp
  have "pow2 (-27) \<le> x / 100000000" using x(1) by (simp add: pow2_def[of "-27"])
  note small = small1 this
  have v: "\<bar>?v - x / 100000000\<bar> \<le> x / 100000000 * ?e" using small by (intro nearest_error) linarith
  have lo: "pow2 (-27) \<le> ?v" using small(2) by (intro nearest_ge representable_pow2) simp_all
  have hi: "?v \<le> 2 ^ 24"
    using x(2) representable_pow2[of 24] pow2_nat[of 24] by (intro nearest_le) simp_all
  have "x / 100000000 \<le> pow2 1023" using x(2) by (intro pow2_big[of _ 50]) simp_all
  moreover have "of_integer (sint p) = Fin x"
    using of_integer_exact[of "sint p"] assms unfolding x_def by simp
  ultimately have dec: "ctp_decimal p = Fin ?v"
    using x by (simp add: ctp_decimal_def price_scale_def round64_Fin)
  let ?y = "?v * 100000000"
  have y: "\<bar>?y - x\<bar> \<le> x * ?e" using v by (simp add: abs_le_iff field_simps)
  have "pow2 (-1022) \<le> pow2 (-27) * 100000000" using small(1) pow2_pos(1)[of "-27"] by linarith
  also have "\<dots> \<le> ?y" using lo by (intro mult_right_mono) simp_all
  finally have z: "\<bar>nearest ?y - ?y\<bar> \<le> ?y * ?e" by (rule nearest_error)
  have "x * ?e \<le> 1 / 8" using x(2) unfolding e by simp
  with y have y1: "\<bar>?y - x\<bar> \<le> 1 / 8" by (rule order_trans)
  have "?y \<le> x + 1 / 8" using abs_le_D1[OF y1] by linarith
  also have "\<dots> \<le> 2 ^ 51" using x(2) by simp
  finally have "?y \<le> 2 ^ 51" .
  then have "?y * ?e \<le> 1 / 4" unfolding e by simp
  with z y1 have near: "\<bar>nearest ?y - x\<bar> < 1 / 2" by linarith
  have pos: "0 < ?v" using lo pow2_pos(1)[of "-27"] by linarith
  have "\<bar>?y\<bar> \<le> pow2 1023" using hi pos by (intro pow2_big[of _ 64]) (simp_all add: abs_of_pos)
  then have prod: "Fin ?v * price_scale = Fin (nearest ?y)" by (simp add: price_scale_def round64_Fin)
  have "\<not> of_integer (sint Price_INVALID) / price_scale \<le> Fin ?v"
    using price_limit hi by (cases "of_integer (sint Price_INVALID) / price_scale") (auto simp: less_f64_def)
  with pos have "ctp_price (Fin ?v) = of_int (llround (nearest ?y))"
    by (simp add: ctp_price_def prod zero_f64_def)
  also have "llround (nearest ?y) = sint p" unfolding x_def by (rule llround_near[OF near[unfolded x_def] assms(1)])
  finally show ?thesis by (simp add: dec)
qed

text \<open>C37: A price of the program that is at most \<open>2^50\<close> in units of one part in 10 to the 8 comes back unchanged when it is sent
  to the venue as a double (\<open>decimal\<close>) and read again (\<open>price\<close>): the two roundings of the way there and
  the one of the way back stay below half a unit.\<close>

theorem price_roundtrip:
  assumes "0 < sint p" "sint p \<le> 2 ^ 50"
  shows "ctp_price (ctp_decimal p) = p"
  using assms by (rule decimal_roundtrip)

lemma price_roundtrip_witness: "ctp_price (ctp_decimal 6789050000000) = 6789050000000"
  by (rule price_roundtrip) simp_all

end
