(* ===== verification/SimNowConfig.thy ===== *)
theory SimNowConfig
  imports Text Json
begin

text \<open>
  \<open>trading/venue/simnow/simnow_config.{h,cpp}\<close>: the configuration of the SimNow venue, read from a
  JSON document, and the credentials, which come from the environment or from a dotenv file. The
  environment is a map and a file the list of its lines, both arguments.
\<close>

record simnow_config =
  sc_trading_front :: string
  sc_market_front :: string
  sc_instrument :: string
  sc_broker :: string
  sc_app_id :: string
  sc_auth_code :: string
  sc_user :: string
  sc_password :: string
  sc_flow_directory :: string
  sc_ticker_id :: ticker_id
  sc_capacity :: nat
  sc_startup_timeout :: int
  sc_shutdown_timeout :: int
  sc_query_interval :: int

definition simnow_config_init :: simnow_config where
  "simnow_config_init =
     \<lparr>sc_trading_front = [], sc_market_front = [], sc_instrument = [], sc_broker = ''9999'',
      sc_app_id = ''simnow_client_test'', sc_auth_code = [], sc_user = [], sc_password = [],
      sc_flow_directory = ''flows/simnow'', sc_ticker_id = 0, sc_capacity = 4096,
      sc_startup_timeout = 60000, sc_shutdown_timeout = 10000, sc_query_interval = 1000\<rparr>"

section \<open>Credentials\<close>

text \<open>The value of the text after the equals sign: quoted, or up to a comment.\<close>

definition dotenv_value :: "string \<Rightarrow> string \<Rightarrow> exn + string" where
  "dotenv_value name result =
     (case result of
        q # rest \<Rightarrow>
          if q = CHR 0x27 \<or> q = CHR 0x22
          then
            let tail = dropWhile (\<lambda>c. c \<noteq> q) rest; after = trim (tl tail)
            in if tail = [] \<or> (after \<noteq> [] \<and> hd after \<noteq> CHR ''#'')
               then Inl (Runtime_error (''Invalid dotenv value for '' @ name))
               else Inr (takeWhile (\<lambda>c. c \<noteq> q) rest)
          else Inr (case find_sub '' #'' result of None \<Rightarrow> result | Some n \<Rightarrow> trim (take n result))
      | [] \<Rightarrow> Inr [])"

text \<open>The loop over the lines; \<open>Inr []\<close> when none gives a value.\<close>

definition dotenv_line :: "string \<Rightarrow> string" where
  "dotenv_line line =
     (let line = trim (if starts_with [CHR 0xEF, CHR 0xBB, CHR 0xBF] line then drop 3 line else line)
      in if line \<noteq> [] \<and> hd line \<noteq> CHR ''#'' \<and> starts_with ''export '' line then trim (drop 7 line) else line)"

fun dotenv_find :: "string \<Rightarrow> string list \<Rightarrow> exn + string" where
  "dotenv_find name [] = Inr []"
| "dotenv_find name (raw # lines) =
     (let line = dotenv_line raw
      in if line = [] \<or> hd line = CHR ''#'' \<or> CHR ''='' \<notin> set line \<or>
            trim (takeWhile (\<lambda>c. c \<noteq> CHR ''='') line) \<noteq> name
         then dotenv_find name lines
         else dotenv_value name (trim (tl (dropWhile (\<lambda>c. c \<noteq> CHR ''='') line))))"

definition credential :: "(string \<Rightarrow> string option) \<Rightarrow> string list \<Rightarrow> string \<Rightarrow> exn + string" where
  "credential env lines name =
     (case env name of
        Some (c # cs) \<Rightarrow> Inr (c # cs)
      | _ \<Rightarrow> bind_exn (dotenv_find name lines) (\<lambda>result.
               if result \<noteq> [] then Inr result
               else Inl (Runtime_error (''Missing credential in environment or dotenv: '' @ name))))"

section \<open>The document\<close>

definition simnow_fromJson :: "'j json_api \<Rightarrow> (string \<Rightarrow> string option) \<Rightarrow> string list \<Rightarrow> 'j \<Rightarrow> ticker_id \<Rightarrow>
    exn + simnow_config" where
  "simnow_fromJson api env lines j ticker =
     bind_exn (js_get_text api j ''trading_front'') (\<lambda>trading_front.
     bind_exn (js_get_text api j ''market_front'') (\<lambda>market_front.
     bind_exn (js_get_text api j ''instrument'') (\<lambda>instrument.
     bind_exn (credential env lines ''SIMNOW_USER_ID'') (\<lambda>user.
     bind_exn (credential env lines ''SIMNOW_PASSWORD'') (\<lambda>password.
     bind_exn (js_value api (js_text api) j ''flow_directory'' ''flows/simnow'') (\<lambda>flow.
     bind_exn (js_value api (js_int api) j ''startup_timeout_ms'' 60000) (\<lambda>startup.
     bind_exn (js_value api (js_int api) j ''shutdown_timeout_ms'' 10000) (\<lambda>shutdown.
     Inr (simnow_config_init\<lparr>sc_trading_front := trading_front, sc_market_front := market_front,
            sc_instrument := instrument, sc_user := user, sc_password := password,
            sc_auth_code := ''0000000000000000'', sc_ticker_id := ticker, sc_flow_directory := flow,
            sc_startup_timeout := startup, sc_shutdown_timeout := shutdown\<rparr>)))))))))"

end
