(* ===== verification/CtpTransport.thy ===== *)
theory CtpTransport
  imports CtpTypes SimNowConfig Measurement
begin

text \<open>
  \<open>trading/venue/simnow/ctp_transport.{h,cpp}\<close>: the seam between the adapter and the vendor's SDK.
  The SDK is not part of the repository: a request reaches it as an \<open>sdk_call\<close> and returns the code
  that \<open>nt_results\<close> gives, and it calls back with the arguments a \<open>trader_callback\<close> or a
  \<open>market_callback\<close> carries (a pointer that may be null is an option). The components behind the seam
  use the interface \<open>Transport\<close>: the record \<open>transport\<close> observes what they send through it.
\<close>

section \<open>The interface\<close>

datatype transport_call =
    Call_request ctp_kind int
  | Call_insert ctp_input_order int
  | Call_cancel ctp_order_action int

text \<open>The result of the \<open>n\<close>-th call is arbitrary: a return code, or an exception of the implementation.\<close>

record transport =
  tp_result :: "nat \<Rightarrow> exn + int"
  tp_log :: "transport_call list"
  tp_clock :: "nat \<Rightarrow> 64 word"
  tp_ticks :: nat

definition transport_call :: "transport_call \<Rightarrow> transport \<Rightarrow> (transport, int) outcome" where
  "transport_call c t =
     (let t' = t\<lparr>tp_log := tp_log t @ [c]\<rparr>
      in case tp_result t (length (tp_log t)) of Inl e \<Rightarrow> Throw t' e | Inr rc \<Rightarrow> Ok t' rc)"

definition observed_stamp :: "performance_trace \<Rightarrow> transport \<Rightarrow> transport \<times> performance_trace" where
  "observed_stamp trace t =
     (if pt_t trace 4 \<noteq> 0
      then (t\<lparr>tp_ticks := tp_ticks t + 1\<rparr>, trace\<lparr>pt_t := (pt_t trace)(7 := tp_clock t (tp_ticks t))\<rparr>)
      else (t, trace))"

definition insertObserved :: "ctp_input_order \<Rightarrow> int \<Rightarrow> performance_trace \<Rightarrow> transport \<Rightarrow>
    (transport, int \<times> performance_trace) outcome" where
  "insertObserved p request_id trace t =
     (let (t, trace) = observed_stamp trace t
      in then_do (transport_call (Call_insert p request_id) t) (\<lambda>t rc. Ok t (rc, trace)))"

definition cancelObserved :: "ctp_order_action \<Rightarrow> int \<Rightarrow> performance_trace \<Rightarrow> transport \<Rightarrow>
    (transport, int \<times> performance_trace) outcome" where
  "cancelObserved p request_id trace t =
     (let (t, trace) = observed_stamp trace t
      in then_do (transport_call (Call_cancel p request_id) t) (\<lambda>t rc. Ok t (rc, trace)))"

section \<open>The callbacks of the SDK\<close>

definition ctp_emit :: "ctp_kind \<Rightarrow> int option \<Rightarrow> int \<Rightarrow> bool \<Rightarrow> int \<Rightarrow> ctp_event" where
  "ctp_emit kind e request_id final error =
     \<lparr>ev_kind = kind, ev_request_id = request_id, ev_error = (case e of None \<Rightarrow> error | Some n \<Rightarrow> n),
      ev_last = final, ev_payload = No_payload, ev_trace = trace_init\<rparr>"

definition ctp_data :: "ctp_kind \<Rightarrow> ('p \<Rightarrow> ctp_payload) \<Rightarrow> 'p option \<Rightarrow> int option \<Rightarrow> int \<Rightarrow> bool \<Rightarrow> ctp_event" where
  "ctp_data kind wrap p e request_id final =
     (ctp_emit kind e request_id final 0)\<lparr>ev_payload := (case p of None \<Rightarrow> No_payload | Some x \<Rightarrow> wrap x)\<rparr>"

datatype trader_callback =
    OnFrontConnected
  | OnFrontDisconnected int
  | OnRspAuthenticate "int option" int bool
  | OnRspUserLogin "ctp_login option" "int option" int bool
  | OnRspSettlementInfoConfirm "int option" int bool
  | OnRspQryInstrument "ctp_instrument option" "int option" int bool
  | OnRspQryTradingAccount "ctp_account option" "int option" int bool
  | OnRspQryInvestorPosition "ctp_position option" "int option" int bool
  | OnRspQryOrder "ctp_order option" "int option" int bool
  | OnRtnOrder "ctp_order option"
  | OnRtnTrade "ctp_trade option"
  | OnRspOrderInsert "ctp_input_order option" "int option" int bool
  | OnErrRtnOrderInsert "ctp_input_order option" "int option"
  | OnRspOrderAction "ctp_order_action option" "int option" int bool
  | OnErrRtnOrderAction "ctp_order_action option" "int option"
  | OnRspError "int option" int bool

definition order_action_init :: ctp_order_action where
  "order_action_init =
     \<lparr>oa_broker = [], oa_investor = [], oa_user = [], oa_instrument = [], oa_exchange = [], oa_ref = [],
      oa_sys = [], oa_front = 0, oa_session = 0, oa_flag = CHR 0x00, oa_action_ref = 0\<rparr>"

fun trader_event :: "trader_callback \<Rightarrow> exn + ctp_event" where
  "trader_event OnFrontConnected = Inr (ctp_emit TraderConnected None 0 True 0)"
| "trader_event (OnFrontDisconnected e) = Inr (ctp_emit Disconnected None 0 True e)"
| "trader_event (OnRspAuthenticate e n final) = Inr (ctp_emit Auth e n final 0)"
| "trader_event (OnRspUserLogin p e n final) = Inr (ctp_data Login P_login p e n final)"
| "trader_event (OnRspSettlementInfoConfirm e n final) = Inr (ctp_emit Settlement e n final 0)"
| "trader_event (OnRspQryInstrument p e n final) = Inr (ctp_data Instrument P_instrument p e n final)"
| "trader_event (OnRspQryTradingAccount p e n final) = Inr (ctp_data Account P_account p e n final)"
| "trader_event (OnRspQryInvestorPosition p e n final) = Inr (ctp_data Position P_position p e n final)"
| "trader_event (OnRspQryOrder p e n final) = Inr (ctp_data OrderQuery P_order p e n final)"
| "trader_event (OnRtnOrder p) = Inr (ctp_data Order P_order p None 0 True)"
| "trader_event (OnRtnTrade p) = Inr (ctp_data Trade P_trade p None 0 True)"
| "trader_event (OnRspOrderInsert p e n final) = Inr (ctp_data InsertError P_input_order p e n final)"
| "trader_event (OnErrRtnOrderInsert p e) = Inr (ctp_data InsertError P_input_order p e 0 True)"
| "trader_event (OnRspOrderAction p e n final) = Inr (ctp_data CancelError P_order_action p e n final)"
| "trader_event (OnErrRtnOrderAction p e) =
     (case p of
        None \<Rightarrow> Inr (ctp_data CancelError P_order_action (Some order_action_init) e 0 True)
      | Some p \<Rightarrow> bind_exn (put 13 (oa_ref p)) (\<lambda>ref.
          Inr (ctp_data CancelError P_order_action
                 (Some (order_action_init\<lparr>oa_ref := ref, oa_front := oa_front p, oa_session := oa_session p\<rparr>)) e 0 True)))"
| "trader_event (OnRspError e n final) = Inr (ctp_emit Kind_Error e n final 0)"

datatype market_callback =
    Md_OnFrontConnected
  | Md_OnFrontDisconnected int
  | Md_OnRspUserLogin "ctp_login option" "int option" int bool
  | Md_OnRspSubMarketData "int option" int bool
  | Md_OnRtnDepthMarketData "ctp_depth option"
  | Md_OnRspError "int option" int bool

text \<open>With a measurement a depth event carries the trace of its arrival at \<open>now\<close>.\<close>

fun market_event :: "64 word \<Rightarrow> market_callback \<Rightarrow> measurement option \<Rightarrow> measurement option \<times> ctp_event" where
  "market_event now Md_OnFrontConnected me = (me, ctp_emit MarketConnected None 0 True 0)"
| "market_event now (Md_OnFrontDisconnected e) me = (me, ctp_emit Disconnected None 0 True e)"
| "market_event now (Md_OnRspUserLogin p e n final) me = (me, ctp_data MarketLogin P_login p e n final)"
| "market_event now (Md_OnRspSubMarketData e n final) me = (me, ctp_emit Subscription e n final 0)"
| "market_event now (Md_OnRtnDepthMarketData p) me =
     (case me of
        None \<Rightarrow> (None, ctp_data Depth P_depth p None 0 True)
      | Some m \<Rightarrow> let (m, trace) = createTrace now m
                  in (Some m, (ctp_data Depth P_depth p None 0 True)\<lparr>ev_trace := trace\<rparr>))"
| "market_event now (Md_OnRspError e n final) me = (me, ctp_emit Kind_Error e n final 0)"

section \<open>The native implementation\<close>

datatype sdk_api = Trader_api | Market_api

datatype sdk_call =
    Sdk_CreateApi sdk_api string
  | Sdk_RegisterSpi sdk_api bool
  | Sdk_SubscribePrivateTopic
  | Sdk_SubscribePublicTopic
  | Sdk_RegisterFront sdk_api string
  | Sdk_Init sdk_api
  | Sdk_Release sdk_api
  | Sdk_ReqAuthenticate string string string string int
  | Sdk_ReqUserLogin sdk_api string string string int
  | Sdk_ReqSettlementInfoConfirm string string int
  | Sdk_ReqQryInstrument string int
  | Sdk_ReqQryTradingAccount string string string int
  | Sdk_ReqQryInvestorPosition string string int
  | Sdk_ReqQryOrder string string int
  | Sdk_SubscribeMarketData string
  | Sdk_ReqOrderInsert ctp_input_order int
  | Sdk_ReqOrderAction ctp_order_action int

record native_transport =
  nt_config :: simnow_config
  nt_trader :: bool
  nt_market :: bool
  nt_calls :: "sdk_call list"
  nt_results :: "nat \<Rightarrow> int"

definition sdk :: "sdk_call list \<Rightarrow> native_transport \<Rightarrow> native_transport" where
  "sdk cs t = t\<lparr>nt_calls := nt_calls t @ cs\<rparr>"

text \<open>\<open>created\<close>: whether the factory functions of the SDK return an object.\<close>

definition native_start :: "bool \<times> bool \<Rightarrow> simnow_config \<Rightarrow> native_transport \<Rightarrow> (native_transport, unit) outcome" where
  "native_start created c t =
     (let t = sdk [Sdk_CreateApi Trader_api (sc_flow_directory c @ ''/trader/''),
                   Sdk_CreateApi Market_api (sc_flow_directory c @ ''/market/'')]
                (t\<lparr>nt_config := c, nt_trader := fst created, nt_market := snd created\<rparr>)
      in if \<not> nt_trader t \<or> \<not> nt_market t then Throw t (Runtime_error ''CTP API creation failed'')
         else Ok (sdk [Sdk_RegisterSpi Trader_api True, Sdk_SubscribePrivateTopic, Sdk_SubscribePublicTopic,
                       Sdk_RegisterFront Trader_api (sc_trading_front c), Sdk_RegisterSpi Market_api True,
                       Sdk_RegisterFront Market_api (sc_market_front c), Sdk_Init Trader_api, Sdk_Init Market_api] t) ())"

definition native_stop :: "native_transport \<Rightarrow> native_transport" where
  "native_stop t =
     (let t = (if nt_trader t then (sdk [Sdk_RegisterSpi Trader_api False, Sdk_Release Trader_api] t)\<lparr>nt_trader := False\<rparr>
               else t)
      in if nt_market t then (sdk [Sdk_RegisterSpi Market_api False, Sdk_Release Market_api] t)\<lparr>nt_market := False\<rparr>
         else t)"

text \<open>A call through the pointer to an API object, with the code it returns.\<close>

definition sdk_request :: "(native_transport \<Rightarrow> bool) \<Rightarrow> sdk_call \<Rightarrow> native_transport \<Rightarrow> (native_transport, int) outcome" where
  "sdk_request api c t = (if api t then Ok (sdk [c] t) (nt_results t (length (nt_calls t))) else Undef)"

definition native_request :: "ctp_kind \<Rightarrow> int \<Rightarrow> native_transport \<Rightarrow> (native_transport, int) outcome" where
  "native_request kind n t =
     (let c = nt_config t;
          broker = put 11 (sc_broker c);
          user_broker = (\<lambda>width f.
            try_with t broker (\<lambda>b. try_with t (put width (sc_user c)) (f b)))
      in case kind of
           Auth \<Rightarrow> user_broker 16 (\<lambda>b u. try_with t (put 33 (sc_app_id c)) (\<lambda>a. try_with t (put 17 (sc_auth_code c)) (\<lambda>code.
             sdk_request nt_trader (Sdk_ReqAuthenticate b u a code n) t)))
         | Login \<Rightarrow> user_broker 16 (\<lambda>b u. try_with t (put 41 (sc_password c)) (\<lambda>p.
             sdk_request nt_trader (Sdk_ReqUserLogin Trader_api b u p n) t))
         | MarketLogin \<Rightarrow> user_broker 16 (\<lambda>b u. try_with t (put 41 (sc_password c)) (\<lambda>p.
             sdk_request nt_market (Sdk_ReqUserLogin Market_api b u p n) t))
         | Settlement \<Rightarrow> user_broker 13 (\<lambda>b u. sdk_request nt_trader (Sdk_ReqSettlementInfoConfirm b u n) t)
         | Instrument \<Rightarrow> try_with t (put 81 (sc_instrument c)) (\<lambda>i.
             sdk_request nt_trader (Sdk_ReqQryInstrument i n) t)
         | Account \<Rightarrow> user_broker 13 (\<lambda>b u. try_with t (put 4 ''CNY'') (\<lambda>m.
             sdk_request nt_trader (Sdk_ReqQryTradingAccount b u m n) t))
         | Position \<Rightarrow> user_broker 13 (\<lambda>b u. sdk_request nt_trader (Sdk_ReqQryInvestorPosition b u n) t)
         | OrderQuery \<Rightarrow> user_broker 13 (\<lambda>b u. sdk_request nt_trader (Sdk_ReqQryOrder b u n) t)
         | Subscription \<Rightarrow> sdk_request nt_market (Sdk_SubscribeMarketData (c_str (sc_instrument c))) t
         | _ \<Rightarrow> Throw t (Logic_error ''Unsupported CTP request''))"

definition native_insert :: "ctp_input_order \<Rightarrow> int \<Rightarrow> native_transport \<Rightarrow> (native_transport, int) outcome" where
  "native_insert p n = sdk_request nt_trader (Sdk_ReqOrderInsert p n)"

definition native_cancel :: "ctp_order_action \<Rightarrow> int \<Rightarrow> native_transport \<Rightarrow> (native_transport, int) outcome" where
  "native_cancel p n = sdk_request nt_trader (Sdk_ReqOrderAction p n)"

section \<open>Order of the vendor calls\<close>

text \<open>A request is an error or exactly one call to the SDK, which carries the request id.\<close>

lemma native_request_one_call:
  "native_request kind n t = Ok t' rc \<Longrightarrow>
     \<exists>c. t' = sdk [c] t \<and> rc = nt_results t (length (nt_calls t))"
  by (cases kind) (auto simp: native_request_def try_with_def sdk_request_def Let_def split: sum.splits if_splits)

lemma native_stop_releases: "\<not> nt_trader (native_stop t) \<and> \<not> nt_market (native_stop t) \<and> native_stop (native_stop t) = native_stop t"
  by (simp add: native_stop_def sdk_def Let_def)

end
