(* ===== verification/SimNowExecution.thy ===== *)
theory SimNowExecution
  imports CtpTransport Gateways "HOL-Library.Char_ord" "HOL-Library.List_Lexorder"
begin

text \<open>
  \<open>trading/venue/simnow/simnow_control.{h,cpp}\<close> and \<open>simnow_execution.{h,cpp}\<close>: the execution side of
  the SimNow adapter, which runs on the worker of the order gateway. The record holds the members of
  the class and what they point to: the gateway, the transport, the shared control and the
  measurement. The calls of the state sink and the published responses (with the reference of their
  order, empty for a request that was rejected unsent) are kept as logs. The other threads act
  between two calls. Points of time are unbounded integers in nanoseconds; \<open>now\<close> is an argument.
\<close>

section \<open>The shared control\<close>

record simnow_control =
  nc_error :: string
  nc_active :: bool
  nc_fatal :: bool
  nc_stopping :: bool
  nc_overflow :: bool
  nc_disconnected :: bool
  nc_stop_done :: bool
  nc_subscribed :: bool
  nc_quote_valid :: bool
  nc_trading_day :: string
  nc_market_day :: string

definition simnow_control_init :: simnow_control where
  "simnow_control_init =
     \<lparr>nc_error = [], nc_active = False, nc_fatal = False, nc_stopping = False, nc_overflow = False,
      nc_disconnected = False, nc_stop_done = False, nc_subscribed = False, nc_quote_valid = False,
      nc_trading_day = [], nc_market_day = []\<rparr>"

definition signalFailure :: "string \<Rightarrow> simnow_control \<Rightarrow> simnow_control" where
  "signalFailure reason c =
     c\<lparr>nc_error := (if nc_error c = [] then reason else nc_error c), nc_fatal := True, nc_active := False\<rparr>"

primrec what :: "exn \<Rightarrow> string" where
  "what (Logic_error m) = m"
| "what (Runtime_error m) = m"
| "what (Invalid_argument m) = m"
| "what (Out_of_range m) = m"

section \<open>State\<close>

record exec_order =
  eo_request :: client_request
  eo_ref :: string
  eo_sys :: string
  eo_insert_id :: int
  eo_cancel_id :: int
  eo_fills :: int
  eo_reported_fills :: int
  eo_accepted :: bool
  eo_done :: bool
  eo_cancel_sent :: bool
  eo_cancel_rejected :: bool
  eo_has_terminal :: bool
  eo_rejected :: bool
  eo_trades :: "string list"

definition exec_order_new :: "client_request \<Rightarrow> exec_order" where
  "exec_order_new r =
     \<lparr>eo_request = r, eo_ref = [], eo_sys = [], eo_insert_id = 0, eo_cancel_id = 0, eo_fills = 0,
      eo_reported_fills = 0, eo_accepted = False, eo_done = False, eo_cancel_sent = False,
      eo_cancel_rejected = False, eo_has_terminal = False, eo_rejected = False, eo_trades = []\<rparr>"

text \<open>\<open>std::map<std::string, Order>\<close>: its pairs in the order of the keys. \<open>emplace\<close> keeps an old entry.\<close>

type_synonym order_table = "(string \<times> exec_order) list"

fun table_emplace :: "string \<Rightarrow> 'a \<Rightarrow> (string \<times> 'a) list \<Rightarrow> (string \<times> 'a) list" where
  "table_emplace k v [] = [(k, v)]"
| "table_emplace k v ((k', v') # m) =
     (if k < k' then (k, v) # (k', v') # m else if k = k' then (k', v') # m else (k', v') # table_emplace k v m)"

definition table_assign :: "string \<Rightarrow> 'a \<Rightarrow> (string \<times> 'a) list \<Rightarrow> (string \<times> 'a) list" where
  "table_assign k v m = map (\<lambda>(k', v'). (k', if k' = k then v else v')) m"

record simnow_execution =
  sx_gateway :: order_gateway
  sx_config :: simnow_config
  sx_transport :: transport
  sx_control :: simnow_control
  sx_measurement :: "measurement option"
  sx_events :: "ctp_event lf_queue"
  sx_net_position :: "32 word"
  sx_ready :: bool
  sx_trader_connected :: bool
  sx_instrument_seen :: bool
  sx_account_seen :: bool
  sx_startup_done :: bool
  sx_next_id :: int
  sx_query_id :: int
  sx_front :: int
  sx_session :: int
  sx_next_ref :: "64 word"
  sx_trading_day :: string
  sx_query_kind :: ctp_kind
  sx_queries :: "ctp_kind list"
  sx_requests :: "(int \<times> ctp_kind) list"
  sx_next_query :: int
  sx_query_deadline :: int
  sx_next_account :: int
  sx_instrument :: ctp_instrument
  sx_account :: account_state
  sx_published_account :: account_state
  sx_state_published :: bool
  sx_orders :: order_table
  sx_sink :: "(bool \<times> account_state \<times> f64) list"
  sx_published :: "(string \<times> client_response) list"

definition instrument_init :: ctp_instrument where
  "instrument_init =
     \<lparr>in_instrument = [], in_exchange = [], in_product = CHR 0x00, in_is_trading = 0, in_multiple = 0,
      in_price_tick = 0, in_min_limit_volume = 0, in_max_limit_volume = 0\<rparr>"

definition unknown_account :: account_state where
  "unknown_account = \<lparr>ac_available_margin = NaN, ac_used_margin = NaN, ac_equity = NaN\<rparr>"

definition simnow_execution_new :: "order_gateway \<Rightarrow> simnow_config \<Rightarrow> transport \<Rightarrow> simnow_control \<Rightarrow>
    measurement option \<Rightarrow> ctp_event \<Rightarrow> exn + simnow_execution" where
  "simnow_execution_new g c t shared me blank =
     bind_exn (lf_queue_new blank (sc_capacity c)) (\<lambda>q. Inr
       \<lparr>sx_gateway = g, sx_config = c, sx_transport = t, sx_control = shared, sx_measurement = me,
        sx_events = q, sx_net_position = 0, sx_ready = False, sx_trader_connected = False,
        sx_instrument_seen = False, sx_account_seen = False, sx_startup_done = False, sx_next_id = 0,
        sx_query_id = 0, sx_front = 0, sx_session = 0, sx_next_ref = 0, sx_trading_day = [],
        sx_query_kind = Instrument, sx_queries = [], sx_requests = [], sx_next_query = 0,
        sx_query_deadline = 0, sx_next_account = 0, sx_instrument = instrument_init,
        sx_account = account_state_init, sx_published_account = unknown_account,
        sx_state_published = False, sx_orders = [], sx_sink = [], sx_published = []\<rparr>)"

section \<open>State changes and responses\<close>

definition execution_enqueue :: "ctp_event \<Rightarrow> simnow_execution \<Rightarrow> (simnow_execution, unit) outcome" where
  "execution_enqueue e s =
     (case tryGetNextToWriteTo (sx_events s) of
        Some place \<Rightarrow> on_part (\<lambda>q. s\<lparr>sx_events := q\<rparr>) (updateWriteIndex (lq_write_slot place e (sx_events s)))
      | None \<Rightarrow> Ok (s\<lparr>sx_control := (sx_control s)\<lparr>nc_overflow := True\<rparr>\<rparr>) ())"

text \<open>The equality of floating-point values: false on NaN.\<close>

definition f64_same :: "f64 \<Rightarrow> f64 \<Rightarrow> bool" where
  "f64_same x y \<longleftrightarrow> x \<le> y \<and> y \<le> x"

definition execution_state :: "bool \<Rightarrow> simnow_execution \<Rightarrow> simnow_execution" where
  "execution_state enabled s =
     (let a = sx_account s; b = sx_published_account s
      in if sx_state_published s \<and> sx_ready s = enabled \<and>
            f64_same (ac_available_margin a) (ac_available_margin b) \<and>
            f64_same (ac_used_margin a) (ac_used_margin b) \<and> f64_same (ac_equity a) (ac_equity b)
         then s
         else s\<lparr>sx_ready := enabled, sx_published_account := a, sx_state_published := True,
                sx_sink := sx_sink s @ [(enabled, a, of_integer (if in_multiple (sx_instrument s) > 0
                                                        then in_multiple (sx_instrument s) else 1))]\<rparr>)"

definition execution_fail :: "string \<Rightarrow> simnow_execution \<Rightarrow> simnow_execution" where
  "execution_fail reason s =
     execution_state False (s\<lparr>sx_control := signalFailure reason (sx_control s)\<rparr>)"

text \<open>A body whose exceptions are caught and recorded.\<close>

definition catch_fail :: "(simnow_execution, unit) outcome \<Rightarrow> (simnow_execution, unit) outcome" where
  "catch_fail m = (case m of Throw s e \<Rightarrow> Ok (execution_fail (what e) s) () | _ \<Rightarrow> m)"

text \<open>\<open>++next_id\<close>.\<close>

definition fresh_id :: "simnow_execution \<Rightarrow> (simnow_execution, int) outcome" where
  "fresh_id s = int32 (sx_next_id s + 1) (\<lambda>n. Ok (s\<lparr>sx_next_id := n\<rparr>) n)"

definition on_transport :: "simnow_execution \<Rightarrow> (transport, 'a) outcome \<Rightarrow> (simnow_execution, 'a) outcome" where
  "on_transport s = on_part (\<lambda>t. s\<lparr>sx_transport := t\<rparr>)"

definition execution_request :: "ctp_kind \<Rightarrow> simnow_execution \<Rightarrow> (simnow_execution, unit) outcome" where
  "execution_request kind s =
     then_do (fresh_id s) (\<lambda>s n.
     then_do (let s = s\<lparr>sx_requests := (n, kind) # filter (\<lambda>r. fst r \<noteq> n) (sx_requests s)\<rparr>
              in on_transport s (transport_call (Call_request kind n) (sx_transport s))) (\<lambda>s rc.
     if rc \<noteq> 0 then Throw s (Runtime_error ''CTP startup request not submitted'') else Ok s ()))"

definition response_of :: "exec_order \<Rightarrow> client_response_type \<Rightarrow> int \<Rightarrow> price \<Rightarrow> simnow_execution \<Rightarrow> client_response" where
  "response_of o' type quantity price s =
     client_response_init
       \<lparr>rs_type := type, rs_client_id := og_client_id (sx_gateway s),
        rs_ticker_id := sc_ticker_id (sx_config s),
        rs_client_order_id := rq_order_id (eo_request o'), rs_venue_order_id := rq_order_id (eo_request o'),
        rs_side := rq_side (eo_request o'), rs_offset := rq_offset (eo_request o'),
        rs_order_type := LIMIT,
        rs_price := (if price = Price_INVALID then rq_price (eo_request o') else price),
        rs_exec_qty := of_int quantity, rs_leaves_qty := rq_qty (eo_request o') - of_int (eo_fills o')\<rparr>"

definition execution_publish :: "exec_order \<Rightarrow> client_response_type \<Rightarrow> int \<Rightarrow> price \<Rightarrow> simnow_execution \<Rightarrow>
    (simnow_execution, unit) outcome" where
  "execution_publish o' type quantity price s =
     (let r = response_of o' type quantity price s
      in then_do (on_part (\<lambda>g. s\<lparr>sx_gateway := g\<rparr>)
                   (publishClientResponse (og_next_expected (sx_gateway s)) r (sx_gateway s)))
           (\<lambda>s _. Ok (s\<lparr>sx_published := sx_published s @ [(eo_ref o', r)]\<rparr>) ()))"

definition outstanding :: "simnow_execution \<Rightarrow> bool" where
  "outstanding s \<longleftrightarrow> (\<exists>(ref, o') \<in> set (sx_orders s). \<not> eo_done o')"

text \<open>The operations on \<open>Order& o\<close> take the key of the order in the table.\<close>

definition order_at :: "string \<Rightarrow> simnow_execution \<Rightarrow> exec_order option" where
  "order_at ref s = map_of (sx_orders s) ref"

definition order_assign :: "string \<Rightarrow> exec_order \<Rightarrow> simnow_execution \<Rightarrow> simnow_execution" where
  "order_assign ref o' s = s\<lparr>sx_orders := table_assign ref o' (sx_orders s)\<rparr>"

definition finish :: "string \<Rightarrow> simnow_execution \<Rightarrow> (simnow_execution, unit) outcome" where
  "finish ref s =
     deref (order_at ref s) (\<lambda>o'.
       if eo_done o' \<or> \<not> eo_has_terminal o' \<or> eo_fills o' < eo_reported_fills o' then Ok s ()
       else if eo_fills o' > eo_reported_fills o' then Throw s (Runtime_error ''CTP order/trade quantity mismatch'')
       else then_do
              (if eo_fills o' < qty_int32 (rq_qty (eo_request o'))
               then execution_publish o' (if eo_rejected o' then REJECTED else CANCELED) 0 Price_INVALID s
               else Ok s ())
              (\<lambda>s _. Ok (order_assign ref (o'\<lparr>eo_done := True\<rparr>) s) ()))"

section \<open>Requests of the gateway\<close>

definition measure :: "client_request \<Rightarrow> int \<Rightarrow> simnow_execution \<Rightarrow> simnow_execution" where
  "measure r rc s = s\<lparr>sx_measurement := map_option (recordTrace r rc) (sx_measurement s)\<rparr>"

text \<open>The fields that an order and its cancellation share: broker, investor, user, instrument, exchange.\<close>

definition account_fields :: "simnow_config \<Rightarrow> exn + (string \<times> string \<times> string \<times> string \<times> string)" where
  "account_fields c =
     bind_exn (put 11 (sc_broker c)) (\<lambda>b.
     bind_exn (put 13 (sc_user c)) (\<lambda>i.
     bind_exn (put 16 (sc_user c)) (\<lambda>u.
     bind_exn (put 81 (sc_instrument c)) (\<lambda>n.
     bind_exn (put 9 ''SHFE'') (\<lambda>x. Inr (b, i, u, n, x))))))"

definition cancel_action :: "exec_order \<Rightarrow> simnow_execution \<Rightarrow> exn + ctp_order_action" where
  "cancel_action o' s =
     bind_exn (account_fields (sx_config s)) (\<lambda>(b, i, u, n, x).
     bind_exn (put 13 (eo_ref o')) (\<lambda>ref.
     bind_exn (put 21 (eo_sys o')) (\<lambda>sys.
     Inr \<lparr>oa_broker = b, oa_investor = i, oa_user = u, oa_instrument = n, oa_exchange = x, oa_ref = ref,
          oa_sys = sys, oa_front = sx_front s, oa_session = sx_session s, oa_flag = AF_Delete,
          oa_action_ref = 0\<rparr>)))"

definition execution_cancel :: "string \<Rightarrow> client_request option \<Rightarrow> simnow_execution \<Rightarrow> (simnow_execution, unit) outcome" where
  "execution_cancel ref observed s =
     deref (order_at ref s) (\<lambda>o'.
       if eo_done o' \<or> eo_has_terminal o' \<or> eo_cancel_sent o' \<or> nc_disconnected (sx_control s) then Ok s ()
       else
         try_with s (cancel_action o' s) (\<lambda>p.
         then_do (fresh_id s) (\<lambda>s n.
         let o' = o'\<lparr>eo_cancel_id := n, eo_cancel_sent := True\<rparr>;
             s = order_assign ref o' s;
             request = (case observed of Some r \<Rightarrow> r | None \<Rightarrow> client_request_init)
         in then_do (on_transport s
                      (cancelObserved (p\<lparr>oa_action_ref := n\<rparr>) n (rq_trace request) (sx_transport s))) (\<lambda>s (rc, trace).
            let s = (if observed = None then s else measure (request\<lparr>rq_trace := trace\<rparr>) rc s)
            in if rc \<noteq> 0
               then then_do (execution_publish o' CANCEL_REJECTED 0 Price_INVALID s) (\<lambda>s _.
                    Ok (execution_fail ''Cancellation not submitted; order remains unresolved'' s) ())
               else Ok s ()))))"

definition refused :: "client_request \<Rightarrow> simnow_execution \<Rightarrow> bool" where
  "refused r s \<longleftrightarrow>
     rq_type r \<noteq> Request_NEW \<or> \<not> sx_ready s \<or> nc_stopping (sx_control s) \<or> nc_fatal (sx_control s) \<or>
     rq_ticker_id r \<noteq> sc_ticker_id (sx_config s) \<or> rq_client_id r \<noteq> og_client_id (sx_gateway s) \<or>
     rq_order_type r \<noteq> LIMIT \<or> rq_qty r \<noteq> 1 \<or> outstanding s \<or> (rq_side r \<noteq> BUY \<and> rq_side r \<noteq> SELL)"

definition position_forbids :: "client_request \<Rightarrow> simnow_execution \<Rightarrow> bool" where
  "position_forbids r s \<longleftrightarrow>
     rq_offset r = OPEN \<and> sx_net_position s \<noteq> 0 \<or>
     rq_offset r \<noteq> OPEN \<and> (rq_offset r \<noteq> CLOSE_TODAY \<or> sint (sx_net_position s) \<noteq> - sideToValue (rq_side r))"

text \<open>The check of the price; a remainder by zero is undefined.\<close>

definition price_forbids :: "client_request \<Rightarrow> simnow_execution \<Rightarrow> bool option" where
  "price_forbids r s =
     (let tick = ctp_price (in_price_tick (sx_instrument s)); p = rq_price r
      in if sint p \<le> 0 \<or> p = Price_INVALID \<or> tick = Price_INVALID then Some True
         else if tick = 0 then None
         else Some (sint p mod sint tick \<noteq> 0))"

definition input_order :: "client_request \<Rightarrow> string \<Rightarrow> simnow_config \<Rightarrow> exn + ctp_input_order" where
  "input_order r ref c =
     bind_exn (account_fields c) (\<lambda>(b, i, u, n, x).
     bind_exn (put 13 ref) (\<lambda>ref.
     Inr \<lparr>io_broker = b, io_investor = i, io_user = u, io_instrument = n, io_exchange = x, io_ref = ref,
          io_direction = (if sideToValue (rq_side r) > 0 then D_Buy else D_Sell),
          io_offset = (if rq_offset r = OPEN then OF_Open else OF_CloseToday),
          io_hedge = HF_Speculation, io_price_type = OPT_LimitPrice, io_limit_price = ctp_decimal (rq_price r),
          io_volume = 1, io_time_condition = TC_GFD, io_volume_condition = VC_AV, io_min_volume = 1,
          io_contingent = CC_Immediately, io_force_close = FCC_NotForceClose\<rparr>))"

text \<open>The order is stored, then sent.\<close>

definition submit_new :: "client_request \<Rightarrow> simnow_execution \<Rightarrow> (simnow_execution, unit) outcome" where
  "submit_new r s =
     try_with s (account_fields (sx_config s)) (\<lambda>_.
       let number = sx_next_ref s + 1; ref = show_u number; s = s\<lparr>sx_next_ref := number\<rparr>
       in try_with s (input_order r ref (sx_config s)) (\<lambda>p.
          then_do (fresh_id s) (\<lambda>s n.
          let s = s\<lparr>sx_orders := table_emplace ref
                      ((exec_order_new r)\<lparr>eo_ref := ref, eo_insert_id := n\<rparr>) (sx_orders s)\<rparr>
          in then_do (on_transport s (insertObserved p n (rq_trace r) (sx_transport s))) (\<lambda>s (rc, trace).
             let s = measure (r\<lparr>rq_trace := trace\<rparr>) rc s
             in if rc \<noteq> 0
                then deref (order_at ref s) (\<lambda>o'.
                     then_do (execution_publish o' REJECTED 0 Price_INVALID s) (\<lambda>s _.
                     Ok (order_assign ref (o'\<lparr>eo_done := True\<rparr>) s) ()))
                else Ok s ()))))"

definition order_of_id :: "order_id \<Rightarrow> simnow_execution \<Rightarrow> string option" where
  "order_of_id n s = map_option fst (find (\<lambda>(ref, o'). rq_order_id (eo_request o') = n) (sx_orders s))"

definition submit :: "client_request \<Rightarrow> simnow_execution \<Rightarrow> (simnow_execution, unit) outcome" where
  "submit r s =
     (if rq_client_id r \<noteq> og_client_id (sx_gateway s) \<or> rq_ticker_id r \<noteq> sc_ticker_id (sx_config s)
      then Throw s (Runtime_error ''SimNow request identity mismatch'')
      else
        case (if rq_type r = Request_CANCEL then order_of_id (rq_order_id r) s else None) of
          Some ref \<Rightarrow> execution_cancel ref (Some r) s
        | None \<Rightarrow>
            let reject = execution_publish (exec_order_new r)
                  (if rq_type r = Request_CANCEL then CANCEL_REJECTED else REJECTED) 0 Price_INVALID s
            in if refused r s \<or> position_forbids r s then reject
               else case price_forbids r s of
                      None \<Rightarrow> Undef
                    | Some True \<Rightarrow> reject
                    | Some False \<Rightarrow> submit_new r s)"

definition execution_handleRequest :: "client_request \<Rightarrow> simnow_execution \<Rightarrow> (simnow_execution, unit) outcome" where
  "execution_handleRequest r s = catch_fail (submit r s)"

section \<open>Events of the trader API\<close>

definition terminal :: "char \<Rightarrow> bool" where
  "terminal status \<longleftrightarrow> status = OST_AllTraded \<or> status = OST_Canceled \<or>
     status = OST_PartTradedNotQueueing \<or> status = OST_NoTradeNotQueueing"

text \<open>The last part of \<open>orderEvent\<close>, for an order that is not done.\<close>

definition order_progress :: "ctp_order \<Rightarrow> string \<Rightarrow> simnow_execution \<Rightarrow> (simnow_execution, unit) outcome" where
  "order_progress p ref s =
     deref (order_at ref s) (\<lambda>o'.
       if terminal (co_status p) \<or> co_submit_status p = OSS_InsertRejected
       then finish ref (order_assign ref
              (o'\<lparr>eo_has_terminal := True, eo_rejected := (co_submit_status p = OSS_InsertRejected)\<rparr>) s)
       else if \<not> eo_accepted o' \<and> (co_status p = OST_NoTradeQueueing \<or> co_status p = OST_PartTradedQueueing)
       then then_do (execution_publish o' ACCEPTED 0 Price_INVALID s)
              (\<lambda>s _. Ok (order_assign ref (o'\<lparr>eo_accepted := True\<rparr>) s) ())
       else Ok s ())"

text \<open>A refused cancellation is reported once.\<close>

definition cancel_refused :: "string \<Rightarrow> simnow_execution \<Rightarrow> (simnow_execution, unit) outcome" where
  "cancel_refused ref s =
     deref (order_at ref s) (\<lambda>o'.
       if eo_cancel_rejected o' then Ok s ()
       else then_do (execution_publish o' CANCEL_REJECTED 0 Price_INVALID s)
              (\<lambda>s _. Ok (order_assign ref (o'\<lparr>eo_cancel_rejected := True\<rparr>) s) ()))"

definition orderEvent :: "ctp_order \<Rightarrow> simnow_execution \<Rightarrow> (simnow_execution, unit) outcome" where
  "orderEvent p s =
     (let ref = co_ref p
      in case order_at ref s of
           None \<Rightarrow> Throw s (Runtime_error ''Unexpected order on exclusive SimNow account'')
         | Some o' \<Rightarrow>
             if co_front p \<noteq> sx_front s \<or> co_session p \<noteq> sx_session s \<or> sc_instrument (sx_config s) \<noteq> co_instrument p
             then Throw s (Runtime_error ''Unexpected order on exclusive SimNow account'')
             else
               let o' = (if co_sys p \<noteq> [] then o'\<lparr>eo_sys := co_sys p\<rparr> else o');
                   s = order_assign ref o' s
               in if co_volume_traded p < 0 \<or> co_volume_traded p > 1
                  then Throw s (Runtime_error ''Invalid CTP cumulative execution quantity'')
                  else
                    let o' = o'\<lparr>eo_reported_fills := max (eo_reported_fills o') (co_volume_traded p)\<rparr>;
                        s = order_assign ref o' s
                    in if eo_done o' then Ok s ()
                       else then_do
                              (if co_submit_status p = OSS_CancelRejected then cancel_refused ref s else Ok s ())
                              (\<lambda>s _. order_progress p ref s))"

definition trade_key :: "ctp_trade \<Rightarrow> string" where
  "trade_key p = ct_trading_day p @ '':'' @ ct_exchange p @ '':'' @ ct_trade_id p"

definition invalid_trade :: "ctp_trade \<Rightarrow> exec_order \<Rightarrow> bool" where
  "invalid_trade p o' \<longleftrightarrow>
     ct_trade_id p = [] \<or> ct_volume p \<noteq> 1 \<or> eo_fills o' \<noteq> 0 \<or> eo_done o' \<or>
     ctp_price (ct_price p) = Price_INVALID \<or>
     ct_direction p \<noteq> (if rq_side (eo_request o') = BUY then D_Buy else D_Sell) \<or>
     ct_offset p \<noteq> (if rq_offset (eo_request o') = OPEN then OF_Open else OF_CloseToday)"

definition tradeEvent :: "ctp_trade \<Rightarrow> simnow_execution \<Rightarrow> (simnow_execution, unit) outcome" where
  "tradeEvent p s =
     (let ref = ct_ref p
      in case order_at ref s of
           None \<Rightarrow> Throw s (Runtime_error ''Unexpected trade on exclusive SimNow account'')
         | Some o' \<Rightarrow>
             if sc_instrument (sx_config s) \<noteq> ct_instrument p \<or> ct_exchange p \<noteq> ''SHFE'' \<or>
                sx_trading_day s \<noteq> ct_trading_day p
             then Throw s (Runtime_error ''Unexpected trade on exclusive SimNow account'')
             else if eo_sys o' \<noteq> [] \<and> eo_sys o' \<noteq> ct_sys p
             then Throw s (Runtime_error ''CTP trade order identity mismatch'')
             else if trade_key p \<in> set (eo_trades o') then Ok s ()
             else if invalid_trade p o' then Throw s (Runtime_error ''Invalid CTP execution'')
             else
               let o' = o'\<lparr>eo_trades := trade_key p # eo_trades o', eo_fills := eo_fills o' + ct_volume p\<rparr>;
                   s = order_assign ref o' s;
                   s = s\<lparr>sx_net_position := sx_net_position s +
                           of_int (sideToValue (rq_side (eo_request o')) * ct_volume p)\<rparr>
               in then_do (execution_publish o' FILLED (ct_volume p) (ctp_price (ct_price p)) s)
                    (\<lambda>s _. Ok (order_assign ref (o'\<lparr>eo_done := True\<rparr>) s) ()))"

text \<open>The order that an error message is about: by its reference, else by the id of the request.\<close>

definition error_ref :: "ctp_event \<Rightarrow> string" where
  "error_ref e = (case ev_payload e of P_input_order p \<Rightarrow> io_ref p | P_order_action p \<Rightarrow> oa_ref p | _ \<Rightarrow> [])"

definition error_order :: "ctp_event \<Rightarrow> simnow_execution \<Rightarrow> string option" where
  "error_order e s =
     (if order_at (error_ref e) s \<noteq> None then Some (error_ref e)
      else map_option fst (find (\<lambda>(ref, o'). ev_request_id e \<noteq> 0 \<and>
             (if ev_kind e = InsertError then eo_insert_id o' else eo_cancel_id o') = ev_request_id e) (sx_orders s)))"

definition error_event :: "ctp_event \<Rightarrow> simnow_execution \<Rightarrow> (simnow_execution, unit) outcome" where
  "error_event e s =
     (if ev_error e = 0 then Ok s ()
      else
        case error_order e s of
          None \<Rightarrow> Throw s (Runtime_error ''Unmatched CTP order error'')
        | Some ref \<Rightarrow>
            deref (order_at ref s) (\<lambda>o'.
              if eo_done o' then Ok s ()
              else if ev_kind e = InsertError
              then finish ref (order_assign ref (o'\<lparr>eo_rejected := True, eo_has_terminal := True\<rparr>) s)
              else cancel_refused ref s))"

definition login_reply :: "ctp_event \<Rightarrow> simnow_execution \<Rightarrow> (simnow_execution, unit) outcome" where
  "login_reply e s =
     (case ev_payload e of
        P_login p \<Rightarrow>
          if lg_trading_day p = [] then Throw s (Runtime_error ''Missing CTP login session'')
          else
            let c = sx_control s; day = lg_trading_day p;
                s = s\<lparr>sx_front := lg_front p, sx_session := lg_session p, sx_trading_day := day,
                      sx_control := c\<lparr>nc_trading_day := day\<rparr>\<rparr>
            in if nc_market_day c \<noteq> [] \<and> nc_market_day c \<noteq> day
               then Throw s (Runtime_error ''Trading and market data trading days disagree'')
               else try_with s (if lg_max_order_ref p \<noteq> [] then bind_exn (stoull (lg_max_order_ref p)) (\<lambda>(n, _). Inr n)
                                else Inr 0)
                      (\<lambda>n. execution_request Settlement (s\<lparr>sx_next_ref := n\<rparr>))
      | _ \<Rightarrow> Throw s (Runtime_error ''Missing CTP login session''))"

definition startup_reply :: "ctp_event \<Rightarrow> simnow_execution \<Rightarrow> (simnow_execution, unit) outcome" where
  "startup_reply e s =
     (if map_of (sx_requests s) (ev_request_id e) \<noteq> Some (ev_kind e) \<or> \<not> ev_last e then Ok s ()
      else
        let s = s\<lparr>sx_requests := filter (\<lambda>r. fst r \<noteq> ev_request_id e) (sx_requests s)\<rparr>
        in case ev_kind e of
             Auth \<Rightarrow> execution_request Login s
           | Login \<Rightarrow> login_reply e s
           | _ \<Rightarrow> Ok (s\<lparr>sx_queries := [Instrument, Account, Position, OrderQuery]\<rparr>) ())"

definition ineligible :: "ctp_instrument \<Rightarrow> bool" where
  "ineligible p \<longleftrightarrow> in_exchange p \<noteq> ''SHFE'' \<or> in_product p \<noteq> PC_Futures \<or> in_is_trading p = 0 \<or>
     in_multiple p \<le> 0 \<or> ctp_price (in_price_tick p) = Price_INVALID \<or>
     in_min_limit_volume p > 1 \<or> in_max_limit_volume p < 1"

text \<open>The payload of an answer to a query, and its end.\<close>

definition query_data :: "ctp_payload \<Rightarrow> simnow_execution \<Rightarrow> (simnow_execution, unit) outcome" where
  "query_data payload s =
     (case payload of
        P_instrument p \<Rightarrow>
          if sc_instrument (sx_config s) \<noteq> in_instrument p then Ok s ()
          else if ineligible p
          then Throw s (Runtime_error ''Configured instrument is not an eligible SHFE futures contract'')
          else Ok (s\<lparr>sx_instrument := p, sx_instrument_seen := True\<rparr>) ()
      | P_account p \<Rightarrow>
          if ta_currency p \<noteq> ''CNY'' \<or> \<not> isfinite (ta_available p) \<or> \<not> isfinite (ta_curr_margin p) \<or>
             \<not> isfinite (ta_balance p)
          then Throw s (Runtime_error ''Invalid CTP account snapshot'')
          else Ok (s\<lparr>sx_account := \<lparr>ac_available_margin = ta_available p, ac_used_margin = ta_curr_margin p,
                                    ac_equity = ta_balance p\<rparr>, sx_account_seen := True\<rparr>) ()
      | P_position p \<Rightarrow>
          if ip_position p \<noteq> 0 \<or> ip_long_frozen p \<noteq> 0 \<or> ip_short_frozen p \<noteq> 0
          then Throw s (Runtime_error ''SimNow startup requires an empty account'') else Ok s ()
      | P_order p \<Rightarrow>
          if \<not> terminal (co_status p) then Throw s (Runtime_error ''SimNow startup found an active order'')
          else Ok s ()
      | _ \<Rightarrow> Ok s ())"

definition query_end :: "simnow_execution \<Rightarrow> (simnow_execution, unit) outcome" where
  "query_end s =
     (if sx_query_kind s = Instrument \<and> \<not> sx_instrument_seen s \<or> sx_query_kind s = Account \<and> \<not> sx_account_seen s
      then Throw s (Runtime_error ''Required CTP query returned no data'')
      else Ok (s\<lparr>sx_startup_done := sx_startup_done s \<or> sx_query_kind s = OrderQuery, sx_query_id := 0\<rparr>) ())"

definition query_reply :: "ctp_event \<Rightarrow> simnow_execution \<Rightarrow> (simnow_execution, unit) outcome" where
  "query_reply e s =
     (if ev_request_id e \<noteq> sx_query_id s \<or> ev_kind e \<noteq> sx_query_kind s \<or> sx_query_id s = 0 then Ok s ()
      else then_do (query_data (ev_payload e) s) (\<lambda>s _. if ev_last e then query_end s else Ok s ()))"

definition execution_event :: "ctp_event \<Rightarrow> simnow_execution \<Rightarrow> (simnow_execution, unit) outcome" where
  "execution_event e s =
     (if ev_kind e = Disconnected
      then Throw (s\<lparr>sx_control := (sx_control s)\<lparr>nc_disconnected := True\<rparr>\<rparr>)
             (Runtime_error ''CTP disconnected; execution status may be unknown'')
      else if ev_kind e = Order then (case ev_payload e of P_order p \<Rightarrow> orderEvent p s | _ \<Rightarrow> Ok s ())
      else if ev_kind e = Trade then (case ev_payload e of P_trade p \<Rightarrow> tradeEvent p s | _ \<Rightarrow> Ok s ())
      else if ev_kind e = InsertError \<or> ev_kind e = CancelError then error_event e s
      else if nc_fatal (sx_control s) then Ok s ()
      else if ev_error e \<noteq> 0 then
        if sx_startup_done s \<and> sx_query_id s \<noteq> 0 \<and> ev_request_id e = sx_query_id s \<and> sx_query_kind s = Account
        then Ok (execution_state False (s\<lparr>sx_query_id := 0, sx_account := unknown_account\<rparr>)) ()
        else Throw s (Runtime_error (''CTP response error code='' @ show_int (ev_error e)))
      else if ev_kind e = TraderConnected then
        if sx_trader_connected s then Throw s (Runtime_error ''CTP reconnection is unsupported'')
        else execution_request Auth (s\<lparr>sx_trader_connected := True\<rparr>)
      else if ev_kind e = Auth \<or> ev_kind e = Login \<or> ev_kind e = Settlement then startup_reply e s
      else query_reply e s)"

section \<open>The poll\<close>

text \<open>At most 256 events of the queue; each is taken even when its handler failed.\<close>

primrec poll_batch :: "nat \<Rightarrow> simnow_execution \<Rightarrow> (simnow_execution, unit) outcome" where
  "poll_batch 0 s = Ok s ()"
| "poll_batch (Suc n) s =
     (case lq_peek (sx_events s) of
        None \<Rightarrow> Ok s ()
      | Some e \<Rightarrow>
          then_do (catch_fail (execution_event e s)) (\<lambda>s _.
          then_do (on_part (\<lambda>q. s\<lparr>sx_events := q\<rparr>) (updateReadIndex (sx_events s))) (\<lambda>s _.
          poll_batch n s)))"

primrec cancel_all :: "string list \<Rightarrow> simnow_execution \<Rightarrow> (simnow_execution, unit) outcome" where
  "cancel_all [] s = Ok s ()"
| "cancel_all (ref # refs) s = then_do (execution_cancel ref None s) (\<lambda>s _. cancel_all refs s)"

definition poll_stopping :: "simnow_execution \<Rightarrow> (simnow_execution, unit) outcome" where
  "poll_stopping s =
     (let s = execution_state False s
      in then_do (cancel_all (map fst (sx_orders s)) s) (\<lambda>s _.
         Ok (if outstanding s then s else s\<lparr>sx_control := (sx_control s)\<lparr>nc_stop_done := True\<rparr>\<rparr>) ()))"

text \<open>The periodic account query, then the next query of the queue.\<close>

definition schedule_account :: "int \<Rightarrow> simnow_execution \<Rightarrow> simnow_execution" where
  "schedule_account now s =
     (if sx_startup_done s \<and> now \<ge> sx_next_account s \<and> sx_query_id s = 0 \<and> sx_queries s = []
      then s\<lparr>sx_queries := [Account], sx_next_account := now + 30 * 1000000000\<rparr> else s)"

definition send_query :: "int \<Rightarrow> simnow_execution \<Rightarrow> (simnow_execution, unit) outcome" where
  "send_query now s =
     (case sx_queries s of
        kind # queries \<Rightarrow>
          if sx_query_id s \<noteq> 0 \<or> now < sx_next_query s then Ok s ()
          else
            then_do (fresh_id (s\<lparr>sx_query_kind := kind, sx_queries := queries\<rparr>)) (\<lambda>s n.
            let s = s\<lparr>sx_query_id := n, sx_account_seen := (if kind = Account then False else sx_account_seen s)\<rparr>
            in then_do (on_transport s (transport_call (Call_request kind n) (sx_transport s))) (\<lambda>s rc.
               let s = s\<lparr>sx_next_query := now + sc_query_interval (sx_config s) * 1000000,
                         sx_query_deadline := now + 10 * 1000000000\<rparr>
               in if rc = -2 \<or> rc = -3
                  then Ok (s\<lparr>sx_queries := kind # sx_queries s, sx_query_id := 0,
                             sx_account := (if sx_startup_done s then unknown_account else sx_account s)\<rparr>) ()
                  else if rc \<noteq> 0 then Throw s (Runtime_error ''CTP query not submitted'')
                  else Ok s ()))
      | [] \<Rightarrow> Ok s ())"

definition usable :: "simnow_execution \<Rightarrow> bool" where
  "usable s \<longleftrightarrow> \<not> nc_fatal (sx_control s) \<and> sx_startup_done s \<and>
     nc_subscribed (sx_control s) \<and> nc_quote_valid (sx_control s) \<and> isfinite (ac_equity (sx_account s))"

definition poll_running :: "int \<Rightarrow> simnow_execution \<Rightarrow> (simnow_execution, unit) outcome" where
  "poll_running now s =
     (if nc_fatal (sx_control s) then Ok (execution_state False s) ()
      else if sx_query_id s \<noteq> 0 \<and> now > sx_query_deadline s
      then Throw s (Runtime_error ''CTP query timed out'')
      else then_do (send_query now (schedule_account now s)) (\<lambda>s _.
           let enabled = usable s; s = execution_state enabled s
           in Ok (if enabled then s\<lparr>sx_control := (sx_control s)\<lparr>nc_active := True\<rparr>\<rparr> else s) ()))"

definition pollOrders :: "int \<Rightarrow> simnow_execution \<Rightarrow> (simnow_execution, unit) outcome" where
  "pollOrders now s =
     catch_fail
       (let overflow = nc_overflow (sx_control s);
            s = s\<lparr>sx_control := (sx_control s)\<lparr>nc_overflow := False\<rparr>\<rparr>;
            s = (if overflow
                 then execution_fail ''CTP callback queue exhausted; execution status may be unknown'' s else s)
        in then_do (poll_batch 256 s) (\<lambda>s _.
           if nc_stopping (sx_control s) then poll_stopping s else poll_running now s))"

definition execution_position :: "simnow_execution \<Rightarrow> int" where
  "execution_position s = sint (sx_net_position s)"

end
