(* ===== verification/SimNowLedger.thy ===== *)
theory SimNowLedger
  imports SimNowExecution
begin

text \<open>
  The orders of the SimNow execution as a ledger: which responses an order has had, which fill the
  position counts, and that one order at most is open. Every operation on the table of orders keeps
  it. \<open>keeps\<close> is the rule form of an invariant: it holds after the call, whether it returns or throws;
  a call that ends the process leaves no state.
\<close>

section \<open>Invariants of calls\<close>

primrec keeps :: "('s \<Rightarrow> bool) \<Rightarrow> ('s, 'a) outcome \<Rightarrow> bool" where
  "keeps P (Ok s a) = P s"
| "keeps P (Throw s e) = P s"
| "keeps P (Abort m) = True"
| "keeps P Hang = True"
| "keeps P Undef = True"

named_theorems keeps_intros \<open>rules that prove that a composed call keeps an invariant\<close>

lemma keeps_then_do [keeps_intros]:
  "keeps P m \<Longrightarrow> (\<And>s a. P s \<Longrightarrow> keeps P (f s a)) \<Longrightarrow> keeps P (then_do m f)"
  by (cases m) simp_all

lemma keeps_on_part: "keeps (\<lambda>p. P (put p)) m \<Longrightarrow> keeps P (on_part put m)"
  by (cases m) simp_all

lemma keeps_deref [keeps_intros]: "(\<And>b. x = Some b \<Longrightarrow> keeps P (f b)) \<Longrightarrow> keeps P (deref x f)"
  by (cases x) simp_all

lemma keeps_try_with [keeps_intros]: "P s \<Longrightarrow> (\<And>b. r = Inr b \<Longrightarrow> keeps P (f b)) \<Longrightarrow> keeps P (try_with s r f)"
  by (cases r) simp_all

lemma keeps_int32 [keeps_intros]: "keeps P (f i) \<Longrightarrow> keeps P (int32 i f)"
  by (simp add: int32_def)

lemma keeps_if [keeps_intros]: "(b \<Longrightarrow> keeps P m) \<Longrightarrow> (\<not> b \<Longrightarrow> keeps P m') \<Longrightarrow> keeps P (if b then m else m')"
  by simp

lemma keeps_catch_fail [keeps_intros]:
  "keeps P m \<Longrightarrow> (\<And>s e. P s \<Longrightarrow> P (execution_fail e s)) \<Longrightarrow> keeps P (catch_fail m)"
  by (cases m) (simp_all add: catch_fail_def)

lemma keeps_mono: "keeps P m \<Longrightarrow> (\<And>s. P s \<Longrightarrow> Q s) \<Longrightarrow> keeps Q m"
  by (cases m) simp_all

lemma keeps_OkD: "keeps P m \<Longrightarrow> m = Ok s a \<Longrightarrow> P s"
  by simp

text \<open>Calls that leave a part of the state alone.\<close>

lemma fresh_id_Ok: "fresh_id s = Ok s' n \<Longrightarrow> s' = s\<lparr>sx_next_id := n\<rparr> \<and> n = sx_next_id s + 1"
  by (auto simp: fresh_id_def int32_def split: if_splits)

lemma keeps_fresh_id [keeps_intros]: "P (s\<lparr>sx_next_id := sx_next_id s + 1\<rparr>) \<Longrightarrow> keeps P (fresh_id s)"
  by (simp add: fresh_id_def int32_def)

lemma keeps_on_transport [keeps_intros]: "(\<And>t. P (s\<lparr>sx_transport := t\<rparr>)) \<Longrightarrow> keeps P (on_transport s m)"
  by (cases m) (simp_all add: on_transport_def)

lemma execution_state_cases:
  "execution_state b s = s \<or> (\<exists>k. execution_state b s = s\<lparr>sx_ready := b, sx_published_account := sx_account s,
      sx_state_published := True, sx_sink := k\<rparr>)"
  by (auto simp: execution_state_def Let_def)

lemma execution_state_simps [simp]:
  "sx_gateway (execution_state b s) = sx_gateway s"
  "sx_config (execution_state b s) = sx_config s"
  "sx_transport (execution_state b s) = sx_transport s"
  "sx_control (execution_state b s) = sx_control s"
  "sx_orders (execution_state b s) = sx_orders s"
  "sx_published (execution_state b s) = sx_published s"
  "sx_net_position (execution_state b s) = sx_net_position s"
  "sx_events (execution_state b s) = sx_events s"
  "sx_next_ref (execution_state b s) = sx_next_ref s"
  "sx_next_id (execution_state b s) = sx_next_id s"
  "sx_trader_connected (execution_state b s) = sx_trader_connected s"
  "sx_requests (execution_state b s) = sx_requests s"
  "sx_queries (execution_state b s) = sx_queries s"
  "sx_query_id (execution_state b s) = sx_query_id s"
  "sx_query_kind (execution_state b s) = sx_query_kind s"
  "sx_startup_done (execution_state b s) = sx_startup_done s"
  "sx_instrument_seen (execution_state b s) = sx_instrument_seen s"
  "sx_instrument (execution_state b s) = sx_instrument s"
  by (simp_all add: execution_state_def Let_def)

lemma execution_fail_simps [simp]:
  "sx_gateway (execution_fail m s) = sx_gateway s"
  "sx_config (execution_fail m s) = sx_config s"
  "sx_transport (execution_fail m s) = sx_transport s"
  "sx_orders (execution_fail m s) = sx_orders s"
  "sx_published (execution_fail m s) = sx_published s"
  "sx_net_position (execution_fail m s) = sx_net_position s"
  "sx_events (execution_fail m s) = sx_events s"
  "sx_next_ref (execution_fail m s) = sx_next_ref s"
  "sx_next_id (execution_fail m s) = sx_next_id s"
  "sx_trader_connected (execution_fail m s) = sx_trader_connected s"
  "sx_requests (execution_fail m s) = sx_requests s"
  "sx_queries (execution_fail m s) = sx_queries s"
  "sx_query_id (execution_fail m s) = sx_query_id s"
  "sx_query_kind (execution_fail m s) = sx_query_kind s"
  "sx_startup_done (execution_fail m s) = sx_startup_done s"
  "sx_instrument_seen (execution_fail m s) = sx_instrument_seen s"
  "sx_instrument (execution_fail m s) = sx_instrument s"
  "sx_control (execution_fail m s) = signalFailure m (sx_control s)"
  by (simp_all add: execution_fail_def)

lemma execution_ready: "sx_ready (execution_state b s) \<longleftrightarrow> b"
  by (auto simp: execution_state_def Let_def)

lemma execution_fail_ready [simp]: "\<not> sx_ready (execution_fail m s)"
  by (simp add: execution_fail_def execution_ready)

section \<open>The table\<close>

lemma map_of_assign: "map_of (table_assign k v m) j = (if j = k \<and> map_of m k \<noteq> None then Some v else map_of m j)"
  by (induction m) (auto simp: table_assign_def)

lemma keys_assign [simp]: "map fst (table_assign k v m) = map fst m"
  by (simp add: table_assign_def comp_def case_prod_unfold)

lemma assign_Nil_iff [simp]: "table_assign k v m = [] \<longleftrightarrow> m = []"
  by (simp add: table_assign_def)

lemma sum_assign:
  fixes f :: "'a \<Rightarrow> int"
  assumes "distinct (map fst m)" "map_of m k = Some v"
  shows "(\<Sum>(_, x)\<leftarrow>table_assign k w m. f x) = (\<Sum>(_, x)\<leftarrow>m. f x) - f v + f w"
  using assms
proof (induction m)
  case (Cons e m)
  have other: "table_assign k w m = m" if "k \<notin> set (map fst m)"
    using that unfolding table_assign_def by (intro map_idI) force
  show ?case
  proof (cases "fst e = k")
    case True
    then show ?thesis using Cons.prems other by (cases e) (auto simp: table_assign_def)
  next
    case False
    then show ?thesis using Cons by (cases e) (auto simp: table_assign_def)
  qed
qed simp

lemma emplace_new:
  fixes v :: 'a and f :: "'a \<Rightarrow> int"
  assumes "sorted_wrt (<) (map fst m)" "map_of m k = None"
  shows "sorted_wrt (<) (map fst (table_emplace k v m)) \<and> map_of (table_emplace k v m) = (map_of m)(k \<mapsto> v) \<and>
    set (map fst (table_emplace k v m)) = insert k (set (map fst m)) \<and>
    (\<Sum>(_, x)\<leftarrow>table_emplace k v m. f x) = (\<Sum>(_, x)\<leftarrow>m. f x) + f v"
  using assms
proof (induction k v m rule: table_emplace.induct)
  case (2 k v k' v' m)
  have ne: "k \<noteq> k'" "map_of m k = None" using 2(3) by (auto split: if_splits)
  show ?case
  proof (cases "k < k'")
    case True
    then show ?thesis using 2(2) ne by (auto intro: less_trans)
  next
    case False
    then have "k' < k" using ne(1) by simp
    then show ?thesis using 2(1)[OF False ne(1)] 2(2) ne False by (auto simp: fun_eq_iff)
  qed
qed simp

lemma map_of_set: "distinct (map fst m) \<Longrightarrow> (k, v) \<in> set m \<longleftrightarrow> map_of m k = Some v"
  by (simp add: map_of_eq_Some_iff)

section \<open>The ledger\<close>

definition final_type :: "client_response_type \<Rightarrow> bool" where
  "final_type t \<longleftrightarrow> t \<in> {FILLED, CANCELED, REJECTED}"

definition finals :: "string \<Rightarrow> (string \<times> client_response) list \<Rightarrow> client_response_type list" where
  "finals ref pub = map (rs_type \<circ> snd) (filter (\<lambda>(k, r). k = ref \<and> final_type (rs_type r)) pub)"

text \<open>The signed fill of an order, and the position its request was made at.\<close>

definition signed_fill :: "exec_order \<Rightarrow> int" where
  "signed_fill o' = sideToValue (rq_side (eo_request o')) * eo_fills o'"

definition position_before :: "client_request \<Rightarrow> 32 word" where
  "position_before r = (if rq_offset r = OPEN then 0 else - of_int (sideToValue (rq_side r)))"

definition admissible :: "client_request \<Rightarrow> bool" where
  "admissible r \<longleftrightarrow> rq_qty r = 1 \<and> rq_side r \<in> {BUY, SELL} \<and> rq_offset r \<in> {OPEN, CLOSE_TODAY}"

definition entry_ok :: "(string \<times> client_response) list \<Rightarrow> 32 word \<Rightarrow> string \<Rightarrow> exec_order \<Rightarrow> bool" where
  "entry_ok pub net ref o' \<longleftrightarrow> eo_ref o' = ref \<and> ref \<noteq> [] \<and> admissible (eo_request o') \<and>
     (if eo_done o'
      then (eo_fills o' = 1 \<and> finals ref pub = [FILLED] \<or>
            eo_fills o' = 0 \<and> (finals ref pub = [CANCELED] \<or> finals ref pub = [REJECTED]))
      else eo_fills o' = 0 \<and> finals ref pub = [] \<and> net = position_before (eo_request o'))"

definition ledger :: "order_table \<Rightarrow> (string \<times> client_response) list \<Rightarrow> 32 word \<Rightarrow> bool" where
  "ledger os pub net \<longleftrightarrow>
     sorted_wrt (<) (map fst os) \<and>
     (\<forall>ref o'. map_of os ref = Some o' \<longrightarrow> entry_ok pub net ref o') \<and>
     (\<forall>k1 o1 k2 o2. map_of os k1 = Some o1 \<longrightarrow> map_of os k2 = Some o2 \<longrightarrow> \<not> eo_done o1 \<longrightarrow> \<not> eo_done o2 \<longrightarrow> k1 = k2) \<and>
     (\<forall>ref. ref \<noteq> [] \<longrightarrow> map_of os ref = None \<longrightarrow> finals ref pub = []) \<and>
     net \<in> {0, 1, - 1} \<and> sint net = (\<Sum>(_, o')\<leftarrow>os. signed_fill o')"

definition sx_ledger :: "simnow_execution \<Rightarrow> bool" where
  "sx_ledger s \<longleftrightarrow> og_responses (sx_gateway s) \<noteq> None \<and> ledger (sx_orders s) (sx_published s) (sx_net_position s)"

lemma finals_snoc:
  "finals ref (pub @ [(k, r)]) = finals ref pub @ (if k = ref \<and> final_type (rs_type r) then [rs_type r] else [])"
  by (simp add: finals_def)

lemma sorted_keys_distinct: "sorted_wrt (<) (map fst m) \<Longrightarrow> distinct (map fst (m :: (string \<times> 'a) list))"
  by (simp add: strict_sorted_iff)

definition same_entry :: "exec_order \<Rightarrow> exec_order \<Rightarrow> bool" where
  "same_entry o' o'' \<longleftrightarrow> eo_request o'' = eo_request o' \<and> eo_ref o'' = eo_ref o' \<and> eo_fills o'' = eo_fills o' \<and>
     eo_done o'' = eo_done o'"

lemma ledger_assign:
  assumes "ledger os pub net" "map_of os ref = Some o'" "same_entry o' o''"
  shows "ledger (table_assign ref o'' os) pub net"
proof -
  have "entry_ok pub net ref o''" if "entry_ok pub net ref o'"
    using that assms(3) by (simp add: entry_ok_def same_entry_def)
  moreover have "signed_fill o'' = signed_fill o'" "eo_done o'' = eo_done o'"
    using assms(3) by (simp_all add: signed_fill_def same_entry_def)
  ultimately show ?thesis
    using assms(1,2) sum_assign[OF sorted_keys_distinct assms(2), of signed_fill o'']
    unfolding ledger_def map_of_assign keys_assign by (simp split: if_splits) metis
qed

lemma ledger_publish:
  assumes "ledger os pub net" "ref = [] \<or> \<not> final_type (rs_type r)"
  shows "ledger os (pub @ [(ref, r)]) net"
proof -
  have f: "finals k (pub @ [(ref, r)]) = finals k pub" if "k \<noteq> []" for k
    using that assms(2) by (auto simp: finals_snoc)
  have "entry_ok (pub @ [(ref, r)]) net k o'" if "entry_ok pub net k o'" for k o'
    using that f[of k] by (auto simp: entry_ok_def)
  with assms(1) f show ?thesis unfolding ledger_def by metis
qed

lemma ledger_final:
  assumes l: "ledger os pub net" and at: "map_of os ref = Some o'" "\<not> eo_done o'"
    and new: "eo_request o'' = eo_request o'" "eo_ref o'' = eo_ref o'" "eo_done o''"
    and r: "rs_type r \<in> {CANCELED, REJECTED} \<and> eo_fills o'' = 0 \<and> net' = net \<or>
      rs_type r = FILLED \<and> eo_fills o'' = 1 \<and> net' = net + of_int (sideToValue (rq_side (eo_request o')))"
  shows "ledger (table_assign ref o'' os) (pub @ [(ref, r)]) net'"
proof -
  let ?pub = "pub @ [(ref, r)]"
  have e: "entry_ok pub net ref o'" using l at(1) by (simp add: ledger_def)
  then have o': "eo_fills o' = 0" "finals ref pub = []" "net = position_before (eo_request o')" "ref \<noteq> []"
      "admissible (eo_request o')"
    using at(2) by (simp_all add: entry_ok_def)
  have live: "k = ref" if "map_of os k = Some p" "\<not> eo_done p" for k p
    using l that at unfolding ledger_def by blast
  have "entry_ok ?pub net' ref o''"
    using e at(2) new r o' by (auto simp: entry_ok_def finals_snoc final_type_def)
  moreover have "entry_ok ?pub net' k p" if "map_of os k = Some p" "k \<noteq> ref" for k p
    using l that live[of k p] by (auto simp: ledger_def entry_ok_def finals_snoc)
  ultimately have entries: "entry_ok ?pub net' k p" if "map_of (table_assign ref o'' os) k = Some p" for k p
    using that at(1) by (auto simp: map_of_assign split: if_splits)
  have net': "net' \<in> {0, 1, - 1} \<and> sint net' = sint net + signed_fill o''"
    using r o'(3,5) new(1) by (auto simp: signed_fill_def position_before_def admissible_def)
  have "(\<Sum>(_, x)\<leftarrow>table_assign ref o'' os. signed_fill x) = sint net'"
    using sum_assign[OF sorted_keys_distinct at(1), of signed_fill o''] l net' o'(1)
    by (simp add: ledger_def) (simp add: signed_fill_def)
  then show ?thesis
    unfolding ledger_def keys_assign
  proof (intro conjI allI impI)
    show "sorted_wrt (<) (map fst os)" using l by (simp add: ledger_def)
    show "finals k ?pub = []" if "k \<noteq> []" "map_of (table_assign ref o'' os) k = None" for k
      using l that at(1) by (auto simp: ledger_def finals_snoc map_of_assign split: if_splits)
    show "k1 = k2" if "map_of (table_assign ref o'' os) k1 = Some p1" "map_of (table_assign ref o'' os) k2 = Some p2"
      "\<not> eo_done p1" "\<not> eo_done p2" for k1 k2 p1 p2
      using that new(3) live[of k1 p1] live[of k2 p2] by (auto simp: map_of_assign split: if_splits)
  qed (use entries net' in simp_all)
qed

lemma ledger_open:
  assumes l: "ledger os pub net" and "map_of os ref = None" "ref \<noteq> []"
    and live: "\<forall>k p. map_of os k = Some p \<longrightarrow> eo_done p"
    and new: "admissible (eo_request o')" "eo_ref o' = ref" "eo_fills o' = 0" "\<not> eo_done o'"
    and net: "net = position_before (eo_request o')"
  shows "ledger (table_emplace ref o' os) pub net"
proof -
  have m: "sorted_wrt (<) (map fst (table_emplace ref o' os))" "map_of (table_emplace ref o' os) = (map_of os)(ref \<mapsto> o')"
      "(\<Sum>(_, x)\<leftarrow>table_emplace ref o' os. signed_fill x) = (\<Sum>(_, x)\<leftarrow>os. signed_fill x) + signed_fill o'"
    using emplace_new[of os ref o' signed_fill] l assms(2) by (simp_all add: ledger_def)
  have "entry_ok pub net ref o'"
    using l assms(2,3) new net by (simp add: entry_ok_def ledger_def)
  then show ?thesis
    using l live new(4,3) m(1) unfolding ledger_def m(2,3) by (simp add: signed_fill_def)
qed

section \<open>Publishing\<close>

lemma execution_publish_Ok:
  assumes "og_responses (sx_gateway s) \<noteq> None"
  shows "(\<exists>m. execution_publish o' type n p s = Abort m) \<or>
    (\<exists>g. execution_publish o' type n p s = Ok (s\<lparr>sx_gateway := g,
           sx_published := sx_published s @ [(eo_ref o', response_of o' type n p s)]\<rparr>) () \<and>
         og_responses g \<noteq> None \<and> og_client_id g = og_client_id (sx_gateway s))"
proof -
  obtain q where q: "og_responses (sx_gateway s) = Some q" using assms by blast
  let ?r = "response_of o' type n p s"
  have "rs_client_id ?r = og_client_id (sx_gateway s)" by (simp add: response_of_def)
  then show ?thesis
    by (auto simp: execution_publish_def Let_def publishClientResponse_def q lq_enqueue_def updateWriteIndex_def
        split: option.split)
qed

lemma execution_publish_room:
  assumes "og_responses (sx_gateway s) = Some q" "\<not> lq_isFull q"
  shows "\<exists>g. execution_publish o' type n p s = Ok (s\<lparr>sx_gateway := g,
           sx_published := sx_published s @ [(eo_ref o', response_of o' type n p s)]\<rparr>) ()"
proof -
  let ?r = "response_of o' type n p s"
  have "rs_client_id ?r = og_client_id (sx_gateway s)" by (simp add: response_of_def)
  moreover have "\<not> lq_isFull (lq_write_slot i ?r q)" for i using assms(2) by (simp add: lq_isFull_def lq_write_slot_def)
  ultimately show ?thesis using assms
    by (auto simp: execution_publish_def Let_def publishClientResponse_def lq_enqueue_def updateWriteIndex_def
        tryGetNextToWriteTo_def)
qed

lemma keeps_publish [keeps_intros]:
  assumes "og_responses (sx_gateway s) \<noteq> None"
    and "\<And>g. og_responses g \<noteq> None \<Longrightarrow> og_client_id g = og_client_id (sx_gateway s) \<Longrightarrow>
      P (s\<lparr>sx_gateway := g, sx_published := sx_published s @ [(eo_ref o', response_of o' type n p s)]\<rparr>)"
  shows "keeps P (execution_publish o' type n p s)"
  using execution_publish_Ok[OF assms(1), of o' type n p] assms(2) by auto

lemma keeps_publish_then [keeps_intros]:
  assumes "og_responses (sx_gateway s) \<noteq> None"
    and "\<And>g. og_responses g \<noteq> None \<Longrightarrow> og_client_id g = og_client_id (sx_gateway s) \<Longrightarrow>
      keeps P (f (s\<lparr>sx_gateway := g, sx_published := sx_published s @ [(eo_ref o', response_of o' type n p s)]\<rparr>) ())"
  shows "keeps P (then_do (execution_publish o' type n p s) f)"
  using execution_publish_Ok[OF assms(1), of o' type n p] assms(2) by auto

lemma keeps_fresh_id_then [keeps_intros]:
  "keeps P (f (s\<lparr>sx_next_id := sx_next_id s + 1\<rparr>) (sx_next_id s + 1)) \<Longrightarrow> keeps P (then_do (fresh_id s) f)"
  by (simp add: fresh_id_def int32_def)

lemma keeps_on_transport_then [keeps_intros]:
  "(\<And>t. P (s\<lparr>sx_transport := t\<rparr>)) \<Longrightarrow> (\<And>t a. keeps P (f (s\<lparr>sx_transport := t\<rparr>) a)) \<Longrightarrow>
   keeps P (then_do (on_transport s m) f)"
  by (cases m) (simp_all add: on_transport_def)

lemma rs_type_response_of [simp]: "rs_type (response_of o' type n p s) = type"
  by (simp add: response_of_def)

end
