(* ===== verification/SimNowMarketData.thy ===== *)
theory SimNowMarketData
  imports SimNowLedger
begin

text \<open>
  \<open>trading/venue/simnow/simnow_market_data.{h,cpp}\<close>: the market data side of the SimNow adapter, which
  runs on the worker of the market data consumer. Like the execution it shares the control and the
  transport, which the record holds.
\<close>

section \<open>Model\<close>

record simnow_market_data =
  md_market :: market_data_consumer
  md_config :: simnow_config
  md_transport :: transport
  md_control :: simnow_control
  md_events :: "ctp_event lf_queue"
  md_connected :: bool
  md_next_id :: int
  md_login_request :: int
  md_clock :: "nat \<Rightarrow> 64 word"
  md_ticks :: nat

definition simnow_market_data_new :: "market_data_consumer \<Rightarrow> simnow_config \<Rightarrow> transport \<Rightarrow> simnow_control \<Rightarrow>
    (nat \<Rightarrow> 64 word) \<Rightarrow> ctp_event \<Rightarrow> exn + simnow_market_data" where
  "simnow_market_data_new market c t shared clock blank =
     bind_exn (lf_queue_new blank (sc_capacity c)) (\<lambda>q. Inr
       \<lparr>md_market = market, md_config = c, md_transport = t, md_control = shared, md_events = q,
        md_connected = False, md_next_id = 0, md_login_request = 0, md_clock = clock, md_ticks = 0\<rparr>)"

definition market_enqueue :: "ctp_event \<Rightarrow> simnow_market_data \<Rightarrow> (simnow_market_data, unit) outcome" where
  "market_enqueue e s =
     (case tryGetNextToWriteTo (md_events s) of
        Some place \<Rightarrow> on_part (\<lambda>q. s\<lparr>md_events := q\<rparr>) (updateWriteIndex (lq_write_slot place e (md_events s)))
      | None \<Rightarrow> Ok (s\<lparr>md_control := (md_control s)\<lparr>nc_overflow := True\<rparr>\<rparr>) ())"

definition ctp_level :: "f64 \<Rightarrow> int \<Rightarrow> depth_level" where
  "ctp_level p n =
     (if n > 0 \<and> ctp_price p \<noteq> Price_INVALID then \<lparr>dl_price = ctp_price p, dl_qty = of_int n\<rparr> else depth_level_init)"

definition open_interest_limit :: f64 where
  "open_interest_limit = round64 (10 ^ 100)"

definition depth_update :: "simnow_config \<Rightarrow> ctp_depth \<Rightarrow> performance_trace \<Rightarrow> market_update" where
  "depth_update c p trace =
     market_update_init\<lparr>mu_type := DEPTH_SNAPSHOT, mu_ticker_id := sc_ticker_id c, mu_trace := trace,
       mu_depth :=
         \<lparr>ds_last_price = ctp_price (cd_last_price p),
          ds_bids = map2 ctp_level (cd_bid_prices p) (cd_bid_volumes p),
          ds_asks = map2 ctp_level (cd_ask_prices p) (cd_ask_volumes p),
          ds_volume = (if cd_volume p \<ge> 0 then of_int (cd_volume p) else Qty_INVALID),
          ds_open_interest = (if isfinite (cd_open_interest p) \<and> 0 \<le> cd_open_interest p \<and>
                                 cd_open_interest p < open_interest_limit
                              then cd_open_interest p else NaN),
          ds_upper_limit_price = ctp_price (cd_upper_limit p),
          ds_lower_limit_price = ctp_price (cd_lower_limit p)\<rparr>\<rparr>"

definition quote_valid :: "depth_snapshot \<Rightarrow> bool" where
  "quote_valid d \<longleftrightarrow>
     (let bid = dl_price (hd (ds_bids d)); ask = dl_price (hd (ds_asks d))
      in bid \<noteq> Price_INVALID \<and> ask \<noteq> Price_INVALID \<and> sint bid < sint ask)"

definition market_depth :: "ctp_depth \<Rightarrow> performance_trace \<Rightarrow> simnow_market_data \<Rightarrow> (simnow_market_data, unit) outcome" where
  "market_depth p trace s =
     (if sc_instrument (md_config s) \<noteq> cd_instrument p then Ok s ()
      else
        let day = cd_trading_day p; s = s\<lparr>md_control := (md_control s)\<lparr>nc_market_day := day\<rparr>\<rparr>
        in if nc_trading_day (md_control s) \<noteq> [] \<and> day \<noteq> [] \<and> nc_trading_day (md_control s) \<noteq> day
           then Throw s (Runtime_error ''Trading day changed; restart from an empty account'')
           else
             let u = depth_update (md_config s) p trace
             in then_do (on_part (\<lambda>m. s\<lparr>md_market := m\<rparr>) (publishMarketUpdate u (md_market s))) (\<lambda>s _.
                Ok (s\<lparr>md_control := (md_control s)\<lparr>nc_quote_valid := quote_valid (mu_depth u)\<rparr>\<rparr>) ()))"

definition marketRequest :: "ctp_kind \<Rightarrow> simnow_market_data \<Rightarrow> (simnow_market_data, unit) outcome" where
  "marketRequest kind s =
     int32 (md_next_id s + 1) (\<lambda>n.
       let s = s\<lparr>md_next_id := n, md_login_request := (if kind = MarketLogin then n else md_login_request s)\<rparr>
       in then_do (on_part (\<lambda>t. s\<lparr>md_transport := t\<rparr>) (transport_call (Call_request kind n) (md_transport s))) (\<lambda>s rc.
          if rc \<noteq> 0 then Throw s (Runtime_error ''CTP startup request not submitted'') else Ok s ()))"

definition marketEvent :: "ctp_event \<Rightarrow> simnow_market_data \<Rightarrow> (simnow_market_data, unit) outcome" where
  "marketEvent e s =
     (if ev_kind e = Disconnected
      then Throw (s\<lparr>md_control := (md_control s)\<lparr>nc_disconnected := True\<rparr>\<rparr>)
             (Runtime_error ''CTP disconnected; execution status may be unknown'')
      else if nc_fatal (md_control s) \<or> nc_stopping (md_control s) then Ok s ()
      else if ev_kind e = Depth then
        (case ev_payload e of P_depth p \<Rightarrow> market_depth p (ev_trace e) s | _ \<Rightarrow> Ok s ())
      else if ev_error e \<noteq> 0 then Throw s (Runtime_error (''CTP response error code='' @ show_int (ev_error e)))
      else if ev_kind e = MarketConnected then
        if md_connected s then Throw s (Runtime_error ''CTP reconnection is unsupported'')
        else marketRequest MarketLogin (s\<lparr>md_connected := True\<rparr>)
      else if ev_kind e = MarketLogin then
        if md_login_request s = 0 \<or> \<not> ev_last e \<or>
           (ev_request_id e \<noteq> 0 \<and> ev_request_id e \<noteq> md_login_request s)
        then Ok s ()
        else marketRequest Subscription (s\<lparr>md_login_request := 0\<rparr>)
      else if ev_kind e = Subscription
      then Ok (s\<lparr>md_control := (md_control s)\<lparr>nc_subscribed := ev_last e\<rparr>\<rparr>) ()
      else Ok s ())"

definition catch_market :: "(simnow_market_data, unit) outcome \<Rightarrow> (simnow_market_data, unit) outcome" where
  "catch_market m =
     (case m of Throw s e \<Rightarrow> Ok (s\<lparr>md_control := signalFailure (what e) (md_control s)\<rparr>) () | _ \<Rightarrow> m)"

text \<open>The stamp of an event that carries a trace.\<close>

definition market_stamp :: "ctp_event \<Rightarrow> simnow_market_data \<Rightarrow> simnow_market_data \<times> ctp_event" where
  "market_stamp e s =
     (let tr = ev_trace e
      in if pt_source_id tr \<noteq> 0
         then (s\<lparr>md_ticks := md_ticks s + 1\<rparr>, e\<lparr>ev_trace := tr\<lparr>pt_t := (pt_t tr)(1 := md_clock s (md_ticks s))\<rparr>\<rparr>)
         else (s, e))"

primrec market_batch :: "nat \<Rightarrow> simnow_market_data \<Rightarrow> (simnow_market_data, unit) outcome" where
  "market_batch 0 s = Ok s ()"
| "market_batch (Suc n) s =
     (if nc_stopping (md_control s) \<or> nc_fatal (md_control s) then Ok s ()
      else
        case lq_peek (md_events s) of
          None \<Rightarrow> Ok s ()
        | Some pending \<Rightarrow>
            let (s, observed) = market_stamp pending s
            in then_do (catch_market (marketEvent observed s)) (\<lambda>s _.
               then_do (on_part (\<lambda>q. s\<lparr>md_events := q\<rparr>) (updateReadIndex (md_events s))) (\<lambda>s _.
               market_batch n s)))"

definition pollMarket :: "simnow_market_data \<Rightarrow> (simnow_market_data, unit) outcome" where
  "pollMarket s = catch_market (market_batch 256 s)"

section \<open>What a depth event publishes\<close>

definition md_published :: "simnow_market_data \<Rightarrow> market_update list" where
  "md_published s = (case mc_updates (md_market s) of None \<Rightarrow> [] | Some q \<Rightarrow> lq_content q)"

lemma ctp_level_cases:
  "ctp_level p n = depth_level_init \<and> (n \<le> 0 \<or> ctp_price p = Price_INVALID) \<or>
   ctp_level p n = \<lparr>dl_price = ctp_price p, dl_qty = of_int n\<rparr> \<and> 0 < n \<and> ctp_price p \<noteq> Price_INVALID"
  by (auto simp: ctp_level_def)

lemma ctp_level_marked: "dl_price (ctp_level p n) = Price_INVALID \<longleftrightarrow> ctp_level p n = depth_level_init"
  by (auto simp: ctp_level_def depth_level_init_def)

text \<open>The five levels of each side, as the vendor fills its struct.\<close>

definition five_levels :: "ctp_depth \<Rightarrow> bool" where
  "five_levels p \<longleftrightarrow> length (cd_bid_prices p) = 5 \<and> length (cd_bid_volumes p) = 5 \<and>
     length (cd_ask_prices p) = 5 \<and> length (cd_ask_volumes p) = 5"

lemma depth_update_wf: "five_levels p \<Longrightarrow> depth_wf (mu_depth (depth_update c p trace))"
  by (simp add: depth_wf_def depth_update_def DEPTH_SNAPSHOT_LEVELS_def five_levels_def)

lemma publish_depth_ok:
  assumes "mc_updates m = Some q" "lq_inv q" "lq_num_elements q < lq_capacity q"
  shows "\<exists>m' u'. publishMarketUpdate u m = Ok m' () \<and> mu_depth u' = mu_depth u \<and> mu_ticker_id u' = mu_ticker_id u \<and>
    mu_type u' = mu_type u \<and> (case mc_updates m' of None \<Rightarrow> False | Some q' \<Rightarrow> lq_inv q' \<and> lq_content q' = lq_content q @ [u'])"
proof -
  have "\<not> lq_isFull q" using assms(3) by (simp add: lq_isFull_def)
  then have t: "tryGetNextToWriteTo q = Some (lq_next_write q)" by (simp add: tryGetNextToWriteTo_def)
  let ?tr = "mu_trace u"
  let ?u = "if pt_source_id ?tr \<noteq> 0
    then u\<lparr>mu_trace := ?tr\<lparr>pt_t := (pt_t ?tr)(2 := mc_clock m (mc_ticks m))\<rparr>\<rparr> else u"
  obtain q' where q': "lq_enqueue ?u q = Ok q' ()" "lq_inv q'" "lq_content q' = lq_content q @ [?u]"
    using lq_enqueue_ok[OF assms(2,3)] by blast
  then have "updateWriteIndex (lq_write_slot (lq_next_write q) ?u q) = Ok q' ()" by (simp add: lq_enqueue_def t)
  then show ?thesis
    using q' assms(1)
    by (intro exI[of _ "(if pt_source_id ?tr \<noteq> 0 then m\<lparr>mc_ticks := mc_ticks m + 1\<rparr> else m)
          \<lparr>mc_updates := Some q', mc_local_receive := mc_local_receive m + 1\<rparr>"] exI[of _ ?u])
      (auto simp: publishMarketUpdate_def t Let_def)
qed

definition same_day :: "ctp_depth \<Rightarrow> simnow_market_data \<Rightarrow> bool" where
  "same_day p s \<longleftrightarrow> nc_trading_day (md_control s) = [] \<or> cd_trading_day p = [] \<or>
     nc_trading_day (md_control s) = cd_trading_day p"

lemma quote_valid_first:
  assumes "five_levels p"
  shows "quote_valid (mu_depth (depth_update c p trace)) \<longleftrightarrow>
    0 < cd_bid_volumes p ! 0 \<and> 0 < cd_ask_volumes p ! 0 \<and>
    ctp_price (cd_bid_prices p ! 0) \<noteq> Price_INVALID \<and> ctp_price (cd_ask_prices p ! 0) \<noteq> Price_INVALID \<and>
    sint (ctp_price (cd_bid_prices p ! 0)) < sint (ctp_price (cd_ask_prices p ! 0))"
proof -
  have h: "hd (map2 ctp_level ps ns) = ctp_level (ps ! 0) (ns ! 0)" if "length ps = 5" "length ns = 5" for ps ns
    using that by (cases ps; cases ns) simp_all
  have "hd (ds_bids (mu_depth (depth_update c p trace))) = ctp_level (cd_bid_prices p ! 0) (cd_bid_volumes p ! 0)"
    "hd (ds_asks (mu_depth (depth_update c p trace))) = ctp_level (cd_ask_prices p ! 0) (cd_ask_volumes p ! 0)"
    using assms by (simp_all add: depth_update_def five_levels_def h)
  then show ?thesis by (auto simp: quote_valid_def Let_def ctp_level_def depth_level_init_def)
qed

text \<open>A depth event of the configured contract, on the trading day of the login, publishes exactly one
  update, with five levels a side: level by level the converted price and volume, or the invalid marker
  when the volume is not positive or the price cannot be converted. The quote counts as valid exactly
  when both best levels are and the bid is below the ask. An event of another day publishes nothing.\<close>

theorem depth_event_published:
  assumes "five_levels p" "sc_instrument (md_config s) = cd_instrument p"
    and "mc_updates (md_market s) = Some q" "lq_inv q" "lq_num_elements q < lq_capacity q"
  shows "(same_day p s \<longrightarrow> (\<exists>s' u. market_depth p trace s = Ok s' () \<and>
      md_published s' = md_published s @ [u] \<and> mu_type u = DEPTH_SNAPSHOT \<and>
      mu_ticker_id u = sc_ticker_id (md_config s) \<and> depth_wf (mu_depth u) \<and>
      (\<forall>i<5. ds_bids (mu_depth u) ! i = ctp_level (cd_bid_prices p ! i) (cd_bid_volumes p ! i) \<and>
             ds_asks (mu_depth u) ! i = ctp_level (cd_ask_prices p ! i) (cd_ask_volumes p ! i)) \<and>
      (nc_quote_valid (md_control s') \<longleftrightarrow>
         0 < cd_bid_volumes p ! 0 \<and> 0 < cd_ask_volumes p ! 0 \<and>
         ctp_price (cd_bid_prices p ! 0) \<noteq> Price_INVALID \<and> ctp_price (cd_ask_prices p ! 0) \<noteq> Price_INVALID \<and>
         sint (ctp_price (cd_bid_prices p ! 0)) < sint (ctp_price (cd_ask_prices p ! 0))))) \<and>
    (\<not> same_day p s \<longrightarrow> (\<exists>s' e. market_depth p trace s = Throw s' e \<and> md_published s' = md_published s))"
proof (intro conjI impI)
  let ?s = "s\<lparr>md_control := (md_control s)\<lparr>nc_market_day := cd_trading_day p\<rparr>\<rparr>"
  let ?u = "depth_update (md_config s) p trace"
  assume day: "same_day p s"
  have "mc_updates (md_market ?s) = Some q" using assms(3) by simp
  then obtain m' u' where m: "publishMarketUpdate ?u (md_market ?s) = Ok m' ()" "mu_depth u' = mu_depth ?u"
      "mu_ticker_id u' = mu_ticker_id ?u" "mu_type u' = mu_type ?u"
      "case mc_updates m' of None \<Rightarrow> False | Some q' \<Rightarrow> lq_inv q' \<and> lq_content q' = lq_content q @ [u']"
    using publish_depth_ok[OF _ assms(4,5), of _ ?u] by blast
  let ?s' = "?s\<lparr>md_market := m', md_control := (md_control ?s)\<lparr>nc_quote_valid := quote_valid (mu_depth ?u)\<rparr>\<rparr>"
  have "market_depth p trace s = Ok ?s' ()"
    using m(1) day assms(2) by (auto simp: market_depth_def Let_def same_day_def)
  moreover have "md_published ?s' = md_published s @ [u']"
    using m(5) assms(3) by (auto simp: md_published_def split: option.splits)
  moreover have "nc_quote_valid (md_control ?s') = quote_valid (mu_depth ?u)" by simp
  moreover have "\<forall>i<5. ds_bids (mu_depth ?u) ! i = ctp_level (cd_bid_prices p ! i) (cd_bid_volumes p ! i) \<and>
      ds_asks (mu_depth ?u) ! i = ctp_level (cd_ask_prices p ! i) (cd_ask_volumes p ! i)"
    using assms(1) by (simp add: depth_update_def five_levels_def)
  moreover have "mu_type ?u = DEPTH_SNAPSHOT" "mu_ticker_id ?u = sc_ticker_id (md_config s)"
    by (simp_all add: depth_update_def)
  ultimately show "\<exists>s' u. market_depth p trace s = Ok s' () \<and>
      md_published s' = md_published s @ [u] \<and> mu_type u = DEPTH_SNAPSHOT \<and>
      mu_ticker_id u = sc_ticker_id (md_config s) \<and> depth_wf (mu_depth u) \<and>
      (\<forall>i<5. ds_bids (mu_depth u) ! i = ctp_level (cd_bid_prices p ! i) (cd_bid_volumes p ! i) \<and>
             ds_asks (mu_depth u) ! i = ctp_level (cd_ask_prices p ! i) (cd_ask_volumes p ! i)) \<and>
      (nc_quote_valid (md_control s') \<longleftrightarrow>
         0 < cd_bid_volumes p ! 0 \<and> 0 < cd_ask_volumes p ! 0 \<and>
         ctp_price (cd_bid_prices p ! 0) \<noteq> Price_INVALID \<and> ctp_price (cd_ask_prices p ! 0) \<noteq> Price_INVALID \<and>
         sint (ctp_price (cd_bid_prices p ! 0)) < sint (ctp_price (cd_ask_prices p ! 0)))"
    using m(2-4) quote_valid_first[OF assms(1)] depth_update_wf[OF assms(1)] by metis
next
  assume "\<not> same_day p s"
  then show "\<exists>s' e. market_depth p trace s = Throw s' e \<and> md_published s' = md_published s"
    using assms(2) by (simp add: market_depth_def Let_def same_day_def md_published_def)
qed

definition demo_depth :: ctp_depth where
  "demo_depth = \<lparr>cd_instrument = ''cu2612'', cd_trading_day = ''20260105'', cd_last_price = NaN,
     cd_upper_limit = NaN, cd_lower_limit = NaN, cd_volume = 10, cd_open_interest = NaN,
     cd_bid_prices = replicate 5 NaN, cd_bid_volumes = replicate 5 1,
     cd_ask_prices = replicate 5 NaN, cd_ask_volumes = replicate 5 0\<rparr>"

definition demo_market :: simnow_market_data where
  "demo_market =
     \<lparr>md_market = market_data_consumer_new 1 (Some \<lparr>lq_store = (\<lambda>_. market_update_init), lq_capacity = 2,
        lq_next_write = 0, lq_next_read = 0, lq_num_elements = 0\<rparr>) (\<lambda>_. 0),
      md_config = simnow_config_init\<lparr>sc_instrument := ''cu2612''\<rparr>,
      md_transport = \<lparr>tp_result = (\<lambda>_. Inr 0), tp_log = [], tp_clock = (\<lambda>_. 0), tp_ticks = 0\<rparr>,
      md_control = simnow_control_init,
      md_events = \<lparr>lq_store = (\<lambda>_. ctp_emit Kind_Error None 0 True 0), lq_capacity = 2, lq_next_write = 0,
        lq_next_read = 0, lq_num_elements = 0\<rparr>,
      md_connected = True, md_next_id = 2, md_login_request = 0, md_clock = (\<lambda>_. 0), md_ticks = 0\<rparr>"

lemma depth_event_published_witness:
  "\<exists>s' u. market_depth demo_depth trace_init demo_market = Ok s' () \<and> md_published s' = [u] \<and>
     mu_type u = DEPTH_SNAPSHOT \<and> depth_wf (mu_depth u)"
proof -
  obtain q where q: "mc_updates (md_market demo_market) = Some q" "lq_inv q" "lq_num_elements q < lq_capacity q"
    by (simp add: demo_market_def market_data_consumer_new_def lq_inv_def)
  have "five_levels demo_depth" "sc_instrument (md_config demo_market) = cd_instrument demo_depth"
      "same_day demo_depth demo_market" "md_published demo_market = []"
    by (simp_all add: five_levels_def demo_depth_def demo_market_def same_day_def simnow_control_init_def md_published_def
        market_data_consumer_new_def lq_content_def)
  with depth_event_published[OF _ _ q, of demo_depth trace_init] show ?thesis by auto
qed

end
