(* ===== verification/SimNowSafety.thy ===== *)
theory SimNowSafety
  imports SimNowLedger
begin

text \<open>
  The invariant of the SimNow execution over any run of requests, events and polls, with the other
  threads acting in between, and what follows from it: one open order at most, a position that is the
  sum of the fills, one final response per order, no order before a checked start-up and none after
  a failure.
\<close>

section \<open>Every operation keeps the ledger\<close>

lemma ledger_assign_order:
  "sx_ledger s \<Longrightarrow> order_at ref s = Some o' \<Longrightarrow> same_entry o' o'' \<Longrightarrow> sx_ledger (order_assign ref o'' s)"
  using ledger_assign[of "sx_orders s" "sx_published s" "sx_net_position s" ref o' o'']
  by (simp add: sx_ledger_def order_at_def order_assign_def)

lemma order_at_assign [simp]:
  "order_at k (order_assign ref o' s) = (if k = ref \<and> order_at ref s \<noteq> None then Some o' else order_at k s)"
  by (simp add: order_at_def order_assign_def map_of_assign)

lemma order_at_update [simp]:
  "order_at k (s\<lparr>sx_gateway := g\<rparr>) = order_at k s"
  "order_at k (s\<lparr>sx_published := pub\<rparr>) = order_at k s"
  "order_at k (s\<lparr>sx_net_position := w\<rparr>) = order_at k s"
  "order_at k (s\<lparr>sx_transport := t\<rparr>) = order_at k s"
  "order_at k (s\<lparr>sx_next_id := n\<rparr>) = order_at k s"
  "order_at k (s\<lparr>sx_measurement := me\<rparr>) = order_at k s"
  by (simp_all add: order_at_def)

lemma order_assign_simps [simp]:
  "sx_gateway (order_assign k o' s) = sx_gateway s"
  "sx_config (order_assign k o' s) = sx_config s"
  "sx_transport (order_assign k o' s) = sx_transport s"
  "sx_control (order_assign k o' s) = sx_control s"
  "sx_published (order_assign k o' s) = sx_published s"
  "sx_net_position (order_assign k o' s) = sx_net_position s"
  "sx_next_ref (order_assign k o' s) = sx_next_ref s"
  "sx_next_id (order_assign k o' s) = sx_next_id s"
  "sx_events (order_assign k o' s) = sx_events s"
  "sx_orders (order_assign k o' s) = table_assign k o' (sx_orders s)"
  by (simp_all add: order_assign_def)

lemma sx_ledger_update [simp]:
  "sx_ledger (s\<lparr>sx_transport := t\<rparr>) = sx_ledger s"
  "sx_ledger (s\<lparr>sx_next_id := n\<rparr>) = sx_ledger s"
  "sx_ledger (s\<lparr>sx_measurement := me\<rparr>) = sx_ledger s"
  "sx_ledger (s\<lparr>sx_control := c\<rparr>) = sx_ledger s"
  "sx_ledger (s\<lparr>sx_events := q\<rparr>) = sx_ledger s"
  "sx_ledger (s\<lparr>sx_next_ref := r\<rparr>) = sx_ledger s"
  "sx_ledger (execution_state b s) = sx_ledger s"
  "sx_ledger (execution_fail m s) = sx_ledger s"
  by (simp_all add: sx_ledger_def)

lemma sx_ledger_responses: "sx_ledger s \<Longrightarrow> og_responses (sx_gateway s) \<noteq> None"
  by (simp add: sx_ledger_def)

lemma same_entry_simps [simp]:
  "same_entry o' (o'\<lparr>eo_sys := x1\<rparr>)" "same_entry o' (o'\<lparr>eo_reported_fills := x2\<rparr>)"
  "same_entry o' (o'\<lparr>eo_accepted := x3\<rparr>)" "same_entry o' (o'\<lparr>eo_cancel_rejected := x4\<rparr>)"
  "same_entry o' (o'\<lparr>eo_has_terminal := x5, eo_rejected := x6\<rparr>)"
  "same_entry o' (o'\<lparr>eo_rejected := x6, eo_has_terminal := x5\<rparr>)"
  "same_entry o' (o'\<lparr>eo_cancel_id := x7, eo_cancel_sent := x8\<rparr>)"
  "same_entry o' o'"
  by (simp_all add: same_entry_def)

text \<open>A response that is not final, or that answers a request that was never an order.\<close>

lemma sx_ledger_publish:
  assumes "sx_ledger s" "og_responses g \<noteq> None" "eo_ref o' = [] \<or> \<not> final_type type"
  shows "sx_ledger (s\<lparr>sx_gateway := g, sx_published := sx_published s @ [(eo_ref o', response_of o' type n p s)]\<rparr>)"
  using assms ledger_publish[of "sx_orders s" "sx_published s" "sx_net_position s" "eo_ref o'"]
  by (simp add: sx_ledger_def)

lemma ledger_entry: "sx_ledger s \<Longrightarrow> order_at ref s = Some o' \<Longrightarrow> entry_ok (sx_published s) (sx_net_position s) ref o'"
  by (simp add: sx_ledger_def ledger_def order_at_def)

lemma finish_ledger:
  assumes l: "sx_ledger s"
  shows "keeps sx_ledger (finish ref s)"
  unfolding finish_def
proof (intro keeps_deref keeps_if, goal_cases)
  case (3 o')
  have e: "entry_ok (sx_published s) (sx_net_position s) ref o'" using ledger_entry[OF l 3(1)] .
  with 3 have "eo_fills o' < qty_int32 (rq_qty (eo_request o'))" "eo_ref o' = ref" "eo_fills o' = 0"
    by (auto simp: entry_ok_def admissible_def)
  then show ?case
  proof (simp only: if_True, intro keeps_publish_then, goal_cases)
    case (2 g)
    let ?r = "response_of o' (if eo_rejected o' then REJECTED else CANCELED) 0 Price_INVALID s"
    have "ledger (table_assign ref (o'\<lparr>eo_done := True\<rparr>) (sx_orders s)) (sx_published s @ [(ref, ?r)]) (sx_net_position s)"
      using l 3 2 by (intro ledger_final[where o' = o']) (simp_all add: sx_ledger_def order_at_def)
    then show ?case using 2 by (simp add: sx_ledger_def order_assign_def)
  qed (use l in \<open>simp add: sx_ledger_def\<close>)
qed (use l in simp_all)

lemma cancel_refused_ledger:
  assumes l: "sx_ledger s"
  shows "keeps sx_ledger (cancel_refused ref s)"
  unfolding cancel_refused_def
proof (intro keeps_deref keeps_if keeps_publish_then, goal_cases)
  case (3 o' g)
  then show ?case
    using ledger_assign_order[OF sx_ledger_publish[OF l 3(3), of o' CANCEL_REJECTED 0 Price_INVALID]]
    by (simp add: final_type_def)
qed (use l in \<open>simp_all add: sx_ledger_responses\<close>)

lemma order_progress_ledger:
  assumes l: "sx_ledger s"
  shows "keeps sx_ledger (order_progress p ref s)"
  unfolding order_progress_def
proof (intro keeps_deref keeps_if keeps_publish_then, goal_cases)
  case (1 o')
  show ?case using ledger_assign_order[OF l 1(1)] by (intro finish_ledger) simp
next
  case (3 o' g)
  then show ?case
    using ledger_assign_order[OF sx_ledger_publish[OF l 3(4), of o' ACCEPTED 0 Price_INVALID]]
    by (simp add: final_type_def)
qed (use l in \<open>simp_all add: sx_ledger_responses\<close>)

lemma orderEvent_ledger:
  assumes l: "sx_ledger s"
  shows "keeps sx_ledger (orderEvent p s)"
proof (cases "order_at (co_ref p) s")
  case (Some o')
  let ?o1 = "if co_sys p \<noteq> [] then o'\<lparr>eo_sys := co_sys p\<rparr> else o'"
  let ?s1 = "order_assign (co_ref p) ?o1 s"
  let ?o2 = "?o1\<lparr>eo_reported_fills := max (eo_reported_fills ?o1) (co_volume_traded p)\<rparr>"
  let ?s2 = "order_assign (co_ref p) ?o2 ?s1"
  have 1: "sx_ledger ?s1" by (rule ledger_assign_order[OF l Some]) simp
  have 2: "sx_ledger ?s2" using Some by (intro ledger_assign_order[OF 1, of _ ?o1]) simp_all
  show ?thesis
    using Some l 1 2 cancel_refused_ledger[OF 2] order_progress_ledger
    by (simp add: orderEvent_def Let_def keeps_then_do del: order_at_assign)
qed (use l in \<open>simp add: orderEvent_def\<close>)

lemma tradeEvent_ledger:
  assumes l: "sx_ledger s"
  shows "keeps sx_ledger (tradeEvent p s)"
proof (cases "order_at (ct_ref p) s")
  case (Some o')
  let ?ref = "ct_ref p"
  let ?o1 = "o'\<lparr>eo_trades := trade_key p # eo_trades o', eo_fills := eo_fills o' + ct_volume p\<rparr>"
  let ?w = "sx_net_position s + of_int (sideToValue (rq_side (eo_request o')) * ct_volume p)"
  let ?s1 = "order_assign ?ref ?o1 s\<lparr>sx_net_position := ?w\<rparr>"
  have e: "eo_ref o' = ?ref" using ledger_entry[OF l Some] by (simp add: entry_ok_def)
  have "keeps sx_ledger (then_do (execution_publish ?o1 FILLED (ct_volume p) (ctp_price (ct_price p)) ?s1)
      (\<lambda>s _. Ok (order_assign ?ref (?o1\<lparr>eo_done := True\<rparr>) s) ()))" if v: "\<not> invalid_trade p o'"
  proof (intro keeps_publish_then, goal_cases)
    case (2 g)
    let ?r = "response_of ?o1 FILLED (ct_volume p) (ctp_price (ct_price p)) ?s1"
    have twice: "table_assign ?ref x (table_assign ?ref y m) = table_assign ?ref x m" for x y :: exec_order and m
      by (simp add: table_assign_def case_prod_unfold)
    have "ledger (table_assign ?ref (?o1\<lparr>eo_done := True\<rparr>) (sx_orders s)) (sx_published s @ [(?ref, ?r)]) ?w"
      using l v Some by (intro ledger_final[where o' = o' and net = "sx_net_position s"])
        (auto simp: sx_ledger_def order_at_def invalid_trade_def)
    then show ?case using 2 e by (simp add: sx_ledger_def order_assign_def twice)
  qed (use l in \<open>simp add: sx_ledger_def\<close>)
  then show ?thesis using Some l by (simp add: tradeEvent_def Let_def)
qed (use l in \<open>simp add: tradeEvent_def\<close>)

lemma error_event_ledger:
  assumes l: "sx_ledger s"
  shows "keeps sx_ledger (error_event e s)"
proof (cases "error_order e s")
  case (Some ref)
  have "keeps sx_ledger (finish ref (order_assign ref (o'\<lparr>eo_rejected := True, eo_has_terminal := True\<rparr>) s))"
    if "order_at ref s = Some o'" for o'
    using ledger_assign_order[OF l that] by (intro finish_ledger) simp
  then show ?thesis
    using l Some cancel_refused_ledger[OF l] by (auto simp: error_event_def intro!: keeps_deref)
qed (use l in \<open>simp add: error_event_def\<close>)

lemma execution_cancel_ledger:
  assumes l: "sx_ledger s"
  shows "keeps sx_ledger (execution_cancel ref observed s)"
  unfolding execution_cancel_def Let_def case_prod_unfold
proof (intro keeps_deref keeps_if keeps_try_with keeps_fresh_id_then keeps_on_transport_then keeps_publish_then, goal_cases)
  case (3 o' p t)
  then show ?case using ledger_assign_order[of "s\<lparr>sx_next_id := sx_next_id s + 1\<rparr>"] l by simp
next
  case (4 o' p t a)
  then show ?case using ledger_assign_order[of "s\<lparr>sx_next_id := sx_next_id s + 1\<rparr>"] l
    by (auto simp: measure_def sx_ledger_def)
next
  case (5 o' p t a g)
  have 1: "sx_ledger (order_assign ref (o'\<lparr>eo_cancel_id := sx_next_id s + 1, eo_cancel_sent := True\<rparr>) s)"
    by (rule ledger_assign_order[OF l 5(1)]) simp
  then show ?case
    using 5 ledger_publish[of _ "sx_published s"] by (simp add: sx_ledger_def measure_def final_type_def)
next
  case (6 o' p t a)
  then show ?case using ledger_assign_order[of "s\<lparr>sx_next_id := sx_next_id s + 1\<rparr>"] l
    by (auto simp: measure_def)
qed (use l in simp_all)

section \<open>The start-up and the references\<close>

text \<open>
  The start-up is a chain of one request at a time; the instrument is the first query, and nothing
  later is sent before it has been checked.
\<close>

definition startup_chain :: "simnow_execution \<Rightarrow> bool" where
  "startup_chain s \<longleftrightarrow>
     0 \<le> sx_next_id s \<and> length (sx_requests s) \<le> 1 \<and>
     (sx_requests s \<noteq> [] \<or> \<not> sx_trader_connected s \<longrightarrow> sx_queries s = [] \<and> sx_query_id s = 0 \<and> \<not> sx_startup_done s) \<and>
     (\<not> sx_trader_connected s \<longrightarrow> sx_requests s = []) \<and>
     (sx_startup_done s \<longrightarrow> sx_instrument_seen s) \<and>
     (sx_query_id s \<noteq> 0 \<and> sx_query_kind s \<noteq> Instrument \<longrightarrow> sx_instrument_seen s) \<and>
     (sx_queries s \<noteq> [] \<longrightarrow> sx_instrument_seen s \<or> hd (sx_queries s) = Instrument \<or>
        sx_query_id s \<noteq> 0 \<and> sx_query_kind s = Instrument) \<and>
     (sx_instrument_seen s \<longrightarrow> \<not> ineligible (sx_instrument s)) \<and>
     (sx_ready s \<longrightarrow> sx_startup_done s) \<and> (sx_orders s \<noteq> [] \<longrightarrow> sx_startup_done s)"

lemma len64_less: "x < 2 ^ 64 \<Longrightarrow> unat (of_nat x :: 64 word) = x"
  by (simp add: unat_of_nat take_bit_eq_mod)

text \<open>The references in use are among the last \<open>k\<close> that were counted up.\<close>

definition counted_refs :: "nat \<Rightarrow> 64 word \<Rightarrow> string set \<Rightarrow> bool" where
  "counted_refs k number keys \<longleftrightarrow>
     (\<exists>base i. i \<le> k \<and> number = base + of_nat i \<and> keys \<subseteq> (\<lambda>j. show_u (base + of_nat j)) ` {1..i})"

definition in_order :: "nat \<Rightarrow> simnow_execution \<Rightarrow> bool" where
  "in_order k s \<longleftrightarrow> startup_chain s \<and> counted_refs k (sx_next_ref s) (set (map fst (sx_orders s)))"

lemma counted_refs_next:
  assumes "counted_refs k number keys" "Suc k < 2 ^ 64"
  shows "counted_refs (Suc k) (number + 1) (insert (show_u (number + 1)) keys) \<and>
    counted_refs (Suc k) (number + 1) keys \<and> show_u (number + 1) \<notin> keys"
proof -
  obtain base i where b: "i \<le> k" "number = base + of_nat i" "keys \<subseteq> (\<lambda>j. show_u (base + of_nat j)) ` {1..i}"
    using assms(1) by (auto simp: counted_refs_def)
  have n: "number + 1 = base + of_nat (Suc i)" using b(2) by (simp add: algebra_simps)
  have "show_u (number + 1) \<notin> keys"
  proof
    assume "show_u (number + 1) \<in> keys"
    then obtain j where j: "j \<in> {1..i}" "show_u (number + 1) = show_u (base + of_nat j)" using b(3) by blast
    then have "(of_nat (Suc i) :: 64 word) = of_nat j" using n by simp
    moreover have "unat (of_nat (Suc i) :: 64 word) = Suc i" "unat (of_nat j :: 64 word) = j"
      using j(1) b(1) assms(2) by (intro len64_less; simp)+
    ultimately have "Suc i = j" by metis
    then show False using j(1) by simp
  qed
  moreover have "keys \<subseteq> (\<lambda>j. show_u (base + of_nat j)) ` {1..Suc i}" using b(3) by fastforce
  moreover have "insert (show_u (number + 1)) keys \<subseteq> (\<lambda>j. show_u (base + of_nat j)) ` {1..Suc i}"
    using b(3) unfolding n by fastforce
  ultimately show ?thesis using b(1) n unfolding counted_refs_def by blast
qed

lemma counted_refs_mono: "counted_refs k number keys \<Longrightarrow> counted_refs (Suc k) number keys"
  by (auto simp: counted_refs_def intro: le_SucI)

lemma in_order_update [simp]:
  "in_order k (s\<lparr>sx_gateway := g\<rparr>) = in_order k s"
  "in_order k (s\<lparr>sx_published := pub\<rparr>) = in_order k s"
  "in_order k (s\<lparr>sx_net_position := w\<rparr>) = in_order k s"
  "in_order k (s\<lparr>sx_transport := t\<rparr>) = in_order k s"
  "in_order k (s\<lparr>sx_measurement := me\<rparr>) = in_order k s"
  "in_order k (s\<lparr>sx_control := c\<rparr>) = in_order k s"
  "in_order k (s\<lparr>sx_events := q\<rparr>) = in_order k s"
  "in_order k (s\<lparr>sx_account := a\<rparr>) = in_order k s"
  "in_order k (s\<lparr>sx_account_seen := b\<rparr>) = in_order k s"
  "in_order k (s\<lparr>sx_next_query := i1\<rparr>) = in_order k s"
  "in_order k (s\<lparr>sx_query_deadline := i2\<rparr>) = in_order k s"
  "in_order k (s\<lparr>sx_next_account := i3\<rparr>) = in_order k s"
  "in_order k (order_assign r o' s) = in_order k s"
  by (simp_all add: in_order_def startup_chain_def order_assign_def del: set_map)

lemma in_order_fresh: "in_order k s \<Longrightarrow> in_order k (s\<lparr>sx_next_id := sx_next_id s + 1\<rparr>)"
  by (simp add: in_order_def startup_chain_def)

lemma in_order_state: "in_order k s \<Longrightarrow> (b \<Longrightarrow> sx_startup_done s) \<Longrightarrow> in_order k (execution_state b s)"
  by (auto simp: in_order_def startup_chain_def execution_ready)

lemma in_order_fail: "in_order k s \<Longrightarrow> in_order k (execution_fail m s)"
  by (auto simp: execution_fail_def intro!: in_order_state)

lemma keeps_publish_any:
  "(\<And>g pub. P (s\<lparr>sx_gateway := g, sx_published := pub\<rparr>)) \<Longrightarrow> P s \<Longrightarrow> keeps P (execution_publish o' type n p s)"
proof -
  assume P: "\<And>g pub. P (s\<lparr>sx_gateway := g, sx_published := pub\<rparr>)" "P s"
  have eq: "s\<lparr>sx_gateway := g\<rparr> = s\<lparr>sx_gateway := g, sx_published := sx_published s\<rparr>" for g by simp
  show ?thesis
    unfolding execution_publish_def Let_def
    by (cases "publishClientResponse (og_next_expected (sx_gateway s)) (response_of o' type n p s) (sx_gateway s)")
      (simp_all add: P(1) P(1)[of "sx_published s", folded eq])
qed

lemmas frame_intros = keeps_then_do keeps_deref keeps_try_with keeps_if keeps_int32 keeps_fresh_id
  keeps_on_transport keeps_publish_any

lemma finish_frame: "in_order k s \<Longrightarrow> keeps (in_order k) (finish ref s)"
  unfolding finish_def by (intro frame_intros) simp_all

lemma cancel_refused_frame: "in_order k s \<Longrightarrow> keeps (in_order k) (cancel_refused ref s)"
  unfolding cancel_refused_def by (intro frame_intros) simp_all

lemma order_progress_frame: "in_order k s \<Longrightarrow> keeps (in_order k) (order_progress p ref s)"
  unfolding order_progress_def by (intro frame_intros finish_frame) simp_all

lemma orderEvent_frame: "in_order k s \<Longrightarrow> keeps (in_order k) (orderEvent p s)"
  by (auto simp: orderEvent_def Let_def split: option.split
      intro!: frame_intros cancel_refused_frame order_progress_frame)

lemma tradeEvent_frame: "in_order k s \<Longrightarrow> keeps (in_order k) (tradeEvent p s)"
  by (auto simp: tradeEvent_def Let_def split: option.split intro!: frame_intros)

lemma error_event_frame: "in_order k s \<Longrightarrow> keeps (in_order k) (error_event e s)"
  by (auto simp: error_event_def split: option.split
      intro!: frame_intros cancel_refused_frame finish_frame)

lemma execution_cancel_frame: "in_order k s \<Longrightarrow> keeps (in_order k) (execution_cancel ref observed s)"
  unfolding execution_cancel_def Let_def case_prod_unfold
  by (intro frame_intros) (auto simp: measure_def intro: in_order_fresh in_order_fail)

section \<open>Requests\<close>

definition sx_inv :: "nat \<Rightarrow> simnow_execution \<Rightarrow> bool" where
  "sx_inv k s \<longleftrightarrow> sx_ledger s \<and> in_order k s"

lemma keeps_conj: "keeps P m \<Longrightarrow> keeps Q m \<Longrightarrow> keeps (\<lambda>s. P s \<and> Q s) m"
  by (cases m) simp_all

lemma keeps_inv: "keeps sx_ledger m \<Longrightarrow> keeps (in_order k) m \<Longrightarrow> keeps (sx_inv k) m"
  unfolding sx_inv_def by (rule keeps_conj)

lemma in_order_Suc: "in_order k s \<Longrightarrow> in_order (Suc k) s"
  by (auto simp: in_order_def intro: counted_refs_mono)

lemma submit_admissible:
  assumes "\<not> refused r s" "\<not> position_forbids r s"
  shows "admissible r \<and> sx_net_position s = position_before r \<and> sx_ready s \<and> \<not> outstanding s"
proof -
  have "sx_net_position s = - of_int (sideToValue (rq_side r))"
    if "sint (sx_net_position s) = - sideToValue (rq_side r)"
    using arg_cong[OF that, of "of_int :: int \<Rightarrow> 32 word"] by simp
  with assms show ?thesis
    by (auto simp: refused_def position_forbids_def admissible_def position_before_def)
qed

lemma submit_new_inv:
  assumes inv: "sx_inv k s" and k: "Suc k < 2 ^ 64" and ok: "\<not> refused r s" "\<not> position_forbids r s"
  shows "keeps (sx_inv (Suc k)) (submit_new r s)"
proof -
  let ?n = "sx_next_ref s + 1"
  let ?ref = "show_u ?n"
  let ?o = "(exec_order_new r)\<lparr>eo_ref := ?ref, eo_insert_id := sx_next_id s + 1\<rparr>"
  let ?os = "table_emplace ?ref ?o (sx_orders s)"
  note adm = submit_admissible[OF ok]
  have refs: "counted_refs (Suc k) ?n (insert ?ref (set (map fst (sx_orders s))))"
      "counted_refs (Suc k) ?n (set (map fst (sx_orders s)))" "?ref \<notin> set (map fst (sx_orders s))"
    using counted_refs_next[OF _ k] inv unfolding sx_inv_def in_order_def by blast+
  have none: "map_of (sx_orders s) ?ref = None" using refs(3) by (simp add: map_of_eq_None_iff)
  have l: "ledger (sx_orders s) (sx_published s) (sx_net_position s)" "og_responses (sx_gateway s) \<noteq> None"
    using inv by (simp_all add: sx_inv_def sx_ledger_def)
  have sorted: "sorted_wrt (<) (map fst (sx_orders s))" using l(1) by (simp add: ledger_def)
  note emplaced = emplace_new[OF sorted none, of ?o signed_fill]
  have live: "\<forall>q p. map_of (sx_orders s) q = Some p \<longrightarrow> eo_done p"
    using adm by (auto simp: outstanding_def dest!: map_of_SomeD)
  have "?ref \<noteq> []" by (simp add: show_u_def)
  then have open': "ledger ?os (sx_published s) (sx_net_position s)"
    using adm by (intro ledger_open[OF l(1) none _ live]) (simp_all add: exec_order_new_def)
  have final': "ledger (table_assign ?ref (?o\<lparr>eo_done := True\<rparr>) ?os) (sx_published s @ [(?ref, x)]) (sx_net_position s)"
    if "rs_type x = REJECTED" for x
    using that emplaced by (intro ledger_final[OF open', where o' = ?o]) (simp_all add: exec_order_new_def)
  have chain: "startup_chain s" "sx_startup_done s"
    using inv adm by (auto simp: sx_inv_def in_order_def startup_chain_def)
  have keys: "counted_refs (Suc k) ?n (set (map fst ?os))" using refs(1) emplaced by simp
  have at: "order_at ?ref (s\<lparr>sx_orders := ?os\<rparr>) = Some ?o" using emplaced by (simp add: order_at_def)
  show ?thesis
    unfolding submit_new_def Let_def case_prod_unfold
  proof (intro keeps_try_with keeps_fresh_id_then keeps_on_transport_then keeps_if keeps_deref keeps_publish_then, goal_cases)
    case 1
    then show ?case using inv by (simp add: sx_inv_def in_order_Suc)
  next
    case (2 b)
    then show ?case
      using inv refs(2) by (simp add: sx_inv_def in_order_def startup_chain_def)
  next
    case (3 b p t)
    then show ?case using l open' chain keys
      by (simp add: sx_inv_def sx_ledger_def in_order_def startup_chain_def del: set_map)
  next
    case (4 b p t a o')
    then show ?case using l by (simp add: measure_def)
  next
    case (5 b p t a o' g)
    have "o' = ?o" using 5(4) emplaced by (simp add: order_at_def measure_def)
    then show ?case using 5 l final' chain keys
      by (simp add: sx_inv_def sx_ledger_def in_order_def startup_chain_def measure_def order_assign_def exec_order_new_def
          del: set_map)
  next
    case (6 b p t a)
    then show ?case using l open' chain keys
      by (simp add: sx_inv_def sx_ledger_def in_order_def startup_chain_def measure_def del: set_map)
  qed
qed

lemma submit_inv:
  assumes inv: "sx_inv k s" and k: "Suc k < 2 ^ 64"
  shows "keeps (sx_inv (Suc k)) (submit r s)"
proof -
  have up: "sx_inv (Suc k) s" using inv by (simp add: sx_inv_def in_order_Suc)
  have "keeps (sx_inv (Suc k)) (execution_publish (exec_order_new r) type 0 Price_INVALID s)" for type
  proof (intro keeps_publish, goal_cases)
    case (2 g)
    moreover have "eo_ref (exec_order_new r) = []" by (simp add: exec_order_new_def)
    ultimately show ?case
      using up sx_ledger_publish[of s g "exec_order_new r" type 0 Price_INVALID] unfolding sx_inv_def in_order_update by blast
  qed (use up in \<open>simp add: sx_inv_def sx_ledger_responses\<close>)
  moreover have "keeps (sx_inv (Suc k)) (execution_cancel ref (Some r) s)" for ref
    using up by (intro keeps_inv execution_cancel_ledger execution_cancel_frame) (simp_all add: sx_inv_def)
  ultimately show ?thesis
    using up submit_new_inv[OF inv k, of r] by (auto simp: submit_def Let_def split: option.split bool.split)
qed

lemma sx_inv_fail: "sx_inv k s \<Longrightarrow> sx_inv k (execution_fail m s)"
  by (simp add: sx_inv_def in_order_fail)

lemma handleRequest_inv:
  "sx_inv k s \<Longrightarrow> Suc k < 2 ^ 64 \<Longrightarrow> keeps (sx_inv (Suc k)) (execution_handleRequest r s)"
  unfolding execution_handleRequest_def by (intro keeps_catch_fail submit_inv sx_inv_fail)

section \<open>Events\<close>

lemma sx_ledger_update' [simp]:
  "sx_ledger (s\<lparr>sx_trader_connected := b1\<rparr>) = sx_ledger s"
  "sx_ledger (s\<lparr>sx_requests := rs\<rparr>) = sx_ledger s"
  "sx_ledger (s\<lparr>sx_queries := qs\<rparr>) = sx_ledger s"
  "sx_ledger (s\<lparr>sx_query_id := i1\<rparr>) = sx_ledger s"
  "sx_ledger (s\<lparr>sx_query_kind := kd\<rparr>) = sx_ledger s"
  "sx_ledger (s\<lparr>sx_front := i2\<rparr>) = sx_ledger s"
  "sx_ledger (s\<lparr>sx_session := i3\<rparr>) = sx_ledger s"
  "sx_ledger (s\<lparr>sx_trading_day := d\<rparr>) = sx_ledger s"
  "sx_ledger (s\<lparr>sx_instrument := p\<rparr>) = sx_ledger s"
  "sx_ledger (s\<lparr>sx_instrument_seen := b2\<rparr>) = sx_ledger s"
  "sx_ledger (s\<lparr>sx_account := a\<rparr>) = sx_ledger s"
  "sx_ledger (s\<lparr>sx_account_seen := b3\<rparr>) = sx_ledger s"
  "sx_ledger (s\<lparr>sx_startup_done := b4\<rparr>) = sx_ledger s"
  "sx_ledger (s\<lparr>sx_next_query := i4\<rparr>) = sx_ledger s"
  "sx_ledger (s\<lparr>sx_query_deadline := i5\<rparr>) = sx_ledger s"
  "sx_ledger (s\<lparr>sx_next_account := i6\<rparr>) = sx_ledger s"
  by (simp_all add: sx_ledger_def)

lemma execution_request_ledger: "sx_ledger s \<Longrightarrow> keeps sx_ledger (execution_request kind s)"
  unfolding execution_request_def Let_def by (intro keeps_intros) simp_all

lemma counted_refs_none [simp]: "counted_refs k number {}"
  by (force simp: counted_refs_def intro: exI[of _ number])

lemma before_startup: "in_order k s \<Longrightarrow> \<not> sx_startup_done s \<Longrightarrow> sx_orders s = [] \<and> \<not> sx_ready s"
  by (auto simp: in_order_def startup_chain_def)

lemma execution_request_frame:
  assumes "in_order k s" "sx_requests s = []" "sx_trader_connected s" "sx_queries s = []" "sx_query_id s = 0"
    "\<not> sx_startup_done s"
  shows "keeps (in_order k) (execution_request kind s)"
  unfolding execution_request_def Let_def
  using assms before_startup[OF assms(1)]
  by (intro keeps_fresh_id_then keeps_on_transport_then keeps_if) (simp_all add: in_order_def startup_chain_def)

lemma startup_reply_inv:
  assumes inv: "sx_inv k s"
  shows "keeps (sx_inv k) (startup_reply e s)"
proof -
  let ?s = "s\<lparr>sx_requests := filter (\<lambda>r. fst r \<noteq> ev_request_id e) (sx_requests s)\<rparr>"
  show ?thesis
  proof (cases "map_of (sx_requests s) (ev_request_id e) = Some (ev_kind e) \<and> ev_last e")
    case True
    then obtain r where r: "sx_requests s = [r]" "fst r = ev_request_id e"
      using inv by (cases "sx_requests s"; cases "tl (sx_requests s)")
        (auto simp: sx_inv_def in_order_def startup_chain_def split: if_splits)
    then have now: "sx_trader_connected s" "sx_queries s = []" "sx_query_id s = 0" "\<not> sx_startup_done s"
      using inv by (auto simp: sx_inv_def in_order_def startup_chain_def)
    then have idle: "sx_orders s = []" "\<not> sx_ready s"
      using inv before_startup unfolding sx_inv_def by blast+
    have base: "sx_inv k ?s"
      using inv r idle now by (simp add: sx_inv_def in_order_def startup_chain_def)
    have fresh: "sx_inv k (?s\<lparr>sx_front := f, sx_session := g, sx_trading_day := d, sx_control := c\<rparr>)"
      "sx_inv k (?s\<lparr>sx_front := f, sx_session := g, sx_trading_day := d, sx_control := c, sx_next_ref := n\<rparr>)"
      for f g d c n
      using base idle by (simp_all add: sx_inv_def in_order_def startup_chain_def)
    have req: "keeps (sx_inv k) (execution_request Login ?s)"
      using base now r unfolding sx_inv_def
      by (intro keeps_conj execution_request_ledger execution_request_frame) simp_all
    have "keeps (sx_inv k) (execution_request Settlement
        (?s\<lparr>sx_front := f, sx_session := g, sx_trading_day := d, sx_control := c, sx_next_ref := n\<rparr>))" for f g d c n
      using fresh(2)[where f = f and g = g and d = d and c = c and n = n] now r unfolding sx_inv_def
      by (intro keeps_conj execution_request_ledger execution_request_frame) simp_all
    then have login: "keeps (sx_inv k) (login_reply e ?s)"
      using base fresh(1) unfolding login_reply_def Let_def
      by (auto split: ctp_payload.split intro!: keeps_try_with)
    have "sx_inv k (?s\<lparr>sx_queries := [Instrument, Account, Position, OrderQuery]\<rparr>)"
      using base now idle r by (simp add: sx_inv_def in_order_def startup_chain_def)
    with True req login show ?thesis by (simp add: startup_reply_def Let_def split: ctp_kind.split)
  qed (use inv in \<open>auto simp: startup_reply_def\<close>)
qed

lemma query_reply_inv:
  assumes inv: "sx_inv k s"
  shows "keeps (sx_inv k) (query_reply e s)"
proof -
  let ?waits = "\<lambda>t. sx_inv k t \<and> sx_query_id t \<noteq> 0"
  have data: "keeps ?waits (query_data p s)" if "sx_query_id s \<noteq> 0" for p
    using inv that by (auto simp: query_data_def sx_inv_def in_order_def startup_chain_def split: ctp_payload.split)
  have "sx_inv k (t\<lparr>sx_startup_done := sx_startup_done t \<or> sx_query_kind t = OrderQuery, sx_query_id := 0\<rparr>)"
    if "?waits t" "sx_query_kind t = Instrument \<longrightarrow> sx_instrument_seen t" for t
    using that by (auto simp: sx_inv_def in_order_def startup_chain_def)
  then have ends: "keeps (sx_inv k) (query_end t)" if "?waits t" for t
    using that by (auto simp: query_end_def)
  show ?thesis
    unfolding query_reply_def
  proof (intro keeps_if, goal_cases)
    case 2
    have step: "keeps (sx_inv k) (then_do m (\<lambda>s _. if ev_last e then query_end s else Ok s ()))" if "keeps ?waits m" for m
      using that ends by (cases m) simp_all
    show ?case by (rule step[OF data]) (use 2 in simp)
  qed (use inv in simp)
qed

lemma execution_event_inv:
  assumes inv: "sx_inv k s"
  shows "keeps (sx_inv k) (execution_event e s)"
proof -
  have l: "sx_ledger s" "in_order k s" using inv by (simp_all add: sx_inv_def)
  have "keeps (sx_inv k) (execution_request Auth (s\<lparr>sx_trader_connected := True\<rparr>))" if "\<not> sx_trader_connected s"
  proof -
    have "sx_queries s = []" "sx_query_id s = 0" "\<not> sx_startup_done s" "sx_requests s = []"
      using l(2) that by (auto simp: in_order_def startup_chain_def)
    then show ?thesis
      using l before_startup[OF l(2)] unfolding sx_inv_def
      by (intro keeps_conj execution_request_ledger execution_request_frame)
        (simp_all add: in_order_def startup_chain_def)
  qed
  moreover have "sx_inv k (execution_state False (s\<lparr>sx_query_id := 0, sx_account := unknown_account\<rparr>))"
    if "sx_startup_done s"
    using that l unfolding sx_inv_def
    by (intro conjI in_order_state) (simp_all add: in_order_def startup_chain_def)
  ultimately show ?thesis
    using inv keeps_inv[OF orderEvent_ledger[OF l(1)] orderEvent_frame[OF l(2)]]
      keeps_inv[OF tradeEvent_ledger[OF l(1)] tradeEvent_frame[OF l(2)]]
      keeps_inv[OF error_event_ledger[OF l(1)] error_event_frame[OF l(2)]]
      startup_reply_inv[OF inv] query_reply_inv[OF inv] l
    by (simp add: execution_event_def sx_inv_def split: ctp_payload.split)
qed

end
