(* ===== verification/SimNowRuns.thy ===== *)
theory SimNowRuns
  imports SimNowSafety
begin

text \<open>
  Runs of the SimNow execution: the steps of its worker in any order, and between them whatever the
  other threads do to the shared objects. The properties that hold over all of them.
\<close>

section \<open>The poll\<close>

lemma cancel_all_inv: "sx_inv k s \<Longrightarrow> keeps (sx_inv k) (cancel_all refs s)"
proof (induction refs arbitrary: s)
  case (Cons ref refs)
  then have "keeps (sx_inv k) (execution_cancel ref None s)"
    by (intro keeps_inv execution_cancel_ledger execution_cancel_frame) (simp_all add: sx_inv_def)
  with Cons show ?case by (auto intro: keeps_then_do)
qed simp

lemma sx_inv_control [simp]: "sx_inv k (s\<lparr>sx_control := c\<rparr>) = sx_inv k s"
  "sx_inv k (s\<lparr>sx_events := q\<rparr>) = sx_inv k s"
  by (simp_all add: sx_inv_def)

lemma sx_inv_disabled: "sx_inv k s \<Longrightarrow> sx_inv k (execution_state False s)"
  by (simp add: sx_inv_def in_order_state)

lemma poll_batch_inv: "sx_inv k s \<Longrightarrow> keeps (sx_inv k) (poll_batch n s)"
proof (induction n arbitrary: s)
  case (Suc n)
  have "keeps (sx_inv k) (on_part (\<lambda>q. t\<lparr>sx_events := q\<rparr>) (updateReadIndex (sx_events t)))" if "sx_inv k t" for t
    using that by (simp add: updateReadIndex_def)
  with Suc show ?case
    by (auto split: option.split intro!: keeps_then_do keeps_catch_fail execution_event_inv sx_inv_fail)
qed simp

lemma poll_stopping_inv: "sx_inv k s \<Longrightarrow> keeps (sx_inv k) (poll_stopping s)"
  unfolding poll_stopping_def Let_def by (intro keeps_then_do cancel_all_inv sx_inv_disabled) simp_all

lemma send_query_inv:
  assumes inv: "sx_inv k s"
  shows "keeps (sx_inv k) (send_query now s)"
proof (cases "sx_queries s")
  case (Cons kind queries)
  have n: "0 \<le> sx_next_id s" "\<not> (sx_requests s \<noteq> [] \<or> \<not> sx_trader_connected s)"
    using inv Cons by (auto simp: sx_inv_def in_order_def startup_chain_def)
  have seen: "sx_instrument_seen s \<or> kind = Instrument" if "sx_query_id s = 0"
    using inv Cons that by (auto simp: sx_inv_def in_order_def startup_chain_def)
  let ?s = "\<lambda>n. s\<lparr>sx_query_kind := kind, sx_queries := queries, sx_next_id := n\<rparr>"
  have "keeps (sx_inv k) (send_query now s)" if "sx_query_id s = 0"
    unfolding send_query_def Cons list.case Let_def using that
    by (intro keeps_if keeps_fresh_id_then keeps_on_transport_then)
      (use inv n seen in \<open>auto simp: sx_inv_def in_order_def startup_chain_def simp del: set_map\<close>)
  moreover have "keeps (sx_inv k) (send_query now s)" if "sx_query_id s \<noteq> 0"
    using inv that by (simp add: send_query_def Cons)
  ultimately show ?thesis by blast
qed (use inv in \<open>simp add: send_query_def\<close>)

lemma schedule_account_inv:
  assumes "sx_inv k s"
  shows "sx_inv k (schedule_account now s)"
proof (cases "sx_startup_done s")
  case True
  then have "sx_instrument_seen s" "sx_requests s = []" "sx_trader_connected s"
    using assms unfolding sx_inv_def in_order_def startup_chain_def by blast+
  with True assms show ?thesis by (simp add: schedule_account_def sx_inv_def in_order_def startup_chain_def)
qed (use assms in \<open>simp add: schedule_account_def\<close>)

lemma poll_running_inv:
  assumes "sx_inv k s"
  shows "keeps (sx_inv k) (poll_running now s)"
proof -
  have "sx_inv k (execution_state True t)" if "sx_inv k t" "usable t" for t
    using that by (simp add: sx_inv_def in_order_state usable_def)
  then show ?thesis
    using assms unfolding poll_running_def Let_def
    by (intro keeps_if keeps_then_do send_query_inv schedule_account_inv) (simp_all add: sx_inv_disabled)
qed

lemma pollOrders_inv: "sx_inv k s \<Longrightarrow> keeps (sx_inv k) (pollOrders now s)"
  unfolding pollOrders_def Let_def
  by (intro keeps_catch_fail keeps_then_do keeps_if poll_batch_inv poll_stopping_inv poll_running_inv sx_inv_fail)
    (simp_all add: sx_inv_fail)

section \<open>Runs\<close>

text \<open>
  \<open>environment\<close>: the consumer of the responses, the market data worker and the owner act on the objects
  that the execution shares. The number counts the requests.
\<close>

inductive run :: "nat \<Rightarrow> simnow_execution \<Rightarrow> bool" where
  created: "simnow_execution_new g c t shared me blank = Inr s \<Longrightarrow> og_responses g \<noteq> None \<Longrightarrow> run 0 s"
| requested: "run k s \<Longrightarrow> execution_handleRequest r s = Ok s' () \<Longrightarrow> run (Suc k) s'"
| enqueued: "run k s \<Longrightarrow> execution_enqueue e s = Ok s' () \<Longrightarrow> run k s'"
| polled: "run k s \<Longrightarrow> pollOrders now s = Ok s' () \<Longrightarrow> run k s'"
| stopped: "run k s \<Longrightarrow> run k (execution_state False s)"
| environment: "run k s \<Longrightarrow> og_responses g \<noteq> None \<Longrightarrow>
    run k (s\<lparr>sx_gateway := g, sx_control := c, sx_transport := t, sx_measurement := me\<rparr>)"

lemma execution_new_inv:
  assumes "simnow_execution_new g c t shared me blank = Inr s" "og_responses g \<noteq> None"
  shows "sx_inv 0 s"
  using assms by (auto simp: simnow_execution_new_def bind_exn_Inr_iff sx_inv_def sx_ledger_def ledger_def finals_def
      in_order_def startup_chain_def)

lemma run_inv: "run k s \<Longrightarrow> k < 2 ^ 64 \<Longrightarrow> sx_inv k s"
proof (induction rule: run.induct)
  case (requested k s r s')
  then show ?case using keeps_OkD[OF handleRequest_inv] by (metis Suc_lessD)
next
  case (enqueued k s e s')
  then show ?case
    by (auto simp: execution_enqueue_def updateWriteIndex_def split: option.splits if_splits)
next
  case (polled k s now s')
  then show ?case using keeps_OkD[OF pollOrders_inv] by blast
next
  case (environment k s g c t me)
  then show ?case by (simp add: sx_inv_def sx_ledger_def)
qed (simp_all add: execution_new_inv sx_inv_disabled)

lemma ledger_live:
  assumes "ledger os pub net"
  shows "length (filter (\<lambda>(_, o'). \<not> eo_done o') os) \<le> 1"
proof (rule ccontr)
  let ?l = "filter (\<lambda>(_, o'). \<not> eo_done o') os"
  have d: "distinct (map fst os)" using assms sorted_keys_distinct by (auto simp: ledger_def)
  assume "\<not> length ?l \<le> 1"
  then obtain a b l where l: "?l = a # b # l" by (metis One_nat_def Suc_le_mono le0 length_Cons list.size(3) neq_Nil_conv)
  then have "set [a, b] \<subseteq> set ?l" by (simp only: l) simp
  then have ab: "a \<in> set os" "b \<in> set os" "\<not> eo_done (snd a)" "\<not> eo_done (snd b)" by auto
  then have "fst a = fst b"
    using assms d map_of_eq_Some_iff[OF d] unfolding ledger_def by (metis prod.collapse)
  moreover have "distinct (map fst ?l)" using d by (auto simp: distinct_map intro: inj_on_subset)
  ultimately show False by (simp add: l)
qed

text \<open>C5: Over any run of fewer than 2 to the 64 requests, whatever events the venue sends and whatever
  the other threads do: at most one order is open, the net position is the sum of the signed fills and
  is flat, one lot long or one lot short, an order that is open has no fill and was placed at the
  position its offset requires, and every order with a final response has exactly one, which is FILLED
  exactly when its fill was counted.\<close>

theorem one_order_one_lot:
  assumes "run k s" "k < 2 ^ 64"
  shows "length (filter (\<lambda>(_, o'). \<not> eo_done o') (sx_orders s)) \<le> 1 \<and>
    execution_position s = (\<Sum>(_, o')\<leftarrow>sx_orders s. signed_fill o') \<and> execution_position s \<in> {-1, 0, 1} \<and>
    (\<forall>ref o'. (ref, o') \<in> set (sx_orders s) \<longrightarrow>
       (if eo_done o' then length (finals ref (sx_published s)) = 1 \<and>
            (finals ref (sx_published s) = [FILLED] \<longleftrightarrow> eo_fills o' = 1)
        else finals ref (sx_published s) = [] \<and> eo_fills o' = 0 \<and>
            sx_net_position s = position_before (eo_request o')))"
proof -
  have l: "ledger (sx_orders s) (sx_published s) (sx_net_position s)"
    using run_inv[OF assms] by (simp add: sx_inv_def sx_ledger_def)
  have d: "distinct (map fst (sx_orders s))" using l sorted_keys_distinct by (auto simp: ledger_def)
  have e: "if eo_done o' then length (finals ref (sx_published s)) = 1 \<and>
            (finals ref (sx_published s) = [FILLED] \<longleftrightarrow> eo_fills o' = 1)
        else finals ref (sx_published s) = [] \<and> eo_fills o' = 0 \<and>
            sx_net_position s = position_before (eo_request o')" if "(ref, o') \<in> set (sx_orders s)" for ref o'
  proof -
    have "entry_ok (sx_published s) (sx_net_position s) ref o'"
      using l that by (simp add: ledger_def map_of_set[OF d])
    then show ?thesis by (auto simp: entry_ok_def)
  qed
  have "execution_position s = (\<Sum>(_, o')\<leftarrow>sx_orders s. signed_fill o')" "execution_position s \<in> {-1, 0, 1}"
    using l by (auto simp: ledger_def execution_position_def)
  with e ledger_live[OF l] show ?thesis by blast
qed

section \<open>When an order is sent\<close>

definition inserts :: "simnow_execution \<Rightarrow> ctp_input_order list" where
  "inserts s = concat (map (\<lambda>c. case c of Call_insert p _ \<Rightarrow> [p] | _ \<Rightarrow> []) (tp_log (sx_transport s)))"

text \<open>A predicate of the calls made through the transport, over the operations that do not insert.\<close>

lemma inserts_update [simp]:
  "inserts (s\<lparr>sx_gateway := g\<rparr>) = inserts s"
  "inserts (s\<lparr>sx_published := pub\<rparr>) = inserts s"
  "inserts (s\<lparr>sx_measurement := me\<rparr>) = inserts s"
  "inserts (s\<lparr>sx_control := c\<rparr>) = inserts s"
  "inserts (s\<lparr>sx_events := q\<rparr>) = inserts s"
  "inserts (s\<lparr>sx_next_id := n\<rparr>) = inserts s"
  "inserts (s\<lparr>sx_net_position := w\<rparr>) = inserts s"
  "inserts (s\<lparr>sx_orders := os\<rparr>) = inserts s"
  "inserts (s\<lparr>sx_next_ref := r\<rparr>) = inserts s"
  "inserts (s\<lparr>sx_requests := rs\<rparr>) = inserts s"
  "inserts (s\<lparr>sx_queries := qs\<rparr>) = inserts s"
  "inserts (s\<lparr>sx_query_id := i1\<rparr>) = inserts s"
  "inserts (s\<lparr>sx_query_kind := kd\<rparr>) = inserts s"
  "inserts (s\<lparr>sx_account := a\<rparr>) = inserts s"
  "inserts (s\<lparr>sx_account_seen := b3\<rparr>) = inserts s"
  "inserts (s\<lparr>sx_next_query := i4\<rparr>) = inserts s"
  "inserts (s\<lparr>sx_query_deadline := i5\<rparr>) = inserts s"
  "inserts (execution_state b s) = inserts s"
  "inserts (execution_fail m s) = inserts s"
  "inserts (order_assign ref o' s) = inserts s"
  by (simp_all add: inserts_def)

definition sent :: "ctp_input_order list \<Rightarrow> simnow_execution \<Rightarrow> bool" where
  "sent I s \<longleftrightarrow> inserts s = I"

lemma sent_update [simp]:
  "sent I (s\<lparr>sx_gateway := g\<rparr>) = sent I s"
  "sent I (s\<lparr>sx_published := pub\<rparr>) = sent I s"
  "sent I (s\<lparr>sx_measurement := me\<rparr>) = sent I s"
  "sent I (s\<lparr>sx_control := c\<rparr>) = sent I s"
  "sent I (s\<lparr>sx_events := q\<rparr>) = sent I s"
  "sent I (s\<lparr>sx_next_id := n\<rparr>) = sent I s"
  "sent I (s\<lparr>sx_net_position := w\<rparr>) = sent I s"
  "sent I (s\<lparr>sx_orders := os\<rparr>) = sent I s"
  "sent I (execution_state b s) = sent I s"
  "sent I (execution_fail m s) = sent I s"
  "sent I (order_assign ref o' s) = sent I s"
  by (simp_all add: sent_def)

lemma request_sent: "sent I s \<Longrightarrow> keeps (sent I) (on_transport s (transport_call (Call_request kind n) (sx_transport s)))"
  by (auto simp: on_transport_def transport_call_def Let_def inserts_def sent_def split: sum.split)

lemma cancel_sent: "sent I s \<Longrightarrow> keeps (sent I) (on_transport s (cancelObserved p n trace (sx_transport s)))"
  by (auto simp: on_transport_def cancelObserved_def observed_stamp_def transport_call_def Let_def inserts_def sent_def
      split: sum.split)

lemma fresh_id_sent: "sent I s \<Longrightarrow> keeps (sent I) (fresh_id s)"
  by (intro keeps_fresh_id) simp

lemma publish_sent: "sent I s \<Longrightarrow> keeps (sent I) (execution_publish o' type n p s)"
  by (intro keeps_publish_any) simp_all

lemmas sent_intros = keeps_then_do keeps_deref keeps_try_with keeps_if fresh_id_sent publish_sent request_sent cancel_sent

lemma finish_sent: "sent I s \<Longrightarrow> keeps (sent I) (finish ref s)"
  unfolding finish_def by (intro sent_intros) simp_all

lemma cancel_refused_sent: "sent I s \<Longrightarrow> keeps (sent I) (cancel_refused ref s)"
  unfolding cancel_refused_def by (intro sent_intros) simp_all

lemma orderEvent_sent: "sent I s \<Longrightarrow> keeps (sent I) (orderEvent p s)"
  by (auto simp: orderEvent_def Let_def order_progress_def split: option.split
      intro!: sent_intros cancel_refused_sent finish_sent)

lemma tradeEvent_sent: "sent I s \<Longrightarrow> keeps (sent I) (tradeEvent p s)"
  by (auto simp: tradeEvent_def Let_def split: option.split intro!: sent_intros)

lemma error_event_sent: "sent I s \<Longrightarrow> keeps (sent I) (error_event e s)"
  by (auto simp: error_event_def split: option.split intro!: sent_intros cancel_refused_sent finish_sent)

lemma execution_cancel_sent: "sent I s \<Longrightarrow> keeps (sent I) (execution_cancel ref observed s)"
  unfolding execution_cancel_def Let_def case_prod_unfold
  by (intro sent_intros) (simp_all add: measure_def sent_def inserts_def)

lemma execution_request_sent: "sent I s \<Longrightarrow> keeps (sent I) (execution_request kind s)"
  unfolding execution_request_def Let_def
  by (intro sent_intros) (simp_all add: sent_def inserts_def)

lemma startup_reply_sent: "sent I s \<Longrightarrow> keeps (sent I) (startup_reply e s)"
  by (auto simp: startup_reply_def login_reply_def Let_def split: ctp_kind.split ctp_payload.split
      intro!: execution_request_sent keeps_try_with simp: sent_def inserts_def)

lemma query_reply_sent: "sent I s \<Longrightarrow> keeps (sent I) (query_reply e s)"
  by (auto simp: query_reply_def query_data_def query_end_def split: ctp_payload.split intro!: keeps_then_do
      simp: sent_def inserts_def)

lemma execution_event_sent: "sent I s \<Longrightarrow> keeps (sent I) (execution_event e s)"
proof -
  assume s: "sent I s"
  have "sent I (execution_state False (s\<lparr>sx_query_id := 0, sx_account := unknown_account\<rparr>))"
    "keeps (sent I) (execution_request Auth (s\<lparr>sx_trader_connected := True\<rparr>))"
    using s by (simp_all add: execution_request_sent) (simp_all add: sent_def inserts_def execution_request_sent)
  then show ?thesis
    using s orderEvent_sent[OF s] tradeEvent_sent[OF s] error_event_sent[OF s] startup_reply_sent[OF s] query_reply_sent[OF s]
    by (simp add: execution_event_def split: ctp_payload.split)
qed

lemma poll_batch_sent: "sent I s \<Longrightarrow> keeps (sent I) (poll_batch n s)"
proof (induction n arbitrary: s)
  case (Suc n)
  have "keeps (sent I) (on_part (\<lambda>q. t\<lparr>sx_events := q\<rparr>) (updateReadIndex (sx_events t)))" if "sent I t" for t
    using that by (simp add: updateReadIndex_def)
  with Suc show ?case
    by (auto split: option.split intro!: keeps_then_do keeps_catch_fail execution_event_sent)
qed simp

lemma cancel_all_sent: "sent I s \<Longrightarrow> keeps (sent I) (cancel_all refs s)"
  by (induction refs arbitrary: s) (auto intro!: keeps_then_do execution_cancel_sent)

lemma send_query_sent:
  assumes "sent I s"
  shows "keeps (sent I) (send_query now s)"
proof (cases "sx_queries s")
  case (Cons kind queries)
  show ?thesis
    unfolding send_query_def Cons list.case Let_def
    using assms by (intro sent_intros) (simp_all add: sent_def inserts_def)
qed (use assms in \<open>simp add: send_query_def\<close>)

lemma pollOrders_sent: "sent I s \<Longrightarrow> keeps (sent I) (pollOrders now s)"
  unfolding pollOrders_def Let_def poll_stopping_def poll_running_def
  by (intro keeps_catch_fail keeps_then_do keeps_if poll_batch_sent cancel_all_sent send_query_sent)
    (simp_all add: schedule_account_def, simp_all add: sent_def inserts_def)

text \<open>What \<open>submit_new\<close> sends: the order of the request.\<close>

definition order_for :: "client_request \<Rightarrow> ctp_input_order \<Rightarrow> bool" where
  "order_for r p \<longleftrightarrow> io_volume p = 1 \<and> io_min_volume p = 1 \<and> io_limit_price p = ctp_decimal (rq_price r) \<and>
     io_direction p = (if rq_side r = BUY then D_Buy else D_Sell) \<and>
     io_offset p = (if rq_offset r = OPEN then OF_Open else OF_CloseToday)"

definition sent_or :: "client_request \<Rightarrow> ctp_input_order list \<Rightarrow> simnow_execution \<Rightarrow> bool" where
  "sent_or r I s \<longleftrightarrow> inserts s = I \<or> (\<exists>p. inserts s = I @ [p] \<and> order_for r p)"

lemma input_order_for: "input_order r ref c = Inr p \<Longrightarrow> rq_side r \<in> {BUY, SELL} \<Longrightarrow> order_for r p"
  by (auto simp: input_order_def bind_exn_Inr_iff order_for_def)

lemma insert_sent:
  assumes "inserts s = I" "order_for r p"
  shows "keeps (sent_or r I) (on_transport s (insertObserved p n trace (sx_transport s)))"
  using assms by (auto simp: on_transport_def insertObserved_def observed_stamp_def transport_call_def Let_def inserts_def
      sent_or_def split: sum.split)

lemma submit_new_sent:
  assumes "inserts s = I" "rq_side r \<in> {BUY, SELL}"
  shows "keeps (sent_or r I) (submit_new r s)"
  unfolding submit_new_def Let_def case_prod_unfold
proof (intro keeps_try_with keeps_fresh_id_then keeps_then_do keeps_if keeps_deref keeps_publish_any insert_sent, goal_cases)
  case (4 b p)
  then show ?case using input_order_for assms(2) by blast
qed (use assms in \<open>simp_all add: sent_or_def measure_def inserts_def[of "_\<lparr>sx_next_ref := _\<rparr>"]\<close>)

definition cleared :: "client_request \<Rightarrow> simnow_execution \<Rightarrow> bool" where
  "cleared r s \<longleftrightarrow>
     rq_type r = Request_NEW \<and> rq_order_type r = LIMIT \<and> admissible r \<and>
     sx_ready s \<and> \<not> nc_fatal (sx_control s) \<and> \<not> nc_stopping (sx_control s) \<and> \<not> outstanding s \<and>
     sx_net_position s = position_before r \<and> 0 < sint (rq_price r) \<and>
     sint (ctp_price (in_price_tick (sx_instrument s))) dvd sint (rq_price r)"

lemma submit_sent_or:
  "keeps (\<lambda>t. sent_or r (inserts s) t \<and> (inserts t \<noteq> inserts s \<longrightarrow> cleared r s)) (submit r s)"
proof -
  let ?P = "\<lambda>t. sent_or r (inserts s) t \<and> (inserts t \<noteq> inserts s \<longrightarrow> cleared r s)"
  have none: "keeps ?P m" if "keeps (sent (inserts s)) m" for m :: "(simnow_execution, unit) outcome"
    using that by (cases m) (simp_all add: sent_or_def sent_def)
  have new: "keeps ?P (submit_new r s)"
    if "\<not> refused r s" "\<not> position_forbids r s" "price_forbids r s = Some False"
  proof -
    have a: "cleared r s"
      using that submit_admissible[OF that(1,2)]
      by (auto simp: cleared_def refused_def price_forbids_def Let_def dvd_eq_mod_eq_0 split: if_splits)
    then have "keeps (sent_or r (inserts s)) (submit_new r s)"
      by (intro submit_new_sent) (simp_all add: cleared_def admissible_def)
    with a show ?thesis by (auto elim: keeps_mono)
  qed
  have s: "sent (inserts s) s" by (simp add: sent_def)
  show ?thesis
    using none[OF publish_sent[OF s]] none[OF execution_cancel_sent[OF s]] new
    by (auto simp: submit_def Let_def sent_or_def split: option.split bool.split)
qed

text \<open>C1: An order reaches the venue only when it may: through a request that is a valid limit order for one
  lot at a positive multiple of the contract's tick, after a complete start-up that found an eligible
  contract, while the venue is ready, nothing has failed and no shutdown has begun, with no order open
  and from the position that its offset requires. What is sent is one order with the price and the
  sides of the request. Polling, with all the events it handles, never sends one.\<close>

theorem order_needs_clearance:
  assumes "sx_inv k s"
  shows "(execution_handleRequest r s = Ok s' () \<and> inserts s' \<noteq> inserts s \<longrightarrow>
      cleared r s \<and> sx_startup_done s \<and> \<not> ineligible (sx_instrument s) \<and>
      (\<exists>p. inserts s' = inserts s @ [p] \<and> order_for r p)) \<and>
    (pollOrders now s = Ok s' () \<longrightarrow> inserts s' = inserts s)"
proof (intro conjI impI; (elim conjE)?)
  assume h: "execution_handleRequest r s = Ok s' ()" and ne: "inserts s' \<noteq> inserts s"
  have "keeps (\<lambda>t. sent_or r (inserts s) t \<and> (inserts t \<noteq> inserts s \<longrightarrow> cleared r s)) (execution_handleRequest r s)"
    unfolding execution_handleRequest_def by (intro keeps_catch_fail submit_sent_or) (simp add: sent_or_def)
  with h ne have c: "cleared r s" "\<exists>p. inserts s' = inserts s @ [p] \<and> order_for r p" by (auto simp: sent_or_def)
  then have "sx_startup_done s \<and> sx_instrument_seen s \<and> \<not> ineligible (sx_instrument s)"
    using assms unfolding sx_inv_def in_order_def startup_chain_def cleared_def by blast
  with c show "cleared r s" "sx_startup_done s" "\<not> ineligible (sx_instrument s)"
      "\<exists>p. inserts s' = inserts s @ [p] \<and> order_for r p" by simp_all
next
  assume "pollOrders now s = Ok s' ()"
  then show "inserts s' = inserts s"
    using pollOrders_sent[of "inserts s" s now] by (simp add: sent_def)
qed

section \<open>Repeated trades, and the end of a shutdown\<close>

text \<open>C14: A trade report that is delivered again changes nothing: the position, the responses and the order
  stay as the first delivery left them.\<close>

theorem trade_is_counted_once:
  assumes "tradeEvent p s = Ok s' ()" "og_responses (sx_gateway s) \<noteq> None"
  shows "tradeEvent p s' = Ok s' ()"
proof (cases "order_at (ct_ref p) s")
  case (Some o')
  let ?key = "trade_key p"
  show ?thesis
  proof (cases "?key \<in> set (eo_trades o')")
    case True
    then show ?thesis using assms(1) Some by (auto simp: tradeEvent_def Let_def split: if_splits)
  next
    case False
    let ?o1 = "o'\<lparr>eo_trades := ?key # eo_trades o', eo_fills := eo_fills o' + ct_volume p\<rparr>"
    let ?s1 = "order_assign (ct_ref p) ?o1 s\<lparr>sx_net_position := sx_net_position s +
        of_int (sideToValue (rq_side (eo_request o')) * ct_volume p)\<rparr>"
    have m: "then_do (execution_publish ?o1 FILLED (ct_volume p) (ctp_price (ct_price p)) ?s1)
        (\<lambda>s _. Ok (order_assign (ct_ref p) (?o1\<lparr>eo_done := True\<rparr>) s) ()) = Ok s' ()"
      and c: "sc_instrument (sx_config s) = ct_instrument p" "ct_exchange p = ''SHFE''"
        "sx_trading_day s = ct_trading_day p" "eo_sys o' = [] \<or> eo_sys o' = ct_sys p"
      using assms(1) Some False by (auto simp: tradeEvent_def Let_def split: if_splits)
    obtain g pub where "s' = order_assign (ct_ref p) (?o1\<lparr>eo_done := True\<rparr>)
        (?s1\<lparr>sx_gateway := g, sx_published := pub\<rparr>)"
      using m execution_publish_Ok[of ?s1 ?o1 FILLED "ct_volume p" "ctp_price (ct_price p)"] assms(2) by auto
    then have "order_at (ct_ref p) s' = Some (?o1\<lparr>eo_done := True\<rparr>)" "sx_config s' = sx_config s"
        "sx_trading_day s' = sx_trading_day s"
      using Some by (simp_all add: order_at_def order_assign_def map_of_assign)
    then show ?thesis using c by (simp add: tradeEvent_def Let_def)
  qed
qed (use assms(1) in \<open>simp add: tradeEvent_def\<close>)

lemma cancel_all_done:
  assumes "distinct (map fst (sx_orders s))" "\<not> outstanding s" "set refs \<subseteq> fst ` set (sx_orders s)"
  shows "cancel_all refs s = Ok s ()"
  using assms(3)
proof (induction refs)
  case (Cons ref refs)
  then obtain o' where o': "(ref, o') \<in> set (sx_orders s)" by auto
  then have "order_at ref s = Some o'" using assms(1) by (simp add: order_at_def)
  moreover have "eo_done o'" using assms(2) o' by (auto simp: outstanding_def)
  ultimately show ?case using Cons by (simp add: execution_cancel_def)
qed simp

text \<open>C24: A shutdown ends: once the owner has asked to stop, the first poll that finds the event queue empty
  and every order with its final response reports that the worker is done, with the venue disabled and
  nothing sent.\<close>

theorem shutdown_completes:
  assumes "sx_inv k s" "nc_stopping (sx_control s)" "lq_peek (sx_events s) = None" "\<not> outstanding s"
  shows "\<exists>s'. pollOrders now s = Ok s' () \<and> nc_stop_done (sx_control s') \<and> \<not> sx_ready s' \<and>
    tp_log (sx_transport s') = tp_log (sx_transport s) \<and> sx_orders s' = sx_orders s"
proof -
  let ?s0 = "s\<lparr>sx_control := (sx_control s)\<lparr>nc_overflow := False\<rparr>\<rparr>"
  let ?s1 = "if nc_overflow (sx_control s)
    then execution_fail ''CTP callback queue exhausted; execution status may be unknown'' ?s0 else ?s0"
  let ?s2 = "execution_state False ?s1"
  have s1: "sx_orders ?s1 = sx_orders s" "sx_events ?s1 = sx_events s" "nc_stopping (sx_control ?s1)"
      "sx_transport ?s1 = sx_transport s"
    using assms(2) by (simp_all add: signalFailure_def)
  have batch: "poll_batch 256 ?s1 = Ok ?s1 ()"
    using assms(3) s1(2) poll_batch.simps(2)[of 255 ?s1] by (simp only: eval_nat_numeral) simp
  have "distinct (map fst (sx_orders s))"
    using assms(1) sorted_keys_distinct by (auto simp: sx_inv_def sx_ledger_def ledger_def)
  moreover have out: "outstanding ?s2 = outstanding s" using s1(1) by (simp add: outstanding_def)
  ultimately have "cancel_all (map fst (sx_orders ?s2)) ?s2 = Ok ?s2 ()"
    using s1(1) assms(4) by (intro cancel_all_done) simp_all
  then have "poll_stopping ?s1 = Ok (?s2\<lparr>sx_control := (sx_control ?s2)\<lparr>nc_stop_done := True\<rparr>\<rparr>) ()"
    using out assms(4) unfolding poll_stopping_def Let_def by simp
  then have "pollOrders now s = Ok (?s2\<lparr>sx_control := (sx_control ?s2)\<lparr>nc_stop_done := True\<rparr>\<rparr>) ()"
    using batch s1(3) unfolding pollOrders_def Let_def by (simp add: catch_fail_def)
  then show ?thesis using s1 by (intro exI conjI) (assumption | simp add: execution_ready)+
qed

section \<open>Examples\<close>

definition demo_config :: simnow_config where
  "demo_config = simnow_config_init\<lparr>sc_instrument := ''cu2612'', sc_user := ''user'', sc_capacity := 8\<rparr>"

definition demo_gateway :: order_gateway where
  "demo_gateway = order_gateway_new 1 None
     (Some \<lparr>lq_store = (\<lambda>_. client_response_init), lq_capacity = 8, lq_next_write = 0, lq_next_read = 0,
            lq_num_elements = 0\<rparr>) (\<lambda>_. 0)"

definition demo_transport :: transport where
  "demo_transport = \<lparr>tp_result = (\<lambda>_. Inr 0), tp_log = [], tp_clock = (\<lambda>_. 0), tp_ticks = 0\<rparr>"

definition demo_queue :: "ctp_event lf_queue" where
  "demo_queue = \<lparr>lq_store = (\<lambda>_. ctp_emit Kind_Error None 0 True 0), lq_capacity = 8, lq_next_write = 0,
     lq_next_read = 0, lq_num_elements = 0\<rparr>"

definition demo_start :: simnow_execution where
  "demo_start =
     \<lparr>sx_gateway = demo_gateway, sx_config = demo_config, sx_transport = demo_transport,
      sx_control = simnow_control_init, sx_measurement = None,
      sx_events = demo_queue, sx_net_position = 0, sx_ready = False, sx_trader_connected = False,
      sx_instrument_seen = False, sx_account_seen = False, sx_startup_done = False, sx_next_id = 0,
      sx_query_id = 0, sx_front = 0, sx_session = 0, sx_next_ref = 0, sx_trading_day = [],
      sx_query_kind = Instrument, sx_queries = [], sx_requests = [], sx_next_query = 0,
      sx_query_deadline = 0, sx_next_account = 0, sx_instrument = instrument_init,
      sx_account = account_state_init, sx_published_account = unknown_account,
      sx_state_published = False, sx_orders = [], sx_sink = [], sx_published = []\<rparr>"

lemma demo_start_new:
  "simnow_execution_new demo_gateway demo_config demo_transport simnow_control_init None
     (ctp_emit Kind_Error None 0 True 0) = Inr demo_start"
  by (simp add: simnow_execution_new_def demo_start_def demo_config_def lf_queue_new_def demo_queue_def)

definition demo_request :: client_request where
  "demo_request = client_request_init\<lparr>rq_type := Request_NEW, rq_client_id := 1, rq_ticker_id := 0,
     rq_order_id := 7, rq_side := BUY, rq_price := 7000000000000, rq_qty := 1, rq_order_type := LIMIT,
     rq_offset := OPEN\<rparr>"

lemmas demo_defs = demo_start_def demo_gateway_def order_gateway_new_def demo_config_def simnow_config_init_def
  demo_request_def client_request_init_def simnow_control_init_def demo_transport_def demo_queue_def

text \<open>A request that arrives before the start-up is answered with one rejection.\<close>

lemma demo_rejected:
  "\<exists>s'. execution_handleRequest demo_request demo_start = Ok s' () \<and>
     map (rs_type \<circ> snd) (sx_published s') = [REJECTED] \<and> sx_orders s' = []"
proof -
  have r: "refused demo_request demo_start" by (simp add: refused_def demo_defs)
  have f: "rq_client_id demo_request = og_client_id (sx_gateway demo_start)" "rq_type demo_request = Request_NEW"
      "rq_ticker_id demo_request = sc_ticker_id (sx_config demo_start)" "eo_ref (exec_order_new demo_request) = []"
      "sx_orders demo_start = []" "sx_published demo_start = []"
    by (simp_all add: demo_defs exec_order_new_def)
  have "submit demo_request demo_start = execution_publish (exec_order_new demo_request) REJECTED 0 Price_INVALID demo_start"
    using r f by (simp add: submit_def)
  moreover obtain q where q: "og_responses (sx_gateway demo_start) = Some q" "\<not> lq_isFull q"
    by (simp add: demo_defs lq_isFull_def)
  ultimately show ?thesis
    using execution_publish_room[OF q, of "exec_order_new demo_request" REJECTED 0 Price_INVALID] f(4-6)
    by (auto simp: execution_handleRequest_def catch_fail_def)
qed

lemma one_order_one_lot_witness:
  "\<exists>s. run 1 s \<and> map (rs_type \<circ> snd) (sx_published s) = [REJECTED] \<and> execution_position s \<in> {-1, 0, 1}"
proof -
  obtain s' where s': "execution_handleRequest demo_request demo_start = Ok s' ()"
      "map (rs_type \<circ> snd) (sx_published s') = [REJECTED]"
    using demo_rejected by (elim exE conjE)
  have "run 0 demo_start" by (rule run.created[OF demo_start_new]) (simp add: demo_defs)
  then have r: "run 1 s'" unfolding One_nat_def using s'(1) by (rule run.requested)
  have "(1 :: nat) < 2 ^ 64" by simp
  from one_order_one_lot[OF r this] have "execution_position s' \<in> {-1, 0, 1}" by (elim conjE)
  with r s'(2) show ?thesis by (intro exI[of _ s'] conjI)
qed

text \<open>A ready venue on a contract with a tick of 10.\<close>

definition demo_instrument :: ctp_instrument where
  "demo_instrument =
     \<lparr>in_instrument = ''cu2612'', in_exchange = ''SHFE'', in_product = PC_Futures, in_is_trading = 1,
      in_multiple = 5, in_price_tick = Fin 10, in_min_limit_volume = 1, in_max_limit_volume = 500\<rparr>"

definition demo_ready :: simnow_execution where
  "demo_ready = demo_start\<lparr>sx_trader_connected := True, sx_startup_done := True, sx_instrument_seen := True,
     sx_ready := True, sx_instrument := demo_instrument\<rparr>"

lemma demo_tick: "ctp_price (Fin 10) = 1000000000"
proof -
  have "round64 10 = Fin 10"
    using representable_int[of 10] pow2_big[of 10 4] by (intro round64_exact) simp_all
  then have "ctp_decimal 1000000000 = Fin 10"
    by (simp add: ctp_decimal_def of_integer_exact price_scale_def)
  then show ?thesis using decimal_roundtrip[of 1000000000] by simp
qed

lemma demo_ready_inv: "sx_inv 0 demo_ready"
  by (simp add: sx_inv_def sx_ledger_def ledger_def finals_def in_order_def startup_chain_def demo_ready_def
      demo_defs demo_instrument_def ineligible_def demo_tick Price_INVALID_def ctp_codes)

lemma demo_sends:
  "\<exists>s'. execution_handleRequest demo_request demo_ready = Ok s' () \<and> length (inserts s') = 1 \<and> inserts demo_ready = []"
proof -
  have ok: "\<not> refused demo_request demo_ready" "\<not> position_forbids demo_request demo_ready"
      "price_forbids demo_request demo_ready = Some False"
    by (simp_all add: refused_def position_forbids_def price_forbids_def outstanding_def demo_ready_def demo_defs
        demo_instrument_def demo_tick Price_INVALID_def Let_def)
  have "submit demo_request demo_ready = submit_new demo_request demo_ready"
    using ok by (simp add: submit_def) (simp add: demo_ready_def demo_defs)
  moreover have "show_u (1 :: 64 word) = ''1''" by code_simp
  ultimately show ?thesis
    by (simp add: execution_handleRequest_def catch_fail_def submit_new_def account_fields_def input_order_def put_def
        bind_exn_def c_str_def fresh_id_def on_transport_def insertObserved_def observed_stamp_def transport_call_def
        Let_def measure_def inserts_def demo_ready_def demo_defs trace_init_def)
qed

lemma order_needs_clearance_witness:
  "\<exists>s' p. execution_handleRequest demo_request demo_ready = Ok s' () \<and> inserts s' = [p] \<and> order_for demo_request p \<and>
     sx_startup_done demo_ready"
proof -
  obtain s' where s': "execution_handleRequest demo_request demo_ready = Ok s' ()" "length (inserts s') = 1"
      "inserts demo_ready = []"
    using demo_sends by blast
  then have "inserts s' \<noteq> inserts demo_ready" by auto
  with s' show ?thesis using order_needs_clearance[OF demo_ready_inv, of demo_request s'] by auto
qed

lemma shutdown_completes_witness:
  "\<exists>s'. pollOrders 0 (demo_ready\<lparr>sx_control := simnow_control_init\<lparr>nc_stopping := True\<rparr>\<rparr>) = Ok s' () \<and>
     nc_stop_done (sx_control s')"
proof -
  let ?s = "demo_ready\<lparr>sx_control := simnow_control_init\<lparr>nc_stopping := True\<rparr>\<rparr>"
  have "sx_inv 0 ?s" using demo_ready_inv by simp
  moreover have "lq_peek (sx_events ?s) = None" "\<not> outstanding ?s" "nc_stopping (sx_control ?s)"
    by (simp_all add: outstanding_def demo_ready_def demo_defs lq_peek_def getNextToRead_def)
  ultimately show ?thesis using shutdown_completes[of 0 ?s 0] by blast
qed

text \<open>One lot bought: the order that is open, and the report of its trade.\<close>

definition demo_open :: simnow_execution where
  "demo_open = demo_ready\<lparr>sx_trading_day := ''20260105'',
     sx_orders := [(''1'', (exec_order_new demo_request)\<lparr>eo_ref := ''1'', eo_insert_id := 1\<rparr>)]\<rparr>"

definition demo_trade :: ctp_trade where
  "demo_trade = \<lparr>ct_ref = ''1'', ct_sys = ''9'', ct_instrument = ''cu2612'', ct_exchange = ''SHFE'',
     ct_trading_day = ''20260105'', ct_trade_id = ''T1'', ct_volume = 1, ct_price = Fin 10, ct_direction = D_Buy,
     ct_offset = OF_Open\<rparr>"

lemma trade_is_counted_once_witness:
  "\<exists>s'. tradeEvent demo_trade demo_open = Ok s' () \<and> tradeEvent demo_trade s' = Ok s' () \<and> execution_position s' = 1"
proof -
  have "\<exists>s'. tradeEvent demo_trade demo_open = Ok s' () \<and> execution_position s' = 1"
    by (simp add: tradeEvent_def Let_def order_at_def demo_open_def demo_ready_def demo_trade_def demo_defs invalid_trade_def
        exec_order_new_def trade_key_def demo_tick Price_INVALID_def order_assign_def table_assign_def execution_publish_def
        publishClientResponse_def response_of_def lq_enqueue_def tryGetNextToWriteTo_def updateWriteIndex_def
        lq_write_slot_def lq_isFull_def execution_position_def)
  moreover have "og_responses (sx_gateway demo_open) \<noteq> None" by (simp add: demo_open_def demo_ready_def demo_defs)
  ultimately show ?thesis using trade_is_counted_once by blast
qed

text \<open>
  A tick that is positive but below half a unit of the price scale passes the check of the contract and
  is then the divisor of a remainder: the request is undefined behaviour.
\<close>

lemma tiny_tick: "ctp_price (Fin (pow2 (-30))) = 0"
proof -
  have v: "representable (100000000 * pow2 (-30))"
    unfolding representable_def by (intro exI[of _ 100000000] exI[of _ "-30"]) simp
  have "100000000 * pow2 (-30) \<le> (1 / 2 - 1 / 4 :: rat)" by (simp add: pow2_def)
  then have "llround (100000000 * pow2 (-30)) = 0"
    by (simp add: llround_def floor_eq_iff)
  moreover have "100000000 * pow2 (-30) \<le> pow2 1023" by (intro pow2_big[of _ 1]) (simp_all add: pow2_def)
  then have "Fin (pow2 (-30)) * price_scale = Fin (100000000 * pow2 (-30))"
    using round64_exact[OF v] by (simp add: price_scale_def mult.commute)
  moreover have "\<not> of_integer (sint Price_INVALID) / price_scale \<le> Fin (pow2 (-30))"
  proof -
    have "Fin (pow2 (-30)) \<le> Fin (2 ^ 24)" by (simp add: pow2_def)
    then show ?thesis using price_limit
      by (cases "of_integer (sint Price_INVALID) / price_scale") (auto simp: less_f64_def)
  qed
  moreover have "\<not> pow2 (-30) \<le> 0" using pow2_pos(1)[of "-30"] by linarith
  ultimately show ?thesis by (simp add: ctp_price_def zero_f64_def)
qed

lemma zero_tick_divides:
  "\<not> ineligible (demo_instrument\<lparr>in_price_tick := Fin (pow2 (-30))\<rparr>) \<and>
   execution_handleRequest demo_request
     (demo_ready\<lparr>sx_instrument := demo_instrument\<lparr>in_price_tick := Fin (pow2 (-30))\<rparr>\<rparr>) = Undef"
  by (simp add: ineligible_def demo_instrument_def tiny_tick Price_INVALID_def ctp_codes execution_handleRequest_def
      catch_fail_def submit_def refused_def position_forbids_def price_forbids_def outstanding_def demo_ready_def demo_defs
      Let_def)

end
