(* ===== verification/SimNowVenueAdapter.thy ===== *)
theory SimNowVenueAdapter
  imports SimNowMarketData SimNowRuns
begin

text \<open>
  \<open>trading/venue/simnow/simnow_venue_adapter.{h,cpp}\<close>: the life of the SimNow adapter. The adapter owns
  the control and the transport and runs the two sides on the workers of the consumer and the gateway;
  the record holds each shared object once, and a call on a side lends them to it. The wait on the
  condition variable is a parameter: the control as it is found when the wait ends.
\<close>

section \<open>State\<close>

record simnow_adapter =
  sa_market :: market_data_consumer
  sa_gateway :: order_gateway
  sa_config :: simnow_config
  sa_transport :: transport
  sa_control :: simnow_control
  sa_started :: bool
  sa_used :: bool
  sa_market_data :: simnow_market_data
  sa_execution :: simnow_execution
  sa_market_polled :: bool
  sa_gateway_polled :: bool
  sa_gateway_handled :: bool
  sa_transport_running :: bool

definition simnow_adapter_new :: "market_data_consumer option \<Rightarrow> order_gateway option \<Rightarrow> simnow_config \<Rightarrow> bool \<Rightarrow>
    transport option \<Rightarrow> (nat \<Rightarrow> 64 word) \<Rightarrow> ctp_event \<Rightarrow> exn + simnow_adapter" where
  "simnow_adapter_new m g c sink t clock blank =
     bind_exn (lf_queue_new blank (sc_capacity c)) (\<lambda>_.
     case (m, g, t) of
       (Some m, Some g, Some t) \<Rightarrow>
         if \<not> sink \<or> sc_instrument c = [] \<or> sc_user c = [] \<or> sc_password c = [] \<or> sc_auth_code c = [] \<or>
            unat (sc_ticker_id c) \<ge> ME_MAX_TICKERS \<or> sc_capacity c = 0 \<or>
            sc_startup_timeout c \<le> 0 \<or> sc_shutdown_timeout c \<le> 0
         then Inl (Invalid_argument ''Invalid SimNow configuration'')
         else if \<not> starts_with ''tcp://'' (sc_trading_front c) \<or> \<not> starts_with ''tcp://'' (sc_market_front c)
         then Inl (Invalid_argument ''SimNow fronts must use tcp://'')
         else bind_exn (simnow_market_data_new m c t simnow_control_init clock blank) (\<lambda>md.
              bind_exn (simnow_execution_new g c t simnow_control_init None blank) (\<lambda>sx. Inr
                \<lparr>sa_market = m, sa_gateway = g, sa_config = c, sa_transport = t, sa_control = simnow_control_init,
                 sa_started = False, sa_used = False, sa_market_data = md, sa_execution = sx,
                 sa_market_polled = False, sa_gateway_polled = False, sa_gateway_handled = False,
                 sa_transport_running = False\<rparr>))
     | _ \<Rightarrow> Inl (Invalid_argument ''Invalid SimNow configuration''))"

section \<open>The two sides\<close>

definition with_execution :: "(simnow_execution \<Rightarrow> (simnow_execution, 'a) outcome) \<Rightarrow> simnow_adapter \<Rightarrow>
    (simnow_adapter, 'a) outcome" where
  "with_execution f i =
     on_part (\<lambda>s. i\<lparr>sa_execution := s, sa_gateway := sx_gateway s, sa_transport := sx_transport s,
                     sa_control := sx_control s\<rparr>)
       (f ((sa_execution i)\<lparr>sx_gateway := sa_gateway i, sx_transport := sa_transport i, sx_control := sa_control i\<rparr>))"

definition with_market_data :: "(simnow_market_data \<Rightarrow> (simnow_market_data, 'a) outcome) \<Rightarrow> simnow_adapter \<Rightarrow>
    (simnow_adapter, 'a) outcome" where
  "with_market_data f i =
     on_part (\<lambda>s. i\<lparr>sa_market_data := s, sa_market := md_market s, sa_transport := md_transport s,
                     sa_control := md_control s\<rparr>)
       (f ((sa_market_data i)\<lparr>md_market := sa_market i, md_transport := sa_transport i, md_control := sa_control i\<rparr>))"

text \<open>The handlers that \<open>prepare\<close> installs; without them a call of the worker does nothing.\<close>

definition adapter_request :: "client_request \<Rightarrow> simnow_adapter \<Rightarrow> (simnow_adapter, unit) outcome" where
  "adapter_request r i = (if sa_gateway_handled i then with_execution (execution_handleRequest r) i else Ok i ())"

definition adapter_pollOrders :: "int \<Rightarrow> simnow_adapter \<Rightarrow> (simnow_adapter, unit) outcome" where
  "adapter_pollOrders now i = (if sa_gateway_polled i then with_execution (pollOrders now) i else Ok i ())"

definition adapter_pollMarket :: "simnow_adapter \<Rightarrow> (simnow_adapter, unit) outcome" where
  "adapter_pollMarket i = (if sa_market_polled i then with_market_data pollMarket i else Ok i ())"

section \<open>Life cycle\<close>

definition adapter_signal :: "string \<Rightarrow> simnow_adapter \<Rightarrow> simnow_adapter" where
  "adapter_signal m i = i\<lparr>sa_control := signalFailure m (sa_control i)\<rparr>"

definition adapter_stop :: "simnow_adapter \<Rightarrow> (simnow_adapter, unit) outcome" where
  "adapter_stop i =
     (if mc_running (sa_market i) \<or> og_running (sa_gateway i)
      then Throw i (Logic_error ''Join business workers before stopping SimNow'')
      else if \<not> sa_started i then Ok i ()
      else
        then_do (with_execution (\<lambda>s. Ok (execution_state False s) ())
                  (i\<lparr>sa_control := (sa_control i)\<lparr>nc_stopping := True\<rparr>, sa_transport_running := False,
                     sa_market_polled := False, sa_gateway_polled := False, sa_gateway_handled := False\<rparr>))
          (\<lambda>i _. Ok (i\<lparr>sa_control := (sa_control i)\<lparr>nc_active := False\<rparr>, sa_started := False\<rparr>) ()))"

text \<open>\<open>failed\<close>: the exception of \<open>Transport::start\<close>, if it throws.\<close>

definition adapter_prepare :: "exn option \<Rightarrow> simnow_adapter \<Rightarrow> (simnow_adapter, unit) outcome" where
  "adapter_prepare failed i =
     (if sa_used i then Throw i (Logic_error ''SimNow adapter cannot be prepared twice'')
      else if mc_running (sa_market i) \<or> og_running (sa_gateway i)
      then Throw i (Logic_error ''Prepare SimNow before starting business workers'')
      else
        let i = i\<lparr>sa_started := True, sa_used := True, sa_gateway_handled := True, sa_gateway_polled := True,
                  sa_market_polled := True, sa_transport_running := True\<rparr>
        in case failed of
             None \<Rightarrow> Ok i ()
           | Some e \<Rightarrow> then_do (adapter_stop i) (\<lambda>i _. Throw i e))"

definition adapter_failure :: "simnow_adapter \<Rightarrow> string" where
  "adapter_failure i = nc_error (sa_control i)"

definition adapter_running :: "simnow_adapter \<Rightarrow> bool" where
  "adapter_running i \<longleftrightarrow> nc_active (sa_control i)"

definition adapter_failed :: "simnow_adapter \<Rightarrow> bool" where
  "adapter_failed i \<longleftrightarrow> nc_fatal (sa_control i)"

definition adapter_position :: "simnow_adapter \<Rightarrow> int" where
  "adapter_position i = execution_position (sa_execution i)"

definition adapter_waitUntilReady :: "simnow_control \<Rightarrow> simnow_adapter \<Rightarrow> (simnow_adapter, unit) outcome" where
  "adapter_waitUntilReady woken i =
     (if \<not> sa_started i \<or> \<not> mc_running (sa_market i) \<or> \<not> og_running (sa_gateway i)
      then Throw i (Logic_error ''SimNow readiness requires prepared transport and running workers'')
      else
        let i = i\<lparr>sa_control := woken\<rparr>; ok = (nc_active woken \<or> nc_fatal woken)
        in if \<not> ok \<or> nc_fatal woken
           then (let i = (if \<not> ok then adapter_signal ''SimNow startup timed out'' i else i)
                 in Throw i (Runtime_error (adapter_failure i)))
           else Ok i ())"

definition adapter_quiesce :: "simnow_control \<Rightarrow> simnow_adapter \<Rightarrow> simnow_adapter" where
  "adapter_quiesce woken i =
     (if \<not> sa_started i \<or> nc_stopping (sa_control i) then i
      else if og_running (sa_gateway i)
      then (let i = i\<lparr>sa_control := woken\<lparr>nc_stopping := True\<rparr>\<rparr>
            in if \<not> nc_stop_done woken then adapter_signal ''Shutdown timeout; order state unresolved'' i else i)
      else i\<lparr>sa_control := (sa_control i)\<lparr>nc_stopping := True\<rparr>\<rparr>)"

section \<open>The contract of the life cycle\<close>

lemma with_execution_state:
  "with_execution (\<lambda>s. Ok (execution_state b s) ()) i =
     Ok (i\<lparr>sa_execution := execution_state b ((sa_execution i)\<lparr>sx_gateway := sa_gateway i,
             sx_transport := sa_transport i, sx_control := sa_control i\<rparr>)\<rparr>) ()"
  by (simp add: with_execution_def)

text \<open>
  The life of an adapter: what its owner, its transport and the two workers do with it. While it is
  started the owner may start and join the workers and use the queues.
\<close>

inductive life :: "simnow_adapter \<Rightarrow> bool" where
  created: "simnow_adapter_new m g c sink t clock blank = Inr i \<Longrightarrow> life i"
| prepared: "life i \<Longrightarrow> adapter_prepare failed i = Ok i' () \<Longrightarrow> life i'"
| not_prepared: "life i \<Longrightarrow> adapter_prepare failed i = Throw i' e \<Longrightarrow> life i'"
| workers: "life i \<Longrightarrow> life (i\<lparr>sa_market := m, sa_gateway := g\<rparr>)"
| received: "life i \<Longrightarrow> sa_transport_running i \<Longrightarrow> with_execution (execution_enqueue ev) i = Ok i' () \<Longrightarrow> life i'"
| received_depth: "life i \<Longrightarrow> sa_transport_running i \<Longrightarrow> with_market_data (market_enqueue ev) i = Ok i' () \<Longrightarrow> life i'"
| requested: "life i \<Longrightarrow> adapter_request r i = Ok i' () \<Longrightarrow> life i'"
| polled: "life i \<Longrightarrow> adapter_pollOrders now i = Ok i' () \<Longrightarrow> life i'"
| polled_market: "life i \<Longrightarrow> adapter_pollMarket i = Ok i' () \<Longrightarrow> life i'"
| waited: "life i \<Longrightarrow> adapter_waitUntilReady woken i = Ok i' () \<Longrightarrow> life i'"
| waited_in_vain: "life i \<Longrightarrow> adapter_waitUntilReady woken i = Throw i' e \<Longrightarrow> life i'"
| quiesced: "life i \<Longrightarrow> life (adapter_quiesce woken i)"
| stopped: "life i \<Longrightarrow> adapter_stop i = Ok i' () \<Longrightarrow> life i'"

definition adapter_idle :: "simnow_adapter \<Rightarrow> bool" where
  "adapter_idle i \<longleftrightarrow> \<not> nc_active (sa_control i) \<and> \<not> sx_ready (sa_execution i) \<and> \<not> sa_gateway_handled i \<and>
     \<not> sa_gateway_polled i \<and> \<not> sa_market_polled i \<and> \<not> sa_transport_running i \<and>
     (sa_used i \<longrightarrow> nc_stopping (sa_control i))"

definition life_inv :: "simnow_adapter \<Rightarrow> bool" where
  "life_inv i \<longleftrightarrow> (sa_started i \<longrightarrow> sa_used i) \<and> (\<not> sa_started i \<longrightarrow> adapter_idle i)"

lemma adapter_stop_Ok: "adapter_stop i = Ok i' () \<Longrightarrow> sa_started i \<Longrightarrow> sa_used i \<Longrightarrow> life_inv i' \<and> \<not> sa_started i'"
  by (auto simp: adapter_stop_def with_execution_state life_inv_def adapter_idle_def execution_ready split: if_splits)

lemma with_execution_started:
  "with_execution f i = Ok i' a \<Longrightarrow> sa_started i' = sa_started i \<and> sa_used i' = sa_used i"
  by (cases "f ((sa_execution i)\<lparr>sx_gateway := sa_gateway i, sx_transport := sa_transport i, sx_control := sa_control i\<rparr>)")
    (auto simp: with_execution_def)

lemma with_market_data_started:
  "with_market_data f i = Ok i' a \<Longrightarrow> sa_started i' = sa_started i \<and> sa_used i' = sa_used i"
  by (cases "f ((sa_market_data i)\<lparr>md_market := sa_market i, md_transport := sa_transport i, md_control := sa_control i\<rparr>)")
    (auto simp: with_market_data_def)

lemma started_inv: "sa_started i \<Longrightarrow> sa_used i \<Longrightarrow> life_inv i"
  by (simp add: life_inv_def)

lemma life_keeps: "life i \<Longrightarrow> life_inv i"
proof (induction rule: life.induct)
  case (created m g c sink t clock blank i)
  then show ?case
    by (auto simp: simnow_adapter_new_def bind_exn_Inr_iff simnow_execution_new_def life_inv_def adapter_idle_def
        simnow_control_init_def split: option.splits if_splits)
next
  case (prepared i failed i')
  then show ?case
    by (auto simp: adapter_prepare_def Let_def life_inv_def then_do_Ok_iff split: if_splits option.splits)
next
  case (not_prepared i failed i' e)
  show ?case
  proof (cases "failed = None \<or> i' = i")
    case True
    then show ?thesis using not_prepared by (auto simp: adapter_prepare_def Let_def split: if_splits)
  next
    case False
    let ?i = "i\<lparr>sa_started := True, sa_used := True, sa_gateway_handled := True, sa_gateway_polled := True,
        sa_market_polled := True, sa_transport_running := True\<rparr>"
    obtain x where x: "failed = Some x" using False by auto
    obtain k where k: "adapter_stop ?i = Ok k ()"
      using not_prepared False x by (auto simp: adapter_prepare_def adapter_stop_def with_execution_state split: if_splits)
    then have "i' = k" using not_prepared False x by (auto simp: adapter_prepare_def Let_def split: if_splits)
    then show ?thesis using adapter_stop_Ok[OF k] by simp
  qed
next
  case (workers i m g)
  then show ?case by (simp add: life_inv_def adapter_idle_def)
next
  case (received i ev i')
  then show ?case using with_execution_started[of "execution_enqueue ev"] by (auto simp: life_inv_def adapter_idle_def)
next
  case (received_depth i ev i')
  then show ?case using with_market_data_started[of "market_enqueue ev"] by (auto simp: life_inv_def adapter_idle_def)
next
  case (requested i r i')
  then show ?case
    using with_execution_started[of "execution_handleRequest r"]
    by (auto simp: adapter_request_def life_inv_def adapter_idle_def split: if_splits)
next
  case (polled i now i')
  then show ?case
    using with_execution_started[of "pollOrders now"]
    by (auto simp: adapter_pollOrders_def life_inv_def adapter_idle_def split: if_splits)
next
  case (polled_market i i')
  then show ?case
    using with_market_data_started[of "pollMarket"]
    by (auto simp: adapter_pollMarket_def life_inv_def adapter_idle_def split: if_splits)
next
  case (waited i woken i')
  then show ?case by (auto simp: adapter_waitUntilReady_def Let_def life_inv_def split: if_splits)
next
  case (waited_in_vain i woken i' e)
  then show ?case
    by (auto simp: adapter_waitUntilReady_def Let_def life_inv_def adapter_signal_def split: if_splits)
next
  case (quiesced i woken)
  then show ?case by (auto simp: adapter_quiesce_def Let_def life_inv_def adapter_signal_def)
next
  case (stopped i i')
  then show ?case using adapter_stop_Ok[of i i'] by (cases "sa_started i") (auto simp: adapter_stop_def life_inv_def split: if_splits)
qed

text \<open>C25: Through the whole life of an adapter, when it is not started (before the preparation, after a
  failed one, and after the stop) it is idle: not running, the venue disabled, no handler on either
  worker, no transport, and once it has been used new orders stay blocked. It can be prepared only
  once, cannot be stopped under a running worker, and a stop of an adapter that is not started
  changes nothing.\<close>

theorem adapter_lifecycle:
  assumes "life i"
  shows "(\<not> sa_started i \<longrightarrow> adapter_idle i) \<and>
    (sa_used i \<longrightarrow> adapter_prepare failed i = Throw i (Logic_error ''SimNow adapter cannot be prepared twice'')) \<and>
    (mc_running (sa_market i) \<or> og_running (sa_gateway i) \<longrightarrow>
       adapter_stop i = Throw i (Logic_error ''Join business workers before stopping SimNow'')) \<and>
    (\<not> sa_started i \<and> \<not> mc_running (sa_market i) \<and> \<not> og_running (sa_gateway i) \<longrightarrow> adapter_stop i = Ok i ()) \<and>
    (adapter_stop i = Ok i' () \<longrightarrow> adapter_idle i')"
proof -
  have inv: "life_inv i" using life_keeps[OF assms] .
  have "adapter_idle i'" if stop: "adapter_stop i = Ok i' ()"
  proof -
    have "life i'" using assms stop by (rule life.stopped)
    moreover have "\<not> sa_started i'"
      using stop inv adapter_stop_Ok[OF stop] by (cases "sa_started i") (auto simp: life_inv_def adapter_stop_def split: if_splits)
    ultimately show ?thesis using life_keeps[of i'] by (simp add: life_inv_def)
  qed
  with inv show ?thesis by (auto simp: life_inv_def adapter_prepare_def adapter_stop_def)
qed

definition demo_adapter_config :: simnow_config where
  "demo_adapter_config = demo_config\<lparr>sc_password := ''secret'', sc_auth_code := ''0'',
     sc_trading_front := ''tcp://t'', sc_market_front := ''tcp://m''\<rparr>"

lemma demo_adapter_exists:
  "\<exists>i. simnow_adapter_new (Some (md_market demo_market)) (Some demo_gateway) demo_adapter_config True
     (Some demo_transport) (\<lambda>_. 0) (ctp_emit Kind_Error None 0 True 0) = Inr i \<and>
     \<not> sa_used i \<and> \<not> mc_running (sa_market i) \<and> \<not> og_running (sa_gateway i)"
  by (simp add: simnow_adapter_new_def bind_exn_def lf_queue_new_def demo_adapter_config_def demo_config_def
      simnow_config_init_def ME_MAX_TICKERS_def starts_with_def simnow_market_data_new_def simnow_execution_new_def
      demo_market_def market_data_consumer_new_def demo_gateway_def order_gateway_new_def)

lemma adapter_lifecycle_witness:
  "\<exists>i i'. life i \<and> sa_started i \<and> adapter_stop i = Ok i' () \<and> adapter_idle i' \<and>
     adapter_prepare None i = Throw i (Logic_error ''SimNow adapter cannot be prepared twice'')"
proof -
  obtain i0 where i0: "life i0" "\<not> sa_used i0" "\<not> mc_running (sa_market i0)" "\<not> og_running (sa_gateway i0)"
    using demo_adapter_exists life.created by blast
  obtain i1 where i1: "adapter_prepare None i0 = Ok i1 ()" "sa_started i1" "sa_used i1"
      "\<not> mc_running (sa_market i1)" "\<not> og_running (sa_gateway i1)"
    using i0 by (simp add: adapter_prepare_def Let_def)
  obtain i2 where i2: "adapter_stop i1 = Ok i2 ()"
    using i1 by (auto simp: adapter_stop_def with_execution_state)
  have life: "life i1" using i0(1) i1(1) by (rule life.prepared)
  from adapter_lifecycle[OF life] i1(2,3) i2 life show ?thesis by blast
qed

end
