(* ===== verification/BinanceRest.thy ===== *)
theory BinanceRest
  imports Text Json PositionKeeper
begin

text \<open>
  The REST side of \<open>trading/venue/binance/binance_um_futures_adapter.cpp\<close>: the configuration file, the
  signed and unsigned requests with their retry, the checks of the start-up, and the mapping of orders.
  The transfer itself (libcurl), the HMAC and JSON are not part of the repository: the record \<open>web\<close>
  holds what the \<open>n\<close>-th transfer gives and logs the requests, the HMAC is the parameter \<open>hmac\<close>, which
  gives the bytes of the digest. Milliseconds are \<open>std::int64_t\<close>; their overflow is undefined.
\<close>

section \<open>Transfers\<close>

record http_request =
  hr_method :: string
  hr_url :: string
  hr_key :: "string option"
  hr_timeout_ms :: nat

datatype http_result =
    Curl_no_handle
  | Curl_failed bool string
  | Curl_done int string

text \<open>\<open>Curl_failed True\<close> is a timeout.\<close>

record web =
  wb_result :: "nat \<Rightarrow> http_result"
  wb_log :: "http_request list"
  wb_now :: "nat \<Rightarrow> int"
  wb_ticks :: nat

definition http_send :: "http_request \<Rightarrow> web \<Rightarrow> web \<times> http_result" where
  "http_send r w = (w\<lparr>wb_log := wb_log w @ [r]\<rparr>, wb_result w (length (wb_log w)))"

definition read_ms :: "web \<Rightarrow> web \<times> int" where
  "read_ms w = (w\<lparr>wb_ticks := wb_ticks w + 1\<rparr>, wb_now w (wb_ticks w))"

definition int64 :: "int \<Rightarrow> (int \<Rightarrow> ('s, 'a) outcome) \<Rightarrow> ('s, 'a) outcome" where
  "int64 i f = (if - (2 ^ 63) \<le> i \<and> i < 2 ^ 63 then f i else Undef)"

section \<open>Configuration\<close>

record binance_config =
  bc_api_key :: string
  bc_secret_key :: string
  bc_symbol :: string
  bc_leverage :: "32 word"
  bc_margin_type :: string
  bc_ticker_id :: ticker_id

definition binance_config_init :: binance_config where
  "binance_config_init =
     \<lparr>bc_api_key = [], bc_secret_key = [], bc_symbol = [], bc_leverage = 1, bc_margin_type = ''ISOLATED'',
      bc_ticker_id = TickerId_INVALID\<rparr>"

definition env_line :: "string \<Rightarrow> (string \<rightharpoonup> string) \<Rightarrow> (string \<rightharpoonup> string)" where
  "env_line raw values =
     (let line = trim raw
      in if line = [] \<or> hd line = CHR ''#'' \<or> CHR ''='' \<notin> set line then values
         else values(trim (takeWhile (\<lambda>c. c \<noteq> CHR ''='') line) \<mapsto>
                     trim (tl (dropWhile (\<lambda>c. c \<noteq> CHR ''='') line))))"

definition required :: "(string \<rightharpoonup> string) \<Rightarrow> string \<Rightarrow> exn + string" where
  "required values key =
     (case values key of
        Some (c # cs) \<Rightarrow> Inr (c # cs)
      | _ \<Rightarrow> Inl (Runtime_error (''Missing .env value: '' @ key)))"

text \<open>The file: \<open>None\<close> when it cannot be opened, else its lines.\<close>

definition loadConfigFromEnv :: "string \<Rightarrow> string list option \<Rightarrow> ticker_id \<Rightarrow> exn + binance_config" where
  "loadConfigFromEnv path file ticker =
     (case file of
        None \<Rightarrow> Inl (Runtime_error (''Cannot open Binance .env: '' @ path))
      | Some lines \<Rightarrow>
          let values = fold env_line lines Map.empty
          in bind_exn (required values ''BINANCE_UM_FUTURES_API_KEY'') (\<lambda>api_key.
             bind_exn (required values ''BINANCE_UM_FUTURES_SECRET_KEY'') (\<lambda>secret_key.
             bind_exn (required values ''BINANCE_UM_FUTURES_SYMBOLS'') (\<lambda>symbol.
             if CHR '','' \<in> set symbol then Inl (Runtime_error ''The first Binance adapter supports one symbol'')
             else
             bind_exn (required values ''BINANCE_UM_FUTURES_MARGIN_TYPE'') (\<lambda>margin_type.
             bind_exn (bind_exn (required values ''BINANCE_UM_FUTURES_LEVERAGE'') stoull) (\<lambda>(leverage, _).
             if (ucast leverage :: 32 word) = 0 then Inl (Runtime_error ''Leverage must be positive'')
             else Inr \<lparr>bc_api_key = api_key, bc_secret_key = secret_key, bc_symbol = symbol,
                        bc_leverage = ucast leverage, bc_margin_type = margin_type, bc_ticker_id = ticker\<rparr>))))))"

section \<open>Orders and states\<close>

record binance_order =
  bo_symbol :: string
  bo_side :: string
  bo_type :: string
  bo_quantity :: string
  bo_price :: string
  bo_time_in_force :: string
  bo_reduce_only :: bool
  bo_new_client_order_id :: string

definition sideString :: "side \<Rightarrow> exn + string" where
  "sideString s =
     (if s = BUY then Inr ''BUY'' else if s = SELL then Inr ''SELL''
      else Inl (Invalid_argument ''Invalid order side''))"

definition mapOrder :: "client_request \<Rightarrow> binance_config \<Rightarrow> exn + binance_order" where
  "mapOrder r c =
     (if rq_ticker_id r \<noteq> bc_ticker_id c
      then Inl (Invalid_argument ''Request ticker does not match Binance symbol'')
      else if rq_type r \<noteq> Request_NEW then Inl (Invalid_argument ''Only NEW requests can be mapped as orders'')
      else
        bind_exn (sideString (rq_side r)) (\<lambda>side.
        if rq_order_type r \<noteq> LIMIT \<and> rq_order_type r \<noteq> MARKET
        then Inl (Invalid_argument ''Unsupported Binance order type'')
        else if rq_qty r = Qty_INVALID then Inl (Invalid_argument ''Invalid order quantity'')
        else Inr \<lparr>bo_symbol = bc_symbol c, bo_side = side, bo_type = orderTypeToString (rq_order_type r),
                  bo_quantity = show_u (rq_qty r), bo_price = show_s (rq_price r),
                  bo_time_in_force = (if rq_order_type r = LIMIT then ''GTC'' else []),
                  bo_reduce_only = (rq_offset r \<noteq> OPEN), bo_new_client_order_id = show_u (rq_order_id r)\<rparr>))"

definition mapOrderStatus :: "string \<Rightarrow> client_response_type" where
  "mapOrderStatus status =
     (if status = ''FILLED'' then FILLED
      else if status = ''CANCELED'' \<or> status = ''EXPIRED'' \<or> status = ''EXPIRED_IN_MATCH'' then CANCELED
      else if status = ''PARTIALLY_FILLED'' \<or> status = ''NEW'' then ACCEPTED
      else REJECTED)"

definition adjustedTimestamp :: "int \<Rightarrow> int \<Rightarrow> (int \<Rightarrow> ('s, 'a) outcome) \<Rightarrow> ('s, 'a) outcome" where
  "adjustedTimestamp local_time_ms server_offset_ms = int64 (local_time_ms + server_offset_ms)"

definition lower_char :: "char \<Rightarrow> char" where
  "lower_char c = (let n = of_char c :: nat in if 65 \<le> n \<and> n \<le> 90 then char_of (n + 32) else c)"

definition lowerSymbol :: "string \<Rightarrow> string" where
  "lowerSymbol = map lower_char"

section \<open>Requests\<close>

type_synonym hmac = "string \<Rightarrow> string \<Rightarrow> 8 word list"

definition hmacSha256 :: "hmac \<Rightarrow> string \<Rightarrow> string \<Rightarrow> string" where
  "hmacSha256 hmac payload secret = hex_text (hmac secret payload)"

definition base_url :: string where
  "base_url = ''https://demo-fapi.binance.com''"

fun query_text :: "(string \<times> string) list \<Rightarrow> string \<Rightarrow> string" where
  "query_text [] q = q"
| "query_text ((key, val) # ps) q = query_text ps ((if q = [] then [] else q @ ''&'') @ key @ ''='' @ val)"

definition signed_query :: "hmac \<Rightarrow> binance_config \<Rightarrow> (string \<times> string) list \<Rightarrow> int \<Rightarrow> string" where
  "signed_query hmac c params timestamp =
     (let q = query_text params [] @ ''&recvWindow=10000&timestamp='' @ show_int timestamp
      in q @ ''&signature='' @ hmacSha256 hmac q (bc_secret_key c))"

text \<open>\<open>n\<close> is the number of attempts left; only a timeout with another attempt left goes on.\<close>

primrec signed_attempts :: "'j json_api \<Rightarrow> hmac \<Rightarrow> nat \<Rightarrow> string \<Rightarrow> string \<Rightarrow> (string \<times> string) list \<Rightarrow> binance_config \<Rightarrow>
    int \<Rightarrow> web \<Rightarrow> (web, 'j) outcome" where
  "signed_attempts J hmac 0 verb path params c offset w = Throw w (Logic_error ''Binance request attempts exhausted'')"
| "signed_attempts J hmac (Suc n) verb path params c offset w =
     (let (w, now) = read_ms w
      in adjustedTimestamp now offset (\<lambda>timestamp.
         let (w, result) = http_send \<lparr>hr_method = verb,
                             hr_url = base_url @ path @ ''?'' @ signed_query hmac c params timestamp,
                             hr_key = Some (bc_api_key c), hr_timeout_ms = 5000\<rparr> w
         in case result of
              Curl_no_handle \<Rightarrow> Throw w (Runtime_error ''curl initialization failed'')
            | Curl_failed timed_out message \<Rightarrow>
                if timed_out \<and> n > 0 then signed_attempts J hmac n verb path params c offset w
                else Throw w (Runtime_error (''Binance '' @ path @ '' request failed: '' @ message))
            | Curl_done status body \<Rightarrow>
                if status < 200 \<or> status \<ge> 300
                then Throw w (Runtime_error (''Binance REST HTTP '' @ show_int status @ '': '' @ body))
                else try_with w (js_parse J body) (Ok w)))"

definition signedRequest :: "'j json_api \<Rightarrow> hmac \<Rightarrow> string \<Rightarrow> string \<Rightarrow> (string \<times> string) list \<Rightarrow> binance_config \<Rightarrow>
    int \<Rightarrow> web \<Rightarrow> (web, 'j) outcome" where
  "signedRequest J hmac verb = signed_attempts J hmac (if verb = ''GET'' then 2 else 1) verb"

text \<open>A GET without a signature, at most \<open>n\<close> times; \<open>prefix\<close> and \<open>status_text\<close> are its messages.\<close>

primrec plain_get :: "nat \<Rightarrow> string \<Rightarrow> string \<Rightarrow> string \<Rightarrow> string \<Rightarrow> web \<Rightarrow> (web, string) outcome" where
  "plain_get 0 url failed status_text exhausted w = Throw w (Logic_error exhausted)"
| "plain_get (Suc n) url failed status_text exhausted w =
     (let (w, result) = http_send \<lparr>hr_method = ''GET'', hr_url = url, hr_key = None, hr_timeout_ms = 5000\<rparr> w
      in case result of
           Curl_no_handle \<Rightarrow> Throw w (Runtime_error ''curl initialization failed'')
         | Curl_failed timed_out message \<Rightarrow>
             if timed_out \<and> n > 0 then plain_get n url failed status_text exhausted w
             else Throw w (Runtime_error (failed @ message))
         | Curl_done status body \<Rightarrow>
             if status \<noteq> 200 then Throw w (Runtime_error (status_text @ show_int status)) else Ok w body)"

definition fetchDepth :: "'j json_api \<Rightarrow> string \<Rightarrow> web \<Rightarrow> (web, 'j) outcome" where
  "fetchDepth J symbol w =
     then_do (plain_get 2 (base_url @ ''/fapi/v1/depth?symbol='' @ symbol @ ''&limit=1000'')
               ''depth request failed: '' ''depth returned HTTP '' ''Binance depth attempts exhausted'' w)
       (\<lambda>w body. try_with w (js_parse J body) (Ok w))"

text \<open>The server's clock against the middle of the transfer; the division of C++ truncates.\<close>

definition clock_offset :: "int \<Rightarrow> int \<Rightarrow> int \<Rightarrow> web \<Rightarrow> (web, int) outcome" where
  "clock_offset server_time start_ms end_ms w =
     int64 (end_ms - start_ms) (\<lambda>d.
     int64 (start_ms + (if d < 0 then - (- d div 2) else d div 2)) (\<lambda>middle.
     int64 (server_time - middle) (Ok w)))"

primrec time_attempts :: "'j json_api \<Rightarrow> nat \<Rightarrow> web \<Rightarrow> (web, int) outcome" where
  "time_attempts J 0 w = Throw w (Logic_error ''Binance time attempts exhausted'')"
| "time_attempts J (Suc n) w =
     (let (w, start_ms) = read_ms w;
          (w, result) = http_send \<lparr>hr_method = ''GET'', hr_url = base_url @ ''/fapi/v1/time'', hr_key = None,
                                   hr_timeout_ms = 5000\<rparr> w
      in case result of
           Curl_no_handle \<Rightarrow> Throw w (Runtime_error ''curl initialization failed'')
         | Curl_failed timed_out message \<Rightarrow>
             let (w, _) = read_ms w
             in if timed_out \<and> n > 0 then time_attempts J n w
                else Throw w (Runtime_error (''Binance time request failed: '' @ message))
         | Curl_done status body \<Rightarrow>
             let (w, end_ms) = read_ms w
             in if status \<noteq> 200 then Throw w (Runtime_error (''Binance time returned HTTP '' @ show_int status))
                else try_with w (bind_exn (js_parse J body) (\<lambda>j. bind_exn (js_at J j ''serverTime'') (js_i64 J)))
                       (\<lambda>server. clock_offset (sint server) start_ms end_ms w))"

definition fetchServerTimeOffset :: "'j json_api \<Rightarrow> web \<Rightarrow> (web, int) outcome" where
  "fetchServerTimeOffset J = time_attempts J 2"

definition keyed_request :: "string \<Rightarrow> string \<Rightarrow> string \<Rightarrow> binance_config \<Rightarrow> web \<Rightarrow> (web, string) outcome" where
  "keyed_request verb url failed c w =
     (let (w, result) = http_send \<lparr>hr_method = verb, hr_url = url, hr_key = Some (bc_api_key c), hr_timeout_ms = 5000\<rparr> w
      in case result of
           Curl_no_handle \<Rightarrow> Throw w (Runtime_error ''curl initialization failed'')
         | Curl_failed _ _ \<Rightarrow> Throw w (Runtime_error failed)
         | Curl_done status body \<Rightarrow>
             if status < 200 \<or> status \<ge> 300 then Throw w (Runtime_error failed) else Ok w body)"

definition createListenKey :: "'j json_api \<Rightarrow> binance_config \<Rightarrow> web \<Rightarrow> (web, string) outcome" where
  "createListenKey J c w =
     then_do (keyed_request ''POST'' (base_url @ ''/fapi/v1/listenKey'') ''listenKey creation failed'' c w)
       (\<lambda>w body. try_with w (bind_exn (js_parse J body) (\<lambda>j. js_get_text J j ''listenKey'')) (Ok w))"

definition keepListenKey :: "binance_config \<Rightarrow> string \<Rightarrow> web \<Rightarrow> (web, unit) outcome" where
  "keepListenKey c key w =
     then_do (keyed_request ''PUT'' (base_url @ ''/fapi/v1/listenKey?listenKey='' @ key) ''listenKey keepalive failed'' c w)
       (\<lambda>w _. Ok w ())"

section \<open>Checks of the start-up\<close>

fun check_symbols :: "'j json_api \<Rightarrow> string \<Rightarrow> 'j list \<Rightarrow> exn + unit" where
  "check_symbols J symbol [] = Inl (Runtime_error ''Configured Binance symbol was not found in exchangeInfo'')"
| "check_symbols J symbol (item # items) =
     bind_exn (js_value J (js_text J) item ''symbol'' []) (\<lambda>name.
       if name \<noteq> symbol then check_symbols J symbol items
       else bind_exn (js_value J (js_text J) item ''status'' []) (\<lambda>status.
         if status \<noteq> ''TRADING'' then Inl (Runtime_error ''Configured Binance symbol is not TRADING'')
         else if \<not> js_contains J item ''filters'' then Inl (Runtime_error ''exchangeInfo has no filters'')
         else Inr ()))"

definition validateExchangeInfo :: "'j json_api \<Rightarrow> string \<Rightarrow> web \<Rightarrow> (web, unit) outcome" where
  "validateExchangeInfo J symbol w =
     (let (w, result) = http_send \<lparr>hr_method = ''GET'', hr_url = base_url @ ''/fapi/v1/exchangeInfo'', hr_key = None,
                                   hr_timeout_ms = 30000\<rparr> w
      in case result of
           Curl_no_handle \<Rightarrow> Throw w (Runtime_error ''curl initialization failed'')
         | Curl_failed _ message \<Rightarrow> Throw w (Runtime_error (''exchangeInfo request failed: '' @ message))
         | Curl_done status body \<Rightarrow>
             if status \<noteq> 200 then Throw w (Runtime_error (''exchangeInfo returned HTTP '' @ show_int status))
             else try_with w (bind_exn (js_parse J body) (\<lambda>j. bind_exn (js_at J j ''symbols'') (\<lambda>symbols.
                    check_symbols J symbol (js_elements J symbols)))) (Ok w))"

definition check_risk :: "'j json_api \<Rightarrow> binance_config \<Rightarrow> 'j \<Rightarrow> exn + unit" where
  "check_risk J c risk =
     (case (if js_is_array J risk then js_elements J risk else []) of
        [] \<Rightarrow> Inl (Runtime_error ''Binance position risk response is empty'')
      | position # _ \<Rightarrow>
          bind_exn (js_value J (js_text J) position ''marginType'' []) (\<lambda>margin_type.
          bind_exn (js_value J (js_text J) position ''leverage'' []) (\<lambda>leverage.
          if margin_type \<noteq> bc_margin_type c
          then Inl (Runtime_error ''Binance margin type does not match configuration'')
          else if leverage \<noteq> show_u (bc_leverage c)
          then Inl (Runtime_error ''Binance leverage does not match configuration'')
          else Inr ())))"

definition validateAccountConfiguration :: "'j json_api \<Rightarrow> hmac \<Rightarrow> binance_config \<Rightarrow> int \<Rightarrow> web \<Rightarrow> (web, unit) outcome" where
  "validateAccountConfiguration J hmac c offset w =
     then_do (signedRequest J hmac ''GET'' ''/fapi/v1/positionSide/dual'' [] c offset w) (\<lambda>w mode.
     try_with w (js_value J (js_boolean J) mode ''dualSidePosition'' True) (\<lambda>dual.
     if dual then Throw w (Runtime_error ''Binance account must use one-way position mode'')
     else then_do (signedRequest J hmac ''GET'' ''/fapi/v2/positionRisk'' [(''symbol'', bc_symbol c)] c offset w) (\<lambda>w risk.
          try_with w (check_risk J c risk) (Ok w))))"

end
