(* ===== verification/BinanceAdapter.thy ===== *)
theory BinanceAdapter
  imports BinanceRest DepthFeed Gateways
begin

text \<open>
  The adapter of \<open>trading/venue/binance/binance_um_futures_adapter.{h,cpp}\<close>: the start-up, the two polls,
  the events of the user stream and the requests of the gateway. The web socket streams have
  their own theory \<open>WebSocketStream\<close>: here, whether they connect is a parameter, and what they deliver is
  put into the event queues by \<open>depth_message\<close> and \<open>user_message\<close>. The keep-alive thread is the function of one of its rounds.
\<close>

section \<open>State\<close>

record 'j binance_adapter =
  bn_market :: "market_data_consumer option"
  bn_gateway :: "order_gateway option"
  bn_config :: binance_config
  bn_running :: bool
  bn_lifecycle_started :: bool
  bn_used :: bool
  bn_offset :: int
  bn_depth_stream :: bool
  bn_user_stream :: bool
  bn_listen_key :: string
  bn_keepalive_running :: bool
  bn_account_state :: 'j
  bn_book :: "'j depth_book"
  bn_depth_events :: "'j lf_queue"
  bn_user_events :: "'j lf_queue"
  bn_snapshot_pending :: bool
  bn_live_orders :: "order_id \<rightharpoonup> client_request"
  bn_cumulative :: "order_id \<rightharpoonup> qty"
  bn_web :: web
  bn_request_handler :: bool
  bn_order_poll :: bool
  bn_market_poll :: bool

definition binance_queue :: "'j json_api \<Rightarrow> 'j lf_queue" where
  "binance_queue J = \<lparr>lq_store = (\<lambda>_. js_null J), lq_capacity = 1024, lq_next_write = 0, lq_next_read = 0, lq_num_elements = 0\<rparr>"

definition binance_adapter_new :: "'j json_api \<Rightarrow> market_data_consumer option \<Rightarrow> order_gateway option \<Rightarrow>
    binance_config \<Rightarrow> web \<Rightarrow> 'j binance_adapter" where
  "binance_adapter_new J m g c w =
     \<lparr>bn_market = m, bn_gateway = g, bn_config = c, bn_running = False, bn_lifecycle_started = False, bn_used = False,
      bn_offset = 0, bn_depth_stream = False, bn_user_stream = False, bn_listen_key = [],
      bn_keepalive_running = False, bn_account_state = js_null J, bn_book = depth_book_new J,
      bn_depth_events = binance_queue J, bn_user_events = binance_queue J, bn_snapshot_pending = False,
      bn_live_orders = Map.empty, bn_cumulative = Map.empty, bn_web = w,
      bn_request_handler = False, bn_order_poll = False, bn_market_poll = False\<rparr>"

section \<open>Life cycle\<close>

definition on_web :: "'j binance_adapter \<Rightarrow> (web, 'a) outcome \<Rightarrow> ('j binance_adapter, 'a) outcome" where
  "on_web i = on_part (\<lambda>w. i\<lparr>bn_web := w\<rparr>)"

text \<open>The message handlers of the streams: a full queue ends the process.\<close>

definition depth_message :: "'j \<Rightarrow> 'j binance_adapter \<Rightarrow> ('j binance_adapter, unit) outcome" where
  "depth_message m i = on_part (\<lambda>q. i\<lparr>bn_depth_events := q\<rparr>) (lq_enqueue m (bn_depth_events i))"

definition user_message :: "'j \<Rightarrow> 'j binance_adapter \<Rightarrow> ('j binance_adapter, unit) outcome" where
  "user_message m i = on_part (\<lambda>q. i\<lparr>bn_user_events := q\<rparr>) (lq_enqueue m (bn_user_events i))"

definition worker_running :: "'j binance_adapter \<Rightarrow> bool" where
  "worker_running i \<longleftrightarrow> (case bn_market i of None \<Rightarrow> False | Some m \<Rightarrow> mc_running m) \<or>
     (case bn_gateway i of None \<Rightarrow> False | Some g \<Rightarrow> og_running g)"

text \<open>The stages up to the depth snapshot, then those up to the user stream.\<close>

definition prepare_depth :: "'j json_api \<Rightarrow> hmac \<Rightarrow> bool \<Rightarrow> 'j binance_adapter \<Rightarrow> ('j binance_adapter, unit) outcome" where
  "prepare_depth J hmac depth_connected i =
     then_do (on_web i (validateExchangeInfo J (bc_symbol (bn_config i)) (bn_web i))) (\<lambda>i _.
     then_do (on_web i (fetchServerTimeOffset J (bn_web i))) (\<lambda>i offset.
     let i = i\<lparr>bn_offset := offset\<rparr>
     in then_do (on_web i (validateAccountConfiguration J hmac (bn_config i) (bn_offset i) (bn_web i))) (\<lambda>i _.
        let i = i\<lparr>bn_depth_stream := True\<rparr>
        in if \<not> depth_connected then Throw i (Runtime_error ''Binance depth WebSocket did not connect'')
           else then_do (on_web i (fetchDepth J (bc_symbol (bn_config i)) (bn_web i))) (\<lambda>i depth.
                then_do (on_part (\<lambda>b. i\<lparr>bn_book := b\<rparr>) (installSnapshot J depth (bn_book i))) (\<lambda>i _.
                Ok (i\<lparr>bn_snapshot_pending := True\<rparr>) ())))))"

definition prepare_user :: "'j json_api \<Rightarrow> bool \<Rightarrow> 'j binance_adapter \<Rightarrow> ('j binance_adapter, unit) outcome" where
  "prepare_user J user_connected i =
     then_do (on_web i (createListenKey J (bn_config i) (bn_web i))) (\<lambda>i key.
     let i = i\<lparr>bn_listen_key := key, bn_user_stream := True\<rparr>
     in if \<not> user_connected then Throw i (Runtime_error ''Binance user WebSocket did not connect'')
        else Ok (i\<lparr>bn_keepalive_running := True, bn_request_handler := True, bn_order_poll := True,
                   bn_market_poll := True, bn_running := True\<rparr>) ())"

definition binance_prepare :: "'j json_api \<Rightarrow> hmac \<Rightarrow> bool \<Rightarrow> bool \<Rightarrow> 'j binance_adapter \<Rightarrow>
    ('j binance_adapter, unit) outcome" where
  "binance_prepare J hmac depth_connected user_connected i =
     (if bn_used i then Throw i (Logic_error ''Binance adapter cannot be prepared twice'')
      else if worker_running i then Throw i (Logic_error ''Prepare Binance before starting business workers'')
      else
        let i = i\<lparr>bn_used := True, bn_lifecycle_started := True\<rparr>
        in if bn_market i = None \<or> bn_gateway i = None
           then Throw i (Runtime_error ''Binance adapter requires market data and order gateway'')
           else if bc_symbol (bn_config i) = [] \<or> bc_ticker_id (bn_config i) = TickerId_INVALID
           then Throw i (Runtime_error ''Binance adapter configuration is incomplete'')
           else then_do (prepare_depth J hmac depth_connected i) (\<lambda>i _. prepare_user J user_connected i))"

text \<open>One second of the keep-alive thread at \<open>tick\<close>: the tick of the next one.\<close>

definition keepalive_round :: "nat \<Rightarrow> 'j binance_adapter \<Rightarrow> ('j binance_adapter, nat) outcome" where
  "keepalive_round tick i =
     (if tick < 1799 \<or> \<not> bn_keepalive_running i then Ok i (tick + 1)
      else case on_web i (keepListenKey (bn_config i) (bn_listen_key i) (bn_web i)) of
             Ok i _ \<Rightarrow> Ok i 1
           | Throw i e \<Rightarrow> Abort ''terminate''
           | Abort m \<Rightarrow> Abort m | Hang \<Rightarrow> Hang | Undef \<Rightarrow> Undef)"

definition binance_stop :: "'j binance_adapter \<Rightarrow> ('j binance_adapter, unit) outcome" where
  "binance_stop i =
     (if worker_running i then Throw i (Logic_error ''Join business workers before stopping Binance'')
      else Ok (i\<lparr>bn_lifecycle_started := False, bn_running := False, bn_keepalive_running := False,
                 bn_request_handler := (bn_request_handler i \<and> bn_gateway i = None),
                 bn_order_poll := (bn_order_poll i \<and> bn_gateway i = None),
                 bn_market_poll := (bn_market_poll i \<and> bn_market i = None)\<rparr>) ())"

section \<open>Polls\<close>

definition publish_book :: "'j binance_adapter \<Rightarrow> ('j binance_adapter, unit) outcome" where
  "publish_book i =
     deref (bn_market i) (\<lambda>m.
     deref (buildMarketUpdate (bc_ticker_id (bn_config i)) (bn_book i)) (\<lambda>u.
     on_part (\<lambda>m. i\<lparr>bn_market := Some m\<rparr>) (publishMarketUpdate u m)))"

primrec depth_batch :: "'j json_api \<Rightarrow> nat \<Rightarrow> 'j binance_adapter \<Rightarrow> ('j binance_adapter, unit) outcome" where
  "depth_batch J 0 i = Ok i ()"
| "depth_batch J (Suc n) i =
     (case lq_peek (bn_depth_events i) of
        None \<Rightarrow> Ok i ()
      | Some message \<Rightarrow>
          then_do (on_part (\<lambda>b. i\<lparr>bn_book := b\<rparr>) (onDepthEvent J message (bn_book i))) (\<lambda>i _.
          then_do (if db_snapshot_ready (bn_book i) then publish_book i else Ok i ()) (\<lambda>i _.
          then_do (on_part (\<lambda>q. i\<lparr>bn_depth_events := q\<rparr>) (updateReadIndex (bn_depth_events i))) (\<lambda>i _.
          depth_batch J n i))))"

definition binance_pollMarket :: "'j json_api \<Rightarrow> 'j binance_adapter \<Rightarrow> ('j binance_adapter, unit) outcome" where
  "binance_pollMarket J i =
     then_do (if bn_snapshot_pending i
              then then_do (publish_book i) (\<lambda>i _. Ok (i\<lparr>bn_snapshot_pending := False\<rparr>) ()) else Ok i ())
       (\<lambda>i _. depth_batch J 256 i)"

section \<open>Responses\<close>

definition binance_publish :: "client_response \<Rightarrow> 'j binance_adapter \<Rightarrow> ('j binance_adapter, unit) outcome" where
  "binance_publish r i =
     deref (bn_gateway i) (\<lambda>g.
       on_part (\<lambda>g. i\<lparr>bn_gateway := Some g\<rparr>) (publishClientResponse (og_next_expected g) r g))"

text \<open>What every response copies from its request.\<close>

definition answer :: "client_request \<Rightarrow> client_response_type \<Rightarrow> order_id \<Rightarrow> qty \<Rightarrow> qty \<Rightarrow> client_response" where
  "answer r type venue_id executed leaves =
     client_response_init
       \<lparr>rs_type := type, rs_client_id := rq_client_id r, rs_ticker_id := rq_ticker_id r,
        rs_client_order_id := rq_order_id r, rs_venue_order_id := venue_id, rs_side := rq_side r,
        rs_price := rq_price r, rs_exec_qty := executed, rs_leaves_qty := leaves,
        rs_order_type := rq_order_type r, rs_offset := rq_offset r\<rparr>"

text \<open>The conversion of the cumulative quantity: outside \<open>std::uint32_t\<close> it is undefined.\<close>

definition cumulative_of :: "string \<Rightarrow> (exn + qty) option" where
  "cumulative_of s =
     (case stod s of
        Inl e \<Rightarrow> Some (Inl e)
      | Inr d \<Rightarrow> map_option (\<lambda>n. Inr (of_int n)) (to_integer 0 (2 ^ 32 - 1) (f64_of_bits d)))"

definition order_update :: "'j json_api \<Rightarrow> 'j \<Rightarrow> 'j binance_adapter \<Rightarrow> ('j binance_adapter, unit) outcome" where
  "order_update J order i =
     try_with i (bind_exn (js_value J (js_text J) order ''c'' ''0'') stoull) (\<lambda>(client_order_id, _).
     case bn_live_orders i client_order_id of
       None \<Rightarrow> Ok i ()
     | Some r \<Rightarrow>
         try_with i (js_value J (js_text J) order ''z'' ''0'') (\<lambda>z.
         deref (cumulative_of z) (\<lambda>c. try_with i c (\<lambda>cumulative.
         let previous = (case bn_cumulative i client_order_id of None \<Rightarrow> 0 | Some q \<Rightarrow> q);
             i = i\<lparr>bn_cumulative := (bn_cumulative i)(client_order_id \<mapsto> previous)\<rparr>
         in if cumulative \<le> previous then Ok i ()
            else
              let i = i\<lparr>bn_cumulative := (bn_cumulative i)(client_order_id \<mapsto> cumulative)\<rparr>
              in try_with i (js_value J (js_text J) order ''X'' ''NEW'') (\<lambda>status.
                 try_with i (js_value J (js_u64 J) order ''i'' OrderId_INVALID) (\<lambda>venue_id.
                 let response = (answer r (mapOrderStatus status) venue_id cumulative
                       (if rq_qty r > cumulative then rq_qty r - cumulative else 0))
                       \<lparr>rs_client_order_id := client_order_id\<rparr>
                 in then_do (binance_publish response i) (\<lambda>i _.
                    Ok (if rs_type response \<in> {FILLED, CANCELED, REJECTED}
                        then i\<lparr>bn_live_orders := (bn_live_orders i)(client_order_id := None)\<rparr> else i) ())))))))"

definition handleUserEvent :: "'j json_api \<Rightarrow> 'j \<Rightarrow> 'j binance_adapter \<Rightarrow> ('j binance_adapter, unit) outcome" where
  "handleUserEvent J message i =
     try_with i (js_value J (js_text J) message ''e'' []) (\<lambda>event.
       if event = ''listenKeyExpired'' then Abort ''terminate''
       else if event = ''ORDER_TRADE_UPDATE''
       then try_with i (js_at J message ''o'') (\<lambda>order. order_update J order i)
       else if event = ''ACCOUNT_UPDATE'' then Ok (i\<lparr>bn_account_state := message\<rparr>) ()
       else Ok i ())"

primrec user_batch :: "'j json_api \<Rightarrow> nat \<Rightarrow> 'j binance_adapter \<Rightarrow> ('j binance_adapter, unit) outcome" where
  "user_batch J 0 i = Ok i ()"
| "user_batch J (Suc n) i =
     (case lq_peek (bn_user_events i) of
        None \<Rightarrow> Ok i ()
      | Some message \<Rightarrow>
          then_do (handleUserEvent J message i) (\<lambda>i _.
          then_do (on_part (\<lambda>q. i\<lparr>bn_user_events := q\<rparr>) (updateReadIndex (bn_user_events i))) (\<lambda>i _.
          user_batch J n i)))"

definition binance_pollOrders :: "'j json_api \<Rightarrow> 'j binance_adapter \<Rightarrow> ('j binance_adapter, unit) outcome" where
  "binance_pollOrders J = user_batch J 256"

section \<open>Requests\<close>

definition publishRejected :: "client_request \<Rightarrow> 'j binance_adapter \<Rightarrow> ('j binance_adapter, unit) outcome" where
  "publishRejected r =
     binance_publish (answer r (if rq_type r = Request_CANCEL then CANCEL_REJECTED else REJECTED)
       OrderId_INVALID 0 (rq_qty r))"

definition order_params :: "binance_order \<Rightarrow> (string \<times> string) list" where
  "order_params b =
     [(''symbol'', bo_symbol b), (''side'', bo_side b), (''type'', bo_type b), (''quantity'', bo_quantity b),
      (''newClientOrderId'', bo_new_client_order_id b)] @
     (if bo_type b = ''LIMIT'' then [(''timeInForce'', bo_time_in_force b), (''price'', bo_price b)] else []) @
     (if bo_reduce_only b then [(''reduceOnly'', ''true'')] else [])"

definition send_cancel :: "'j json_api \<Rightarrow> hmac \<Rightarrow> client_request \<Rightarrow> 'j binance_adapter \<Rightarrow> ('j binance_adapter, unit) outcome" where
  "send_cancel J hmac r i =
     then_do (on_web i (signedRequest J hmac ''DELETE'' ''/fapi/v1/order''
               [(''symbol'', bc_symbol (bn_config i)), (''origClientOrderId'', show_u (rq_order_id r))]
               (bn_config i) (bn_offset i) (bn_web i))) (\<lambda>i response.
     try_with i (js_value J (js_text J) response ''status'' ''CANCELED'') (\<lambda>status.
     try_with i (js_value J (js_u64 J) response ''orderId'' OrderId_INVALID) (\<lambda>venue_id.
     binance_publish (answer r (mapOrderStatus status) venue_id 0 (rq_qty r)) i)))"

definition send_order :: "'j json_api \<Rightarrow> hmac \<Rightarrow> client_request \<Rightarrow> 'j binance_adapter \<Rightarrow> ('j binance_adapter, unit) outcome" where
  "send_order J hmac r i =
     try_with i (mapOrder r (bn_config i)) (\<lambda>order.
     then_do (on_web i (signedRequest J hmac ''POST'' ''/fapi/v1/order'' (order_params order)
               (bn_config i) (bn_offset i) (bn_web i))) (\<lambda>i response.
     try_with i (js_value J (js_u64 J) response ''orderId'' OrderId_INVALID) (\<lambda>venue_id.
     binance_publish (answer r ACCEPTED venue_id 0 (rq_qty r))
       (i\<lparr>bn_live_orders := (bn_live_orders i)(rq_order_id r \<mapsto> r)\<rparr>))))"

definition binance_handleRequest :: "'j json_api \<Rightarrow> hmac \<Rightarrow> client_request \<Rightarrow> 'j binance_adapter \<Rightarrow>
    ('j binance_adapter, unit) outcome" where
  "binance_handleRequest J hmac r i =
     (case (if rq_type r = Request_CANCEL then send_cancel J hmac r i else send_order J hmac r i) of
        Throw i e \<Rightarrow> publishRejected r i
      | m \<Rightarrow> m)"

end
