(* ===== verification/BinanceOrders.thy ===== *)
theory BinanceOrders
  imports BinanceAdapter
begin

text \<open>
  What the Binance adapter answers: every request is answered once and sent at most once, and an
  execution of the venue is reported once, to the order that carries its id.
\<close>

section \<open>Publishing\<close>

definition bn_responses :: "'j binance_adapter \<Rightarrow> client_response list" where
  "bn_responses i =
     (case bn_gateway i of None \<Rightarrow> [] | Some g \<Rightarrow> (case og_responses g of None \<Rightarrow> [] | Some q \<Rightarrow> lq_content q))"

text \<open>The gateway is there, of the same client, and its response queue has room.\<close>

definition bn_room :: "client_id \<Rightarrow> 'j binance_adapter \<Rightarrow> bool" where
  "bn_room client i \<longleftrightarrow>
     (case bn_gateway i of
        None \<Rightarrow> False
      | Some g \<Rightarrow> og_client_id g = client \<and>
          (case og_responses g of None \<Rightarrow> False | Some q \<Rightarrow> lq_inv q \<and> lq_num_elements q < lq_capacity q))"

lemma bn_update [simp]:
  "bn_responses (i\<lparr>bn_web := w\<rparr>) = bn_responses i" "bn_room c (i\<lparr>bn_web := w\<rparr>) = bn_room c i"
  "bn_responses (i\<lparr>bn_live_orders := lo\<rparr>) = bn_responses i" "bn_room c (i\<lparr>bn_live_orders := lo\<rparr>) = bn_room c i"
  "bn_responses (i\<lparr>bn_cumulative := cu\<rparr>) = bn_responses i" "bn_room c (i\<lparr>bn_cumulative := cu\<rparr>) = bn_room c i"
  by (simp_all add: bn_responses_def bn_room_def)

lemma binance_publish_ok:
  assumes "bn_room (rs_client_id r) i"
  shows "\<exists>g'. binance_publish r i = Ok (i\<lparr>bn_gateway := Some g'\<rparr>) () \<and>
    bn_responses (i\<lparr>bn_gateway := Some g'\<rparr>) = bn_responses i @ [r]"
proof -
  obtain g q where g: "bn_gateway i = Some g" "og_client_id g = rs_client_id r" "og_responses g = Some q" "lq_inv q"
      "lq_num_elements q < lq_capacity q"
    using assms by (auto simp: bn_room_def split: option.splits)
  obtain q' where q': "lq_enqueue r q = Ok q' ()" "lq_content q' = lq_content q @ [r]"
    using lq_enqueue_ok[OF g(4,5)] by blast
  then show ?thesis using g
    by (intro exI[of _ "g\<lparr>og_responses := Some q', og_next_expected := og_next_expected g + 1\<rparr>"])
      (simp add: binance_publish_def publishClientResponse_def bn_responses_def)
qed

section \<open>Transfers\<close>

definition clock_in_range :: "'j binance_adapter \<Rightarrow> bool" where
  "clock_in_range i \<longleftrightarrow>
     (\<forall>n. - (2 ^ 63) \<le> wb_now (bn_web i) n + bn_offset i \<and> wb_now (bn_web i) n + bn_offset i < 2 ^ 63)"

text \<open>A request that is not a GET is one transfer, whatever comes of it.\<close>

lemma one_transfer:
  assumes "verb \<noteq> ''GET''" "clock_in_range i"
  shows "\<exists>w. length (wb_log w) = length (wb_log (bn_web i)) + 1 \<and>
    ((\<exists>j. signedRequest J hmac verb path ps c (bn_offset i) (bn_web i) = Ok w j) \<or>
     (\<exists>e. signedRequest J hmac verb path ps c (bn_offset i) (bn_web i) = Throw w e))"
proof -
  have "signed_attempts J hmac 1 verb path ps c (bn_offset i) (bn_web i) =
      (let (w, now) = read_ms (bn_web i);
           (w, result) = http_send \<lparr>hr_method = verb,
                             hr_url = base_url @ path @ ''?'' @ signed_query hmac c ps (now + bn_offset i),
                             hr_key = Some (bc_api_key c), hr_timeout_ms = 5000\<rparr> w
         in case result of
              Curl_no_handle \<Rightarrow> Throw w (Runtime_error ''curl initialization failed'')
            | Curl_failed timed_out message \<Rightarrow> Throw w (Runtime_error (''Binance '' @ path @ '' request failed: '' @ message))
            | Curl_done status body \<Rightarrow>
                if status < 200 \<or> status \<ge> 300
                then Throw w (Runtime_error (''Binance REST HTTP '' @ show_int status @ '': '' @ body))
                else try_with w (js_parse J body) (Ok w))"
    using assms(2) by (simp add: adjustedTimestamp_def int64_def read_ms_def clock_in_range_def)
  then show ?thesis
    using assms(1)
    by (cases "wb_result (bn_web i) (length (wb_log (bn_web i)))")
      (auto simp: signedRequest_def read_ms_def http_send_def try_with_def Let_def split: sum.split)
qed

section \<open>Requests\<close>

lemma answer_simps [simp]:
  "rs_client_id (answer r t v x l) = rq_client_id r" "rs_client_order_id (answer r t v x l) = rq_order_id r"
  "rs_type (answer r t v x l) = t" "rs_exec_qty (answer r t v x l) = x" "rs_leaves_qty (answer r t v x l) = l"
  "rs_side (answer r t v x l) = rq_side r" "rs_offset (answer r t v x l) = rq_offset r"
  by (simp_all add: answer_def)

text \<open>How a request ends: with one response, after at most one transfer.\<close>

definition request_ends :: "client_request \<Rightarrow> 'j binance_adapter \<Rightarrow> ('j binance_adapter, unit) outcome \<Rightarrow> bool" where
  "request_ends r i m \<longleftrightarrow>
     (\<exists>i' u. m = Ok i' () \<and> bn_responses i' = bn_responses i @ [u] \<and>
        rs_client_order_id u = rq_order_id r \<and> rs_exec_qty u = 0 \<and>
        length (wb_log (bn_web i')) \<le> length (wb_log (bn_web i)) + 1 \<and>
        (if rq_type r = Request_CANCEL then bn_live_orders i' = bn_live_orders i
         else rs_type u = ACCEPTED \<and> bn_live_orders i' = (bn_live_orders i)(rq_order_id r \<mapsto> r) \<or>
              rs_type u = REJECTED \<and> bn_live_orders i' = bn_live_orders i))"

lemma rejected_ends:
  assumes "bn_room (rq_client_id r) i" "length (wb_log w) \<le> length (wb_log (bn_web i)) + 1"
  shows "request_ends r i (publishRejected r (i\<lparr>bn_web := w\<rparr>))"
proof -
  let ?u = "answer r (if rq_type r = Request_CANCEL then CANCEL_REJECTED else REJECTED) OrderId_INVALID 0 (rq_qty r)"
  have "bn_room (rs_client_id ?u) (i\<lparr>bn_web := w\<rparr>)" using assms(1) by simp
  from binance_publish_ok[OF this] obtain g' where g': "publishRejected r (i\<lparr>bn_web := w\<rparr>) = Ok (i\<lparr>bn_web := w, bn_gateway := Some g'\<rparr>) ()"
      "bn_responses (i\<lparr>bn_web := w, bn_gateway := Some g'\<rparr>) = bn_responses i @ [?u]"
    by (auto simp: publishRejected_def)
  then show ?thesis unfolding request_ends_def using assms(2)
    by (intro exI[of _ "i\<lparr>bn_web := w, bn_gateway := Some g'\<rparr>"] exI[of _ ?u]) simp
qed

lemma cancel_ends:
  assumes room: "bn_room (rq_client_id r) i" and clock: "clock_in_range i" and cancel: "rq_type r = Request_CANCEL"
  shows "request_ends r i (binance_handleRequest J hmac r i)"
proof -
  have v: "''DELETE'' \<noteq> ''GET''" by simp
  let ?req = "signedRequest J hmac ''DELETE'' ''/fapi/v1/order''
      [(''symbol'', bc_symbol (bn_config i)), (''origClientOrderId'', show_u (rq_order_id r))]
      (bn_config i) (bn_offset i) (bn_web i)"
  obtain w where w: "length (wb_log w) = length (wb_log (bn_web i)) + 1" "(\<exists>j. ?req = Ok w j) \<or> (\<exists>e. ?req = Throw w e)"
    using one_transfer[OF v clock, of J hmac "''/fapi/v1/order''"
        "[(''symbol'', bc_symbol (bn_config i)), (''origClientOrderId'', show_u (rq_order_id r))]" "bn_config i"] by blast
  have rejected: "request_ends r i (publishRejected r (i\<lparr>bn_web := w\<rparr>))"
    using rejected_ends[OF room] w(1) by simp
  have handle: "binance_handleRequest J hmac r i = (case send_cancel J hmac r i of
      Throw i e \<Rightarrow> publishRejected r i | m \<Rightarrow> m)"
    using cancel by (simp add: binance_handleRequest_def)
  show ?thesis
  proof (cases "\<exists>e. send_cancel J hmac r i = Throw (i\<lparr>bn_web := w\<rparr>) e")
    case True
    then show ?thesis using rejected handle by auto
  next
    case False
    obtain j status venue_id where j: "?req = Ok w j" "js_value J (js_text J) j ''status'' ''CANCELED'' = Inr status"
        "js_value J (js_u64 J) j ''orderId'' OrderId_INVALID = Inr venue_id"
      using w(2) False unfolding send_cancel_def on_web_def try_with_def by (auto split: sum.splits)
    let ?u = "answer r (mapOrderStatus status) venue_id 0 (rq_qty r)"
    have "bn_room (rs_client_id ?u) (i\<lparr>bn_web := w\<rparr>)" using room by simp
    from binance_publish_ok[OF this] obtain g' where
        "send_cancel J hmac r i = Ok (i\<lparr>bn_web := w, bn_gateway := Some g'\<rparr>) ()"
        "bn_responses (i\<lparr>bn_web := w, bn_gateway := Some g'\<rparr>) = bn_responses i @ [?u]"
      using j by (auto simp: send_cancel_def on_web_def)
    then show ?thesis unfolding request_ends_def handle using w(1) cancel
      by (intro exI[of _ "i\<lparr>bn_web := w, bn_gateway := Some g'\<rparr>"] exI[of _ ?u]) simp
  qed
qed

lemma new_ends:
  assumes room: "bn_room (rq_client_id r) i" and clock: "clock_in_range i" and new: "rq_type r \<noteq> Request_CANCEL"
  shows "request_ends r i (binance_handleRequest J hmac r i)"
proof -
  have v: "''POST'' \<noteq> ''GET''" by simp
  have handle: "binance_handleRequest J hmac r i = (case send_order J hmac r i of
      Throw i e \<Rightarrow> publishRejected r i | m \<Rightarrow> m)"
    using new by (simp add: binance_handleRequest_def)
  show ?thesis
  proof (cases "mapOrder r (bn_config i)")
    case (Inl e)
    then show ?thesis using rejected_ends[OF room, of "bn_web i"] handle by (simp add: send_order_def)
  next
    case (Inr order)
    let ?req = "signedRequest J hmac ''POST'' ''/fapi/v1/order'' (order_params order) (bn_config i) (bn_offset i) (bn_web i)"
    obtain w where w: "length (wb_log w) = length (wb_log (bn_web i)) + 1" "(\<exists>j. ?req = Ok w j) \<or> (\<exists>e. ?req = Throw w e)"
      using one_transfer[OF v clock, of J hmac "''/fapi/v1/order''" "order_params order" "bn_config i"] by blast
    have rejected: "request_ends r i (publishRejected r (i\<lparr>bn_web := w\<rparr>))"
      using rejected_ends[OF room] w(1) by simp
    show ?thesis
    proof (cases "\<exists>e. send_order J hmac r i = Throw (i\<lparr>bn_web := w\<rparr>) e")
      case True
      then show ?thesis using rejected handle by auto
    next
      case False
      obtain j venue_id where j: "?req = Ok w j" "js_value J (js_u64 J) j ''orderId'' OrderId_INVALID = Inr venue_id"
        using w(2) False Inr unfolding send_order_def on_web_def try_with_def by (auto split: sum.splits)
      let ?u = "answer r ACCEPTED venue_id 0 (rq_qty r)"
      let ?i = "i\<lparr>bn_web := w, bn_live_orders := (bn_live_orders i)(rq_order_id r \<mapsto> r)\<rparr>"
      have "bn_room (rs_client_id ?u) ?i" using room by simp
      from binance_publish_ok[OF this] obtain g' where
          "send_order J hmac r i = Ok (?i\<lparr>bn_gateway := Some g'\<rparr>) ()"
          "bn_responses (?i\<lparr>bn_gateway := Some g'\<rparr>) = bn_responses i @ [?u]"
        using j Inr by (auto simp: send_order_def on_web_def)
      then show ?thesis unfolding request_ends_def handle using w(1) new
        by (intro exI[of _ "?i\<lparr>bn_gateway := Some g'\<rparr>"] exI[of _ ?u]) simp
    qed
  qed
qed

text \<open>C38: Every request that the gateway hands to the Binance adapter is answered by exactly one response for
  its order, whatever the venue, the network or the JSON it returns do, and causes at most one
  transfer: an order is never sent a second time, not even after a timeout. A new order is registered
  as live exactly when it is answered ACCEPTED.\<close>

theorem request_is_answered_once:
  assumes "bn_room (rq_client_id r) i" "clock_in_range i"
  shows "request_ends r i (binance_handleRequest J hmac r i)"
  using cancel_ends[OF assms] new_ends[OF assms] by blast

section \<open>Executions\<close>

text \<open>The cumulative quantity that was last reported for an order.\<close>

definition reported :: "'j binance_adapter \<Rightarrow> order_id \<Rightarrow> qty" where
  "reported i n = (case bn_cumulative i n of None \<Rightarrow> 0 | Some q \<Rightarrow> q)"

text \<open>An order update as the venue sends it, with the client order id as the text that was sent.\<close>

definition update_reads :: "'j json_api \<Rightarrow> 'j \<Rightarrow> order_id \<Rightarrow> qty \<Rightarrow> string \<Rightarrow> order_id \<Rightarrow> bool" where
  "update_reads J order n k status venue_id \<longleftrightarrow>
     js_value J (js_text J) order ''c'' ''0'' = Inr (show_u n) \<and>
     (\<exists>z. js_value J (js_text J) order ''z'' ''0'' = Inr z \<and> cumulative_of z = Some (Inr k)) \<and>
     js_value J (js_text J) order ''X'' ''NEW'' = Inr status \<and>
     js_value J (js_u64 J) order ''i'' OrderId_INVALID = Inr venue_id"

text \<open>C15: A client order id that was sent as text comes back to its order: an update with a larger cumulative
  quantity is reported to that order, once, with the quantity and the state it carries, and the same
  update again changes nothing. An update without a new fill, whatever its state, publishes nothing
  and leaves the order live.\<close>

theorem execution_reported_once:
  assumes upd: "update_reads J order n k status venue_id" and live: "bn_live_orders i n = Some r"
    and room: "bn_room (rq_client_id r) i"
  shows "(reported i n < k \<longrightarrow> (\<exists>i' u. order_update J order i = Ok i' () \<and> bn_responses i' = bn_responses i @ [u] \<and>
      rs_client_order_id u = n \<and> rs_type u = mapOrderStatus status \<and> rs_exec_qty u = k \<and>
      rs_leaves_qty u = (if rq_qty r > k then rq_qty r - k else 0) \<and> reported i' n = k \<and>
      order_update J order i' = Ok i' ())) \<and>
    (k \<le> reported i n \<longrightarrow> (\<exists>i'. order_update J order i = Ok i' () \<and> bn_responses i' = bn_responses i \<and>
      bn_live_orders i' n = Some r))"
proof (intro conjI impI)
  obtain z where z: "js_value J (js_text J) order ''z'' ''0'' = Inr z" "cumulative_of z = Some (Inr k)"
    and rest: "js_value J (js_text J) order ''c'' ''0'' = Inr (show_u n)"
      "js_value J (js_text J) order ''X'' ''NEW'' = Inr status"
      "js_value J (js_u64 J) order ''i'' OrderId_INVALID = Inr venue_id"
    using upd by (auto simp: update_reads_def)
  have start: "order_update J order j = (let s = j\<lparr>bn_cumulative := (bn_cumulative j)(n \<mapsto> reported j n)\<rparr> in
      if k \<le> reported j n then Ok s () else order_update J order j)" if "bn_live_orders j n = Some p" for j p
    using that z rest by (simp add: order_update_def stoull_show_u reported_def Let_def)
  show "\<exists>i'. order_update J order i = Ok i' () \<and> bn_responses i' = bn_responses i \<and> bn_live_orders i' n = Some r"
    if "k \<le> reported i n"
    using start[OF live] that live by (simp add: Let_def)
  assume more: "reported i n < k"
  let ?u = "(answer r (mapOrderStatus status) venue_id k (if rq_qty r > k then rq_qty r - k else 0))\<lparr>rs_client_order_id := n\<rparr>"
  let ?i = "i\<lparr>bn_cumulative := (bn_cumulative i)(n \<mapsto> k)\<rparr>"
  have "bn_room (rs_client_id ?u) ?i" using room by (simp add: answer_def)
  from binance_publish_ok[OF this] obtain g' where g': "binance_publish ?u ?i = Ok (?i\<lparr>bn_gateway := Some g'\<rparr>) ()"
      "bn_responses (?i\<lparr>bn_gateway := Some g'\<rparr>) = bn_responses i @ [?u]"
    by auto
  let ?i1 = "?i\<lparr>bn_gateway := Some g'\<rparr>"
  let ?i' = "if mapOrderStatus status \<in> {FILLED, CANCELED, REJECTED}
    then ?i1\<lparr>bn_live_orders := (bn_live_orders ?i1)(n := None)\<rparr> else ?i1"
  have "order_update J order i = Ok ?i' ()"
    using z rest live more g'(1) by (simp add: order_update_def stoull_show_u reported_def Let_def not_le answer_def)
  moreover have "bn_responses ?i' = bn_responses i @ [?u]" using g'(2) by simp
  moreover have "reported ?i' n = k" by (simp add: reported_def)
  moreover have "order_update J order ?i' = Ok ?i' ()"
  proof (cases "mapOrderStatus status \<in> {FILLED, CANCELED, REJECTED}")
    case True
    then show ?thesis using rest by (simp add: order_update_def stoull_show_u)
  next
    case False
    then have "bn_live_orders ?i' n = Some r" using live by simp
    from start[OF this] show ?thesis using False by (simp add: reported_def Let_def)
  qed
  ultimately show "\<exists>i' u. order_update J order i = Ok i' () \<and> bn_responses i' = bn_responses i @ [u] \<and>
      rs_client_order_id u = n \<and> rs_type u = mapOrderStatus status \<and> rs_exec_qty u = k \<and>
      rs_leaves_qty u = (if rq_qty r > k then rq_qty r - k else 0) \<and> reported i' n = k \<and>
      order_update J order i' = Ok i' ()"
    by (intro exI[of _ ?i'] exI[of _ ?u]) (simp add: answer_def)
qed

section \<open>Examples\<close>

definition demo_web :: web where
  "demo_web = \<lparr>wb_result = (\<lambda>_. Curl_failed True ''Timeout was reached''), wb_log = [], wb_now = (\<lambda>_. 1000), wb_ticks = 0\<rparr>"

definition demo_venue_gateway :: order_gateway where
  "demo_venue_gateway = order_gateway_new 1 None
     (Some \<lparr>lq_store = (\<lambda>_. client_response_init), lq_capacity = 8, lq_next_write = 0, lq_next_read = 0,
            lq_num_elements = 0\<rparr>) (\<lambda>_. 0)"

definition demo_order :: client_request where
  "demo_order = client_request_init\<lparr>rq_type := Request_NEW, rq_client_id := 1, rq_ticker_id := 0, rq_order_id := 7,
     rq_side := BUY, rq_price := 29000000, rq_qty := 1, rq_order_type := LIMIT, rq_offset := OPEN\<rparr>"

definition demo_binance :: "doc binance_adapter" where
  "demo_binance = (binance_adapter_new doc_api None (Some demo_venue_gateway)
     (binance_config_init\<lparr>bc_symbol := ''BTCUSDT'', bc_ticker_id := 0\<rparr>) demo_web)
     \<lparr>bn_live_orders := [7 \<mapsto> demo_order]\<rparr>"

lemma demo_binance_room: "bn_room 1 demo_binance"
  by (simp add: bn_room_def demo_binance_def binance_adapter_new_def demo_venue_gateway_def order_gateway_new_def lq_inv_def)

lemma request_is_answered_once_witness:
  "\<exists>i' u. binance_handleRequest doc_api (\<lambda>_ _. []) demo_order demo_binance = Ok i' () \<and>
     bn_responses i' = bn_responses demo_binance @ [u] \<and> rs_client_order_id u = 7"
proof -
  have "rq_client_id demo_order = 1" "rq_order_id demo_order = 7" by (simp_all add: demo_order_def)
  moreover have "clock_in_range demo_binance"
    by (simp add: clock_in_range_def demo_binance_def binance_adapter_new_def demo_web_def)
  ultimately show ?thesis
    using request_is_answered_once[of demo_order demo_binance doc_api "\<lambda>_ _. []"] demo_binance_room
    by (auto simp: request_ends_def)
qed

definition fill_doc :: doc where
  "fill_doc = Obj [(''c'', Str ''7''), (''z'', Str ''1''), (''X'', Str ''FILLED''), (''i'', U64 9)]"

lemma cumulative_of_one: "cumulative_of ''1'' = Some (Inr 1)"
  by (simp add: cumulative_of_def stod_1 one_bits_value to_integer_def truncate_rat_def Let_def)

lemma fill_doc_reads: "update_reads doc_api fill_doc 7 1 ''FILLED'' 9"
proof -
  have "show_u (7 :: 64 word) = ''7''" by code_simp
  then show ?thesis
    using cumulative_of_one by (auto simp: update_reads_def js_value_def fill_doc_def doc_api_def)
qed

lemma execution_reported_once_witness:
  "\<exists>i' u. order_update doc_api fill_doc demo_binance = Ok i' () \<and>
     bn_responses i' = bn_responses demo_binance @ [u] \<and> rs_client_order_id u = 7 \<and> rs_type u = FILLED \<and>
     order_update doc_api fill_doc i' = Ok i' ()"
proof -
  have live: "bn_live_orders demo_binance 7 = Some demo_order" by (simp add: demo_binance_def)
  have room: "bn_room (rq_client_id demo_order) demo_binance"
    using demo_binance_room by (simp add: demo_order_def)
  have "reported demo_binance 7 < 1" by (simp add: reported_def demo_binance_def binance_adapter_new_def)
  with execution_reported_once[OF fill_doc_reads live room] show ?thesis
    by (auto simp: mapOrderStatus_def)
qed

text \<open>
  The price of a limit order is sent as the integer of the program's scale (here 0.29, which the depth
  book publishes times 10 to the 8), not as the decimal it stands for.
\<close>

lemma scaled_price_is_sent:
  "\<exists>b. mapOrder demo_order (bn_config demo_binance) = Inr b \<and> bo_price b = show_int 29000000"
  by (simp add: mapOrder_def demo_order_def demo_binance_def binance_adapter_new_def binance_config_init_def sideString_def
      Qty_INVALID_def show_s_def)

end
