(* ===== verification/SimexBook.thy ===== *)
theory SimexBook
  imports Json Gateways "HOL-Library.AList"
begin

text \<open>
  The market side of \<open>trading/venue/simex/simex_venue_adapter.{h,cpp}\<close>: the configuration, the state of
  \<open>Impl\<close>, the aggregation of the order book into five levels per side, and the datagrams that build the
  book. The wire protocol is a header of another repository. What the adapter uses of it is the
  parameter \<open>simex_abi\<close> (sizes, message kinds, the header of a fresh request, and the conversion of bytes
  to structures and back) and the fields
  of those structures that the adapter names; an enumerator that it does not name is \<open>other\<close>.
\<close>

section \<open>The wire protocol\<close>

type_synonym bytes = "8 word list"

datatype venue_side = Venue_BUY | Venue_SELL | Venue_side_other

datatype venue_update_type = Venue_ADD | Venue_MODIFY | Venue_CANCEL | Venue_TRADE | Venue_update_other

datatype venue_response_type =
    Venue_ACCEPTED | Venue_REJECTED | Venue_CANCELED | Venue_CANCEL_REJECTED | Venue_FILLED | Venue_response_other

datatype venue_request_type = Venue_NEW_REQUEST | Venue_CANCEL_REQUEST

datatype position_effect = Effect_OPEN | Effect_CLOSE_TODAY | Effect_CLOSE_YESTERDAY | Effect_other

record frame_header =
  fh_version :: nat
  fh_reserved :: nat
  fh_kind :: nat
  fh_payload_size :: nat
  fh_sequence :: "64 word"

record venue_update =
  vu_type :: venue_update_type
  vu_ticker_id :: "32 word"
  vu_market_order_id :: "64 word"
  vu_side :: venue_side
  vu_price_ticks :: price
  vu_qty :: qty
  vu_leaves_qty :: qty

record venue_response =
  vr_type :: venue_response_type
  vr_client_id :: client_id
  vr_ticker_id :: "32 word"
  vr_client_order_id :: order_id
  vr_market_order_id :: order_id
  vr_side :: venue_side
  vr_position_effect :: position_effect
  vr_price_ticks :: price
  vr_exec_qty :: qty
  vr_leaves_qty :: qty

record venue_request =
  vq_type :: venue_request_type
  vq_client_id :: client_id
  vq_ticker_id :: "32 word"
  vq_client_order_id :: order_id
  vq_side :: venue_side
  vq_limit :: bool
  vq_position_effect :: position_effect
  vq_price_ticks :: price
  vq_qty :: qty

text \<open>\<open>ab_widen\<close> converts a wire quantity to 64 bits; the header gives the integer type it is of.\<close>

record simex_abi =
  ab_version :: nat
  ab_kind_update :: nat
  ab_kind_snapshot :: nat
  ab_kind_request :: nat
  ab_kind_response :: nat
  ab_header_size :: nat
  ab_update_size :: nat
  ab_update_payload :: nat
  ab_prefix_size :: nat
  ab_order_size :: nat
  ab_request_size :: nat
  ab_request_payload :: nat
  ab_request_header :: frame_header
  ab_response_size :: nat
  ab_response_payload :: nat
  ab_header :: "bytes \<Rightarrow> frame_header"
  ab_update :: "bytes \<Rightarrow> venue_update"
  ab_prefix :: "bytes \<Rightarrow> nat \<times> nat"
  ab_order :: "bytes \<Rightarrow> 64 word \<times> venue_update"
  ab_response :: "bytes \<Rightarrow> frame_header \<times> venue_response"
  ab_request :: "frame_header \<times> venue_request \<Rightarrow> bytes"
  ab_invalid_order_id :: "64 word"
  ab_widen :: "qty \<Rightarrow> 64 word"

section \<open>Configuration\<close>

record simex_config =
  xc_host :: string
  xc_tcp_port :: "16 word"
  xc_udp_port :: "16 word"
  xc_ticker_id :: ticker_id
  xc_connect_timeout :: int
  xc_feed_timeout :: int
  xc_capacity :: nat

definition simex_config_init :: simex_config where
  "simex_config_init =
     \<lparr>xc_host = ''127.0.0.1'', xc_tcp_port = 19001, xc_udp_port = 19002, xc_ticker_id = 0,
      xc_connect_timeout = 5000, xc_feed_timeout = 5000, xc_capacity = 4096\<rparr>"

definition simex_fromJson :: "'j json_api \<Rightarrow> 'j \<Rightarrow> ticker_id \<Rightarrow> exn + simex_config" where
  "simex_fromJson J j ticker =
     bind_exn (js_value J (js_text J) j ''host'' ''127.0.0.1'') (\<lambda>host.
     bind_exn (js_value J (js_int J) j ''tcp_port'' 19001) (\<lambda>tcp.
     bind_exn (js_value J (js_int J) j ''udp_port'' 19002) (\<lambda>udp.
     bind_exn (js_value J (js_int J) j ''connect_timeout_ms'' 5000) (\<lambda>connect_ms.
     bind_exn (js_value J (js_int J) j ''feed_timeout_ms'' 5000) (\<lambda>feed_ms.
     bind_exn (js_value J (js_int J) j ''buffer_capacity'' 4096) (\<lambda>capacity.
       if host \<noteq> ''127.0.0.1'' \<or> tcp < 1 \<or> tcp > 65535 \<or> udp < 1 \<or> udp > 65535 \<or>
          connect_ms < 1 \<or> feed_ms < 1 \<or> capacity < 1 \<or> capacity > 1048576 \<or> unat ticker \<ge> ME_MAX_TICKERS
       then Inl (Invalid_argument ''Invalid simex venue configuration'')
       else Inr \<lparr>xc_host = host, xc_tcp_port = of_int tcp, xc_udp_port = of_int udp, xc_ticker_id = ticker,
                xc_connect_timeout = connect_ms, xc_feed_timeout = feed_ms, xc_capacity = nat capacity\<rparr>))))))"

section \<open>Conversions and checks\<close>

primrec simex_side :: "venue_side \<Rightarrow> exn + side" where
  "simex_side Venue_BUY = Inr BUY"
| "simex_side Venue_SELL = Inr SELL"
| "simex_side Venue_side_other = Inl (Runtime_error ''Invalid simex side'')"

primrec simex_effect :: "order_offset \<Rightarrow> exn + position_effect" where
  "simex_effect OPEN = Inr Effect_OPEN"
| "simex_effect CLOSE_TODAY = Inr Effect_CLOSE_TODAY"
| "simex_effect CLOSE_YESTERDAY = Inr Effect_CLOSE_YESTERDAY"
| "simex_effect CLOSE = Inl (Invalid_argument ''Simex requires an explicit position effect'')"
| "simex_effect Offset_INVALID = Inl (Invalid_argument ''Simex requires an explicit position effect'')"

definition validPrice :: "price \<Rightarrow> bool" where
  "validPrice p \<longleftrightarrow> sint p > 0 \<and> p \<noteq> Price_INVALID"

definition validQty :: "qty \<Rightarrow> bool" where
  "validQty q \<longleftrightarrow> q > 0 \<and> q \<noteq> Qty_INVALID"

definition checkHeader :: "simex_abi \<Rightarrow> frame_header \<Rightarrow> nat \<Rightarrow> nat \<Rightarrow> exn + unit" where
  "checkHeader A h kind payload =
     (if fh_version h \<noteq> ab_version A \<or> fh_reserved h \<noteq> 0 \<or> fh_kind h \<noteq> kind \<or> fh_payload_size h \<noteq> payload
      then Inl (Runtime_error ''Simex frame version, kind, or size mismatch'') else Inr ())"

section \<open>State\<close>

record simex_order =
  so_request :: client_request
  so_remaining :: qty
  so_terminal :: bool
  so_cancel_pending :: bool

record level_aggregate =
  la_price :: price
  la_qty :: "64 word"

text \<open>
  The tables with hashed keys are association lists in the order of their iteration, which the
  library leaves open: no theorem depends on it. \<open>sm_pending\<close> is sorted by its keys. The clock is a
  function from the number of readings; \<open>0\<close> is the \<open>time_point\<close> that is not set. The length of
  \<open>sm_incoming\<close> is \<open>received\<close>, and \<open>sm_transmitted\<close> records the bytes handed to \<open>send\<close>. The sockets are
  whether they are open.
\<close>

record simex_adapter =
  sm_market :: market_data_consumer
  sm_gateway :: order_gateway
  sm_config :: simex_config
  sm_running :: bool
  sm_started :: bool
  sm_tcp :: bool
  sm_udp :: bool
  sm_handlers :: bool
  sm_synchronized :: bool
  sm_usable :: bool
  sm_request_sequence :: "64 word"
  sm_response_sequence :: "64 word"
  sm_market_sequence :: "64 word"
  sm_snapshot_sequence :: "64 word"
  sm_participant_response_sequence :: "64 word"
  sm_outgoing :: "(frame_header \<times> venue_request) list"
  sm_sent :: nat
  sm_transmitted :: bytes
  sm_incoming :: bytes
  sm_last_packet :: int
  sm_last_write :: int
  sm_ahead_since :: int
  sm_advertised_sequence :: "64 word"
  sm_orders :: "(order_id \<times> simex_order) list"
  sm_book :: "(64 word \<times> venue_update) list"
  sm_pending :: "(64 word \<times> venue_update) list"
  sm_last_trade :: price
  sm_net_position :: int
  sm_bid_levels :: "level_aggregate list"
  sm_ask_levels :: "level_aggregate list"
  sm_bid_level_count :: nat
  sm_ask_level_count :: nat
  sm_clock :: "nat \<Rightarrow> int"
  sm_ticks :: nat

definition simex_level_init :: level_aggregate where
  "simex_level_init = \<lparr>la_price = 0, la_qty = 0\<rparr>"

definition simex_adapter_new :: "market_data_consumer option \<Rightarrow> order_gateway option \<Rightarrow> simex_config \<Rightarrow> (nat \<Rightarrow> int) \<Rightarrow>
    exn + simex_adapter" where
  "simex_adapter_new md og cfg clock =
     (case (md, og) of
        (Some m, Some g) \<Rightarrow>
          if mc_client_id m \<noteq> og_client_id g \<or> og_client_id g = ClientId_INVALID
          then Inl (Invalid_argument ''Invalid simex participant boundaries'')
          else Inr \<lparr>sm_market = m, sm_gateway = g, sm_config = cfg, sm_running = False, sm_started = False,
            sm_tcp = False, sm_udp = False, sm_handlers = False, sm_synchronized = False, sm_usable = False,
            sm_request_sequence = 0, sm_response_sequence = 0, sm_market_sequence = 0, sm_snapshot_sequence = 0,
            sm_participant_response_sequence = 1, sm_outgoing = [], sm_sent = 0, sm_transmitted = [], sm_incoming = [],
            sm_last_packet = 0, sm_last_write = 0, sm_ahead_since = 0, sm_advertised_sequence = 0,
            sm_orders = [], sm_book = [], sm_pending = [], sm_last_trade = Price_INVALID, sm_net_position = 0,
            sm_bid_levels = replicate DEPTH_SNAPSHOT_LEVELS simex_level_init,
            sm_ask_levels = replicate DEPTH_SNAPSHOT_LEVELS simex_level_init,
            sm_bid_level_count = 0, sm_ask_level_count = 0, sm_clock = clock, sm_ticks = 0\<rparr>
      | _ \<Rightarrow> Inl (Invalid_argument ''Invalid simex participant boundaries''))"

definition sm_now :: "simex_adapter \<Rightarrow> int" where
  "sm_now s = sm_clock s (sm_ticks s)"

definition sm_tick :: "simex_adapter \<Rightarrow> simex_adapter" where
  "sm_tick s = s\<lparr>sm_ticks := sm_ticks s + 1\<rparr>"

section \<open>Aggregation of the book\<close>

definition price_before :: "bool \<Rightarrow> price \<Rightarrow> price \<Rightarrow> bool" where
  "price_before descending a b = (if descending then b <s a else a <s b)"

text \<open>\<open>for (shift = from; shift > index; --shift) levels[shift] = levels[shift - 1];\<close>\<close>

fun shift_levels :: "nat \<Rightarrow> nat \<Rightarrow> 'l list \<Rightarrow> 'l list" where
  "shift_levels index shift levels =
     (if shift > index then shift_levels index (shift - 1) (levels[shift := levels ! (shift - 1)]) else levels)"

declare shift_levels.simps [simp del]

text \<open>\<open>std::lower_bound\<close> returns the first place that is not before the price: on the array, which is sorted,
  that is behind the places before it. The array is sorted in every call: by \<open>fold_aggregate\<close> and \<open>add_all_ok\<close>
  of SimexLevels it holds the first five of a sorted list after every contribution.\<close>

definition aggregate :: "bool \<Rightarrow> price \<Rightarrow> 64 word \<Rightarrow> level_aggregate list \<times> nat \<Rightarrow> level_aggregate list \<times> nat" where
  "aggregate descending price qty = (\<lambda>(levels, count).
     let index = length (takeWhile (\<lambda>l. price_before descending (la_price l) price) (take count levels))
     in if index < count \<and> la_price (levels ! index) = price
        then (levels[index := (levels ! index)\<lparr>la_qty := la_qty (levels ! index) + qty\<rparr>], count)
        else if count < length levels
        then ((shift_levels index count levels)[index := \<lparr>la_price = price, la_qty = qty\<rparr>], count + 1)
        else if index = length levels then (levels, count)
        else ((shift_levels index (length levels - 1) levels)[index := \<lparr>la_price = price, la_qty = qty\<rparr>], count))"

section \<open>Updates\<close>

definition book_emplace :: "64 word \<Rightarrow> venue_update \<Rightarrow> simex_adapter \<Rightarrow> simex_adapter option" where
  "book_emplace key u s =
     (if map_of (sm_book s) key = None then Some (s\<lparr>sm_book := sm_book s @ [(key, u)]\<rparr>) else None)"

definition apply_snapshot :: "venue_update \<Rightarrow> simex_adapter \<Rightarrow> (simex_adapter, unit) outcome" where
  "apply_snapshot u s =
     (if (vu_type u \<noteq> Venue_ADD \<and> vu_type u \<noteq> Venue_MODIFY) \<or> \<not> validQty (vu_qty u)
      then Throw s (Runtime_error ''Invalid simex snapshot order'')
      else case book_emplace (vu_market_order_id u) u s of
             None \<Rightarrow> Throw s (Runtime_error ''Invalid simex snapshot order'')
           | Some s \<Rightarrow> Ok s ())"

definition apply_increment :: "venue_update \<Rightarrow> simex_adapter \<Rightarrow> (simex_adapter, unit) outcome" where
  "apply_increment u s =
     (let key = vu_market_order_id u; found = map_of (sm_book s) key
      in case vu_type u of
           Venue_ADD \<Rightarrow>
             if \<not> validQty (vu_qty u) then Throw s (Runtime_error ''Invalid simex ADD'')
             else (case book_emplace key u s of
                     None \<Rightarrow> Throw s (Runtime_error ''Invalid simex ADD'') | Some s \<Rightarrow> Ok s ())
         | Venue_MODIFY \<Rightarrow>
             if found = None \<or> \<not> validQty (vu_leaves_qty u) then Throw s (Runtime_error ''Invalid simex MODIFY'')
             else Ok (s\<lparr>sm_book := AList.update key (u\<lparr>vu_qty := vu_leaves_qty u\<rparr>) (sm_book s)\<rparr>) ()
         | Venue_CANCEL \<Rightarrow>
             if found = None then Throw s (Runtime_error ''Invalid simex CANCEL'')
             else Ok (s\<lparr>sm_book := AList.delete key (sm_book s)\<rparr>) ()
         | Venue_TRADE \<Rightarrow>
             if \<not> validQty (vu_qty u) then Throw s (Runtime_error ''Invalid simex TRADE'')
             else Ok (s\<lparr>sm_last_trade := vu_price_ticks u\<rparr>) ()
         | Venue_update_other \<Rightarrow> Throw s (Runtime_error ''Unsupported simex market kind''))"

definition simex_apply :: "simex_abi \<Rightarrow> bool \<Rightarrow> venue_update \<Rightarrow> simex_adapter \<Rightarrow> (simex_adapter, unit) outcome" where
  "simex_apply A snapshot u s =
     (if vu_ticker_id u \<noteq> 0 then Throw s (Runtime_error ''Unexpected simex instrument'')
      else try_with s (simex_side (vu_side u)) (\<lambda>_.
        if \<not> validPrice (vu_price_ticks u) \<or>
           (vu_type u \<noteq> Venue_TRADE \<and> vu_market_order_id u = ab_invalid_order_id A)
        then Throw s (Runtime_error ''Invalid simex market price or order id'')
        else then_do (if snapshot then apply_snapshot u s else apply_increment u s) (\<lambda>s _.
          if length (sm_book s) > xc_capacity (sm_config s)
          then Throw s (Runtime_error ''Simex book capacity exceeded'') else Ok s ())))"

section \<open>Publication\<close>

text \<open>The loop over the book, on the two arrays and their counts.\<close>

definition clear_levels :: "simex_adapter \<Rightarrow> simex_adapter" where
  "clear_levels s = s\<lparr>sm_bid_level_count := 0, sm_ask_level_count := 0\<rparr>"

definition aggregate_order :: "simex_abi \<Rightarrow> venue_update \<Rightarrow> simex_adapter \<Rightarrow> simex_adapter" where
  "aggregate_order A u s =
     (if vu_side u = Venue_BUY
      then let (l, n) = aggregate True (vu_price_ticks u) (ab_widen A (vu_qty u)) (sm_bid_levels s, sm_bid_level_count s)
           in s\<lparr>sm_bid_levels := l, sm_bid_level_count := n\<rparr>
      else let (l, n) = aggregate False (vu_price_ticks u) (ab_widen A (vu_qty u)) (sm_ask_levels s, sm_ask_level_count s)
           in s\<lparr>sm_ask_levels := l, sm_ask_level_count := n\<rparr>)"

definition copy_levels :: "level_aggregate list \<Rightarrow> nat \<Rightarrow> depth_level list \<Rightarrow> exn + depth_level list" where
  "copy_levels levels count out =
     (if list_ex (\<lambda>l. la_qty l \<ge> ucast Qty_INVALID) (take count levels)
      then Inl (Runtime_error ''Simex aggregate quantity overflow'')
      else Inr (map (\<lambda>l. \<lparr>dl_price = la_price l, dl_qty = ucast (la_qty l)\<rparr>) (take count levels) @ drop count out))"

definition book_ready :: "simex_adapter \<Rightarrow> bool" where
  "book_ready s \<longleftrightarrow> sm_bid_level_count s > 0 \<and> sm_ask_level_count s > 0 \<and>
     la_price (sm_bid_levels s ! 0) <s la_price (sm_ask_levels s ! 0)"

definition simex_publishBook :: "simex_abi \<Rightarrow> simex_adapter \<Rightarrow> (simex_adapter, unit) outcome" where
  "simex_publishBook A s =
     (let s = fold (aggregate_order A \<circ> snd) (sm_book s) (clear_levels s);
          d = depth_snapshot_init
      in try_with s (copy_levels (sm_bid_levels s) (sm_bid_level_count s) (ds_bids d)) (\<lambda>bids.
         try_with s (copy_levels (sm_ask_levels s) (sm_ask_level_count s) (ds_asks d)) (\<lambda>asks.
         let u = market_update_init
                   \<lparr>mu_type := DEPTH_SNAPSHOT, mu_ticker_id := xc_ticker_id (sm_config s),
                    mu_depth := d\<lparr>ds_bids := bids, ds_asks := asks, ds_last_price := sm_last_trade s,
                                  ds_open_interest := NaN\<rparr>\<rparr>;
             s = s\<lparr>sm_usable := book_ready s\<rparr>
         in on_part (\<lambda>m. s\<lparr>sm_market := m\<rparr>) (publishMarketUpdate u (sm_market s)))))"

section \<open>Datagrams\<close>

primrec apply_orders :: "simex_abi \<Rightarrow> 64 word \<Rightarrow> bytes \<Rightarrow> nat \<Rightarrow> nat \<Rightarrow> simex_adapter \<Rightarrow> (simex_adapter, unit) outcome" where
  "apply_orders A sequence data i 0 s = Ok s ()"
| "apply_orders A sequence data i (Suc n) s =
     (let (seq, u) = ab_order A (take (ab_order_size A) (drop (ab_prefix_size A + i * ab_order_size A) data))
      in if seq = 0 \<or> seq > sequence then Throw s (Runtime_error ''Invalid snapshot order sequence'')
         else then_do (simex_apply A True u s) (\<lambda>s _. apply_orders A sequence data (i + 1) n s))"

fun replay_pending :: "simex_abi \<Rightarrow> (64 word \<times> venue_update) list \<Rightarrow> simex_adapter \<Rightarrow> (simex_adapter, unit) outcome" where
  "replay_pending A [] s = Ok s ()"
| "replay_pending A ((sequence, u) # rest) s =
     (if sequence \<le> sm_market_sequence s then replay_pending A rest s
      else if sequence \<noteq> sm_market_sequence s + 1 then Throw s (Runtime_error ''Simex startup sequence gap'')
      else then_do (simex_apply A False u s) (\<lambda>s _.
             replay_pending A rest (s\<lparr>sm_market_sequence := sequence\<rparr>)))"

definition datagram_update :: "simex_abi \<Rightarrow> frame_header \<Rightarrow> bytes \<Rightarrow> simex_adapter \<Rightarrow> (simex_adapter, unit) outcome" where
  "datagram_update A h data s =
     try_with s (checkHeader A h (ab_kind_update A) (ab_update_payload A)) (\<lambda>_.
     if length data \<noteq> ab_update_size A then Throw s (Runtime_error ''Invalid simex incremental size'')
     else
       let u = ab_update A data; sequence = fh_sequence h
       in if \<not> sm_synchronized s
          then if length (sm_pending s) \<ge> xc_capacity (sm_config s) \<or> map_of (sm_pending s) sequence \<noteq> None
               then Throw s (Runtime_error ''Simex startup buffer overflow or duplicate sequence'')
               else Ok (s\<lparr>sm_pending := insort_key fst (sequence, u) (sm_pending s)\<rparr>) ()
          else if sequence \<le> sm_snapshot_sequence s then Ok s ()
          else if sequence \<noteq> sm_market_sequence s + 1 then Throw s (Runtime_error ''Simex market sequence gap'')
          else then_do (simex_apply A False u s) (\<lambda>s _.
                 simex_publishBook A (s\<lparr>sm_market_sequence := sequence\<rparr>)))"

definition datagram_snapshot :: "simex_abi \<Rightarrow> frame_header \<Rightarrow> bytes \<Rightarrow> simex_adapter \<Rightarrow> (simex_adapter, unit) outcome" where
  "datagram_snapshot A h data s =
     try_with s (checkHeader A h (ab_kind_snapshot A) (length data - ab_header_size A)) (\<lambda>_.
     if length data < ab_prefix_size A then Throw s (Runtime_error ''Truncated simex snapshot'')
     else
       let (reserved, order_count) = ab_prefix A (take (ab_prefix_size A) data); sequence = fh_sequence h
       in if reserved \<noteq> 0 \<or> order_count > xc_capacity (sm_config s) \<or>
             length data \<noteq> ab_prefix_size A + order_count * ab_order_size A
          then Throw s (Runtime_error ''Invalid simex snapshot size'')
          else if sm_synchronized s
          then let s = s\<lparr>sm_advertised_sequence := max (sm_advertised_sequence s) sequence\<rparr>
               in if sm_advertised_sequence s > sm_market_sequence s \<and> sm_ahead_since s = 0
                  then Ok (sm_tick (s\<lparr>sm_ahead_since := sm_now s\<rparr>)) () else Ok s ()
          else then_do (apply_orders A sequence data 0 order_count s) (\<lambda>s _.
               let s = s\<lparr>sm_snapshot_sequence := sequence, sm_market_sequence := sequence\<rparr>
               in then_do (replay_pending A (sm_pending s) s) (\<lambda>s _.
                  simex_publishBook A (s\<lparr>sm_pending := [], sm_synchronized := True\<rparr>))))"

definition simex_datagram :: "simex_abi \<Rightarrow> bytes \<Rightarrow> simex_adapter \<Rightarrow> (simex_adapter, unit) outcome" where
  "simex_datagram A data s =
     (if length data < ab_header_size A then Throw s (Runtime_error ''Truncated simex datagram'')
      else let h = ab_header A (take (ab_header_size A) data)
           in if fh_kind h = ab_kind_update A then datagram_update A h data s
              else if fh_kind h = ab_kind_snapshot A then datagram_snapshot A h data s
              else Throw s (Runtime_error ''Unknown simex datagram kind''))"

section \<open>The poll of the market worker\<close>

text \<open>What the two system calls report: whether \<open>poll\<close> failed for another reason than a signal, the error
  bits and the readable bit, and the datagrams that \<open>recvfrom\<close> has (then it would block).\<close>

datatype receipt = Datagram bool bytes | Receive_failed

record udp_poll =
  up_failed :: bool
  up_error :: bool
  up_readable :: bool
  up_receipts :: "receipt list"

text \<open>\<open>catch (const std::exception&) { ... std::terminate(); }\<close>\<close>

definition or_terminate :: "('s, 'a) outcome \<Rightarrow> ('s, 'a) outcome" where
  "or_terminate m = (case m of Throw s e \<Rightarrow> Abort ''terminate'' | _ \<Rightarrow> m)"

primrec simex_market_batch :: "simex_abi \<Rightarrow> receipt list \<Rightarrow> simex_adapter \<Rightarrow> (simex_adapter, unit) outcome" where
  "simex_market_batch A [] s = Ok s ()"
| "simex_market_batch A (r # rs) s =
     (case r of
        Receive_failed \<Rightarrow> Throw s (Runtime_error ''Simex UDP read failed'')
      | Datagram loopback data \<Rightarrow>
          if \<not> loopback \<or> length data > 65507 then Throw s (Runtime_error ''Invalid simex UDP source or size'')
          else then_do (simex_datagram A data s) (\<lambda>s _. simex_market_batch A rs (sm_tick (s\<lparr>sm_last_packet := sm_now s\<rparr>))))"

text \<open>The timeouts of the feed; every call of the clock is a reading.\<close>

definition feed_deadline :: "simex_adapter \<Rightarrow> (simex_adapter, unit) outcome" where
  "feed_deadline s =
     (let now = sm_now s; s = sm_tick s
      in if now - sm_last_packet s > xc_feed_timeout (sm_config s)
         then Throw s (Runtime_error ''Simex market-data transport timeout'')
         else
           let s = (if sm_market_sequence s \<ge> sm_advertised_sequence s then s\<lparr>sm_ahead_since := 0\<rparr> else s)
           in if sm_ahead_since s = 0 then Ok s ()
              else let now = sm_now s; s = sm_tick s
                   in if now - sm_ahead_since s > xc_feed_timeout (sm_config s)
                      then Throw s (Runtime_error ''Simex snapshot confirms missing market increments'')
                      else Ok s ())"

definition simex_pollMarket :: "simex_abi \<Rightarrow> udp_poll \<Rightarrow> simex_adapter \<Rightarrow> (simex_adapter, unit) outcome" where
  "simex_pollMarket A p s =
     or_terminate
       (if up_failed p then Throw s (Runtime_error ''Simex UDP poll failed'')
        else if up_error p then Throw s (Runtime_error ''Simex market transport disconnected'')
        else then_do (if up_readable p then simex_market_batch A (take 256 (up_receipts p)) s else Ok s ())
               (\<lambda>s _. feed_deadline s))"

end
