(* ===== verification/SimexLevels.thy ===== *)
theory SimexLevels
  imports SimexBook "HOL-Library.Multiset"
begin

text \<open>
  The five levels that \<open>aggregate\<close> keeps in an array are the five best of the complete book: the
  array agrees with an insertion into a sorted association list that has no bound, cut to its length,
  and that list holds each price once with the sum of its quantities.
\<close>

section \<open>The order of prices\<close>

definition price_key :: "bool \<Rightarrow> price \<Rightarrow> int" where
  "price_key descending p = (if descending then - sint p else sint p)"

lemma price_before_key: "price_before d a b \<longleftrightarrow> price_key d a < price_key d b"
  by (simp add: price_before_def price_key_def word_sless_alt)

lemma price_key_inj: "price_key d a = price_key d b \<longleftrightarrow> a = b"
  by (auto simp: price_key_def intro: signed_word_eqI split: if_splits)

section \<open>Insertion without a bound\<close>

fun add_level :: "bool \<Rightarrow> price \<Rightarrow> 64 word \<Rightarrow> (price \<times> 64 word) list \<Rightarrow> (price \<times> 64 word) list" where
  "add_level d p q [] = [(p, q)]"
| "add_level d p q ((p', q') # ls) =
     (if p' = p then (p', q' + q) # ls
      else if price_before d p' p then (p', q') # add_level d p q ls
      else (p, q) # (p', q') # ls)"

lemma take_add_level: "take n (add_level d p q (take n ls)) = take n (add_level d p q ls)"
proof (induction d p q ls arbitrary: n rule: add_level.induct)
  case (2 d p q p' q' ls)
  then show ?case by (cases n) (auto simp: take_Cons')
qed simp

lemma add_level_at:
  "add_level d p q ls =
     (let k = length (takeWhile (\<lambda>l. price_before d (fst l) p) ls)
      in if k < length ls \<and> fst (ls ! k) = p then ls[k := (p, snd (ls ! k) + q)]
         else take k ls @ (p, q) # drop k ls)"
  by (induction d p q ls rule: add_level.induct) (auto simp: Let_def price_before_key)

lemma set_add_level: "fst ` set (add_level d p q ls) = insert p (fst ` set ls)"
  by (induction d p q ls rule: add_level.induct) auto

lemma sorted_add_level:
  "sorted_wrt (\<lambda>a b. price_before d (fst a) (fst b)) ls \<Longrightarrow>
   sorted_wrt (\<lambda>a b. price_before d (fst a) (fst b)) (add_level d p q ls)"
proof (induction d p q ls rule: add_level.induct)
  case (2 d p q p' q' ls)
  have "\<forall>b\<in>set (add_level d p q ls). price_before d p' (fst b)" if "price_before d p' p"
    using that 2(2) set_add_level[of d p q ls] by fastforce
  moreover have "price_before d p p'" if "p' \<noteq> p" "\<not> price_before d p' p"
    using that price_key_inj[of d p' p] by (auto simp: price_before_key)
  ultimately show ?case using 2 by (auto simp: price_before_key intro: less_trans)
qed simp

lemma map_of_add_level:
  "sorted_wrt (\<lambda>a b. price_before d (fst a) (fst b)) ls \<Longrightarrow>
   map_of (add_level d p q ls) = (map_of ls)(p \<mapsto> (case map_of ls p of None \<Rightarrow> q | Some q' \<Rightarrow> q' + q))"
proof (induction d p q ls rule: add_level.induct)
  case (2 d p q p' q' ls)
  show ?case
  proof (cases "p' = p \<or> price_before d p' p")
    case True
    then show ?thesis using 2 by (auto simp: fun_eq_iff price_before_key)
  next
    case False
    then have "\<not> price_before d p' p" "p' \<noteq> p" by auto
    then have "price_before d p p'" using price_key_inj[of d p' p] by (auto simp: price_before_key)
    moreover have "p \<notin> fst ` set ls"
    proof
      assume "p \<in> fst ` set ls"
      then obtain b where "b \<in> set ls" "fst b = p" by blast
      then have "price_before d p' p" using 2(2) by auto
      then show False using False by blast
    qed
    then have "map_of ls p = None" by (simp add: map_of_eq_None_iff)
    ultimately show ?thesis using False by auto
  qed
qed simp

section \<open>The array\<close>

definition level_content :: "level_aggregate list \<times> nat \<Rightarrow> (price \<times> 64 word) list" where
  "level_content = (\<lambda>(levels, cnt). map (\<lambda>l. (la_price l, la_qty l)) (take cnt levels))"

lemma length_shift_levels [simp]: "length (shift_levels i n xs) = length xs"
  by (induction i n xs rule: shift_levels.induct) (subst shift_levels.simps, simp)

lemma nth_shift_levels:
  "n < length xs \<Longrightarrow> k < length xs \<Longrightarrow>
   shift_levels i n xs ! k = (if i < k \<and> k \<le> n then xs ! (k - 1) else xs ! k)"
proof (induction i n xs rule: shift_levels.induct)
  case (1 i n xs)
  show ?case
  proof (cases "n > i")
    case True
    have "shift_levels i n xs = shift_levels i (n - 1) (xs[n := xs ! (n - 1)])"
      using True by (subst shift_levels.simps) simp
    then show ?thesis using 1 True by (auto simp: nth_list_update)
  qed (subst shift_levels.simps, auto)
qed

lemma shift_levels_insert:
  assumes "i \<le> n" "n < length xs"
  shows "(shift_levels i n xs)[i := x] = take i xs @ x # drop i (take n xs) @ drop (Suc n) xs"
proof (rule nth_equalityI)
  fix k assume "k < length ((shift_levels i n xs)[i := x])"
  then show "(shift_levels i n xs)[i := x] ! k = (take i xs @ x # drop i (take n xs) @ drop (Suc n) xs) ! k"
    using assms nth_shift_levels[of n xs k i]
    by (auto simp: nth_append nth_list_update nth_Cons' min_def)
qed (use assms in auto)

lemma aggregate_content:
  assumes "cnt \<le> length levels" "aggregate d p q (levels, cnt) = (levels', cnt')"
  shows "level_content (levels', cnt') = take (length levels) (add_level d p q (level_content (levels, cnt)))"
    and "length levels' = length levels" and "cnt' \<le> length levels"
proof -
  let ?c = "level_content (levels, cnt)"
  let ?f = "\<lambda>l. (la_price l, la_qty l)"
  define k where "k = length (takeWhile (\<lambda>l. price_before d (la_price l) p) (take cnt levels))"
  have k: "length (takeWhile (\<lambda>l. price_before d (fst l) p) ?c) = k"
    by (simp add: k_def level_content_def takeWhile_map comp_def)
  have le: "k \<le> cnt"
    using length_takeWhile_le[of "\<lambda>l. price_before d (la_price l) p" "take cnt levels"] assms(1) by (simp add: k_def)
  have c: "length ?c = cnt" "\<And>i. i < cnt \<Longrightarrow> ?c ! i = ?f (levels ! i)"
    using assms(1) by (simp_all add: level_content_def)
  have ref: "add_level d p q ?c = (if k < cnt \<and> la_price (levels ! k) = p
      then ?c[k := (p, la_qty (levels ! k) + q)] else take k ?c @ (p, q) # drop k ?c)"
    by (cases "k < cnt") (simp_all add: add_level_at[of d p q ?c] Let_def k c(1) c(2))
  have agg: "(levels', cnt') =
     (if k < cnt \<and> la_price (levels ! k) = p
        then (levels[k := (levels ! k)\<lparr>la_qty := la_qty (levels ! k) + q\<rparr>], cnt)
        else if cnt < length levels
        then ((shift_levels k cnt levels)[k := \<lparr>la_price = p, la_qty = q\<rparr>], cnt + 1)
        else if k = length levels then (levels, cnt)
        else ((shift_levels k (length levels - 1) levels)[k := \<lparr>la_price = p, la_qty = q\<rparr>], cnt))"
    using assms(2) unfolding aggregate_def Let_def prod.case k_def[symmetric] by (rule sym)
  show "level_content (levels', cnt') = take (length levels) (add_level d p q ?c)"
  proof (cases "k < cnt \<and> la_price (levels ! k) = p")
    case True
    then show ?thesis using agg ref assms(1) c(1)
      by (auto simp: level_content_def take_update_swap map_update)
  next
    case False
    have "levels' = take k levels @ \<lparr>la_price = p, la_qty = q\<rparr> # drop k (take cnt levels) @ drop (Suc cnt) levels \<and>
      cnt' = cnt + 1" if "cnt < length levels"
      using False that agg le shift_levels_insert[of k cnt levels] by auto
    moreover have "length levels - Suc k = cnt - k" if "cnt < length levels" "length levels - Suc k \<le> cnt - k" "k < cnt"
      using that by linarith
    moreover have "levels' = take k levels @ \<lparr>la_price = p, la_qty = q\<rparr> # drop k (take (cnt - 1) levels) \<and>
      cnt' = cnt" if "cnt = length levels" "k < cnt"
      using False that agg le shift_levels_insert[of k "cnt - 1" levels] by auto
    moreover have "levels' = levels \<and> cnt' = cnt" if "cnt = length levels" "k = cnt"
      using False that agg by auto
    ultimately show ?thesis
      using ref False assms(1) le c(1)
      by (cases "cnt < length levels"; cases "k < cnt")
         (auto simp: level_content_def min_def take_map drop_map take_Cons' drop_take)
  qed
  show "length levels' = length levels" "cnt' \<le> length levels"
    using agg assms(1) by (auto split: if_splits)
qed

section \<open>The reference\<close>

text \<open>What the comment on \<open>aggregate\<close> calls the ordered map: every price with the sum of its quantities,
  best first, cut to the number of levels. Sums of 64-bit integers wrap.\<close>

definition simex_total_at :: "(price \<times> 64 word) list \<Rightarrow> price \<Rightarrow> 64 word" where
  "simex_total_at cs p = sum_list (map snd (filter (\<lambda>c. fst c = p) cs))"

definition best_levels :: "bool \<Rightarrow> nat \<Rightarrow> (price \<times> 64 word) list \<Rightarrow> (price \<times> 64 word) list" where
  "best_levels d n cs = map (\<lambda>p. (p, simex_total_at cs p)) (take n (sort_key (price_key d) (remdups (map fst cs))))"

definition add_all :: "bool \<Rightarrow> (price \<times> 64 word) list \<Rightarrow> (price \<times> 64 word) list" where
  "add_all d cs = fold (\<lambda>c. add_level d (fst c) (snd c)) cs []"

lemma add_all_snoc: "add_all d (cs @ [c]) = add_level d (fst c) (snd c) (add_all d cs)"
  by (simp add: add_all_def)

lemma add_all_ok:
  "sorted_wrt (\<lambda>a b. price_before d (fst a) (fst b)) (add_all d cs) \<and> fst ` set (add_all d cs) = fst ` set cs \<and>
   map_of (add_all d cs) = (\<lambda>p. if p \<in> fst ` set cs then Some (simex_total_at cs p) else None)"
proof (induction cs rule: rev_induct)
  case (snoc c cs)
  have "simex_total_at cs p = 0" if "p \<notin> fst ` set cs" for p
    proof -
    have "filter (\<lambda>c. fst c = p) cs = []" using that by (force simp: filter_empty_conv)
    then show ?thesis by (simp add: simex_total_at_def)
  qed
  then show ?case
    using snoc sorted_add_level map_of_add_level[of d "add_all d cs" "fst c" "snd c"]
    by (auto simp: add_all_snoc set_add_level fun_eq_iff simex_total_at_def)
qed (simp add: add_all_def)

lemma sorted_keys_unique:
  assumes "sorted_wrt (\<lambda>a b. price_before d a b) ps" "set ps = set qs"
  shows "ps = sort_key (price_key d) (remdups qs)"
proof -
  let ?k = "price_key d"
  have inj: "inj ?k" by (simp add: inj_def price_key_inj)
  have "sorted_wrt (<) (map ?k ps)" using assms(1) by (simp add: sorted_wrt_map price_before_key)
  moreover have "distinct (map ?k (sort_key ?k (remdups qs)))"
    by (simp add: distinct_map inj_on_def price_key_inj)
  ultimately have "map ?k ps = map ?k (sort_key ?k (remdups qs))"
    using assms(2) by (intro sorted_distinct_set_unique) (auto simp: strict_sorted_iff)
  then show ?thesis using inj by (simp add: inj_map_eq_map)
qed

lemma add_all_best: "take n (add_all d cs) = best_levels d n cs"
proof -
  have ps: "map fst (add_all d cs) = sort_key (price_key d) (remdups (map fst cs))"
    using add_all_ok[of d cs] by (intro sorted_keys_unique) (simp_all add: sorted_wrt_map)
  have "distinct (map fst (add_all d cs))" unfolding ps by simp
  then have "snd c = simex_total_at cs (fst c)" if "c \<in> set (add_all d cs)" for c
    using that add_all_ok[of d cs] map_of_is_SomeI[of "add_all d cs" "fst c" "snd c"]
    by (auto split: if_splits)
  then have "add_all d cs = map (\<lambda>p. (p, simex_total_at cs p)) (map fst (add_all d cs))"
    by (intro nth_equalityI) (auto simp: prod_eq_iff)
  then show ?thesis unfolding best_levels_def ps[symmetric] by (metis take_map)
qed

lemma fold_aggregate:
  assumes "length levels = n"
  shows "case fold (\<lambda>c. aggregate d (fst c) (snd c)) cs (levels, 0) of (levels', cnt') \<Rightarrow>
    level_content (levels', cnt') = best_levels d n cs \<and> length levels' = n \<and> cnt' \<le> n"
  unfolding add_all_best[symmetric]
proof (induction cs rule: rev_induct)
  case Nil
  then show ?case using assms by (simp add: level_content_def add_all_def)
next
  case (snoc c cs)
  obtain l k where f: "fold (\<lambda>c. aggregate d (fst c) (snd c)) cs (levels, 0) = (l, k)" by fastforce
  obtain l' k' where a: "aggregate d (fst c) (snd c) (l, k) = (l', k')" by fastforce
  show ?case
    using snoc aggregate_content[OF _ a] by (simp add: f a add_all_snoc take_add_level)
qed

lemma best_levels_perm: "mset cs = mset cs' \<Longrightarrow> best_levels d n cs = best_levels d n cs'"
proof -
  assume m: "mset cs = mset cs'"
  have "simex_total_at cs p = simex_total_at cs' p" for p
    using m by (simp add: simex_total_at_def sum_mset_sum_list[symmetric] mset_filter)
  moreover have "sort_key (price_key d) (remdups (map fst cs)) = sort_key (price_key d) (remdups (map fst cs'))"
  proof (rule sorted_keys_unique)
    show "sorted_wrt (price_before d) (sort_key (price_key d) (remdups (map fst cs)))"
    proof -
      have "sorted_wrt (<) (map (price_key d) (sort_key (price_key d) (remdups (map fst cs))))"
        using price_key_inj[of d] by (auto simp: strict_sorted_iff distinct_map inj_on_def)
      then show ?thesis by (simp add: sorted_wrt_map price_before_key[abs_def])
    qed
  qed (use mset_eq_setD[OF m] in auto)
  ultimately show ?thesis by (simp add: best_levels_def)
qed

section \<open>Publication\<close>

definition contributions :: "simex_abi \<Rightarrow> bool \<Rightarrow> (64 word \<times> venue_update) list \<Rightarrow> (price \<times> 64 word) list" where
  "contributions A buy book =
     [(vu_price_ticks u, ab_widen A (vu_qty u)). (_, u) \<leftarrow> book, (vu_side u = Venue_BUY) = buy]"

definition depth_of :: "(price \<times> 64 word) list \<Rightarrow> depth_level list" where
  "depth_of ls = map (\<lambda>(p, q). \<lparr>dl_price = p, dl_qty = ucast q\<rparr>) ls @
     replicate (DEPTH_SNAPSHOT_LEVELS - length ls) depth_level_init"

definition levels_wf :: "simex_adapter \<Rightarrow> bool" where
  "levels_wf s \<longleftrightarrow> length (sm_bid_levels s) = DEPTH_SNAPSHOT_LEVELS \<and> length (sm_ask_levels s) = DEPTH_SNAPSHOT_LEVELS"

definition overflows :: "(price \<times> 64 word) list \<Rightarrow> bool" where
  "overflows ls \<longleftrightarrow> list_ex (\<lambda>l. snd l \<ge> ucast Qty_INVALID) ls"

definition two_sided :: "(price \<times> 64 word) list \<Rightarrow> (price \<times> 64 word) list \<Rightarrow> bool" where
  "two_sided bids asks \<longleftrightarrow> bids \<noteq> [] \<and> asks \<noteq> [] \<and> fst (hd bids) <s fst (hd asks)"

definition depth_update_of :: "ticker_id \<Rightarrow> price \<Rightarrow> (price \<times> 64 word) list \<Rightarrow> (price \<times> 64 word) list \<Rightarrow> market_update" where
  "depth_update_of t traded bids asks = market_update_init
     \<lparr>mu_type := DEPTH_SNAPSHOT, mu_ticker_id := t,
      mu_depth := depth_snapshot_init\<lparr>ds_bids := depth_of bids, ds_asks := depth_of asks, ds_last_price := traded,
                                      ds_open_interest := NaN\<rparr>\<rparr>"

lemma contributions_snoc:
  "contributions A b (book @ [x]) = contributions A b book @
     (if (vu_side (snd x) = Venue_BUY) = b then [(vu_price_ticks (snd x), ab_widen A (vu_qty (snd x)))] else [])"
  by (cases x) (simp add: contributions_def)

lemma aggregate_book:
  "fold (aggregate_order A \<circ> snd) book (clear_levels s) =
     (let (bl, bn) = fold (\<lambda>c. aggregate True (fst c) (snd c)) (contributions A True book) (sm_bid_levels s, 0);
          (al, an) = fold (\<lambda>c. aggregate False (fst c) (snd c)) (contributions A False book) (sm_ask_levels s, 0)
      in s\<lparr>sm_bid_levels := bl, sm_ask_levels := al, sm_bid_level_count := bn, sm_ask_level_count := an\<rparr>)"
proof (induction book rule: rev_induct)
  case (snoc x book)
  then show ?case
    by (auto simp: contributions_snoc aggregate_order_def Let_def split: prod.splits)
qed (simp add: clear_levels_def contributions_def)

lemma copy_levels_content:
  assumes "length levels = DEPTH_SNAPSHOT_LEVELS" "n \<le> DEPTH_SNAPSHOT_LEVELS"
  shows "copy_levels levels n (replicate DEPTH_SNAPSHOT_LEVELS depth_level_init) =
    (if overflows (level_content (levels, n)) then Inl (Runtime_error ''Simex aggregate quantity overflow'')
     else Inr (depth_of (level_content (levels, n))))"
  using assms
  by (auto simp: copy_levels_def overflows_def level_content_def depth_of_def list_ex_iff min_def)

lemma best_prices:
  assumes "level_content (levels, n) = bids" "level_content (levels', n') = asks" "n \<le> length levels" "n' \<le> length levels'"
  shows "(n > 0 \<and> n' > 0 \<and> la_price (levels ! 0) <s la_price (levels' ! 0)) = two_sided bids asks"
  using assms by (cases levels; cases levels'; cases n; cases n') (auto simp: level_content_def two_sided_def)

text \<open>C9: The depth that the simex adapter publishes is computed in two arrays of five places, one pass
  over the hashed book in whatever order it is stored. It is the depth of the complete book: on each
  side the five best prices with the sum of all quantities at each. A sum that does not fit a quantity
  is an error, and the book counts as usable when both sides have a price and they do not cross.\<close>

theorem simex_levels_are_best:
  assumes "levels_wf s"
  shows "\<exists>bl bn al an. levels_wf (s\<lparr>sm_bid_levels := bl, sm_ask_levels := al\<rparr>) \<and>
    (let bids = best_levels True 5 (contributions A True (sm_book s));
         asks = best_levels False 5 (contributions A False (sm_book s));
         s1 = s\<lparr>sm_bid_levels := bl, sm_ask_levels := al, sm_bid_level_count := bn, sm_ask_level_count := an\<rparr>
     in simex_publishBook A s =
          (if overflows bids \<or> overflows asks
           then Throw s1 (Runtime_error ''Simex aggregate quantity overflow'')
           else on_part (\<lambda>m. s1\<lparr>sm_usable := two_sided bids asks, sm_market := m\<rparr>)
             (publishMarketUpdate (depth_update_of (xc_ticker_id (sm_config s)) (sm_last_trade s) bids asks)
               (sm_market s))))"
proof -
  obtain bl bn where b: "fold (\<lambda>c. aggregate True (fst c) (snd c)) (contributions A True (sm_book s)) (sm_bid_levels s, 0) =
      (bl, bn)" by fastforce
  obtain al an where a: "fold (\<lambda>c. aggregate False (fst c) (snd c)) (contributions A False (sm_book s)) (sm_ask_levels s, 0) =
      (al, an)" by fastforce
  have B: "level_content (bl, bn) = best_levels True 5 (contributions A True (sm_book s))" "length bl = 5" "bn \<le> 5"
    using fold_aggregate[of "sm_bid_levels s" 5 True "contributions A True (sm_book s)"] assms b
    by (simp_all add: levels_wf_def DEPTH_SNAPSHOT_LEVELS_def)
  have K: "level_content (al, an) = best_levels False 5 (contributions A False (sm_book s))" "length al = 5" "an \<le> 5"
    using fold_aggregate[of "sm_ask_levels s" 5 False "contributions A False (sm_book s)"] assms a
    by (simp_all add: levels_wf_def DEPTH_SNAPSHOT_LEVELS_def)
  let ?bids = "level_content (bl, bn)" and ?asks = "level_content (al, an)"
  let ?s1 = "s\<lparr>sm_bid_levels := bl, sm_ask_levels := al, sm_bid_level_count := bn, sm_ask_level_count := an\<rparr>"
  have init: "ds_bids depth_snapshot_init = replicate DEPTH_SNAPSHOT_LEVELS depth_level_init"
      "ds_asks depth_snapshot_init = replicate DEPTH_SNAPSHOT_LEVELS depth_level_init"
    by (simp_all add: depth_snapshot_init_def)
  have copied: "copy_levels bl bn (ds_bids depth_snapshot_init) =
      (if overflows ?bids then Inl (Runtime_error ''Simex aggregate quantity overflow'') else Inr (depth_of ?bids))"
      "copy_levels al an (ds_asks depth_snapshot_init) =
      (if overflows ?asks then Inl (Runtime_error ''Simex aggregate quantity overflow'') else Inr (depth_of ?asks))"
    unfolding init using B(2,3) K(2,3) copy_levels_content[of bl bn] copy_levels_content[of al an]
    by (simp_all add: DEPTH_SNAPSHOT_LEVELS_def)
  have ready: "book_ready ?s1 = two_sided ?bids ?asks"
    using best_prices[OF refl refl, of bn bl an al] B(2,3) K(2,3) by (simp add: book_ready_def)
  have book: "fold (aggregate_order A \<circ> snd) (sm_book s) (clear_levels s) = ?s1"
    by (simp add: aggregate_book a b)
  have "simex_publishBook A s =
      (if overflows ?bids \<or> overflows ?asks
       then Throw ?s1 (Runtime_error ''Simex aggregate quantity overflow'')
       else on_part (\<lambda>m. ?s1\<lparr>sm_usable := two_sided ?bids ?asks, sm_market := m\<rparr>)
         (publishMarketUpdate (depth_update_of (xc_ticker_id (sm_config s)) (sm_last_trade s) ?bids ?asks) (sm_market s)))"
    unfolding simex_publishBook_def Let_def book ready
    by (cases "overflows ?bids"; cases "overflows ?asks") (simp_all add: copied depth_update_of_def)
  moreover have "levels_wf (s\<lparr>sm_bid_levels := bl, sm_ask_levels := al\<rparr>)"
    using B(2) K(2) by (simp add: levels_wf_def DEPTH_SNAPSHOT_LEVELS_def)
  ultimately show ?thesis
    unfolding B(1)[symmetric] K(1)[symmetric] Let_def by blast
qed

definition demo_abi :: simex_abi where
  "demo_abi =
     \<lparr>ab_version = 1, ab_kind_update = 1, ab_kind_snapshot = 2, ab_kind_request = 3, ab_kind_response = 4,
      ab_header_size = 2, ab_update_size = 3, ab_update_payload = 1, ab_prefix_size = 4, ab_order_size = 3,
      ab_request_size = 3, ab_request_payload = 1,
      ab_request_header = \<lparr>fh_version = 1, fh_reserved = 0, fh_kind = 0, fh_payload_size = 0, fh_sequence = 0\<rparr>, ab_response_size = 3, ab_response_payload = 1,
      ab_header = (\<lambda>d. \<lparr>fh_version = 1, fh_reserved = 0, fh_kind = unat (d ! 0), fh_payload_size = 1,
                        fh_sequence = ucast (d ! 1)\<rparr>),
      ab_update = (\<lambda>d. \<lparr>vu_type = Venue_ADD, vu_ticker_id = 0, vu_market_order_id = ucast (d ! 2), vu_side = Venue_BUY,
                        vu_price_ticks = 100, vu_qty = 1, vu_leaves_qty = 1\<rparr>),
      ab_prefix = (\<lambda>d. (unat (d ! 2), unat (d ! 3))),
      ab_order = (\<lambda>d. (ucast (d ! 0), \<lparr>vu_type = Venue_ADD, vu_ticker_id = 0, vu_market_order_id = ucast (d ! 1),
                        vu_side = Venue_SELL, vu_price_ticks = ucast (d ! 2), vu_qty = 1, vu_leaves_qty = 1\<rparr>)),
      ab_response = (\<lambda>d. (\<lparr>fh_version = 1, fh_reserved = 0, fh_kind = unat (d ! 0), fh_payload_size = 1,
                          fh_sequence = ucast (d ! 1)\<rparr>,
                        \<lparr>vr_type = Venue_FILLED, vr_client_id = 7, vr_ticker_id = 0, vr_client_order_id = 1,
                         vr_market_order_id = 55, vr_side = Venue_BUY, vr_position_effect = Effect_OPEN,
                         vr_price_ticks = 100, vr_exec_qty = ucast (d ! 2), vr_leaves_qty = 5 - ucast (d ! 2)\<rparr>)),
      ab_request = (\<lambda>(h, r). [of_nat (fh_kind h), ucast (fh_sequence h), ucast (vq_client_order_id r)]),
      ab_invalid_order_id = - 1, ab_widen = ucast\<rparr>"

definition demo_simex :: simex_adapter where
  "demo_simex = projr (simex_adapter_new
     (Some (market_data_consumer_new 7 None (\<lambda>_. 0)))
     (Some (order_gateway_new 7 None None (\<lambda>_. 0))) simex_config_init int)"

lemma demo_simex_fields:
  "demo_simex = \<lparr>sm_market = market_data_consumer_new 7 None (\<lambda>_. 0), sm_gateway = order_gateway_new 7 None None (\<lambda>_. 0),
     sm_config = simex_config_init, sm_running = False, sm_started = False,
            sm_tcp = False, sm_udp = False, sm_handlers = False, sm_synchronized = False, sm_usable = False,
            sm_request_sequence = 0, sm_response_sequence = 0, sm_market_sequence = 0, sm_snapshot_sequence = 0,
            sm_participant_response_sequence = 1, sm_outgoing = [], sm_sent = 0, sm_transmitted = [], sm_incoming = [],
            sm_last_packet = 0, sm_last_write = 0, sm_ahead_since = 0, sm_advertised_sequence = 0,
            sm_orders = [], sm_book = [], sm_pending = [], sm_last_trade = Price_INVALID, sm_net_position = 0,
            sm_bid_levels = replicate 5 simex_level_init, sm_ask_levels = replicate 5 simex_level_init,
            sm_bid_level_count = 0, sm_ask_level_count = 0, sm_clock = int, sm_ticks = 0\<rparr>"
  by (simp add: demo_simex_def simex_adapter_new_def market_data_consumer_new_def order_gateway_new_def
      ClientId_INVALID_def DEPTH_SNAPSHOT_LEVELS_def)

definition demo_simex_order :: "venue_side \<Rightarrow> price \<Rightarrow> qty \<Rightarrow> venue_update" where
  "demo_simex_order sd px q = \<lparr>vu_type = Venue_ADD, vu_ticker_id = 0, vu_market_order_id = 1, vu_side = sd,
     vu_price_ticks = px, vu_qty = q, vu_leaves_qty = q\<rparr>"

definition demo_book :: "(64 word \<times> venue_update) list" where
  "demo_book = [(1, demo_simex_order Venue_BUY 100 3), (2, demo_simex_order Venue_SELL 105 2), (3, demo_simex_order Venue_BUY 101 1),
     (4, demo_simex_order Venue_BUY 100 4)]"

lemma demo_levels:
  "best_levels True 5 (contributions demo_abi True demo_book) = [(101, 1), (100, 7)]"
  "best_levels False 5 (contributions demo_abi False demo_book) = [(105, 2)]"
  by (simp_all add: demo_book_def demo_simex_order_def contributions_def demo_abi_def best_levels_def simex_total_at_def price_key_def)

lemma demo_quoted:
  "\<not> overflows [(101, 1), (100, 7)]" "\<not> overflows [(105, 2)]" "two_sided [(101, 1), (100, 7)] [(105, 2)]"
  by code_simp+

lemma simex_levels_are_best_witness:
  "\<exists>s1. simex_publishBook demo_abi (demo_simex\<lparr>sm_book := demo_book\<rparr>) =
     on_part (\<lambda>m. s1\<lparr>sm_usable := True, sm_market := m\<rparr>)
       (publishMarketUpdate (depth_update_of 0 Price_INVALID [(101, 1), (100, 7)] [(105, 2)])
         (sm_market demo_simex))"
proof -
  have "levels_wf (demo_simex\<lparr>sm_book := demo_book\<rparr>)"
    by (simp add: levels_wf_def demo_simex_fields DEPTH_SNAPSHOT_LEVELS_def)
  from simex_levels_are_best[OF this, of demo_abi] obtain s1 where
    "simex_publishBook demo_abi (demo_simex\<lparr>sm_book := demo_book\<rparr>) =
       on_part (\<lambda>m. s1\<lparr>sm_usable := True, sm_market := m\<rparr>)
         (publishMarketUpdate (depth_update_of (xc_ticker_id (sm_config demo_simex)) (sm_last_trade demo_simex)
           [(101, 1), (100, 7)] [(105, 2)]) (sm_market demo_simex))"
    by (auto simp: demo_levels demo_quoted Let_def)
  then show ?thesis by (auto simp: demo_simex_fields simex_config_init_def)
qed

end
