(* ===== verification/SimexOrders.thy ===== *)
theory SimexOrders
  imports SimexLevels
begin

text \<open>
  The order side of \<open>trading/venue/simex/simex_venue_adapter.cpp\<close>: the requests of the gateway, the frames of
  the TCP stream in both directions, and the life cycle of the adapter.
\<close>

section \<open>Requests\<close>

definition simex_publish :: "client_response \<Rightarrow> simex_adapter \<Rightarrow> (simex_adapter, unit) outcome" where
  "simex_publish r s =
     (let n = sm_participant_response_sequence s; s = s\<lparr>sm_participant_response_sequence := n + 1\<rparr>
      in on_part (\<lambda>g. s\<lparr>sm_gateway := g\<rparr>) (publishClientResponse n r (sm_gateway s)))"

definition simex_rejection :: "client_request \<Rightarrow> simex_adapter \<Rightarrow> client_response" where
  "simex_rejection r s = client_response_init
     \<lparr>rs_type := (if rq_type r = Request_CANCEL then CANCEL_REJECTED else REJECTED),
      rs_client_id := og_client_id (sm_gateway s), rs_ticker_id := rq_ticker_id r,
      rs_client_order_id := rq_order_id r, rs_side := rq_side r, rs_price := rq_price r,
      rs_exec_qty := 0, rs_leaves_qty := rq_qty r, rs_order_type := rq_order_type r, rs_offset := rq_offset r\<rparr>"

definition simex_reject :: "client_request \<Rightarrow> simex_adapter \<Rightarrow> (simex_adapter, unit) outcome" where
  "simex_reject r s = simex_publish (simex_rejection r s) s"

definition invalid_request :: "client_request \<Rightarrow> simex_adapter \<Rightarrow> bool" where
  "invalid_request r s \<longleftrightarrow>
     rq_client_id r \<noteq> og_client_id (sm_gateway s) \<or> rq_ticker_id r \<noteq> xc_ticker_id (sm_config s) \<or>
     rq_order_id r = OrderId_INVALID \<or> (rq_side r \<noteq> BUY \<and> rq_side r \<noteq> SELL) \<or>
     (rq_type r \<noteq> Request_CANCEL \<and> rq_type r \<noteq> Request_NEW)"

definition unsupported_order :: "client_request \<Rightarrow> bool" where
  "unsupported_order r \<longleftrightarrow>
     \<not> validQty (rq_qty r) \<or> rq_qty r > 0x7FFFFFFF \<or> (rq_order_type r \<noteq> LIMIT \<and> rq_order_type r \<noteq> MARKET) \<or>
     (rq_order_type r = LIMIT \<and> \<not> validPrice (rq_price r))"

definition live_opening :: "simex_order \<Rightarrow> bool" where
  "live_opening o' \<longleftrightarrow> \<not> so_terminal o' \<and> rq_offset (so_request o') = OPEN"

definition opposite_exposure :: "client_request \<Rightarrow> simex_adapter \<Rightarrow> bool" where
  "opposite_exposure r s \<longleftrightarrow>
     (rq_side r = BUY \<and> sm_net_position s < 0) \<or> (rq_side r \<noteq> BUY \<and> sm_net_position s > 0) \<or>
     list_ex (\<lambda>(_, o'). live_opening o' \<and> rq_side (so_request o') \<noteq> rq_side r) (sm_orders s)"

definition wire_request :: "simex_abi \<Rightarrow> bool \<Rightarrow> client_request \<Rightarrow> client_request \<Rightarrow> position_effect \<Rightarrow>
    frame_header \<times> venue_request" where
  "wire_request A is_cancel r original eff =
     ((ab_request_header A)\<lparr>fh_kind := ab_kind_request A, fh_payload_size := ab_request_payload A\<rparr>,
      \<lparr>vq_type = (if is_cancel then Venue_CANCEL_REQUEST else Venue_NEW_REQUEST), vq_client_id = rq_client_id r,
       vq_ticker_id = 0, vq_client_order_id = rq_order_id r,
       vq_side = (if rq_side original = BUY then Venue_BUY else Venue_SELL),
       vq_limit = (rq_order_type original = LIMIT), vq_position_effect = eff,
       vq_price_ticks = rq_price original, vq_qty = rq_qty original\<rparr>)"

text \<open>Finished orders make room when the table is full.\<close>

definition evict_finished :: "simex_adapter \<Rightarrow> simex_adapter" where
  "evict_finished s =
     (if length (sm_orders s) \<ge> xc_capacity (sm_config s)
      then s\<lparr>sm_orders := filter (\<lambda>(_, o'). \<not> (so_terminal o' \<and> \<not> so_cancel_pending o')) (sm_orders s)\<rparr> else s)"

definition queue_request :: "frame_header \<times> venue_request \<Rightarrow> simex_adapter \<Rightarrow> simex_adapter" where
  "queue_request w s =
     (let s = (if sm_outgoing s = [] then sm_tick (s\<lparr>sm_last_write := sm_now s\<rparr>) else s)
      in s\<lparr>sm_outgoing := sm_outgoing s @ [w]\<rparr>)"

definition not_cancelable :: "simex_order option \<Rightarrow> bool" where
  "not_cancelable found \<longleftrightarrow> (case found of None \<Rightarrow> True | Some o' \<Rightarrow> so_terminal o' \<or> so_cancel_pending o')"

definition simex_submit :: "simex_abi \<Rightarrow> client_request \<Rightarrow> simex_adapter \<Rightarrow> (simex_adapter, unit) outcome" where
  "simex_submit A r s =
     (let is_cancel = (rq_type r = Request_CANCEL); found = map_of (sm_orders s) (rq_order_id r)
      in if invalid_request r s then simex_reject r s
         else if \<not> is_cancel \<and> unsupported_order r then simex_reject r s
         else if is_cancel \<and> not_cancelable found then simex_reject r s
         else if \<not> is_cancel \<and> found \<noteq> None then simex_reject r s
         else if \<not> is_cancel \<and> rq_offset r = OPEN \<and> opposite_exposure r s then simex_reject r s
         else
           let original = (case found of Some o' \<Rightarrow> so_request o' | None \<Rightarrow> r)
           in case simex_effect (rq_offset original) of
                Inl _ \<Rightarrow> simex_reject r s
              | Inr eff \<Rightarrow>
                  if length (sm_outgoing s) \<ge> xc_capacity (sm_config s)
                  then Throw s (Runtime_error ''Simex outbound buffer overflow'')
                  else
                    let s = evict_finished s; w = wire_request A is_cancel r original eff
                    in case found of
                         Some o' \<Rightarrow> Ok (queue_request w (s\<lparr>sm_orders :=
                             AList.update (rq_order_id r) (o'\<lparr>so_cancel_pending := True\<rparr>) (sm_orders s)\<rparr>)) ()
                       | None \<Rightarrow>
                           if length (sm_orders s) \<ge> xc_capacity (sm_config s)
                           then Throw s (Runtime_error ''Simex order metadata capacity exhausted'')
                           else Ok (queue_request w (s\<lparr>sm_orders := sm_orders s @
                             [(rq_order_id r, \<lparr>so_request = r, so_remaining = rq_qty r, so_terminal = False,
                                               so_cancel_pending = False\<rparr>)]\<rparr>)) ())"

section \<open>Responses\<close>

definition put_simex_order :: "order_id \<Rightarrow> simex_order \<Rightarrow> simex_adapter \<Rightarrow> simex_adapter" where
  "put_simex_order i o' s = s\<lparr>sm_orders := AList.update i o' (sm_orders s)\<rparr>"

definition invalid_fill :: "venue_response \<Rightarrow> simex_order \<Rightarrow> bool" where
  "invalid_fill v o' \<longleftrightarrow>
     so_terminal o' \<or> \<not> validQty (vr_exec_qty v) \<or> \<not> validPrice (vr_price_ticks v) \<or>
     vr_exec_qty v > so_remaining o' \<or> vr_leaves_qty v \<noteq> so_remaining o' - vr_exec_qty v"

text \<open>The switch over the kinds of responses: the kind that is reported.\<close>

definition simex_outcome :: "simex_abi \<Rightarrow> venue_response \<Rightarrow> simex_order \<Rightarrow> simex_adapter \<Rightarrow>
    (simex_adapter, client_response_type) outcome" where
  "simex_outcome A v o' s =
     (let put = (\<lambda>o'. put_simex_order (vr_client_order_id v) o' s)
      in case vr_type v of
           Venue_ACCEPTED \<Rightarrow> Ok s ACCEPTED
         | Venue_REJECTED \<Rightarrow> Ok (put (o'\<lparr>so_terminal := True\<rparr>)) REJECTED
         | Venue_CANCELED \<Rightarrow> Ok (put (o'\<lparr>so_terminal := True, so_cancel_pending := False\<rparr>)) CANCELED
         | Venue_CANCEL_REJECTED \<Rightarrow> Ok (put (o'\<lparr>so_cancel_pending := False\<rparr>)) CANCEL_REJECTED
         | Venue_FILLED \<Rightarrow>
             if invalid_fill v o' then Throw s (Runtime_error ''Invalid simex execution quantities'')
             else
               let s = put (o'\<lparr>so_remaining := vr_leaves_qty v, so_terminal := (vr_leaves_qty v = 0)\<rparr>);
                   net = sm_net_position s + (if vr_side v = Venue_BUY then 1 else -1) * sint (ab_widen A (vr_exec_qty v));
                   s = s\<lparr>sm_net_position := net\<rparr>
               in if net < - (2 ^ 31) \<or> net > 2 ^ 31 - 1
                  then Throw s (Runtime_error ''Simex position exceeds participant representation'')
                  else Ok s FILLED
         | Venue_response_other \<Rightarrow> Throw s (Runtime_error ''Unsupported simex response kind''))"

definition simex_report :: "venue_response \<Rightarrow> side \<Rightarrow> simex_order \<Rightarrow> client_response_type \<Rightarrow> simex_adapter \<Rightarrow> client_response" where
  "simex_report v sd o' t s = client_response_init
     \<lparr>rs_client_id := vr_client_id v, rs_ticker_id := xc_ticker_id (sm_config s),
      rs_client_order_id := vr_client_order_id v, rs_venue_order_id := vr_market_order_id v, rs_side := sd,
      rs_price := vr_price_ticks v, rs_exec_qty := vr_exec_qty v, rs_leaves_qty := vr_leaves_qty v,
      rs_order_type := rq_order_type (so_request o'), rs_offset := rq_offset (so_request o'), rs_type := t\<rparr>"

definition simex_response :: "simex_abi \<Rightarrow> frame_header \<times> venue_response \<Rightarrow> simex_adapter \<Rightarrow>
    (simex_adapter, unit) outcome" where
  "simex_response A w s =
     (let (h, v) = w
      in try_with s (checkHeader A h (ab_kind_response A) (ab_response_payload A)) (\<lambda>_.
         let expected = sm_response_sequence s; s = s\<lparr>sm_response_sequence := expected + 1\<rparr>
         in if fh_sequence h \<noteq> expected then Throw s (Runtime_error ''Simex response sequence gap'')
            else if vr_client_id v \<noteq> og_client_id (sm_gateway s) \<or> vr_ticker_id v \<noteq> 0
            then Throw s (Runtime_error ''Simex private response identity mismatch'')
            else case map_of (sm_orders s) (vr_client_order_id v) of
                   None \<Rightarrow> Throw s (Runtime_error ''Simex response refers to unknown order'')
                 | Some o' \<Rightarrow>
                     try_with s (simex_side (vr_side v)) (\<lambda>sd.
                     if sd \<noteq> rq_side (so_request o')
                     then Throw s (Runtime_error ''Simex response attributes mismatch'')
                     else try_with s (simex_effect (rq_offset (so_request o'))) (\<lambda>eff.
                     if vr_position_effect v \<noteq> eff
                     then Throw s (Runtime_error ''Simex response attributes mismatch'')
                     else then_do (simex_outcome A v o' s) (\<lambda>s t.
                            simex_publish (simex_report v sd o' t s) s)))))"

section \<open>The poll of the gateway worker\<close>

text \<open>The results of \<open>recv\<close> up to the one that would block, and that of \<open>send\<close>.\<close>

datatype tcp_receipt = Received bytes | Peer_closed | Read_failed

datatype tcp_send = Sent nat | Send_blocked | Send_failed

record tcp_poll =
  tp_failed :: bool
  tp_error :: bool
  tp_readable :: bool
  tp_receipts :: "tcp_receipt list"
  tp_writable :: bool
  tp_send :: tcp_send

primrec tcp_batch :: "simex_abi \<Rightarrow> tcp_receipt list \<Rightarrow> simex_adapter \<Rightarrow> (simex_adapter, unit) outcome" where
  "tcp_batch A [] s = Ok s ()"
| "tcp_batch A (r # rs) s =
     (case r of
        Peer_closed \<Rightarrow> Throw s (Runtime_error ''Simex TCP disconnected; execution status may be unknown'')
      | Read_failed \<Rightarrow> Throw s (Runtime_error ''Simex TCP read failed'')
      | Received chunk \<Rightarrow>
          let s = s\<lparr>sm_incoming := sm_incoming s @ chunk\<rparr>
          in if length (sm_incoming s) = ab_response_size A
             then then_do (simex_response A (ab_response A (sm_incoming s)) s)
                    (\<lambda>s _. tcp_batch A rs (s\<lparr>sm_incoming := []\<rparr>))
             else tcp_batch A rs s)"

definition tcp_transmit :: "simex_abi \<Rightarrow> tcp_send \<Rightarrow> simex_adapter \<Rightarrow> (simex_adapter, unit) outcome" where
  "tcp_transmit A result s =
     (case sm_outgoing s of
        [] \<Rightarrow> Ok s ()
      | (h, r) # rest \<Rightarrow>
          let h = (if sm_sent s = 0 then h\<lparr>fh_sequence := sm_request_sequence s\<rparr> else h);
              s = s\<lparr>sm_outgoing := (h, r) # rest\<rparr>
          in case result of
               Send_failed \<Rightarrow> Throw s (Runtime_error ''Simex TCP send failed; execution status may be unknown'')
             | _ \<Rightarrow>
                 let n = (case result of Sent n \<Rightarrow> n | _ \<Rightarrow> 0);
                     s = (if n > 0
                          then sm_tick (s\<lparr>sm_transmitted := sm_transmitted s @ take n (drop (sm_sent s) (ab_request A (h, r))),
                                          sm_sent := sm_sent s + n, sm_last_write := sm_now s\<rparr>)
                          else s)
                 in Ok (if sm_sent s = ab_request_size A
                        then s\<lparr>sm_outgoing := rest, sm_sent := 0, sm_request_sequence := sm_request_sequence s + 1\<rparr>
                        else s) ())"

definition send_deadline :: "simex_adapter \<Rightarrow> (simex_adapter, unit) outcome" where
  "send_deadline s =
     (if sm_outgoing s = [] then Ok s ()
      else let now = sm_now s; s = sm_tick s
           in if now - sm_last_write s > xc_connect_timeout (sm_config s)
              then Throw s (Runtime_error ''Simex TCP send timeout; execution status may be unknown'') else Ok s ())"

definition simex_pollOrders :: "simex_abi \<Rightarrow> tcp_poll \<Rightarrow> simex_adapter \<Rightarrow> (simex_adapter, unit) outcome" where
  "simex_pollOrders A p s =
     or_terminate
       (if tp_failed p then Throw s (Runtime_error ''Simex TCP poll failed'')
        else if tp_error p then Throw s (Runtime_error ''Simex transport disconnected'')
        else then_do (if tp_readable p then tcp_batch A (take 256 (tp_receipts p)) s else Ok s ()) (\<lambda>s _.
             then_do (if sm_outgoing s \<noteq> [] \<and> tp_writable p then tcp_transmit A (tp_send p) s else Ok s ()) (\<lambda>s _.
             send_deadline s)))"

section \<open>Life cycle\<close>

text \<open>What the system calls of \<open>prepare\<close> report: whether the sockets open and the port binds, and how the
  connection ends (at once, after \<open>poll\<close> within the timeout and with which \<open>SO_ERROR\<close>, or not).\<close>

datatype tcp_connect = Connected | In_progress bool bool | Connect_failed

record simex_sockets =
  ss_opened :: bool
  ss_bound :: bool
  ss_connect :: tcp_connect

definition workers_running :: "simex_adapter \<Rightarrow> bool" where
  "workers_running s \<longleftrightarrow> mc_running (sm_market s) \<or> og_running (sm_gateway s)"

definition simex_stop :: "simex_adapter \<Rightarrow> (simex_adapter, unit) outcome" where
  "simex_stop s =
     (if workers_running s then Throw s (Logic_error ''Join business workers before stopping Simex'')
      else Ok (s\<lparr>sm_running := False, sm_handlers := False, sm_tcp := False, sm_udp := False\<rparr>) ())"

definition simex_connect :: "simex_sockets \<Rightarrow> exn + unit" where
  "simex_connect c =
     (if \<not> ss_opened c then Inl (Runtime_error ''Cannot create simex sockets'')
      else if \<not> ss_bound c then Inl (Runtime_error ''Cannot bind simex UDP receive port'')
      else case ss_connect c of
             Connected \<Rightarrow> Inr ()
           | Connect_failed \<Rightarrow> Inl (Runtime_error ''Cannot connect to simex TCP gateway'')
           | In_progress ready ok \<Rightarrow>
               if \<not> ready then Inl (Runtime_error ''Simex TCP connection timeout'')
               else if \<not> ok then Inl (Runtime_error ''Simex TCP connection failed'')
               else Inr ())"

definition simex_prepare :: "simex_sockets \<Rightarrow> simex_adapter \<Rightarrow> (simex_adapter, unit) outcome" where
  "simex_prepare c s =
     (if sm_started s then Throw s (Logic_error ''Simex adapter requires a fresh process for each run'')
      else if workers_running s then Throw s (Logic_error ''Prepare Simex before starting business workers'')
      else
        let s = s\<lparr>sm_started := True\<rparr>
        in case simex_connect c of
             Inl e \<Rightarrow> then_do (simex_stop s) (\<lambda>s _. Throw s e)
           | Inr _ \<Rightarrow>
               Ok (sm_tick (s\<lparr>sm_udp := True, sm_tcp := True, sm_last_packet := sm_now s, sm_handlers := True,
                              sm_running := True\<rparr>)) ())"

end
