(* ===== verification/SimexRuns.thy ===== *)
theory SimexRuns
  imports SimexOrders
begin

text \<open>
  What holds of the order side of the simex adapter in every run: however the TCP stream is cut into
  pieces, the responses are those of its frames, and the order table stays consistent with them.
\<close>

section \<open>Frames\<close>

text \<open>The responses of a byte string, one per complete frame; the rest is kept.\<close>

function deliver_frames :: "simex_abi \<Rightarrow> bytes \<Rightarrow> simex_adapter \<Rightarrow> (simex_adapter, unit) outcome" where
  "deliver_frames A data s =
     (if ab_response_size A = 0 \<or> length data < ab_response_size A then Ok (s\<lparr>sm_incoming := data\<rparr>) ()
      else then_do (simex_response A (ab_response A (take (ab_response_size A) data))
             (s\<lparr>sm_incoming := take (ab_response_size A) data\<rparr>))
             (\<lambda>s _. deliver_frames A (drop (ab_response_size A) data) (s\<lparr>sm_incoming := []\<rparr>)))"
  by pat_completeness auto
termination by (relation "measure (\<lambda>(_, data, _). length data)") auto

declare deliver_frames.simps [simp del]

text \<open>\<open>recv\<close> is asked for what the current frame still lacks, so it hands over at most that and, unless
  the peer has closed, at least one byte.\<close>

fun pieces_fit :: "nat \<Rightarrow> nat \<Rightarrow> bytes list \<Rightarrow> bool" where
  "pieces_fit sz n [] = True"
| "pieces_fit sz n (c # cs) \<longleftrightarrow> c \<noteq> [] \<and> n + length c \<le> sz \<and>
     pieces_fit sz (if n + length c = sz then 0 else n + length c) cs"

lemma deliver_frames_incoming: "deliver_frames A data (s\<lparr>sm_incoming := x\<rparr>) = deliver_frames A data s"
  by (subst (1 2) deliver_frames.simps) simp

text \<open>C39: The adapter reads the responses of the venue from a TCP stream whose pieces end anywhere. For
  every way of cutting the stream, the outcome of reading the pieces one after the other is that of
  splitting what was kept before followed by all the bytes into frames, and an incomplete last frame is
  kept for the next poll.\<close>

theorem simex_frames_reassembled:
  assumes "length (sm_incoming s) < ab_response_size A"
    and "pieces_fit (ab_response_size A) (length (sm_incoming s)) cs"
  shows "tcp_batch A (map Received cs) s = deliver_frames A (sm_incoming s @ concat cs) s"
  using assms
proof (induction cs arbitrary: s)
  case Nil
  then show ?case by (subst deliver_frames.simps) simp
next
  case (Cons c cs)
  let ?n = "ab_response_size A" and ?in = "sm_incoming s @ c"
  show ?case
  proof (cases "length ?in = ?n")
    case True
    have IH: "tcp_batch A (map Received cs) (t\<lparr>sm_incoming := []\<rparr>) = deliver_frames A (concat cs) (t\<lparr>sm_incoming := []\<rparr>)" for t
      using Cons.IH[of "t\<lparr>sm_incoming := []\<rparr>"] Cons.prems True by simp
    show ?thesis
      using True Cons.prems(1) by (subst deliver_frames.simps) (simp add: Let_def IH)
  next
    case False
    then have "tcp_batch A (map Received cs) (s\<lparr>sm_incoming := ?in\<rparr>) =
        deliver_frames A (?in @ concat cs) (s\<lparr>sm_incoming := ?in\<rparr>)"
      using Cons.IH[of "s\<lparr>sm_incoming := ?in\<rparr>"] Cons.prems by auto
    then show ?thesis using False by (simp add: Let_def deliver_frames_incoming)
  qed
qed


lemma simex_frames_reassembled_witness:
  "tcp_batch demo_abi (map Received [[4], [0], [3], [4], [1]]) demo_simex =
     tcp_batch demo_abi (map Received [[4, 0, 3], [4, 1]]) demo_simex"
proof -
  have s: "ab_response_size demo_abi = 3" "sm_incoming demo_simex = []"
    by (simp_all add: demo_abi_def demo_simex_fields)
  have "pieces_fit 3 0 [[4], [0], [3], [4], [1]]" "pieces_fit 3 0 [[4, 0, 3], [4, 1]]" by simp_all
  then show ?thesis
    using simex_frames_reassembled[of demo_simex demo_abi "[[4], [0], [3], [4], [1]]"]
      simex_frames_reassembled[of demo_simex demo_abi "[[4, 0, 3], [4, 1]]"] by (simp add: s)
qed

section \<open>The order table\<close>

definition simex_order_ok :: "order_id \<Rightarrow> simex_order \<Rightarrow> bool" where
  "simex_order_ok i o' \<longleftrightarrow>
     rq_order_id (so_request o') = i \<and> rq_type (so_request o') = Request_NEW \<and>
     rq_side (so_request o') \<in> {BUY, SELL} \<and> rq_qty (so_request o') \<le> 0x7FFFFFFF \<and>
     so_remaining o' \<le> rq_qty (so_request o') \<and> (\<not> so_terminal o' \<longrightarrow> so_remaining o' > 0) \<and>
     (\<exists>e. simex_effect (rq_offset (so_request o')) = Inr e)"

definition openings :: "(order_id \<times> simex_order) list \<Rightarrow> side set" where
  "openings os = {rq_side (so_request o') | i o'. (i, o') \<in> set os \<and> live_opening o'}"

definition simex_table_ok :: "nat \<Rightarrow> (order_id \<times> simex_order) list \<Rightarrow> bool" where
  "simex_table_ok cap os \<longleftrightarrow> distinct (map fst os) \<and> length os \<le> cap \<and>
     (\<forall>(i, o') \<in> set os. simex_order_ok i o') \<and> (\<exists>sd. openings os \<subseteq> {sd})"

section \<open>Runs\<close>

text \<open>The signed quantity of a fill.\<close>

definition fill_of :: "venue_response \<Rightarrow> int" where
  "fill_of v = (if vr_type v = Venue_FILLED
     then (if vr_side v = Venue_BUY then 1 else -1) * int (unat (vr_exec_qty v)) else 0)"

text \<open>The frames that a poll completes.\<close>

fun frames_of :: "simex_abi \<Rightarrow> nat \<Rightarrow> bytes \<Rightarrow> tcp_receipt list \<Rightarrow> (frame_header \<times> venue_response) list" where
  "frames_of A sz n [] = []"
| "frames_of A sz n (Received c # rs) =
     (if length (n @ c) = sz then ab_response A (n @ c) # frames_of A sz [] rs else frames_of A sz (n @ c) rs)"
| "frames_of A sz n (_ # rs) = frames_of A sz n rs"

definition poll_frames :: "simex_abi \<Rightarrow> tcp_poll \<Rightarrow> simex_adapter \<Rightarrow> (frame_header \<times> venue_response) list" where
  "poll_frames A p s =
     (if tp_readable p then frames_of A (ab_response_size A) (sm_incoming s) (take 256 (tp_receipts p)) else [])"

text \<open>A run of the order side: requests of the gateway, polls, and the engine and the market side, which
  change the rest of the state. The log is that of the new orders sent and the frames read.\<close>

definition same_orders :: "simex_adapter \<Rightarrow> simex_adapter \<Rightarrow> bool" where
  "same_orders s s' \<longleftrightarrow> sm_orders s' = sm_orders s \<and> sm_outgoing s' = sm_outgoing s \<and> sm_config s' = sm_config s \<and>
     sm_net_position s' = sm_net_position s \<and> sm_response_sequence s' = sm_response_sequence s \<and>
     sm_incoming s' = sm_incoming s"

datatype simex_event = Order_sent client_request | Frame "frame_header \<times> venue_response"

fun frames_in :: "simex_event list \<Rightarrow> (frame_header \<times> venue_response) list" where
  "frames_in [] = []"
| "frames_in (Frame w # L) = w # frames_in L"
| "frames_in (Order_sent r # L) = frames_in L"

text \<open>A new order counts as sent when its request has been put behind the requests for the wire.\<close>

definition sent_by :: "client_request \<Rightarrow> simex_adapter \<Rightarrow> simex_adapter \<Rightarrow> simex_event list" where
  "sent_by r s s' =
     (if rq_type r = Request_NEW \<and> length (sm_outgoing s') > length (sm_outgoing s) then [Order_sent r] else [])"

inductive simex_run :: "simex_abi \<Rightarrow> simex_adapter \<Rightarrow> simex_event list \<Rightarrow> bool" for A where
  start: "simex_adapter_new md og cfg clock = Inr s \<Longrightarrow> simex_run A s []"
| request: "simex_run A s L \<Longrightarrow> simex_submit A r s = Ok s' () \<Longrightarrow> simex_run A s' (L @ sent_by r s s')"
| poll: "simex_run A s L \<Longrightarrow> simex_pollOrders A p s = Ok s' () \<Longrightarrow> simex_run A s' (L @ map Frame (poll_frames A p s))"
| other: "simex_run A s L \<Longrightarrow> same_orders s s' \<Longrightarrow> simex_run A s' L"

lemma frames_in_append [simp]: "frames_in (L @ M) = frames_in L @ frames_in M"
  by (induction L rule: frames_in.induct) simp_all

lemma frames_in_map [simp]: "frames_in (map Frame F) = F"
  by (induction F) simp_all

lemma frames_in_sent [simp]: "frames_in (sent_by r s s') = []"
  by (simp add: sent_by_def)

section \<open>What an order has traded\<close>

text \<open>The executions of an order until its id is used for another one.\<close>

definition exec_of :: "order_id \<Rightarrow> venue_response \<Rightarrow> nat" where
  "exec_of i v = (if vr_type v = Venue_FILLED \<and> vr_client_order_id v = i then unat (vr_exec_qty v) else 0)"

fun traded :: "order_id \<Rightarrow> simex_event list \<Rightarrow> nat" where
  "traded i [] = 0"
| "traded i (Order_sent r # L) = (if rq_order_id r = i then 0 else traded i L)"
| "traded i (Frame w # L) = exec_of i (snd w) + traded i L"

fun sent_ids :: "simex_event list \<Rightarrow> order_id set" where
  "sent_ids [] = {}"
| "sent_ids (Order_sent r # L) = insert (rq_order_id r) (sent_ids L)"
| "sent_ids (Frame w # L) = sent_ids L"

lemma sent_ids_append [simp]: "sent_ids (L @ M) = sent_ids L \<union> sent_ids M"
  by (induction L rule: sent_ids.induct) auto

lemma traded_append: "traded i (L @ M) = (if i \<in> sent_ids L then traded i L else traded i L + traded i M)"
  by (induction i L rule: traded.induct) auto

text \<open>The last order of an id is the only one behind which the id is not used again.\<close>

lemma last_sent_unique:
  assumes "L1 @ Order_sent r # L2 = M1 @ Order_sent r' # M2" "rq_order_id r = rq_order_id r'"
    and "rq_order_id r \<notin> sent_ids L2" "rq_order_id r \<notin> sent_ids M2"
  shows "r = r' \<and> L2 = M2"
proof -
  from assms(1) obtain us where "L1 = M1 @ us \<and> us @ Order_sent r # L2 = Order_sent r' # M2 \<or>
      L1 @ us = M1 \<and> Order_sent r # L2 = us @ Order_sent r' # M2"
    by (auto simp: append_eq_append_conv2)
  then show ?thesis using assms(2-4) by (cases us) auto
qed

text \<open>
  The ledger: an order in the table has traded what its quantity lacks, no order ever sent has traded more
  than its quantity, and nothing is traded under an id before an order is sent with it.
\<close>

definition open_account :: "order_id \<Rightarrow> simex_order \<Rightarrow> simex_event list \<Rightarrow> bool" where
  "open_account i o' L \<longleftrightarrow> rq_order_id (so_request o') = i \<and>
     (\<exists>L1 L2. L = L1 @ Order_sent (so_request o') # L2 \<and> i \<notin> sent_ids L2 \<and>
        traded i L2 + unat (so_remaining o') = unat (rq_qty (so_request o')))"

definition simex_ledger :: "(order_id \<times> simex_order) list \<Rightarrow> simex_event list \<Rightarrow> bool" where
  "simex_ledger os L \<longleftrightarrow>
     (\<forall>(i, o') \<in> set os. open_account i o' L) \<and>
     (\<forall>L1 r L2. L = L1 @ Order_sent r # L2 \<longrightarrow> traded (rq_order_id r) L2 \<le> unat (rq_qty r)) \<and>
     (\<forall>i. traded i L = 0)"

lemma simex_ledger_mono:
  assumes "simex_ledger os L"
    and "\<And>j x. (j, x) \<in> set os' \<Longrightarrow> \<exists>y. (j, y) \<in> set os \<and> so_request y = so_request x \<and> so_remaining y = so_remaining x"
  shows "simex_ledger os' L"
proof -
  have "open_account j x L" if "(j, x) \<in> set os'" for j x
    using assms(2)[OF that] assms(1) by (fastforce simp: simex_ledger_def open_account_def)
  then show ?thesis using assms(1) by (auto simp: simex_ledger_def)
qed

lemma open_account_later:
  assumes "open_account i o' L" "i \<notin> sent_ids M" "so_request o'' = so_request o'"
    "unat (so_remaining o'') + traded i M = unat (so_remaining o')"
  shows "open_account i o'' (L @ M)"
proof -
  obtain L1 L2 where L: "rq_order_id (so_request o') = i" "L = L1 @ Order_sent (so_request o') # L2" "i \<notin> sent_ids L2"
    "traded i L2 + unat (so_remaining o') = unat (rq_qty (so_request o'))"
    using assms(1) by (auto simp: open_account_def)
  have "L @ M = L1 @ Order_sent (so_request o'') # (L2 @ M)" "i \<notin> sent_ids (L2 @ M)"
    "traded i (L2 @ M) + unat (so_remaining o'') = unat (rq_qty (so_request o''))"
    using L assms(2-4) by (simp_all add: traded_append)
  then show ?thesis using L(1) assms(3) unfolding open_account_def by metis
qed

lemma last_event_cases:
  assumes "L @ [e] = L1 @ Order_sent r # L2"
  obtains "L2 = []" "e = Order_sent r" | M where "L2 = M @ [e]" "L = L1 @ Order_sent r # M"
  using assms by (cases L2 rule: rev_cases) auto

lemma simex_ledger_sent:
  assumes l: "simex_ledger os L" and fresh: "map_of os (rq_order_id r) = None"
    and o': "so_request o' = r" "so_remaining o' = rq_qty r"
  shows "simex_ledger (os @ [(rq_order_id r, o')]) (L @ [Order_sent r])"
  unfolding simex_ledger_def
proof (intro conjI allI impI)
  have "open_account j x (L @ [Order_sent r])" if "(j, x) \<in> set os" for j x
    using that l fresh by (intro open_account_later) (force simp: simex_ledger_def map_of_eq_None_iff)+
  moreover have "open_account (rq_order_id r) o' (L @ [Order_sent r])"
    using o' by (simp add: open_account_def) (intro exI[of _ L] exI[of _ "[]"], simp)
  ultimately show "\<forall>(i, x) \<in> set (os @ [(rq_order_id r, o')]). open_account i x (L @ [Order_sent r])" by auto
next
  fix L1 r' L2 assume "L @ [Order_sent r] = L1 @ Order_sent r' # L2"
  then show "traded (rq_order_id r') L2 \<le> unat (rq_qty r')"
    using l by (elim last_event_cases) (auto simp: simex_ledger_def traded_append)
next
  show "traded i (L @ [Order_sent r]) = 0" for i using l by (simp add: simex_ledger_def traded_append)
qed

lemma simex_ledger_frame:
  assumes l: "simex_ledger os L" and o': "(vr_client_order_id v, o') \<in> set os"
    and os': "\<And>j x. (j, x) \<in> set os' \<Longrightarrow>
      if j = vr_client_order_id v
      then so_request x = so_request o' \<and> unat (so_remaining x) + exec_of j v = unat (so_remaining o')
      else (j, x) \<in> set os"
    and some: "exec_of (vr_client_order_id v) v \<le> unat (so_remaining o')"
  shows "simex_ledger os' (L @ [Frame (h, v)])"
  unfolding simex_ledger_def
proof (intro conjI allI impI)
  let ?i = "vr_client_order_id v"
  have a: "open_account ?i o' L" using l o' by (auto simp: simex_ledger_def)
  have other: "exec_of j v = 0" if "j \<noteq> ?i" for j using that by (simp add: exec_of_def)
  have "open_account j x (L @ [Frame (h, v)])" if x: "(j, x) \<in> set os'" for j x
  proof (cases "j = ?i")
    case True
    then show ?thesis using a os'[OF x] by (intro open_account_later[of _ o']) simp_all
  next
    case False
    then have "open_account j x L" using os'[OF x] l by (auto simp: simex_ledger_def)
    then show ?thesis using other[OF False] by (rule_tac open_account_later[of _ x]) simp_all
  qed
  then show "\<forall>(j, x) \<in> set os'. open_account j x (L @ [Frame (h, v)])" by blast
  fix i
  obtain L1 L2 where L: "rq_order_id (so_request o') = ?i" "L = L1 @ Order_sent (so_request o') # L2" "?i \<notin> sent_ids L2"
    "traded ?i L2 + unat (so_remaining o') = unat (rq_qty (so_request o'))"
    using a by (auto simp: open_account_def)
  show "traded i (L @ [Frame (h, v)]) = 0"
  proof -
    have "traded i L = 0" "?i \<in> sent_ids L" using l L(1,2) by (simp_all add: simex_ledger_def)
    then show ?thesis using other[of i] by (cases "i = ?i") (simp_all add: traded_append)
  qed
  fix M1 r M2 assume "L @ [Frame (h, v)] = M1 @ Order_sent r # M2"
  then obtain M where M: "M2 = M @ [Frame (h, v)]" "L = M1 @ Order_sent r # M" by (elim last_event_cases) simp_all
  have le: "traded (rq_order_id r) M \<le> unat (rq_qty r)" using l M(2) unfolding simex_ledger_def by blast
  show "traded (rq_order_id r) M2 \<le> unat (rq_qty r)"
  proof (cases "rq_order_id r = ?i \<and> ?i \<notin> sent_ids M")
    case True
    then have "r = so_request o' \<and> M = L2" using last_sent_unique[of M1 r M L1 "so_request o'" L2] L M(2) by simp
    then show ?thesis using True L(4) some by (simp add: M(1) traded_append)
  next
    case False
    then show ?thesis using le other[of "rq_order_id r"]
      by (cases "rq_order_id r = ?i") (auto simp: M(1) traded_append)
  qed
qed

section \<open>The invariant of a run\<close>

definition simex_orders_inv :: "simex_adapter \<Rightarrow> (frame_header \<times> venue_response) list \<Rightarrow> bool" where
  "simex_orders_inv s F \<longleftrightarrow>
     simex_table_ok (xc_capacity (sm_config s)) (sm_orders s) \<and> length (sm_outgoing s) \<le> xc_capacity (sm_config s) \<and>
     sm_net_position s = (\<Sum>w\<leftarrow>F. fill_of (snd w)) \<and> - (2 ^ 31) \<le> sm_net_position s \<and> sm_net_position s < 2 ^ 31 \<and>
     sm_response_sequence s = of_nat (length F) \<and>
     map (fh_sequence \<circ> fst) F = map of_nat [0..<length F]"

lemma same_orders_inv: "same_orders s s' \<Longrightarrow> simex_orders_inv s F \<Longrightarrow> simex_orders_inv s' F"
  by (simp add: same_orders_def simex_orders_inv_def)

lemma one_side_mono: "\<exists>sd. S \<subseteq> {sd} \<Longrightarrow> T \<subseteq> S \<Longrightarrow> \<exists>sd. T \<subseteq> {sd :: side}"
  by blast

lemma set_AList_update:
  assumes "distinct (map fst os)"
  shows "(j, x) \<in> set (AList.update i y os) \<longleftrightarrow> (if j = i then x = y else (j, x) \<in> set os)"
proof -
  have "(j, x) \<in> set (AList.update i y os) \<longleftrightarrow> map_of (AList.update i y os) j = Some x"
    using distinct_update[OF assms, of i y] by simp
  also have "\<dots> \<longleftrightarrow> (if j = i then x = y else map_of os j = Some x)" by (auto simp: update_conv')
  also have "\<dots> \<longleftrightarrow> (if j = i then x = y else (j, x) \<in> set os)" using assms by simp
  finally show ?thesis .
qed

lemma length_AList_update: "map_of os i = Some x \<Longrightarrow> length (AList.update i y os) = length os"
  by (induction os) (auto split: if_splits)

lemma table_update:
  assumes "simex_table_ok cap os" "map_of os i = Some o'" "simex_order_ok i o''"
    and "live_opening o'' \<Longrightarrow> live_opening o' \<and> rq_side (so_request o'') = rq_side (so_request o')"
  shows "simex_table_ok cap (AList.update i o'' os)"
proof -
  have d: "distinct (map fst os)" using assms(1) by (simp add: simex_table_ok_def)
  note mem = set_AList_update[OF d, of _ _ i o'']
  have "openings (AList.update i o'' os) \<subseteq> openings os"
  proof
    fix sd assume "sd \<in> openings (AList.update i o'' os)"
    then obtain j x where x: "sd = rq_side (so_request x)" "(j, x) \<in> set (AList.update i o'' os)" "live_opening x"
      unfolding openings_def by blast
    show "sd \<in> openings os"
    proof (cases "j = i")
      case True
      then have "x = o''" using x(2) mem by simp
      then have "live_opening o'" "sd = rq_side (so_request o')" using x(1,3) assms(4) by simp_all
      then show ?thesis using map_of_SomeD[OF assms(2)] unfolding openings_def by blast
    next
      case False
      then have "(j, x) \<in> set os" using x(2) mem by simp
      then show ?thesis using x(1,3) unfolding openings_def by blast
    qed
  qed
  moreover have "\<forall>(j, x)\<in>set (AList.update i o'' os). simex_order_ok j x"
    using assms(1,3) unfolding simex_table_ok_def
    by (intro ballI, clarify) (simp add: mem split: if_splits, blast)
  ultimately show ?thesis
    using assms(1) distinct_update[OF d, of i o''] length_AList_update[OF assms(2), of o'']
    unfolding simex_table_ok_def by (simp add: one_side_mono[of "openings os"])
qed

lemma table_filter: "simex_table_ok cap os \<Longrightarrow> simex_table_ok cap (filter P os)"
proof -
  assume t: "simex_table_ok cap os"
  have "openings (filter P os) \<subseteq> openings os" by (auto simp: openings_def)
  moreover have "distinct (map fst os) \<Longrightarrow> distinct (map fst (filter P os))" by (induction os) auto
  moreover have "length (filter P os) \<le> cap" 
    using t order_trans[OF length_filter_le, of os cap P] by (simp add: simex_table_ok_def)
  ultimately show ?thesis
    using t unfolding simex_table_ok_def by (elim conjE, intro conjI) (auto simp: one_side_mono[of "openings os"])
qed

lemma simex_table_insert:
  assumes "simex_table_ok cap os" "map_of os i = None" "length os < cap" "simex_order_ok i o'"
    and "live_opening o' \<Longrightarrow> openings os \<subseteq> {rq_side (so_request o')}"
  shows "simex_table_ok cap (os @ [(i, o')])"
proof -
  have "openings (os @ [(i, o')]) = openings os \<union> (if live_opening o' then {rq_side (so_request o')} else {})"
    by (auto simp: openings_def)
  then have "\<exists>sd. openings (os @ [(i, o')]) \<subseteq> {sd}"
    using assms(1,5) by (cases "live_opening o'") (auto simp: simex_table_ok_def)
  then show ?thesis using assms(1-4) by (auto simp: simex_table_ok_def map_of_eq_None_iff)
qed

section \<open>Every step keeps the table\<close>

lemma simex_publish_same: "simex_publish r s = Ok s' () \<Longrightarrow> same_orders s s'"
  by (cases "publishClientResponse (sm_participant_response_sequence s) r (sm_gateway s)")
     (auto simp: simex_publish_def Let_def same_orders_def)

lemma evict_table: "simex_table_ok cap (sm_orders s) \<Longrightarrow> simex_table_ok cap (sm_orders (evict_finished s))"
  by (simp add: evict_finished_def table_filter)

lemma evict_keeps:
  assumes "simex_table_ok cap (sm_orders s)" "map_of (sm_orders s) i = Some o'" "\<not> so_terminal o'"
  shows "map_of (sm_orders (evict_finished s)) i = Some o'"
proof -
  have "distinct (map fst (sm_orders (evict_finished s)))"
    using evict_table[OF assms(1)] by (simp add: simex_table_ok_def)
  moreover have "(i, o') \<in> set (sm_orders (evict_finished s))"
    using map_of_SomeD[OF assms(2)] assms(3) by (simp add: evict_finished_def)
  ultimately show ?thesis by simp
qed

lemma evict_fresh: "map_of (sm_orders s) i = None \<Longrightarrow> map_of (sm_orders (evict_finished s)) i = None"
  by (auto simp: evict_finished_def map_of_eq_None_iff)

lemma evict_fields [simp]:
  "sm_outgoing (evict_finished s) = sm_outgoing s" "sm_config (evict_finished s) = sm_config s"
  "sm_net_position (evict_finished s) = sm_net_position s"
  "sm_response_sequence (evict_finished s) = sm_response_sequence s"
  by (simp_all add: evict_finished_def)

lemma queue_request_fields [simp]:
  "sm_outgoing (queue_request w s) = sm_outgoing s @ [w]" "sm_config (queue_request w s) = sm_config s"
  "sm_orders (queue_request w s) = sm_orders s" "sm_net_position (queue_request w s) = sm_net_position s"
  "sm_response_sequence (queue_request w s) = sm_response_sequence s"
  by (simp_all add: queue_request_def sm_tick_def)

lemma not_opposite:
  assumes "\<not> opposite_exposure r s"
  shows "openings (sm_orders (evict_finished s)) \<subseteq> {rq_side r}"
  using assms by (auto simp: opposite_exposure_def openings_def evict_finished_def list_ex_iff split: if_splits)

text \<open>What a request does when the call returns: it is rejected, it cancels, or its order is sent.\<close>

lemma simex_submit_cases:
  assumes ok: "simex_submit A r s = Ok s' ()"
  obtains (rejected) "same_orders s s'"
  | (canceled) o' w where "rq_type r = Request_CANCEL" "map_of (sm_orders s) (rq_order_id r) = Some o'" "\<not> so_terminal o'"
      "length (sm_outgoing s) < xc_capacity (sm_config s)"
      "s' = queue_request w ((evict_finished s)\<lparr>sm_orders :=
         AList.update (rq_order_id r) (o'\<lparr>so_cancel_pending := True\<rparr>) (sm_orders (evict_finished s))\<rparr>)"
  | (sent) w where "rq_type r = Request_NEW" "map_of (sm_orders s) (rq_order_id r) = None"
      "length (sm_outgoing s) < xc_capacity (sm_config s)"
      "rq_side r \<in> {BUY, SELL}" "\<not> unsupported_order r" "rq_offset r = OPEN \<Longrightarrow> \<not> opposite_exposure r s"
      "\<exists>e. simex_effect (rq_offset r) = Inr e" "length (sm_orders (evict_finished s)) < xc_capacity (sm_config s)"
      "s' = queue_request w ((evict_finished s)\<lparr>sm_orders := sm_orders (evict_finished s) @
         [(rq_order_id r, \<lparr>so_request = r, so_remaining = rq_qty r, so_terminal = False, so_cancel_pending = False\<rparr>)]\<rparr>)"
proof (cases "simex_reject r s = Ok s' ()")
  case True
  then show thesis using simex_publish_same rejected by (auto simp: simex_reject_def)
next
  case False
  have room: "length (sm_outgoing s) < xc_capacity (sm_config s)"
    using ok False by (auto simp: simex_submit_def Let_def not_le split: if_splits sum.splits)
  show thesis
  proof (cases "map_of (sm_orders s) (rq_order_id r)")
    case (Some o')
    have "rq_type r = Request_CANCEL" "\<not> so_terminal o'" "\<exists>w. s' = queue_request w ((evict_finished s)\<lparr>sm_orders :=
        AList.update (rq_order_id r) (o'\<lparr>so_cancel_pending := True\<rparr>) (sm_orders (evict_finished s))\<rparr>)"
      using ok False Some
      by (auto simp: simex_submit_def not_cancelable_def Let_def simp del: split_paired_Ex split: if_splits sum.splits)
    then show thesis using canceled Some room by blast
  next
    case None
    let ?o = "\<lparr>so_request = r, so_remaining = rq_qty r, so_terminal = False, so_cancel_pending = False\<rparr>"
    have "rq_type r = Request_NEW" "rq_side r \<in> {BUY, SELL}" "\<not> unsupported_order r"
      "rq_offset r = OPEN \<Longrightarrow> \<not> opposite_exposure r s" "\<exists>e. simex_effect (rq_offset r) = Inr e"
      "length (sm_orders (evict_finished s)) < xc_capacity (sm_config s)"
      "\<exists>w. s' = queue_request w ((evict_finished s)\<lparr>sm_orders := sm_orders (evict_finished s) @ [(rq_order_id r, ?o)]\<rparr>)"
      using ok False None
      by (auto simp: simex_submit_def invalid_request_def not_cancelable_def Let_def not_le simp del: split_paired_Ex split: if_splits sum.splits)
    then show thesis using sent None room by blast
  qed
qed

lemma simex_submit_inv:
  assumes inv: "simex_orders_inv s F" and ok: "simex_submit A r s = Ok s' ()"
  shows "simex_orders_inv s' F"
proof -
  have t: "simex_table_ok (xc_capacity (sm_config s)) (sm_orders (evict_finished s))"
    using inv evict_table by (simp add: simex_orders_inv_def)
  from ok show ?thesis
  proof (cases rule: simex_submit_cases)
    case rejected
    then show ?thesis using same_orders_inv inv by blast
  next
    case (canceled o' w)
    have found: "map_of (sm_orders (evict_finished s)) (rq_order_id r) = Some o'"
      using evict_keeps[OF _ canceled(2,3)] inv by (auto simp: simex_orders_inv_def)
    have "simex_order_ok (rq_order_id r) o'"
      using t map_of_SomeD[OF found] by (auto simp: simex_table_ok_def)
    then have "simex_table_ok (xc_capacity (sm_config s))
        (AList.update (rq_order_id r) (o'\<lparr>so_cancel_pending := True\<rparr>) (sm_orders (evict_finished s)))"
      by (intro table_update[OF t found]) (simp_all add: simex_order_ok_def live_opening_def)
    then show ?thesis using canceled(4,5) inv by (auto simp: simex_orders_inv_def)
  next
    case (sent w)
    let ?o = "\<lparr>so_request = r, so_remaining = rq_qty r, so_terminal = False, so_cancel_pending = False\<rparr>"
    have "simex_table_ok (xc_capacity (sm_config s)) (sm_orders (evict_finished s) @ [(rq_order_id r, ?o)])"
      using sent not_opposite[of r s]
      by (intro simex_table_insert[OF t evict_fresh[OF sent(2)] sent(8)])
         (auto simp: simex_order_ok_def unsupported_order_def validQty_def live_opening_def)
    then show ?thesis using sent(3,9) inv by (auto simp: simex_orders_inv_def)
  qed
qed

lemma evict_subset: "set (sm_orders (evict_finished s)) \<subseteq> set (sm_orders s)"
  by (auto simp: evict_finished_def)

lemma simex_submit_ledger:
  assumes inv: "simex_orders_inv s F" and l: "simex_ledger (sm_orders s) L" and ok: "simex_submit A r s = Ok s' ()"
  shows "simex_ledger (sm_orders s') (L @ sent_by r s s')"
proof -
  have evicted: "simex_ledger (sm_orders (evict_finished s)) L"
    using evict_subset[of s] by (intro simex_ledger_mono[OF l]) auto
  from ok show ?thesis
  proof (cases rule: simex_submit_cases)
    case rejected
    then show ?thesis using l by (simp add: same_orders_def sent_by_def)
  next
    case (canceled o' w)
    have t: "simex_table_ok (xc_capacity (sm_config s)) (sm_orders (evict_finished s))"
      using inv evict_table by (simp add: simex_orders_inv_def)
    then have d: "distinct (map fst (sm_orders (evict_finished s)))" by (simp add: simex_table_ok_def)
    have "map_of (sm_orders (evict_finished s)) (rq_order_id r) = Some o'"
      using evict_keeps[OF _ canceled(2,3)] inv by (auto simp: simex_orders_inv_def)
    from map_of_SomeD[OF this] have "simex_ledger (AList.update (rq_order_id r) (o'\<lparr>so_cancel_pending := True\<rparr>)
        (sm_orders (evict_finished s))) L"
      by (intro simex_ledger_mono[OF evicted]) (auto simp: set_AList_update[OF d] split: if_splits)
    then show ?thesis using canceled(1,5) by (simp add: sent_by_def)
  next
    case (sent w)
    then show ?thesis using simex_ledger_sent[OF evicted evict_fresh[OF sent(2)]] by (simp add: sent_by_def)
  qed
qed

text \<open>Converting a quantity that both integer types of the wire can hold keeps its value.\<close>

definition widens :: "simex_abi \<Rightarrow> bool" where
  "widens A \<longleftrightarrow> (\<forall>q \<le> 0x7FFFFFFF. sint (ab_widen A q) = int (unat q))"

lemma outcome_inv:
  assumes t: "simex_table_ok cap (sm_orders s)" and o': "map_of (sm_orders s) (vr_client_order_id v) = Some o'"
    and A: "widens A" and ok: "simex_outcome A v o' s = Ok s' t'"
  shows "simex_table_ok cap (sm_orders s') \<and> sm_outgoing s' = sm_outgoing s \<and> sm_config s' = sm_config s \<and>
    sm_response_sequence s' = sm_response_sequence s \<and> sm_net_position s' = sm_net_position s + fill_of v \<and>
    (- (2 ^ 31) \<le> sm_net_position s \<and> sm_net_position s < 2 ^ 31 \<longrightarrow>
     - (2 ^ 31) \<le> sm_net_position s' \<and> sm_net_position s' < 2 ^ 31)"
proof -
  have order: "simex_order_ok (vr_client_order_id v) o'"
    using t map_of_SomeD[OF o'] by (auto simp: simex_table_ok_def)
  note update = table_update[OF t o']
  show ?thesis
  proof (cases "vr_type v")
    case Venue_FILLED
    let ?o = "o'\<lparr>so_remaining := vr_leaves_qty v, so_terminal := (vr_leaves_qty v = 0)\<rparr>"
    have fill: "\<not> invalid_fill v o'" using ok Venue_FILLED by (auto simp: simex_outcome_def Let_def split: if_splits)
    then have exec: "vr_exec_qty v \<le> so_remaining o'" "vr_leaves_qty v = so_remaining o' - vr_exec_qty v"
      by (auto simp: invalid_fill_def)
    have bound: "so_remaining o' \<le> rq_qty (so_request o')" "rq_qty (so_request o') \<le> 0x7FFFFFFF"
      using order by (simp_all add: simex_order_ok_def)
    have "vr_leaves_qty v \<le> rq_qty (so_request o')"
      using exec bound by (simp add: word_le_nat_alt unat_sub)
    then have "simex_order_ok (vr_client_order_id v) ?o"
      using order by (auto simp: simex_order_ok_def word_gt_0)
    then have "simex_table_ok cap (AList.update (vr_client_order_id v) ?o (sm_orders s))"
      using fill by (intro update) (auto simp: live_opening_def invalid_fill_def)
    moreover have "sint (ab_widen A (vr_exec_qty v)) = int (unat (vr_exec_qty v))"
      using A order_trans[OF exec(1) order_trans[OF bound]] by (simp add: widens_def)
    ultimately show ?thesis
      using ok fill Venue_FILLED
      by (auto simp: simex_outcome_def put_simex_order_def fill_of_def Let_def split: if_splits)
  next
    case Venue_ACCEPTED
    then show ?thesis using ok t by (auto simp: simex_outcome_def fill_of_def)
  next
    case Venue_REJECTED
    have "simex_table_ok cap (AList.update (vr_client_order_id v) (o'\<lparr>so_terminal := True\<rparr>) (sm_orders s))"
      using order by (intro update) (simp_all add: simex_order_ok_def live_opening_def)
    then show ?thesis using ok Venue_REJECTED by (auto simp: simex_outcome_def put_simex_order_def fill_of_def Let_def)
  next
    case Venue_CANCELED
    have "simex_table_ok cap (AList.update (vr_client_order_id v) (o'\<lparr>so_terminal := True, so_cancel_pending := False\<rparr>)
        (sm_orders s))"
      using order by (intro update) (simp_all add: simex_order_ok_def live_opening_def)
    then show ?thesis using ok Venue_CANCELED by (auto simp: simex_outcome_def put_simex_order_def fill_of_def Let_def)
  next
    case Venue_CANCEL_REJECTED
    have "simex_table_ok cap (AList.update (vr_client_order_id v) (o'\<lparr>so_cancel_pending := False\<rparr>) (sm_orders s))"
      using order by (intro update) (simp_all add: simex_order_ok_def live_opening_def)
    then show ?thesis using ok Venue_CANCEL_REJECTED by (auto simp: simex_outcome_def put_simex_order_def fill_of_def Let_def)
  next
    case Venue_response_other
    then show ?thesis using ok by (simp add: simex_outcome_def)
  qed
qed

lemma outcome_orders:
  assumes d: "distinct (map fst (sm_orders s))" and o': "map_of (sm_orders s) (vr_client_order_id v) = Some o'"
    and ok: "simex_outcome A v o' s = Ok s' t'" and x: "(j, x) \<in> set (sm_orders s')"
  shows "exec_of (vr_client_order_id v) v \<le> unat (so_remaining o') \<and>
    (if j = vr_client_order_id v
     then so_request x = so_request o' \<and> unat (so_remaining x) + exec_of j v = unat (so_remaining o')
     else (j, x) \<in> set (sm_orders s))"
proof -
  have mem: "(vr_client_order_id v, y) \<in> set (sm_orders s) \<Longrightarrow> y = o'" for y using d o' by auto
  show ?thesis
  proof (cases "vr_type v")
    case Venue_FILLED
    then have fill: "\<not> invalid_fill v o'" using ok by (auto simp: simex_outcome_def Let_def split: if_splits)
    then have exec: "vr_exec_qty v \<le> so_remaining o'" "vr_leaves_qty v = so_remaining o' - vr_exec_qty v"
      by (auto simp: invalid_fill_def)
    then have "unat (vr_leaves_qty v) + unat (vr_exec_qty v) = unat (so_remaining o')"
      "unat (vr_exec_qty v) \<le> unat (so_remaining o')"
      by (simp_all add: word_le_nat_alt unat_sub)
    then show ?thesis using ok fill Venue_FILLED x
      by (auto simp: simex_outcome_def put_simex_order_def exec_of_def Let_def set_AList_update[OF d] split: if_splits)
  qed (use ok x mem in \<open>auto simp: simex_outcome_def put_simex_order_def exec_of_def Let_def set_AList_update[OF d]
      split: if_splits\<close>)
qed

lemma simex_response_steps:
  assumes ok: "simex_response A (h, v) s = Ok s' ()"
  obtains o' s1 sd t where "fh_sequence h = sm_response_sequence s" "map_of (sm_orders s) (vr_client_order_id v) = Some o'"
    "simex_outcome A v o' (s\<lparr>sm_response_sequence := sm_response_sequence s + 1\<rparr>) = Ok s1 t"
    "simex_publish (simex_report v sd o' t s1) s1 = Ok s' ()"
proof -
  have "\<exists>o' s1 sd t. fh_sequence h = sm_response_sequence s \<and> map_of (sm_orders s) (vr_client_order_id v) = Some o' \<and>
      simex_outcome A v o' (s\<lparr>sm_response_sequence := sm_response_sequence s + 1\<rparr>) = Ok s1 t \<and>
      simex_publish (simex_report v sd o' t s1) s1 = Ok s' ()"
    using ok unfolding simex_response_def
    by (auto simp: Let_def try_with_def then_do_Ok_iff split: if_splits sum.splits option.splits)
  then show thesis using that by blast
qed

lemma simex_response_inv:
  assumes A: "widens A" and inv: "simex_orders_inv s F" and ok: "simex_response A w s = Ok s' ()"
  shows "simex_orders_inv s' (F @ [w])"
proof -
  obtain h v where w: "w = (h, v)" by fastforce
  from ok[unfolded w] show ?thesis
  proof (rule simex_response_steps)
    fix o' s1 sd t assume st: "fh_sequence h = sm_response_sequence s" "map_of (sm_orders s) (vr_client_order_id v) = Some o'"
      "simex_outcome A v o' (s\<lparr>sm_response_sequence := sm_response_sequence s + 1\<rparr>) = Ok s1 t"
      "simex_publish (simex_report v sd o' t s1) s1 = Ok s' ()"
    have "simex_orders_inv s1 (F @ [w])"
      using outcome_inv[of "xc_capacity (sm_config s)" "s\<lparr>sm_response_sequence := sm_response_sequence s + 1\<rparr>" v o' A s1 t]
        A inv st(1-3) by (auto simp: simex_orders_inv_def w)
    then show ?thesis using same_orders_inv[OF simex_publish_same[OF st(4)]] by blast
  qed
qed

lemma simex_response_ledger:
  assumes d: "distinct (map fst (sm_orders s))" and l: "simex_ledger (sm_orders s) L"
    and ok: "simex_response A w s = Ok s' ()"
  shows "simex_ledger (sm_orders s') (L @ [Frame w])"
proof -
  obtain h v where w: "w = (h, v)" by fastforce
  from ok[unfolded w] show ?thesis
  proof (rule simex_response_steps)
    fix o' s1 sd t assume st: "map_of (sm_orders s) (vr_client_order_id v) = Some o'"
      "simex_outcome A v o' (s\<lparr>sm_response_sequence := sm_response_sequence s + 1\<rparr>) = Ok s1 t"
      "simex_publish (simex_report v sd o' t s1) s1 = Ok s' ()"
    have same: "sm_orders s' = sm_orders s1" using simex_publish_same[OF st(3)] by (simp add: same_orders_def)
    have o: "exec_of (vr_client_order_id v) v \<le> unat (so_remaining o') \<and>
        (if j = vr_client_order_id v
         then so_request x = so_request o' \<and> unat (so_remaining x) + exec_of j v = unat (so_remaining o')
         else (j, x) \<in> set (sm_orders s))" if "(j, x) \<in> set (sm_orders s1)" for j x
      using outcome_orders[OF _ _ st(2) that] d st(1) by (simp split: if_splits)
    show ?thesis
    proof (cases "sm_orders s' = []")
      case True
      then show ?thesis using l st(1,2) same
        by (auto simp: simex_outcome_def put_simex_order_def Let_def split: venue_response_type.splits if_splits)
    next
      case False
      then obtain j x where "(j, x) \<in> set (sm_orders s1)" using same by (cases "sm_orders s1") auto
      then have "exec_of (vr_client_order_id v) v \<le> unat (so_remaining o')" using o by blast
      from simex_ledger_frame[OF l map_of_SomeD[OF st(1)] o[THEN conjunct2] this] show ?thesis
        by (simp add: w same)
    qed
  qed
qed

lemma orders_inv_incoming [simp]: "simex_orders_inv (s\<lparr>sm_incoming := x\<rparr>) F = simex_orders_inv s F"
  by (simp add: simex_orders_inv_def)

lemma batch_inv:
  assumes "widens A" "simex_orders_inv s F" "tcp_batch A rs s = Ok s' ()"
  shows "simex_orders_inv s' (F @ frames_of A (ab_response_size A) (sm_incoming s) rs)"
  using assms(2,3)
proof (induction rs arbitrary: s F)
  case (Cons r rs)
  show ?case
  proof (cases r)
    case (Received c)
    let ?s = "s\<lparr>sm_incoming := sm_incoming s @ c\<rparr>"
    show ?thesis
    proof (cases "length (sm_incoming s @ c) = ab_response_size A")
      case True
      then obtain s1 where r: "simex_response A (ab_response A (sm_incoming s @ c)) ?s = Ok s1 ()"
          "tcp_batch A rs (s1\<lparr>sm_incoming := []\<rparr>) = Ok s' ()"
        using Cons.prems(2) Received by (auto simp: Let_def then_do_Ok_iff)
      have "simex_orders_inv s1 (F @ [ab_response A (sm_incoming s @ c)])"
        using simex_response_inv[OF assms(1) _ r(1)] Cons.prems(1) by simp
      then show ?thesis
        using Cons.IH[of "s1\<lparr>sm_incoming := []\<rparr>" "F @ [ab_response A (sm_incoming s @ c)]"] r(2) True Received by simp
    next
      case False
      then show ?thesis using Cons.IH[of ?s F] Cons.prems Received by (simp add: Let_def)
    qed
  qed (use Cons.prems in simp_all)
qed simp

lemma batch_ledger:
  assumes "widens A" "simex_orders_inv s F" "simex_ledger (sm_orders s) L" "tcp_batch A rs s = Ok s' ()"
  shows "simex_ledger (sm_orders s') (L @ map Frame (frames_of A (ab_response_size A) (sm_incoming s) rs))"
  using assms(2-4)
proof (induction rs arbitrary: s F L)
  case (Cons r rs)
  show ?case
  proof (cases r)
    case (Received c)
    let ?s = "s\<lparr>sm_incoming := sm_incoming s @ c\<rparr>" and ?w = "ab_response A (sm_incoming s @ c)"
    show ?thesis
    proof (cases "length (sm_incoming s @ c) = ab_response_size A")
      case True
      then obtain s1 where r: "simex_response A ?w ?s = Ok s1 ()" "tcp_batch A rs (s1\<lparr>sm_incoming := []\<rparr>) = Ok s' ()"
        using Cons.prems(3) Received by (auto simp: Let_def then_do_Ok_iff)
      have "simex_orders_inv s1 (F @ [?w])" using simex_response_inv[OF assms(1) _ r(1)] Cons.prems(1) by simp
      moreover have "simex_ledger (sm_orders s1) (L @ [Frame ?w])"
        using simex_response_ledger[OF _ _ r(1)] Cons.prems(1,2) by (simp add: simex_orders_inv_def simex_table_ok_def)
      ultimately show ?thesis
        using Cons.IH[of "s1\<lparr>sm_incoming := []\<rparr>" "F @ [?w]" "L @ [Frame ?w]"] r(2) True Received by simp
    next
      case False
      then show ?thesis using Cons.IH[of ?s F L] Cons.prems Received by (simp add: Let_def)
    qed
  qed (use Cons.prems in simp_all)
qed simp

lemma transmit_inv: "simex_orders_inv s F \<Longrightarrow> tcp_transmit A result s = Ok s' () \<Longrightarrow> simex_orders_inv s' F"
  by (cases "sm_outgoing s"; cases result)
     (auto simp: tcp_transmit_def simex_orders_inv_def sm_tick_def Let_def split: if_splits)

lemma deadline_inv: "simex_orders_inv s F \<Longrightarrow> send_deadline s = Ok s' () \<Longrightarrow> simex_orders_inv s' F"
  by (auto simp: send_deadline_def simex_orders_inv_def sm_tick_def Let_def split: if_splits)

lemma or_terminate_Ok: "or_terminate m = Ok s a \<longleftrightarrow> m = Ok s a"
  by (cases m) (simp_all add: or_terminate_def)

lemma transmit_orders: "tcp_transmit A result s = Ok s' () \<Longrightarrow> sm_orders s' = sm_orders s"
  by (cases "sm_outgoing s"; cases result) (auto simp: tcp_transmit_def sm_tick_def Let_def split: if_splits)

lemma deadline_orders: "send_deadline s = Ok s' () \<Longrightarrow> sm_orders s' = sm_orders s"
  by (auto simp: send_deadline_def sm_tick_def Let_def split: if_splits)

lemma simex_pollOrders_steps:
  assumes ok: "simex_pollOrders A p s = Ok s' ()"
  obtains s1 s2 where "(if tp_readable p then tcp_batch A (take 256 (tp_receipts p)) s else Ok s ()) = Ok s1 ()"
    "(if sm_outgoing s1 \<noteq> [] \<and> tp_writable p then tcp_transmit A (tp_send p) s1 else Ok s1 ()) = Ok s2 ()"
    "send_deadline s2 = Ok s' ()"
proof -
  have "then_do (if tp_readable p then tcp_batch A (take 256 (tp_receipts p)) s else Ok s ()) (\<lambda>s _.
      then_do (if sm_outgoing s \<noteq> [] \<and> tp_writable p then tcp_transmit A (tp_send p) s else Ok s ())
        (\<lambda>s _. send_deadline s)) = Ok s' ()"
    using ok unfolding simex_pollOrders_def or_terminate_Ok by (cases "tp_failed p"; cases "tp_error p") simp_all
  then obtain s1 u1 s2 u2 where "(if tp_readable p then tcp_batch A (take 256 (tp_receipts p)) s else Ok s ()) = Ok s1 u1"
    "(if sm_outgoing s1 \<noteq> [] \<and> tp_writable p then tcp_transmit A (tp_send p) s1 else Ok s1 ()) = Ok s2 u2"
    "send_deadline s2 = Ok s' ()"
    unfolding then_do_Ok_iff by blast
  then show thesis by (intro that[of s1 s2]) simp_all
qed

lemma simex_pollOrders_inv:
  assumes A: "widens A" and inv: "simex_orders_inv s F" and ok: "simex_pollOrders A p s = Ok s' ()"
  shows "simex_orders_inv s' (F @ poll_frames A p s)"
  using ok
proof (rule simex_pollOrders_steps)
  fix s1 s2 assume 1: "(if tp_readable p then tcp_batch A (take 256 (tp_receipts p)) s else Ok s ()) = Ok s1 ()"
    and 2: "(if sm_outgoing s1 \<noteq> [] \<and> tp_writable p then tcp_transmit A (tp_send p) s1 else Ok s1 ()) = Ok s2 ()"
    and 3: "send_deadline s2 = Ok s' ()"
  have "simex_orders_inv s1 (F @ poll_frames A p s)"
    using 1 inv batch_inv[OF A inv] by (auto simp: poll_frames_def split: if_splits)
  then have "simex_orders_inv s2 (F @ poll_frames A p s)"
    using 2 transmit_inv by (auto split: if_splits)
  then show ?thesis using 3 deadline_inv by blast
qed

lemma simex_pollOrders_ledger:
  assumes A: "widens A" and inv: "simex_orders_inv s F" and l: "simex_ledger (sm_orders s) L"
    and ok: "simex_pollOrders A p s = Ok s' ()"
  shows "simex_ledger (sm_orders s') (L @ map Frame (poll_frames A p s))"
  using ok
proof (rule simex_pollOrders_steps)
  fix s1 s2 assume 1: "(if tp_readable p then tcp_batch A (take 256 (tp_receipts p)) s else Ok s ()) = Ok s1 ()"
    and 2: "(if sm_outgoing s1 \<noteq> [] \<and> tp_writable p then tcp_transmit A (tp_send p) s1 else Ok s1 ()) = Ok s2 ()"
    and 3: "send_deadline s2 = Ok s' ()"
  have "simex_ledger (sm_orders s1) (L @ map Frame (poll_frames A p s))"
    using 1 l batch_ledger[OF A inv l] by (auto simp: poll_frames_def split: if_splits)
  moreover have "sm_orders s' = sm_orders s1"
    using 2 deadline_orders[OF 3] transmit_orders by (auto split: if_splits)
  ultimately show ?thesis by simp
qed

lemma start_inv: "simex_adapter_new md og cfg clock = Inr s \<Longrightarrow> simex_orders_inv s []"
  by (auto simp: simex_adapter_new_def simex_orders_inv_def simex_table_ok_def openings_def split: option.splits if_splits)

lemma start_ledger: "simex_adapter_new md og cfg clock = Inr s \<Longrightarrow> simex_ledger (sm_orders s) []"
  by (auto simp: simex_adapter_new_def simex_ledger_def split: option.splits if_splits)

text \<open>C8: In every run of the order side of the simex adapter, an order never trades more than its quantity:
  behind each new order sent, the executions read for its id, until the id is sent again, add up to at most
  its quantity, and for an order in the table to exactly what its quantity lacks; nothing is executed under
  an id before an order is sent with it. All opening orders that can still trade are on one side, the
  tables stay within the configured capacity, the frames read are numbered 0, 1, 2 and so on, and the net
  position is exactly the sum of the executions read and fits 32 bits.\<close>

theorem simex_orders_accounted:
  assumes "widens A" and "simex_run A s L"
  shows "simex_orders_inv s (frames_in L) \<and>
    (\<forall>L1 r L2. L = L1 @ Order_sent r # L2 \<longrightarrow> traded (rq_order_id r) L2 \<le> unat (rq_qty r)) \<and>
    (\<forall>(i, o') \<in> set (sm_orders s). rq_order_id (so_request o') = i \<and>
       (\<exists>L1 L2. L = L1 @ Order_sent (so_request o') # L2 \<and> i \<notin> sent_ids L2 \<and>
          traded i L2 + unat (so_remaining o') = unat (rq_qty (so_request o')))) \<and>
    (\<forall>i. traded i L = 0)"
proof -
  from assms(2) have "simex_orders_inv s (frames_in L) \<and> simex_ledger (sm_orders s) L"
  proof induction
    case (start md og cfg clock s)
    then show ?case using start_inv start_ledger by simp
  next
    case (request s L r s')
    then show ?case using simex_submit_inv simex_submit_ledger by fastforce
  next
    case (poll s L p s')
    then show ?case using simex_pollOrders_inv[OF assms(1)] simex_pollOrders_ledger[OF assms(1)] by fastforce
  next
    case (other s L s')
    then show ?case using same_orders_inv by (auto simp: same_orders_def)
  qed
  then show ?thesis unfolding simex_ledger_def open_account_def by blast
qed

lemma demo_widens: "widens demo_abi"
proof -
  have "sint (ucast q :: 64 word) = int (unat q)" for q :: qty
  proof -
    have "uint q < 2 ^ 63" using uint_bounded[of q] by simp
    moreover have "- (2 ^ 63) \<le> uint q" by (rule order_trans[of _ 0]) simp_all
    ultimately have "signed_take_bit 63 (uint q) = uint q" by (intro signed_take_bit_int_eq_self)
    moreover have "(ucast q :: 64 word) = word_of_int (uint q)" by simp
    ultimately show ?thesis using sint_sbintrunc'[of "uint q", where 'a = 64] by simp
  qed
  then show ?thesis by (simp add: widens_def demo_abi_def)
qed

definition demo_gateway_queue :: "client_response lf_queue" where
  "demo_gateway_queue = \<lparr>lq_store = (\<lambda>_. client_response_init), lq_capacity = 4, lq_next_write = 0, lq_next_read = 0,
     lq_num_elements = 0\<rparr>"

definition demo_trader :: simex_adapter where
  "demo_trader = demo_simex\<lparr>sm_gateway := order_gateway_new 7 None (Some demo_gateway_queue) (\<lambda>_. 0)\<rparr>"

definition demo_simex_request :: client_request where
  "demo_simex_request = client_request_init\<lparr>rq_type := Request_NEW, rq_client_id := 7, rq_ticker_id := 0,
     rq_order_id := 1, rq_side := BUY, rq_price := 100, rq_qty := 5, rq_order_type := LIMIT, rq_offset := OPEN\<rparr>"

definition demo_poll :: tcp_poll where
  "demo_poll = \<lparr>tp_failed = False, tp_error = False, tp_readable = True,
     tp_receipts = [Received [4, 0], Received [3]], tp_writable = False, tp_send = Send_blocked\<rparr>"

lemma demo_trader_new:
  "simex_adapter_new (Some (market_data_consumer_new 7 None (\<lambda>_. 0)))
     (Some (order_gateway_new 7 None (Some demo_gateway_queue) (\<lambda>_. 0))) simex_config_init int = Inr demo_trader"
  by (simp add: simex_adapter_new_def demo_trader_def demo_simex_fields market_data_consumer_new_def
      order_gateway_new_def ClientId_INVALID_def DEPTH_SNAPSHOT_LEVELS_def)

lemma demo_submit:
  "\<exists>s. simex_submit demo_abi demo_simex_request demo_trader = Ok s () \<and> sm_gateway s = sm_gateway demo_trader \<and>
     sm_config s = simex_config_init \<and> sm_incoming s = [] \<and> sm_response_sequence s = 0 \<and> sm_net_position s = 0 \<and>
     sm_participant_response_sequence s = 1 \<and> length (sm_outgoing s) = 1 \<and> sm_outgoing demo_trader = [] \<and>
     sm_orders s = [(1, \<lparr>so_request = demo_simex_request, so_remaining = 5, so_terminal = False, so_cancel_pending = False\<rparr>)]"
  by (simp add: simex_submit_def demo_simex_request_def demo_trader_def demo_simex_fields invalid_request_def
      unsupported_order_def client_request_init_def simex_config_init_def order_gateway_new_def OrderId_INVALID_def
      validQty_def validPrice_def Qty_INVALID_def Price_INVALID_def opposite_exposure_def evict_finished_def
      queue_request_def sm_tick_def Let_def)

lemma demo_fill:
  assumes "sm_gateway s = sm_gateway demo_trader" "sm_config s = simex_config_init" "sm_response_sequence s = 0"
    "sm_net_position s = 0" "sm_participant_response_sequence s = 1"
    "sm_orders s = [(1, \<lparr>so_request = demo_simex_request, so_remaining = 5, so_terminal = False, so_cancel_pending = False\<rparr>)]"
  shows "\<exists>s'. simex_response demo_abi (ab_response demo_abi [4, 0, 3]) s = Ok s' () \<and> sm_net_position s' = 3 \<and>
    sm_clock s' = sm_clock s \<and> sm_last_write s' = sm_last_write s \<and> sm_config s' = sm_config s"
  using assms
  by (simp add: simex_response_def checkHeader_def demo_abi_def demo_trader_def order_gateway_new_def
      demo_simex_request_def simex_outcome_def invalid_fill_def validQty_def validPrice_def Qty_INVALID_def
      Price_INVALID_def put_simex_order_def simex_publish_def publishClientResponse_def simex_report_def
      client_response_init_def lq_enqueue_def tryGetNextToWriteTo_def updateWriteIndex_def lq_isFull_def
      lq_write_slot_def demo_gateway_queue_def Let_def)

lemma fst_AList_update: "map_of os i = Some x \<Longrightarrow> map fst (AList.update i y os) = map fst os"
  by (induction os) (auto split: if_splits)

lemma simex_response_ids:
  assumes "simex_response A (h, v) s = Ok s' ()"
  shows "map fst (sm_orders s') = map fst (sm_orders s)"
  using assms
proof (rule simex_response_steps)
  fix o' s1 sd t assume st: "map_of (sm_orders s) (vr_client_order_id v) = Some o'"
    "simex_outcome A v o' (s\<lparr>sm_response_sequence := sm_response_sequence s + 1\<rparr>) = Ok s1 t"
    "simex_publish (simex_report v sd o' t s1) s1 = Ok s' ()"
  have "map fst (sm_orders s1) = map fst (sm_orders s)"
    using st(1,2) by (auto simp: simex_outcome_def put_simex_order_def fst_AList_update Let_def
        split: venue_response_type.splits if_splits)
  then show ?thesis using simex_publish_same[OF st(3)] by (simp add: same_orders_def)
qed

lemma demo_run:
  "\<exists>s. simex_run demo_abi s [Order_sent demo_simex_request, Frame (ab_response demo_abi [4, 0, 3])] \<and> sm_net_position s = 3 \<and>
     map fst (sm_orders s) = [1]"
proof -
  have size: "ab_response_size demo_abi = 3" "ab_request_size demo_abi = 3" by (simp_all add: demo_abi_def)
  obtain s1 where s1: "simex_submit demo_abi demo_simex_request demo_trader = Ok s1 ()"
    "sm_gateway s1 = sm_gateway demo_trader" "sm_config s1 = simex_config_init" "sm_incoming s1 = []"
    "sm_response_sequence s1 = 0" "sm_net_position s1 = 0" "sm_participant_response_sequence s1 = 1"
    "length (sm_outgoing s1) = 1" "sm_outgoing demo_trader = []"
    "sm_orders s1 = [(1, \<lparr>so_request = demo_simex_request, so_remaining = 5, so_terminal = False, so_cancel_pending = False\<rparr>)]"
    using demo_submit by blast
  let ?s = "s1\<lparr>sm_clock := (\<lambda>_. 0), sm_last_write := 0\<rparr>"
  let ?t = "?s\<lparr>sm_incoming := [4, 0, 3]\<rparr>"
  obtain s2 where s2: "simex_response demo_abi (ab_response demo_abi [4, 0, 3]) ?t = Ok s2 ()" "sm_net_position s2 = 3"
    "sm_clock s2 = (\<lambda>_. 0)" "sm_last_write s2 = 0" "sm_config s2 = simex_config_init"
    using demo_fill[of ?t] s1 by auto
  have ids: "map fst (sm_orders s2) = [1]"
    using simex_response_ids[of demo_abi "fst (ab_response demo_abi [4, 0, 3])" "snd (ab_response demo_abi [4, 0, 3])" ?t s2]
      s2(1) s1(10) by simp
  have "\<exists>s'. simex_pollOrders demo_abi demo_poll ?s = Ok s' () \<and> sm_net_position s' = 3 \<and> map fst (sm_orders s') = [1]"
    using s1(4) s2 ids
    by (simp add: simex_pollOrders_def demo_poll_def or_terminate_def size send_deadline_def sm_now_def sm_tick_def
        simex_config_init_def Let_def)
  moreover have "poll_frames demo_abi demo_poll ?s = [ab_response demo_abi [4, 0, 3]]"
    using s1(4) by (simp add: poll_frames_def demo_poll_def size)
  moreover have "simex_run demo_abi ?s [Order_sent demo_simex_request]"
  proof -
    have "sent_by demo_simex_request demo_trader s1 = [Order_sent demo_simex_request]"
      using s1(8,9) by (simp add: sent_by_def demo_simex_request_def)
    then have "simex_run demo_abi s1 [Order_sent demo_simex_request]"
      using simex_run.request[OF simex_run.start[OF demo_trader_new] s1(1)] by simp
    then show ?thesis by (rule simex_run.other) (simp add: same_orders_def)
  qed
  ultimately show ?thesis using simex_run.poll[of demo_abi ?s "[Order_sent demo_simex_request]" demo_poll] by fastforce
qed

lemma simex_orders_accounted_witness:
  "\<exists>s o' L. simex_run demo_abi s L \<and> simex_orders_inv s (frames_in L) \<and> sm_net_position s = 3 \<and>
     (1, o') \<in> set (sm_orders s) \<and> rq_qty (so_request o') = 5 \<and> unat (so_remaining o') = 2"
proof -
  let ?w = "ab_response demo_abi [4, 0, 3]"
  from demo_run obtain s where s: "simex_run demo_abi s [Order_sent demo_simex_request, Frame ?w]"
    "sm_net_position s = 3" "map fst (sm_orders s) = [1]" by (elim exE conjE)
  then obtain o' where o': "sm_orders s = [(1, o')]" by (cases "sm_orders s") auto
  note a = simex_orders_accounted[OF demo_widens s(1)]
  then obtain L1 L2 where L: "[Order_sent demo_simex_request, Frame ?w] = L1 @ Order_sent (so_request o') # L2"
    "traded 1 L2 + unat (so_remaining o') = unat (rq_qty (so_request o'))"
    unfolding o' by auto
  then have "so_request o' = demo_simex_request" "L2 = [Frame ?w]"
    by (auto simp: Cons_eq_append_conv)
  moreover have "traded 1 [Frame ?w] = 3" by (simp add: demo_abi_def exec_of_def)
  ultimately have "rq_qty (so_request o') = 5" "unat (so_remaining o') = 2"
    using L(2) by (simp_all add: demo_simex_request_def)
  then show ?thesis using a s o'
    by (intro exI[of _ s] exI[of _ o'] exI[of _ "[Order_sent demo_simex_request, Frame ?w]"]) simp
qed

end
