(* ===== verification/LogRecords.thy ===== *)
theory LogRecords
  imports Drain Decimal
begin

text \<open>
  \<open>common/async_logger.h\<close>: the records that producers write into fixed storage, the queue of each producer,
  and the worker that prints them. A character array is its list of characters. Output files are the
  bytes written to them; whether one can be opened, the thread of a call and the clock are arguments.
\<close>

datatype log_level = LEVEL_DEBUG | LEVEL_INFO | LEVEL_WARN | LEVEL_ERROR

primrec logLevelName :: "log_level \<Rightarrow> string" where
  "logLevelName LEVEL_DEBUG = ''DEBUG''"
| "logLevelName LEVEL_INFO = ''INFO''"
| "logLevelName LEVEL_WARN = ''WARN''"
| "logLevelName LEVEL_ERROR = ''ERROR''"

definition kComponentCapacity :: nat where "kComponentCapacity = 64"

definition kMessageCapacity :: nat where "kMessageCapacity = 1024"

definition nul :: char where "nul = CHR 0x00"

record log_record =
  lr_timestamp_us :: "64 word"
  lr_level :: log_level
  lr_component :: "char list"
  lr_message :: "char list"

definition log_record_init :: log_record where
  "log_record_init = \<lparr>lr_timestamp_us = 0, lr_level = LEVEL_INFO, lr_component = replicate kComponentCapacity nul,
     lr_message = replicate kMessageCapacity nul\<rparr>"

text \<open>What printing \<open>data()\<close> of an array shows: the characters before the first NUL.\<close>

definition c_string :: "char list \<Rightarrow> string" where
  "c_string = takeWhile (\<lambda>c. c \<noteq> nul)"

section \<open>Fixed storage\<close>

text \<open>The loop \<open>for (i = 0; i < count; ++i) storage[at + i] = text[i]\<close>.\<close>

definition write_at :: "nat \<Rightarrow> nat \<Rightarrow> string \<Rightarrow> char list \<Rightarrow> char list" where
  "write_at start n text storage = take start storage @ take n text @ drop (start + n) storage"

definition copyText :: "char list \<Rightarrow> string \<Rightarrow> char list" where
  "copyText destination source =
     (let n = (if length source < length destination - 1 then length source else length destination - 1)
      in (write_at 0 n source destination)[n := nul])"

text \<open>\<open>std::size_t\<close> is a natural number here: \<open>used_ < capacity_\<close> always holds where it is subtracted.\<close>

record message_builder =
  mb_storage :: "char list"
  mb_capacity :: nat
  mb_used :: nat

definition message_builder_new :: "char list \<Rightarrow> nat \<Rightarrow> message_builder" where
  "message_builder_new storage capacity =
     \<lparr>mb_storage = (if capacity \<noteq> 0 then storage[0 := nul] else storage), mb_capacity = capacity, mb_used = 0\<rparr>"

definition mb_append :: "string \<Rightarrow> message_builder \<Rightarrow> message_builder" where
  "mb_append text b =
     (if mb_capacity b = 0 then b
      else
        let remaining = mb_capacity b - 1 - mb_used b;
            n = (if length text < remaining then length text else remaining);
            used = mb_used b + n
        in b\<lparr>mb_storage := (write_at (mb_used b) n text (mb_storage b))[used := nul], mb_used := used\<rparr>)"

text \<open>\<open>std::to_chars\<close> of an integer; its longest result fits the 24 digits.\<close>

definition mb_append_int :: "int \<Rightarrow> message_builder \<Rightarrow> message_builder" where
  "mb_append_int v = mb_append (show_int v)"

section \<open>Producers\<close>

record producer_state =
  pd_component :: string
  pd_queue :: "log_record lf_queue"
  pd_file :: string
  pd_open :: bool
  pd_bound :: bool

record producer_handle =
  ph_state :: "nat option"
  ph_owner :: "nat option"

record async_logger =
  al_queue_capacity :: nat
  al_producers :: "producer_state list"
  al_running :: bool
  al_started :: bool
  al_stopped :: bool

definition async_logger_new :: "nat \<Rightarrow> int \<Rightarrow> exn + async_logger" where
  "async_logger_new queue_capacity poll_interval =
     (if queue_capacity = 0 \<or> poll_interval < 0 then Inl (Invalid_argument ''Invalid logger configuration'')
      else Inr \<lparr>al_queue_capacity = queue_capacity, al_producers = [], al_running = False, al_started = False,
                al_stopped = False\<rparr>)"

definition producer_state_new :: "string \<Rightarrow> bool \<Rightarrow> string \<Rightarrow> nat \<Rightarrow> exn + producer_state" where
  "producer_state_new component opens path queue_capacity =
     (case lf_queue_new log_record_init queue_capacity of
        Inl e \<Rightarrow> Inl e
      | Inr q \<Rightarrow>
          if component = [] \<or> length component \<ge> kComponentCapacity
          then Inl (Invalid_argument ''Invalid logger component name'')
          else if \<not> opens then Inl (Runtime_error (''Could not open logger output file: '' @ path))
          else Inr \<lparr>pd_component = component, pd_queue = q, pd_file = [], pd_open = True, pd_bound = False\<rparr>)"

definition registerProducer :: "string \<Rightarrow> bool \<Rightarrow> string \<Rightarrow> async_logger \<Rightarrow> (async_logger, producer_handle) outcome" where
  "registerProducer component opens path l =
     (if al_stopped l then Throw l (Logic_error ''Cannot register logger producer after stop'')
      else case producer_state_new component opens path (al_queue_capacity l) of
             Inl e \<Rightarrow> Throw l e
           | Inr p \<Rightarrow> Ok (l\<lparr>al_producers := al_producers l @ [p]\<rparr>)
                       \<lparr>ph_state = Some (length (al_producers l)), ph_owner = None\<rparr>)"

definition move_handle :: "producer_handle \<Rightarrow> producer_handle \<times> producer_handle" where
  "move_handle other = (\<lparr>ph_state = None, ph_owner = None\<rparr>, other)"

definition put_producer :: "nat \<Rightarrow> producer_state \<Rightarrow> async_logger \<Rightarrow> async_logger" where
  "put_producer i p l = l\<lparr>al_producers := (al_producers l)[i := p]\<rparr>"

definition bindToCurrentThread :: "nat \<Rightarrow> producer_handle \<times> async_logger \<Rightarrow> producer_handle \<times> async_logger" where
  "bindToCurrentThread thread = (\<lambda>(h, l).
     case ph_state h of
       None \<Rightarrow> (h, l)
     | Some i \<Rightarrow> if ph_owner h \<noteq> None then (h, l)
                 else (h\<lparr>ph_owner := Some thread\<rparr>, put_producer i ((al_producers l ! i)\<lparr>pd_bound := True\<rparr>) l))"

text \<open>\<open>logFixed\<close> with the formatter as a function on builders; a full queue drops the record.\<close>

definition logFixed :: "log_level \<Rightarrow> (message_builder \<Rightarrow> message_builder) \<Rightarrow> 64 word \<Rightarrow> nat \<Rightarrow>
    producer_handle \<times> async_logger \<Rightarrow> (producer_handle \<times> async_logger, unit) outcome" where
  "logFixed level formatter now thread s =
     (case ph_state (fst s) of
        None \<Rightarrow> Ok s ()
      | Some i \<Rightarrow>
          (let (h, l) = (if ph_owner (fst s) = None then bindToCurrentThread thread s else s); p = al_producers l ! i
           in if ph_owner h \<noteq> Some thread then Ok (h, l) ()
              else case tryGetNextToWriteTo (pd_queue p) of
                     None \<Rightarrow> Ok (h, l) ()
                   | Some place \<Rightarrow>
                       let r = lq_store (pd_queue p) place;
                           r = r\<lparr>lr_timestamp_us := now, lr_level := level,
                                 lr_component := copyText (lr_component r) (pd_component p),
                                 lr_message := mb_storage (formatter (message_builder_new (lr_message r) kMessageCapacity))\<rparr>
                       in on_part (\<lambda>q. (h, put_producer i (p\<lparr>pd_queue := q\<rparr>) l))
                            (updateWriteIndex (lq_write_slot place r (pd_queue p)))))"

text \<open>\<open>log\<close> copies the text instead.\<close>

definition log_text :: "log_level \<Rightarrow> string \<Rightarrow> 64 word \<Rightarrow> nat \<Rightarrow> producer_handle \<times> async_logger \<Rightarrow>
    (producer_handle \<times> async_logger, unit) outcome" where
  "log_text level message now thread s =
     (case ph_state (fst s) of
        None \<Rightarrow> Ok s ()
      | Some i \<Rightarrow>
          (let (h, l) = (if ph_owner (fst s) = None then bindToCurrentThread thread s else s); p = al_producers l ! i
           in if ph_owner h \<noteq> Some thread then Ok (h, l) ()
              else case tryGetNextToWriteTo (pd_queue p) of
                     None \<Rightarrow> Ok (h, l) ()
                   | Some place \<Rightarrow>
                       let r = lq_store (pd_queue p) place;
                           r = r\<lparr>lr_timestamp_us := now, lr_level := level,
                                 lr_component := copyText (lr_component r) (pd_component p),
                                 lr_message := copyText (lr_message r) message\<rparr>
                       in on_part (\<lambda>q. (h, put_producer i (p\<lparr>pd_queue := q\<rparr>) l))
                            (updateWriteIndex (lq_write_slot place r (pd_queue p)))))"

section \<open>The worker\<close>

definition log_line :: "log_record \<Rightarrow> string" where
  "log_line r = show_s (lr_timestamp_us r) @ '' ['' @ logLevelName (lr_level r) @ ''] ['' @
     c_string (lr_component r) @ ''] '' @ c_string (lr_message r) @ [CHR 0x0A]"

definition write_record :: "log_record \<Rightarrow> producer_state \<Rightarrow> (producer_state, unit) outcome" where
  "write_record r p = on_part (\<lambda>q. p\<lparr>pd_queue := q, pd_file := pd_file p @ log_line r\<rparr>) (updateReadIndex (pd_queue p))"

definition drain_producer :: "producer_state \<Rightarrow> (producer_state, bool) outcome" where
  "drain_producer p = await (drain (\<lambda>p. lq_peek (pd_queue p)) write_record False p) id"

primrec drain_producers :: "producer_state list \<Rightarrow> (producer_state list, unit) outcome" where
  "drain_producers [] = Ok [] ()"
| "drain_producers (p # ps) =
     then_do (on_part (\<lambda>p. p # ps) (drain_producer p)) (\<lambda>qs _.
       on_part (\<lambda>ps. hd qs # ps) (drain_producers ps))"

definition logger_drain :: "async_logger \<Rightarrow> (async_logger, unit) outcome" where
  "logger_drain l = on_part (\<lambda>ps. l\<lparr>al_producers := ps\<rparr>) (drain_producers (al_producers l))"

definition hasPendingRecords :: "async_logger \<Rightarrow> bool" where
  "hasPendingRecords l = list_ex (\<lambda>p. lq_num_elements (pd_queue p) \<noteq> 0) (al_producers l)"

text \<open>The end of the worker: \<open>do { drain(); } while (hasPendingRecords());\<close>\<close>

partial_function (option) drain_rest :: "async_logger \<Rightarrow> (async_logger, unit) outcome option" where
  "drain_rest l =
     (case logger_drain l of
        Ok l u \<Rightarrow> if hasPendingRecords l then drain_rest l else Some (Ok l u)
      | m \<Rightarrow> Some m)"

definition logger_start :: "async_logger \<Rightarrow> (async_logger, unit) outcome" where
  "logger_start l =
     (if al_stopped l then Throw l (Logic_error ''Cannot restart logger after stop'')
      else if al_started l then Ok l ()
      else Ok (l\<lparr>al_started := True, al_running := True\<rparr>) ())"

text \<open>\<open>stop\<close> waits for the worker, which prints what the queues hold, and closes the files.\<close>

definition logger_stop :: "async_logger \<Rightarrow> (async_logger, unit) outcome" where
  "logger_stop l =
     (if \<not> al_started l \<or> al_stopped l then Ok l ()
      else then_do (await (drain_rest (l\<lparr>al_stopped := True, al_running := False\<rparr>)) id) (\<lambda>l _.
             Ok (l\<lparr>al_producers := map (\<lambda>p. p\<lparr>pd_open := False\<rparr>) (al_producers l), al_started := False\<rparr>) ()))"

definition bindings_complete :: "nat \<Rightarrow> async_logger \<Rightarrow> bool" where
  "bindings_complete expected l \<longleftrightarrow> length (al_producers l) = expected \<and> list_all pd_bound (al_producers l)"

section \<open>Fixed storage holds a prefix\<close>

text \<open>The text a builder holds, and the invariant that its storage is terminated.\<close>

definition mb_ok :: "message_builder \<Rightarrow> bool" where
  "mb_ok b \<longleftrightarrow> length (mb_storage b) = mb_capacity b \<and>
     (mb_capacity b \<noteq> 0 \<longrightarrow> mb_used b < mb_capacity b \<and> mb_storage b ! mb_used b = nul)"

definition mb_text :: "message_builder \<Rightarrow> string" where
  "mb_text b = take (mb_used b) (mb_storage b)"

lemma mb_new_ok: "length storage = n \<Longrightarrow> mb_ok (message_builder_new storage n) \<and> mb_text (message_builder_new storage n) = []"
  by (simp add: mb_ok_def mb_text_def message_builder_new_def)

lemma length_write_at: "start + n \<le> length storage \<Longrightarrow> n \<le> length text \<Longrightarrow> length (write_at start n text storage) = length storage"
  by (simp add: write_at_def)

text \<open>Appending keeps the storage terminated and adds the longest prefix of the text that fits.\<close>

lemma mb_append_ok:
  assumes "mb_ok b" "mb_capacity b \<noteq> 0"
  shows "mb_ok (mb_append t b)" "mb_text (mb_append t b) = take (mb_capacity b - 1) (mb_text b @ t)"
    "mb_capacity (mb_append t b) = mb_capacity b"
proof -
  let ?r = "mb_capacity b - 1 - mb_used b"
  let ?n = "if length t < ?r then length t else ?r"
  have u: "mb_used b < mb_capacity b" "length (mb_storage b) = mb_capacity b" using assms by (auto simp: mb_ok_def)
  have n: "mb_used b + ?n < mb_capacity b" "?n \<le> length t" using u(1) by auto
  have b': "mb_append t b = b\<lparr>mb_storage := (write_at (mb_used b) ?n t (mb_storage b))[mb_used b + ?n := nul],
      mb_used := mb_used b + ?n\<rparr>"
    using assms(2) by (simp add: mb_append_def Let_def)
  show "mb_ok (mb_append t b)" "mb_capacity (mb_append t b) = mb_capacity b"
    unfolding b' using u n length_write_at[of "mb_used b" ?n "mb_storage b" t] by (simp_all add: mb_ok_def)
  have "mb_text (mb_append t b) = take (mb_used b) (mb_storage b) @ take ?n t"
    unfolding b' mb_text_def using u n by (simp add: write_at_def)
  also have "\<dots> = take (mb_capacity b - 1) (mb_text b @ t)"
    using u(1,2) by (cases "mb_used b = mb_capacity b - 1") (auto simp: mb_text_def min_def)
  finally show "mb_text (mb_append t b) = take (mb_capacity b - 1) (mb_text b @ t)" .
qed

lemma c_string_prefix:
  assumes "n < length s" "s ! n = nul" "nul \<notin> set (take n s)"
  shows "c_string s = take n s"
proof -
  have "takeWhile (\<lambda>c. c \<noteq> nul) (take n s @ s ! n # drop (Suc n) s) = take n s"
    using assms(2,3) by (subst takeWhile_append2) auto
  then show ?thesis using id_take_nth_drop[OF assms(1)] by (simp add: c_string_def)
qed

lemma copyText_prints:
  assumes "destination \<noteq> []" "nul \<notin> set source"
  shows "c_string (copyText destination source) = take (length destination - 1) source"
    "length (copyText destination source) = length destination"
proof -
  let ?n = "if length source < length destination - 1 then length source else length destination - 1"
  have n: "?n < length destination" "?n \<le> length source" using assms(1) by (auto simp: Suc_le_eq)
  let ?c = "(write_at 0 ?n source destination)[?n := nul]"
  have len: "length ?c = length destination" using n length_write_at[of 0 ?n destination source] by simp
  have t: "take ?n ?c = take ?n source" using n by (simp add: write_at_def)
  have "c_string ?c = take ?n ?c"
    by (rule c_string_prefix) (use n len t assms(2) set_take_subset[of ?n source] in auto)
  then show "c_string (copyText destination source) = take (length destination - 1) source"
    "length (copyText destination source) = length destination"
    using t len by (auto simp: copyText_def Let_def min_def)
qed

section \<open>Nothing that was queued is lost\<close>

definition producer_ok :: "producer_state \<Rightarrow> bool" where
  "producer_ok p \<longleftrightarrow> lq_inv (pd_queue p)"

definition printed :: "producer_state \<Rightarrow> string" where
  "printed p = pd_file p @ concat (map log_line (lq_content (pd_queue p)))"

lemma drain_producer_prints:
  assumes "producer_ok p"
  shows "\<exists>p'. drain_producer p = Ok p' (lq_content (pd_queue p) \<noteq> []) \<and> producer_ok p' \<and> lq_content (pd_queue p') = [] \<and>
    pd_file p' = printed p \<and> pd_component p' = pd_component p \<and> pd_open p' = pd_open p \<and> pd_bound p' = pd_bound p"
proof -
  let ?view = "\<lambda>p. (pd_file p, pd_component p, pd_open p, pd_bound p)"
  let ?step = "\<lambda>r (f, x). (f @ log_line r, x)"
  have "\<exists>p'. drain (\<lambda>p. lq_peek (pd_queue p)) write_record False p =
      Some (Ok p' (False \<or> (lq_content \<circ> pd_queue) p \<noteq> [])) \<and> producer_ok p' \<and> (lq_content \<circ> pd_queue) p' = [] \<and>
      ?view p' = fold ?step ((lq_content \<circ> pd_queue) p) (?view p)"
  proof (rule drain_fold[where step = ?step])
    fix r rs s assume s: "producer_ok s" "(lq_content \<circ> pd_queue) s = r # rs"
    then obtain q where "updateReadIndex (pd_queue s) = Ok q ()" "lq_inv q" "lq_content q = rs"
      using lq_dequeue_ok[of "pd_queue s" r rs] by (auto simp: producer_ok_def)
    then show "\<exists>s'. write_record r s = Ok s' () \<and> producer_ok s' \<and> (lq_content \<circ> pd_queue) s' = rs \<and>
        ?view s' = ?step r (?view s)"
      by (simp add: write_record_def producer_ok_def)
  qed (use assms in \<open>simp_all add: producer_ok_def lq_peek_content\<close>)
  moreover have "fold ?step rs (f, x) = (f @ concat (map log_line rs), x)"
    for rs f and x :: "string \<times> bool \<times> bool"
    by (induction rs arbitrary: f) simp_all
  ultimately show ?thesis by (auto simp: drain_producer_def printed_def)
qed

definition all_printed :: "producer_state list \<Rightarrow> producer_state list \<Rightarrow> bool" where
  "all_printed ps qs \<longleftrightarrow> list_all2 (\<lambda>p q. producer_ok q \<and> lq_content (pd_queue q) = [] \<and> pd_file q = printed p \<and>
     pd_component q = pd_component p) ps qs"

lemma drain_producers_prints:
  "list_all producer_ok ps \<Longrightarrow> \<exists>qs. drain_producers ps = Ok qs () \<and> all_printed ps qs"
proof (induction ps)
  case (Cons p ps)
  obtain q where q: "drain_producer p = Ok q (lq_content (pd_queue p) \<noteq> [])" "producer_ok q"
      "lq_content (pd_queue q) = []" "pd_file q = printed p" "pd_component q = pd_component p"
    using drain_producer_prints[of p] Cons.prems by auto
  obtain qs where "drain_producers ps = Ok qs ()" "all_printed ps qs" using Cons by auto
  then show ?case using q by (simp add: all_printed_def)
qed (simp add: all_printed_def)

lemma logger_stop_prints:
  assumes "al_started l" "\<not> al_stopped l" "list_all producer_ok (al_producers l)"
  shows "\<exists>qs. logger_stop l = Ok (l\<lparr>al_stopped := True, al_running := False,
      al_producers := map (\<lambda>p. p\<lparr>pd_open := False\<rparr>) qs, al_started := False\<rparr>) () \<and> all_printed (al_producers l) qs"
proof -
  let ?l = "l\<lparr>al_stopped := True, al_running := False\<rparr>"
  obtain qs where qs: "drain_producers (al_producers l) = Ok qs ()" "all_printed (al_producers l) qs"
    using drain_producers_prints[OF assms(3)] by blast
  have "\<forall>q\<in>set qs. lq_content (pd_queue q) = []"
    using qs(2) by (auto simp: all_printed_def list_all2_conv_all_nth in_set_conv_nth)
  then have "lq_num_elements (pd_queue q) = 0" if "q \<in> set qs" for q
    using that length_lq_content[of "pd_queue q"] by simp
  then have "\<not> hasPendingRecords (?l\<lparr>al_producers := qs\<rparr>)" by (simp add: hasPendingRecords_def list_ex_iff)
  then have "drain_rest ?l = Some (Ok (?l\<lparr>al_producers := qs\<rparr>) ())"
    by (subst drain_rest.simps) (simp add: logger_drain_def qs(1))
  then show ?thesis using assms(1,2) qs(2) by (auto simp: logger_stop_def)
qed

text \<open>C21: Stopping a running logger ends: its worker prints every record that is still queued, in the order of
  each producer and after what was printed before, and leaves all queues empty. So a record is in the
  file of its component unless the queue was full when it was logged.\<close>

theorem logger_stop_flushes:
  assumes "al_started l" "\<not> al_stopped l" "list_all producer_ok (al_producers l)"
  shows "\<exists>l'. logger_stop l = Ok l' () \<and> al_stopped l' \<and> \<not> al_running l' \<and>
    map pd_file (al_producers l') = map printed (al_producers l) \<and>
    (\<forall>p\<in>set (al_producers l'). lq_content (pd_queue p) = [] \<and> \<not> pd_open p)"
proof -
  obtain qs where qs: "logger_stop l = Ok (l\<lparr>al_stopped := True, al_running := False,
      al_producers := map (\<lambda>p. p\<lparr>pd_open := False\<rparr>) qs, al_started := False\<rparr>) ()" "all_printed (al_producers l) qs"
    using logger_stop_prints[OF assms] by blast
  have "map pd_file qs = map printed (al_producers l)"
    using qs(2) by (auto simp: all_printed_def list_all2_conv_all_nth intro!: nth_equalityI)
  moreover have "\<forall>q\<in>set qs. lq_content (pd_queue q) = []"
    using qs(2) by (auto simp: all_printed_def list_all2_conv_all_nth in_set_conv_nth)
  ultimately show ?thesis using qs(1) by (simp add: comp_def)
qed

text \<open>A record that is logged is the last of its producer and prints the text, cut to the capacity.\<close>

lemma log_text_queues:
  assumes h: "ph_state h = Some i" "ph_owner h \<in> {None, Some t}" and i: "i < length (al_producers l)"
    and p: "producer_ok (al_producers l ! i)" "lq_num_elements (pd_queue (al_producers l ! i)) < lq_capacity (pd_queue (al_producers l ! i))"
  shows "\<exists>h' l' r. log_text level m now t (h, l) = Ok (h', l') () \<and> ph_owner h' = Some t \<and>
    lq_content (pd_queue (al_producers l' ! i)) = lq_content (pd_queue (al_producers l ! i)) @ [r] \<and>
    lr_timestamp_us r = now \<and> lr_level r = level \<and> producer_ok (al_producers l' ! i)"
proof -
  obtain h1 l1 where b: "(if ph_owner h = None then bindToCurrentThread t (h, l) else (h, l)) = (h1, l1)" by fastforce
  have 1: "ph_owner h1 = Some t" "ph_state h1 = Some i" "length (al_producers l1) = length (al_producers l)"
      "pd_queue (al_producers l1 ! i) = pd_queue (al_producers l ! i)"
    using b h i by (auto simp: bindToCurrentThread_def put_producer_def split: if_splits)
  let ?q = "pd_queue (al_producers l ! i)"
  have "\<not> lq_isFull ?q" using p(2) by (simp add: lq_isFull_def)
  then have place: "tryGetNextToWriteTo ?q = Some (lq_next_write ?q)" by (simp add: tryGetNextToWriteTo_def)
  define r where "r = (let r = lq_store ?q (lq_next_write ?q) in r\<lparr>lr_timestamp_us := now, lr_level := level,
      lr_component := copyText (lr_component r) (pd_component (al_producers l1 ! i)),
      lr_message := copyText (lr_message r) m\<rparr>)"
  obtain q' where q': "lq_enqueue r ?q = Ok q' ()" "lq_inv q'" "lq_content q' = lq_content ?q @ [r]"
    using lq_enqueue_ok[of ?q r] p by (auto simp: producer_ok_def)
  then have wrote: "updateWriteIndex (lq_write_slot (lq_next_write ?q) r ?q) = Ok q' ()"
    by (simp add: lq_enqueue_def place)
  have "log_text level m now t (h, l) =
      Ok (h1, put_producer i ((al_producers l1 ! i)\<lparr>pd_queue := q'\<rparr>) l1) ()"
    using h(1) wrote by (simp add: log_text_def b 1 place r_def Let_def)
  then show ?thesis
    using 1 i q'(2,3) by (intro exI[of _ h1] exI exI[of _ r]) (auto simp: put_producer_def producer_ok_def r_def Let_def)
qed

definition demo_log_record :: "string \<Rightarrow> log_record" where
  "demo_log_record m = log_record_init\<lparr>lr_timestamp_us := 5, lr_component := copyText (lr_component log_record_init) ''Jev'',
     lr_message := copyText (lr_message log_record_init) m\<rparr>"

definition demo_logger :: async_logger where
  "demo_logger = \<lparr>al_queue_capacity = 2, al_producers = [\<lparr>pd_component = ''Jev'',
     pd_queue = \<lparr>lq_store = (\<lambda>_. demo_log_record ''hold''), lq_capacity = 2, lq_next_write = 1, lq_next_read = 0,
                 lq_num_elements = 1\<rparr>, pd_file = ''start'', pd_open = True, pd_bound = True\<rparr>],
     al_running = True, al_started = True, al_stopped = False\<rparr>"

lemma logger_stop_flushes_witness:
  "\<exists>l'. logger_stop demo_logger = Ok l' () \<and>
     map pd_file (al_producers l') = [''start'' @ ''5 [INFO] [Jev] hold'' @ [CHR 0x0A]]"
proof -
  have "lr_component log_record_init \<noteq> []" "lr_message log_record_init \<noteq> []"
    "length (lr_component log_record_init) = 64" "length (lr_message log_record_init) = 1024"
    by (simp_all add: log_record_init_def kComponentCapacity_def kMessageCapacity_def)
  then have "c_string (lr_component (demo_log_record ''hold'')) = ''Jev''" "c_string (lr_message (demo_log_record ''hold'')) = ''hold''"
    using copyText_prints(1)[of "lr_component log_record_init" "''Jev''"]
      copyText_prints(1)[of "lr_message log_record_init" "''hold''"]
    by (simp_all add: demo_log_record_def nul_def)
  moreover have "show_s (5 :: 64 word) = ''5''" by code_simp
  ultimately have line: "log_line (demo_log_record ''hold'') = ''5 [INFO] [Jev] hold'' @ [CHR 0x0A]"
    by (simp add: log_line_def demo_log_record_def log_record_init_def)
  have "list_all producer_ok (al_producers demo_logger)"
    by (simp add: demo_logger_def producer_ok_def lq_inv_def)
  then show ?thesis
    using logger_stop_flushes[of demo_logger] line
    by (auto simp: demo_logger_def printed_def lq_content_def)
qed

end
