(* ===== verification/JevCapture.thy ===== *)
theory JevCapture
  imports Text Json FeatureEngine
begin

text \<open>
  \<open>trading/strategy/jev_capture.{h,cpp}\<close>: the diagnostic records of the requests to the decision
  provider, one directory per attempt. The file system, the digest and the clock are parameters
  (\<open>capture_env\<close>); the files that were written completely are a list of paths and contents.
\<close>

section \<open>Environment\<close>

datatype write_result = Written | Not_opened | Not_written

text \<open>\<open>ce_digest\<close> is \<open>EVP_Digest\<close> with SHA-256, \<open>None\<close> when it fails; \<open>ce_exe\<close> the bytes of \<open>/proc/self/exe\<close>.\<close>

record capture_env =
  ce_create :: "string \<Rightarrow> bool"
  ce_write :: "string \<Rightarrow> write_result"
  ce_digest :: "string \<Rightarrow> 8 word list option"
  ce_exe :: string
  ce_revision :: string

text \<open>\<open>std::filesystem::path::operator/\<close>: an absolute right operand replaces the left one.\<close>

definition join_path :: "string \<Rightarrow> string \<Rightarrow> string" where
  "join_path p q =
     (if starts_with ''/'' q then q
      else if p = [] \<or> List.last p = CHR ''/'' then p @ q else p @ ''/'' @ q)"

definition sha256Hex :: "capture_env \<Rightarrow> string \<Rightarrow> string" where
  "sha256Hex E data =
     (case ce_digest E data of None \<Rightarrow> [] | Some d \<Rightarrow> if length d \<noteq> 32 then [] else hex_text d)"

definition runningBinarySha256 :: "capture_env \<Rightarrow> string" where
  "runningBinarySha256 E = (if ce_exe E \<noteq> [] then sha256Hex E (ce_exe E) else ''unavailable'')"

text \<open>\<open>%03d\<close> of the milliseconds; the date is the text of \<open>strftime\<close>.\<close>

definition utcTimestamp :: "string \<Rightarrow> nat \<Rightarrow> string" where
  "utcTimestamp date millis =
     (let m = show_nat (millis mod 1000) in date @ ''.'' @ replicate (3 - length m) CHR ''0'' @ m @ ''Z'')"

section \<open>Capture\<close>

record capture_config =
  cc_directory :: string
  cc_run_id :: string

record jev_attempt_meta =
  cm_evaluation_id :: "64 word"
  cm_ticker_id :: "64 word"
  cm_attempt :: "32 word"
  cm_endpoint :: string
  cm_model :: string
  cm_timeout_ms :: "64 word"
  cm_max_retries :: "32 word"
  cm_role :: string
  cm_replay_of :: string
  cm_source_request_sha256 :: string
  cm_variant :: string
  cm_started_utc :: string

definition jev_attempt_meta_init :: jev_attempt_meta where
  "jev_attempt_meta_init =
     \<lparr>cm_evaluation_id = 0, cm_ticker_id = 0, cm_attempt = 0, cm_endpoint = [], cm_model = [], cm_timeout_ms = 0,
      cm_max_retries = 0, cm_role = ''live'', cm_replay_of = [], cm_source_request_sha256 = [], cm_variant = [],
      cm_started_utc = []\<rparr>"

record capture_context =
  cx_directory :: string
  cx_sequence :: "64 word"

record jev_capture =
  jc_config :: capture_config
  jc_sequence :: "64 word"
  jc_files :: "(string \<times> string) list"

definition jev_capture_new :: "capture_config \<Rightarrow> jev_capture" where
  "jev_capture_new c = \<lparr>jc_config = c, jc_sequence = 0, jc_files = []\<rparr>"

definition capture_enabled :: "jev_capture \<Rightarrow> bool" where
  "capture_enabled c \<longleftrightarrow> cc_directory (jc_config c) \<noteq> []"

definition setRunId :: "string \<Rightarrow> jev_capture \<Rightarrow> jev_capture" where
  "setRunId run_id c = c\<lparr>jc_config := (jc_config c)\<lparr>cc_run_id := run_id\<rparr>\<rparr>"

text \<open>\<open>writeBytes\<close>: an exception when the file cannot be opened or written.\<close>

definition writeBytes :: "capture_env \<Rightarrow> string \<Rightarrow> string \<Rightarrow> jev_capture \<Rightarrow> exn + jev_capture" where
  "writeBytes E path data c =
     (case ce_write E path of
        Not_opened \<Rightarrow> Inl (Runtime_error (''cannot open '' @ path))
      | Not_written \<Rightarrow> Inl (Runtime_error (''cannot write '' @ path))
      | Written \<Rightarrow> Inr (c\<lparr>jc_files := jc_files c @ [(path, data)]\<rparr>))"

definition attempt_directory :: "capture_config \<Rightarrow> 64 word \<Rightarrow> jev_attempt_meta \<Rightarrow> string" where
  "attempt_directory cfg sequence m =
     join_path (join_path (cc_directory cfg) (cc_run_id cfg))
       (show_u sequence @ ''-eval'' @ show_u (cm_evaluation_id m) @ ''-attempt'' @ show_u (cm_attempt m))"

definition beginAttempt :: "capture_env \<Rightarrow> jev_attempt_meta \<Rightarrow> string \<Rightarrow> jev_capture \<Rightarrow>
    jev_capture \<times> capture_context option" where
  "beginAttempt E m request_body c =
     (if \<not> capture_enabled c then (c, None)
      else
        let sequence = jc_sequence c + 1; c = c\<lparr>jc_sequence := sequence\<rparr>;
            directory = attempt_directory (jc_config c) sequence m
        in if \<not> ce_create E directory then (c, None)
           else case writeBytes E (join_path directory ''request.json'') request_body c of
                  Inl _ \<Rightarrow> (c, None)
                | Inr c \<Rightarrow> (c, Some \<lparr>cx_directory = directory, cx_sequence = sequence\<rparr>))"

definition optional_text :: "'j json_api \<Rightarrow> string \<Rightarrow> 'j" where
  "optional_text J s = (if s = [] then js_null J else js_of_string J s)"

definition capture_metadata :: "'j json_api \<Rightarrow> capture_env \<Rightarrow> capture_config \<Rightarrow> capture_context \<Rightarrow> jev_attempt_meta \<Rightarrow>
    string \<Rightarrow> string \<Rightarrow> int \<Rightarrow> string \<Rightarrow> 64 word option \<Rightarrow> f64 \<Rightarrow> string \<Rightarrow> string \<Rightarrow> 'j" where
  "capture_metadata J E cfg x m request_body response_body curl_code curl_outcome http_status elapsed_ms
     parse_outcome parse_error =
     js_object J
       [(''run_id'', js_of_string J (cc_run_id cfg)),
        (''sequence'', js_of_u64 J (cx_sequence x)),
        (''role'', js_of_string J (cm_role m)),
        (''replay_of'', js_of_string J (cm_replay_of m)),
        (''source_request_sha256'', js_of_string J (cm_source_request_sha256 m)),
        (''variant'', js_of_string J (cm_variant m)),
        (''evaluation_id'', js_of_u64 J (cm_evaluation_id m)),
        (''ticker_id'', js_of_u64 J (cm_ticker_id m)),
        (''attempt'', js_of_u64 J (ucast (cm_attempt m))),
        (''started_utc'', js_of_string J (cm_started_utc m)),
        (''endpoint'', js_of_string J (cm_endpoint m)),
        (''model'', js_of_string J (cm_model m)),
        (''timeout_ms'', js_of_i64 J (cm_timeout_ms m)),
        (''max_retries'', js_of_u64 J (ucast (cm_max_retries m))),
        (''request_sha256'', js_of_string J (sha256Hex E request_body)),
        (''request_bytes'', js_of_u64 J (of_nat (length request_body))),
        (''response_sha256'', js_of_string J (sha256Hex E response_body)),
        (''response_bytes'', js_of_u64 J (of_nat (length response_body))),
        (''curl_code'', js_of_i64 J (of_int curl_code)),
        (''curl_outcome'', js_of_string J curl_outcome),
        (''http_status'', (case http_status of None \<Rightarrow> js_null J | Some n \<Rightarrow> js_of_i64 J n)),
        (''elapsed_ms'', js_of_f64 J elapsed_ms),
        (''parse_outcome'', optional_text J parse_outcome),
        (''parse_error'', optional_text J parse_error),
        (''source_revision'', js_of_string J (ce_revision E)),
        (''binary_sha256'', js_of_string J (runningBinarySha256 E))]"

text \<open>An exception of the second write leaves the first file, and is reported only.\<close>

definition completeAttempt :: "'j json_api \<Rightarrow> capture_env \<Rightarrow> capture_context option \<Rightarrow> jev_attempt_meta \<Rightarrow> string \<Rightarrow> string \<Rightarrow>
    int \<Rightarrow> string \<Rightarrow> 64 word option \<Rightarrow> f64 \<Rightarrow> string \<Rightarrow> string \<Rightarrow> jev_capture \<Rightarrow> jev_capture" where
  "completeAttempt J E context m request_body response_body curl_code curl_outcome http_status elapsed_ms
     parse_outcome parse_error c =
     (case context of
        None \<Rightarrow> c
      | Some x \<Rightarrow>
          (case writeBytes E (join_path (cx_directory x) ''response.raw'') response_body c of
             Inl _ \<Rightarrow> c
           | Inr c \<Rightarrow>
               (case writeBytes E (join_path (cx_directory x) ''metadata.json'')
                  (js_dump J (capture_metadata J E (jc_config c) x m request_body response_body curl_code curl_outcome
                     http_status elapsed_ms parse_outcome parse_error) @ [CHR 0x0A]) c of
                  Inl _ \<Rightarrow> c | Inr c \<Rightarrow> c)))"

section \<open>Attempts have directories of their own\<close>

lemma digits_prefix_inj:
  assumes "\<forall>c\<in>set a. is_digit c" "\<forall>c\<in>set b. is_digit c" "\<not> is_digit x" "a @ x # u = b @ x # v"
  shows "a = b"
  using assms
proof (induction a arbitrary: b)
  case Nil
  then show ?case by (cases b) auto
next
  case (Cons c a)
  then show ?case by (cases b) auto
qed

lemma join_path_relative: "q \<noteq> [] \<Longrightarrow> hd q \<noteq> CHR ''/'' \<Longrightarrow> q' \<noteq> [] \<Longrightarrow> hd q' \<noteq> CHR ''/'' \<Longrightarrow>
    join_path p q = join_path p q' \<longleftrightarrow> q = q'"
  by (cases q; cases q') (auto simp: join_path_def starts_with_def)

text \<open>Two attempts of one process never share a directory, whatever they are attempts of.\<close>

definition attempt_name :: "64 word \<Rightarrow> jev_attempt_meta \<Rightarrow> string" where
  "attempt_name n m = show_u n @ ''-eval'' @ show_u (cm_evaluation_id m) @ ''-attempt'' @ show_u (cm_attempt m)"

lemma attempt_name_inj: "attempt_name n m = attempt_name n' m' \<Longrightarrow> n = n'"
proof -
  assume eq: "attempt_name n m = attempt_name n' m'"
  have split: "\<exists>u. attempt_name n m = show_u n @ CHR ''-'' # u" for n m by (simp add: attempt_name_def)
  obtain u v where "show_u n @ CHR ''-'' # u = show_u n' @ CHR ''-'' # v"
    using split[of n m] split[of n' m'] eq by metis
  moreover have "\<forall>c\<in>set (show_u (w :: 64 word)). is_digit c" for w by (simp add: show_u_def show_nat_digits)
  moreover have "\<not> is_digit CHR ''-''" by (simp add: is_digit_def)
  ultimately have "show_u n = show_u n'" using digits_prefix_inj by blast
  then show "n = n'" by simp
qed

lemma attempt_name_relative: "attempt_name n m \<noteq> [] \<and> hd (attempt_name n m) \<noteq> CHR ''/''"
proof -
  obtain c cs where c: "show_u n = c # cs" "is_digit c"
    using show_nat_digits[of "unat n"] show_nat_nonempty[of "unat n"] by (cases "show_u n") (auto simp: show_u_def)
  then have "c \<noteq> CHR ''/''" by (auto simp: is_digit_def)
  with c show ?thesis by (simp add: attempt_name_def)
qed

lemma attempt_directories_distinct:
  assumes "attempt_directory cfg n m = attempt_directory cfg n' m'"
  shows "n = n'"
  using assms attempt_name_inj join_path_relative attempt_name_relative[of n m] attempt_name_relative[of n' m']
  unfolding attempt_directory_def attempt_name_def[symmetric] by blast

end
