(* ===== verification/JevConfig.thy ===== *)
theory JevConfig
  imports JevCapture
begin

text \<open>
  \<open>trading/strategy/jev_config.{h,cpp}\<close>: the settings of the decision provider, from a JSON document, and
  its key, from a dotenv file. A file is \<open>None\<close> when it cannot be opened.
\<close>

record jev_http_config =
  jh_endpoint :: string
  jh_api_key :: string
  jh_model :: string
  jh_timeout_ms :: "64 word"
  jh_max_retries :: "32 word"
  jh_http_referer :: string
  jh_http_title :: string
  jh_capture :: capture_config
  jh_simnow_cycle_test :: bool

definition jev_http_config_init :: jev_http_config where
  "jev_http_config_init =
     \<lparr>jh_endpoint = ''https://openrouter.ai/api/alpha/decisions'', jh_api_key = [],
      jh_model = ''typesafe/jev-1.13'', jh_timeout_ms = 4000, jh_max_retries = 0, jh_http_referer = [],
      jh_http_title = [], jh_capture = \<lparr>cc_directory = [], cc_run_id = []\<rparr>, jh_simnow_cycle_test = False\<rparr>"

section \<open>The key\<close>

definition unquote :: "string \<Rightarrow> string" where
  "unquote value =
     (if length value \<ge> 2 \<and> (\<exists>q \<in> {CHR 0x22, CHR 0x27}. hd value = q \<and> List.last value = q)
      then butlast (tl value) else value)"

fun jev_dotenv :: "string \<Rightarrow> string list \<Rightarrow> exn + string" where
  "jev_dotenv path [] = Inl (Runtime_error (''OPENROUTER_API_KEY is missing from '' @ path))"
| "jev_dotenv path (raw # lines) =
     (let line = trim raw
      in if line = [] \<or> hd line = CHR ''#'' then jev_dotenv path lines
         else if CHR ''='' \<notin> set line then Inl (Runtime_error ''Malformed dotenv line'')
         else
           let key = trim (takeWhile (\<lambda>c. c \<noteq> CHR ''='') line);
               value = unquote (trim (tl (dropWhile (\<lambda>c. c \<noteq> CHR ''='') line)))
           in if key = [] then Inl (Runtime_error ''Empty dotenv key'')
              else if key = ''OPENROUTER_API_KEY'' then Inr value else jev_dotenv path lines)"

definition dotenvValue :: "string \<Rightarrow> string list option \<Rightarrow> exn + string" where
  "dotenvValue path file =
     (case file of None \<Rightarrow> Inl (Runtime_error (''Cannot open dotenv file: '' @ path)) | Some lines \<Rightarrow> jev_dotenv path lines)"

section \<open>The settings\<close>

text \<open>\<open>if (settings.contains(key)) member = settings.at(key).get<...>();\<close>\<close>

definition js_optional :: "'j json_api \<Rightarrow> ('j \<Rightarrow> exn + 'b) \<Rightarrow> 'j \<Rightarrow> string \<Rightarrow> 'b \<Rightarrow> exn + 'b" where
  "js_optional J get j key otherwise =
     (if js_contains J j key then bind_exn (js_at J j key) get else Inr otherwise)"

definition js_unsigned :: "'j json_api \<Rightarrow> 'j \<Rightarrow> exn + 32 word" where
  "js_unsigned J j = bind_exn (js_i64 J j) (\<lambda>w. Inr (ucast w))"

definition capture_settings :: "'j json_api \<Rightarrow> 'j \<Rightarrow> exn + capture_config" where
  "capture_settings J settings =
     (if \<not> js_contains J settings ''capture'' then Inr \<lparr>cc_directory = [], cc_run_id = []\<rparr>
      else bind_exn (js_at J settings ''capture'') (\<lambda>capture.
        if \<not> js_is_object J capture then Inl (Runtime_error ''config.jev.capture must be an object'')
        else bind_exn (js_optional J (js_text J) capture ''directory'' []) (\<lambda>directory.
             bind_exn (js_optional J (js_text J) capture ''run_id'' []) (\<lambda>run_id.
             Inr \<lparr>cc_directory = directory, cc_run_id = run_id\<rparr>))))"

definition cycle_test_allowed :: "'j json_api \<Rightarrow> 'j \<Rightarrow> bool \<Rightarrow> exn + unit" where
  "cycle_test_allowed J document cycle =
     (if \<not> cycle then Inr ()
      else bind_exn (js_value J Inr document ''venue'' (js_object J [])) (\<lambda>venue.
           bind_exn (js_value J (js_text J) venue ''type'' []) (\<lambda>type.
           if type \<noteq> ''simnow'' then Inl (Runtime_error ''Jev cycle testing requires the SimNow venue'') else Inr ())))"

definition loadJevHttpConfig :: "'j json_api \<Rightarrow> string \<Rightarrow> string list option \<Rightarrow> string \<Rightarrow> string option \<Rightarrow> exn + jev_http_config" where
  "loadJevHttpConfig J dotenv_path dotenv json_path json =
     (let d = jev_http_config_init
      in bind_exn (dotenvValue dotenv_path dotenv) (\<lambda>api_key.
         case json of
           None \<Rightarrow> Inl (Runtime_error (''Cannot open config file: '' @ json_path))
         | Some text \<Rightarrow>
             bind_exn (js_parse J text) (\<lambda>document.
             bind_exn (js_value J Inr document ''jev'' (js_object J [])) (\<lambda>settings.
             if \<not> js_is_object J settings then Inl (Runtime_error ''config.jev must be an object'')
             else
               bind_exn (js_optional J (js_text J) settings ''endpoint'' (jh_endpoint d)) (\<lambda>endpoint.
               bind_exn (js_optional J (js_text J) settings ''model'' (jh_model d)) (\<lambda>model.
               bind_exn (js_optional J (js_i64 J) settings ''timeout_ms'' (jh_timeout_ms d)) (\<lambda>timeout_ms.
               bind_exn (js_optional J (js_unsigned J) settings ''max_retries'' (jh_max_retries d)) (\<lambda>max_retries.
               bind_exn (js_optional J (js_text J) settings ''http_referer'' []) (\<lambda>referer.
               bind_exn (js_optional J (js_text J) settings ''http_title'' []) (\<lambda>title.
               bind_exn (js_value J (js_boolean J) settings ''simnow_cycle_test'' False) (\<lambda>cycle.
               bind_exn (cycle_test_allowed J document cycle) (\<lambda>_.
               bind_exn (capture_settings J settings) (\<lambda>capture.
               if endpoint = [] \<or> model = [] \<or> sint timeout_ms \<le> 0
               then Inl (Runtime_error ''Invalid Jev HTTP configuration'')
               else Inr \<lparr>jh_endpoint = endpoint, jh_api_key = api_key, jh_model = model, jh_timeout_ms = timeout_ms,
                         jh_max_retries = max_retries, jh_http_referer = referer, jh_http_title = title,
                         jh_capture = capture, jh_simnow_cycle_test = cycle\<rparr>)))))))))))))"

lemma loaded_config_usable:
  "loadJevHttpConfig J path dotenv json_path json = Inr c \<Longrightarrow>
     jh_endpoint c \<noteq> [] \<and> jh_model c \<noteq> [] \<and> sint (jh_timeout_ms c) > 0"
  by (auto simp: loadJevHttpConfig_def Let_def bind_exn_Inr_iff split: option.splits if_splits)

end
