(* ===== verification/JevHttp.thy ===== *)
theory JevHttp
  imports JevConfig Gateways
begin

text \<open>
  \<open>trading/strategy/jev_http_client.{h,cpp}\<close>: the body of a request, the decoding of a response, and the
  attempts of \<open>evaluate\<close>. libcurl is a parameter: \<open>None\<close> when no handle can be created, otherwise the
  outcome of the transfer of each attempt. The transfers that were made are a list.
\<close>

section \<open>Decoding\<close>

definition double_one :: f64 where "double_one = Fin 1"

definition probability :: "'j json_api \<Rightarrow> 'j \<Rightarrow> string \<Rightarrow> exn + f64" where
  "probability J probabilities key =
     (if \<not> js_contains J probabilities key then Inl (Runtime_error (''Missing probability: '' @ key))
      else bind_exn (js_at J probabilities key) (\<lambda>v.
        if \<not> js_is_number J v then Inl (Runtime_error (''Missing probability: '' @ key))
        else bind_exn (js_f64 J v) (\<lambda>value.
          if value < 0 \<or> value > double_one then Inl (Runtime_error (''Probability out of range: '' @ key)) else Inr value)))"

definition jev_answer :: "'j json_api \<Rightarrow> 'j \<Rightarrow> string \<Rightarrow> exn + 'j" where
  "jev_answer J answers key =
     (if \<not> js_contains J answers key then Inl (Runtime_error (''Missing answer: '' @ key))
      else bind_exn (js_at J answers key) (\<lambda>value.
        if \<not> js_is_object J value then Inl (Runtime_error (''Missing answer: '' @ key))
        else if \<not> js_contains J value ''type'' then Inl (Runtime_error (''Unexpected answer type: '' @ key))
        else bind_exn (js_at J value ''type'') (\<lambda>t.
          if \<not> js_equal J t (js_of_string J ''choice'')
          then Inl (Runtime_error (''Unexpected answer type: '' @ key)) else Inr value)))"

text \<open>The choice of an answer, if it is a string; \<open>None\<close> otherwise. Then whether a member is an object or a
  number.\<close>

definition choice_of :: "'j json_api \<Rightarrow> 'j \<Rightarrow> exn + string option" where
  "choice_of J value =
     (if \<not> js_contains J value ''choice'' then Inr None
      else bind_exn (js_at J value ''choice'') (\<lambda>c.
        if \<not> js_is_string J c then Inr None else bind_exn (js_text J c) (\<lambda>t. Inr (Some t))))"

definition member_is :: "'j json_api \<Rightarrow> ('j \<Rightarrow> bool) \<Rightarrow> 'j \<Rightarrow> string \<Rightarrow> bool" where
  "member_is J P value key \<longleftrightarrow> js_contains J value key \<and> (case js_at J value key of Inl _ \<Rightarrow> False | Inr v \<Rightarrow> P v)"

text \<open>The numbers of the two answers, once their choices are known.\<close>

definition decision_of :: "'j json_api \<Rightarrow> jev_evaluation_state \<Rightarrow> string \<Rightarrow> string \<Rightarrow> 'j \<Rightarrow> 'j \<Rightarrow> exn + jev_decision" where
  "decision_of J state bias_choice intent_choice bias intent =
     bind_exn (bind_exn (js_at J intent ''confidence'') (js_f64 J)) (\<lambda>confidence.
     if confidence < 0 \<or> confidence > double_one then Inl (Runtime_error ''Confidence out of range'')
     else bind_exn (js_at J bias ''probabilities'') (\<lambda>bp. bind_exn (js_at J intent ''probabilities'') (\<lambda>ip.
     bind_exn (probability J bp ''long'') (\<lambda>long.
     bind_exn (probability J bp ''short'') (\<lambda>short.
     bind_exn (probability J ip ''open'') (\<lambda>open_p.
     bind_exn (if ps_net_position (es_position state) = 0 then Inr 0 else probability J ip ''close'') (\<lambda>close_p.
     bind_exn (probability J ip ''hold'') (\<lambda>hold_p.
     Inr (jev_decision_init
       \<lparr>jd_evaluation_id := es_evaluation_id state, jd_ticker_id := es_ticker_id state,
        jd_bias := (if bias_choice = ''long'' then LONG else SHORT),
        jd_intent := (if intent_choice = ''open'' then Intent_OPEN
                      else if intent_choice = ''close'' then Intent_CLOSE else HOLD),
        jd_long_probability := long, jd_short_probability := short, jd_open_probability := open_p,
        jd_close_probability := close_p, jd_hold_probability := hold_p, jd_confidence := confidence\<rparr>)))))))))"

definition parseDecision :: "'j json_api \<Rightarrow> string \<Rightarrow> jev_evaluation_state \<Rightarrow> exn + jev_decision" where
  "parseDecision J body state =
     bind_exn (js_parse J body) (\<lambda>response.
     if \<not> member_is J (js_is_object J) response ''answers'' then Inl (Runtime_error ''Response has no answers object'')
     else bind_exn (js_at J response ''answers'') (\<lambda>answers.
     bind_exn (jev_answer J answers ''bias'') (\<lambda>bias.
     bind_exn (jev_answer J answers ''intent'') (\<lambda>intent.
     bind_exn (choice_of J bias) (\<lambda>b. bind_exn (choice_of J intent) (\<lambda>i.
     case (b, i) of
       (Some bias_choice, Some intent_choice) \<Rightarrow>
         if bias_choice \<noteq> ''long'' \<and> bias_choice \<noteq> ''short'' then Inl (Runtime_error ''Unknown bias choice'')
         else if intent_choice \<noteq> ''open'' \<and> intent_choice \<noteq> ''close'' \<and> intent_choice \<noteq> ''hold''
         then Inl (Runtime_error ''Unknown intent choice'')
         else if \<not> member_is J (js_is_object J) bias ''probabilities'' \<or> \<not> member_is J (js_is_object J) intent ''probabilities'' \<or>
           \<not> member_is J (js_is_number J) bias ''confidence'' \<or> \<not> member_is J (js_is_number J) intent ''confidence''
         then Inl (Runtime_error ''Choice answer is missing probabilities or confidence'')
         else decision_of J state bias_choice intent_choice bias intent
     | _ \<Rightarrow> Inl (Runtime_error ''Choice answer is missing choice'')))))))"

section \<open>The request\<close>

text \<open>The bytes of an en dash in the texts.\<close>

definition en_dash :: string where "en_dash = [CHR 0xE2, CHR 0x80, CHR 0x93]"

definition close_text :: string where
  "close_text = (''Reduce the current position when exiting is preferable to maintaining the exposure '' @
     ''for short-term profit, considering the bid'' @ en_dash @ ''ask spread. Closing at a loss is allowed.'')"

definition bias_instructions :: string where
  "bias_instructions = (''Choose the directional bias better supported by the available information for seeking '' @
     ''short-term profit over a 1'' @ en_dash @ ''5 minute horizon. A directional preference does not by itself justify opening a position.'')"

definition intent_instructions :: string where
  "intent_instructions = (''Prioritize active trading to pursue short-term profit over a 1'' @ en_dash @ ''5 minute holding horizon, within the stated risk limits. Strongly prefer open or '' @
     ''close whenever either action is reasonably supported by the available information. '' @
     ''When flat, favor opening in the selected direction on modest evidence. When holding a '' @
     ''position, favor adding exposure when the opportunity remains favorable, or reducing '' @
     ''exposure when exiting is preferable, including at a loss. When trading and holding '' @
     ''appear similarly attractive, choose the supported trading action. Reserve hold for '' @
     ''cases where the bid'' @ en_dash @ ''ask spread outweighs the expected opportunity, risk limits prevent trading, or the '' @
     ''available information provides no reasonable basis for action. Treat the holding '' @
     ''horizon as a planning target, not a mandatory exit deadline.'')"

definition cycle_bias_instructions :: string where
  "cycle_bias_instructions = ''This is a SimNow trading-chain test. Choose long or short using the current market '' @
     ''information. A strong directional edge is not required for a one-contract test trade. '' @
     ''When closing, use the direction of the existing position.''"

definition cycle_intent_instructions :: string where
  "cycle_intent_instructions = ''This is a SimNow trading-chain test, not a profitability experiment. Prioritize '' @
     ''completing repeated one-contract open-fill-close-fill cycles over profit. Aim for at '' @
     ''least 20 complete cycles and 40 fills in 10 minutes, with a final flat position. When '' @
     ''flat with no working orders, strongly prefer open even without a profit edge. When '' @
     ''holding one contract with no working orders, strongly prefer close on a subsequent '' @
     ''evaluation, targeting about 5-15 seconds of holding. Closing at a loss and paying the '' @
     ''spread are acceptable. Do not add exposure to an existing position. Wait for working '' @
     ''orders to finish before another action. Respect the stated risk limits, account '' @
     ''constraints, and market validity. A max_loss of zero means the monetary loss stop is '' @
     ''disabled, not that losing test trades are forbidden. You still choose each action; '' @
     ''hold remains available when trading is unsuitable. Frequency and holding duration are '' @
     ''targets, not mandatory actions. The state contains no elapsed holding time or session '' @
     ''countdown; do not invent either.''"

definition price_json :: "'j json_api \<Rightarrow> f64 \<Rightarrow> price \<Rightarrow> 'j" where
  "price_json J scale v =
     (if v = Price_INVALID then js_null J
      else if scale = 1 then js_of_i64 J v else js_of_f64 J (price_double v div scale))"

definition qty_json :: "'j json_api \<Rightarrow> qty \<Rightarrow> 'j" where
  "qty_json J v = (if v = Qty_INVALID then js_null J else js_of_u64 J (ucast v))"

definition finite_json :: "'j json_api \<Rightarrow> f64 \<Rightarrow> 'j" where
  "finite_json J v = (if isfinite v then js_of_f64 J v else js_null J)"

definition order_json :: "'j json_api \<Rightarrow> f64 \<Rightarrow> working_order_state \<Rightarrow> 'j" where
  "order_json J scale w = js_object J
     [(''order_id'', js_of_u64 J (wo_order_id w)), (''side'', js_of_string J (sideToString (wo_side w))),
      (''price'', price_json J scale (wo_price w)), (''qty'', qty_json J (wo_qty w)),
      (''order_type'', js_of_string J (orderTypeToString (wo_order_type w))),
      (''offset'', js_of_string J (orderOffsetToString (wo_offset w))),
      (''state'', js_of_string J (omOrderStateToString (wo_state w)))]"

definition position_json :: "'j json_api \<Rightarrow> jev_evaluation_state \<Rightarrow> 'j" where
  "position_json J s =
     (let p = es_position s
      in js_object J
        ([(''net'', js_of_i64 J (of_int (ps_net_position p))), (''today'', js_of_u64 J (ucast (ps_today_qty p))),
          (''yesterday'', js_of_u64 J (ucast (ps_yesterday_qty p))),
          (''average_entry_price'', price_json J (es_price_scale s) (ps_average_entry_price p)),
          (''realized_pnl'', js_of_f64 J (ps_realized_pnl p)), (''unrealized_pnl'', js_of_f64 J (ps_unrealized_pnl p))] @
         (if es_pnl_before_fees s
          then [(''pnl_basis'', js_of_string J (''CNY, before fees, measured from this process'' @ [CHR 0x27] @ ''s entry prices''))]
          else [])))"

definition features_json :: "'j json_api \<Rightarrow> f64 \<Rightarrow> market_features \<Rightarrow> 'j" where
  "features_json J scale f =
     (let known = (\<lambda>v. if mf_valid f then v else js_null J)
      in js_object J
        [(''valid'', js_of_bool J (mf_valid f)),
         (''mid_price'', known (finite_json J (mf_mid_price f div scale))),
         (''relative_spread_bps'', known (finite_json J (mf_relative_spread_bps f))),
         (''top_of_book_total_qty'', known (js_of_u64 J (mf_total_qty f))),
         (''top_of_book_qty_imbalance'', known (finite_json J (mf_imbalance f)))])"

definition state_json :: "'j json_api \<Rightarrow> jev_evaluation_state \<Rightarrow> 'j" where
  "state_json J s =
     (let d = es_depth_snapshot s; price = price_json J (es_price_scale s); a = es_account s; k = es_risk s
      in js_object J
        [(''evaluation_id'', js_of_u64 J (es_evaluation_id s)), (''ticker_id'', js_of_u64 J (ucast (es_ticker_id s))),
         (''position'', position_json J s),
         (''working_orders'', js_array J (map (order_json J (es_price_scale s))
            (filter (\<lambda>w. wo_state w \<noteq> Order_INVALID \<and> wo_state w \<noteq> DEAD) (es_working_orders s)))),
         (''features'', features_json J (es_price_scale s) (es_market_features s)),
         (''depth'', js_object J
            [(''last_price'', price (ds_last_price d)), (''volume'', qty_json J (ds_volume d)),
             (''open_interest'', js_of_f64 J (ds_open_interest d)),
             (''upper_limit_price'', price (ds_upper_limit_price d)),
             (''lower_limit_price'', price (ds_lower_limit_price d))]),
         (''account'', js_object J
            [(''available_margin'', js_of_f64 J (ac_available_margin a)), (''used_margin'', js_of_f64 J (ac_used_margin a)),
             (''equity'', js_of_f64 J (ac_equity a))]),
         (''risk'', js_object J
            [(''max_order_size'', js_of_u64 J (ucast (rk_max_order_size k))),
             (''max_position'', js_of_u64 J (ucast (rk_max_position k))), (''max_loss'', js_of_f64 J (rk_max_loss k))])])"

text \<open>The options of the second question; a cycle test changes their texts, not which there are.\<close>

definition intent_criteria :: "bool \<Rightarrow> jev_evaluation_state \<Rightarrow> (string \<times> string) list" where
  "intent_criteria cycle s =
     (let flat = (ps_net_position (es_position s) = 0)
      in if cycle
         then [(''open'', if flat then ''Open one contract to start the next test cycle''
                          else ''Do not increase exposure during this one-contract test'')] @
              (if flat then []
               else [(''close'', ''Close the existing contract to complete the test cycle, including at a loss'')]) @
              [(''hold'', ''Wait when working orders, invalid market data, or account/risk constraints make trading unsuitable'')]
         else [(''open'', if flat then ''open a position'' else ''increase exposure'')] @
              (if flat then [] else [(''close'', close_text)]) @ [(''hold'', ''take no action'')])"

definition question_json :: "'j json_api \<Rightarrow> string \<Rightarrow> (string \<times> string) list \<Rightarrow> 'j" where
  "question_json J instructions criteria = js_object J
     [(''type'', js_of_string J ''choice''), (''instructions'', js_of_string J instructions),
      (''criteria'', js_object J (map (\<lambda>(k, t). (k, js_of_string J t)) criteria))]"

definition request_json :: "'j json_api \<Rightarrow> jev_http_config \<Rightarrow> jev_evaluation_state \<Rightarrow> 'j" where
  "request_json J c s =
     (let cycle = jh_simnow_cycle_test c
      in js_object J
        [(''model'', js_of_string J (jh_model c)), (''state'', state_json J s),
         (''questions'', js_object J
           [(''bias'', question_json J (if cycle then cycle_bias_instructions else bias_instructions)
              [(''long'', ''long''), (''short'', ''short'')]),
            (''intent'', question_json J (if cycle then cycle_intent_instructions else intent_instructions)
              (intent_criteria cycle s))])])"

definition buildRequestBody :: "'j json_api \<Rightarrow> jev_http_config \<Rightarrow> jev_evaluation_state \<Rightarrow> string" where
  "buildRequestBody J c s = js_dump J (request_json J c s)"

section \<open>The client\<close>

lemma unat_suc_below: "a < (b :: 32 word) \<Longrightarrow> unat (a + 1) = Suc (unat a)"
  using unsigned_less[of b, where 'a = nat] by (simp add: unat_word_ariths word_less_nat_alt)

text \<open>The outcome of \<open>curl_easy_perform\<close>: its code and message, the HTTP status, the bytes received, the
  elapsed milliseconds, and the time stamp taken before it.\<close>

record curl_result =
  cr_code :: int
  cr_message :: string
  cr_status :: "64 word"
  cr_body :: string
  cr_elapsed :: f64
  cr_started :: string

record http_post =
  hp_url :: string
  hp_headers :: "string list"
  hp_body :: string
  hp_timeout :: "64 word"

record jev_http =
  jx_config :: jev_http_config
  jx_capture :: jev_capture
  jx_posts :: "http_post list"

definition jev_http_new :: "string \<Rightarrow> jev_http_config \<Rightarrow> jev_http" where
  "jev_http_new now c =
     (let capture = jev_capture_new (jh_capture c)
      in \<lparr>jx_config = c,
          jx_capture = (if capture_enabled capture \<and> cc_run_id (jc_config capture) = [] then setRunId now capture else capture),
          jx_posts = []\<rparr>)"

definition http_headers :: "jev_http_config \<Rightarrow> string list" where
  "http_headers c =
     [''Content-Type: application/json'', ''Authorization: Bearer '' @ jh_api_key c] @
     (if jh_http_referer c \<noteq> [] then [''HTTP-Referer: '' @ jh_http_referer c] else []) @
     (if jh_http_title c \<noteq> [] then [''X-Title: '' @ jh_http_title c] else [])"

definition attempt_meta :: "jev_http_config \<Rightarrow> jev_evaluation_state \<Rightarrow> 32 word \<Rightarrow> string \<Rightarrow> jev_attempt_meta" where
  "attempt_meta c s attempt started = jev_attempt_meta_init
     \<lparr>cm_evaluation_id := es_evaluation_id s, cm_ticker_id := ucast (es_ticker_id s), cm_attempt := attempt,
      cm_endpoint := jh_endpoint c, cm_model := jh_model c, cm_timeout_ms := jh_timeout_ms c,
      cm_max_retries := jh_max_retries c, cm_started_utc := started\<rparr>"

text \<open>One attempt up to the transfer: the record is begun and the request posted.\<close>

definition post_attempt :: "capture_env \<Rightarrow> jev_http_config \<Rightarrow> curl_result \<Rightarrow> string \<Rightarrow> jev_evaluation_state \<Rightarrow> 32 word \<Rightarrow> jev_http \<Rightarrow>
    jev_http \<times> capture_context option" where
  "post_attempt E c r body s attempt h =
     (let (capture, context) = beginAttempt E (attempt_meta c s attempt (cr_started r)) body (jx_capture h)
      in (h\<lparr>jx_capture := capture,
            jx_posts := jx_posts h @ [\<lparr>hp_url = jh_endpoint c, hp_headers = http_headers c, hp_body = body,
                                       hp_timeout = jh_timeout_ms c\<rparr>]\<rparr>, context))"

definition exn_text :: "exn \<Rightarrow> string" where
  "exn_text e = (case e of Logic_error m \<Rightarrow> m | Runtime_error m \<Rightarrow> m | Invalid_argument m \<Rightarrow> m | Out_of_range m \<Rightarrow> m)"

definition record_attempt :: "'j json_api \<Rightarrow> capture_env \<Rightarrow> jev_http_config \<Rightarrow> curl_result \<Rightarrow> string \<Rightarrow> jev_evaluation_state \<Rightarrow> 32 word \<Rightarrow>
    capture_context option \<Rightarrow> 64 word option \<Rightarrow> string \<Rightarrow> string \<Rightarrow> jev_http \<Rightarrow> jev_http" where
  "record_attempt J E c r body s attempt context status outcome error h =
     h\<lparr>jx_capture := completeAttempt J E context (attempt_meta c s attempt (cr_started r)) body (cr_body r)
        (cr_code r) (cr_message r) status (cr_elapsed r) outcome error (jx_capture h)\<rparr>"

text \<open>The loop. A failed transfer or an HTTP error is tried again, an answer that cannot be decoded is not.\<close>

function http_attempts :: "'j json_api \<Rightarrow> capture_env \<Rightarrow> jev_http_config \<Rightarrow> (32 word \<Rightarrow> curl_result option) \<Rightarrow> string \<Rightarrow>
    jev_evaluation_state \<Rightarrow> 32 word \<Rightarrow> jev_http \<Rightarrow> (jev_http, jev_decision) outcome" where
  "http_attempts J E c net body s attempt h =
     (if attempt > jh_max_retries c then Throw h (Runtime_error ''Jev request failed'')
      else case net attempt of
        None \<Rightarrow> Throw h (Runtime_error ''curl_easy_init failed'')
      | Some r \<Rightarrow>
          let (h, context) = post_attempt E c r body s attempt h; more = (attempt < jh_max_retries c)
          in if cr_code r \<noteq> 0
             then let h = record_attempt J E c r body s attempt context None [] [] h
                  in if more then http_attempts J E c net body s (attempt + 1) h
                     else Throw h (Runtime_error (cr_message r))
             else if sint (cr_status r) < 200 \<or> sint (cr_status r) \<ge> 300
             then let h = record_attempt J E c r body s attempt context (Some (cr_status r)) [] [] h
                  in if more then http_attempts J E c net body s (attempt + 1) h
                     else Throw h (Runtime_error (''Jev HTTP status: '' @ show_s (cr_status r)))
             else case parseDecision J (cr_body r) s of
                    Inr d \<Rightarrow> Ok (record_attempt J E c r body s attempt context (Some (cr_status r)) ''ok'' [] h) d
                  | Inl e \<Rightarrow>
                      Throw (record_attempt J E c r body s attempt context (Some (cr_status r)) ''failed'' (exn_text e) h) e)"
  by pat_completeness auto
termination
  by (relation "measure (\<lambda>(J, E, c, net, body, s, attempt, h). Suc (unat (jh_max_retries c)) - unat attempt)")
     (auto simp: word_less_nat_alt unat_suc_below)

declare http_attempts.simps [simp del]

definition jev_evaluate :: "'j json_api \<Rightarrow> capture_env \<Rightarrow> (32 word \<Rightarrow> curl_result option) \<Rightarrow> jev_evaluation_state \<Rightarrow>
    jev_http \<Rightarrow> (jev_http, jev_decision) outcome" where
  "jev_evaluate J E net s h =
     (let c = jx_config h
      in if jh_api_key c = [] then Throw h (Invalid_argument ''Jev API key is empty'')
         else http_attempts J E c net (buildRequestBody J c s) s 0 h)"

section \<open>Decoded decisions\<close>

text \<open>JSON has no notation for NaN, so no number of a parsed document is one.\<close>

definition numbers_ok :: "'j json_api \<Rightarrow> bool" where
  "numbers_ok J \<longleftrightarrow> (\<forall>j v. js_f64 J j = Inr v \<longrightarrow> v \<noteq> NaN)"

definition unit_interval :: "f64 \<Rightarrow> bool" where
  "unit_interval x \<longleftrightarrow> 0 \<le> x \<and> x \<le> double_one"

definition well_typed_decision :: "jev_evaluation_state \<Rightarrow> jev_decision \<Rightarrow> bool" where
  "well_typed_decision s d \<longleftrightarrow>
     jd_evaluation_id d = es_evaluation_id s \<and> jd_ticker_id d = es_ticker_id s \<and>
     jd_bias d \<in> {LONG, SHORT} \<and> jd_intent d \<in> {Intent_OPEN, Intent_CLOSE, HOLD} \<and>
     list_all unit_interval [jd_long_probability d, jd_short_probability d, jd_open_probability d,
       jd_close_probability d, jd_hold_probability d, jd_confidence d] \<and>
     (ps_net_position (es_position s) = 0 \<longrightarrow> jd_close_probability d = 0)"

lemma f64_between: "v \<noteq> NaN \<Longrightarrow> \<not> v < 0 \<Longrightarrow> \<not> v > double_one \<Longrightarrow> unit_interval v"
  by (cases v) (auto simp: unit_interval_def double_one_def less_f64_def zero_f64_def)

lemma probability_unit: "numbers_ok J \<Longrightarrow> probability J j key = Inr v \<Longrightarrow> unit_interval v"
  by (auto simp: probability_def numbers_ok_def bind_exn_Inr_iff f64_between split: if_splits)

lemma decision_of_typed:
  assumes J: "numbers_ok J" and d: "decision_of J s b i bias intent = Inr d"
  shows "well_typed_decision s d"
proof -
  let ?flat = "ps_net_position (es_position s) = 0"
  obtain conf cj bp ip long short open_p close_p hold_p where
    c: "js_f64 J cj = Inr conf" "\<not> conf < 0" "\<not> double_one < conf" and
    p: "probability J bp ''long'' = Inr long" "probability J bp ''short'' = Inr short"
       "probability J ip ''open'' = Inr open_p" "probability J ip ''hold'' = Inr hold_p" and
    close: "(if ?flat then Inr 0 else probability J ip ''close'') = Inr close_p" and
    eq: "d = jev_decision_init
       \<lparr>jd_evaluation_id := es_evaluation_id s, jd_ticker_id := es_ticker_id s,
        jd_bias := (if b = ''long'' then LONG else SHORT),
        jd_intent := (if i = ''open'' then Intent_OPEN else if i = ''close'' then Intent_CLOSE else HOLD),
        jd_long_probability := long, jd_short_probability := short, jd_open_probability := open_p,
        jd_close_probability := close_p, jd_hold_probability := hold_p, jd_confidence := conf\<rparr>"
    using d unfolding decision_of_def bind_exn_Inr_iff by (fastforce simp: bind_exn_Inr_iff split: if_split_asm)
  have "unit_interval conf" using c J f64_between by (auto simp: numbers_ok_def)
  moreover have "unit_interval close_p \<and> (?flat \<longrightarrow> close_p = 0)"
    using close probability_unit[OF J] by (auto simp: unit_interval_def double_one_def zero_f64_def split: if_splits)
  ultimately show ?thesis
    using p[THEN probability_unit[OF J]] by (simp add: eq well_typed_decision_def)
qed

lemma if_Inl_Inr_iff: "(if P then Inl e else r) = Inr d \<longleftrightarrow> \<not> P \<and> r = Inr d"
  by simp

lemma choices_Inr_iff:
  "(case (b, i) of (Some x, Some y) \<Rightarrow> f x y | _ \<Rightarrow> Inl e) = Inr d \<longleftrightarrow> (\<exists>x y. b = Some x \<and> i = Some y \<and> f x y = Inr d)"
  by (cases b; cases i) simp_all

lemma parseDecision_typed: "numbers_ok J \<Longrightarrow> parseDecision J body s = Inr d \<Longrightarrow> well_typed_decision s d"
  unfolding parseDecision_def bind_exn_Inr_iff if_Inl_Inr_iff choices_Inr_iff
  by (elim exE conjE) (rule decision_of_typed)

section \<open>Attempts\<close>

lemma post_attempt_posts:
  "post_attempt E c r body s a h = (h', x) \<Longrightarrow> length (jx_posts h') = Suc (length (jx_posts h))"
  by (auto simp: post_attempt_def Let_def split: prod.splits)

lemma record_attempt_posts [simp]: "jx_posts (record_attempt J E c r body s a x st o' e h) = jx_posts h"
  by (simp add: record_attempt_def)

text \<open>The attempts end by returning or throwing, after at most one post per remaining attempt.\<close>

lemma http_attempts_post:
  assumes "numbers_ok J" "a \<le> jh_max_retries c"
  shows "post (\<lambda>h' d. well_typed_decision s d \<and> length (jx_posts h') + unat a \<le> length (jx_posts h) + unat (jh_max_retries c) + 1)
    (\<lambda>h' _. length (jx_posts h') + unat a \<le> length (jx_posts h) + unat (jh_max_retries c) + 1)
    (http_attempts J E c net body s a h)"
  using assms
proof (induction J E c net body s a h rule: http_attempts.induct)
  case (1 J E c net body s a h)
  show ?case
  proof (cases "net a")
    case None
    then show ?thesis using 1(4) by (subst http_attempts.simps) (simp add: word_le_nat_alt)
  next
    case (Some r)
    obtain h1 x where p: "post_attempt E c r body s a h = (h1, x)" by fastforce
    have n: "length (jx_posts h1) = Suc (length (jx_posts h))" by (rule post_attempt_posts[OF p])
    have a: "\<not> a > jh_max_retries c" "unat a \<le> unat (jh_max_retries c)"
      using 1(4) by (simp add: not_less, simp add: word_le_nat_alt)
    have suc: "unat (a + 1) = Suc (unat a)" "a + 1 \<le> jh_max_retries c" if "a < jh_max_retries c"
      using that unat_suc_below[OF that] by (simp_all add: word_le_nat_alt word_less_nat_alt)
    define fail where "fail = record_attempt J E c r body s a x None [] [] h1"
    define refuse where "refuse = record_attempt J E c r body s a x (Some (cr_status r)) [] [] h1"
    have posts: "jx_posts fail = jx_posts h1" "jx_posts refuse = jx_posts h1" by (simp_all add: fail_def refuse_def)
    note IH1 = 1(1)[OF a(1) Some p[symmetric] refl refl _ fail_def]
    note IH2 = 1(2)[OF a(1) Some p[symmetric] refl refl _ _ refuse_def]
    show ?thesis
      using a n posts suc IH1 IH2 parseDecision_typed[OF 1(3)] 1(3)
      by (subst http_attempts.simps)
         (auto simp: Some p Let_def fail_def[symmetric] refuse_def[symmetric] split: sum.split elim!: post_mono)
  qed
qed

section \<open>The key stays out of the records\<close>

lemma attempt_meta_key [simp]: "attempt_meta (c\<lparr>jh_api_key := k\<rparr>) s a t = attempt_meta c s a t"
  by (simp add: attempt_meta_def)

lemma buildRequestBody_key [simp]: "buildRequestBody J (c\<lparr>jh_api_key := k\<rparr>) s = buildRequestBody J c s"
  by (simp add: buildRequestBody_def request_json_def)

lemma post_attempt_key:
  assumes "post_attempt E c r body s a h = (h1, x)" "jx_capture h' = jx_capture h"
  shows "\<exists>h2. post_attempt E (c\<lparr>jh_api_key := k\<rparr>) r body s a h' = (h2, x) \<and> jx_capture h2 = jx_capture h1"
  using assms by (auto simp: post_attempt_def Let_def split: prod.splits)

lemma record_attempt_key:
  "jx_capture h2 = jx_capture h1 \<Longrightarrow>
   jx_capture (record_attempt J E (c\<lparr>jh_api_key := k\<rparr>) r body s a x st o' e h2) = jx_capture (record_attempt J E c r body s a x st o' e h1)"
  by (simp add: record_attempt_def)

text \<open>A call as its records show it.\<close>

definition recorded :: "(jev_http, 'a) outcome \<Rightarrow> (jev_capture, 'a) outcome" where
  "recorded m = map_outcome jx_capture id m"

lemma recorded_simps [simp]:
  "recorded (Ok h d) = Ok (jx_capture h) d" "recorded (Throw h e) = Throw (jx_capture h) e"
  by (simp_all add: recorded_def)

lemma http_attempts_key:
  assumes "jx_capture h' = jx_capture h"
  shows "recorded (http_attempts J E (c\<lparr>jh_api_key := k\<rparr>) net body s a h') =
    recorded (http_attempts J E c net body s a h)"
  using assms
proof (induction J E c net body s a h arbitrary: h' rule: http_attempts.induct)
  case (1 J E c net body s a h)
  show ?case
  proof (cases "a > jh_max_retries c \<or> net a = None")
    case True
    then show ?thesis using 1(3) by (subst (1 2) http_attempts.simps) auto
  next
    case False
    then obtain r where r: "net a = Some r" "\<not> a > jh_max_retries c" by auto
    obtain h1 x where p: "post_attempt E c r body s a h = (h1, x)" by fastforce
    obtain h2 where q: "post_attempt E (c\<lparr>jh_api_key := k\<rparr>) r body s a h' = (h2, x)" "jx_capture h2 = jx_capture h1"
      using post_attempt_key[OF p 1(3)] by blast
    note rec = record_attempt_key[OF q(2), of J E k c r body s a x]
    note IH1 = 1(1)[OF r(2,1) p[symmetric] refl refl _ refl _ rec]
    note IH2 = 1(2)[OF r(2,1) p[symmetric] refl refl _ _ refl _ rec]
    show ?thesis
      using IH1 IH2
      by (subst (1 2) http_attempts.simps, cases "a < jh_max_retries c"; cases "cr_code r = 0")
         (simp_all add: r p q(1) rec Let_def split: sum.split)
  qed
qed

text \<open>C22: What the client records of its requests does not depend on the key it authenticates with: with any
  two keys and the same replies of the network, the same files are written with the same contents, and
  the call returns or throws the same.\<close>

theorem records_independent_of_key:
  assumes "k \<noteq> []" "k' \<noteq> []"
  shows "recorded (jev_evaluate J E net s (h\<lparr>jx_config := (jx_config h)\<lparr>jh_api_key := k\<rparr>\<rparr>)) =
    recorded (jev_evaluate J E net s (h\<lparr>jx_config := (jx_config h)\<lparr>jh_api_key := k'\<rparr>\<rparr>))"
proof -
  have "recorded (jev_evaluate J E net s (h\<lparr>jx_config := (jx_config h)\<lparr>jh_api_key := k\<rparr>\<rparr>)) =
      recorded (http_attempts J E (jx_config h) net (buildRequestBody J (jx_config h) s) s 0 h)"
    if "k \<noteq> []" for k
    using that http_attempts_key[of "h\<lparr>jx_config := (jx_config h)\<lparr>jh_api_key := k\<rparr>\<rparr>" h]
    by (simp add: jev_evaluate_def Let_def)
  then show ?thesis using assms by simp
qed

section \<open>The client behind the worker\<close>

text \<open>Totality and the bound on posts of a whole call.\<close>

lemma jev_evaluate_post:
  assumes "numbers_ok J"
  shows "post (\<lambda>h' d. well_typed_decision s d \<and> length (jx_posts h') \<le> length (jx_posts h) + unat (jh_max_retries (jx_config h)) + 1)
    (\<lambda>h' _. length (jx_posts h') \<le> length (jx_posts h) + unat (jh_max_retries (jx_config h)) + 1)
    (jev_evaluate J E net s h)"
  using http_attempts_post[OF assms, of 0 "jx_config h" s h E net "buildRequestBody J (jx_config h) s"]
  by (simp add: jev_evaluate_def Let_def)

definition as_provider :: "'j json_api \<Rightarrow> capture_env \<Rightarrow> (32 word \<Rightarrow> curl_result option) \<Rightarrow> jev_http \<Rightarrow> provider" where
  "as_provider J E net h e =
     (case jev_evaluate J E net e h of
        Ok _ d \<Rightarrow> Inr d | Throw _ x \<Rightarrow> Inl x | _ \<Rightarrow> Inl (Runtime_error ''no outcome''))"

lemma finish_typed:
  "well_typed_decision e d \<Longrightarrow> well_typed_decision e (finish_decision e d) \<and> jd_trace (finish_decision e d) = es_trace e"
  by (auto simp: well_typed_decision_def finish_decision_def Let_def)

text \<open>C10: Whatever the network delivers, a decision that the worker hands to the engine with this client as its
  provider is well typed: it carries the evaluation, ticker and trace of the newest state, a known
  direction and action, probabilities and confidence between 0 and 1, and no closing probability for a
  flat position. At most one is queued, and the call makes at most one more post than the configured
  retries.\<close>

theorem worker_publishes_typed:
  assumes "numbers_ok J"
    and "jw_states w = Some qs" "lq_inv qs" "jw_decisions w = Some qd" "lq_inv qd" "lq_num_elements qd < lq_capacity qd"
  shows "\<exists>w' qd' ds. worker_processPending accepts (Some (as_provider J E net h)) w = Ok w' (lq_content qs \<noteq> []) \<and>
    jw_decisions w' = Some qd' \<and> lq_content qd' = lq_content qd @ ds \<and> length ds \<le> 1 \<and>
    (\<forall>d\<in>set ds. well_typed_decision (last (lq_content qs)) d \<and> jd_trace d = es_trace (last (lq_content qs))) \<and>
    post (\<lambda>h' _. length (jx_posts h') \<le> length (jx_posts h) + unat (jh_max_retries (jx_config h)) + 1)
      (\<lambda>h' _. length (jx_posts h') \<le> length (jx_posts h) + unat (jh_max_retries (jx_config h)) + 1)
      (jev_evaluate J E net (last (lq_content qs)) h)"
proof -
  let ?e = "last (lq_content qs)" and ?P = "as_provider J E net h"
  have typed: "well_typed_decision e d" if "?P e = Inr d" for e d
    using that jev_evaluate_post[OF assms(1), of e h E net] by (auto simp: as_provider_def split: outcome.splits)
  define ds where "ds = (case worker_answer accepts ?P (lq_content qs) of
      Some (Inr d) \<Rightarrow> [finish_decision ?e d] | _ \<Rightarrow> [])"
  obtain w' qd' where w': "worker_processPending accepts (Some ?P) w = Ok w' (lq_content qs \<noteq> [])"
    "jw_decisions w' = Some qd'" "lq_content qd' = lq_content qd @ ds"
    using worker_answers[OF assms(2-6), of accepts ?P] unfolding ds_def by blast
  have "length ds \<le> 1" by (simp add: ds_def split: option.split sum.split)
  moreover have "\<forall>d\<in>set ds. well_typed_decision ?e d \<and> jd_trace d = es_trace ?e"
    using finish_typed[OF typed] by (auto simp: ds_def worker_answer_def split: option.splits sum.splits if_splits)
  moreover have "post (\<lambda>h' _. length (jx_posts h') \<le> length (jx_posts h) + unat (jh_max_retries (jx_config h)) + 1)
      (\<lambda>h' _. length (jx_posts h') \<le> length (jx_posts h) + unat (jh_max_retries (jx_config h)) + 1)
      (jev_evaluate J E net ?e h)"
    by (rule post_mono[OF jev_evaluate_post[OF assms(1)]]) simp_all
  ultimately show ?thesis using w' by blast
qed

section \<open>An example\<close>

definition demo_question :: "string \<Rightarrow> (string \<times> doc) list \<Rightarrow> doc" where
  "demo_question choice ps = Obj [(''type'', Str ''choice''), (''choice'', Str choice), (''probabilities'', Obj ps),
     (''confidence'', F64 (Fin 1))]"

definition demo_reply :: doc where
  "demo_reply = Obj [(''answers'', Obj
     [(''bias'', demo_question ''long'' [(''long'', F64 1), (''short'', F64 0)]),
      (''intent'', demo_question ''open'' [(''open'', F64 1), (''hold'', F64 0)])])]"

definition demo_json :: "doc json_api" where
  "demo_json = doc_api\<lparr>js_parse := (\<lambda>_. Inr demo_reply),
     js_f64 := (\<lambda>d. case d of F64 x \<Rightarrow> if x = NaN then type_error else Inr x | _ \<Rightarrow> type_error)\<rparr>"

definition demo_capture_env :: capture_env where
  "demo_capture_env = \<lparr>ce_create = (\<lambda>_. True), ce_write = (\<lambda>_. Written), ce_digest = (\<lambda>_. None), ce_exe = [], ce_revision = ''r1''\<rparr>"

definition demo_client :: "string \<Rightarrow> jev_http" where
  "demo_client key = jev_http_new ''now'' (jev_http_config_init\<lparr>jh_api_key := key,
     jh_capture := \<lparr>cc_directory = ''captures'', cc_run_id = []\<rparr>\<rparr>)"

definition demo_net :: "32 word \<Rightarrow> curl_result option" where
  "demo_net a = Some \<lparr>cr_code = 0, cr_message = ''No error'', cr_status = 200, cr_body = ''reply'', cr_elapsed = 1, cr_started = ''t''\<rparr>"

lemma demo_numbers: "numbers_ok demo_json"
  by (auto simp: numbers_ok_def demo_json_def type_error_def split: doc.splits if_splits)

lemma records_independent_of_key_witness:
  "recorded (jev_evaluate demo_json demo_capture_env demo_net sample_evaluation
       ((demo_client [])\<lparr>jx_config := (jx_config (demo_client []))\<lparr>jh_api_key := ''secret''\<rparr>\<rparr>)) =
   recorded (jev_evaluate demo_json demo_capture_env demo_net sample_evaluation
       ((demo_client [])\<lparr>jx_config := (jx_config (demo_client []))\<lparr>jh_api_key := ''other''\<rparr>\<rparr>))"
  by (rule records_independent_of_key) simp_all

lemma worker_publishes_typed_witness:
  "\<exists>q w' qd' ds. lq_content q = [sample_evaluation] \<and>
     worker_processPending None (Some (as_provider demo_json demo_capture_env demo_net (demo_client ''k'')))
       (jev_worker_new (Some q) (Some (sample_queue jev_decision_init))) = Ok w' True \<and>
     jw_decisions w' = Some qd' \<and> lq_content qd' = ds \<and> length ds \<le> 1 \<and>
     (\<forall>d\<in>set ds. well_typed_decision sample_evaluation d)"
proof -
  let ?w = "\<lambda>q. jev_worker_new (Some q) (Some (sample_queue jev_decision_init))"
  obtain q where q: "lq_inv q" "lq_content q = [sample_evaluation]"
    using lq_enqueue_ok[OF sample_queue_ok(1), of sample_evaluation sample_evaluation]
    by (auto simp: sample_queue_size sample_queue_ok)
  have w: "jw_states (?w q) = Some q" "jw_decisions (?w q) = Some (sample_queue jev_decision_init)"
    by (simp_all add: jev_worker_new_def)
  have room: "lq_num_elements (sample_queue jev_decision_init) < lq_capacity (sample_queue jev_decision_init)"
    by (simp add: sample_queue_size)
  from worker_publishes_typed[OF demo_numbers w(1) q(1) w(2) sample_queue_ok(1) room, of None demo_capture_env demo_net "demo_client ''k''"]
  show ?thesis using q(2) by (force simp: sample_queue_ok)
qed

end
