(* ===== verification/JevVariant.thy ===== *)
theory JevVariant
  imports JevHttp "HOL-Library.Sublist"
begin

text \<open>
  \<open>tools/jev_variant.{h,cpp}\<close>: a captured request with the wording of an earlier commit, and the list of
  differences between two documents. The recursion of \<open>diffJson\<close> has fuel: the size of the first
  document is enough (\<open>diff_json_enough\<close>).
\<close>

definition earlier_bias_instructions :: string where
  "earlier_bias_instructions = ''long or short?''"

definition earlier_intent_instructions :: string where
  "earlier_intent_instructions = ''open, close, or hold?''"

definition earlier_close_criteria :: string where
  "earlier_close_criteria = ''reduce the current position''"

text \<open>\<open>j.at(key) = f(j.at(key))\<close>: the member is replaced in place, a missing one throws.\<close>

definition js_update :: "'j json_api \<Rightarrow> string \<Rightarrow> ('j \<Rightarrow> exn + 'j) \<Rightarrow> 'j \<Rightarrow> exn + 'j" where
  "js_update J key f j =
     bind_exn (js_at J j key) (\<lambda>old. bind_exn (f old) (\<lambda>new.
       Inr (js_object J (map (\<lambda>(k, v). if k = key then (k, new) else (k, v)) (js_items J j)))))"

definition js_put :: "'j json_api \<Rightarrow> string \<Rightarrow> string \<Rightarrow> 'j \<Rightarrow> exn + 'j" where
  "js_put J key text = js_update J key (\<lambda>_. Inr (js_of_string J text))"

definition reword_criteria :: "'j json_api \<Rightarrow> 'j \<Rightarrow> exn + 'j" where
  "reword_criteria J criteria =
     (if js_contains J criteria ''close'' then js_put J ''close'' earlier_close_criteria criteria else Inr criteria)"

definition reword_questions :: "'j json_api \<Rightarrow> 'j \<Rightarrow> exn + 'j" where
  "reword_questions J questions =
     bind_exn (js_at J questions ''bias'') (\<lambda>_. bind_exn (js_at J questions ''intent'') (\<lambda>_.
     bind_exn (js_update J ''bias'' (js_put J ''instructions'' earlier_bias_instructions) questions) (\<lambda>questions.
     js_update J ''intent'' (\<lambda>intent.
       bind_exn (js_put J ''instructions'' earlier_intent_instructions intent) (js_update J ''criteria'' (reword_criteria J)))
       questions)))"

definition buildPreviousWordingVariant :: "'j json_api \<Rightarrow> 'j \<Rightarrow> exn + 'j" where
  "buildPreviousWordingVariant J request = js_update J ''questions'' (reword_questions J) request"

section \<open>Differences\<close>

definition child_pointer :: "string \<Rightarrow> string \<Rightarrow> string" where
  "child_pointer pointer key = (if pointer = [] then ''/'' @ key else pointer @ ''/'' @ key)"

definition diff_entry :: "'j json_api \<Rightarrow> string \<Rightarrow> (string \<times> 'j) list \<Rightarrow> 'j" where
  "diff_entry J pointer rest = js_object J ((''pointer'', js_of_string J pointer) # rest)"

fun concat_options :: "'b list option list \<Rightarrow> 'b list option" where
  "concat_options [] = Some []"
| "concat_options (x # xs) =
     (case x of None \<Rightarrow> None | Some ys \<Rightarrow> map_option (\<lambda>zs. ys @ zs) (concat_options xs))"

text \<open>The entries that the call appends, \<open>None\<close> without enough fuel.\<close>

primrec diff_json :: "'j json_api \<Rightarrow> nat \<Rightarrow> 'j \<Rightarrow> 'j \<Rightarrow> string \<Rightarrow> 'j list option" where
  "diff_json J 0 before after pointer = None"
| "diff_json J (Suc n) before after pointer =
     (if js_is_object J before \<and> js_is_object J after
      then if length (js_items J before) \<noteq> length (js_items J after)
           then Some [diff_entry J pointer [(''error'', js_of_string J ''key set differs''), (''before_keys'', before),
                                            (''after_keys'', after)]]
           else concat_options (map (\<lambda>(key, v).
                  if \<not> js_contains J after key
                  then Some [diff_entry J (pointer @ ''/'' @ key) [(''error'', js_of_string J ''key missing after'')]]
                  else case js_at J after key of
                         Inl _ \<Rightarrow> None
                       | Inr w \<Rightarrow> diff_json J n v w (child_pointer pointer key)) (js_items J before))
      else if js_is_array J before \<and> js_is_array J after
      then if length (js_elements J before) \<noteq> length (js_elements J after)
           then Some [diff_entry J pointer [(''error'', js_of_string J ''array length differs''), (''before'', before),
                                            (''after'', after)]]
           else concat_options (map (\<lambda>(i, v, w). diff_json J n v w (pointer @ ''/'' @ show_nat i))
                  (zip [0..<length (js_elements J before)] (zip (js_elements J before) (js_elements J after))))
      else if js_equal J before after then Some []
      else Some [diff_entry J pointer [(''from'', before), (''to'', after)]])"

definition describeWordingDiff :: "'j json_api \<Rightarrow> nat \<Rightarrow> 'j \<Rightarrow> 'j \<Rightarrow> 'j option" where
  "describeWordingDiff J fuel before after = map_option (js_array J) (diff_json J fuel before after [])"

section \<open>Only the wording changes\<close>

text \<open>
  What the variant relies on of the JSON library: members are found by key, and an object rebuilt from
  the members of another with new values has the same keys in the same order.
\<close>

definition json_laws :: "'j json_api \<Rightarrow> bool" where
  "json_laws J \<longleftrightarrow>
     (\<forall>j k v. js_at J j k = Inr v \<longleftrightarrow> js_is_object J j \<and> map_of (js_items J j) k = Some v) \<and>
     (\<forall>j k. js_contains J j k \<longleftrightarrow> js_is_object J j \<and> map_of (js_items J j) k \<noteq> None) \<and>
     (\<forall>j g. js_is_object J j \<longrightarrow>
        js_is_object J (js_object J (map (\<lambda>(k, v). (k, g k v)) (js_items J j))) \<and>
        js_items J (js_object J (map (\<lambda>(k, v). (k, g k v)) (js_items J j))) = map (\<lambda>(k, v). (k, g k v)) (js_items J j))"

lemma doc_laws: "json_laws doc_api"
  by (auto simp: json_laws_def doc_api_def type_error_def split: doc.splits option.splits)

lemma map_of_replaced:
  "map_of (map (\<lambda>(k, v). if k = key then (k, new) else (k, v)) kvs) k =
     (if k = key then map_option (\<lambda>_. new) (map_of kvs k) else map_of kvs k)"
  by (induction kvs) auto

text \<open>The member at a path, \<open>None\<close> when there is none.\<close>

primrec member_at :: "'j json_api \<Rightarrow> 'j \<Rightarrow> string list \<Rightarrow> 'j option" where
  "member_at J d [] = Some d"
| "member_at J d (k # ks) = (case js_at J d k of Inl _ \<Rightarrow> None | Inr v \<Rightarrow> member_at J v ks)"

definition keys_of :: "'j json_api \<Rightarrow> 'j option \<Rightarrow> string list" where
  "keys_of J d = (case d of None \<Rightarrow> [] | Some j \<Rightarrow> map fst (js_items J j))"

lemma json_at: "json_laws J \<Longrightarrow> js_at J j k = Inr v \<longleftrightarrow> js_is_object J j \<and> map_of (js_items J j) k = Some v"
  by (simp add: json_laws_def)

lemma json_rebuilt:
  "json_laws J \<Longrightarrow> js_is_object J j \<Longrightarrow>
     js_is_object J (js_object J (map (\<lambda>(k, v). (k, g k v)) (js_items J j))) \<and>
     js_items J (js_object J (map (\<lambda>(k, v). (k, g k v)) (js_items J j))) = map (\<lambda>(k, v). (k, g k v)) (js_items J j)"
  by (simp add: json_laws_def)

lemma js_update_cases:
  assumes "json_laws J" and "js_update J key f d = Inr d'"
  obtains old new where "js_at J d key = Inr old" "f old = Inr new" "js_is_object J d" "js_is_object J d'"
    "js_items J d' = map (\<lambda>(k, v). if k = key then (k, new) else (k, v)) (js_items J d)"
proof -
  obtain old new where on: "js_at J d key = Inr old" "f old = Inr new"
    and d': "d' = js_object J (map (\<lambda>(k, v). if k = key then (k, new) else (k, v)) (js_items J d))"
    using assms(2) unfolding js_update_def bind_exn_Inr_iff by blast
  have obj: "js_is_object J d" using on(1) json_at[OF assms(1)] by simp
  have eq: "(\<lambda>(k, v). if k = key then (k, new) else (k, v)) = (\<lambda>(k, v). (k, if k = key then new else v))"
    by auto
  show ?thesis
    using that[OF on obj] json_rebuilt[OF assms(1) obj, of "\<lambda>k v. if k = key then new else v"]
    unfolding d' eq by blast
qed

lemma js_update_members:
  assumes "json_laws J" and "js_update J key f d = Inr d'"
  shows "\<exists>old new. js_at J d key = Inr old \<and> js_at J d' key = Inr new \<and> f old = Inr new \<and>
    (\<forall>k ks. k \<noteq> key \<longrightarrow> member_at J d' (k # ks) = member_at J d (k # ks)) \<and> map fst (js_items J d') = map fst (js_items J d)"
proof -
  obtain old new where u: "js_at J d key = Inr old" "f old = Inr new" "js_is_object J d" "js_is_object J d'"
    "js_items J d' = map (\<lambda>(k, v). if k = key then (k, new) else (k, v)) (js_items J d)"
    using js_update_cases[OF assms] .
  have at_d: "js_at J d' k = Inr v \<longleftrightarrow> (if k = key then v = new else js_at J d k = Inr v)" for k v
    using json_at[OF assms(1)] u by (auto simp: map_of_replaced)
  have "member_at J d' (k # ks) = member_at J d (k # ks)" if "k \<noteq> key" for k ks
  proof (cases "js_at J d k")
    case (Inl e)
    then have "js_at J d' k \<noteq> Inr v" for v using at_d[of k v] that by simp
    with Inl show ?thesis by (cases "js_at J d' k") auto
  next
    case (Inr v)
    then show ?thesis using at_d[of k v] that by simp
  qed
  moreover have "map fst (js_items J d') = map fst (js_items J d)" unfolding u(5) by (induction "js_items J d") auto
  ultimately show ?thesis using u(1,2) at_d[of key new] by (intro exI[of _ old] exI[of _ new]) simp
qed

text \<open>The paths of the three texts, and what \<open>js_update\<close> does along a path.\<close>

definition wording_paths :: "string list list" where
  "wording_paths = [[''questions'', ''bias'', ''instructions''], [''questions'', ''intent'', ''instructions''],
     [''questions'', ''intent'', ''criteria'', ''close'']]"

definition only_under :: "'j json_api \<Rightarrow> string list list \<Rightarrow> 'j \<Rightarrow> 'j \<Rightarrow> bool" where
  "only_under J paths d d' \<longleftrightarrow>
     (\<forall>ks. (\<forall>w\<in>set paths. \<not> prefix w ks \<and> \<not> prefix ks w) \<longrightarrow> member_at J d' ks = member_at J d ks)"

lemma only_under_trans: "only_under J ps d d' \<Longrightarrow> only_under J qs d' d'' \<Longrightarrow> only_under J (ps @ qs) d d''"
  by (auto simp: only_under_def)

lemma only_under_update:
  assumes "json_laws J" "js_update J key f d = Inr d'" "\<And>old new. f old = Inr new \<Longrightarrow> only_under J ps old new" "ps \<noteq> []"
  shows "only_under J (map ((#) key) ps) d d'"
  unfolding only_under_def
proof (intro allI impI)
  fix ks assume ks: "\<forall>w\<in>set (map ((#) key) ps). \<not> prefix w ks \<and> \<not> prefix ks w"
  obtain old new where u: "js_at J d key = Inr old" "js_at J d' key = Inr new" "f old = Inr new"
    "\<forall>k ks. k \<noteq> key \<longrightarrow> member_at J d' (k # ks) = member_at J d (k # ks)"
    using js_update_members[OF assms(1,2)] by blast
  obtain k ks' where "ks = k # ks'" using ks assms(4) by (cases ks; cases ps) auto
  then show "member_at J d' ks = member_at J d ks"
    using u assms(3)[OF u(3)] ks by (cases "k = key") (auto simp: only_under_def)
qed

lemma only_under_put:
  assumes "json_laws J" "js_put J key text d = Inr d'"
  shows "only_under J [[key]] d d' \<and> member_at J d' [key] = Some (js_of_string J text)"
  using only_under_update[OF assms(1) assms(2)[unfolded js_put_def], of "[[]]"]
    js_update_members[OF assms(1) assms(2)[unfolded js_put_def]]
  by (auto simp: only_under_def)

lemma reword_criteria_changes:
  assumes "json_laws J" "reword_criteria J c = Inr c'"
  shows "only_under J [[''close'']] c c' \<and> map fst (js_items J c') = map fst (js_items J c) \<and>
    member_at J c' [''close''] = map_option (\<lambda>_. js_of_string J earlier_close_criteria) (member_at J c [''close''])"
proof (cases "js_contains J c ''close''")
  case True
  then have p: "js_put J ''close'' earlier_close_criteria c = Inr c'" using assms(2) by (simp add: reword_criteria_def)
  show ?thesis
    using only_under_put[OF assms(1) p] js_update_members[OF assms(1) p[unfolded js_put_def]] by (auto simp: only_under_def)
next
  case False
  then have "js_at J c ''close'' \<noteq> Inr v" for v using assms(1) by (auto simp: json_laws_def)
  then show ?thesis using False assms(2) by (auto simp: reword_criteria_def only_under_def split: sum.split)
qed

lemma only_under_at: "only_under J ps d d' \<Longrightarrow> \<forall>w\<in>set ps. \<not> prefix w ks \<and> \<not> prefix ks w \<Longrightarrow> member_at J d' ks = member_at J d ks"
  by (simp add: only_under_def)

lemma reword_intent_changes:
  assumes J: "json_laws J"
    and "bind_exn (js_put J ''instructions'' earlier_intent_instructions i) (js_update J ''criteria'' (reword_criteria J)) = Inr i'"
  shows "only_under J [[''instructions''], [''criteria'', ''close'']] i i' \<and>
    member_at J i' [''instructions''] = Some (js_of_string J earlier_intent_instructions) \<and>
    keys_of J (member_at J i' [''criteria'']) = keys_of J (member_at J i [''criteria'']) \<and>
    member_at J i' [''criteria'', ''close''] =
      map_option (\<lambda>_. js_of_string J earlier_close_criteria) (member_at J i [''criteria'', ''close''])"
proof -
  obtain j where j: "js_put J ''instructions'' earlier_intent_instructions i = Inr j"
    "js_update J ''criteria'' (reword_criteria J) j = Inr i'"
    using assms(2) by (auto simp: bind_exn_Inr_iff)
  note put = only_under_put[OF J j(1)]
  have under: "only_under J [[''criteria'', ''close'']] j i'"
    using only_under_update[OF J j(2), of "[[''close'']]"] reword_criteria_changes[OF J] by simp
  obtain c c' where c: "js_at J j ''criteria'' = Inr c" "js_at J i' ''criteria'' = Inr c'" "reword_criteria J c = Inr c'"
    using js_update_members[OF J j(2)] by blast
  have i: "member_at J i (''criteria'' # ks) = member_at J c ks" for ks
    using only_under_at[OF conjunct1[OF put], of "''criteria'' # ks"] c(1) by simp
  show ?thesis
    using only_under_trans[OF conjunct1[OF put] under] only_under_at[OF under, of "[''instructions'']"] put
      reword_criteria_changes[OF J c(3)] i[of "[]"] i[of "[''close'']"] c(2)
    by (auto simp: keys_of_def)
qed

lemma reword_questions_changes:
  assumes J: "json_laws J" and "reword_questions J q = Inr q'"
  shows "only_under J [[''bias'', ''instructions''], [''intent'', ''instructions''], [''intent'', ''criteria'', ''close'']] q q' \<and>
    member_at J q' [''bias'', ''instructions''] = Some (js_of_string J earlier_bias_instructions) \<and>
    member_at J q' [''intent'', ''instructions''] = Some (js_of_string J earlier_intent_instructions) \<and>
    keys_of J (member_at J q' [''intent'', ''criteria'']) = keys_of J (member_at J q [''intent'', ''criteria'']) \<and>
    member_at J q' [''intent'', ''criteria'', ''close''] =
      map_option (\<lambda>_. js_of_string J earlier_close_criteria) (member_at J q [''intent'', ''criteria'', ''close''])"
proof -
  let ?bias = "js_put J ''instructions'' earlier_bias_instructions"
  let ?intent = "\<lambda>i. bind_exn (js_put J ''instructions'' earlier_intent_instructions i) (js_update J ''criteria'' (reword_criteria J))"
  obtain p where p: "js_update J ''bias'' ?bias q = Inr p" "js_update J ''intent'' ?intent p = Inr q'"
    using assms(2) by (auto simp: reword_questions_def bind_exn_Inr_iff)
  have b: "only_under J [[''bias'', ''instructions'']] q p"
    using only_under_update[OF J p(1), of "[[''instructions'']]"] only_under_put[OF J] by simp
  have bias: "member_at J p [''bias'', ''instructions''] = Some (js_of_string J earlier_bias_instructions)"
  proof -
    obtain b b' where b: "js_at J p ''bias'' = Inr b'" "?bias b = Inr b'" using js_update_members[OF J p(1)] by blast
    then show ?thesis using only_under_put[OF J b(2)] by simp
  qed
  have i: "only_under J [[''intent'', ''instructions''], [''intent'', ''criteria'', ''close'']] p q'"
    using only_under_update[OF J p(2), of "[[''instructions''], [''criteria'', ''close'']]"] reword_intent_changes[OF J] by simp
  obtain j j' where j: "js_at J p ''intent'' = Inr j" "js_at J q' ''intent'' = Inr j'" "?intent j = Inr j'"
    using js_update_members[OF J p(2)] by blast
  have below: "member_at J q' (''intent'' # ks) = member_at J j' ks" "member_at J q (''intent'' # ks) = member_at J j ks" for ks
    using j(1,2) only_under_at[OF b, of "''intent'' # ks"] by simp_all
  show ?thesis
    using only_under_trans[OF b i] only_under_at[OF i, of "[''bias'', ''instructions'']"] bias
      reword_intent_changes[OF J j(3)]
    unfolding below by simp
qed

text \<open>C40: The rewritten request differs from the captured one only in the three texts: every member elsewhere,
  the whole state included, is the same, both instructions are the earlier ones, the text of the close
  criterion is the earlier one exactly when there is such a criterion, and the criteria have the same
  keys in the same order.\<close>

theorem variant_changes_only_wording:
  assumes "json_laws J" and "buildPreviousWordingVariant J d = Inr d'"
  shows "only_under J wording_paths d d' \<and>
    member_at J d' [''state''] = member_at J d [''state''] \<and>
    member_at J d' [''questions'', ''bias'', ''instructions''] = Some (js_of_string J earlier_bias_instructions) \<and>
    member_at J d' [''questions'', ''intent'', ''instructions''] = Some (js_of_string J earlier_intent_instructions) \<and>
    member_at J d' [''questions'', ''intent'', ''criteria'', ''close''] =
      map_option (\<lambda>_. js_of_string J earlier_close_criteria) (member_at J d [''questions'', ''intent'', ''criteria'', ''close'']) \<and>
    keys_of J (member_at J d' [''questions'', ''intent'', ''criteria'']) =
      keys_of J (member_at J d [''questions'', ''intent'', ''criteria''])"
proof -
  note J = assms(1) and u = assms(2)[unfolded buildPreviousWordingVariant_def]
  obtain q q' where q: "js_at J d ''questions'' = Inr q" "js_at J d' ''questions'' = Inr q'" "reword_questions J q = Inr q'"
    using js_update_members[OF J u] by blast
  have "only_under J wording_paths d d'"
    using only_under_update[OF J u] reword_questions_changes[OF J] unfolding wording_paths_def by fastforce
  then show ?thesis
    using reword_questions_changes[OF J q(3)] q(1,2) only_under_at[of J wording_paths d d' "[''state'']"]
    by (simp add: wording_paths_def)
qed

section \<open>The fuel of the difference\<close>

lemma concat_options_None: "(\<exists>ys. concat_options xs = Some ys) \<longleftrightarrow> None \<notin> set xs"
  by (induction xs) (auto split: option.split)

lemma doc_below:
  "(k, v) \<in> set kvs \<Longrightarrow> size v < size (Obj kvs)" "v \<in> set ds \<Longrightarrow> size v < size (Arr ds)"
  by (induction kvs; auto) (induction ds; auto)

lemma doc_members:
  "js_is_object doc_api d \<longleftrightarrow> (\<exists>kvs. d = Obj kvs)" "js_is_array doc_api d \<longleftrightarrow> (\<exists>ds. d = Arr ds)"
  "js_items doc_api (Obj kvs) = kvs" "js_elements doc_api (Arr ds) = ds"
  "js_contains doc_api (Obj kvs) k \<longleftrightarrow> map_of kvs k \<noteq> None"
  "js_at doc_api (Obj kvs) k = (case map_of kvs k of Some v \<Rightarrow> Inr v | None \<Rightarrow> type_error)"
  by (auto simp: doc_api_def split: doc.split)

lemma diff_json_enough: "size a < n \<Longrightarrow> diff_json doc_api n a b pointer \<noteq> None"
proof (induction n arbitrary: a b pointer)
  case (Suc n)
  have rec: "None \<noteq> diff_json doc_api n v w p" if "size v < size a" for v w p
    using Suc.IH[of v w p] Suc.prems that by (metis less_Suc_eq_le order_less_le_trans)
  consider kvs kvs' where "a = Obj kvs" "b = Obj kvs'" | ds ds' where "a = Arr ds" "b = Arr ds'"
    | "\<not> (js_is_object doc_api a \<and> js_is_object doc_api b)" "\<not> (js_is_array doc_api a \<and> js_is_array doc_api b)"
    by (auto simp: doc_members)
  then show ?case
  proof cases
    case 1
    have "None \<noteq> diff_json doc_api n v w p" if "(k, v) \<in> set kvs" for k v w p
      using rec[of v w p] doc_below(1)[OF that] 1 by simp
    moreover have "map_of kvs' k = Some v \<Longrightarrow> js_at doc_api (Obj kvs') k = Inr v" for k v by (simp add: doc_members)
    ultimately show ?thesis using 1 by (fastforce simp: doc_members concat_options_None split: if_splits)
  next
    case 2
    have "None \<noteq> diff_json doc_api n v w p" if "v \<in> set ds" for v w p
      using rec[of v w p] doc_below(2)[OF that] 2 by simp
    moreover have "ds ! i \<in> set ds" if "i < length ds" for i using that by simp
    ultimately show ?thesis using 2 by (auto simp: doc_members concat_options_None set_zip)
  next
    case 3
    then show ?thesis by (simp only: diff_json.simps if_False) simp
  qed
qed simp

section \<open>An example\<close>

definition demo_captured :: doc where
  "demo_captured = Obj
     [(''model'', Str ''m''), (''state'', Obj [(''evaluation_id'', U64 7)]),
      (''questions'', Obj [(''bias'', Obj [(''instructions'', Str ''b'')]),
         (''intent'', Obj [(''instructions'', Str ''i''), (''criteria'', Obj [(''open'', Str ''o''), (''close'', Str ''c'')])])])]"

lemma variant_changes_only_wording_witness:
  "\<exists>d'. buildPreviousWordingVariant doc_api demo_captured = Inr d' \<and>
     member_at doc_api d' [''state''] = Some (Obj [(''evaluation_id'', U64 7)]) \<and>
     member_at doc_api d' [''questions'', ''intent'', ''criteria'', ''close''] = Some (Str earlier_close_criteria)"
proof -
  obtain d' where d': "buildPreviousWordingVariant doc_api demo_captured = Inr d'"
    by (simp add: buildPreviousWordingVariant_def reword_questions_def reword_criteria_def js_update_def js_put_def
        doc_api_def demo_captured_def)
  then show ?thesis
    using variant_changes_only_wording[OF doc_laws d'] by (auto simp: demo_captured_def doc_api_def)
qed

end
