(* ===== verification/JevReplay.thy ===== *)
theory JevReplay
  imports JevVariant "HOL-Library.List_Lexorder" "HOL-Library.Char_ord"
begin

text \<open>
  \<open>tools/jev_replay.cpp\<close>: decoding a captured response again, or sending a captured request again, as it
  was or with the earlier wording. The command line is the list of the arguments after the program
  name; \<open>std::getenv\<close>, the files found at the start, the transfer and the clock are arguments. A file
  that is written is read back from the list of the files written.
\<close>

section \<open>Arguments\<close>

text \<open>The document of the options: the members that the options set.\<close>

record replay_args =
  ra_capture :: "string option"
  ra_out :: "string option"
  ra_label :: "string option"
  ra_variant :: string
  ra_endpoint :: "string option"
  ra_model :: "string option"
  ra_timeout_ms :: "64 word option"
  ra_parse_only :: bool

definition replay_args_init :: replay_args where
  "replay_args_init = \<lparr>ra_capture = None, ra_out = None, ra_label = None, ra_variant = ''current'',
     ra_endpoint = None, ra_model = None, ra_timeout_ms = None, ra_parse_only = False\<rparr>"

text \<open>\<open>std::stol\<close> for a 64-bit \<open>long\<close>.\<close>

definition stol :: "string \<Rightarrow> exn + 64 word" where
  "stol s =
     (let r = dropWhile is_space s;
          neg = (case r of c # _ \<Rightarrow> c = CHR ''-'' | [] \<Rightarrow> False);
          signed = (case r of c # _ \<Rightarrow> c = CHR ''-'' \<or> c = CHR ''+'' | [] \<Rightarrow> False);
          ds = takeWhile is_digit (if signed then tl r else r);
          v = (if neg then - int (digits_val 0 ds) else int (digits_val 0 ds))
      in if ds = [] then Inl (Invalid_argument ''stol'')
         else if v < - (2 ^ 63) \<or> v \<ge> 2 ^ 63 then Inl (Out_of_range ''stol'')
         else Inr (of_int v))"

definition set_option :: "string \<Rightarrow> string \<Rightarrow> replay_args \<Rightarrow> exn + replay_args" where
  "set_option option v a =
     (if option = ''--capture'' then Inr (a\<lparr>ra_capture := Some v\<rparr>)
      else if option = ''--out'' then Inr (a\<lparr>ra_out := Some v\<rparr>)
      else if option = ''--label'' then Inr (a\<lparr>ra_label := Some v\<rparr>)
      else if option = ''--variant'' then Inr (a\<lparr>ra_variant := v\<rparr>)
      else if option = ''--endpoint'' then Inr (a\<lparr>ra_endpoint := Some v\<rparr>)
      else if option = ''--model'' then Inr (a\<lparr>ra_model := Some v\<rparr>)
      else bind_exn (stol v) (\<lambda>n. Inr (a\<lparr>ra_timeout_ms := Some n\<rparr>)))"

definition value_options :: "string list" where
  "value_options = [''--capture'', ''--out'', ''--label'', ''--variant'', ''--endpoint'', ''--model'', ''--timeout-ms'']"

fun replay_options :: "string list \<Rightarrow> replay_args \<Rightarrow> exn + replay_args" where
  "replay_options [] a = Inr a"
| "replay_options (option # rest) a =
     (if option \<in> set value_options
      then (case rest of
              [] \<Rightarrow> Inl (Runtime_error (''missing value for '' @ option))
            | v # rest' \<Rightarrow> bind_exn (set_option option v a) (replay_options rest'))
      else if option = ''--parse-only'' then replay_options rest (a\<lparr>ra_parse_only := True\<rparr>)
      else Inl (Runtime_error (''unknown option '' @ option)))"

definition usage_text :: string where
  "usage_text = ''usage: jev_replay --capture <attempt-dir> --out <dir> --label <name> '' @
     ''[--variant current|previous] [--endpoint URL] [--model M] [--timeout-ms N] '' @ ''[--parse-only]''"

definition parseArguments :: "string list \<Rightarrow> exn + replay_args" where
  "parseArguments argv =
     bind_exn (replay_options argv replay_args_init) (\<lambda>a.
     if ra_capture a = None \<or> ra_out a = None \<or> ra_label a = None then Inl (Runtime_error usage_text)
     else if ra_variant a \<noteq> ''current'' \<and> ra_variant a \<noteq> ''previous''
     then Inl (Runtime_error ''variant must be current or previous'')
     else Inr a)"

section \<open>Reports\<close>

definition rawAnswerReport :: "'j json_api \<Rightarrow> 'j \<Rightarrow> string \<Rightarrow> exn + 'j" where
  "rawAnswerReport J answers key =
     (if \<not> js_contains J answers key then Inr (js_object J [(''error'', js_of_string J (''missing answer '' @ key))])
      else bind_exn (js_at J answers key) (\<lambda>a.
        if \<not> js_is_object J a then Inr (js_object J [(''error'', js_of_string J (''missing answer '' @ key))])
        else
          bind_exn (js_value J (js_text J) a ''type'' []) (\<lambda>type.
          bind_exn (js_value J (js_text J) a ''choice'' []) (\<lambda>choice.
          bind_exn (js_value J Inr a ''probabilities'' (js_object J [])) (\<lambda>probabilities.
          bind_exn (js_value J Inr a ''confidence'' (js_null J)) (\<lambda>confidence.
          Inr (js_object J [(''type'', js_of_string J type), (''choice'', js_of_string J choice),
                            (''probabilities'', probabilities), (''confidence'', confidence)])))))))"

definition criteria_of :: "'j json_api \<Rightarrow> 'j \<Rightarrow> exn + 'j" where
  "criteria_of J request =
     bind_exn (js_at J request ''questions'') (\<lambda>q. bind_exn (js_at J q ''intent'') (\<lambda>i. js_at J i ''criteria''))"

definition criteriaKeys :: "'j json_api \<Rightarrow> 'j \<Rightarrow> exn + string list" where
  "criteriaKeys J request = bind_exn (criteria_of J request) (\<lambda>c. Inr (map fst (js_items J c)))"

text \<open>The sum of the numbers among the probabilities, and whether all are numbers between 0 and 1.\<close>

fun probability_sum :: "'j json_api \<Rightarrow> (string \<times> 'j) list \<Rightarrow> f64 \<Rightarrow> bool \<Rightarrow> exn + f64 \<times> bool" where
  "probability_sum J [] acc in_range = Inr (acc, in_range)"
| "probability_sum J ((key, v) # items) acc in_range =
     (if \<not> js_is_number J v then probability_sum J items acc False
      else bind_exn (js_f64 J v) (\<lambda>x.
        probability_sum J items (acc + x) (in_range \<and> \<not> (x < 0 \<or> x > double_one))))"

definition strings_json :: "'j json_api \<Rightarrow> string list \<Rightarrow> 'j" where
  "strings_json J xs = js_array J (map (js_of_string J) xs)"

definition options_expected :: "'j json_api \<Rightarrow> string \<Rightarrow> 'j \<Rightarrow> exn + string list" where
  "options_expected J key request =
     (if key = ''intent''
      then bind_exn (js_at J request ''state'') (\<lambda>s. bind_exn (js_at J s ''position'') (\<lambda>p.
           bind_exn (js_value J (js_int J) p ''net'' 0) (\<lambda>net.
           Inr (if net = 0 then [''open'', ''hold''] else [''open'', ''close'', ''hold'']))))
      else Inr [''long'', ''short''])"

definition probabilities_seen :: "'j json_api \<Rightarrow> 'j \<Rightarrow> exn + 'j \<times> 'j \<times> string list" where
  "probabilities_seen J answer =
     (if \<not> js_contains J answer ''probabilities'' then Inr (js_null J, js_null J, [])
      else bind_exn (js_at J answer ''probabilities'') (\<lambda>p.
        if \<not> js_is_object J p then Inr (js_null J, js_null J, [])
        else bind_exn (probability_sum J (js_items J p) 0 True) (\<lambda>(acc, in_range).
          Inr (js_of_f64 J acc, js_of_bool J in_range, sort (map fst (js_items J p))))))"

definition check_answer :: "'j json_api \<Rightarrow> 'j \<Rightarrow> 'j \<Rightarrow> string \<Rightarrow> exn + 'j" where
  "check_answer J raw_answers request key =
     bind_exn (rawAnswerReport J raw_answers key) (\<lambda>answer.
     bind_exn (probabilities_seen J answer) (\<lambda>(acc, in_range, seen).
     bind_exn (options_expected J key request) (\<lambda>expected.
     let expected = sort expected
     in Inr (js_object J [(''probability_sum'', acc), (''probabilities_in_range'', in_range),
               (''options_seen'', strings_json J seen), (''options_expected'', strings_json J expected),
               (''options_match'', js_of_bool J (seen = expected))]))))"

definition diagnosticChecks :: "'j json_api \<Rightarrow> 'j \<Rightarrow> 'j \<Rightarrow> exn + 'j" where
  "diagnosticChecks J raw_answers request =
     bind_exn (check_answer J raw_answers request ''bias'') (\<lambda>bias.
     bind_exn (check_answer J raw_answers request ''intent'') (\<lambda>intent.
     Inr (js_object J [(''bias'', bias), (''intent'', intent)])))"

primrec intent_text :: "jev_intent \<Rightarrow> string" where
  "intent_text Intent_OPEN = ''open''"
| "intent_text Intent_CLOSE = ''close''"
| "intent_text HOLD = ''hold''"
| "intent_text Intent_INVALID = ''invalid''"

primrec bias_text :: "jev_bias \<Rightarrow> string" where
  "bias_text LONG = ''long''"
| "bias_text SHORT = ''short''"
| "bias_text Bias_INVALID = ''invalid''"

definition decisionReport :: "'j json_api \<Rightarrow> jev_decision option \<Rightarrow> 'j" where
  "decisionReport J decision =
     (case decision of
        None \<Rightarrow> js_null J
      | Some d \<Rightarrow> js_object J
          [(''intent'', js_of_string J (intent_text (jd_intent d))), (''bias'', js_of_string J (bias_text (jd_bias d))),
           (''open_probability'', js_of_f64 J (jd_open_probability d)),
           (''close_probability'', js_of_f64 J (jd_close_probability d)),
           (''hold_probability'', js_of_f64 J (jd_hold_probability d)),
           (''confidence'', js_of_f64 J (jd_confidence d))])"

definition evaluationStateFromRequest :: "'j json_api \<Rightarrow> 'j \<Rightarrow> exn + jev_evaluation_state" where
  "evaluationStateFromRequest J request =
     bind_exn (js_at J request ''state'') (\<lambda>state.
     bind_exn (js_value J (js_u64 J) state ''evaluation_id'' 0) (\<lambda>evaluation.
     bind_exn (js_value J (js_u64 J) state ''ticker_id'' 0) (\<lambda>ticker.
     bind_exn (js_at J state ''position'') (\<lambda>position.
     bind_exn (js_value J (js_int J) position ''net'' 0) (\<lambda>net.
     Inr (jev_evaluation_init\<lparr>es_evaluation_id := evaluation, es_ticker_id := ucast ticker,
            es_position := position_state_init\<lparr>ps_net_position := net\<rparr>\<rparr>))))))"

record 'j decoded_response =
  dr_raw_answers :: 'j
  dr_decision :: "jev_decision option"
  dr_outcome :: string
  dr_error :: string

definition decodeResponse :: "'j json_api \<Rightarrow> string \<Rightarrow> jev_evaluation_state \<Rightarrow> 'j decoded_response" where
  "decodeResponse J response s =
     (let failed = (\<lambda>raw e. \<lparr>dr_raw_answers = raw, dr_decision = None, dr_outcome = ''failed'', dr_error = e\<rparr>)
      in if response = [] then failed (js_null J) ''empty response''
         else case bind_exn (js_parse J response) (\<lambda>d. js_at J d ''answers'') of
                Inl e \<Rightarrow> failed (js_null J) (''response is not a valid answers document: '' @ exn_text e)
              | Inr raw \<Rightarrow>
                  (case parseDecision J response s of
                     Inl e \<Rightarrow> failed raw (exn_text e)
                   | Inr d \<Rightarrow> \<lparr>dr_raw_answers = raw, dr_decision = Some d, dr_outcome = ''ok'', dr_error = []\<rparr>))"

definition rawReport :: "'j json_api \<Rightarrow> 'j decoded_response \<Rightarrow> exn + 'j" where
  "rawReport J d =
     (if \<not> js_is_object J (dr_raw_answers d) then Inr (js_null J)
      else bind_exn (rawAnswerReport J (dr_raw_answers d) ''bias'') (\<lambda>bias.
           bind_exn (rawAnswerReport J (dr_raw_answers d) ''intent'') (\<lambda>intent.
           Inr (js_object J [(''bias'', bias), (''intent'', intent)]))))"

definition diagnostics_json :: "'j json_api \<Rightarrow> 'j decoded_response \<Rightarrow> 'j \<Rightarrow> exn + 'j" where
  "diagnostics_json J d request =
     (if js_is_object J (dr_raw_answers d) then diagnosticChecks J (dr_raw_answers d) request else Inr (js_null J))"

section \<open>The program\<close>

text \<open>\<open>rv_nesting\<close> bounds the nesting of the request, which the recursion of the difference follows.\<close>

record 'j replay_env =
  rv_json :: "'j json_api"
  rv_capture :: capture_env
  rv_files :: "string \<Rightarrow> string"
  rv_key :: "string option"
  rv_net :: "curl_result option"
  rv_now :: string
  rv_nesting :: nat

record 'j replay_state =
  rp_capture :: jev_capture
  rp_posts :: "http_post list"
  rp_output :: "'j list"

definition path_filename :: "string \<Rightarrow> string" where
  "path_filename p = rev (takeWhile (\<lambda>c. c \<noteq> CHR ''/'') (rev p))"

text \<open>A file reads as it was last written.\<close>

definition read_back :: "'j replay_env \<Rightarrow> jev_capture \<Rightarrow> string \<Rightarrow> string" where
  "read_back V c path = (case map_of (rev (jc_files c)) path of Some b \<Rightarrow> b | None \<Rightarrow> rv_files V path)"

definition readRequiredFile :: "'j replay_env \<Rightarrow> string \<Rightarrow> exn + string" where
  "readRequiredFile V path =
     (if rv_files V path = [] then Inl (Runtime_error (''cannot read '' @ path)) else Inr (rv_files V path))"

definition readOptionalJson :: "'j replay_env \<Rightarrow> string \<Rightarrow> exn + 'j" where
  "readOptionalJson V path =
     (if rv_files V path = [] then Inr (js_object (rv_json V) []) else js_parse (rv_json V) (rv_files V path))"

definition writeTextFile :: "'j replay_env \<Rightarrow> string \<Rightarrow> string \<Rightarrow> 'j replay_state \<Rightarrow> ('j replay_state, unit) outcome" where
  "writeTextFile V path data s =
     (case writeBytes (rv_capture V) path data (rp_capture s) of
        Inl _ \<Rightarrow> Throw s (Runtime_error (''cannot write '' @ path))
      | Inr c \<Rightarrow> Ok (s\<lparr>rp_capture := c\<rparr>) ())"

definition replay_headers :: "string \<Rightarrow> string list" where
  "replay_headers key = [''Content-Type: application/json'', ''Authorization: Bearer '' @ key, ''X-Title: jev-quant'']"

definition postCapturedBytes :: "'j replay_env \<Rightarrow> string \<Rightarrow> string \<Rightarrow> 64 word \<Rightarrow> string \<Rightarrow> 'j replay_state \<Rightarrow>
    ('j replay_state, curl_result) outcome" where
  "postCapturedBytes V endpoint key timeout data s =
     (case rv_net V of
        None \<Rightarrow> Throw s (Runtime_error ''curl_easy_init failed'')
      | Some r \<Rightarrow> Ok (s\<lparr>rp_posts := rp_posts s @ [\<lparr>hp_url = endpoint, hp_headers = replay_headers key, hp_body = data,
                                                   hp_timeout = timeout\<rparr>]\<rparr>) r)"

text \<open>What the mode \<open>--parse-only\<close> prints.\<close>

definition parse_only_report :: "'j replay_env \<Rightarrow> string \<Rightarrow> 'j \<Rightarrow> jev_evaluation_state \<Rightarrow> string \<Rightarrow> exn + 'j" where
  "parse_only_report V attempt_dir request state request_sha =
     (let J = rv_json V; d = decodeResponse J (rv_files V (join_path attempt_dir ''response.raw'')) state
      in bind_exn (rawReport J d) (\<lambda>raw.
         bind_exn (diagnostics_json J d request) (\<lambda>diagnostics.
         Inr (js_object J
           [(''mode'', js_of_string J ''parse-only''), (''capture'', js_of_string J attempt_dir),
            (''evaluation_id'', js_of_u64 J (es_evaluation_id state)), (''request_sha256'', js_of_string J request_sha),
            (''raw'', raw), (''diagnostics'', diagnostics), (''parsed'', decisionReport J (dr_decision d)),
            (''parse_outcome'', js_of_string J (dr_outcome d)), (''parse_error'', optional_text J (dr_error d))]))))"

text \<open>The bytes to send, the difference, and whether the state and the criteria keys are unchanged.\<close>

definition replay_bytes :: "'j replay_env \<Rightarrow> string \<Rightarrow> string \<Rightarrow> 'j \<Rightarrow> (exn + string \<times> 'j \<times> bool \<times> bool) option" where
  "replay_bytes V variant captured request =
     (let J = rv_json V; sha = (\<lambda>d. sha256Hex (rv_capture V) (js_dump J d))
      in if variant \<noteq> ''previous'' then Some (Inr (captured, js_array J [], True, True))
         else case buildPreviousWordingVariant J request of
           Inl e \<Rightarrow> Some (Inl e)
         | Inr doc \<Rightarrow>
             map_option (\<lambda>diff.
               bind_exn (js_at J request ''state'') (\<lambda>a. bind_exn (js_at J doc ''state'') (\<lambda>b.
               bind_exn (criteriaKeys J request) (\<lambda>keys. bind_exn (criteriaKeys J doc) (\<lambda>keys'.
               Inr (js_dump J doc, diff, sha a = sha b, keys = keys'))))))
               (describeWordingDiff J (rv_nesting V) request doc))"

definition replay_meta :: "'j replay_env \<Rightarrow> replay_args \<Rightarrow> jev_evaluation_state \<Rightarrow> string \<Rightarrow> string \<Rightarrow> 64 word \<Rightarrow> string \<Rightarrow> string \<Rightarrow> jev_attempt_meta" where
  "replay_meta V a state endpoint model timeout replay_of request_sha = jev_attempt_meta_init
     \<lparr>cm_evaluation_id := es_evaluation_id state, cm_ticker_id := ucast (es_ticker_id state), cm_attempt := 0,
      cm_endpoint := endpoint, cm_model := model, cm_timeout_ms := timeout, cm_max_retries := 0, cm_role := ''replay'',
      cm_replay_of := replay_of, cm_source_request_sha256 := request_sha, cm_variant := ra_variant a,
      cm_started_utc := rv_now V\<rparr>"

definition verification_json :: "'j replay_env \<Rightarrow> jev_capture \<Rightarrow> capture_context \<Rightarrow> string \<Rightarrow> string \<Rightarrow> bool \<Rightarrow> bool \<Rightarrow> 'j" where
  "verification_json V c x sent request_sha state_unchanged membership_unchanged =
     (let J = rv_json V; sha = sha256Hex (rv_capture V); file = read_back V c (join_path (cx_directory x) ''request.json'')
      in js_object J
           [(''sent_bytes_match_request_file'', js_of_bool J (file = sent)), (''sent_sha256'', js_of_string J (sha sent)),
            (''request_file_sha256'', js_of_string J (sha file)), (''capture_request_sha256'', js_of_string J request_sha),
            (''state_sha256_unchanged'', js_of_bool J state_unchanged),
            (''criteria_membership_unchanged'', js_of_bool J membership_unchanged)])"

definition http_ok :: "curl_result \<Rightarrow> bool" where
  "http_ok r \<longleftrightarrow> cr_code r = 0 \<and> sint (cr_status r) \<ge> 200 \<and> sint (cr_status r) < 300"

definition decoded_none :: "'j json_api \<Rightarrow> 'j decoded_response" where
  "decoded_none J = \<lparr>dr_raw_answers = js_null J, dr_decision = None, dr_outcome = [], dr_error = []\<rparr>"

definition replay_report :: "'j replay_env \<Rightarrow> replay_args \<Rightarrow> string \<Rightarrow> jev_attempt_meta \<Rightarrow> string \<Rightarrow> 'j \<Rightarrow> curl_result \<Rightarrow>
    'j decoded_response \<Rightarrow> 'j \<Rightarrow> exn + 'j" where
  "replay_report V a label m sent verification r d request =
     (let J = rv_json V; status = (if cr_code r = 0 then js_of_i64 J (cr_status r) else js_null J)
      in bind_exn (rawReport J d) (\<lambda>raw.
         bind_exn (diagnostics_json J d request) (\<lambda>diagnostics.
         Inr (js_object J
           [(''mode'', js_of_string J ''replay''), (''label'', js_of_string J label),
            (''variant'', js_of_string J (ra_variant a)), (''capture'', js_of_string J (the (ra_capture a))),
            (''replay_of'', js_of_string J (cm_replay_of m)), (''evaluation_id'', js_of_u64 J (cm_evaluation_id m)),
            (''request_sha256'', js_of_string J (sha256Hex (rv_capture V) sent)),
            (''capture_request_sha256'', js_of_string J (cm_source_request_sha256 m)), (''verification'', verification),
            (''endpoint'', js_of_string J (cm_endpoint m)), (''model'', js_of_string J (cm_model m)),
            (''curl_outcome'', js_of_string J (cr_message r)), (''http_status'', status),
            (''elapsed_ms'', js_of_f64 J (cr_elapsed r)), (''raw'', raw), (''diagnostics'', diagnostics),
            (''parsed'', decisionReport J (dr_decision d)), (''parse_outcome'', optional_text J (dr_outcome d)),
            (''parse_error'', optional_text J (dr_error d))]))))"

text \<open>Sending the bytes with their record; the value is whether the transfer succeeded.\<close>

definition replay_attempt :: "'j replay_env \<Rightarrow> replay_args \<Rightarrow> string \<Rightarrow> string \<Rightarrow> jev_evaluation_state \<Rightarrow> 'j \<Rightarrow> jev_attempt_meta \<Rightarrow>
    string \<times> 'j \<times> bool \<times> bool \<Rightarrow> 'j replay_state \<Rightarrow> ('j replay_state, bool) outcome" where
  "replay_attempt V a label key state request m = (\<lambda>(sent, diff, state_unchanged, membership_unchanged) s.
     let J = rv_json V; (c, context) = beginAttempt (rv_capture V) m sent (rp_capture s); s = s\<lparr>rp_capture := c\<rparr>
     in case context of
          None \<Rightarrow> Throw s (Runtime_error (''cannot write replay output under '' @ cc_directory (jc_config c)))
        | Some x \<Rightarrow>
            let verification = verification_json V c x sent (cm_source_request_sha256 m) state_unchanged membership_unchanged
            in then_do (writeTextFile V (join_path (cx_directory x) ''verification.json'') (js_dump J verification @ [CHR 0x0A]) s) (\<lambda>s _.
               then_do (writeTextFile V (join_path (cx_directory x) ''variant-diff.json'') (js_dump J diff @ [CHR 0x0A]) s) (\<lambda>s _.
               then_do (postCapturedBytes V (cm_endpoint m) key (cm_timeout_ms m) sent s) (\<lambda>s r.
               let d = (if http_ok r then decodeResponse J (cr_body r) state else decoded_none J);
                   s = s\<lparr>rp_capture := completeAttempt J (rv_capture V) context m sent (cr_body r) (cr_code r) (cr_message r)
                     (if cr_code r = 0 then Some (cr_status r) else None) (cr_elapsed r) (dr_outcome d) (dr_error d)
                     (rp_capture s)\<rparr>
               in try_with s (replay_report V a label m sent verification r d request) (\<lambda>report.
                  Ok (s\<lparr>rp_output := rp_output s @ [report]\<rparr>) (http_ok r))))))"

definition option_or :: "'j replay_env \<Rightarrow> 'b option \<Rightarrow> ('j \<Rightarrow> exn + 'b) \<Rightarrow> 'j \<Rightarrow> string \<Rightarrow> 'b \<Rightarrow> exn + 'b" where
  "option_or V given get metadata key otherwise =
     (case given of Some x \<Rightarrow> Inr x | None \<Rightarrow> js_value (rv_json V) get metadata key otherwise)"

text \<open>The sending mode, after the request has been read.\<close>

definition replay_send :: "'j replay_env \<Rightarrow> replay_args \<Rightarrow> string \<Rightarrow> 'j \<Rightarrow> 'j \<Rightarrow> jev_evaluation_state \<Rightarrow> 'j replay_state \<Rightarrow>
    ('j replay_state, bool) outcome" where
  "replay_send V a captured metadata request state s =
     (let J = rv_json V; attempt_dir = the (ra_capture a); label = the (ra_label a)
      in case rv_key V of
           None \<Rightarrow> Throw s (Runtime_error ''OPENROUTER_API_KEY is not set in the environment'')
         | Some key \<Rightarrow>
           if key = [] then Throw s (Runtime_error ''OPENROUTER_API_KEY is not set in the environment'')
           else await (replay_bytes V (ra_variant a) captured request) (\<lambda>b.
             try_with s b (\<lambda>data.
             try_with s (option_or V (ra_endpoint a) (js_text J) metadata ''endpoint''
               ''https://openrouter.ai/api/alpha/decisions'') (\<lambda>endpoint.
             try_with s (option_or V (ra_model a) (js_text J) metadata ''model'' ''typesafe/jev-1.13'') (\<lambda>model.
             try_with s (option_or V (ra_timeout_ms a) (js_i64 J) metadata ''timeout_ms'' 4000) (\<lambda>timeout.
             try_with s (js_value J (js_text J) metadata ''run_id'' []) (\<lambda>run_id.
             replay_attempt V a label key state request
               (replay_meta V a state endpoint model timeout (run_id @ ''/'' @ path_filename attempt_dir)
                 (sha256Hex (rv_capture V) captured))
               data (s\<lparr>rp_capture := jev_capture_new \<lparr>cc_directory = the (ra_out a), cc_run_id = label\<rparr>\<rparr>))))))))"

definition replay_run :: "'j replay_env \<Rightarrow> replay_args \<Rightarrow> 'j replay_state \<Rightarrow> ('j replay_state, nat) outcome" where
  "replay_run V a s =
     (let J = rv_json V; attempt_dir = the (ra_capture a)
      in try_with s (readRequiredFile V (join_path attempt_dir ''request.json'')) (\<lambda>captured.
         try_with s (readOptionalJson V (join_path attempt_dir ''metadata.json'')) (\<lambda>metadata.
         try_with s (js_parse J captured) (\<lambda>request.
         try_with s (evaluationStateFromRequest J request) (\<lambda>state.
         if ra_parse_only a
         then try_with s (parse_only_report V attempt_dir request state (sha256Hex (rv_capture V) captured)) (\<lambda>report.
                Ok (s\<lparr>rp_output := rp_output s @ [report]\<rparr>) 0)
         else then_do (replay_send V a captured metadata request state s) (\<lambda>s ok. Ok s (if ok then 0 else 2)))))))"

definition replay_state_init :: "'j replay_state" where
  "replay_state_init = \<lparr>rp_capture = jev_capture_new \<lparr>cc_directory = [], cc_run_id = []\<rparr>, rp_posts = [], rp_output = []\<rparr>"

text \<open>\<open>main\<close>: the exit status, 1 for every exception.\<close>

definition replay_main :: "'j replay_env \<Rightarrow> string list \<Rightarrow> ('j replay_state, nat) outcome" where
  "replay_main V argv =
     (case try_with replay_state_init (parseArguments argv) (\<lambda>a. replay_run V a replay_state_init) of
        Throw s e \<Rightarrow> Ok s 1 | m \<Rightarrow> m)"

section \<open>What a replay does\<close>

text \<open>Repeated options: the last value counts, and the arguments accepted are complete.\<close>

lemma parseArguments_complete:
  "parseArguments argv = Inr a \<Longrightarrow> ra_capture a \<noteq> None \<and> ra_out a \<noteq> None \<and> ra_label a \<noteq> None \<and>
     ra_variant a \<in> {''current'', ''previous''}"
  by (auto simp: parseArguments_def bind_exn_Inr_iff split: if_splits)

lemma read_back_written: "writeBytes E path data c = Inr c' \<Longrightarrow> read_back V c' path = data"
  by (auto simp: writeBytes_def read_back_def split: write_result.splits)

text \<open>The record of a begun attempt reads back as the bytes it was given.\<close>

lemma beginAttempt_reads_back:
  "beginAttempt E m data c = (c', Some x) \<Longrightarrow> read_back V c' (join_path (cx_directory x) ''request.json'') = data"
  by (auto simp: beginAttempt_def Let_def split: if_splits sum.splits dest: read_back_written)

lemma beginAttempt_files:
  "beginAttempt E m data c = (c', Some x) \<Longrightarrow> (join_path (cx_directory x) ''request.json'', data) \<in> set (jc_files c')"
  by (auto simp: beginAttempt_def Let_def writeBytes_def split: if_splits sum.splits write_result.splits)

lemma writeBytes_files: "writeBytes E path data c = Inr c' \<Longrightarrow> set (jc_files c) \<subseteq> set (jc_files c')"
  by (auto simp: writeBytes_def split: write_result.splits)

lemma completeAttempt_files: "set (jc_files c) \<subseteq> set (jc_files (completeAttempt J E x m q r cc cm st el o' e c))"
  by (auto simp: completeAttempt_def split: option.split sum.split dest!: writeBytes_files)

lemma writeTextFile_Ok:
  "writeTextFile V path data s = Ok s' u \<Longrightarrow> set (jc_files (rp_capture s)) \<subseteq> set (jc_files (rp_capture s')) \<and> rp_posts s' = rp_posts s"
  using writeBytes_files by (fastforce simp: writeTextFile_def split: sum.splits)

lemma try_with_Ok_iff: "try_with s r f = Ok s' a \<longleftrightarrow> (\<exists>x. r = Inr x \<and> f x = Ok s' a)"
  by (cases r) simp_all

lemma await_Ok_iff: "await x f = Ok s' a \<longleftrightarrow> (\<exists>b. x = Some b \<and> f b = Ok s' a)"
  by (cases x) simp_all

lemma replay_attempt_Ok:
  assumes "replay_attempt V a label key state request m data s = Ok s' ok"
  shows "\<exists>directory p r. rp_posts s' = rp_posts s @ [p] \<and> hp_body p = fst data \<and> hp_url p = cm_endpoint m \<and>
    rv_net V = Some r \<and> ok = http_ok r \<and>
    (join_path directory ''request.json'', fst data) \<in> set (jc_files (rp_capture s'))"
proof -
  obtain sent diff su mu where data: "data = (sent, diff, su, mu)" by (cases data)
  obtain c ctx where b: "beginAttempt (rv_capture V) m sent (rp_capture s) = (c, ctx)" by fastforce
  then obtain x where x: "ctx = Some x"
    using assms by (cases ctx) (simp_all add: data replay_attempt_def)
  obtain s1 s2 where w: "writeTextFile V (join_path (cx_directory x) ''verification.json'')
        (js_dump (rv_json V) (verification_json V c x sent (cm_source_request_sha256 m) su mu) @ [CHR 0x0A]) (s\<lparr>rp_capture := c\<rparr>) = Ok s1 ()"
      "writeTextFile V (join_path (cx_directory x) ''variant-diff.json'') (js_dump (rv_json V) diff @ [CHR 0x0A]) s1 = Ok s2 ()"
    using assms by (auto simp: data replay_attempt_def b x Let_def then_do_Ok_iff)
  then obtain r st oc er where r: "rv_net V = Some r" "ok = http_ok r"
      "rp_posts s' = rp_posts s2 @ [\<lparr>hp_url = cm_endpoint m, hp_headers = replay_headers key, hp_body = sent, hp_timeout = cm_timeout_ms m\<rparr>]"
      "rp_capture s' = completeAttempt (rv_json V) (rv_capture V) ctx m sent (cr_body r) (cr_code r) (cr_message r) st (cr_elapsed r)
         oc er (rp_capture s2)"
    using assms
    by (cases "rv_net V") (auto simp: data replay_attempt_def b x Let_def then_do_Ok_iff postCapturedBytes_def try_with_Ok_iff)
  have "(join_path (cx_directory x) ''request.json'', sent) \<in> set (jc_files (rp_capture s'))"
    using beginAttempt_files[of "rv_capture V" m sent "rp_capture s" c x] b x writeTextFile_Ok[OF w(1)] writeTextFile_Ok[OF w(2)]
      completeAttempt_files[of "rp_capture s2"] unfolding r(4) by fastforce
  then show ?thesis using writeTextFile_Ok[OF w(1)] writeTextFile_Ok[OF w(2)] r(1-3) by (simp add: data) blast
qed

text \<open>The bytes that a variant sends.\<close>

definition bytes_for :: "'j replay_env \<Rightarrow> string \<Rightarrow> string \<Rightarrow> string \<Rightarrow> bool" where
  "bytes_for V variant captured sent \<longleftrightarrow>
     (if variant = ''previous''
      then \<exists>request doc. js_parse (rv_json V) captured = Inr request \<and>
             buildPreviousWordingVariant (rv_json V) request = Inr doc \<and> sent = js_dump (rv_json V) doc
      else sent = captured)"

lemma replay_bytes_for:
  "replay_bytes V variant captured request = Some (Inr data) \<Longrightarrow> js_parse (rv_json V) captured = Inr request \<Longrightarrow>
     bytes_for V variant captured (fst data)"
  by (auto simp: replay_bytes_def bytes_for_def Let_def bind_exn_Inr_iff split: if_splits sum.splits)

text \<open>C23: A replay that sends (exit status 0 or 2) posts exactly once, to the chosen endpoint, and the bytes it
  posts are those that its own record holds: the captured request unchanged, or the captured document
  with the earlier wording. The status is 0 exactly when the transfer succeeded.\<close>

theorem replay_posts_recorded_bytes:
  assumes "parseArguments argv = Inr a" "\<not> ra_parse_only a" "replay_main V argv = Ok s code" "code \<noteq> 1"
  shows "\<exists>directory p. rp_posts s = [p] \<and>
    (join_path directory ''request.json'', hp_body p) \<in> set (jc_files (rp_capture s)) \<and>
    bytes_for V (ra_variant a) (rv_files V (join_path (the (ra_capture a)) ''request.json'')) (hp_body p) \<and>
    (ra_endpoint a \<noteq> None \<longrightarrow> hp_url p = the (ra_endpoint a)) \<and>
    (\<exists>r. rv_net V = Some r \<and> code = (if http_ok r then 0 else 2))"
proof -
  let ?captured = "rv_files V (join_path (the (ra_capture a)) ''request.json'')"
  have "\<exists>s1. try_with replay_state_init (parseArguments argv) (\<lambda>a. replay_run V a replay_state_init) = Ok s1 code \<and> s1 = s"
    using assms(3,4) by (auto simp: replay_main_def split: outcome.splits)
  then have run: "replay_run V a replay_state_init = Ok s code" using assms(1) by simp
  obtain metadata request state ok where r: "js_parse (rv_json V) ?captured = Inr request"
    "replay_send V a ?captured metadata request state replay_state_init = Ok s ok" "code = (if ok then 0 else 2)"
    using run assms(2)
    by (auto simp: replay_run_def Let_def try_with_Ok_iff then_do_Ok_iff readRequiredFile_def split: if_splits)
  obtain data key endpoint model timeout run_id where d: "replay_bytes V (ra_variant a) ?captured request = Some (Inr data)"
    "option_or V (ra_endpoint a) (js_text (rv_json V)) metadata ''endpoint'' ''https://openrouter.ai/api/alpha/decisions'' = Inr endpoint"
    "replay_attempt V a (the (ra_label a)) key state request
       (replay_meta V a state endpoint model timeout (run_id @ ''/'' @ path_filename (the (ra_capture a)))
         (sha256Hex (rv_capture V) ?captured)) data
       (replay_state_init\<lparr>rp_capture := jev_capture_new \<lparr>cc_directory = the (ra_out a), cc_run_id = the (ra_label a)\<rparr>\<rparr>) = Ok s ok"
    using r(2) by (auto simp: replay_send_def Let_def try_with_Ok_iff await_Ok_iff split: if_splits option.splits)
  show ?thesis
    using replay_attempt_Ok[OF d(3)] replay_bytes_for[OF d(1) r(1)] d(2) r(3)
    by (fastforce simp: replay_state_init_def replay_meta_def option_or_def split: option.splits)
qed

section \<open>An example\<close>

definition demo_replay_env :: "doc replay_env" where
  "demo_replay_env =
     \<lparr>rv_json = doc_api\<lparr>js_parse := (\<lambda>_. Inr (Obj [(''state'', Obj [(''evaluation_id'', U64 7), (''position'', Obj [])])]))\<rparr>,
      rv_capture = demo_capture_env, rv_files = (\<lambda>path. if path = ''c/request.json'' then ''request'' else []),
      rv_key = Some ''key'', rv_net = Some \<lparr>cr_code = 0, cr_message = ''No error'', cr_status = 500, cr_body = ''busy'',
        cr_elapsed = 1, cr_started = ''t''\<rparr>, rv_now = ''t'', rv_nesting = 9\<rparr>"

definition demo_arguments :: "string list" where
  "demo_arguments = [''--capture'', ''c'', ''--out'', ''o'', ''--label'', ''l'']"

definition demo_args :: replay_args where
  "demo_args = replay_args_init\<lparr>ra_capture := Some ''c'', ra_out := Some ''o'', ra_label := Some ''l''\<rparr>"

lemma demo_arguments_parse: "parseArguments demo_arguments = Inr demo_args"
  by code_simp

lemma demo_replay_status: "\<exists>s. replay_run demo_replay_env demo_args replay_state_init = Ok s 2"
  by (simp add: replay_run_def readRequiredFile_def readOptionalJson_def evaluationStateFromRequest_def demo_replay_env_def
      demo_args_def replay_args_init_def join_path_def starts_with_def js_value_def doc_api_def Let_def replay_send_def
      replay_bytes_def option_or_def replay_attempt_def beginAttempt_def capture_enabled_def jev_capture_new_def
      demo_capture_env_def writeBytes_def writeTextFile_def postCapturedBytes_def http_ok_def decoded_none_def
      completeAttempt_def replay_report_def rawReport_def diagnostics_json_def)

lemma replay_posts_recorded_bytes_witness:
  "\<exists>s p directory. replay_main demo_replay_env demo_arguments = Ok s 2 \<and> rp_posts s = [p] \<and> hp_body p = ''request'' \<and>
     (join_path directory ''request.json'', ''request'') \<in> set (jc_files (rp_capture s))"
proof -
  obtain s where s: "replay_main demo_replay_env demo_arguments = Ok s 2"
    using demo_replay_status by (auto simp: replay_main_def demo_arguments_parse)
  have "bytes_for demo_replay_env ''current'' (rv_files demo_replay_env (join_path ''c'' ''request.json'')) b \<longleftrightarrow> b = ''request''" for b
    by (simp add: bytes_for_def demo_replay_env_def join_path_def starts_with_def)
  then show ?thesis
    using replay_posts_recorded_bytes[OF demo_arguments_parse _ s] s by (fastforce simp: demo_args_def replay_args_init_def)
qed

end
