(* ===== verification/VenueContract.thy ===== *)
theory VenueContract
  imports SimNowVenueAdapter BinanceOrders SimexRuns
begin

text \<open>
  The interface \<open>trading/venue/venue_adapter.h\<close> with its three adapters, and the contract that the main
  thread relies on. What the outside answers to a venue (connections, the state of the control when a
  wait ends, the results of the socket calls) is the record \<open>venue_io\<close>.
\<close>

section \<open>The venue behind its interface\<close>

datatype 'j venue =
    Binance_venue "'j binance_adapter"
  | SimNow_venue simnow_adapter
  | Simex_venue simex_adapter

record 'j venue_io =
  vi_json :: "'j json_api"
  vi_hmac :: hmac
  vi_depth_connected :: bool
  vi_user_connected :: bool
  vi_transport_failure :: "exn option"
  vi_ready :: simnow_control
  vi_drained :: simnow_control
  vi_sockets :: simex_sockets

fun venue_prepare :: "'j venue_io \<Rightarrow> 'j venue \<Rightarrow> ('j venue, unit) outcome" where
  "venue_prepare io (Binance_venue i) = on_part Binance_venue
     (binance_prepare (vi_json io) (vi_hmac io) (vi_depth_connected io) (vi_user_connected io) i)"
| "venue_prepare io (SimNow_venue i) = on_part SimNow_venue (adapter_prepare (vi_transport_failure io) i)"
| "venue_prepare io (Simex_venue i) = on_part Simex_venue (simex_prepare (vi_sockets io) i)"

fun venue_waitUntilReady :: "'j venue_io \<Rightarrow> 'j venue \<Rightarrow> ('j venue, unit) outcome" where
  "venue_waitUntilReady io (SimNow_venue i) = on_part SimNow_venue (adapter_waitUntilReady (vi_ready io) i)"
| "venue_waitUntilReady io v = Ok v ()"

fun venue_quiesce :: "'j venue_io \<Rightarrow> 'j venue \<Rightarrow> 'j venue" where
  "venue_quiesce io (SimNow_venue i) = SimNow_venue (adapter_quiesce (vi_drained io) i)"
| "venue_quiesce io v = v"

fun venue_stop :: "'j venue \<Rightarrow> ('j venue, unit) outcome" where
  "venue_stop (Binance_venue i) = on_part Binance_venue (binance_stop i)"
| "venue_stop (SimNow_venue i) = on_part SimNow_venue (adapter_stop i)"
| "venue_stop (Simex_venue i) = on_part Simex_venue (simex_stop i)"

fun venue_failed :: "'j venue \<Rightarrow> bool" where
  "venue_failed (SimNow_venue i) = adapter_failed i"
| "venue_failed v = False"

fun venue_running :: "'j venue \<Rightarrow> bool" where
  "venue_running (Binance_venue i) = bn_running i"
| "venue_running (SimNow_venue i) = adapter_running i"
| "venue_running (Simex_venue i) = sm_running i"

text \<open>The consumer and the gateway that the adapter was constructed with.\<close>

fun venue_market :: "'j venue \<Rightarrow> market_data_consumer option" where
  "venue_market (Binance_venue i) = bn_market i"
| "venue_market (SimNow_venue i) = Some (sa_market i)"
| "venue_market (Simex_venue i) = Some (sm_market i)"

fun venue_gateway :: "'j venue \<Rightarrow> order_gateway option" where
  "venue_gateway (Binance_venue i) = bn_gateway i"
| "venue_gateway (SimNow_venue i) = Some (sa_gateway i)"
| "venue_gateway (Simex_venue i) = Some (sm_gateway i)"

fun venue_put_market :: "market_data_consumer \<Rightarrow> 'j venue \<Rightarrow> 'j venue" where
  "venue_put_market m (Binance_venue i) = Binance_venue (i\<lparr>bn_market := Some m\<rparr>)"
| "venue_put_market m (SimNow_venue i) = SimNow_venue (i\<lparr>sa_market := m\<rparr>)"
| "venue_put_market m (Simex_venue i) = Simex_venue (i\<lparr>sm_market := m\<rparr>)"

fun venue_put_gateway :: "order_gateway \<Rightarrow> 'j venue \<Rightarrow> 'j venue" where
  "venue_put_gateway g (Binance_venue i) = Binance_venue (i\<lparr>bn_gateway := Some g\<rparr>)"
| "venue_put_gateway g (SimNow_venue i) = SimNow_venue (i\<lparr>sa_gateway := g\<rparr>)"
| "venue_put_gateway g (Simex_venue i) = Simex_venue (i\<lparr>sm_gateway := g\<rparr>)"

section \<open>The contract of an adapter\<close>

text \<open>
  What the owner relies on: quiescing does not touch the workers, and once both workers are joined the
  stop returns with the adapter not running. \<open>ok\<close> is the adapter's own invariant.
\<close>

locale venue_contract =
  fixes market :: "'v \<Rightarrow> market_data_consumer option"
    and gateway :: "'v \<Rightarrow> order_gateway option"
    and put_market :: "market_data_consumer \<Rightarrow> 'v \<Rightarrow> 'v"
    and put_gateway :: "order_gateway \<Rightarrow> 'v \<Rightarrow> 'v"
    and quiesce :: "'v \<Rightarrow> 'v"
    and stop :: "'v \<Rightarrow> ('v, unit) outcome"
    and live :: "'v \<Rightarrow> bool"
    and ok :: "'v \<Rightarrow> bool"
  assumes market_put: "market (put_market m v) = Some m" "market (put_gateway g v) = market v"
    and gateway_put: "gateway (put_gateway g v) = Some g" "gateway (put_market m v) = gateway v"
    and ok_put: "ok v \<Longrightarrow> ok (put_market m v)" "ok v \<Longrightarrow> ok (put_gateway g v)"
    and quiesced: "market (quiesce v) = market v" "gateway (quiesce v) = gateway v" "ok v \<Longrightarrow> ok (quiesce v)"
    and stopped: "ok v \<Longrightarrow> market v = Some m \<Longrightarrow> gateway v = Some g \<Longrightarrow> \<not> mc_running m \<Longrightarrow> \<not> og_running g \<Longrightarrow>
      \<exists>v'. stop v = Ok v' () \<and> market v' = Some m \<and> gateway v' = Some g \<and> \<not> live v' \<and> ok v'"
begin

text \<open>The part of the shutdown that concerns the adapter: join the consumer, quiesce, join the gateway, stop.\<close>

lemma join_and_stop:
  assumes "ok v" "market v = Some m" "gateway v = Some g"
  shows "\<exists>v'. stop (put_gateway (gateway_stop g) (quiesce (put_market (consumer_stop m) v))) = Ok v' () \<and>
    market v' = Some (consumer_stop m) \<and> gateway v' = Some (gateway_stop g) \<and> \<not> live v' \<and> ok v'"
  by (rule stopped) (simp_all add: assms ok_put quiesced market_put gateway_put consumer_stop_def gateway_stop_def)

end

text \<open>The invariant of each adapter, and the contract of all of them.\<close>

fun venue_ok :: "'j venue \<Rightarrow> bool" where
  "venue_ok (Binance_venue i) = True"
| "venue_ok (SimNow_venue i) = life_inv i"
| "venue_ok (Simex_venue i) = True"

lemma adapter_quiesce_inv: "life_inv i \<Longrightarrow> life_inv (adapter_quiesce w i)"
  by (auto simp: adapter_quiesce_def life_inv_def adapter_idle_def Let_def adapter_signal_def)

lemma adapter_quiesce_workers [simp]:
  "sa_market (adapter_quiesce w i) = sa_market i" "sa_gateway (adapter_quiesce w i) = sa_gateway i"
  by (simp_all add: adapter_quiesce_def adapter_signal_def Let_def)

lemma life_inv_put [simp]:
  "life_inv (i\<lparr>sa_market := m\<rparr>) = life_inv i" "life_inv (i\<lparr>sa_gateway := g\<rparr>) = life_inv i"
  by (simp_all add: life_inv_def adapter_idle_def)

lemma adapter_stop_joined:
  assumes "life_inv i" "\<not> mc_running (sa_market i)" "\<not> og_running (sa_gateway i)"
  shows "\<exists>i'. adapter_stop i = Ok i' () \<and> sa_market i' = sa_market i \<and> sa_gateway i' = sa_gateway i \<and>
    \<not> adapter_running i' \<and> life_inv i'"
proof (cases "sa_started i")
  case True
  then have "sa_used i" using assms(1) by (simp add: life_inv_def)
  have running: "\<not> (mc_running (sa_market i) \<or> og_running (sa_gateway i))" using assms by simp
  obtain i' where i': "adapter_stop i = Ok i' ()" "sa_market i' = sa_market i" "sa_gateway i' = sa_gateway i"
      "\<not> nc_active (sa_control i')"
    using running True by (simp add: adapter_stop_def with_execution_state)
  then show ?thesis
    using adapter_stop_Ok[OF i'(1) True \<open>sa_used i\<close>] by (auto simp: adapter_running_def)
next
  case False
  with assms show ?thesis by (simp add: adapter_stop_def adapter_running_def life_inv_def adapter_idle_def)
qed

interpretation simnow: venue_contract "\<lambda>i. Some (sa_market i)" "\<lambda>i. Some (sa_gateway i)"
    "\<lambda>m i. i\<lparr>sa_market := m\<rparr>" "\<lambda>g i. i\<lparr>sa_gateway := g\<rparr>" "adapter_quiesce w" adapter_stop adapter_running life_inv
  using adapter_stop_joined by unfold_locales (auto simp: adapter_quiesce_inv)

interpretation binance: venue_contract bn_market bn_gateway "\<lambda>m i. i\<lparr>bn_market := Some m\<rparr>"
    "\<lambda>g i. i\<lparr>bn_gateway := Some g\<rparr>" id binance_stop bn_running "\<lambda>_. True"
  by unfold_locales (auto simp: binance_stop_def worker_running_def)

interpretation simex: venue_contract "\<lambda>i. Some (sm_market i)" "\<lambda>i. Some (sm_gateway i)"
    "\<lambda>m i. i\<lparr>sm_market := m\<rparr>" "\<lambda>g i. i\<lparr>sm_gateway := g\<rparr>" id simex_stop sm_running "\<lambda>_. True"
  by unfold_locales (auto simp: simex_stop_def workers_running_def)

interpretation adapter: venue_contract venue_market venue_gateway venue_put_market venue_put_gateway
    "venue_quiesce io" venue_stop venue_running venue_ok
proof
  fix v :: "'a venue" and m g
  assume "venue_ok v" "venue_market v = Some m" "venue_gateway v = Some g" "\<not> mc_running m" "\<not> og_running g"
  then show "\<exists>v'. venue_stop v = Ok v' () \<and> venue_market v' = Some m \<and> venue_gateway v' = Some g \<and>
      \<not> venue_running v' \<and> venue_ok v'"
    using simnow.stopped binance.stopped simex.stopped by (cases v) (fastforce simp: on_part_simps)+
next
  fix v :: "'a venue" and m g
  show "venue_market (venue_put_market m v) = Some m" "venue_market (venue_put_gateway g v) = venue_market v"
    "venue_gateway (venue_put_gateway g v) = Some g" "venue_gateway (venue_put_market m v) = venue_gateway v"
    "venue_market (venue_quiesce io v) = venue_market v" "venue_gateway (venue_quiesce io v) = venue_gateway v"
    by (cases v; simp)+
  assume "venue_ok v"
  then show "venue_ok (venue_put_market m v)" "venue_ok (venue_put_gateway g v)" "venue_ok (venue_quiesce io v)"
    by (cases v; simp add: simnow.ok_put adapter_quiesce_inv)+
qed

end
