(* ===== verification/TradingMain.thy ===== *)
theory TradingMain
  imports VenueContract JevHttp LogRecords
begin

text \<open>
  \<open>trading_main.cpp\<close>: the settings, the construction of the components, and the main thread from the start
  of the components to their shutdown. The main thread runs beside the workers: \<open>others n\<close> is what all
  other threads and the signal handler do before its step \<open>n\<close>. The two ends of a queue are in the records
  of its two components; an adapter holds its consumer and its gateway; the measurement is the one that
  the engine holds. The output to the console is not modelled.
\<close>

section \<open>Settings\<close>

record main_settings =
  ms_client_id :: client_id
  ms_ticker_id :: ticker_id
  ms_interval_ms :: "32 word"
  ms_order_qty :: qty
  ms_queue_capacity :: "32 word"
  ms_log_directory :: string
  ms_verbose :: bool
  ms_venue :: string
  ms_run_seconds :: int
  ms_performance :: "(measurement \<times> callgrind_profiler option) option"
  ms_perf_directory :: string
  ms_limits :: risk_limits

definition readJson :: "'j json_api \<Rightarrow> string \<Rightarrow> string option \<Rightarrow> exn + 'j" where
  "readJson J path file =
     (case file of None \<Rightarrow> Inl (Runtime_error (''Cannot open config file: '' @ path)) | Some text \<Rightarrow> js_parse J text)"

definition js_section :: "'j json_api \<Rightarrow> 'j \<Rightarrow> string \<Rightarrow> exn + 'j" where
  "js_section J document key = js_value J Inr document key (js_object J [])"

definition within_bound :: "64 word \<Rightarrow> int \<Rightarrow> bool" where
  "within_bound w bound \<longleftrightarrow> 0 < sint w \<and> sint w \<le> bound"

definition performance_settings :: "'j json_api \<Rightarrow> 'j \<Rightarrow> bool \<Rightarrow> exn + (measurement \<times> callgrind_profiler option) option" where
  "performance_settings J perf simnow =
     bind_exn (js_value J (js_boolean J) perf ''enabled'' False) (\<lambda>enabled.
     if \<not> enabled then Inr None
     else if \<not> simnow then Inl (Runtime_error ''Performance capture requires SimNow'')
     else
       bind_exn (js_value J (js_i64 J) perf ''window_seconds'' 300) (\<lambda>seconds.
       bind_exn (js_value J (js_i64 J) perf ''grace_seconds'' 120) (\<lambda>grace.
       bind_exn (js_value J (js_i64 J) perf ''capacity'' 10000) (\<lambda>capacity.
       if \<not> within_bound seconds 86400 \<or> \<not> within_bound grace 86400 \<or> \<not> within_bound capacity 1000000
       then Inl (Runtime_error ''Invalid performance capture bounds'')
       else
         bind_exn (js_value J (js_text J) perf ''mode'' ''native'') (\<lambda>mode.
         if mode \<noteq> ''native'' \<and> mode \<noteq> ''callgrind'' then Inl (Runtime_error ''Unknown performance mode'')
         else
           bind_exn (measurement_new (unat capacity) (seconds * 1000000000) (grace * 1000000000)) (\<lambda>m.
           if mode = ''callgrind''
           then bind_exn (callgrind_new (seconds * 1000000000)) (\<lambda>p. Inr (Some (m, Some p)))
           else Inr (Some (m, None))))))))"

definition runtime_invalid :: "main_settings \<Rightarrow> bool" where
  "runtime_invalid c \<longleftrightarrow>
     unat (ms_ticker_id c) \<ge> ME_MAX_TICKERS \<or> ms_queue_capacity c = 0 \<or> ms_client_id c = ClientId_INVALID \<or>
     ms_run_seconds c < 0 \<or> ms_venue c = ''simex'' \<and> (ms_interval_ms c = 0 \<or> ms_run_seconds c > 86400)"

definition simnow_limits_invalid :: "main_settings \<Rightarrow> bool" where
  "simnow_limits_invalid c \<longleftrightarrow>
     ms_order_qty c \<noteq> 1 \<or> rl_max_order_size (ms_limits c) \<noteq> 1 \<or> rl_max_position (ms_limits c) \<noteq> 1 \<or>
     rl_max_loss (ms_limits c) \<noteq> 0 \<or> ms_interval_ms c = 0"

definition risk_limits_of :: "'j json_api \<Rightarrow> 'j \<Rightarrow> exn + risk_limits" where
  "risk_limits_of J risk =
     bind_exn (js_value J (js_unsigned J) risk ''max_order_size'' Qty_INVALID) (\<lambda>order_size.
     bind_exn (js_value J (js_unsigned J) risk ''max_position'' Qty_INVALID) (\<lambda>position.
     bind_exn (js_value J (js_f64 J) risk ''max_loss'' 0) (\<lambda>loss.
     Inr \<lparr>rl_max_order_size = order_size, rl_max_position = position, rl_max_loss = loss\<rparr>)))"

definition main_settings_of :: "'j json_api \<Rightarrow> 'j \<Rightarrow> exn + main_settings" where
  "main_settings_of J document =
     bind_exn (js_section J document ''runtime'') (\<lambda>runtime.
     bind_exn (js_section J document ''risk'') (\<lambda>risk.
     bind_exn (js_section J runtime ''instrument'') (\<lambda>instrument.
     bind_exn (js_value J (js_unsigned J) runtime ''client_id'' 1) (\<lambda>client.
     bind_exn (js_value J (js_unsigned J) instrument ''ticker_id'' 0) (\<lambda>ticker.
     bind_exn (js_value J (js_unsigned J) runtime ''evaluation_interval_ms'' 2000) (\<lambda>interval.
     bind_exn (js_value J (js_unsigned J) runtime ''decision_order_quantity'' 1) (\<lambda>qty.
     bind_exn (js_value J (js_unsigned J) runtime ''queue_capacity'' 1024) (\<lambda>capacity.
     bind_exn (js_section J document ''logging'') (\<lambda>logging.
     bind_exn (js_value J (js_text J) logging ''output_directory'' ''logs'') (\<lambda>log_directory.
     bind_exn (js_value J (js_boolean J) logging ''verbose_market_data'' False) (\<lambda>verbose.
     bind_exn (js_section J document ''venue'') (\<lambda>venue.
     bind_exn (js_value J (js_text J) venue ''type'' ''binance'') (\<lambda>type.
     bind_exn (js_value J (js_int J) runtime ''run_seconds'' 0) (\<lambda>run_seconds.
     bind_exn (js_section J document ''performance'') (\<lambda>perf.
     bind_exn (js_value J (js_text J) perf ''output_directory'' ''performance-run'') (\<lambda>perf_directory.
     bind_exn (performance_settings J perf (type = ''simnow'')) (\<lambda>performance.
     let c = \<lparr>ms_client_id = client, ms_ticker_id = ticker, ms_interval_ms = interval, ms_order_qty = qty,
              ms_queue_capacity = capacity, ms_log_directory = log_directory, ms_verbose = verbose, ms_venue = type,
              ms_run_seconds = run_seconds, ms_performance = performance, ms_perf_directory = perf_directory,
              ms_limits = defaultRiskLimits\<rparr>
     in if runtime_invalid c then Inl (Runtime_error ''Invalid runtime instrument or queue capacity'')
        else bind_exn (risk_limits_of J risk) (\<lambda>limits.
          let c = c\<lparr>ms_limits := limits\<rparr>
          in if ms_venue c = ''simnow'' \<and> simnow_limits_invalid c
             then Inl (Runtime_error
               ''SimNow v1 requires one-contract limits, no monetary stop, and a positive evaluation interval'')
             else Inr c))))))))))))))))))"

section \<open>The components\<close>

record 'j trading =
  td_settings :: main_settings
  td_logger :: async_logger
  td_engine :: trade_engine
  td_engine_running :: bool
  td_client :: jev_http
  td_worker :: jev_worker
  td_venue :: "'j venue"
  td_profiler :: "callgrind_profiler option"
  td_stopping :: bool
  td_tick :: nat

text \<open>
  What the construction finds outside: the configuration files, which log files open, the clocks, the
  environment of the venues and the transport of SimNow.
\<close>

record 'j main_env =
  me_json :: "'j json_api"
  me_dotenv :: "string list option"
  me_config_path :: string
  me_config :: "string option"
  me_opens :: "string \<Rightarrow> bool"
  me_steady :: "nat \<Rightarrow> nat"
  me_clock :: "nat \<Rightarrow> 64 word"
  me_now :: string
  me_environment :: "string \<Rightarrow> string option"
  me_web :: web
  me_transport :: "transport option"
  me_blank_event :: ctp_event
  me_with_simnow :: bool
  me_with_simex :: bool

definition register :: "'j main_env \<Rightarrow> main_settings \<Rightarrow> string \<Rightarrow> string \<Rightarrow> async_logger \<Rightarrow> exn + async_logger" where
  "register E c component file l =
     (let path = join_path (ms_log_directory c) file
      in case registerProducer component (me_opens E path) path l of
           Ok l _ \<Rightarrow> Inr l | Throw _ e \<Rightarrow> Inl e | _ \<Rightarrow> Inl (Runtime_error ''no outcome''))"

definition returned :: "('s, unit) outcome \<Rightarrow> exn + 's" where
  "returned m = (case m of Ok s _ \<Rightarrow> Inr s | Throw _ e \<Rightarrow> Inl e | _ \<Rightarrow> Inl (Runtime_error ''no outcome''))"

text \<open>The settings of the engine before it starts; the callbacks only observe.\<close>

definition engine_settings :: "main_settings \<Rightarrow> jev_evaluation_state lf_queue \<Rightarrow> trade_engine \<Rightarrow> exn + trade_engine" where
  "engine_settings c evaluations s =
     (let s = setMeasurement (map_option fst (ms_performance c)) s; simnow = (ms_venue c = ''simnow'')
      in bind_exn (returned (setDecisionOrderQuantity (ms_order_qty c) s)) (\<lambda>s.
         let s = (if simnow then enableSingleOrderVenue s else s);
             s = (if ms_venue c = ''simex'' \<or> simnow
                  then setAccountState \<lparr>ac_available_margin = NaN, ac_used_margin = NaN, ac_equity = NaN\<rparr>
                         (enableSimexConstraints s)
                  else s)
         in returned (attachJevEvaluationQueue (Some evaluations) (int (unat (ms_interval_ms c))) (ms_ticker_id c) s)))"

definition make_venue :: "'j main_env \<Rightarrow> main_settings \<Rightarrow> 'j \<Rightarrow> market_data_consumer \<Rightarrow> order_gateway \<Rightarrow> async_logger \<Rightarrow>
    exn + 'j venue \<times> async_logger" where
  "make_venue E c venue_json m g l =
     (if ms_venue c = ''binance'' then
        bind_exn (loadConfigFromEnv ''.env'' (me_dotenv E) (ms_ticker_id c)) (\<lambda>config.
        bind_exn (register E c ''Venue'' (''venue-'' @ show_u (ms_ticker_id c) @ ''.log'') l) (\<lambda>l.
        Inr (Binance_venue (binance_adapter_new (me_json E) (Some m) (Some g) config (me_web E)), l)))
      else if ms_venue c = ''simnow'' then
        if \<not> me_with_simnow E then Inl (Runtime_error ''SimNow support was disabled at build time'')
        else
          bind_exn (simnow_fromJson (me_json E) (me_environment E) (case me_dotenv E of None \<Rightarrow> [] | Some ls \<Rightarrow> ls)
            venue_json (ms_ticker_id c)) (\<lambda>config.
          bind_exn (simnow_adapter_new (Some m) (Some g) config True (me_transport E) (me_clock E) (me_blank_event E)) (\<lambda>i.
          Inr (SimNow_venue i, l)))
      else if ms_venue c = ''simex'' then
        if \<not> me_with_simex E then Inl (Runtime_error ''Simex support was disabled at build time'')
        else
          bind_exn (simex_fromJson (me_json E) venue_json (ms_ticker_id c)) (\<lambda>config.
          bind_exn (simex_adapter_new (Some m) (Some g) config (\<lambda>n. int (me_steady E n))) (\<lambda>i. Inr (Simex_venue i, l)))
      else Inl (Runtime_error ''Unknown venue type''))"

definition make_trading :: "'j main_env \<Rightarrow> main_settings \<Rightarrow> 'j \<Rightarrow> exn + 'j trading" where
  "make_trading E c venue_json =
     (let n = unat (ms_queue_capacity c); client = show_u (ms_client_id c)
      in bind_exn (async_logger_new n 1) (\<lambda>l.
         bind_exn (lf_queue_new client_request_init n) (\<lambda>requests.
         bind_exn (lf_queue_new client_response_init n) (\<lambda>responses.
         bind_exn (lf_queue_new market_update_init n) (\<lambda>updates.
         bind_exn (lf_queue_new jev_evaluation_init n) (\<lambda>evaluations.
         bind_exn (lf_queue_new jev_decision_init n) (\<lambda>decisions.
         bind_exn (register E c ''TradeEngine'' (''trade-engine-'' @ client @ ''.log'') l) (\<lambda>l.
         bind_exn (trade_engine_new (ms_client_id c) (ms_limits c) (Some requests) (Some responses) (Some updates)
           (Some decisions) (me_steady E)) (\<lambda>engine.
         bind_exn (engine_settings c evaluations engine) (\<lambda>engine.
         bind_exn (register E c ''MarketData'' (''market-data-'' @ client @ ''.log'') l) (\<lambda>l.
         let m = market_data_consumer_new (ms_client_id c) (Some updates) (me_clock E)
         in bind_exn (register E c ''OrderGateway'' (''order-gateway-'' @ client @ ''.log'') l) (\<lambda>l.
         let g = order_gateway_new (ms_client_id c) (Some requests) (Some responses) (me_clock E)
         in bind_exn (make_venue E c venue_json m g l) (\<lambda>(venue, l).
         bind_exn (loadJevHttpConfig (me_json E) ''.env'' (me_dotenv E) (me_config_path E) (me_config E)) (\<lambda>config.
         bind_exn (register E c ''JevWorker'' ''jev-worker.log'' l) (\<lambda>l.
         Inr \<lparr>td_settings = c, td_logger = l, td_engine = engine, td_engine_running = False,
              td_client = jev_http_new (me_now E) config, td_worker = jev_worker_new (Some evaluations) (Some decisions),
              td_venue = venue, td_profiler = Option.bind (ms_performance c) snd, td_stopping = False,
              td_tick = 0\<rparr>)))))))))))))))"

text \<open>The engine that the main program starts is at the beginning of its life.\<close>

lemma returned_Inr: "returned m = Inr s \<longleftrightarrow> m = Ok s ()"
  by (cases m) (simp_all add: returned_def)

lemma attached_evaluations: "attachJevEvaluationQueue (Some q) interval t s = Ok s' () \<Longrightarrow> te_evaluations s' = Some q"
  by (auto simp: attachJevEvaluationQueue_def read_clock_def split: if_splits)

lemma main_engine_runs:
  assumes "make_trading E c venue_json = Inr s"
  shows "engine_run (ms_client_id c) [] (td_engine s) \<and>
    (\<exists>q. te_evaluations (td_engine s) = Some q \<and> lq_content q = [])"
proof -
  obtain requests responses updates evaluations decisions engine where
    q: "lf_queue_new client_request_init (unat (ms_queue_capacity c)) = Inr requests"
    "lf_queue_new client_response_init (unat (ms_queue_capacity c)) = Inr responses"
    "lf_queue_new market_update_init (unat (ms_queue_capacity c)) = Inr updates"
    "lf_queue_new jev_evaluation_init (unat (ms_queue_capacity c)) = Inr evaluations"
    "lf_queue_new jev_decision_init (unat (ms_queue_capacity c)) = Inr decisions"
    and new: "trade_engine_new (ms_client_id c) (ms_limits c) (Some requests) (Some responses) (Some updates)
           (Some decisions) (me_steady E) = Inr engine"
    and settings: "engine_settings c evaluations engine = Inr (td_engine s)"
    using assms by (auto simp: make_trading_def bind_exn_Inr_iff Let_def)
  have run: "engine_run (ms_client_id c) [] engine"
    by (rule engine_run.created[OF new]) (use lq_new_inv[OF q(1)] lq_new_inv[OF q(2)] lq_new_inv[OF q(3)] lq_new_inv[OF q(5)] in simp_all)
  define s1 where "s1 = setMeasurement (map_option fst (ms_performance c)) engine"
  have 1: "engine_run (ms_client_id c) [] s1" unfolding s1_def by (rule engine_run.measured[OF run])
  obtain s2 where 2: "setDecisionOrderQuantity (ms_order_qty c) s1 = Ok s2 ()"
    using settings by (auto simp: engine_settings_def bind_exn_Inr_iff returned_Inr s1_def Let_def)
  note run2 = engine_run.quantity[OF 1 2]
  define s3 where "s3 = (if ms_venue c = ''simnow'' then enableSingleOrderVenue s2 else s2)"
  have 3: "engine_run (ms_client_id c) [] s3" using run2 engine_run.single_order[OF run2] by (simp add: s3_def)
  define s4 where "s4 = (if ms_venue c = ''simex'' \<or> ms_venue c = ''simnow''
                  then setAccountState \<lparr>ac_available_margin = NaN, ac_used_margin = NaN, ac_equity = NaN\<rparr>
                         (enableSimexConstraints s3)
                  else s3)"
  have 4: "engine_run (ms_client_id c) [] s4" using 3 engine_run.account[OF engine_run.simex[OF 3]] by (simp add: s4_def)
  have a: "attachJevEvaluationQueue (Some evaluations) (int (unat (ms_interval_ms c))) (ms_ticker_id c) s4 = Ok (td_engine s) ()"
    using settings 2 by (simp add: engine_settings_def s1_def s3_def s4_def Let_def bind_exn_Inr_iff returned_Inr split: if_splits)
  have "lq_inv evaluations" "lq_content evaluations = []" using lq_new_inv[OF q(4)] by simp_all
  moreover have "te_evaluations (td_engine s) = Some evaluations"
    by (rule attached_evaluations[OF a])
  ultimately show ?thesis using engine_run.attached[OF 4 _ a] by blast
qed

section \<open>The steps of the main thread\<close>

text \<open>\<open>onSignal\<close>: the first signal asks for the end, a second one restores the default action and raises.\<close>

definition onSignal :: "'j trading \<Rightarrow> ('j trading, unit) outcome" where
  "onSignal s = (if td_stopping s then Abort ''signal'' else Ok (s\<lparr>td_stopping := True\<rparr>) ())"

definition put_venue :: "'j trading \<Rightarrow> 'j venue \<Rightarrow> 'j trading" where
  "put_venue s v = s\<lparr>td_venue := v\<rparr>"

definition put_measured :: "'j trading \<Rightarrow> measurement \<Rightarrow> 'j trading" where
  "put_measured s m = s\<lparr>td_engine := setMeasurement (Some m) (td_engine s)\<rparr>"

definition start_logger :: "'j trading \<Rightarrow> ('j trading, unit) outcome" where
  "start_logger s = on_part (\<lambda>l. s\<lparr>td_logger := l\<rparr>) (logger_start (td_logger s))"

definition start_worker :: "'j trading \<Rightarrow> ('j trading, unit) outcome" where
  "start_worker s = Ok (s\<lparr>td_worker := fst (worker_start (td_worker s))\<rparr>) ()"

definition start_engine :: "'j trading \<Rightarrow> ('j trading, unit) outcome" where
  "start_engine s = Ok (s\<lparr>td_engine_running := True\<rparr>) ()"

definition start_market :: "'j trading \<Rightarrow> ('j trading, unit) outcome" where
  "start_market s = deref (venue_market (td_venue s)) (\<lambda>m.
     on_part (\<lambda>m. put_venue s (venue_put_market m (td_venue s))) (consumer_start m))"

definition start_gateway :: "'j trading \<Rightarrow> ('j trading, unit) outcome" where
  "start_gateway s = deref (venue_gateway (td_venue s)) (\<lambda>g.
     Ok (put_venue s (venue_put_gateway (fst (gateway_start g)) (td_venue s))) ())"

text \<open>One reading of the clock arms both captures.\<close>

definition arm_capture :: "(nat \<Rightarrow> 64 word) \<Rightarrow> 'j trading \<Rightarrow> ('j trading, unit) outcome" where
  "arm_capture clock s =
     (let now = clock (td_tick s)
      in then_do (case te_measurement (td_engine s) of
                    None \<Rightarrow> Ok s () | Some m \<Rightarrow> on_part (put_measured s) (startCapture now m)) (\<lambda>s _.
         case td_profiler s of
           None \<Rightarrow> Ok s ()
         | Some p \<Rightarrow> on_part (\<lambda>p. s\<lparr>td_profiler := Some p\<rparr>) (callgrind_startCapture now p)))"

definition startup :: "'j venue_io \<Rightarrow> (nat \<Rightarrow> 64 word) \<Rightarrow> ('j trading \<Rightarrow> ('j trading, unit) outcome) list" where
  "startup io clock =
     [start_logger,
      \<lambda>s. on_part (put_venue s) (venue_prepare io (td_venue s)),
      start_worker, start_engine, start_market, start_gateway,
      \<lambda>s. on_part (put_venue s) (venue_waitUntilReady io (td_venue s)),
      arm_capture clock]"

definition stop_market :: "'j trading \<Rightarrow> ('j trading, unit) outcome" where
  "stop_market s = deref (venue_market (td_venue s)) (\<lambda>m.
     Ok (put_venue s (venue_put_market (consumer_stop m) (td_venue s))) ())"

definition stop_gateway :: "'j trading \<Rightarrow> ('j trading, unit) outcome" where
  "stop_gateway s = deref (venue_gateway (td_venue s)) (\<lambda>g.
     Ok (put_venue s (venue_put_gateway (gateway_stop g) (td_venue s))) ())"

definition shutdown :: "'j venue_io \<Rightarrow> (nat \<Rightarrow> 64 word) \<Rightarrow> ('j trading \<Rightarrow> ('j trading, unit) outcome) list" where
  "shutdown io clock =
     [\<lambda>s. Ok (case te_measurement (td_engine s) of
                None \<Rightarrow> s | Some m \<Rightarrow> put_measured s (stopCapture (clock (td_tick s)) m)) (),
      \<lambda>s. Ok (if ms_venue (td_settings s) = ''simnow'' then s\<lparr>td_engine := disableVenueTrading (td_engine s)\<rparr> else s) (),
      stop_market,
      \<lambda>s. Ok (put_venue s (venue_quiesce io (td_venue s))) (),
      stop_gateway,
      \<lambda>s. on_part (put_venue s) (venue_stop (td_venue s)),
      \<lambda>s. Ok (s\<lparr>td_engine_running := False\<rparr>) (),
      \<lambda>s. Ok (s\<lparr>td_worker := worker_stop (td_worker s)\<rparr>) (),
      \<lambda>s. on_part (\<lambda>l. s\<lparr>td_logger := l\<rparr>) (logger_stop (td_logger s)),
      \<lambda>s. Ok (s\<lparr>td_profiler := map_option (callgrind_stopCapture (clock (td_tick s))) (td_profiler s)\<rparr>) ()]"

text \<open>Before each step of the main thread the others have run.\<close>

definition others_run :: "(nat \<Rightarrow> 'j trading \<Rightarrow> 'j trading) \<Rightarrow> 'j trading \<Rightarrow> 'j trading" where
  "others_run others s = (others (td_tick s) s)\<lparr>td_tick := td_tick s + 1\<rparr>"

primrec main_steps :: "(nat \<Rightarrow> 'j trading \<Rightarrow> 'j trading) \<Rightarrow> ('j trading \<Rightarrow> ('j trading, unit) outcome) list \<Rightarrow>
    'j trading \<Rightarrow> ('j trading, unit) outcome" where
  "main_steps others [] s = Ok s ()"
| "main_steps others (a # as) s = then_do (a (others_run others s)) (\<lambda>s _. main_steps others as s)"

text \<open>
  The loop that waits for the end: \<open>None\<close> when it never comes. The clock is in nanoseconds; each round
  sleeps, during which the others run.
\<close>

definition keeps_running :: "(nat \<Rightarrow> 64 word) \<Rightarrow> 64 word \<Rightarrow> 'j trading \<Rightarrow> bool" where
  "keeps_running clock started_at s \<longleftrightarrow>
     \<not> td_stopping s \<and> venue_running (td_venue s) \<and>
     (ms_run_seconds (td_settings s) = 0 \<or>
      int (unat (clock (td_tick s))) - int (unat started_at) < ms_run_seconds (td_settings s) * 1000000000)"

partial_function (option) supervise :: "(nat \<Rightarrow> 'j trading \<Rightarrow> 'j trading) \<Rightarrow> (nat \<Rightarrow> 64 word) \<Rightarrow> 64 word \<Rightarrow>
    'j trading \<Rightarrow> 'j trading option" where
  "supervise others clock started_at s =
     (if keeps_running clock started_at s then supervise others clock started_at (others_run others s) else Some s)"

text \<open>The \<open>try\<close> of \<open>main\<close>: whatever the startup throws, the components are shut down before it goes on.\<close>

definition run_components :: "'j venue_io \<Rightarrow> (nat \<Rightarrow> 'j trading \<Rightarrow> 'j trading) \<Rightarrow> (nat \<Rightarrow> 64 word) \<Rightarrow> 'j trading \<Rightarrow>
    ('j trading, unit) outcome" where
  "run_components io others clock s =
     (case main_steps others (startup io clock) s of
        Ok s _ \<Rightarrow> await (supervise others clock (clock (td_tick s)) s) (main_steps others (shutdown io clock))
      | Throw s e \<Rightarrow> then_do (main_steps others (shutdown io clock) s) (\<lambda>s _. Throw s e)
      | Abort m \<Rightarrow> Abort m | Hang \<Rightarrow> Hang | Undef \<Rightarrow> Undef)"

text \<open>The end of \<open>main\<close>: the export of the measurement, then the exit status.\<close>

definition finish_main :: "(main_settings \<Rightarrow> bool \<Rightarrow> 64 word \<Rightarrow> measurement \<Rightarrow> exn + unit) \<Rightarrow> 'j trading \<Rightarrow> ('j trading, nat) outcome" where
  "finish_main export s =
     (case (case te_measurement (td_engine s) of
              None \<Rightarrow> Inr ()
            | Some m \<Rightarrow> export (td_settings s) (\<not> venue_failed (td_venue s)) (jw_failure_count (td_worker s)) m) of
        Inl e \<Rightarrow> Throw s e
      | Inr _ \<Rightarrow> Ok s (if venue_failed (td_venue s) then 1 else 0))"

definition main_after_construction :: "'j venue_io \<Rightarrow> (nat \<Rightarrow> 'j trading \<Rightarrow> 'j trading) \<Rightarrow> (nat \<Rightarrow> 64 word) \<Rightarrow>
    (main_settings \<Rightarrow> bool \<Rightarrow> 64 word \<Rightarrow> measurement \<Rightarrow> exn + unit) \<Rightarrow> 'j trading \<Rightarrow> ('j trading, nat) outcome" where
  "main_after_construction io others clock export s =
     (case then_do (run_components io others clock s) (\<lambda>s _. finish_main export s) of
        Throw s e \<Rightarrow> Ok s 1 | m \<Rightarrow> m)"

definition construct_main :: "'j main_env \<Rightarrow> exn + 'j trading" where
  "construct_main E =
     bind_exn (readJson (me_json E) (me_config_path E) (me_config E)) (\<lambda>document.
     bind_exn (main_settings_of (me_json E) document) (\<lambda>c.
     bind_exn (js_section (me_json E) document ''venue'') (\<lambda>venue_json. make_trading E c venue_json)))"

section \<open>What survives an exception\<close>

text \<open>The state after a call that returns or throws.\<close>

definition leaves :: "('s \<Rightarrow> bool) \<Rightarrow> ('s, 'a) outcome \<Rightarrow> bool" where
  "leaves P m \<longleftrightarrow> (case m of Ok s _ \<Rightarrow> P s | Throw s _ \<Rightarrow> P s | _ \<Rightarrow> True)"

lemma leaves_simps [simp]:
  "leaves P (Ok s a) = P s" "leaves P (Throw s e) = P s" "leaves P (Abort m)" "leaves P Hang" "leaves P Undef"
  by (simp_all add: leaves_def)

lemma leaves_then_do: "leaves P m \<Longrightarrow> (\<And>s a. P s \<Longrightarrow> leaves P (f s a)) \<Longrightarrow> leaves P (then_do m f)"
  by (cases m) simp_all

lemma leaves_on_part: "leaves (\<lambda>p. P (f p)) m \<Longrightarrow> leaves P (on_part f m)"
  by (cases m) simp_all

lemma leaves_any: "(\<And>p. P p) \<Longrightarrow> leaves P m"
  by (cases m) simp_all

lemma leaves_deref: "(\<And>x. m = Some x \<Longrightarrow> leaves P (f x)) \<Longrightarrow> leaves P (deref m f)"
  by (cases m) simp_all

definition has_workers :: "'j binance_adapter \<Rightarrow> bool" where
  "has_workers i \<longleftrightarrow> bn_market i \<noteq> None \<and> bn_gateway i \<noteq> None"

lemma leaves_on_web: "has_workers i \<Longrightarrow> leaves has_workers (on_web i m)"
  by (cases m) (simp_all add: on_web_def has_workers_def)

lemma leaves_book: "has_workers i \<Longrightarrow> leaves has_workers (on_part (\<lambda>b. i\<lparr>bn_book := b\<rparr>) m)"
  by (cases m) (simp_all add: has_workers_def)

lemma binance_prepare_workers: "has_workers i \<Longrightarrow> leaves has_workers (binance_prepare J hmac d u i)"
proof -
  have upd: "has_workers i \<Longrightarrow> has_workers (i\<lparr>bn_offset := off\<rparr>)" "has_workers i \<Longrightarrow> has_workers (i\<lparr>bn_depth_stream := x\<rparr>)"
    "has_workers i \<Longrightarrow> has_workers (i\<lparr>bn_snapshot_pending := x\<rparr>)" "has_workers i \<Longrightarrow> has_workers (i\<lparr>bn_book := bk\<rparr>)"
    "has_workers i \<Longrightarrow> has_workers (i\<lparr>bn_listen_key := key, bn_user_stream := x\<rparr>)"
    "has_workers i \<Longrightarrow> has_workers (i\<lparr>bn_keepalive_running := x, bn_request_handler := x, bn_order_poll := x,
       bn_market_poll := x, bn_running := x\<rparr>)"
    "has_workers i \<Longrightarrow> has_workers (i\<lparr>bn_used := x, bn_lifecycle_started := x\<rparr>)" for i :: "'a binance_adapter" and off x bk key
    by (simp_all add: has_workers_def)
  have depth: "leaves has_workers (prepare_depth J hmac d i)" if "has_workers i" for i
    unfolding prepare_depth_def Let_def
    by (intro leaves_then_do leaves_on_web that) (auto intro!: leaves_then_do leaves_on_web leaves_book upd)
  have user: "leaves has_workers (prepare_user J u i)" if "has_workers i" for i
    unfolding prepare_user_def Let_def by (intro leaves_then_do leaves_on_web that) (auto intro!: upd)
  assume "has_workers i"
  then show ?thesis
    unfolding binance_prepare_def Let_def by (auto intro!: leaves_then_do depth user upd)
qed

lemma failed_prepare_inv:
  "sa_started j \<Longrightarrow> sa_used j \<Longrightarrow> \<not> mc_running (sa_market j) \<Longrightarrow> \<not> og_running (sa_gateway j) \<Longrightarrow>
     leaves life_inv (then_do (adapter_stop j) (\<lambda>i _. Throw i e))"
  using adapter_stop_joined[OF started_inv] by fastforce

lemma adapter_prepare_inv: "life_inv i \<Longrightarrow> leaves life_inv (adapter_prepare failed i)"
  unfolding adapter_prepare_def Let_def by (cases failed) (auto intro!: started_inv failed_prepare_inv)

lemma adapter_wait_inv: "life_inv i \<Longrightarrow> leaves life_inv (adapter_waitUntilReady w i)"
  by (auto simp: adapter_waitUntilReady_def Let_def adapter_signal_def intro!: started_inv) (simp_all add: life_inv_def)

lemma simex_prepare_any: "leaves (\<lambda>_. True) m"
  by (rule leaves_any) simp

section \<open>The main thread always joins what it started\<close>

datatype part = Market | Gateway | Venue | Engine | Worker | Logger

fun part_runs :: "part \<Rightarrow> 'j trading \<Rightarrow> bool" where
  "part_runs Market s = (case venue_market (td_venue s) of None \<Rightarrow> False | Some m \<Rightarrow> mc_running m)"
| "part_runs Gateway s = (case venue_gateway (td_venue s) of None \<Rightarrow> False | Some g \<Rightarrow> og_running g)"
| "part_runs Venue s = venue_running (td_venue s)"
| "part_runs Engine s = td_engine_running s"
| "part_runs Worker s = jw_running (td_worker s)"
| "part_runs Logger s = (al_started (td_logger s) \<or> al_running (td_logger s))"

definition logger_ok :: "async_logger \<Rightarrow> bool" where
  "logger_ok l \<longleftrightarrow> list_all producer_ok (al_producers l) \<and> (al_stopped l \<longrightarrow> \<not> al_started l) \<and> (al_running l \<longrightarrow> al_started l)"

definition venue_attached :: "'j venue \<Rightarrow> bool" where
  "venue_attached v \<longleftrightarrow> venue_ok v \<and> venue_market v \<noteq> None \<and> venue_gateway v \<noteq> None"

definition trading_ok :: "'j trading \<Rightarrow> bool" where
  "trading_ok s \<longleftrightarrow> logger_ok (td_logger s) \<and> venue_attached (td_venue s)"

text \<open>
  What the other threads never do: they start no component, and a venue does not become active
  once neither of its workers runs.
\<close>

definition others_ok :: "(nat \<Rightarrow> 'j trading \<Rightarrow> 'j trading) \<Rightarrow> bool" where
  "others_ok others \<longleftrightarrow>
     (\<forall>n s. trading_ok s \<longrightarrow> trading_ok (others n s) \<and>
        (\<forall>p. \<not> part_runs p s \<and> (p = Venue \<longrightarrow> \<not> part_runs Market s \<and> \<not> part_runs Gateway s) \<longrightarrow>
             \<not> part_runs p (others n s)))"

definition down :: "part set \<Rightarrow> 'j trading \<Rightarrow> bool" where
  "down A s \<longleftrightarrow> trading_ok s \<and> (\<forall>p\<in>A. \<not> part_runs p s)"

definition joined_first :: "part set \<Rightarrow> bool" where
  "joined_first A \<longleftrightarrow> (Venue \<in> A \<longrightarrow> Market \<in> A \<and> Gateway \<in> A)"

lemma part_runs_tick [simp]: "part_runs p (s\<lparr>td_tick := n\<rparr>) = part_runs p s"
  by (cases p) simp_all

lemma others_keep_down: "others_ok others \<Longrightarrow> joined_first A \<Longrightarrow> down A s \<Longrightarrow> down A (others_run others s)"
proof -
  assume *: "others_ok others" "joined_first A" "down A s"
  then have ok: "trading_ok (others (td_tick s) s)" and
    off: "\<not> part_runs p (others (td_tick s) s)" if "p \<in> A" for p
    using that unfolding others_ok_def down_def joined_first_def by blast+
  have "trading_ok (others (td_tick s) s)" using * unfolding others_ok_def down_def by blast
  then show ?thesis using off by (simp add: down_def others_run_def trading_ok_def)
qed

lemma step_down:
  assumes "others_ok others" "joined_first A" "down A s"
    and "\<And>s. down A s \<Longrightarrow> \<exists>s'. a s = Ok s' () \<and> down B s'"
    and "\<And>s. down B s \<Longrightarrow> \<exists>s'. main_steps others as s = Ok s' () \<and> Q s'"
  shows "\<exists>s'. main_steps others (a # as) s = Ok s' () \<and> Q s'"
  using assms(4)[OF others_keep_down[OF assms(1-3)]] assms(5) by force

text \<open>Stopping the logger ends in every state of it.\<close>

lemma logger_stop_down:
  assumes "logger_ok l"
  shows "\<exists>l'. logger_stop l = Ok l' () \<and> logger_ok l' \<and> \<not> al_started l' \<and> \<not> al_running l'"
proof (cases "al_started l \<and> \<not> al_stopped l")
  case True
  then obtain qs where "logger_stop l = Ok (l\<lparr>al_stopped := True, al_running := False,
      al_producers := map (\<lambda>p. p\<lparr>pd_open := False\<rparr>) qs, al_started := False\<rparr>) ()" "all_printed (al_producers l) qs"
    using logger_stop_prints[of l] assms by (auto simp: logger_ok_def)
  moreover from this(2) have "list_all producer_ok (map (\<lambda>p. p\<lparr>pd_open := False\<rparr>) qs)"
    by (auto simp: all_printed_def list_all_length list_all2_conv_all_nth producer_ok_def)
  ultimately show ?thesis by (simp add: logger_ok_def)
next
  case False
  then show ?thesis using assms by (auto simp: logger_stop_def logger_ok_def)
qed

lemma put_venue_simps [simp]:
  "td_venue (put_venue s v) = v" "td_logger (put_venue s v) = td_logger s" "td_engine_running (put_venue s v) = td_engine_running s"
  "td_worker (put_venue s v) = td_worker s" "trading_ok (put_venue s v) \<longleftrightarrow> logger_ok (td_logger s) \<and> venue_attached v"
  by (simp_all add: put_venue_def trading_ok_def)

lemma down_simps: "down A s \<longleftrightarrow> logger_ok (td_logger s) \<and> venue_attached (td_venue s) \<and> (\<forall>p\<in>A. \<not> part_runs p s)"
  by (simp add: down_def trading_ok_def)

lemma stop_market_down: "down {} s \<Longrightarrow> \<exists>s'. stop_market s = Ok s' () \<and> down {Market} s'"
  by (auto simp: down_simps stop_market_def venue_attached_def adapter.market_put adapter.gateway_put adapter.ok_put
      consumer_stop_def)

lemma quiesce_down: "down {Market} s \<Longrightarrow> down {Market} (put_venue s (venue_quiesce io (td_venue s)))"
  by (auto simp: down_simps venue_attached_def adapter.quiesced)

lemma stop_gateway_down: "down {Market} s \<Longrightarrow> \<exists>s'. stop_gateway s = Ok s' () \<and> down {Market, Gateway} s'"
  by (auto simp: down_simps stop_gateway_def venue_attached_def adapter.market_put adapter.gateway_put adapter.ok_put
      gateway_stop_def)

lemma stop_venue_down:
  assumes "down {Market, Gateway} s"
  shows "\<exists>s'. on_part (put_venue s) (venue_stop (td_venue s)) = Ok s' () \<and> down {Market, Gateway, Venue} s'"
proof -
  obtain m g where mg: "venue_market (td_venue s) = Some m" "venue_gateway (td_venue s) = Some g"
    "\<not> mc_running m" "\<not> og_running g" "venue_ok (td_venue s)"
    using assms by (auto simp: down_simps venue_attached_def)
  obtain v where "venue_stop (td_venue s) = Ok v ()" "venue_market v = Some m" "venue_gateway v = Some g"
    "\<not> venue_running v" "venue_ok v"
    using adapter.stopped[OF mg(5,1-4)] by blast
  then show ?thesis using assms mg by (simp add: down_simps venue_attached_def)
qed

lemma stop_logger_down:
  "down A s \<Longrightarrow> Logger \<notin> A \<Longrightarrow>
     \<exists>s'. on_part (\<lambda>l. s\<lparr>td_logger := l\<rparr>) (logger_stop (td_logger s)) = Ok s' () \<and> down (insert Logger A) s'"
proof -
  assume d: "down A s" "Logger \<notin> A"
  then obtain l' where l': "logger_stop (td_logger s) = Ok l' ()" "logger_ok l'" "\<not> al_started l'" "\<not> al_running l'"
    using logger_stop_down[of "td_logger s"] by (auto simp: down_simps)
  have "part_runs p (s\<lparr>td_logger := l'\<rparr>) = part_runs p s" if "p \<in> A" for p using that d(2) by (cases p) auto
  then show ?thesis using d(1) l' by (simp add: down_simps)
qed

text \<open>A list of actions with the parts that are down after each.\<close>

primrec goes_down :: "part set \<Rightarrow> (('j trading \<Rightarrow> ('j trading, unit) outcome) \<times> part set) list \<Rightarrow> part set \<Rightarrow> bool" where
  "goes_down A [] B \<longleftrightarrow> A = B"
| "goes_down A (ac # acs) B \<longleftrightarrow> joined_first A \<and>
     (\<forall>s. down A s \<longrightarrow> (\<exists>s'. fst ac s = Ok s' () \<and> down (snd ac) s')) \<and> goes_down (snd ac) acs B"

lemma main_steps_down:
  "others_ok others \<Longrightarrow> goes_down A acs B \<Longrightarrow> down A s \<Longrightarrow> \<exists>s'. main_steps others (map fst acs) s = Ok s' () \<and> down B s'"
proof (induction acs arbitrary: A s)
  case (Cons ac acs)
  then have "down A (others_run others s)" using others_keep_down by auto
  then obtain s' where "fst ac (others_run others s) = Ok s' ()" "down (snd ac) s'" using Cons.prems(2) by auto
  then show ?case using Cons.IH[of "snd ac" s'] Cons.prems by simp
qed simp

lemma shutdown_goes_down:
  "goes_down {} (zip (shutdown io clock)
     [{}, {}, {Market}, {Market}, {Market, Gateway}, {Market, Gateway, Venue}, {Market, Gateway, Venue, Engine},
      {Market, Gateway, Venue, Engine, Worker}, UNIV, UNIV]) UNIV"
proof -
  have all: "UNIV = insert Logger {Market, Gateway, Venue, Engine, Worker}" using part.exhaust by auto
  have measured: "down {} s \<Longrightarrow> down {} (case te_measurement (td_engine s) of None \<Rightarrow> s | Some m \<Rightarrow> put_measured s (f m))"
    and disabled: "down {} s \<Longrightarrow> down {} (s\<lparr>td_engine := e\<rparr>)"
    and engine: "down {Market, Gateway, Venue} s \<Longrightarrow> down {Market, Gateway, Venue, Engine} (s\<lparr>td_engine_running := False\<rparr>)"
    and worker: "down {Market, Gateway, Venue, Engine} s \<Longrightarrow>
      down {Market, Gateway, Venue, Engine, Worker} (s\<lparr>td_worker := worker_stop (td_worker s)\<rparr>)"
    and profiler: "down UNIV s \<Longrightarrow> down UNIV (s\<lparr>td_profiler := p\<rparr>)"
    and logger: "down {Market, Gateway, Venue, Engine, Worker} s \<Longrightarrow>
      \<exists>s'. on_part (\<lambda>l. s\<lparr>td_logger := l\<rparr>) (logger_stop (td_logger s)) = Ok s' () \<and> down UNIV s'"
    for s :: "'a trading" and f e p
    using stop_logger_down[of "{Market, Gateway, Venue, Engine, Worker}" s]
    by (auto simp: down_simps put_measured_def worker_stop_def all split: option.split)
  show ?thesis
    unfolding shutdown_def
    by (simp add: joined_first_def stop_market_down quiesce_down stop_gateway_down stop_venue_down logger measured disabled
        engine worker profiler)
qed

lemma shutdown_joins:
  assumes "others_ok others" "trading_ok s"
  shows "\<exists>s'. main_steps others (shutdown io clock) s = Ok s' () \<and> down UNIV s'"
proof -
  have "down {} s" using assms(2) by (simp add: down_def)
  then show ?thesis using main_steps_down[OF assms(1) shutdown_goes_down, of s io clock] by (simp add: shutdown_def)
qed

text \<open>No step of the startup damages what the shutdown needs, whether it returns or throws.\<close>

lemma deref_attached: "venue_attached v \<Longrightarrow> \<exists>m g. venue_market v = Some m \<and> venue_gateway v = Some g"
  by (auto simp: venue_attached_def)

lemma binance_attached [simp]: "venue_attached (Binance_venue i) \<longleftrightarrow> has_workers i"
  by (simp add: venue_attached_def has_workers_def)

lemma prepare_attached: "venue_attached v \<Longrightarrow> leaves venue_attached (venue_prepare io v)"
proof (cases v)
  case (Binance_venue i)
  moreover assume "venue_attached v"
  ultimately show ?thesis
    using binance_prepare_workers[of i "vi_json io" "vi_hmac io" "vi_depth_connected io" "vi_user_connected io"]
    by (auto intro!: leaves_on_part)
next
  case (SimNow_venue i)
  moreover assume "venue_attached v"
  ultimately show ?thesis
    using adapter_prepare_inv[of i] by (auto simp: venue_attached_def intro!: leaves_on_part)
next
  case (Simex_venue i)
  then show ?thesis
    by (simp only: venue_prepare.simps) (rule leaves_on_part, rule leaves_any, simp add: venue_attached_def)
qed

lemma wait_attached: "venue_attached v \<Longrightarrow> leaves venue_attached (venue_waitUntilReady io v)"
  using adapter_wait_inv by (cases v) (auto simp: venue_attached_def intro!: leaves_on_part)

lemma put_market_attached: "venue_attached v \<Longrightarrow> venue_attached (venue_put_market m v)"
  and put_gateway_attached: "venue_attached v \<Longrightarrow> venue_attached (venue_put_gateway g v)"
  by (auto simp: venue_attached_def adapter.market_put adapter.gateway_put adapter.ok_put)

lemma leaves_measured: "trading_ok s \<Longrightarrow> leaves trading_ok (on_part (put_measured s) m)"
  and leaves_profiled: "trading_ok s \<Longrightarrow> leaves trading_ok (on_part (\<lambda>p. s\<lparr>td_profiler := Some p\<rparr>) n)"
  by (cases m; simp add: trading_ok_def put_measured_def) (cases n; simp add: trading_ok_def)

lemma startup_step_ok:
  assumes "a \<in> set (startup io clock)" "trading_ok s"
  shows "leaves trading_ok (a s)"
proof -
  have ok: "logger_ok (td_logger s)" "venue_attached (td_venue s)" using assms(2) by (simp_all add: trading_ok_def)
  have "leaves trading_ok (start_logger s)"
    using ok by (auto simp: start_logger_def logger_start_def trading_ok_def logger_ok_def)
  moreover have "leaves trading_ok (on_part (put_venue s) (venue_prepare io (td_venue s)))"
    "leaves trading_ok (on_part (put_venue s) (venue_waitUntilReady io (td_venue s)))"
    using prepare_attached[OF ok(2), of io] wait_attached[OF ok(2), of io] ok(1) by (auto intro!: leaves_on_part)
  moreover have "leaves trading_ok (start_market s)" "leaves trading_ok (start_gateway s)"
    unfolding start_market_def start_gateway_def
    by (rule leaves_deref, rule leaves_on_part, rule leaves_any, simp add: ok put_market_attached)
      (rule leaves_deref, simp add: ok put_gateway_attached)
  moreover have "leaves trading_ok (start_worker s)" "leaves trading_ok (start_engine s)"
    using ok by (simp_all add: start_worker_def start_engine_def trading_ok_def)
  moreover have "leaves trading_ok (arm_capture clock s)"
    unfolding arm_capture_def Let_def
    by (rule leaves_then_do)
      (use assms(2) in \<open>auto intro!: leaves_on_part leaves_measured leaves_profiled split: option.split\<close>)
  ultimately show ?thesis using assms(1) unfolding startup_def by auto
qed

lemma main_steps_leaves:
  "others_ok others \<Longrightarrow> \<forall>a\<in>set as. \<forall>s. trading_ok s \<longrightarrow> leaves trading_ok (a s) \<Longrightarrow> trading_ok s \<Longrightarrow>
     leaves trading_ok (main_steps others as s)"
proof (induction as arbitrary: s)
  case (Cons a as)
  have "trading_ok (others_run others s)"
    using others_keep_down[OF Cons.prems(1), of "{}" s] Cons.prems(3) by (simp add: down_def joined_first_def)
  then show ?case using Cons by (auto intro!: leaves_then_do)
qed simp

lemma supervise_keeps:
  assumes "others_ok others" "supervise others clock t s = Some s'" "trading_ok s"
  shows "trading_ok s'"
proof -
  have "others_ok others \<longrightarrow> trading_ok s \<longrightarrow> trading_ok s'"
  proof (rule supervise.raw_induct[OF _ assms(2)], intro impI, goal_cases)
    case (1 f others clock t s s')
    have "trading_ok (others_run others s)"
      using others_keep_down[OF 1(3), of "{}" s] 1(4) by (simp add: down_def joined_first_def)
    then show ?case using 1 by (auto split: if_splits)
  qed
  then show ?thesis using assms(1,3) by simp
qed

text \<open>The loop ends when after some rounds its condition fails.\<close>

lemma supervise_ends:
  "\<not> keeps_running clock t ((others_run others ^^ n) s) \<Longrightarrow>
     \<exists>m\<le>n. supervise others clock t s = Some ((others_run others ^^ m) s)"
proof (induction n arbitrary: s)
  case 0
  then show ?case by (subst supervise.simps) simp
next
  case (Suc n)
  show ?case
  proof (cases "keeps_running clock t s")
    case True
    obtain m where "m \<le> n" "supervise others clock t (others_run others s) = Some ((others_run others ^^ m) (others_run others s))"
      using Suc.IH[of "others_run others s"] Suc.prems by (auto simp: funpow_swap1)
    then show ?thesis using True
      by (intro exI[of _ "Suc m"]) (subst supervise.simps, simp add: funpow_swap1)
  next
    case False
    then show ?thesis by (intro exI[of _ 0]) (subst supervise.simps, simp)
  qed
qed

section \<open>What is constructed can be run\<close>

lemma register_ok:
  "register E c component file l = Inr l' \<Longrightarrow> logger_ok l \<Longrightarrow>
     logger_ok l' \<and> al_started l' = al_started l \<and> al_running l' = al_running l"
  by (auto simp: register_def Let_def registerProducer_def producer_state_new_def logger_ok_def producer_ok_def
      split: sum.splits if_splits outcome.splits dest: lq_new_inv)

lemma adapter_new_attached:
  "simnow_adapter_new (Some m) (Some g) config True t clock blank = Inr i \<Longrightarrow>
     venue_attached (SimNow_venue i) \<and> sa_market i = m \<and> sa_gateway i = g \<and> \<not> adapter_running i"
  using life_keeps[OF life.created]
  by (fastforce simp: simnow_adapter_new_def bind_exn_Inr_iff venue_attached_def adapter_running_def simnow_control_init_def
      split: option.splits if_splits)

lemma make_venue_attached:
  assumes "make_venue E c venue_json m g l = Inr (v, l')" "logger_ok l"
  shows "venue_attached v \<and> venue_market v = Some m \<and> venue_gateway v = Some g \<and> \<not> venue_running v \<and>
    logger_ok l' \<and> al_started l' = al_started l \<and> al_running l' = al_running l"
  using assms
  by (auto simp: make_venue_def bind_exn_Inr_iff binance_adapter_new_def has_workers_def simex_adapter_new_def venue_attached_def
      split: if_splits option.splits dest: register_ok adapter_new_attached)

text \<open>The construction either throws, or gives components that all are at rest and can be run.\<close>

definition at_rest :: "async_logger \<Rightarrow> bool" where
  "at_rest l \<longleftrightarrow> logger_ok l \<and> \<not> al_started l \<and> \<not> al_running l"

lemma at_rest_register: "register E c component file l = Inr l' \<Longrightarrow> at_rest l \<Longrightarrow> at_rest l'"
  by (auto simp: at_rest_def dest: register_ok)

lemma make_trading_at_rest:
  assumes "make_trading E c venue_json = Inr s"
  shows "trading_ok s \<and> (\<forall>p. \<not> part_runs p s) \<and> td_settings s = c \<and> \<not> td_stopping s"
proof -
  obtain l0 l1 l2 l3 l4 l5 requests responses updates evaluations decisions engine v config where
    l: "async_logger_new (unat (ms_queue_capacity c)) 1 = Inr l0"
      "register E c ''TradeEngine'' (''trade-engine-'' @ show_u (ms_client_id c) @ ''.log'') l0 = Inr l1"
      "register E c ''MarketData'' (''market-data-'' @ show_u (ms_client_id c) @ ''.log'') l1 = Inr l2"
      "register E c ''OrderGateway'' (''order-gateway-'' @ show_u (ms_client_id c) @ ''.log'') l2 = Inr l3"
      "register E c ''JevWorker'' ''jev-worker.log'' l4 = Inr l5"
    and v: "make_venue E c venue_json (market_data_consumer_new (ms_client_id c) (Some updates) (me_clock E))
        (order_gateway_new (ms_client_id c) (Some requests) (Some responses) (me_clock E)) l3 = Inr (v, l4)"
    and s: "s = \<lparr>td_settings = c, td_logger = l5, td_engine = engine, td_engine_running = False,
        td_client = jev_http_new (me_now E) config, td_worker = jev_worker_new (Some evaluations) (Some decisions),
        td_venue = v, td_profiler = Option.bind (ms_performance c) snd, td_stopping = False, td_tick = 0\<rparr>"
    using assms by (clarsimp simp: make_trading_def Let_def bind_exn_Inr_iff)
  have "at_rest l0" using l(1) by (auto simp: async_logger_new_def at_rest_def logger_ok_def split: if_splits)
  then have l3: "at_rest l3" using l(2-4) at_rest_register by blast
  have v': "venue_attached v" "venue_market v = Some (market_data_consumer_new (ms_client_id c) (Some updates) (me_clock E))"
    "venue_gateway v = Some (order_gateway_new (ms_client_id c) (Some requests) (Some responses) (me_clock E))"
    "\<not> venue_running v" "at_rest l4"
    using make_venue_attached[OF v] l3 by (auto simp: at_rest_def)
  then have "at_rest l5" using l(5) at_rest_register by blast
  moreover have "\<not> part_runs p s" for p
    using v' \<open>at_rest l5\<close>
    by (cases p) (simp_all add: s at_rest_def jev_worker_new_def market_data_consumer_new_def order_gateway_new_def)
  ultimately show ?thesis using v'(1) by (simp add: s trading_ok_def at_rest_def)
qed

text \<open>C11: The main thread joins everything it started. Whatever the venue answers, whichever step of the
  startup throws and whatever the other threads do meanwhile (they start no component), the shutdown
  returns; so when the run of the components returns or throws, no worker, no logger and no venue is
  left running, an exception of the startup is the one that is thrown on, and the exit status is 0
  only when the startup returned and the venue recorded no failure.\<close>

theorem main_joins_everything:
  assumes "others_ok others" "trading_ok s"
  shows "(\<forall>s'. trading_ok s' \<longrightarrow> (\<exists>s''. main_steps others (shutdown io clock) s' = Ok s'' () \<and> (\<forall>p. \<not> part_runs p s''))) \<and>
    leaves (\<lambda>s'. \<forall>p. \<not> part_runs p s') (run_components io others clock s) \<and>
    (\<forall>s' e. main_steps others (startup io clock) s = Throw s' e \<longrightarrow> (\<exists>s''. run_components io others clock s = Throw s'' e)) \<and>
    (\<forall>s' code. main_after_construction io others clock export s = Ok s' code \<longrightarrow>
       (\<forall>p. \<not> part_runs p s') \<and> (code = 0 \<longrightarrow> \<not> venue_failed (td_venue s') \<and> run_components io others clock s = Ok s' ()))"
proof -
  have shut: "\<exists>s''. main_steps others (shutdown io clock) s' = Ok s'' () \<and> (\<forall>p. \<not> part_runs p s'')" if "trading_ok s'" for s'
    using shutdown_joins[OF assms(1) that, of io clock] by (auto simp: down_def)
  have start: "leaves trading_ok (main_steps others (startup io clock) s)"
    using main_steps_leaves[OF assms(1) _ assms(2)] startup_step_ok by blast
  have run: "leaves (\<lambda>s'. \<forall>p. \<not> part_runs p s') (run_components io others clock s)"
  proof (cases "main_steps others (startup io clock) s")
    case (Ok s1 u)
    show ?thesis
    proof (cases "supervise others clock (clock (td_tick s1)) s1")
      case (Some s2)
      have "trading_ok s2" using supervise_keeps[OF assms(1) Some] start Ok by simp
      then show ?thesis using shut[of s2] Ok Some by (auto simp: run_components_def)
    qed (simp add: run_components_def Ok)
  next
    case (Throw s1 e)
    then show ?thesis using shut[of s1] start by (auto simp: run_components_def)
  qed (simp_all add: run_components_def)
  moreover have "\<exists>s''. run_components io others clock s = Throw s'' e" if "main_steps others (startup io clock) s = Throw s1 e" for s1 e
    using shut[of s1] start that by (auto simp: run_components_def)
  moreover have "(\<forall>p. \<not> part_runs p s') \<and> (code = 0 \<longrightarrow> \<not> venue_failed (td_venue s') \<and> run_components io others clock s = Ok s' ())"
    if "main_after_construction io others clock export s = Ok s' code" for s' code
    using that run
    by (cases "run_components io others clock s")
      (auto simp: main_after_construction_def finish_main_def split: sum.splits option.splits)
  ultimately show ?thesis using shut by blast
qed

section \<open>An example\<close>

definition demo_main_settings :: main_settings where
  "demo_main_settings = \<lparr>ms_client_id = 1, ms_ticker_id = 0, ms_interval_ms = 100, ms_order_qty = 1,
     ms_queue_capacity = 4, ms_log_directory = ''logs'', ms_verbose = False, ms_venue = ''simex'',
     ms_run_seconds = 60, ms_performance = None, ms_perf_directory = [], ms_limits = defaultRiskLimits\<rparr>"

definition demo_main_env :: "doc main_env" where
  "demo_main_env = \<lparr>me_json = doc_api\<lparr>js_parse := (\<lambda>_. Inr (Obj []))\<rparr>, me_dotenv = Some [''OPENROUTER_API_KEY=k''],
     me_config_path = ''config.json'', me_config = Some [], me_opens = (\<lambda>_. True), me_steady = (\<lambda>_. 0), me_clock = (\<lambda>_. 1),
     me_now = [], me_environment = (\<lambda>_. None), me_web = undefined, me_transport = None, me_blank_event = undefined,
     me_with_simnow = False, me_with_simex = True\<rparr>"

definition demo_io :: "doc venue_io" where
  "demo_io = \<lparr>vi_json = doc_api, vi_hmac = undefined, vi_depth_connected = False, vi_user_connected = False,
     vi_transport_failure = None, vi_ready = simnow_control_init, vi_drained = simnow_control_init,
     vi_sockets = \<lparr>ss_opened = True, ss_bound = True, ss_connect = Connected\<rparr>\<rparr>"

lemma demo_loads:
  "case loadJevHttpConfig (me_json demo_main_env) ''.env'' (me_dotenv demo_main_env) (me_config_path demo_main_env)
     (me_config demo_main_env) of Inl _ \<Rightarrow> False | Inr _ \<Rightarrow> True"
  by code_simp

lemma demo_registers:
  "component \<noteq> [] \<Longrightarrow> length component < kComponentCapacity \<Longrightarrow> \<not> al_stopped l \<Longrightarrow> al_queue_capacity l > 0 \<Longrightarrow>
     \<exists>l'. register demo_main_env c component file l = Inr l' \<and> \<not> al_stopped l' \<and> al_queue_capacity l' > 0"
  by (simp add: register_def registerProducer_def producer_state_new_def lf_queue_new_def demo_main_env_def)

lemma demo_engine:
  "\<exists>e0 e. trade_engine_new 1 defaultRiskLimits (Some rq) (Some rs) (Some mu) (Some jd) clock = Inr e0 \<and>
     engine_settings demo_main_settings ev e0 = Inr e \<and> te_measurement e = None"
  by (simp add: trade_engine_new_def engine_settings_def demo_main_settings_def setMeasurement_def returned_def
      setDecisionOrderQuantity_def Qty_INVALID_def enableSimexConstraints_def setAccountState_def attachJevEvaluationQueue_def
      read_clock_def ME_MAX_TICKERS_def Let_def)

lemma demo_venue:
  "\<exists>i. make_venue demo_main_env demo_main_settings (Obj []) (market_data_consumer_new 1 mu clock)
     (order_gateway_new 1 rq rs clock) l = Inr (Simex_venue i, l) \<and> \<not> sm_started i \<and> \<not> mc_started (sm_market i)"
proof -
  have "\<exists>config. simex_fromJson (me_json demo_main_env) (Obj []) 0 = Inr config"
    by (simp add: simex_fromJson_def js_value_def demo_main_env_def doc_api_def ME_MAX_TICKERS_def)
  then show ?thesis
    by (auto simp: make_venue_def demo_main_settings_def simex_adapter_new_def market_data_consumer_new_def
        order_gateway_new_def ClientId_INVALID_def demo_main_env_def)
qed

lemma demo_constructed:
  "\<exists>s i. make_trading demo_main_env demo_main_settings (Obj []) = Inr s \<and> td_venue s = Simex_venue i \<and> \<not> sm_started i \<and>
     \<not> mc_started (sm_market i) \<and> te_measurement (td_engine s) = None \<and> td_profiler s = None \<and> \<not> al_stopped (td_logger s)"
proof -
  let ?c = demo_main_settings and ?E = demo_main_env
  obtain config where config: "loadJevHttpConfig (me_json ?E) ''.env'' (me_dotenv ?E) (me_config_path ?E) (me_config ?E) = Inr config"
    using demo_loads by (auto split: sum.splits)
  have names: "''TradeEngine'' \<noteq> []" "length ''TradeEngine'' < kComponentCapacity" "''MarketData'' \<noteq> []"
    "length ''MarketData'' < kComponentCapacity" "''OrderGateway'' \<noteq> []" "length ''OrderGateway'' < kComponentCapacity"
    "''JevWorker'' \<noteq> []" "length ''JevWorker'' < kComponentCapacity"
    by (simp_all add: kComponentCapacity_def)
  obtain l0 where l0: "async_logger_new 4 1 = Inr l0" "\<not> al_stopped l0" "al_queue_capacity l0 > 0"
    by (simp add: async_logger_new_def)
  obtain l1 where l1: "register ?E ?c ''TradeEngine'' (''trade-engine-'' @ show_u (1 :: client_id) @ ''.log'') l0 = Inr l1"
      "\<not> al_stopped l1" "al_queue_capacity l1 > 0"
    using demo_registers[OF names(1,2) l0(2,3)] by blast
  obtain l2 where l2: "register ?E ?c ''MarketData'' (''market-data-'' @ show_u (1 :: client_id) @ ''.log'') l1 = Inr l2"
      "\<not> al_stopped l2" "al_queue_capacity l2 > 0"
    using demo_registers[OF names(3,4) l1(2,3)] by blast
  obtain l3 where l3: "register ?E ?c ''OrderGateway'' (''order-gateway-'' @ show_u (1 :: client_id) @ ''.log'') l2 = Inr l3"
      "\<not> al_stopped l3" "al_queue_capacity l3 > 0"
    using demo_registers[OF names(5,6) l2(2,3)] by blast
  obtain l4 where l4: "register ?E ?c ''JevWorker'' ''jev-worker.log'' l3 = Inr l4" "\<not> al_stopped l4"
    using demo_registers[OF names(7,8) l3(2,3)] by blast
  have c: "unat (ms_queue_capacity ?c) = 4" "ms_client_id ?c = 1" "ms_limits ?c = defaultRiskLimits" "ms_performance ?c = None"
    by (simp_all add: demo_main_settings_def)
  let ?q = "\<lambda>x. \<lparr>lq_store = (\<lambda>_. x), lq_capacity = 4, lq_next_write = 0, lq_next_read = 0, lq_num_elements = 0\<rparr>"
  have q: "lf_queue_new x 4 = Inr (?q x)" for x :: 'x by (simp add: lf_queue_new_def)
  obtain e0 e where e: "trade_engine_new 1 defaultRiskLimits (Some (?q client_request_init)) (Some (?q client_response_init))
        (Some (?q market_update_init)) (Some (?q jev_decision_init)) (me_steady ?E) = Inr e0"
      "engine_settings ?c (?q jev_evaluation_init) e0 = Inr e" "te_measurement e = None"
    using demo_engine by blast
  obtain i where i: "make_venue ?E ?c (Obj []) (market_data_consumer_new 1 (Some (?q market_update_init)) (me_clock ?E))
      (order_gateway_new 1 (Some (?q client_request_init)) (Some (?q client_response_init)) (me_clock ?E)) l3 =
      Inr (Simex_venue i, l3)" "\<not> sm_started i" "\<not> mc_started (sm_market i)"
    using demo_venue by blast
  have "make_trading ?E ?c (Obj []) = Inr
      \<lparr>td_settings = ?c, td_logger = l4, td_engine = e, td_engine_running = False, td_client = jev_http_new (me_now ?E) config,
       td_worker = jev_worker_new (Some (?q jev_evaluation_init)) (Some (?q jev_decision_init)), td_venue = Simex_venue i,
       td_profiler = None, td_stopping = False, td_tick = 0\<rparr>"
    by (simp only: make_trading_def Let_def c l0(1) l1(1) l2(1) l3(1) l4(1) q e(1,2) i(1) config bind_exn_simps prod.case
        Option.bind.simps)
  then show ?thesis using e(3) i(2,3) l4(2) by simp
qed

text \<open>From rest, with the sockets connected, the startup brings every component up.\<close>

lemma simex_starts:
  assumes "td_venue s = Simex_venue i" "\<not> sm_started i" "\<not> mc_started (sm_market i)" "te_measurement (td_engine s) = None"
    "td_profiler s = None" "\<not> al_stopped (td_logger s)" "\<forall>p. \<not> part_runs p s"
  shows "\<exists>s'. main_steps (\<lambda>_ s. s) (startup demo_io clock) s = Ok s' () \<and> (\<forall>p. part_runs p s')"
proof -
  have off: "\<not> mc_running (sm_market i)" "\<not> og_running (sm_gateway i)" "\<not> td_engine_running s" "\<not> jw_running (td_worker s)"
    "\<not> al_started (td_logger s)"
    using assms(7)[rule_format, of Market] assms(7)[rule_format, of Gateway] assms(7)[rule_format, of Engine]
      assms(7)[rule_format, of Worker] assms(7)[rule_format, of Logger] by (simp_all add: assms(1))
  define j where "j = sm_tick (i\<lparr>sm_started := True, sm_udp := True, sm_tcp := True, sm_last_packet := sm_now (i\<lparr>sm_started := True\<rparr>),
      sm_handlers := True, sm_running := True\<rparr>)"
  have prepared: "simex_prepare (vi_sockets demo_io) i = Ok j ()"
    using assms(2) off by (simp add: simex_prepare_def workers_running_def demo_io_def simex_connect_def Let_def j_def)
  have j: "sm_market j = sm_market i" "sm_gateway j = sm_gateway i" "sm_running j" by (simp_all add: j_def sm_tick_def)
  have "main_steps (\<lambda>_ s. s) (startup demo_io clock) s =
      Ok (s\<lparr>td_logger := (td_logger s)\<lparr>al_started := True, al_running := True\<rparr>, td_engine_running := True,
            td_worker := (td_worker s)\<lparr>jw_running := True\<rparr>,
            td_venue := Simex_venue (j\<lparr>sm_market := (sm_market i)\<lparr>mc_running := True, mc_started := True\<rparr>,
                                       sm_gateway := (sm_gateway i)\<lparr>og_running := True\<rparr>\<rparr>),
            td_tick := td_tick s + 8\<rparr>) ()"
    using assms(1-6) off
    by (simp add: startup_def others_run_def start_logger_def logger_start_def prepared put_venue_def start_worker_def
        worker_start_def start_engine_def start_market_def consumer_start_def start_gateway_def gateway_start_def
        arm_capture_def j numeral_eq_Suc)
  moreover have "part_runs p (s\<lparr>td_logger := (td_logger s)\<lparr>al_started := True, al_running := True\<rparr>, td_engine_running := True,
            td_worker := (td_worker s)\<lparr>jw_running := True\<rparr>,
            td_venue := Simex_venue (j\<lparr>sm_market := (sm_market i)\<lparr>mc_running := True, mc_started := True\<rparr>,
                                       sm_gateway := (sm_gateway i)\<lparr>og_running := True\<rparr>\<rparr>),
            td_tick := td_tick s + 8\<rparr>)" for p
    using j(3) by (cases p) simp_all
  ultimately show ?thesis by blast
qed

lemma main_joins_everything_witness:
  "\<exists>s s1 s'. make_trading demo_main_env demo_main_settings (Obj []) = Inr s \<and>
     main_steps (\<lambda>_ s. s) (startup demo_io (\<lambda>_. 1)) s = Ok s1 () \<and> (\<forall>p. part_runs p s1) \<and>
     main_steps (\<lambda>_ s. s) (shutdown demo_io (\<lambda>_. 1)) s1 = Ok s' () \<and> (\<forall>p. \<not> part_runs p s')"
proof -
  obtain s i where s: "make_trading demo_main_env demo_main_settings (Obj []) = Inr s" "td_venue s = Simex_venue i"
      "\<not> sm_started i" "\<not> mc_started (sm_market i)" "te_measurement (td_engine s) = None" "td_profiler s = None"
      "\<not> al_stopped (td_logger s)"
    using demo_constructed by blast
  have rest: "trading_ok s" "\<forall>p. \<not> part_runs p s" using make_trading_at_rest[OF s(1)] by simp_all
  have others: "others_ok (\<lambda>_ s. s)" by (simp add: others_ok_def)
  obtain s1 where s1: "main_steps (\<lambda>_ s. s) (startup demo_io (\<lambda>_. 1)) s = Ok s1 ()" "\<forall>p. part_runs p s1"
    using simex_starts[OF s(2-7) rest(2)] by blast
  have "trading_ok s1"
    using main_steps_leaves[OF others _ rest(1), of "startup demo_io (\<lambda>_. 1)"] startup_step_ok s1(1) by fastforce
  with main_joins_everything[OF others rest(1), of demo_io "\<lambda>_. 1"] s(1) s1 show ?thesis by blast
qed

end
