(* ===== verification/WebSocketStream.thy ===== *)
theory WebSocketStream
  imports Prelude
begin

text \<open>
  \<open>trading/venue/binance/binance_websocket_stream.{h,cpp}\<close>: the thread that reads a stream and the
  thread that stops it. The steps of the two interleave; each is one access to what they share (the
  flag, the descriptor) or one call of the networking library. A call of the library returns or throws;
  a read of a socket that was shut still returns what had arrived before.
\<close>

section \<open>State\<close>

datatype socket_state = No_socket | Socket_open | Socket_shut | Socket_closed

text \<open>
  Where the reader is in \<open>run\<close>: not started, connecting, before the store of the descriptor, in the
  handshakes, at the head of the loop, in the read, past the loop, between the close of the stream and the
  store that clears the descriptor, after unwinding (the stream is destroyed, so its socket closed) and
  before the handler's store, and at the end.
\<close>

datatype reader_at =
    Reader_off | Connecting | Storing | Handshaking | Loop_head | Reading | Closing_stream | Clearing | Unwound | Reader_done

text \<open>Where the stopper is: before \<open>stop\<close>, after the flag, with the descriptor it took, in the join, after it.\<close>

datatype stopper_at = Not_stopping | Flagged | Took bool | Joining | Joined

record ws_stream =
  ws_stopping :: bool
  ws_connected :: bool
  ws_has_fd :: bool
  ws_socket :: socket_state
  ws_reader :: reader_at
  ws_stopper :: stopper_at
  ws_messages :: nat
  ws_errors :: nat
  ws_stale :: bool

definition ws_stream_new :: ws_stream where
  "ws_stream_new = \<lparr>ws_stopping = False, ws_connected = False, ws_has_fd = False, ws_socket = No_socket,
     ws_reader = Reader_off, ws_stopper = Not_stopping, ws_messages = 0, ws_errors = 0, ws_stale = False\<rparr>"

text \<open>\<open>start\<close>: an exception while a thread is joinable.\<close>

definition ws_start :: "ws_stream \<Rightarrow> (ws_stream, unit) outcome" where
  "ws_start s =
     (if ws_reader s \<noteq> Reader_off then Throw s (Runtime_error ''WebSocket stream already started'')
      else Ok (s\<lparr>ws_stopping := False, ws_connected := False, ws_reader := Connecting\<rparr>) ())"

text \<open>\<open>waitUntilConnected\<close>: the condition it waits for, and its value when the wait ends.\<close>

definition ws_wait_over :: "ws_stream \<Rightarrow> bool" where
  "ws_wait_over s \<longleftrightarrow> ws_connected s \<or> ws_stopping s"

definition ws_wait_value :: "ws_stream \<Rightarrow> bool" where
  "ws_wait_value s \<longleftrightarrow> ws_wait_over s \<and> ws_connected s"

section \<open>Steps\<close>

text \<open>An exception in \<open>run\<close> destroys the stream object, which closes its socket, before the handler runs.\<close>

definition unwind :: "ws_stream \<Rightarrow> ws_stream" where
  "unwind s = s\<lparr>ws_reader := Unwound, ws_socket := (if ws_socket s = No_socket then No_socket else Socket_closed)\<rparr>"

inductive reader_step :: "ws_stream \<Rightarrow> ws_stream \<Rightarrow> bool" where
  connected: "ws_reader s = Connecting \<Longrightarrow> reader_step s (s\<lparr>ws_reader := Storing, ws_socket := Socket_open\<rparr>)"
| stored: "ws_reader s = Storing \<Longrightarrow> reader_step s (s\<lparr>ws_reader := Handshaking, ws_has_fd := True\<rparr>)"
| handshaken: "ws_reader s = Handshaking \<Longrightarrow>
    reader_step s (s\<lparr>ws_reader := Loop_head, ws_connected := True\<rparr>)"
| checked: "ws_reader s = Loop_head \<Longrightarrow>
    reader_step s (s\<lparr>ws_reader := (if ws_stopping s then Closing_stream else Reading)\<rparr>)"
| received: "ws_reader s = Reading \<Longrightarrow>
    reader_step s (s\<lparr>ws_reader := Loop_head, ws_messages := ws_messages s + 1\<rparr>)"
| closed: "ws_reader s = Closing_stream \<Longrightarrow> k \<in> {ws_socket s, Socket_closed} \<Longrightarrow>
    reader_step s (s\<lparr>ws_reader := Clearing, ws_socket := k\<rparr>)"
| cleared: "ws_reader s = Clearing \<Longrightarrow>
    reader_step s (s\<lparr>ws_reader := Reader_done, ws_has_fd := False, ws_socket := Socket_closed\<rparr>)"
| failed: "ws_reader s \<in> {Connecting, Handshaking, Reading} \<Longrightarrow> reader_step s (unwind s)"
| caught: "ws_reader s = Unwound \<Longrightarrow>
    reader_step s (s\<lparr>ws_reader := Reader_done, ws_has_fd := False,
      ws_errors := ws_errors s + (if ws_stopping s then 0 else 1)\<rparr>)"

text \<open>\<open>ws_stale\<close> records a shutdown of a descriptor that the stream had already closed.\<close>

inductive stopper_step :: "ws_stream \<Rightarrow> ws_stream \<Rightarrow> bool" where
  flagged: "ws_stopper s = Not_stopping \<Longrightarrow> stopper_step s (s\<lparr>ws_stopper := Flagged, ws_stopping := True\<rparr>)"
| taken: "ws_stopper s = Flagged \<Longrightarrow> stopper_step s (s\<lparr>ws_stopper := Took (ws_has_fd s), ws_has_fd := False\<rparr>)"
| shut: "ws_stopper s = Took True \<Longrightarrow>
    stopper_step s (s\<lparr>ws_stopper := Joining, ws_stale := (ws_stale s \<or> ws_socket s \<noteq> Socket_open),
      ws_socket := (if ws_socket s = Socket_open then Socket_shut else ws_socket s)\<rparr>)"
| nothing_to_shut: "ws_stopper s = Took False \<Longrightarrow> stopper_step s (s\<lparr>ws_stopper := Joining\<rparr>)"
| joined: "ws_stopper s = Joining \<Longrightarrow> ws_reader s \<in> {Reader_off, Reader_done} \<Longrightarrow>
    stopper_step s (s\<lparr>ws_stopper := Joined, ws_reader := Reader_off\<rparr>)"

inductive ws_reachable :: "ws_stream \<Rightarrow> bool" where
  started: "ws_start ws_stream_new = Ok s () \<Longrightarrow> ws_reachable s"
| reads: "ws_reachable s \<Longrightarrow> reader_step s s' \<Longrightarrow> ws_reachable s'"
| stops: "ws_reachable s \<Longrightarrow> stopper_step s s' \<Longrightarrow> ws_reachable s'"

inductive_cases reader_stepE: "reader_step s s'"
inductive_cases stopper_stepE: "stopper_step s s'"

section \<open>Stopping never leaves the reader in its read\<close>

text \<open>
  Either the stopper finds the descriptor and shuts the socket, or the descriptor is stored after the
  flag was set and the reader sees the flag before it reads.
\<close>

definition ws_inv :: "ws_stream \<Rightarrow> bool" where
  "ws_inv s \<longleftrightarrow>
     (ws_stopping s \<longleftrightarrow> ws_stopper s \<noteq> Not_stopping) \<and>
     (ws_reader s \<in> {Handshaking, Loop_head, Reading, Closing_stream, Clearing} \<and> ws_stopper s \<in> {Not_stopping, Flagged} \<longrightarrow> ws_has_fd s) \<and>
     (ws_reader s = Reading \<and> ws_stopper s = Took False \<longrightarrow> False) \<and>
     (ws_reader s = Reading \<and> ws_stopper s \<in> {Joining, Joined} \<longrightarrow> ws_socket s \<noteq> Socket_open) \<and>
     (ws_reader s \<in> {Storing, Connecting} \<longrightarrow> \<not> ws_has_fd s) \<and>
     (ws_stopper s = Joined \<longrightarrow> ws_reader s = Reader_off)"

lemma reader_keeps: "reader_step s s' \<Longrightarrow> ws_inv s \<Longrightarrow> ws_inv s'"
  by (erule reader_stepE) (auto simp: ws_inv_def unwind_def)

lemma stopper_keeps: "stopper_step s s' \<Longrightarrow> ws_inv s \<Longrightarrow> ws_inv s'"
  by (erule stopper_stepE) (auto simp: ws_inv_def)

lemma ws_reachable_inv: "ws_reachable s \<Longrightarrow> ws_inv s"
proof (induction rule: ws_reachable.induct)
  case (started s)
  then show ?case by (auto simp: ws_start_def ws_stream_new_def ws_inv_def)
next
  case (reads s s')
  then show ?case using reader_keeps by blast
next
  case (stops s s')
  then show ?case using stopper_keeps by blast
qed

primrec reader_rank :: "reader_at \<Rightarrow> nat" where
  "reader_rank Connecting = 6"
| "reader_rank Storing = 5"
| "reader_rank Handshaking = 4"
| "reader_rank Reading = 4"
| "reader_rank Loop_head = 3"
| "reader_rank Closing_stream = 2"
| "reader_rank Clearing = 1"
| "reader_rank Unwound = 1"
| "reader_rank Reader_done = 0"
| "reader_rank Reader_off = 0"

text \<open>The messages the reader can still hand over once it may not start another read.\<close>

definition ws_pending :: "ws_stream \<Rightarrow> nat" where
  "ws_pending s = ws_messages s + (if ws_reader s = Reading then 1 else 0)"

text \<open>C12: Stopping a stream reaches its reader in every interleaving: once the stopper waits for the thread,
  the reader is in no read of a socket that is still open, each step it takes brings it closer to its end
  (at most six steps, and one is possible until it is there), it starts no other read, hands over at most
  the message that it was reading and reports no error.\<close>

theorem stop_reaches_reader:
  assumes "ws_reachable s" "ws_stopper s = Joining"
  shows "\<not> (ws_reader s = Reading \<and> ws_socket s = Socket_open) \<and> reader_rank (ws_reader s) \<le> 6 \<and>
    (\<forall>s'. reader_step s s' \<longrightarrow> reader_rank (ws_reader s') < reader_rank (ws_reader s) \<and> ws_pending s' \<le> ws_pending s \<and>
       ws_errors s' = ws_errors s \<and> ws_stopper s' = Joining) \<and>
    (ws_reader s \<in> {Reader_off, Reader_done} \<or> (\<exists>s'. reader_step s s'))"
proof -
  have inv: "ws_inv s" using ws_reachable_inv[OF assms(1)] .
  have "reader_rank (ws_reader s') < reader_rank (ws_reader s) \<and> ws_pending s' \<le> ws_pending s \<and>
      ws_errors s' = ws_errors s \<and> ws_stopper s' = Joining" if "reader_step s s'" for s'
    using that inv assms(2) by (auto elim!: reader_stepE simp: ws_inv_def unwind_def ws_pending_def)
  moreover have "\<exists>s'. reader_step s s'" if "ws_reader s \<notin> {Reader_off, Reader_done}"
    using that reader_step.intros by (cases "ws_reader s") blast+
  moreover have "reader_rank (ws_reader s) \<le> 6" by (cases "ws_reader s") simp_all
  ultimately show ?thesis using inv assms(2) by (auto simp: ws_inv_def)
qed

text \<open>
  A connection that fails closes its socket while the exception unwinds, before the handler clears the
  descriptor (and the close of a stream may close it before the store after it): a stop in between shuts a descriptor that the process may have given to another socket.
\<close>

definition ws_at :: "reader_at \<Rightarrow> stopper_at \<Rightarrow> bool \<Rightarrow> socket_state \<Rightarrow> ws_stream" where
  "ws_at r p fd k = ws_stream_new\<lparr>ws_reader := r, ws_stopper := p, ws_has_fd := fd, ws_socket := k,
     ws_stopping := (p \<noteq> Not_stopping)\<rparr>"

lemma ws_at_reaches:
  "ws_reachable (ws_at Connecting Not_stopping False No_socket)"
  "ws_reachable (ws_at Handshaking Not_stopping True Socket_open)"
  "ws_reachable (ws_at Unwound Not_stopping True Socket_closed)"
proof -
  show 1: "ws_reachable (ws_at Connecting Not_stopping False No_socket)"
    by (rule ws_reachable.started) (simp add: ws_start_def ws_stream_new_def ws_at_def)
  have "ws_reachable (ws_at Storing Not_stopping False Socket_open)"
    using ws_reachable.reads[OF 1 reader_step.connected] by (simp add: ws_at_def ws_stream_new_def)
  then show 2: "ws_reachable (ws_at Handshaking Not_stopping True Socket_open)"
    using ws_reachable.reads[OF _ reader_step.stored] by (fastforce simp: ws_at_def ws_stream_new_def)
  show "ws_reachable (ws_at Unwound Not_stopping True Socket_closed)"
    using ws_reachable.reads[OF 2 reader_step.failed] by (simp add: ws_at_def ws_stream_new_def unwind_def)
qed

lemma stop_may_shut_a_closed_descriptor: "\<exists>s. ws_reachable s \<and> ws_stale s"
proof -
  let ?s = "ws_at Unwound Not_stopping True Socket_closed"
  have "ws_reachable (ws_at Unwound Flagged True Socket_closed)"
    using ws_reachable.stops[OF ws_at_reaches(3) stopper_step.flagged] by (simp add: ws_at_def ws_stream_new_def)
  then have "ws_reachable (ws_at Unwound (Took True) False Socket_closed)"
    using ws_reachable.stops[OF _ stopper_step.taken] by (fastforce simp: ws_at_def ws_stream_new_def)
  then have "ws_reachable ((ws_at Unwound Joining False Socket_closed)\<lparr>ws_stale := True\<rparr>)"
    using ws_reachable.stops[OF _ stopper_step.shut] by (fastforce simp: ws_at_def ws_stream_new_def)
  then show ?thesis by force
qed

lemma stop_reaches_reader_witness:
  "\<exists>s. ws_reachable s \<and> ws_stopper s = Joining \<and> ws_reader s = Reading \<and> ws_socket s = Socket_shut \<and> (\<exists>s'. reader_step s s')"
proof -
  have "ws_reachable ((ws_at Loop_head Not_stopping True Socket_open)\<lparr>ws_connected := True\<rparr>)"
    using ws_reachable.reads[OF ws_at_reaches(2) reader_step.handshaken] by (simp add: ws_at_def ws_stream_new_def)
  then have "ws_reachable ((ws_at Reading Not_stopping True Socket_open)\<lparr>ws_connected := True\<rparr>)"
    using ws_reachable.reads[OF _ reader_step.checked] by (fastforce simp: ws_at_def ws_stream_new_def)
  then have "ws_reachable ((ws_at Reading Flagged True Socket_open)\<lparr>ws_connected := True\<rparr>)"
    using ws_reachable.stops[OF _ stopper_step.flagged] by (fastforce simp: ws_at_def ws_stream_new_def)
  then have "ws_reachable ((ws_at Reading (Took True) False Socket_open)\<lparr>ws_connected := True\<rparr>)"
    using ws_reachable.stops[OF _ stopper_step.taken] by (fastforce simp: ws_at_def ws_stream_new_def)
  then have r: "ws_reachable ((ws_at Reading Joining False Socket_shut)\<lparr>ws_connected := True\<rparr>)"
    using ws_reachable.stops[OF _ stopper_step.shut] by (fastforce simp: ws_at_def ws_stream_new_def)
  from stop_reaches_reader[OF r] r show ?thesis by (force simp: ws_at_def)
qed

end
