(* ===== verification/Spec2Isabelle.thy ===== *)
theory Spec2Isabelle
  imports BookLevels EngineLife Gateways DepthFeed SimNowVenueAdapter BinanceOrders SimexRuns LogRecords JevReplay TradingMain
    WebSocketStream
begin

text \<open>
  A model of the trading participant under \<open>src/\<close>: a C++20 program of one process that keeps the books of a
  venue, asks an HTTP service for a decision about each state it samples, and turns the decisions into
  orders of one lot at a time. The statements about the program carry an id \<open>C1\<close> to \<open>C40\<close>.

  \<^bold>\<open>The program.\<close> The engine (\<open>trading/strategy/trade_engine\<close>) owns the state of the participant: a book, an
  order manager and a position per ticker. It is one thread. Single-producer rings
  (\<open>common/lf_queue.h\<close>) connect it to the thread of the market data consumer, to the thread of the order
  gateway, and to the thread of the decision worker. The venue adapter runs inside the consumer and the
  gateway: its two polls and its request handler are callbacks of their threads. There are three adapters,
  for the Binance test net, for SimNow over the vendor's CTP library, and for the simex exchange over
  multicast and TCP. \<open>trading_main.cpp\<close> reads the configuration, builds everything, starts it, watches it and
  takes it down. Two tools replay captured requests of the decision service.

  \<^bold>\<open>How the code is read.\<close> \<open>Prelude\<close> gives the type of the results: a member function is a function on the
  record of its object with the result \<open>outcome\<close>, which is a return, an exception that keeps the state as it
  leaves it, an end of the process, an endless loop or undefined behaviour. \<open>post\<close> is total correctness over it,
  and \<open>post_intros\<close> collects the rules for composed calls. Unsigned integers are words of their width,
  \<open>std::int32_t\<close> is an integer whose overflow is \<open>Undef\<close>, a signed price is a word read by \<open>sint\<close>. A
  \<open>double\<close> is a rational rounded to binary64 (\<open>Binary64\<close>), or its 64 bits where the code hashes or parses it
  (\<open>Doubles\<close>). A pointer into a pool is the index of a block, null is \<open>None\<close>. A reading of a clock is an
  argument, or the next of a function of readings.

  \<^bold>\<open>Storage and queues.\<close>
  \<^item> \<open>MemPool\<close> (\<open>common/mem_pool.h\<close>): the pool and its contract, the locale \<open>node_pool\<close>.
  \<^item> \<open>LFQueue\<close> (\<open>common/lf_queue.h\<close>): the ring as a sequential queue (locale \<open>bounded_queue\<close>), and its two threads
    interleaved by atomic access (\<open>spsc_safe\<close>, \<open>spsc_refines_list\<close>). \<open>Drain\<close> is the loop that empties a queue.
  \<^item> \<open>ProbeIndex\<close>, \<open>SlotArray\<close>: the open-addressed table of the books, a finite map (locale \<open>key_index\<close>,
    \<open>slot_array_is_map\<close>). \<open>LevelList\<close>: the sorted circular list of price levels, write by write.
  \<^item> \<open>LogRecords\<close> (\<open>common/async_logger.h\<close>): a logger that stops writes every queued record
    (\<open>logger_stop_flushes\<close>). \<open>Decimal\<close>, \<open>Text\<close>: decimal numbers and the text functions that are shared.

  \<^bold>\<open>The engine.\<close>
  \<^item> \<open>CommonTypes\<close>: \<open>common/types.h\<close>, \<open>performance_trace.h\<close> and the messages of \<open>exchange/\<close>.
  \<^item> \<open>BookSide\<close>, \<open>OrderBook\<close>, \<open>BookLevels\<close> (\<open>market_order_book.h\<close>): the pooled book refines an abstract one of
    two finite maps, errors included (\<open>book_refines_abstract\<close>); the best prices (\<open>bbo_is_best\<close>); the sums at a
    price (\<open>book_levels_are_sums\<close>).
  \<^item> \<open>PositionKeeper\<close>, \<open>RiskManager\<close>, \<open>OrderManager\<close>: fills and profit, the limits, and the order of each side.
    The locale \<open>request_port\<close> is what the manager needs of the engine.
  \<^item> \<open>FeatureEngine\<close>, \<open>TradeEngine\<close>, \<open>EngineOrders\<close>, \<open>EngineRounds\<close>, \<open>EngineLife\<close>: the round of the engine.
    \<open>EngineOrders\<close> interprets \<open>request_port\<close> on it and has its life, the relation \<open>engine_run\<close>, from the
    construction through the configuration by the main program (\<open>main_engine_runs\<close>) to its rounds;
    \<open>EngineRounds\<close> proves that a round ends and what it schedules; \<open>EngineLife\<close> states what holds of all rounds.
  \<^item> \<open>Gateways\<close> (\<open>order_gateway\<close>, \<open>market_data_consumer\<close>, \<open>jev_worker\<close>): the other ends of the queues; the locale
    \<open>sequenced_inlet\<close> is the check of sequence numbers that the first two share. \<open>Measurement\<close>: the
    capture of latencies and the profiler.

  \<^bold>\<open>The venues.\<close>
  \<^item> \<open>DepthBook\<close>, \<open>DepthSide\<close>, \<open>DepthMap\<close>, \<open>DepthFeed\<close> (\<open>binance_depth_book\<close>): table and list of a side are one
    finite map; the events of the stream act on the two maps under the sequence rule.
  \<^item> \<open>BinanceRest\<close>, \<open>BinanceAdapter\<close>, \<open>BinanceOrders\<close> (\<open>binance_um_futures_adapter\<close>): signed requests and
    retries, the start-up checks, the user stream; every request is answered once. \<open>WebSocketStream\<close>
    (\<open>binance_websocket_stream\<close>): its reader and its stopper, interleaved.
  \<^item> \<open>CtpTypes\<close>, \<open>CtpTransport\<close>, \<open>SimNowConfig\<close>, \<open>SimNowExecution\<close>, \<open>SimNowMarketData\<close>, \<open>SimNowVenueAdapter\<close>
    (\<open>trading/venue/simnow/\<close>): the SimNow adapter. \<open>SimNowLedger\<close>, \<open>SimNowSafety\<close>, \<open>SimNowRuns\<close>: its invariant
    over every run of requests, callbacks and polls with other threads between them.
  \<^item> \<open>SimexBook\<close>, \<open>SimexLevels\<close>, \<open>SimexOrders\<close>, \<open>SimexRuns\<close> (\<open>simex_venue_adapter\<close>): the five levels against
    their specification, the frames of the TCP stream, the accounting of orders.
  \<^item> \<open>VenueContract\<close> (\<open>venue_adapter.h\<close>): the interface over the three adapters; the locale \<open>venue_contract\<close> is
    what the main thread relies on, interpreted on each adapter and on their sum.

  \<^bold>\<open>The decision service and the main program.\<close>
  \<^item> \<open>Json\<close>: the accessors of the JSON library, as a parameter. \<open>JevConfig\<close>, \<open>JevCapture\<close>, \<open>JevHttp\<close>
    (\<open>jev_config\<close>, \<open>jev_capture\<close>, \<open>jev_http_client\<close>): what is posted, recorded and decoded.
  \<^item> \<open>JevVariant\<close>, \<open>JevReplay\<close> (\<open>tools/\<close>): the earlier wording of a request, and the replay.
  \<^item> \<open>TradingMain\<close> (\<open>trading_main.cpp\<close>): settings, construction, start, supervision, shutdown, exit status.

  \<^bold>\<open>Loops, bounds and fuel.\<close> A loop without a bound of its own is a \<open>partial_function\<close> whose value \<open>None\<close>
  means that it does not end, and each has a theorem that it ends: probing ends since an invariant keeps a
  vacant slot; a walk ends since the list is a ring of distinct nodes; a drain ends since every round
  leaves fewer elements; the supervision ends when its condition fails after some rounds
  (\<open>supervise_ends\<close>). Without the invariant they may hang, and the model shows it as \<open>Hang\<close>. Fuel
  occurs once: the recursion of \<open>diffJson\<close> follows the nesting of a document, and fuel above the size of the
  first document is enough (\<open>diff_json_enough\<close>). Capacities are those of the code; the tables are proved for
  every power of two and used at the sizes of the template arguments. Where arithmetic can overflow, the
  statement has the bound as a hypothesis (\<open>risk_allows_within_limits\<close>, \<open>position_fill_ok\<close>,
  \<open>book_levels_are_sums\<close>) or its result is the error of the code.

  \<^bold>\<open>Threads.\<close> Three places are interleaved step by step: the ring, the web socket stream, and the main thread
  beside all others (\<open>others\<close>, a function restricted only by what the other threads may not do). The
  SimNow runs put arbitrary changes of the shared control between two steps of a worker. Atomic accesses are
  sequentially consistent; that the release and acquire orders of the code are enough for the slots of
  the ring is what \<open>spsc_safe\<close> shows only as the absence of simultaneous accesses. Elsewhere a component is its
  sequence of calls on its own thread, and mutexes that make one call atomic are left out.

  \<^bold>\<open>Outside the model.\<close> JSON, HTTP, digests, TLS, sockets, the CTP library and the wire structures of simex are
  not in the repository: their results are arguments and their calls are logs. Interfaces with laws
  (JSON documents in \<open>JevVariant\<close>) come with a concrete instance on which the laws hold. Not modelled: the
  thread loops that only call the modelled round and yield, memory orders, console output, the
  text of a position (which prints doubles) and the vendor's headers.
\<close>

end
